(* ===== verification/Prelude.thy ===== *)
theory Prelude
  imports Main "HOL-Library.Word"
begin

text \<open>
  Shared vocabulary of the development: the machine types of the C code, the theorem
  collections that the component theories add to, and the generic lemmas on lists,
  words and sums used by more than one of them.
\<close>

unbundle bit_operations_syntax

section \<open>Machine types\<close>

type_synonym uint8_t = "8 word"
type_synonym uint16_t = "16 word"
type_synonym uint32_t = "32 word"

section \<open>Theorem collections\<close>

named_theorems span_simps \<open>denotation and well-formedness of span lists\<close>

section \<open>Lists\<close>

lemma sorted_wrt_snoc [simp]:
  "sorted_wrt P (xs @ [x]) \<longleftrightarrow> sorted_wrt P xs \<and> (\<forall>y\<in>set xs. P y x)"
  by (auto simp: sorted_wrt_append)

end
