(* ===== verification/Region.thy ===== *)
theory Region
  imports Prelude
begin

text \<open>
  The region algebra of \<open>libvncserver/rfbregion.c\<close>. A region is a list of vertical spans,
  each of which carries a list of horizontal spans, whose own \<open>subspan\<close> pointer is NULL.
  The C functions are the same code at both levels and call themselves on the subspans;
  here each of them takes the operations on the subspans as arguments and is used twice,
  at \<open>unit\<close> (the NULL subspan) and at lists of horizontal spans. The type of a list fixes
  whether its subspans are NULL, so the branches of the code that only report
  \<open>incompatible spans (only one NULL!)\<close> have no counterpart.

  A doubly linked list with a cursor \<open>d_curr\<close> is a pair of lists: \<open>pre\<close>, the spans before
  the cursor with the nearest first, and \<open>cur\<close>, the cursor's span and those after it
  (empty when the cursor is at \<open>&(list->back)\<close>).
\<close>

section \<open>Spans and span lists\<close>

record 'a sraSpan =
  span_start :: int
  span_end :: int
  subspan :: 'a

record sraRect =
  rx1 :: int
  ry1 :: int
  rx2 :: int
  ry2 :: int

type_synonym hspan = "unit sraSpan"
type_synonym hlist = "hspan list"
type_synonym vspan = "hlist sraSpan"
type_synonym sraRegion = "vspan list"

definition sraSpanCreate :: "int \<Rightarrow> int \<Rightarrow> 'a \<Rightarrow> 'a sraSpan" where
  "sraSpanCreate s e sub = \<lparr>span_start = s, span_end = e, subspan = sub\<rparr>"

fun sraSpanListEqual :: "('a \<Rightarrow> 'a \<Rightarrow> bool) \<Rightarrow> 'a sraSpan list \<Rightarrow> 'a sraSpan list \<Rightarrow> bool" where
  "sraSpanListEqual eq (a # as) (b # bs) =
     (if span_start a \<noteq> span_start b \<or> span_end a \<noteq> span_end b \<or> \<not> eq (subspan a) (subspan b)
      then False else sraSpanListEqual eq as bs)"
| "sraSpanListEqual eq [] [] = True"
| "sraSpanListEqual eq _ _ = False"

definition sraSpanListEmpty :: "'a sraSpan list \<Rightarrow> bool" where
  "sraSpanListEmpty l = (case l of [] \<Rightarrow> True | _ # _ \<Rightarrow> False)"

fun sraSpanListCount :: "('a \<Rightarrow> nat) \<Rightarrow> 'a sraSpan list \<Rightarrow> nat" where
  "sraSpanListCount count_sub [] = 0"
| "sraSpanListCount count_sub (s # ss) = count_sub (subspan s) + sraSpanListCount count_sub ss"

text \<open>\<open>sraSpanMergePrevious\<close> runs back from the cursor's span \<open>d\<close>, \<open>sraSpanMergeNext\<close> forward.\<close>

fun sraSpanMergePrevious ::
  "('a \<Rightarrow> 'a \<Rightarrow> bool) \<Rightarrow> 'a sraSpan list \<Rightarrow> 'a sraSpan \<Rightarrow> 'a sraSpan list \<times> 'a sraSpan" where
  "sraSpanMergePrevious eq [] d = ([], d)"
| "sraSpanMergePrevious eq (p # pre) d =
     (if span_end p = span_start d \<and> eq (subspan p) (subspan d)
      then sraSpanMergePrevious eq pre (d\<lparr>span_start := span_start p\<rparr>)
      else (p # pre, d))"

fun sraSpanMergeNext ::
  "('a \<Rightarrow> 'a \<Rightarrow> bool) \<Rightarrow> 'a sraSpan \<Rightarrow> 'a sraSpan list \<Rightarrow> 'a sraSpan \<times> 'a sraSpan list" where
  "sraSpanMergeNext eq d [] = (d, [])"
| "sraSpanMergeNext eq d (n # post) =
     (if span_start n = span_end d \<and> eq (subspan n) (subspan d)
      then sraSpanMergeNext eq (d\<lparr>span_end := span_end n\<rparr>) post
      else (d, n # post))"

lemma sraSpanMergeNext_length:
  "sraSpanMergeNext eq d ds = (d', ds') \<Longrightarrow> (d' = d \<and> ds' = ds) \<or> length ds' < length ds"
  by (induction eq d ds arbitrary: d' ds' rule: sraSpanMergeNext.induct)
     (fastforce split: if_splits)+

section \<open>Or\<close>

text \<open>
  \<open>list_start\<close> is \<open>s_curr->start\<close>; at the end of the list the code reads the field of the
  sentinel, whose value it never uses.
\<close>

definition list_start :: "'a sraSpan list \<Rightarrow> int" where
  "list_start l = (case l of [] \<Rightarrow> 0 | s # _ \<Rightarrow> span_start s)"

text \<open>
  The steps the three operations share: cutting \<open>d_curr\<close> at \<open>e\<close> (the tail goes after it) and at
  \<open>s\<close> (the head goes before it), and the two guarded merges.
\<close>

definition split_after :: "'a sraSpan \<Rightarrow> 'a sraSpan list \<Rightarrow> int \<Rightarrow> 'a sraSpan \<times> 'a sraSpan list" where
  "split_after d ds e =
     (if e < span_end d
      then (d\<lparr>span_end := e\<rparr>, sraSpanCreate e (span_end d) (subspan d) # ds)
      else (d, ds))"

definition split_before :: "'a sraSpan list \<Rightarrow> 'a sraSpan \<Rightarrow> int \<Rightarrow> 'a sraSpan list \<times> 'a sraSpan" where
  "split_before pre d s =
     (if s > span_start d
      then (sraSpanCreate (span_start d) s (subspan d) # pre, d\<lparr>span_start := s\<rparr>)
      else (pre, d))"

definition merge_previous_if ::
  "('a \<Rightarrow> 'a \<Rightarrow> bool) \<Rightarrow> 'a sraSpan list \<Rightarrow> 'a sraSpan \<Rightarrow> 'a sraSpan list \<times> 'a sraSpan" where
  "merge_previous_if eq pre d = (if pre \<noteq> [] then sraSpanMergePrevious eq pre d else (pre, d))"

definition merge_next_if ::
  "('a \<Rightarrow> 'a \<Rightarrow> bool) \<Rightarrow> 'a sraSpan \<Rightarrow> 'a sraSpan list \<Rightarrow> 'a sraSpan \<times> 'a sraSpan list" where
  "merge_next_if eq d ds = (if ds \<noteq> [] then sraSpanMergeNext eq d ds else (d, ds))"

definition or_insert_before ::
  "('a \<Rightarrow> 'a \<Rightarrow> bool) \<Rightarrow> 'a sraSpan list \<Rightarrow> 'a sraSpan \<Rightarrow> int \<Rightarrow> 'a \<Rightarrow> 'a sraSpan list \<times> 'a sraSpan" where
  "or_insert_before eq pre d s_start sub =
     (if s_start < span_start d
      then sraSpanMergePrevious eq (sraSpanCreate s_start (span_start d) sub # pre) d
      else (pre, d))"

text \<open>The body of the overlap branch of \<open>sraSpanListOr\<close>: insert, split, recurse, merge.\<close>

definition or_overlap ::
  "('a \<Rightarrow> 'a \<Rightarrow> bool) \<Rightarrow> ('a \<Rightarrow> 'a \<Rightarrow> 'a) \<Rightarrow> 'a sraSpan list \<Rightarrow> 'a sraSpan \<Rightarrow> 'a sraSpan list \<Rightarrow>
   int \<Rightarrow> 'a sraSpan \<Rightarrow> 'a sraSpan list \<times> 'a sraSpan \<times> 'a sraSpan list" where
  "or_overlap eq or_sub pre d ds s_start s =
     (let (pre1, d1) = or_insert_before eq pre d s_start (subspan s);
          (d2, ds2) = split_after d1 ds (span_end s);
          (pre3, d3) = split_before pre1 d2 s_start;
          d4 = d3\<lparr>subspan := or_sub (subspan d3) (subspan s)\<rparr>;
          (pre5, d5) = merge_previous_if eq pre3 d4;
          (d6, ds6) = merge_next_if eq d5 ds2
      in (pre5, d6, ds6))"

lemma sraSpanMergePrevious_snd:
  "span_end (snd (sraSpanMergePrevious eq pre d)) = span_end d"
  "subspan (snd (sraSpanMergePrevious eq pre d)) = subspan d"
  by (induction eq pre d rule: sraSpanMergePrevious.induct) auto

lemma sraSpanMergePrevious_end:
  "sraSpanMergePrevious eq pre d = (pre', d') \<Longrightarrow> span_end d' = span_end d \<and> subspan d' = subspan d"
  by (metis sraSpanMergePrevious_snd snd_conv)

lemma split_merge_length:
  assumes "split_after d ds e = (d2, ds2)" and "span_end d5 = span_end d2"
    and "merge_next_if eq d5 ds2 = (d6, ds6)" and "e > span_end d6"
  shows "length ds6 \<le> length ds"
proof (cases "e < span_end d")
  case False
  with assms(1) have "ds2 = ds" by (simp add: split_after_def)
  with assms(3) show ?thesis
    by (auto simp: merge_next_if_def split: if_splits dest!: sraSpanMergeNext_length)
next
  case True
  with assms(1) have "span_end d2 = e" "length ds2 = Suc (length ds)"
    by (auto simp: split_after_def)
  with assms(2-4) show ?thesis
    by (auto simp: merge_next_if_def split: if_splits dest!: sraSpanMergeNext_length)
qed

lemma merge_previous_if_end:
  "merge_previous_if eq pre d = (pre', d') \<Longrightarrow> span_end d' = span_end d \<and> subspan d' = subspan d"
  by (auto simp: merge_previous_if_def split: if_splits dest: sraSpanMergePrevious_end)

lemma split_before_end:
  "split_before pre d s = (pre', d') \<Longrightarrow> span_end d' = span_end d \<and> subspan d' = subspan d"
  by (auto simp: split_before_def split: if_splits)

lemma or_insert_before_end:
  "or_insert_before eq pre d s sub = (pre', d') \<Longrightarrow> span_end d' = span_end d \<and> subspan d' = subspan d"
  by (auto simp: or_insert_before_def split: if_splits dest: sraSpanMergePrevious_end)

lemma or_overlap_cases:
  assumes "or_overlap eq or_sub pre d ds ss s = (pre5, d6, ds6)"
  obtains pre1 d1 d2 ds2 pre3 d3 d5 where
    "or_insert_before eq pre d ss (subspan s) = (pre1, d1)"
    "split_after d1 ds (span_end s) = (d2, ds2)"
    "split_before pre1 d2 ss = (pre3, d3)"
    "merge_previous_if eq pre3 (d3\<lparr>subspan := or_sub (subspan d3) (subspan s)\<rparr>) = (pre5, d5)"
    "merge_next_if eq d5 ds2 = (d6, ds6)"
proof -
  obtain pre1 d1 where 1: "or_insert_before eq pre d ss (subspan s) = (pre1, d1)"
    by fastforce
  obtain d2 ds2 where 2: "split_after d1 ds (span_end s) = (d2, ds2)" by fastforce
  obtain pre3 d3 where 3: "split_before pre1 d2 ss = (pre3, d3)" by fastforce
  obtain pre4 d5 where 4:
    "merge_previous_if eq pre3 (d3\<lparr>subspan := or_sub (subspan d3) (subspan s)\<rparr>) = (pre4, d5)"
    by fastforce
  obtain d7 ds7 where 5: "merge_next_if eq d5 ds2 = (d7, ds7)" by fastforce
  from assms have "pre4 = pre5" "d7 = d6" "ds7 = ds6"
    by (simp_all add: or_overlap_def Let_def 1 2 3 4 5)
  with that 1 2 3 4 5 show ?thesis by blast
qed

lemma or_overlap_length:
  assumes "or_overlap eq or_sub pre d ds ss s = (pre', d', ds')" and "span_end s > span_end d'"
  shows "length ds' \<le> length ds"
  using assms(1)
proof (rule or_overlap_cases)
  fix pre1 d1 d2 ds2 pre3 d3 d5
  assume *: "split_after d1 ds (span_end s) = (d2, ds2)" "split_before pre1 d2 ss = (pre3, d3)"
    "merge_previous_if eq pre3 (d3\<lparr>subspan := or_sub (subspan d3) (subspan s)\<rparr>) = (pre', d5)"
    "merge_next_if eq d5 ds2 = (d', ds')"
  then have "span_end d5 = span_end d2"
    by (auto dest!: split_before_end merge_previous_if_end)
  with * assms(2) show ?thesis by (blast intro: split_merge_length)
qed

function sraSpanListOr_loop ::
  "('a \<Rightarrow> 'a \<Rightarrow> bool) \<Rightarrow> ('a \<Rightarrow> 'a \<Rightarrow> 'a) \<Rightarrow> 'a sraSpan list \<Rightarrow> 'a sraSpan list \<Rightarrow> int \<Rightarrow>
   'a sraSpan list \<Rightarrow> 'a sraSpan list" where
  "sraSpanListOr_loop eq or_sub pre cur s_start [] = rev pre @ cur"
| "sraSpanListOr_loop eq or_sub pre [] s_start (s # src) =
     sraSpanListOr_loop eq or_sub (sraSpanCreate s_start (span_end s) (subspan s) # pre) []
       (list_start src) src"
| "sraSpanListOr_loop eq or_sub pre (d # ds) s_start (s # src) =
     (if span_start d \<ge> span_end s then
        (case sraSpanMergePrevious eq (sraSpanCreate s_start (span_end s) (subspan s) # pre) d of
           (pre', d') \<Rightarrow> sraSpanListOr_loop eq or_sub pre' (d' # ds) (list_start src) src)
      else if s_start < span_end d \<and> span_end s > span_start d then
        (case or_overlap eq or_sub pre d ds s_start s of
           (pre', d', ds') \<Rightarrow>
             if span_end s > span_end d'
             then sraSpanListOr_loop eq or_sub (d' # pre') ds' (span_end d') (s # src)
             else sraSpanListOr_loop eq or_sub pre' (d' # ds') (list_start src) src)
      else sraSpanListOr_loop eq or_sub (d # pre) ds s_start (s # src))"
  by pat_completeness auto
termination
  by (relation "measures [\<lambda>(eq, f, pre, cur, ss, src). length src,
                          \<lambda>(eq, f, pre, cur, ss, src). length cur]")
     (auto dest!: or_overlap_length[OF sym])

definition sraSpanListOr ::
  "('a \<Rightarrow> 'a \<Rightarrow> bool) \<Rightarrow> ('a \<Rightarrow> 'a \<Rightarrow> 'a) \<Rightarrow> 'a sraSpan list \<Rightarrow> 'a sraSpan list \<Rightarrow> 'a sraSpan list" where
  "sraSpanListOr eq or_sub dest src = sraSpanListOr_loop eq or_sub [] dest (list_start src) src"

section \<open>And\<close>

text \<open>
  The recursive call returns the new subspans and whether they are not empty. A span whose
  subspans become empty is removed.
\<close>

function sraSpanListAnd_loop ::
  "('a \<Rightarrow> 'a \<Rightarrow> bool) \<Rightarrow> ('a \<Rightarrow> 'a \<Rightarrow> 'a \<times> bool) \<Rightarrow> 'a sraSpan list \<Rightarrow> 'a sraSpan list \<Rightarrow>
   'a sraSpan list \<Rightarrow> 'a sraSpan list" where
  "sraSpanListAnd_loop eq and_sub pre cur [] = rev pre"
| "sraSpanListAnd_loop eq and_sub pre [] (s # src) = rev pre"
| "sraSpanListAnd_loop eq and_sub pre (d # ds) (s # src) =
     (if span_start d \<ge> span_end s then sraSpanListAnd_loop eq and_sub pre (d # ds) src
      else if span_end d \<le> span_start s then sraSpanListAnd_loop eq and_sub pre ds (s # src)
      else
        (let d1 = (if span_start s > span_start d then d\<lparr>span_start := span_start s\<rparr> else d);
             (d2, ds2) = split_after d1 ds (span_end s);
             (sub, nonempty) = and_sub (subspan d2) (subspan s);
             d3 = d2\<lparr>subspan := sub\<rparr>
         in if \<not> nonempty then sraSpanListAnd_loop eq and_sub pre ds2 (s # src)
            else
              (case merge_previous_if eq pre d3 of
                 (pre', d') \<Rightarrow>
                   sraSpanListAnd_loop eq and_sub
                     (if span_end s \<ge> span_end d' then d' # pre' else pre')
                     (if span_end s \<ge> span_end d' then ds2 else d' # ds2)
                     (if span_end s \<le> span_end d' then src else s # src))))"
  by pat_completeness auto
termination
  by (relation "measures [\<lambda>(eq, f, pre, cur, src). length src,
                          \<lambda>(eq, f, pre, cur, src). length cur,
                          \<lambda>(eq, f, pre, cur, src).
                             if span_start (hd cur) < span_end (hd src) then 1 else 0]")
     (auto simp: split_after_def sraSpanCreate_def split: if_splits
           dest!: merge_previous_if_end[OF sym])

definition sraSpanListAnd ::
  "('a \<Rightarrow> 'a \<Rightarrow> bool) \<Rightarrow> ('a \<Rightarrow> 'a \<Rightarrow> 'a \<times> bool) \<Rightarrow> 'a sraSpan list \<Rightarrow> 'a sraSpan list \<Rightarrow>
   'a sraSpan list \<times> bool" where
  "sraSpanListAnd eq and_sub dest src =
     (let l = sraSpanListAnd_loop eq and_sub [] dest src in (l, \<not> sraSpanListEmpty l))"

section \<open>Subtract\<close>

function sraSpanListSubtract_loop ::
  "('a \<Rightarrow> 'a \<Rightarrow> bool) \<Rightarrow> ('a \<Rightarrow> 'a \<Rightarrow> 'a \<times> bool) \<Rightarrow> 'a sraSpan list \<Rightarrow> 'a sraSpan list \<Rightarrow>
   'a sraSpan list \<Rightarrow> 'a sraSpan list" where
  "sraSpanListSubtract_loop eq sub_sub pre cur [] = rev pre @ cur"
| "sraSpanListSubtract_loop eq sub_sub pre [] (s # src) = rev pre"
| "sraSpanListSubtract_loop eq sub_sub pre (d # ds) (s # src) =
     (if span_start d \<ge> span_end s then sraSpanListSubtract_loop eq sub_sub pre (d # ds) src
      else if span_end d \<le> span_start s then sraSpanListSubtract_loop eq sub_sub (d # pre) ds (s # src)
      else
        (let (pre1, d1) = split_before pre d (span_start s);
             (d2, ds2) = split_after d1 ds (span_end s);
             (sub, nonempty) = sub_sub (subspan d2) (subspan s);
             d3 = d2\<lparr>subspan := sub\<rparr>
         in if \<not> nonempty then sraSpanListSubtract_loop eq sub_sub pre1 ds2 (s # src)
            else
              (let (pre4, d4) = merge_previous_if eq pre1 d3;
                   (d5, ds5) = merge_next_if eq d4 ds2
               in if span_end s > span_end d5
                  then sraSpanListSubtract_loop eq sub_sub (d5 # pre4) ds5 (s # src)
                  else sraSpanListSubtract_loop eq sub_sub pre4 (d5 # ds5) src)))"
  by pat_completeness auto
termination
proof (relation "measures [\<lambda>(eq, f, pre, cur, src). length src,
                          \<lambda>(eq, f, pre, cur, src). length cur,
                          \<lambda>(eq, f, pre, cur, src).
                             if span_start (hd cur) < span_end (hd src) then 1 else 0]",
       goal_cases)
  case (5 eq f pre d ds s src x pre1 d1 xa d2 ds2 xb sub ne d3 xc pre4 d4 xd d5 ds5)
  have e: "span_end d4 = span_end d2"
    using "5"(9,11,12) by (auto dest!: merge_previous_if_end[OF sym])
  have "length ds5 \<le> length ds"
    using split_merge_length[OF _ e] "5" by metis
  then show ?case by simp
qed (auto simp: split_after_def sraSpanCreate_def split: if_splits)

definition sraSpanListSubtract ::
  "('a \<Rightarrow> 'a \<Rightarrow> bool) \<Rightarrow> ('a \<Rightarrow> 'a \<Rightarrow> 'a \<times> bool) \<Rightarrow> 'a sraSpan list \<Rightarrow> 'a sraSpan list \<Rightarrow>
   'a sraSpan list \<times> bool" where
  "sraSpanListSubtract eq sub_sub dest src =
     (let l = sraSpanListSubtract_loop eq sub_sub [] dest src in (l, \<not> sraSpanListEmpty l))"

section \<open>The two levels\<close>

text \<open>The operations on a NULL subspan, as the guards on \<open>!dest\<close> and \<open>!d_curr->subspan\<close> give them.\<close>

definition nullDup :: "unit \<Rightarrow> unit" where "nullDup s = ()"

definition nullEqual :: "unit \<Rightarrow> unit \<Rightarrow> bool" where "nullEqual s1 s2 = True"

definition nullOr :: "unit \<Rightarrow> unit \<Rightarrow> unit" where "nullOr d s = ()"

definition nullAnd :: "unit \<Rightarrow> unit \<Rightarrow> unit \<times> bool" where "nullAnd d s = ((), True)"

definition nullSubtract :: "unit \<Rightarrow> unit \<Rightarrow> unit \<times> bool" where "nullSubtract d s = ((), False)"

definition nullCount :: "unit \<Rightarrow> nat" where "nullCount s = 1"

fun sraSpanListDup :: "('a \<Rightarrow> 'a) \<Rightarrow> 'a sraSpan list \<Rightarrow> 'a sraSpan list" where
  "sraSpanListDup dup [] = []"
| "sraSpanListDup dup (s # ss) =
     sraSpanCreate (span_start s) (span_end s) (dup (subspan s)) # sraSpanListDup dup ss"

section \<open>Region routines\<close>

definition sraRgnCreate :: sraRegion where
  "sraRgnCreate = []"

definition sraRgnCreateRect :: "int \<Rightarrow> int \<Rightarrow> int \<Rightarrow> int \<Rightarrow> sraRegion" where
  "sraRgnCreateRect x1 y1 x2 y2 =
     (let hlist = [sraSpanCreate x1 x2 ()] in [sraSpanCreate y1 y2 hlist])"

definition sraRgnCreateRgn :: "sraRegion \<Rightarrow> sraRegion" where
  "sraRgnCreateRgn src = sraSpanListDup (sraSpanListDup nullDup) src"

definition sraRgnMakeEmpty :: "sraRegion \<Rightarrow> sraRegion" where
  "sraRgnMakeEmpty rgn = []"

definition sraRgnAnd :: "sraRegion \<Rightarrow> sraRegion \<Rightarrow> sraRegion \<times> bool" where
  "sraRgnAnd dst src =
     sraSpanListAnd (sraSpanListEqual nullEqual) (sraSpanListAnd nullEqual nullAnd) dst src"

definition sraRgnOr :: "sraRegion \<Rightarrow> sraRegion \<Rightarrow> sraRegion" where
  "sraRgnOr dst src =
     sraSpanListOr (sraSpanListEqual nullEqual) (sraSpanListOr nullEqual nullOr) dst src"

definition sraRgnSubtract :: "sraRegion \<Rightarrow> sraRegion \<Rightarrow> sraRegion \<times> bool" where
  "sraRgnSubtract dst src =
     sraSpanListSubtract (sraSpanListEqual nullEqual) (sraSpanListSubtract nullEqual nullSubtract)
       dst src"

definition sraRgnOffset :: "sraRegion \<Rightarrow> int \<Rightarrow> int \<Rightarrow> sraRegion" where
  "sraRgnOffset dst dx dy =
     map (\<lambda>v. v\<lparr>span_start := span_start v + dy, span_end := span_end v + dy,
                subspan := map (\<lambda>h. h\<lparr>span_start := span_start h + dx,
                                      span_end := span_end h + dx\<rparr>) (subspan v)\<rparr>) dst"

text \<open>
  \<open>sraRgnBBox\<close>: \<open>bbox_row\<close> and \<open>bbox_cell\<close> are the bodies of the two loops over the running
  \<open>(xmin, ymin, xmax, ymax)\<close>, which start at \<open>INT_MAX\<close> and \<open>1 - INT_MAX\<close>. A NULL argument is \<open>None\<close>.
\<close>

definition INT_MAX :: int where "INT_MAX = 2147483647"

definition bbox_cell :: "int \<times> int \<times> int \<times> int \<Rightarrow> hspan \<Rightarrow> int \<times> int \<times> int \<times> int" where
  "bbox_cell b h =
     (case b of (xmin, ymin, xmax, ymax) \<Rightarrow>
        ((if span_start h < xmin then span_start h else xmin), ymin,
         (if span_end h > xmax then span_end h else xmax), ymax))"

definition bbox_row :: "int \<times> int \<times> int \<times> int \<Rightarrow> vspan \<Rightarrow> int \<times> int \<times> int \<times> int" where
  "bbox_row b v =
     (case b of (xmin, ymin, xmax, ymax) \<Rightarrow>
        foldl bbox_cell
          (xmin, (if span_start v < ymin then span_start v else ymin),
           xmax, (if span_end v > ymax then span_end v else ymax)) (subspan v))"

definition sraRgnBBox :: "sraRegion option \<Rightarrow> sraRegion" where
  "sraRgnBBox src =
     (case src of
        None \<Rightarrow> sraRgnCreate
      | Some rgn \<Rightarrow>
          (case foldl bbox_row (INT_MAX, INT_MAX, 1 - INT_MAX, 1 - INT_MAX) rgn of
             (xmin, ymin, xmax, ymax) \<Rightarrow>
               if xmax < xmin \<or> ymax < ymin then sraRgnCreate
               else sraRgnCreateRect xmin ymin xmax ymax))"

text \<open>\<open>sraRgnPopRect\<close>: bit 0 of \<open>flags\<close> is bottom to top, bit 1 right to left.\<close>

definition sraRgnPopRect :: "sraRegion \<Rightarrow> uint32_t \<Rightarrow> sraRegion \<times> sraRect option" where
  "sraRgnPopRect rgn flags =
     (let right2left = (flags AND 2 = 2); bottom2top = (flags AND 1 = 1);
          rows = (if bottom2top then rev rgn else rgn)
      in case rows of
           [] \<Rightarrow> (rgn, None)
         | v # vs \<Rightarrow>
             (case (if right2left then rev (subspan v) else subspan v) of
                [] \<Rightarrow> (rgn, None)
              | h # hs \<Rightarrow>
                  let rect = \<lparr>rx1 = span_start h, ry1 = span_start v,
                              rx2 = span_end h, ry2 = span_end v\<rparr>;
                      sub = (if right2left then rev hs else hs);
                      rows' = (if sraSpanListEmpty sub then vs else v\<lparr>subspan := sub\<rparr> # vs)
                  in ((if bottom2top then rev rows' else rows'), Some rect)))"

definition sraRgnCountRects :: "sraRegion \<Rightarrow> nat" where
  "sraRgnCountRects rgn = sraSpanListCount (sraSpanListCount nullCount) rgn"

definition sraRgnEmpty :: "sraRegion \<Rightarrow> bool" where
  "sraRgnEmpty rgn = sraSpanListEmpty rgn"

section \<open>The rectangle iterator\<close>

text \<open>
  \<open>sPtrs[0]\<close> and \<open>sPtrs[2]\<close> are the current row and cell, \<open>sPtrs[1]\<close> and \<open>sPtrs[3]\<close> the ends of
  the walks. \<open>it_rows\<close> and \<open>it_cells\<close> are what lies between them in the order of the walk, \<open>it_row\<close>
  the current row. \<open>it_row = None\<close> is \<open>ptrPos = 0\<close>, \<open>it_row = Some r\<close> is \<open>ptrPos = 2\<close>.
\<close>

record sraRectangleIterator =
  reverseX :: bool
  reverseY :: bool
  it_rows :: "vspan list"
  it_row :: "vspan option"
  it_cells :: "hspan list"

definition sraRgnGetReverseIterator :: "sraRegion \<Rightarrow> bool \<Rightarrow> bool \<Rightarrow> sraRectangleIterator" where
  "sraRgnGetReverseIterator s rx ry =
     \<lparr>reverseX = rx, reverseY = ry, it_rows = (if ry then rev s else s),
      it_row = None, it_cells = []\<rparr>"

definition sraRgnGetIterator :: "sraRegion \<Rightarrow> sraRectangleIterator" where
  "sraRgnGetIterator s =
     \<lparr>reverseX = False, reverseY = False, it_rows = s, it_row = None, it_cells = []\<rparr>"

definition rect_of :: "vspan \<Rightarrow> hspan \<Rightarrow> sraRect" where
  "rect_of v h = \<lparr>rx1 = span_start h, ry1 = span_start v, rx2 = span_end h, ry2 = span_end v\<rparr>"

text \<open>
  A row with no cells would leave \<open>sPtrs[2]\<close> on a sentinel; no region the library builds has
  one (\<open>rgn_ok\<close> below), and the model stops there.
\<close>

definition sraRgnIteratorNext ::
  "sraRectangleIterator \<Rightarrow> sraRectangleIterator \<times> sraRect option" where
  "sraRgnIteratorNext i =
     (case (it_row i, it_cells i) of
        (Some v, h # hs) \<Rightarrow> (i\<lparr>it_cells := hs\<rparr>, Some (rect_of v h))
      | _ \<Rightarrow>
          (case it_rows i of
             [] \<Rightarrow> (i\<lparr>it_row := None, it_cells := []\<rparr>, None)
           | v # vs \<Rightarrow>
               (case (if reverseX i then rev (subspan v) else subspan v) of
                  [] \<Rightarrow> (i\<lparr>it_rows := vs, it_row := Some v, it_cells := []\<rparr>, None)
                | h # hs \<Rightarrow> (i\<lparr>it_rows := vs, it_row := Some v, it_cells := hs\<rparr>,
                             Some (rect_of v h)))))"

lemma sraRgnIteratorNext_decreases:
  assumes "sraRgnIteratorNext i = (i', Some r)"
  shows "length (it_rows i') < length (it_rows i) \<or>
         (it_rows i' = it_rows i \<and> length (it_cells i') < length (it_cells i))"
  using assms
  by (auto simp: sraRgnIteratorNext_def split: option.splits list.splits if_splits)

text \<open>\<open>while (sraRgnIteratorNext(i, &rect)) ...\<close>: the rectangles a loop over the iterator sees.\<close>

function iterator_rects :: "sraRectangleIterator \<Rightarrow> sraRect list" where
  "iterator_rects i =
     (case sraRgnIteratorNext i of
        (i', None) \<Rightarrow> []
      | (i', Some r) \<Rightarrow> r # iterator_rects i')"
  by pat_completeness auto
termination
  by (relation "measures [\<lambda>i. length (it_rows i), \<lambda>i. length (it_cells i)]")
     (auto dest!: sraRgnIteratorNext_decreases[OF sym])

declare iterator_rects.simps [simp del]

section \<open>Clipping\<close>

definition sraClipRect ::
  "int \<Rightarrow> int \<Rightarrow> int \<Rightarrow> int \<Rightarrow> int \<Rightarrow> int \<Rightarrow> int \<Rightarrow> int \<Rightarrow> (int \<times> int \<times> int \<times> int) \<times> bool" where
  "sraClipRect x y w h cx cy cw ch =
     (let (x1, w1) = (if x < cx then (cx, w - (cx - x)) else (x, w));
          (y1, h1) = (if y < cy then (cy, h - (cy - y)) else (y, h));
          w2 = (if x1 + w1 > cx + cw then (cx + cw) - x1 else w1);
          h2 = (if y1 + h1 > cy + ch then (cy + ch) - y1 else h1)
      in ((x1, y1, w2, h2), w2 > 0 \<and> h2 > 0))"

definition sraClipRect2 ::
  "int \<Rightarrow> int \<Rightarrow> int \<Rightarrow> int \<Rightarrow> int \<Rightarrow> int \<Rightarrow> int \<Rightarrow> int \<Rightarrow> (int \<times> int \<times> int \<times> int) \<times> bool" where
  "sraClipRect2 x y x2 y2 cx cy cx2 cy2 =
     (let x = (if x < cx then cx else x);
          y = (if y < cy then cy else y);
          x = (if x \<ge> cx2 then cx2 - 1 else x);
          y = (if y \<ge> cy2 then cy2 - 1 else y);
          x2 = (if x2 \<le> cx then cx + 1 else x2);
          y2 = (if y2 \<le> cy then cy + 1 else y2);
          x2 = (if x2 > cx2 then cx2 else x2);
          y2 = (if y2 > cy2 then cy2 else y2)
      in ((x, y, x2, y2), x2 > x \<and> y2 > y))"

end
