(* ===== verification/RegionSets.thy ===== *)
theory RegionSets
  imports Region
begin

text \<open>
  What a region means: the set of pixels it covers. The locale \<open>subspan_algebra\<close> is the
  contract between a span list and the operations on its subspans; the correctness of the
  loops of \<open>rfbregion.c\<close> is proved once inside it. It is interpreted at the NULL subspans,
  and again at the lists of horizontal spans, whose laws are the theorems of the first
  interpretation.
\<close>

section \<open>Denotation and well-formedness\<close>

definition span_set :: "('a \<Rightarrow> 'p set) \<Rightarrow> 'a sraSpan \<Rightarrow> (int \<times> 'p) set" where
  "span_set den s = {span_start s..<span_end s} \<times> den (subspan s)"

definition list_set :: "('a \<Rightarrow> 'p set) \<Rightarrow> 'a sraSpan list \<Rightarrow> (int \<times> 'p) set" where
  "list_set den ss = (\<Union>s\<in>set ss. span_set den s)"

definition span_ok :: "('a \<Rightarrow> bool) \<Rightarrow> 'a sraSpan \<Rightarrow> bool" where
  "span_ok ok s \<longleftrightarrow> span_start s < span_end s \<and> ok (subspan s)"

definition before :: "'a sraSpan \<Rightarrow> 'a sraSpan \<Rightarrow> bool" where
  "before a b \<longleftrightarrow> span_end a \<le> span_start b"

text \<open>Spans are not empty, sorted and do not overlap.\<close>

definition list_ok :: "('a \<Rightarrow> bool) \<Rightarrow> 'a sraSpan list \<Rightarrow> bool" where
  "list_ok ok ss \<longleftrightarrow> (\<forall>s\<in>set ss. span_ok ok s) \<and> sorted_wrt before ss"

definition nonempty_list_ok :: "('a \<Rightarrow> bool) \<Rightarrow> 'a sraSpan list \<Rightarrow> bool" where
  "nonempty_list_ok ok ss \<longleftrightarrow> ss \<noteq> [] \<and> list_ok ok ss"

lemma list_set_simps [simp]:
  "list_set den [] = {}"
  "list_set den (s # ss) = span_set den s \<union> list_set den ss"
  "list_set den (xs @ ys) = list_set den xs \<union> list_set den ys"
  "list_set den (rev xs) = list_set den xs"
  by (auto simp: list_set_def)

lemma in_span_set: "(i, p) \<in> span_set den s \<longleftrightarrow>
    span_start s \<le> i \<and> i < span_end s \<and> p \<in> den (subspan s)"
  by (auto simp: span_set_def)

lemma list_ok_Nil [simp]: "list_ok ok []"
  by (simp add: list_ok_def)

lemma list_ok_Cons: "list_ok ok (s # ss) \<longleftrightarrow>
    span_ok ok s \<and> (\<forall>t\<in>set ss. before s t) \<and> list_ok ok ss"
  by (auto simp: list_ok_def)

lemma list_ok_append: "list_ok ok (xs @ ys) \<longleftrightarrow>
    list_ok ok xs \<and> list_ok ok ys \<and> (\<forall>x\<in>set xs. \<forall>y\<in>set ys. before x y)"
  by (auto simp: list_ok_def sorted_wrt_append)

text \<open>A zipper: the spans before the cursor, the span at the cursor, those after it.\<close>

lemma list_ok_rev_Cons: "list_ok ok (rev (p # pre)) \<longleftrightarrow>
    span_ok ok p \<and> (\<forall>q\<in>set pre. before q p) \<and> list_ok ok (rev pre)"
  by (auto simp: list_ok_def)

lemma before_trans:
  "before a b \<Longrightarrow> span_ok ok b \<Longrightarrow> before b c \<Longrightarrow> before a c"
  by (auto simp: before_def span_ok_def)

lemma before_eta: "before = (\<lambda>a b. span_end a \<le> span_start b)"
  by (auto simp: fun_eq_iff before_def)

lemma list_ok_span_ok: "list_ok ok ss \<Longrightarrow> s \<in> set ss \<Longrightarrow> span_ok ok s"
  by (simp add: list_ok_def)

lemma in_list_setD:
  assumes "(i, p) \<in> list_set den ss"
  obtains s where "s \<in> set ss" "span_start s \<le> i" "i < span_end s" "p \<in> den (subspan s)"
  using assms by (auto simp: list_set_def in_span_set)

lemma sraSpanCreate_simps [simp]:
  "span_start (sraSpanCreate s e sub) = s"
  "span_end (sraSpanCreate s e sub) = e"
  "subspan (sraSpanCreate s e sub) = sub"
  by (simp_all add: sraSpanCreate_def)

section \<open>The contract of the subspans\<close>

locale subspan_algebra =
  fixes den :: "'a \<Rightarrow> 'p set"
    and ok :: "'a \<Rightarrow> bool"
    and eq :: "'a \<Rightarrow> 'a \<Rightarrow> bool"
    and or_sub :: "'a \<Rightarrow> 'a \<Rightarrow> 'a"
    and and_sub :: "'a \<Rightarrow> 'a \<Rightarrow> 'a \<times> bool"
    and sub_sub :: "'a \<Rightarrow> 'a \<Rightarrow> 'a \<times> bool"
  assumes den_nonempty: "ok a \<Longrightarrow> den a \<noteq> {}"
    and eq_iff: "eq a b \<longleftrightarrow> a = b"
    and or_ok: "ok a \<Longrightarrow> ok b \<Longrightarrow> ok (or_sub a b)"
    and or_den: "ok a \<Longrightarrow> ok b \<Longrightarrow> den (or_sub a b) = den a \<union> den b"
    and and_ok: "ok a \<Longrightarrow> ok b \<Longrightarrow> and_sub a b = (c, f) \<Longrightarrow> f \<Longrightarrow> ok c"
    and and_den: "ok a \<Longrightarrow> ok b \<Longrightarrow> and_sub a b = (c, f) \<Longrightarrow> f \<Longrightarrow> den c = den a \<inter> den b"
    and and_flag: "ok a \<Longrightarrow> ok b \<Longrightarrow> and_sub a b = (c, f) \<Longrightarrow> f \<longleftrightarrow> den a \<inter> den b \<noteq> {}"
    and sub_ok: "ok a \<Longrightarrow> ok b \<Longrightarrow> sub_sub a b = (c, f) \<Longrightarrow> f \<Longrightarrow> ok c"
    and sub_den: "ok a \<Longrightarrow> ok b \<Longrightarrow> sub_sub a b = (c, f) \<Longrightarrow> f \<Longrightarrow> den c = den a - den b"
    and sub_flag: "ok a \<Longrightarrow> ok b \<Longrightarrow> sub_sub a b = (c, f) \<Longrightarrow> f \<longleftrightarrow> den a - den b \<noteq> {}"
begin

abbreviation "lset \<equiv> list_set den"
abbreviation "sset \<equiv> span_set den"

text \<open>The zipper invariant: \<open>zip_ok pre cur\<close> says that the list with its cursor is well formed.\<close>

abbreviation "zip_ok pre cur \<equiv> list_ok ok (rev pre @ cur)"

lemma zip_ok_Cons: "zip_ok pre (d # ds) \<longleftrightarrow>
    list_ok ok (rev pre) \<and> list_ok ok ds \<and> span_ok ok d \<and> (\<forall>p\<in>set pre. before p d) \<and>
    (\<forall>t\<in>set ds. before d t)"
  by (auto simp: list_ok_append list_ok_Cons dest: before_trans)

lemma zip_shift: "zip_ok pre (d # ds) \<longleftrightarrow> zip_ok (d # pre) ds"
  by simp

lemma merge_previous:
  assumes "zip_ok pre (d # ds)" and "sraSpanMergePrevious eq pre d = (pre', d')"
  shows "zip_ok pre' (d' # ds) \<and> lset pre' \<union> sset d' = lset pre \<union> sset d \<and>
         span_start d' \<le> span_start d \<and> set pre' \<subseteq> set pre"
  using assms
proof (induction pre arbitrary: d)
  case (Cons p pre)
  show ?case
  proof (cases "span_end p = span_start d \<and> eq (subspan p) (subspan d)")
    case False
    with Cons.prems show ?thesis by (auto simp: Un_commute)
  next
    case True
    let ?d = "d\<lparr>span_start := span_start p\<rparr>"
    from Cons.prems True have ok: "zip_ok pre (?d # ds)"
      by (auto simp: list_ok_append list_ok_Cons span_ok_def before_def)
    from Cons.prems True have rest: "sraSpanMergePrevious eq pre ?d = (pre', d')" by simp
    from Cons.prems(1) have "span_ok ok p" "span_ok ok d"
      by (auto simp: list_ok_append list_ok_Cons)
    with True have "sset ?d = sset p \<union> sset d"
      by (auto simp: span_set_def eq_iff span_ok_def)
    moreover from \<open>span_ok ok p\<close> True have "span_start p \<le> span_start d"
      by (auto simp: span_ok_def)
    ultimately show ?thesis using Cons.IH[OF ok rest] by auto
  qed
qed auto

lemma merge_next:
  assumes "zip_ok pre (d # ds)" and "sraSpanMergeNext eq d ds = (d', ds')"
  shows "zip_ok pre (d' # ds') \<and> sset d' \<union> lset ds' = sset d \<union> lset ds \<and>
         span_start d' = span_start d \<and> span_end d \<le> span_end d' \<and> subspan d' = subspan d"
  using assms
proof (induction ds arbitrary: d)
  case (Cons n ds)
  show ?case
  proof (cases "span_start n = span_end d \<and> eq (subspan n) (subspan d)")
    case False
    with Cons.prems show ?thesis by auto
  next
    case True
    let ?d = "d\<lparr>span_end := span_end n\<rparr>"
    from Cons.prems True have ok: "zip_ok pre (?d # ds)"
      by (auto simp: list_ok_append list_ok_Cons span_ok_def before_def)
    from Cons.prems True have rest: "sraSpanMergeNext eq ?d ds = (d', ds')" by simp
    from Cons.prems(1) have "span_ok ok n" "span_ok ok d"
      by (auto simp: list_ok_append list_ok_Cons)
    with True have "sset ?d = sset d \<union> sset n"
      by (auto simp: span_set_def eq_iff span_ok_def)
    moreover from \<open>span_ok ok n\<close> True have "span_end d \<le> span_end n"
      by (auto simp: span_ok_def)
    ultimately show ?thesis using Cons.IH[OF ok rest] by auto
  qed
qed auto

lemma merge_previous_if:
  assumes "zip_ok pre (d # ds)" and "merge_previous_if eq pre d = (pre', d')"
  shows "zip_ok pre' (d' # ds)" "lset pre' \<union> sset d' = lset pre \<union> sset d"
    "span_start d' \<le> span_start d" "set pre' \<subseteq> set pre"
    "span_end d' = span_end d" "subspan d' = subspan d"
  using assms merge_previous[of pre d ds pre' d'] merge_previous_if_end[OF assms(2)]
  by (auto simp: merge_previous_if_def split: if_splits)

lemma merge_next_if:
  assumes "zip_ok pre (d # ds)" and "merge_next_if eq d ds = (d', ds')"
  shows "zip_ok pre (d' # ds')" "sset d' \<union> lset ds' = sset d \<union> lset ds"
    "span_start d' = span_start d" "span_end d \<le> span_end d'" "subspan d' = subspan d"
  using assms merge_next[of pre d ds d' ds']
  by (auto simp: merge_next_if_def split: if_splits)

lemma split_after:
  assumes "zip_ok pre (d # ds)" and "span_start d < e" and "split_after d ds e = (d', ds')"
  shows "zip_ok pre (d' # ds')" "sset d' \<union> lset ds' = sset d \<union> lset ds"
    "span_start d' = span_start d" "span_end d' = min e (span_end d)" "subspan d' = subspan d"
proof -
  show "zip_ok pre (d' # ds')"
    using assms by (fastforce simp: split_after_def zip_ok_Cons list_ok_Cons span_ok_def before_def
        split: if_splits)
  show "sset d' \<union> lset ds' = sset d \<union> lset ds"
    using assms by (auto simp: split_after_def span_set_def split: if_splits)
qed (use assms in \<open>auto simp: split_after_def split: if_splits\<close>)

lemma split_before:
  assumes "zip_ok pre (d # ds)" and "s < span_end d" and "split_before pre d s = (pre', d')"
  shows "zip_ok pre' (d' # ds)" "lset pre' \<union> sset d' = lset pre \<union> sset d"
    "span_start d' = max s (span_start d)" "span_end d' = span_end d" "subspan d' = subspan d"
    "\<forall>p\<in>set pre'. p \<in> set pre \<or> span_end p = s"
proof -
  show "zip_ok pre' (d' # ds)"
    using assms by (fastforce simp: split_before_def zip_ok_Cons list_ok_append list_ok_Cons
        span_ok_def before_def split: if_splits)
  show "lset pre' \<union> sset d' = lset pre \<union> sset d"
    using assms by (auto simp: split_before_def span_set_def split: if_splits)
qed (use assms in \<open>auto simp: split_before_def split: if_splits\<close>)

lemma zip_ok_subspan:
  "zip_ok pre (d # ds) \<Longrightarrow> ok sub \<Longrightarrow> zip_ok pre (d\<lparr>subspan := sub\<rparr> # ds)"
  by (auto simp: zip_ok_Cons span_ok_def before_def)

text \<open>Or: the part of the source span up to the new end of \<open>d_curr\<close> is in the list afterwards.\<close>

lemma or_insert_before:
  assumes "zip_ok pre (d # ds)" and "\<forall>p\<in>set pre. span_end p \<le> s" and "ok sub"
    and "or_insert_before eq pre d s sub = (pre', d')"
  shows "zip_ok pre' (d' # ds)"
    "lset pre' \<union> sset d' = lset pre \<union> sset d \<union> {s..<span_start d} \<times> den sub"
    "span_start d' \<le> span_start d" "span_end d' = span_end d" "subspan d' = subspan d"
proof -
  let ?pre = "sraSpanCreate s (span_start d) sub # pre"
  have "zip_ok pre' (d' # ds) \<and>
      lset pre' \<union> sset d' = lset pre \<union> sset d \<union> {s..<span_start d} \<times> den sub \<and>
      span_start d' \<le> span_start d"
  proof (cases "s < span_start d")
    case True
    with assms(1-3) have "zip_ok ?pre (d # ds)"
      by (auto simp: zip_ok_Cons list_ok_append list_ok_Cons span_ok_def before_def)
    with True assms(4) show ?thesis
      using merge_previous[of ?pre d ds pre' d']
      by (auto simp: or_insert_before_def span_set_def)
  next
    case False
    with assms show ?thesis by (auto simp: or_insert_before_def)
  qed
  then show "zip_ok pre' (d' # ds)"
    "lset pre' \<union> sset d' = lset pre \<union> sset d \<union> {s..<span_start d} \<times> den sub"
    "span_start d' \<le> span_start d" by blast+
qed (use or_insert_before_end[OF assms(4)] in auto)

lemma or_overlap:
  assumes zip: "zip_ok pre (d # ds)" and pre: "\<forall>p\<in>set pre. span_end p \<le> ss"
    and s: "ss < span_end s" "ok (subspan s)"
    and ov: "ss < span_end d" "span_end s > span_start d"
    and run: "or_overlap eq or_sub pre d ds ss s = (pre', d', ds')"
  shows "zip_ok pre' (d' # ds')"
    "lset pre' \<union> sset d' \<union> lset ds' = lset pre \<union> sset d \<union> lset ds \<union>
       {ss..<min (span_end s) (span_end d')} \<times> den (subspan s)"
    "ss < span_end d'" "span_start d' < span_end s"
proof -
  let ?S = "den (subspan s)"
  from run obtain pre1 d1 d2 ds2 pre3 d3 d5 where steps:
    "or_insert_before eq pre d ss (subspan s) = (pre1, d1)"
    "split_after d1 ds (span_end s) = (d2, ds2)"
    "split_before pre1 d2 ss = (pre3, d3)"
    "merge_previous_if eq pre3 (d3\<lparr>subspan := or_sub (subspan d3) (subspan s)\<rparr>) = (pre', d5)"
    "merge_next_if eq d5 ds2 = (d', ds')"
    by (rule or_overlap_cases)
  let ?d4 = "d3\<lparr>subspan := or_sub (subspan d3) (subspan s)\<rparr>"
  have dd: "span_start d < span_end d" using zip by (simp add: zip_ok_Cons span_ok_def)
  note 1 = or_insert_before[OF zip pre s(2) steps(1)]
  have lt2: "span_start d1 < span_end s" using 1(3) ov by simp
  note 2 = split_after[OF 1(1) lt2 steps(2)]
  have lt3: "ss < span_end d2" using 2(4) 1(4) s ov by simp
  note 3 = split_before[OF 2(1) lt3 steps(3)]
  have okd3: "ok (subspan d3)" using 3(1) by (auto simp: zip_ok_Cons span_ok_def)
  note 4 = zip_ok_subspan[OF 3(1) or_ok[OF okd3 s(2)]]
  note 5 = merge_previous_if[OF 4 steps(4)]
  note 6 = merge_next_if[OF 5(1) steps(5)]
  show "zip_ok pre' (d' # ds')" by (rule 6(1))
  have e3: "span_end d3 = min (span_end s) (span_end d)" using 3(4) 2(4) 1(4) by simp
  have s3: "span_start d3 = max ss (span_start d1)" using 3(3) 2(3) by simp
  have e6: "span_end d3 \<le> span_end d'" using 6(4) 5(5) by simp
  have s6: "span_start d' \<le> span_start d3" using 6(3) 5(3) by simp
  have D6: "den (subspan d') = den (subspan d3) \<union> ?S"
    using 6(5) 5(6) or_den[OF okd3 s(2)] by simp
  show "ss < span_end d'" using e3 e6 s ov by simp
  show "span_start d' < span_end s" using s6 s3 lt2 s by simp
  have A: "sset ?d4 = sset d3 \<union> {span_start d3..<span_end d3} \<times> ?S"
    using or_den[OF okd3 s(2)] by (auto simp: span_set_def)
  have B: "lset pre' \<union> sset d' \<union> lset ds' = lset pre3 \<union> sset ?d4 \<union> lset ds2"
    using 5(2) 6(2) by auto
  have C: "lset pre3 \<union> sset d3 \<union> lset ds2 =
      lset pre \<union> sset d \<union> {ss..<span_start d} \<times> ?S \<union> lset ds"
    using 3(2) 2(2) 1(2) by auto
  have D: "{span_start d3..<span_end d'} \<times> ?S \<subseteq> sset d'"
    using s6 D6 by (auto simp: span_set_def)
  have E: "{ss..<min (span_end s) (span_end d')} \<times> ?S =
      {ss..<span_start d} \<times> ?S \<union> {span_start d3..<min (span_end s) (span_end d')} \<times> ?S"
    using s3 1(3) ov s e3 e6 dd by (auto simp: max_def min_def split: if_splits)
  show "lset pre' \<union> sset d' \<union> lset ds' = lset pre \<union> sset d \<union> lset ds \<union>
       {ss..<min (span_end s) (span_end d')} \<times> ?S"
  proof
    show "lset pre' \<union> sset d' \<union> lset ds' \<subseteq> lset pre \<union> sset d \<union> lset ds \<union>
        {ss..<min (span_end s) (span_end d')} \<times> ?S"
    proof -
      have "{span_start d3..<span_end d3} \<times> ?S \<subseteq> {ss..<min (span_end s) (span_end d')} \<times> ?S"
        using s3 e3 e6 by auto
      then show ?thesis using A B C E by blast
    qed
    show "lset pre \<union> sset d \<union> lset ds \<union> {ss..<min (span_end s) (span_end d')} \<times> ?S
        \<subseteq> lset pre' \<union> sset d' \<union> lset ds'"
    proof -
      have "{span_start d3..<min (span_end s) (span_end d')} \<times> ?S \<subseteq> sset d'"
        using D by auto
      then show ?thesis using A B C E by blast
    qed
  qed
qed

text \<open>What is left of the source: its first span from \<open>s_start\<close> on, and the rest.\<close>

definition src_ok :: "int \<Rightarrow> 'a sraSpan list \<Rightarrow> bool" where
  "src_ok ss src \<longleftrightarrow> list_ok ok src \<and>
     (case src of [] \<Rightarrow> True | s # _ \<Rightarrow> span_start s \<le> ss \<and> ss < span_end s)"

definition src_set :: "int \<Rightarrow> 'a sraSpan list \<Rightarrow> (int \<times> 'p) set" where
  "src_set ss src = lset src \<inter> {ss..} \<times> UNIV"

lemma src_set_Cons:
  assumes "src_ok ss (s # src)"
  shows "src_set ss (s # src) = {ss..<span_end s} \<times> den (subspan s) \<union> src_set (list_start src) src"
proof -
  have "lset src \<subseteq> {list_start src..} \<times> UNIV"
    using assms
    by (auto simp: src_ok_def list_start_def list_set_def span_set_def list_ok_Cons before_def
        span_ok_def split: list.splits; fastforce)
  moreover have "lset src \<subseteq> {ss..} \<times> UNIV"
    using assms by (fastforce simp: src_ok_def list_ok_Cons before_def list_set_def span_set_def)
  ultimately show ?thesis
    using assms by (auto simp: src_set_def src_ok_def span_set_def)
qed

lemma src_ok_next:
  assumes "src_ok ss (s # src)"
  shows "src_ok (list_start src) src" "src = [] \<or> span_end s \<le> list_start src"
  using assms by (auto simp: src_ok_def list_start_def list_ok_Cons before_def span_ok_def
      split: list.splits)

lemma Or_loop_correct:
  assumes "eq' = eq" and "or' = or_sub"
    and "zip_ok pre cur" and "src_ok ss src" and "src \<noteq> [] \<Longrightarrow> \<forall>p\<in>set pre. span_end p \<le> ss"
  shows "list_ok ok (sraSpanListOr_loop eq' or' pre cur ss src) \<and>
         lset (sraSpanListOr_loop eq' or' pre cur ss src) = lset pre \<union> lset cur \<union> src_set ss src"
  using assms
proof (induction eq' or' pre cur ss src rule: sraSpanListOr_loop.induct)
  case (1 eq' or' pre cur ss)
  then show ?case by (auto simp: src_set_def)
next
  case (2 eq' or' pre ss s src)
  note eqs = "2.prems"(1,2) and zip = "2.prems"(3) and srco = "2.prems"(4) and pre = "2.prems"(5)
  let ?p = "sraSpanCreate ss (span_end s) (subspan s)"
  have s: "ss < span_end s" "ok (subspan s)" 
    using srco by (auto simp: src_ok_def list_ok_Cons span_ok_def)
  have "zip_ok (?p # pre) []"
    using zip pre s by (auto simp: list_ok_append list_ok_Cons span_ok_def before_def)
  moreover have "\<forall>p\<in>set (?p # pre). span_end p \<le> list_start src" if "src \<noteq> []"
    using src_ok_next(2)[OF srco] that pre s by fastforce
  ultimately show ?case
    using "2.IH"[OF eqs _ src_ok_next(1)[OF srco]] src_set_Cons[OF srco]
    by (auto simp: span_set_def)
next
  case (3 eq' or' pre d ds ss s src)
  note eqs = "3.prems"(1,2) and zip = "3.prems"(3) and src = "3.prems"(4)
  have s: "ss < span_end s" "ok (subspan s)"
    using src by (auto simp: src_ok_def list_ok_Cons span_ok_def)
  have pre: "\<forall>p\<in>set pre. span_end p \<le> ss" using "3.prems"(5) by simp
  note nxt = src_ok_next[OF src] and split = src_set_Cons[OF src]
  consider (add) "span_start d \<ge> span_end s"
    | (overlap) "span_start d < span_end s" "ss < span_end d"
    | (skip) "span_start d < span_end s" "span_end d \<le> ss" by linarith
  then show ?case
  proof cases
    case add
    let ?P = "sraSpanCreate ss (span_end s) (subspan s)"
    obtain pre' d' where run: "sraSpanMergePrevious eq (?P # pre) d = (pre', d')" by fastforce
    have zipP: "zip_ok (?P # pre) (d # ds)"
      using zip pre s add
      by (auto simp: zip_ok_Cons list_ok_append list_ok_Cons span_ok_def before_def)
    note m = merge_previous[OF zipP run]
    have "\<forall>p\<in>set pre'. span_end p \<le> list_start src" if "src \<noteq> []"
      using m nxt(2) that pre s by fastforce
    note IH = "3.IH"(1)[OF add run[symmetric, folded eqs] eqs _ nxt(1) this]
    have "sset ?P = {ss..<span_end s} \<times> den (subspan s)" by (simp add: span_set_def)
    then have "lset pre' \<union> sset d' = {ss..<span_end s} \<times> den (subspan s) \<union> lset pre \<union> sset d"
      using m by simp
    moreover have "sraSpanListOr_loop eq' or' pre (d # ds) ss (s # src) =
        sraSpanListOr_loop eq' or' pre' (d' # ds) (list_start src) src"
      using add run eqs by (simp del: sraSpanMergePrevious.simps)
    ultimately show ?thesis using IH m split by (simp add: Un_assoc) blast
  next
    case overlap
    then have ov: "\<not> span_end s \<le> span_start d" "ss < span_end d \<and> span_start d < span_end s" by auto
    obtain pre' d' ds' where run: "or_overlap eq or_sub pre d ds ss s = (pre', d', ds')"
      by (metis prod_cases3)
    note o = or_overlap[OF zip pre s overlap(2,1) run]
    have pre': "\<forall>p\<in>set pre'. span_end p \<le> span_start d'" "span_start d' < span_end d'"
      using o(1) by (auto simp: zip_ok_Cons before_def span_ok_def)
    show ?thesis
    proof (cases "span_end s > span_end d'")
      case True
      have src': "src_ok (span_end d') (s # src)" using src o(3) True by (auto simp: src_ok_def)
      have "\<forall>p\<in>set (d' # pre'). span_end p \<le> span_end d'" using pre' by auto
      moreover have "src_set ss (s # src) =
          {ss..<span_end d'} \<times> den (subspan s) \<union> src_set (span_end d') (s # src)"
        using split src_set_Cons[OF src'] o(3) True by auto
      moreover note IH = "3.IH"(2)[OF ov run[symmetric, folded eqs] refl True eqs _ src']
      moreover have "sraSpanListOr_loop eq' or' pre (d # ds) ss (s # src) =
          sraSpanListOr_loop eq' or' (d' # pre') ds' (span_end d') (s # src)"
        using ov run eqs True by simp
      moreover have "min (span_end s) (span_end d') = span_end d'" using True by simp
      ultimately show ?thesis using o(1,2) by (simp add: Un_assoc) blast
    next
      case False
      have "\<forall>p\<in>set pre'. span_end p \<le> list_start src" if "src \<noteq> []"
        using pre' o(4) nxt(2) that by fastforce
      note IH = "3.IH"(3)[OF ov run[symmetric, folded eqs] refl False eqs o(1) nxt(1) this]
      have "sraSpanListOr_loop eq' or' pre (d # ds) ss (s # src) =
          sraSpanListOr_loop eq' or' pre' (d' # ds') (list_start src) src"
        using ov run eqs False by simp
      moreover have "min (span_end s) (span_end d') = span_end s" using False by simp
      ultimately show ?thesis using IH o(2) split by (simp add: Un_assoc) blast
    qed
  next
    case skip
    then have "\<forall>p\<in>set (d # pre). span_end p \<le> ss" using pre by auto
    then show ?thesis using "3.IH"(4) "3.prems" skip by auto
  qed
qed

lemma Or_correct:
  assumes "list_ok ok dest" and "list_ok ok src"
  shows "list_ok ok (sraSpanListOr eq or_sub dest src)"
    "lset (sraSpanListOr eq or_sub dest src) = lset dest \<union> lset src"
proof -
  have src: "src_ok (list_start src) src"
    using assms(2) by (auto simp: src_ok_def list_start_def list_ok_Cons span_ok_def split: list.splits)
  have "lset src \<subseteq> {list_start src..} \<times> UNIV"
    using assms(2) by (cases src) (fastforce simp: list_start_def list_ok_Cons before_def span_ok_def
        list_set_def span_set_def)+
  then have "src_set (list_start src) src = lset src" by (auto simp: src_set_def)
  with Or_loop_correct[OF refl refl, of "[]" dest "list_start src" src] src assms
  show "list_ok ok (sraSpanListOr eq or_sub dest src)"
    "lset (sraSpanListOr eq or_sub dest src) = lset dest \<union> lset src"
    by (auto simp: sraSpanListOr_def)
qed

text \<open>And and Subtract: where the spans of a list can lie.\<close>

lemma lset_from_start: "list_ok ok (s # ss) \<Longrightarrow> lset (s # ss) \<subseteq> {span_start s..} \<times> UNIV"
  by (fastforce simp: list_ok_Cons before_def span_ok_def list_set_def span_set_def)

lemma lset_after_end: "list_ok ok (s # ss) \<Longrightarrow> lset ss \<subseteq> {span_end s..} \<times> UNIV"
  by (fastforce simp: list_ok_Cons before_def list_set_def span_set_def)

lemma zip_list_ok: "zip_ok pre cur \<Longrightarrow> list_ok ok cur"
  by (simp add: list_ok_append)

lemma trim_start:
  assumes zip: "zip_ok pre (d # ds)" and lt: "s < span_end d"
    and d1: "d1 = (if s > span_start d then d\<lparr>span_start := s\<rparr> else d)"
  shows "zip_ok pre (d1 # ds)" "sset d1 = sset d \<inter> {s..} \<times> UNIV"
    "span_start d1 = max s (span_start d)" "span_end d1 = span_end d" "subspan d1 = subspan d"
  using zip lt d1 by (auto simp: zip_ok_Cons span_ok_def before_def span_set_def; fastforce)+

lemma And_loop_correct:
  assumes "eq' = eq" and "and' = and_sub" and "zip_ok pre cur" and "list_ok ok src"
  shows "list_ok ok (sraSpanListAnd_loop eq' and' pre cur src) \<and>
         lset (sraSpanListAnd_loop eq' and' pre cur src) = lset pre \<union> (lset cur \<inter> lset src)"
  using assms
proof (induction eq' and' pre cur src rule: sraSpanListAnd_loop.induct)
  case (3 eq' and' pre d ds s src)
  note eqs = "3.prems"(1,2) and zip = "3.prems"(3) and src = "3.prems"(4)
  have S: "lset (s # src) \<subseteq> {span_start s..} \<times> UNIV" "lset src \<subseteq> {span_end s..} \<times> UNIV"
    using src by (rule lset_from_start lset_after_end)+
  have src': "list_ok ok src" using src by (simp add: list_ok_Cons)
  have oks: "ok (subspan s)" using src by (simp add: list_ok_Cons span_ok_def)
  consider (drop) "span_end s \<le> span_start d" | (skip) "\<not> span_end s \<le> span_start d" "span_end d \<le> span_start s"
    | (overlap) "\<not> span_end s \<le> span_start d" "\<not> span_end d \<le> span_start s" by blast
  then show ?case
  proof cases
    case drop
    have "lset (d # ds) \<inter> sset s = {}"
      using lset_from_start[OF zip_list_ok[OF zip]] drop by (auto simp: span_set_def)
    then show ?thesis using "3.IH"(1)[OF drop eqs zip src'] drop by auto
  next
    case skip
    have "sset d \<inter> lset (s # src) = {}" using S(1) skip by (auto simp: span_set_def)
    moreover have "zip_ok pre ds" using zip by (auto simp: list_ok_append list_ok_Cons)
    ultimately show ?thesis using "3.IH"(2)[OF skip eqs _ src] skip by auto
  next
    case overlap
    define d1 where d1: "d1 = (if span_start s > span_start d then d\<lparr>span_start := span_start s\<rparr> else d)"
    obtain d2 ds2 where run2: "split_after d1 ds (span_end s) = (d2, ds2)" by fastforce
    obtain sub ne where run3: "and_sub (subspan d2) (subspan s) = (sub, ne)" by fastforce
    define d3 where d3: "d3 = d2\<lparr>subspan := sub\<rparr>"
    note t = trim_start[OF zip _ d1]
    have lt: "span_start s < span_end d" using overlap(2) by simp
    have lt1: "span_start d1 < span_end s"
      using t(3)[OF lt] overlap src by (auto simp: list_ok_Cons span_ok_def)
    note sp = split_after[OF t(1)[OF lt] lt1 run2]
    have okd2: "ok (subspan d2)" using sp(1) by (auto simp: zip_ok_Cons span_ok_def)
    have e2: "span_end d2 \<le> span_end s" "span_start s \<le> span_start d2"
      using sp(3,4) t(3)[OF lt] by auto
    have d2src: "sset d2 \<inter> lset (s # src) = sset d2 \<inter> {span_start s..<span_end s} \<times> den (subspan s)"
      using S(2) e2 by (auto simp: span_set_def)
    have cur: "lset (d # ds) \<inter> lset (s # src) = (sset d2 \<union> lset ds2) \<inter> lset (s # src)"
      using sp(2) t(2)[OF lt] S(1) by auto
    have ds2: "lset ds2 \<subseteq> {span_end d2..} \<times> UNIV"
      using lset_after_end[OF zip_list_ok[OF sp(1)]] .
    show ?thesis
    proof (cases ne)
      case False
      have "sset d2 \<inter> lset (s # src) = {}"
        using and_flag[OF okd2 oks run3] False d2src by (auto simp: span_set_def)
      moreover have "zip_ok pre ds2" using sp(1) by (auto simp: list_ok_append list_ok_Cons)
      note IH = "3.IH"(3)[OF overlap d1 run2[symmetric] refl run3[symmetric, folded eqs] refl
          refl False eqs this src]
      moreover have "sraSpanListAnd_loop eq' and' pre (d # ds) (s # src) =
          sraSpanListAnd_loop eq' and' pre ds2 (s # src)"
        using overlap run2 run3 False eqs by (simp add: d1 Let_def)
      ultimately show ?thesis using cur by auto
    next
      case True
      then have ne: "\<not> \<not> ne" by simp
      obtain pre' d' where run4: "merge_previous_if eq pre d3 = (pre', d')" by fastforce
      note okc = and_ok[OF okd2 oks run3 True]
      note m = merge_previous_if[OF zip_ok_subspan[OF sp(1) okc] run4[unfolded d3]]
      have d3set: "sset d3 = sset d2 \<inter> lset (s # src)"
        unfolding d2src using and_den[OF okd2 oks run3 True] e2 by (auto simp: d3 span_set_def)
      have e': "span_end d' = span_end d2" using m(5) by simp
      then have move: "span_end d' \<le> span_end s" using e2 by simp
      let ?src = "if span_end s \<le> span_end d' then src else s # src"
      have oks': "list_ok ok ?src" using src src' by simp
      have "lset ds2 \<inter> lset ?src = lset ds2 \<inter> lset (s # src)"
        using ds2 e' by (auto simp: span_set_def)
      moreover have "zip_ok (if span_end d' \<le> span_end s then d' # pre' else pre')
          (if span_end d' \<le> span_end s then ds2 else d' # ds2)" using m(1) by simp
      note IH = "3.IH"(4)[OF overlap d1 run2[symmetric] refl run3[symmetric, folded eqs] refl
          refl ne run4[symmetric, folded eqs, unfolded d3] eqs this oks']
      moreover have "sraSpanListAnd_loop eq' and' pre (d # ds) (s # src) =
          sraSpanListAnd_loop eq' and' (d' # pre') ds2 ?src"
        using overlap run2 run3 True eqs run4 move by (simp add: d1 d3 Let_def)
      moreover have "lset pre' \<union> sset d' = lset pre \<union> sset d3" using m(2) by (simp add: d3)
      ultimately show ?thesis using cur d3set move by (simp add: Un_commute) blast
    qed
  qed
qed (auto simp: list_ok_append)

lemma And_correct:
  assumes "list_ok ok dest" and "list_ok ok src"
  shows "list_ok ok (fst (sraSpanListAnd eq and_sub dest src))"
    "lset (fst (sraSpanListAnd eq and_sub dest src)) = lset dest \<inter> lset src"
  using And_loop_correct[OF refl refl, of "[]" dest src] assms
  by (auto simp: sraSpanListAnd_def Let_def)

lemma list_nonempty: "list_ok ok ss \<Longrightarrow> lset ss \<noteq> {} \<longleftrightarrow> ss \<noteq> []"
  by (cases ss) (auto simp: list_ok_Cons span_ok_def span_set_def dest: den_nonempty)

lemma And_flag:
  assumes "list_ok ok dest" and "list_ok ok src"
  shows "snd (sraSpanListAnd eq and_sub dest src) \<longleftrightarrow> lset dest \<inter> lset src \<noteq> {}"
proof -
  have "snd (sraSpanListAnd eq and_sub dest src) \<longleftrightarrow> fst (sraSpanListAnd eq and_sub dest src) \<noteq> []"
    by (auto simp: sraSpanListAnd_def Let_def sraSpanListEmpty_def split: list.splits)
  then show ?thesis using And_correct[OF assms] list_nonempty by metis
qed

text \<open>
  In Subtract the spans before the cursor lie before the end of the current source span's
  remaining work: nothing still to be subtracted touches them.
\<close>

lemma Subtract_loop_correct:
  assumes "eq' = eq" and "sub' = sub_sub" and "zip_ok pre cur" and "list_ok ok src"
    and "lset pre \<inter> lset src = {}"
  shows "list_ok ok (sraSpanListSubtract_loop eq' sub' pre cur src) \<and>
         lset (sraSpanListSubtract_loop eq' sub' pre cur src) = lset pre \<union> (lset cur - lset src)"
  using assms
proof (induction eq' sub' pre cur src rule: sraSpanListSubtract_loop.induct)
  case (3 eq' sub' pre d ds s src)
  note eqs = "3.prems"(1,2) and zip = "3.prems"(3) and src = "3.prems"(4) and pre = "3.prems"(5)
  have S: "lset (s # src) \<subseteq> {span_start s..} \<times> UNIV" "lset src \<subseteq> {span_end s..} \<times> UNIV"
    using src by (rule lset_from_start lset_after_end)+
  have src': "list_ok ok src" using src by (simp add: list_ok_Cons)
  have oks: "ok (subspan s)" using src by (simp add: list_ok_Cons span_ok_def)
  consider (drop) "span_end s \<le> span_start d" | (skip) "\<not> span_end s \<le> span_start d" "span_end d \<le> span_start s"
    | (overlap) "\<not> span_end s \<le> span_start d" "\<not> span_end d \<le> span_start s" by blast
  then show ?case
  proof cases
    case drop
    have "lset (d # ds) \<inter> sset s = {}"
      using lset_from_start[OF zip_list_ok[OF zip]] drop by (auto simp: span_set_def)
    moreover have "lset pre \<inter> lset src = {}" using pre by auto
    ultimately show ?thesis using "3.IH"(1)[OF drop eqs zip src'] drop by auto
  next
    case skip
    have d: "sset d \<inter> lset (s # src) = {}" using S(1) skip by (auto simp: span_set_def)
    then have "lset (d # pre) \<inter> lset (s # src) = {}" using pre by auto
    then show ?thesis using "3.IH"(2)[OF skip eqs _ src] zip d skip by auto
  next
    case overlap
    obtain pre1 d1 where run1: "split_before pre d (span_start s) = (pre1, d1)" by fastforce
    obtain d2 ds2 where run2: "split_after d1 ds (span_end s) = (d2, ds2)" by fastforce
    obtain sub ne where run3: "sub_sub (subspan d2) (subspan s) = (sub, ne)" by fastforce
    define d3 where d3: "d3 = d2\<lparr>subspan := sub\<rparr>"
    have lt: "span_start s < span_end d" using overlap(2) by simp
    note sb = split_before[OF zip lt run1]
    have lt1: "span_start d1 < span_end s"
      using sb(3) overlap src by (auto simp: list_ok_Cons span_ok_def)
    note sp = split_after[OF sb(1) lt1 run2]
    have okd2: "ok (subspan d2)" using sp(1) by (auto simp: zip_ok_Cons span_ok_def)
    have e2: "span_end d2 \<le> span_end s" "span_start s \<le> span_start d2"
      using sp(3,4) sb(3) by auto
    have pre1: "lset pre1 \<inter> lset (s # src) = {}"
    proof -
      have "lset pre1 \<subseteq> lset pre \<union> {..<span_start s} \<times> UNIV"
        using run1 by (auto simp: split_before_def span_set_def split: if_splits)
      then show ?thesis using pre S(1) by fastforce
    qed
    have d2src: "sset d2 - lset (s # src) = {span_start d2..<span_end d2} \<times> (den (subspan d2) - den (subspan s))"
      using S(2) e2 by (auto simp: span_set_def)
    have all: "lset pre \<union> (lset (d # ds) - lset (s # src)) =
        lset pre1 \<union> ((sset d2 \<union> lset ds2) - lset (s # src))"
      using sb(2) sp(2) pre pre1 by auto
    show ?thesis
    proof (cases ne)
      case False
      have "sset d2 - lset (s # src) = {}"
        using sub_flag[OF okd2 oks run3] False d2src by auto
      moreover have "zip_ok pre1 ds2" using sp(1) by (auto simp: list_ok_append list_ok_Cons)
      note IH = "3.IH"(3)[OF overlap refl run1[symmetric] refl run2[symmetric] refl
          run3[symmetric, folded eqs] refl False eqs this src pre1]
      moreover have "sraSpanListSubtract_loop eq' sub' pre (d # ds) (s # src) =
          sraSpanListSubtract_loop eq' sub' pre1 ds2 (s # src)"
        using overlap run1 run2 run3 False eqs by (simp add: Let_def)
      ultimately show ?thesis using all by auto
    next
      case True
      then have ne: "\<not> \<not> ne" by simp
      obtain pre4 d4 where run4: "merge_previous_if eq pre1 d3 = (pre4, d4)" by fastforce
      obtain d5 ds5 where run5: "merge_next_if eq d4 ds2 = (d5, ds5)" by fastforce
      note okc = sub_ok[OF okd2 oks run3 True]
      note m = merge_previous_if[OF zip_ok_subspan[OF sp(1) okc] run4[unfolded d3]]
      note n = merge_next_if[OF m(1) run5]
      have d3set: "sset d3 = sset d2 - lset (s # src)"
        unfolding d2src using sub_den[OF okd2 oks run3 True] by (auto simp: d3 span_set_def)
      have parts: "lset pre4 \<union> sset d5 \<union> lset ds5 = lset pre1 \<union> sset d3 \<union> lset ds2"
        using m(2) n(2) by (auto simp: d3)
      have sub5: "den (subspan d5) = den (subspan d2) - den (subspan s)"
        using n(5) m(6) sub_den[OF okd2 oks run3 True] by simp
      have d5s: "sset d5 \<inter> sset s = {}" using sub5 by (auto simp: span_set_def)
      have pre4: "lset pre4 \<inter> lset (s # src) = {}"
        using m(2) pre1 d3set by (auto simp: d3)
      show ?thesis
      proof (cases "span_end s > span_end d5")
        case more: True
        have "sset d5 \<inter> lset src = {}" using S(2) more by (fastforce simp: span_set_def)
        then have pre5: "lset (d5 # pre4) \<inter> lset (s # src) = {}" using d5s pre4 by auto
        have "zip_ok (d5 # pre4) ds5" using n(1) by simp
        note IH = "3.IH"(4)[OF overlap refl run1[symmetric] refl run2[symmetric] refl
          run3[symmetric, folded eqs] refl ne refl run4[symmetric, folded eqs, unfolded d3]
          refl run5[symmetric, folded eqs] more eqs this src pre5]
        moreover have "sraSpanListSubtract_loop eq' sub' pre (d # ds) (s # src) =
          sraSpanListSubtract_loop eq' sub' (d5 # pre4) ds5 (s # src)"
          using overlap run1 run2 run3 True eqs run4 run5 more by (simp add: d3 Let_def)
        ultimately show ?thesis using all parts d3set pre5 pre1 by auto
      next
        case less: False
        note IH = "3.IH"(5)[OF overlap refl run1[symmetric] refl run2[symmetric] refl
          run3[symmetric, folded eqs] refl ne refl run4[symmetric, folded eqs, unfolded d3]
          refl run5[symmetric, folded eqs] less eqs n(1) src']
        have "lset pre4 \<inter> lset src = {}" using pre4 by auto
        note IH = IH[OF this]
        have run: "sraSpanListSubtract_loop eq' sub' pre (d # ds) (s # src) =
          sraSpanListSubtract_loop eq' sub' pre4 (d5 # ds5) src"
          using overlap run1 run2 run3 True eqs run4 run5 less by (simp add: d3 Let_def)
        have "lset ds5 \<inter> sset s = {}"
          using lset_after_end[OF zip_list_ok[OF n(1)]] less by (fastforce simp: span_set_def)
        then have "lset pre4 \<union> (lset (d5 # ds5) - lset src) =
            (lset pre4 \<union> sset d5 \<union> lset ds5) - lset (s # src)" using pre4 d5s by auto
        also have "\<dots> = lset pre1 \<union> ((sset d2 \<union> lset ds2) - lset (s # src))"
          using parts d3set pre1 by auto
        finally show ?thesis using run IH all by simp
      qed
    qed
  qed
qed (auto simp: list_ok_append)

lemma Subtract_correct:
  assumes "list_ok ok dest" and "list_ok ok src"
  shows "list_ok ok (fst (sraSpanListSubtract eq sub_sub dest src))"
    "lset (fst (sraSpanListSubtract eq sub_sub dest src)) = lset dest - lset src"
  using Subtract_loop_correct[OF refl refl, of "[]" dest src] assms
  by (auto simp: sraSpanListSubtract_def Let_def)

lemma Subtract_flag:
  assumes "list_ok ok dest" and "list_ok ok src"
  shows "snd (sraSpanListSubtract eq sub_sub dest src) \<longleftrightarrow> lset dest - lset src \<noteq> {}"
proof -
  have "snd (sraSpanListSubtract eq sub_sub dest src) \<longleftrightarrow>
      fst (sraSpanListSubtract eq sub_sub dest src) \<noteq> []"
    by (auto simp: sraSpanListSubtract_def Let_def sraSpanListEmpty_def split: list.splits)
  then show ?thesis using Subtract_correct[OF assms] list_nonempty by metis
qed

lemma Equal_iff: "sraSpanListEqual eq as bs \<longleftrightarrow> as = bs"
proof (induction as arbitrary: bs)
  case Nil
  then show ?case by (cases bs) auto
next
  case (Cons a as)
  then show ?case by (cases bs) (auto simp: eq_iff intro: sraSpan.equality)
qed

text \<open>A non-empty well-formed list satisfies the contract it asks of its subspans.\<close>

lemma list_algebra:
  "subspan_algebra lset (nonempty_list_ok ok) (sraSpanListEqual eq) (sraSpanListOr eq or_sub)
     (sraSpanListAnd eq and_sub) (sraSpanListSubtract eq sub_sub)"
proof
  fix a b :: "'a sraSpan list" and c f
  assume "nonempty_list_ok ok a" and "nonempty_list_ok ok b"
  then have ok: "list_ok ok a" "list_ok ok b" and ne: "a \<noteq> []" "b \<noteq> []"
    by (auto simp: nonempty_list_ok_def)
  have "lset (sraSpanListOr eq or_sub a b) \<noteq> {}"
    using Or_correct(2)[OF ok] list_nonempty[OF ok(1)] ne by simp
  then show "nonempty_list_ok ok (sraSpanListOr eq or_sub a b)"
    using Or_correct(1)[OF ok] by (auto simp: nonempty_list_ok_def)
  show "lset (sraSpanListOr eq or_sub a b) = lset a \<union> lset b" by (rule Or_correct(2)[OF ok])
  show "f \<longleftrightarrow> lset a \<inter> lset b \<noteq> {}" if "sraSpanListAnd eq and_sub a b = (c, f)"
    using And_flag[OF ok] that by simp
  show "nonempty_list_ok ok c" if "sraSpanListAnd eq and_sub a b = (c, f)" f
    using And_correct(1)[OF ok] that
    by (auto simp: sraSpanListAnd_def Let_def sraSpanListEmpty_def nonempty_list_ok_def)
  show "lset c = lset a \<inter> lset b" if "sraSpanListAnd eq and_sub a b = (c, f)" f
    using And_correct(2)[OF ok] that by simp
  show "f \<longleftrightarrow> lset a - lset b \<noteq> {}" if "sraSpanListSubtract eq sub_sub a b = (c, f)"
    using Subtract_flag[OF ok] that by simp
  show "nonempty_list_ok ok c" if "sraSpanListSubtract eq sub_sub a b = (c, f)" f
    using Subtract_correct(1)[OF ok] that
    by (auto simp: sraSpanListSubtract_def Let_def sraSpanListEmpty_def nonempty_list_ok_def)
  show "lset c = lset a - lset b" if "sraSpanListSubtract eq sub_sub a b = (c, f)" f
    using Subtract_correct(2)[OF ok] that by simp
next
  show "nonempty_list_ok ok a \<Longrightarrow> lset a \<noteq> {}" for a
    by (simp add: nonempty_list_ok_def list_nonempty)
  show "sraSpanListEqual eq a b \<longleftrightarrow> a = b" for a b by (rule Equal_iff)
qed

end

section \<open>The two interpretations\<close>

definition null_den :: "unit \<Rightarrow> unit set" where "null_den u = {()}"

definition null_ok :: "unit \<Rightarrow> bool" where "null_ok u = True"

interpretation null: subspan_algebra null_den null_ok nullEqual nullOr nullAnd nullSubtract
  by unfold_locales
     (auto simp: null_den_def null_ok_def nullEqual_def nullAnd_def nullSubtract_def)

interpretation row: subspan_algebra "list_set null_den" "nonempty_list_ok null_ok"
  "sraSpanListEqual nullEqual" "sraSpanListOr nullEqual nullOr"
  "sraSpanListAnd nullEqual nullAnd" "sraSpanListSubtract nullEqual nullSubtract"
  by (rule null.list_algebra)

section \<open>Regions as sets of pixels\<close>

definition rgn_ok :: "sraRegion \<Rightarrow> bool" where
  "rgn_ok r \<longleftrightarrow> list_ok (nonempty_list_ok null_ok) r"

definition pixels :: "sraRegion \<Rightarrow> (int \<times> int) set" where
  "pixels r = {(x, y). (y, (x, ())) \<in> list_set (list_set null_den) r}"

definition rect_pixels :: "sraRect \<Rightarrow> (int \<times> int) set" where
  "rect_pixels r = {rx1 r..<rx2 r} \<times> {ry1 r..<ry2 r}"

lemma pixels_iff:
  "(x, y) \<in> pixels r \<longleftrightarrow> (\<exists>v\<in>set r. span_start v \<le> y \<and> y < span_end v \<and>
     (\<exists>h\<in>set (subspan v). span_start h \<le> x \<and> x < span_end h))"
  by (auto simp: pixels_def list_set_def span_set_def null_den_def)

lemma pixels_set:
  "list_set (list_set null_den) r = {(y, (x, ())) |x y. (x, y) \<in> pixels r}"
  by (auto simp: pixels_def)

lemma pixels_empty_iff: "rgn_ok r \<Longrightarrow> pixels r = {} \<longleftrightarrow> r = []"
  using row.list_nonempty[of r] by (auto simp: rgn_ok_def pixels_set)

text \<open>C1: \<open>sraRgnOr\<close> computes the union of two regions and keeps them well formed.\<close>

theorem sraRgnOr_union:
  assumes "rgn_ok dst" and "rgn_ok src"
  shows "rgn_ok (sraRgnOr dst src) \<and> pixels (sraRgnOr dst src) = pixels dst \<union> pixels src"
  using row.Or_correct[of dst src] assms by (auto simp: rgn_ok_def sraRgnOr_def pixels_def)

text \<open>C2: \<open>sraRgnAnd\<close> computes the intersection, and its result says whether any pixel is left.\<close>

theorem sraRgnAnd_intersection:
  assumes "rgn_ok dst" and "rgn_ok src"
  shows "rgn_ok (fst (sraRgnAnd dst src)) \<and>
         pixels (fst (sraRgnAnd dst src)) = pixels dst \<inter> pixels src \<and>
         (snd (sraRgnAnd dst src) \<longleftrightarrow> pixels dst \<inter> pixels src \<noteq> {})"
  using row.And_correct[of dst src] row.And_flag[of dst src] assms
  by (auto simp: rgn_ok_def sraRgnAnd_def pixels_def)

text \<open>C3: \<open>sraRgnSubtract\<close> computes the difference, and its result says whether any pixel is left.\<close>

theorem sraRgnSubtract_difference:
  assumes "rgn_ok dst" and "rgn_ok src"
  shows "rgn_ok (fst (sraRgnSubtract dst src)) \<and>
         pixels (fst (sraRgnSubtract dst src)) = pixels dst - pixels src \<and>
         (snd (sraRgnSubtract dst src) \<longleftrightarrow> \<not> pixels dst \<subseteq> pixels src)"
  using row.Subtract_correct[of dst src] row.Subtract_flag[of dst src] assms
  by (auto simp: rgn_ok_def sraRgnSubtract_def pixels_def)

theorem sraRgnOr_union_witness:
  "pixels (sraRgnOr (sraRgnCreateRect 0 0 4 4) (sraRgnCreateRect 2 2 6 6)) =
     pixels (sraRgnCreateRect 0 0 4 4) \<union> pixels (sraRgnCreateRect 2 2 6 6) \<and>
   length (sraRgnOr (sraRgnCreateRect 0 0 4 4) (sraRgnCreateRect 2 2 6 6)) = 3"
proof -
  have "rgn_ok (sraRgnCreateRect 0 0 4 4)" "rgn_ok (sraRgnCreateRect 2 2 6 6)"
    by (simp_all add: rgn_ok_def sraRgnCreateRect_def list_ok_def span_ok_def
        nonempty_list_ok_def null_ok_def)
  note sraRgnOr_union[OF this]
  moreover have "length (sraRgnOr (sraRgnCreateRect 0 0 4 4) (sraRgnCreateRect 2 2 6 6)) = 3"
    by code_simp
  ultimately show ?thesis by blast
qed

theorem sraRgnAnd_intersection_witness:
  "pixels (fst (sraRgnAnd (sraRgnCreateRect 0 0 4 4) (sraRgnCreateRect 2 2 6 6))) =
     pixels (sraRgnCreateRect 0 0 4 4) \<inter> pixels (sraRgnCreateRect 2 2 6 6) \<and>
   sraRgnAnd (sraRgnCreateRect 0 0 4 4) (sraRgnCreateRect 2 2 6 6) =
     (sraRgnCreateRect 2 2 4 4, True)"
proof -
  have "rgn_ok (sraRgnCreateRect 0 0 4 4)" "rgn_ok (sraRgnCreateRect 2 2 6 6)"
    by (simp_all add: rgn_ok_def sraRgnCreateRect_def list_ok_def span_ok_def
        nonempty_list_ok_def null_ok_def)
  note sraRgnAnd_intersection[OF this]
  moreover have "sraRgnAnd (sraRgnCreateRect 0 0 4 4) (sraRgnCreateRect 2 2 6 6) =
     (sraRgnCreateRect 2 2 4 4, True)"
    by code_simp
  ultimately show ?thesis by blast
qed

theorem sraRgnSubtract_difference_witness:
  "pixels (fst (sraRgnSubtract (sraRgnCreateRect 0 0 4 4) (sraRgnCreateRect 2 2 6 6))) =
     pixels (sraRgnCreateRect 0 0 4 4) - pixels (sraRgnCreateRect 2 2 6 6) \<and>
   sraRgnSubtract (sraRgnCreateRect 0 0 2 2) (sraRgnCreateRect 0 0 2 2) = ([], False)"
proof -
  have "rgn_ok (sraRgnCreateRect 0 0 4 4)" "rgn_ok (sraRgnCreateRect 2 2 6 6)"
    by (simp_all add: rgn_ok_def sraRgnCreateRect_def list_ok_def span_ok_def
        nonempty_list_ok_def null_ok_def)
  note sraRgnSubtract_difference[OF this]
  moreover have "sraRgnSubtract (sraRgnCreateRect 0 0 2 2) (sraRgnCreateRect 0 0 2 2) = ([], False)"
    by code_simp
  ultimately show ?thesis by blast
qed

end
