(* ===== verification/RegionRoutines.thy ===== *)
theory RegionRoutines
  imports RegionSets
begin

text \<open>
  The remaining routines of \<open>libvncserver/rfbregion.c\<close> over the pixels of a region: emptiness,
  translation, bounding box, taking rectangles out, the rectangle iterator and the clipping
  of a rectangle.
\<close>

section \<open>The other region routines\<close>

lemma rgn_ok_rect: "a < c \<Longrightarrow> b < d \<Longrightarrow> rgn_ok (sraRgnCreateRect a b c d)"
  by (simp add: rgn_ok_def sraRgnCreateRect_def list_ok_def span_ok_def
      nonempty_list_ok_def null_ok_def)

lemma pixels_rect: "pixels (sraRgnCreateRect a b c d) = {a..<c} \<times> {b..<d}"
  by (auto simp: pixels_iff sraRgnCreateRect_def)

lemma rgn_ok_Nil: "rgn_ok []"
  by (simp add: rgn_ok_def)

lemma pixels_Nil [simp]: "pixels [] = {}"
  by (simp add: pixels_def)

lemma sraSpanListDup_id: "(\<And>x. dup x = x) \<Longrightarrow> sraSpanListDup dup l = l"
  by (induction l) (auto simp: sraSpanCreate_def intro: sraSpan.equality)

lemma sraRgnCreateRgn_id: "sraRgnCreateRgn r = r"
  unfolding sraRgnCreateRgn_def by (intro sraSpanListDup_id) simp

lemma rgn_ok_iff:
  "rgn_ok r \<longleftrightarrow> sorted_wrt before r \<and> (\<forall>v\<in>set r. span_start v < span_end v \<and> subspan v \<noteq> [] \<and>
     sorted_wrt before (subspan v) \<and> (\<forall>h\<in>set (subspan v). span_start h < span_end h))"
  by (auto simp: rgn_ok_def list_ok_def span_ok_def nonempty_list_ok_def null_ok_def)

text \<open>\<open>sraRgnEmpty\<close> tells exactly whether a region covers no pixel.\<close>

theorem sraRgnEmpty_iff:
  assumes "rgn_ok r"
  shows "sraRgnEmpty r \<longleftrightarrow> pixels r = {}"
  using pixels_empty_iff[OF assms]
  by (auto simp: sraRgnEmpty_def sraSpanListEmpty_def split: list.splits)

theorem sraRgnEmpty_iff_witness:
  "sraRgnEmpty (sraRgnCreateRect 1 1 2 2) \<longleftrightarrow> pixels (sraRgnCreateRect 1 1 2 2) = {}"
  by (rule sraRgnEmpty_iff[OF rgn_ok_rect]) simp_all

text \<open>\<open>sraRgnOffset\<close> translates the region by \<open>(dx, dy)\<close> and keeps it well formed.\<close>

theorem sraRgnOffset_translates:
  assumes "rgn_ok r"
  shows "rgn_ok (sraRgnOffset r dx dy) \<and>
         (\<forall>x y. (x, y) \<in> pixels (sraRgnOffset r dx dy) \<longleftrightarrow> (x - dx, y - dy) \<in> pixels r)"
proof -
  have "rgn_ok (sraRgnOffset r dx dy)"
    using assms by (auto simp: rgn_ok_iff sraRgnOffset_def sorted_wrt_map before_eta)
  moreover have "(x, y) \<in> pixels (sraRgnOffset r dx dy) \<longleftrightarrow> (x - dx, y - dy) \<in> pixels r" for x y
    by (simp add: pixels_iff sraRgnOffset_def less_diff_eq le_diff_eq diff_le_eq diff_less_eq
        le_diff_eq add.commute)
  ultimately show ?thesis by blast
qed

theorem sraRgnOffset_translates_witness:
  "rgn_ok (sraRgnOffset (sraRgnCreateRect 0 0 2 2) 3 (-1))"
  using sraRgnOffset_translates[OF rgn_ok_rect[of 0 2 0 2], of 3 "-1"] by simp

text \<open>Bounding box.\<close>

lemma bbox_cells:
  "foldl bbox_cell (a, b, c, d) hs = (a', b', c', d') \<Longrightarrow>
   b' = b \<and> d' = d \<and> a' \<le> a \<and> c \<le> c' \<and> (\<forall>h\<in>set hs. a' \<le> span_start h \<and> span_end h \<le> c') \<and>
   (a' = a \<or> a' \<in> span_start ` set hs) \<and> (c' = c \<or> c' \<in> span_end ` set hs)"
  by (induction hs arbitrary: a c) (fastforce simp: bbox_cell_def split: if_splits)+

lemma bbox_rows:
  "foldl bbox_row (a, b, c, d) r = (a', b', c', d') \<Longrightarrow>
   a' \<le> a \<and> b' \<le> b \<and> c \<le> c' \<and> d \<le> d' \<and>
   (\<forall>v\<in>set r. b' \<le> span_start v \<and> span_end v \<le> d' \<and>
      (\<forall>h\<in>set (subspan v). a' \<le> span_start h \<and> span_end h \<le> c')) \<and>
   (a' = a \<or> (\<exists>v\<in>set r. a' \<in> span_start ` set (subspan v))) \<and>
   (b' = b \<or> b' \<in> span_start ` set r) \<and>
   (c' = c \<or> (\<exists>v\<in>set r. c' \<in> span_end ` set (subspan v))) \<and>
   (d' = d \<or> d' \<in> span_end ` set r)"
proof (induction r arbitrary: a b c d)
  case (Cons v r)
  obtain a1 b1 c1 d1 where row: "bbox_row (a, b, c, d) v = (a1, b1, c1, d1)"
    by (metis prod_cases4)
  then have cells: "foldl bbox_cell
      (a, (if span_start v < b then span_start v else b), c,
       (if span_end v > d then span_end v else d)) (subspan v) = (a1, b1, c1, d1)"
    by (simp add: bbox_row_def)
  from Cons.prems row have rest: "foldl bbox_row (a1, b1, c1, d1) r = (a', b', c', d')" by simp
  have b1: "b1 \<le> b \<and> b1 \<le> span_start v \<and> (b1 = b \<or> b1 = span_start v)"
    and d1: "d \<le> d1 \<and> span_end v \<le> d1 \<and> (d1 = d \<or> d1 = span_end v)"
    using bbox_cells[OF cells] by auto
  note C = bbox_cells[OF cells] and R = Cons.IH[OF rest]
  have "a' \<le> a" "b' \<le> b" "c \<le> c'" "d \<le> d'" "b' \<le> span_start v" "span_end v \<le> d'"
    using C R b1 d1 by auto
  moreover have "\<forall>h\<in>set (subspan v). a' \<le> span_start h \<and> span_end h \<le> c'"
    using C R by fastforce
  moreover have "a' = a \<or> (\<exists>v\<in>set (v # r). a' \<in> span_start ` set (subspan v))"
    "c' = c \<or> (\<exists>v\<in>set (v # r). c' \<in> span_end ` set (subspan v))"
    using C R by auto
  moreover have "b' = b \<or> b' \<in> span_start ` set (v # r)" "d' = d \<or> d' \<in> span_end ` set (v # r)"
    using b1 d1 R by auto
  ultimately show ?case using R by auto
qed auto

lemma rgn_ok_row_pixel:
  assumes "rgn_ok r" and "v \<in> set r" and "span_start v \<le> y" "y < span_end v"
  shows "\<exists>x. (x, y) \<in> pixels r"
proof -
  from assms(1,2) obtain h where "h \<in> set (subspan v)" "span_start h < span_end h"
    by (fastforce simp: rgn_ok_iff neq_Nil_conv)
  with assms(2-4) have "(span_start h, y) \<in> pixels r" by (auto simp: pixels_iff)
  then show ?thesis by blast
qed

lemma bbox_least:
  assumes r: "rgn_ok r" "r \<noteq> []" and range: "pixels r \<subseteq> {1 - INT_MAX..<INT_MAX} \<times> {1 - INT_MAX..<INT_MAX}"
  shows "\<exists>a b c d. sraRgnBBox (Some r) = sraRgnCreateRect a b c d \<and>
     pixels r \<subseteq> {a..<c} \<times> {b..<d} \<and>
     (\<forall>a' b' c' d'. pixels r \<subseteq> {a'..<c'} \<times> {b'..<d'} \<longrightarrow> a' \<le> a \<and> b' \<le> b \<and> c \<le> c' \<and> d \<le> d')"
proof -
  obtain a b c d where
    run: "foldl bbox_row (INT_MAX, INT_MAX, 1 - INT_MAX, 1 - INT_MAX) r = (a, b, c, d)"
    by (metis prod_cases4)
  note B = bbox_rows[OF run]
  from r obtain v h where v: "v \<in> set r" "h \<in> set (subspan v)"
    by (fastforce simp: rgn_ok_iff neq_Nil_conv)
  from r v have lt: "span_start v < span_end v" "span_start h < span_end h"
    by (auto simp: rgn_ok_iff)
  have "(span_start h, span_start v) \<in> pixels r" using v lt by (auto simp: pixels_iff)
  then have rng: "1 - INT_MAX \<le> span_start h" "span_start h < INT_MAX"
      "1 - INT_MAX \<le> span_start v" "span_start v < INT_MAX"
    using range by auto
  have "a \<le> span_start h" "b \<le> span_start v" "span_end h \<le> c" "span_end v \<le> d" using B v by auto
  with lt rng have ne: "a < INT_MAX" "b < INT_MAX" "1 - INT_MAX < c" "1 - INT_MAX < d" "a < c" "b < d"
    by auto
  have "sraRgnBBox (Some r) = sraRgnCreateRect a b c d"
    using run ne by (simp add: sraRgnBBox_def)
  moreover have "pixels r \<subseteq> {a..<c} \<times> {b..<d}"
    using B by (fastforce simp: pixels_iff)
  moreover have "a' \<le> a \<and> b' \<le> b \<and> c \<le> c' \<and> d \<le> d'" if sub: "pixels r \<subseteq> {a'..<c'} \<times> {b'..<d'}" for a' b' c' d'
  proof -
    have cell: "a' \<le> span_start h \<and> span_end h \<le> c'" if "v \<in> set r" "h \<in> set (subspan v)" for v h
    proof -
      from r that have "span_start v < span_end v" "span_start h < span_end h" by (auto simp: rgn_ok_iff)
      with that have "(span_start h, span_start v) \<in> pixels r" "(span_end h - 1, span_start v) \<in> pixels r"
        by (auto simp: pixels_iff intro!: bexI[of _ v] bexI[of _ h])
      with sub show ?thesis by auto
    qed
    have row: "b' \<le> span_start v \<and> span_end v \<le> d'" if "v \<in> set r" for v
    proof -
      from r that have "span_start v < span_end v" by (auto simp: rgn_ok_iff)
      with rgn_ok_row_pixel[OF r(1) that, of "span_start v"] rgn_ok_row_pixel[OF r(1) that, of "span_end v - 1"]
      show ?thesis using sub by auto
    qed
    have "\<exists>v\<in>set r. a \<in> span_start ` set (subspan v)" "b \<in> span_start ` set r"
      "\<exists>v\<in>set r. c \<in> span_end ` set (subspan v)" "d \<in> span_end ` set r"
      using B ne by auto
    with cell row show ?thesis by (auto; fastforce)
  qed
  ultimately show ?thesis by blast
qed

text \<open>
  C26: \<open>sraRgnBBox\<close> of a non-empty region with coordinates in range is the least rectangle that
  contains it.
\<close>

theorem sraRgnBBox_least:
  assumes r: "rgn_ok r" "r \<noteq> []" and range: "pixels r \<subseteq> {1 - INT_MAX..<INT_MAX} \<times> {1 - INT_MAX..<INT_MAX}"
  shows "\<exists>a b c d. sraRgnBBox (Some r) = sraRgnCreateRect a b c d \<and>
     pixels r \<subseteq> {a..<c} \<times> {b..<d} \<and>
     (\<forall>a' b' c' d'. pixels r \<subseteq> {a'..<c'} \<times> {b'..<d'} \<longrightarrow> a' \<le> a \<and> b' \<le> b \<and> c \<le> c' \<and> d \<le> d')"
  by (rule bbox_least[OF assms])

theorem sraRgnBBox_least_witness:
  "\<exists>a b c d. sraRgnBBox (Some (sraRgnCreateRect 1 2 3 4)) = sraRgnCreateRect a b c d \<and>
     pixels (sraRgnCreateRect 1 2 3 4) \<subseteq> {a..<c} \<times> {b..<d}"
proof -
  have "pixels (sraRgnCreateRect 1 2 3 4) \<subseteq> {1 - INT_MAX..<INT_MAX} \<times> {1 - INT_MAX..<INT_MAX}"
    by (auto simp: pixels_rect INT_MAX_def)
  moreover have "sraRgnCreateRect 1 2 3 4 \<noteq> []" by (simp add: sraRgnCreateRect_def)
  ultimately show ?thesis using sraRgnBBox_least[OF rgn_ok_rect, of 1 3 2 4] by auto
qed

text \<open>Taking rectangles out.\<close>

inductive popped :: "sraRegion \<Rightarrow> sraRect \<Rightarrow> sraRegion \<Rightarrow> bool" where
  cell_out: "subspan v = C @ h # D \<Longrightarrow>
     popped (A @ v # B) (rect_of v h) (A @ (if C @ D = [] then B else v\<lparr>subspan := C @ D\<rparr> # B))"

inductive_cases poppedE: "popped r rect r'"

lemma sraRgnPopRect_split:
  assumes "rgn_ok r" and "sraRgnPopRect r flags = (r', res)"
  shows "case res of None \<Rightarrow> r = [] \<and> r' = [] | Some rect \<Rightarrow> popped r rect r'"
proof (cases "r = []")
  case True
  with assms(2) show ?thesis by (auto simp: sraRgnPopRect_def Let_def split: if_splits)
next
  case False
  have cells: "\<exists>C h D. subspan v = C @ h # D \<and> (if q then rev (subspan v) else subspan v) = h # hs \<and>
      (if q then rev hs else hs) = C @ D" if "v \<in> set r" and "hs = tl (if q then rev (subspan v) else subspan v)" for v q hs
  proof -
    from assms(1) that(1) have ne: "subspan v \<noteq> []" by (auto simp: rgn_ok_iff)
    show ?thesis
    proof (cases q)
      case True
      obtain ys y where "subspan v = ys @ [y]" using ne by (cases "subspan v" rule: rev_cases) auto
      with True that(2) show ?thesis
        by (intro exI[of _ ys] exI[of _ y] exI[of _ "[]"]) simp
    next
      case False
      obtain y ys where "subspan v = y # ys" using ne by (cases "subspan v") auto
      with False that(2) show ?thesis
        by (intro exI[of _ "[]"] exI[of _ y] exI[of _ ys]) simp
    qed
  qed
  let ?q = "flags AND 2 = 2"
  show ?thesis
  proof (cases "flags AND 1 = 1")
    case True
    from False obtain A v where r: "r = A @ [v]" by (cases r rule: rev_cases) auto
    then have "v \<in> set r" by simp
    from cells[OF this refl, of ?q] obtain C h D where c: "subspan v = C @ h # D"
      "(if ?q then rev (subspan v) else subspan v) = h # tl (if ?q then rev (subspan v) else subspan v)"
      "(if ?q then rev (tl (if ?q then rev (subspan v) else subspan v)) else
         tl (if ?q then rev (subspan v) else subspan v)) = C @ D" by blast
    have "sraRgnPopRect r flags = (A @ (if C @ D = [] then [] else [v\<lparr>subspan := C @ D\<rparr>]), Some (rect_of v h))"
      unfolding sraRgnPopRect_def Let_def r
      using True c by (auto simp: rect_of_def sraSpanListEmpty_def split: list.splits if_splits)
    with assms(2) r show ?thesis using cell_out[OF c(1), of A "[]"] by simp
  next
    case F: False
    from False obtain v B where r: "r = v # B" by (cases r) auto
    then have "v \<in> set r" by simp
    from cells[OF this refl, of ?q] obtain C h D where c: "subspan v = C @ h # D"
      "(if ?q then rev (subspan v) else subspan v) = h # tl (if ?q then rev (subspan v) else subspan v)"
      "(if ?q then rev (tl (if ?q then rev (subspan v) else subspan v)) else
         tl (if ?q then rev (subspan v) else subspan v)) = C @ D" by blast
    have "sraRgnPopRect r flags = ((if C @ D = [] then B else v\<lparr>subspan := C @ D\<rparr> # B), Some (rect_of v h))"
      unfolding sraRgnPopRect_def Let_def r
      using F c by (auto simp: rect_of_def sraSpanListEmpty_def split: list.splits if_splits)
    with assms(2) r show ?thesis using cell_out[OF c(1), of "[]" B] by simp
  qed
qed

lemma popped_removes:
  assumes "popped r rect r'" and "rgn_ok r"
  shows "rgn_ok r' \<and> rect_pixels rect \<noteq> {} \<and> rect_pixels rect \<subseteq> pixels r \<and>
         pixels r' = pixels r - rect_pixels rect"
  using assms
proof (cases rule: popped.cases)
  case (cell_out v C h D A B)
  let ?v = "v\<lparr>subspan := C @ D\<rparr>"
  have v: "span_start v < span_end v" "span_start h < span_end h"
    and vs: "sorted_wrt before (C @ h # D)" "\<forall>k\<in>set (C @ D). span_start k < span_end k"
    using assms(2) cell_out by (auto simp: rgn_ok_iff)
  have AB: "rgn_ok (A @ B)" "\<forall>a\<in>set A. before a v" "\<forall>b\<in>set B. before v b"
    using assms(2) cell_out(1) by (auto simp: rgn_ok_iff sorted_wrt_append)
  have "rgn_ok r'"
  proof (cases "C @ D = []")
    case True
    then show ?thesis using AB(1) cell_out(3) by simp
  next
    case False
    have "sorted_wrt before (C @ D)" using vs(1) by (auto simp: sorted_wrt_append)
    then show ?thesis using assms(2) False cell_out vs(2)
      by (auto simp: rgn_ok_iff sorted_wrt_append before_def)
  qed
  moreover have rp: "(x, y) \<in> rect_pixels rect \<longleftrightarrow> span_start v \<le> y \<and> y < span_end v \<and>
      span_start h \<le> x \<and> x < span_end h" for x y
    using cell_out(2) by (auto simp: rect_pixels_def rect_of_def)
  have "(span_start h, span_start v) \<in> rect_pixels rect" using rp v by simp
  moreover have px: "(x, y) \<in> pixels r \<longleftrightarrow> (x, y) \<in> pixels (A @ B) \<or>
      span_start v \<le> y \<and> y < span_end v \<and>
      (\<exists>k\<in>set (C @ h # D). span_start k \<le> x \<and> x < span_end k)" for x y
    using cell_out(1,4) by (auto simp: pixels_iff)
  have px': "(x, y) \<in> pixels r' \<longleftrightarrow> (x, y) \<in> pixels (A @ B) \<or>
      span_start v \<le> y \<and> y < span_end v \<and>
      (\<exists>k\<in>set (C @ D). span_start k \<le> x \<and> x < span_end k)" for x y
    using cell_out(3) by (auto simp: pixels_iff)
  have off: "(x, y) \<notin> pixels (A @ B)" if "span_start v \<le> y" "y < span_end v" for x y
    using AB(2,3) that by (fastforce simp: pixels_iff before_def)
  have apart: "\<forall>k\<in>set (C @ D). span_end k \<le> span_start h \<or> span_end h \<le> span_start k"
    using vs(1) by (auto simp: sorted_wrt_append before_def)
  have "rect_pixels rect \<subseteq> pixels r"
  proof
    fix p assume "p \<in> rect_pixels rect"
    then show "p \<in> pixels r" using rp px by (cases p) auto
  qed
  moreover have "pixels r' = pixels r - rect_pixels rect"
  proof (rule set_eqI)
    fix p :: "int \<times> int"
    obtain x y where p: "p = (x, y)" by fastforce
    show "p \<in> pixels r' \<longleftrightarrow> p \<in> pixels r - rect_pixels rect"
    proof (cases "span_start v \<le> y \<and> y < span_end v")
      case True
      then show ?thesis using apart off[of y x] unfolding p Diff_iff px px' rp by fastforce
    next
      case False
      then show ?thesis unfolding p Diff_iff px px' rp by blast
    qed
  qed
  ultimately show ?thesis by blast
qed

text \<open>
  C24: \<open>sraRgnPopRect\<close> takes one rectangle of the region's pixels out, whatever the order asked
  for, and gives none only when the region is empty.
\<close>

theorem sraRgnPopRect_removes:
  assumes "rgn_ok r"
  shows "case sraRgnPopRect r flags of
           (r', None) \<Rightarrow> r = [] \<and> r' = []
         | (r', Some rect) \<Rightarrow> rgn_ok r' \<and> rect_pixels rect \<noteq> {} \<and> rect_pixels rect \<subseteq> pixels r \<and>
             pixels r' = pixels r - rect_pixels rect"
proof -
  obtain r' res where run: "sraRgnPopRect r flags = (r', res)" by fastforce
  show ?thesis
    using sraRgnPopRect_split[OF assms run] popped_removes[OF _ assms, of _ r'] run
    by (cases res) simp_all
qed

theorem sraRgnPopRect_removes_witness:
  "case sraRgnPopRect (sraRgnCreateRect 0 0 2 2) 3 of
     (r', None) \<Rightarrow> sraRgnCreateRect 0 0 2 2 = [] \<and> r' = []
   | (r', Some rect) \<Rightarrow> rgn_ok r' \<and> rect_pixels rect \<noteq> {} \<and>
       rect_pixels rect \<subseteq> pixels (sraRgnCreateRect 0 0 2 2) \<and>
       pixels r' = pixels (sraRgnCreateRect 0 0 2 2) - rect_pixels rect"
  by (rule sraRgnPopRect_removes[OF rgn_ok_rect]) simp_all

section \<open>Iterating\<close>

definition row_rects :: "bool \<Rightarrow> vspan \<Rightarrow> sraRect list" where
  "row_rects rx v = map (rect_of v) (if rx then rev (subspan v) else subspan v)"

lemma iterator_rects_eq:
  assumes "\<forall>v\<in>set (it_rows i). subspan v \<noteq> []" and "it_row i = None \<Longrightarrow> it_cells i = []"
  shows "iterator_rects i = (case it_row i of None \<Rightarrow> [] | Some v \<Rightarrow> map (rect_of v) (it_cells i)) @
           concat (map (row_rects (reverseX i)) (it_rows i))"
  using assms
proof (induction i rule: iterator_rects.induct)
  case (1 i)
  show ?case
  proof (cases "\<exists>v h hs. it_row i = Some v \<and> it_cells i = h # hs")
    case True
    then obtain v h hs where c: "it_row i = Some v" "it_cells i = h # hs" by blast
    then have step: "sraRgnIteratorNext i = (i\<lparr>it_cells := hs\<rparr>, Some (rect_of v h))"
      by (simp add: sraRgnIteratorNext_def)
    show ?thesis
      using "1.IH"[OF step[symmetric] refl] "1.prems" c by (subst iterator_rects.simps) (simp add: step)
  next
    case no: False
    show ?thesis
    proof (cases "it_rows i")
      case Nil
      then have "sraRgnIteratorNext i = (i\<lparr>it_row := None, it_cells := []\<rparr>, None)"
        using no by (auto simp: sraRgnIteratorNext_def split: option.splits list.splits)
      then show ?thesis using Nil no "1.prems"(2)
        by (subst iterator_rects.simps) (auto split: option.splits list.splits; cases "it_cells i"; simp)
    next
      case (Cons v vs)
      then have "subspan v \<noteq> []" using "1.prems"(1) by simp
      then obtain h hs where c: "(if reverseX i then rev (subspan v) else subspan v) = h # hs"
        by (metis neq_Nil_conv rev_is_Nil_conv)
      have step: "sraRgnIteratorNext i =
          (i\<lparr>it_rows := vs, it_row := Some v, it_cells := hs\<rparr>, Some (rect_of v h))"
        using no by (cases "it_row i"; cases "it_cells i")
          (simp_all add: sraRgnIteratorNext_def Cons c)
      have cur: "(case it_row i of None \<Rightarrow> [] | Some v \<Rightarrow> map (rect_of v) (it_cells i)) = []"
        using no by (cases "it_cells i") (auto split: option.splits)
      have "row_rects (reverseX i) v = rect_of v h # map (rect_of v) hs"
        by (simp add: row_rects_def c)
      then show ?thesis
        using "1.IH"[OF step[symmetric] refl] "1.prems" Cons
        by (subst iterator_rects.simps) (simp add: step cur)
    qed
  qed
qed

lemma reverse_iterator_rects:
  "rgn_ok r \<Longrightarrow> iterator_rects (sraRgnGetReverseIterator r rx ry) =
     concat (map (row_rects rx) (if ry then rev r else r))"
  by (subst iterator_rects_eq) (auto simp: sraRgnGetReverseIterator_def rgn_ok_iff)

lemma sraRgnGetIterator_eq: "sraRgnGetIterator r = sraRgnGetReverseIterator r False False"
  by (simp add: sraRgnGetIterator_def sraRgnGetReverseIterator_def)

lemma count_rects: "sraRgnCountRects r = sum_list (map (\<lambda>v. length (subspan v)) r)"
proof -
  have "sraSpanListCount nullCount l = length l" for l
    by (induction l) (auto simp: nullCount_def)
  then show ?thesis unfolding sraRgnCountRects_def by (induction r) auto
qed

definition disjoint_rects :: "sraRect \<Rightarrow> sraRect \<Rightarrow> bool" where
  "disjoint_rects a b \<longleftrightarrow> rect_pixels a \<inter> rect_pixels b = {}"

lemma disjoint_rects_sym: "disjoint_rects a b \<Longrightarrow> disjoint_rects b a"
  by (auto simp: disjoint_rects_def)

lemma sorted_wrt_sym_rev:
  assumes "\<And>a b. R a b \<Longrightarrow> R b a"
  shows "sorted_wrt R (rev xs) \<longleftrightarrow> sorted_wrt R xs"
  using assms by (simp add: sorted_wrt_rev) (metis (mono_tags, lifting) sorted_wrt_mono_rel)

lemma rect_of_pixels:
  "(x, y) \<in> rect_pixels (rect_of v h) \<longleftrightarrow>
     span_start v \<le> y \<and> y < span_end v \<and> span_start h \<le> x \<and> x < span_end h"
  by (auto simp: rect_pixels_def rect_of_def)

lemma row_rects_disjoint:
  assumes "sorted_wrt before (subspan v)"
  shows "sorted_wrt disjoint_rects (row_rects rx v)"
proof -
  have "sorted_wrt disjoint_rects (map (rect_of v) (subspan v))"
    unfolding sorted_wrt_map
    by (rule sorted_wrt_mono_rel[OF _ assms])
       (auto simp: disjoint_rects_def rect_pixels_def rect_of_def before_def)
  then show ?thesis
    by (cases rx) (simp_all add: row_rects_def rev_map[symmetric]
        sorted_wrt_sym_rev[of disjoint_rects, OF disjoint_rects_sym])
qed

lemma rows_rects_disjoint:
  assumes "sorted_wrt (\<lambda>v w. before v w \<or> before w v) vs"
    and "\<forall>v\<in>set vs. sorted_wrt before (subspan v)"
  shows "sorted_wrt disjoint_rects (concat (map (row_rects rx) vs))"
  using assms
proof (induction vs)
  case (Cons v vs)
  have "disjoint_rects a b" if "a \<in> set (row_rects rx v)" "w \<in> set vs" "b \<in> set (row_rects rx w)" for a b w
    using Cons.prems(1) that
    by (auto simp: row_rects_def disjoint_rects_def rect_pixels_def rect_of_def before_def
        split: if_splits dest!: bspec[of _ _ w])
  then show ?case using Cons row_rects_disjoint[of v rx] by (auto simp: sorted_wrt_append)
qed simp

lemma iterator_exact:
  assumes "rgn_ok r"
  shows "sorted_wrt disjoint_rects (iterator_rects (sraRgnGetReverseIterator r rx ry)) \<and>
         (\<Union>a\<in>set (iterator_rects (sraRgnGetReverseIterator r rx ry)). rect_pixels a) = pixels r \<and>
         length (iterator_rects (sraRgnGetReverseIterator r rx ry)) = sraRgnCountRects r"
proof (intro conjI)
  let ?vs = "if ry then rev r else r"
  note eq = reverse_iterator_rects[OF assms, of rx ry]
  have "sorted_wrt (\<lambda>v w. before v w \<or> before w v) r"
    using assms by (auto simp: rgn_ok_iff intro: sorted_wrt_mono_rel[of r before])
  then have "sorted_wrt (\<lambda>v w. before v w \<or> before w v) ?vs"
    by (auto simp: sorted_wrt_sym_rev disj_commute)
  moreover have "\<forall>v\<in>set ?vs. sorted_wrt before (subspan v)" using assms by (auto simp: rgn_ok_iff)
  ultimately show "sorted_wrt disjoint_rects (iterator_rects (sraRgnGetReverseIterator r rx ry))"
    unfolding eq by (rule rows_rects_disjoint)
  show "(\<Union>a\<in>set (iterator_rects (sraRgnGetReverseIterator r rx ry)). rect_pixels a) = pixels r"
  proof -
    have "(x, y) \<in> (\<Union>a\<in>set (concat (map (row_rects rx) vs)). rect_pixels a) \<longleftrightarrow>
        (\<exists>v\<in>set vs. \<exists>h\<in>set (subspan v). (x, y) \<in> rect_pixels (rect_of v h))" for x y vs
      by (auto simp: row_rects_def)
    moreover have "set ?vs = set r" by simp
    ultimately show ?thesis unfolding eq set_eq_iff split_paired_All
      by (simp only: rect_of_pixels pixels_iff) blast
  qed
  have "length (concat (map (row_rects rx) vs)) = sum_list (map (\<lambda>v. length (subspan v)) vs)" for vs
    by (induction vs) (auto simp: row_rects_def)
  then show "length (iterator_rects (sraRgnGetReverseIterator r rx ry)) = sraRgnCountRects r"
    unfolding eq count_rects by (auto simp: rev_map[symmetric] sum_list_rev)
qed

text \<open>
  The self-test at the end of \<open>rfbregion.c\<close>: a frame with a corner added. The rectangles and
  their number are the ones it prints as expected, for the iterator reversed in X.
\<close>

definition test_region :: sraRegion where
  "test_region = sraRgnOr
     (fst (sraRgnSubtract (sraRgnCreateRect 10 10 600 300) (sraRgnCreateRect 40 50 350 200)))
     (sraRgnCreateRect 0 0 20 40)"

lemma rgn_ok_test_region: "rgn_ok test_region"
  unfolding test_region_def rgn_ok_def sraRgnOr_def sraRgnSubtract_def
  by (intro row.Or_correct(1) row.Subtract_correct(1)) (auto simp: rgn_ok_rect simp flip: rgn_ok_def)

lemma test_region_eq: "test_region =
    [sraSpanCreate 0 10 [sraSpanCreate 0 20 ()], sraSpanCreate 10 40 [sraSpanCreate 0 600 ()],
     sraSpanCreate 40 50 [sraSpanCreate 10 600 ()],
     sraSpanCreate 50 200 [sraSpanCreate 10 40 (), sraSpanCreate 350 600 ()],
     sraSpanCreate 200 300 [sraSpanCreate 10 600 ()]]"
  by code_simp

text \<open>
  C30: in every direction, the rectangle iterator visits the region exactly: the rectangles it
  yields are pairwise disjoint, cover just the region's pixels, and there are as many of them
  as \<open>sraRgnCountRects\<close> says.
\<close>

theorem sraRgnIterator_exact:
  assumes "rgn_ok r"
  shows "sorted_wrt disjoint_rects (iterator_rects (sraRgnGetReverseIterator r rx ry)) \<and>
         (\<Union>a\<in>set (iterator_rects (sraRgnGetReverseIterator r rx ry)). rect_pixels a) = pixels r \<and>
         length (iterator_rects (sraRgnGetReverseIterator r rx ry)) = sraRgnCountRects r"
  by (rule iterator_exact[OF assms])

theorem sraRgnIterator_exact_witness:
  "map (\<lambda>r. (rx2 r - rx1 r, ry2 r - ry1 r, rx1 r, ry1 r))
       (iterator_rects (sraRgnGetReverseIterator test_region True False)) =
     [(20, 10, 0, 0), (600, 30, 0, 10), (590, 10, 10, 40), (250, 150, 350, 50), (30, 150, 10, 50),
      (590, 100, 10, 200)] \<and>
   sraRgnCountRects test_region = 6"
proof -
  let ?it = "iterator_rects (sraRgnGetReverseIterator test_region True False)"
  have its: "map (\<lambda>r. (rx2 r - rx1 r, ry2 r - ry1 r, rx1 r, ry1 r)) ?it =
     [(20, 10, 0, 0), (600, 30, 0, 10), (590, 10, 10, 40), (250, 150, 350, 50), (30, 150, 10, 50),
      (590, 100, 10, 200)]"
    unfolding reverse_iterator_rects[OF rgn_ok_test_region] unfolding test_region_eq
    by (simp add: row_rects_def rect_of_def)
  have "sraRgnCountRects test_region = length ?it"
    using sraRgnIterator_exact[OF rgn_ok_test_region, of True False] by simp
  also have "\<dots> = length (map (\<lambda>r. (rx2 r - rx1 r, ry2 r - ry1 r, rx1 r, ry1 r)) ?it)" by simp
  also have "\<dots> = 6" unfolding its by simp
  finally show ?thesis using its by blast
qed

section \<open>Clipping\<close>

text \<open>
  \<open>sraClipRect\<close> gives the intersection of the two rectangles, and says whether it is empty.
\<close>

theorem sraClipRect_intersection:
  "case sraClipRect x y w h cx cy cw ch of
     ((x', y', w', h'), r) \<Rightarrow>
       {x'..<x' + w'} \<times> {y'..<y' + h'} =
         ({x..<x + w} \<times> {y..<y + h}) \<inter> ({cx..<cx + cw} \<times> {cy..<cy + ch}) \<and>
       (r \<longleftrightarrow> ({x..<x + w} \<times> {y..<y + h}) \<inter> ({cx..<cx + cw} \<times> {cy..<cy + ch}) \<noteq> {})"
proof -
  have eq: "sraClipRect x y w h cx cy cw ch =
      ((max x cx, max y cy, min (x + w) (cx + cw) - max x cx, min (y + h) (cy + ch) - max y cy),
       max x cx < min (x + w) (cx + cw) \<and> max y cy < min (y + h) (cy + ch))"
    by (auto simp: sraClipRect_def Let_def max_def min_def)
  have "({x..<x + w} \<times> {y..<y + h}) \<inter> ({cx..<cx + cw} \<times> {cy..<cy + ch}) =
      {max x cx..<min (x + w) (cx + cw)} \<times> {max y cy..<min (y + h) (cy + ch)}"
    by auto
  then show ?thesis by (auto simp: eq)
qed

text \<open>
  \<open>sraClipRect2\<close> gives the intersection of two rectangles that meet; for rectangles that do
  not, it gives a strip at the border of the clip rectangle and still reports success.
\<close>

theorem sraClipRect2_clips:
  assumes "x < x2" and "y < y2" and "cx < cx2" and "cy < cy2"
  shows "case sraClipRect2 x y x2 y2 cx cy cx2 cy2 of
     ((x', y', x2', y2'), r) \<Rightarrow>
       r \<and> {x'..<x2'} \<times> {y'..<y2'} \<subseteq> {cx..<cx2} \<times> {cy..<cy2} \<and>
       (({x..<x2} \<times> {y..<y2}) \<inter> ({cx..<cx2} \<times> {cy..<cy2}) \<noteq> {} \<longrightarrow>
        {x'..<x2'} \<times> {y'..<y2'} = ({x..<x2} \<times> {y..<y2}) \<inter> ({cx..<cx2} \<times> {cy..<cy2}))"
proof -
  have eq: "sraClipRect2 x y x2 y2 cx cy cx2 cy2 =
      ((min (max x cx) (cx2 - 1), min (max y cy) (cy2 - 1), min (max x2 (cx + 1)) cx2,
        min (max y2 (cy + 1)) cy2), True)"
    using assms by (auto simp: sraClipRect2_def Let_def max_def min_def)
  show ?thesis using assms unfolding eq by (auto simp: max_def min_def split: if_splits)
qed

theorem sraClipRect2_clips_witness:
  "sraClipRect2 10 0 20 5 0 0 4 4 = ((3, 0, 4, 4), True) \<and>
   (case sraClipRect2 10 0 20 5 0 0 4 4 of ((x', y', x2', y2'), r) \<Rightarrow>
      r \<and> {x'..<x2'} \<times> {y'..<y2'} \<subseteq> {0::int..<4} \<times> {0::int..<4})"
  using sraClipRect2_clips[of 10 20 0 5 0 4 0 4] by (auto simp: sraClipRect2_def Let_def)

end
