(* ===== verification/RfbProto.thy ===== *)
theory RfbProto
  imports Prelude
begin

text \<open>
  What the components share of \<open>rfb/rfbproto.h\<close>: the pixel format, the byte order of the wire,
  the constants of the handshake and the messages that open a session. Multi-byte values go over
  the wire most significant byte first (\<open>Swap16IfLE\<close>, \<open>Swap32IfLE\<close>).
\<close>

record rfbPixelFormat =
  bitsPerPixel :: uint8_t
  depth :: uint8_t
  bigEndian :: bool
  trueColour :: bool
  redMax :: uint16_t
  greenMax :: uint16_t
  blueMax :: uint16_t
  redShift :: uint8_t
  greenShift :: uint8_t
  blueShift :: uint8_t

definition wire16 :: "uint16_t \<Rightarrow> uint8_t list" where
  "wire16 v = [ucast (drop_bit 8 v), ucast v]"

definition wire32 :: "uint32_t \<Rightarrow> uint8_t list" where
  "wire32 v = [ucast (drop_bit 24 v), ucast (drop_bit 16 v), ucast (drop_bit 8 v), ucast v]"

definition unwire16 :: "uint8_t list \<Rightarrow> uint16_t" where
  "unwire16 bs = push_bit 8 (ucast (bs ! 0)) OR ucast (bs ! 1)"

definition unwire32 :: "uint8_t list \<Rightarrow> uint32_t" where
  "unwire32 bs = push_bit 24 (ucast (bs ! 0)) OR push_bit 16 (ucast (bs ! 1)) OR
     push_bit 8 (ucast (bs ! 2)) OR ucast (bs ! 3)"

text \<open>\<open>TRUE\<close> is -1, which is 255 in a byte.\<close>

definition wire_bool :: "bool \<Rightarrow> uint8_t" where
  "wire_bool b = (if b then 0xFF else 0)"

text \<open>A pixel format as it is sent: sixteen bytes, the last three of them padding.\<close>

definition wire_format :: "rfbPixelFormat \<Rightarrow> uint8_t list" where
  "wire_format f =
     [bitsPerPixel f, depth f, wire_bool (bigEndian f), wire_bool (trueColour f)] @
     wire16 (redMax f) @ wire16 (greenMax f) @ wire16 (blueMax f) @
     [redShift f, greenShift f, blueShift f, 0, 0, 0]"

definition unwire_format :: "uint8_t list \<Rightarrow> rfbPixelFormat" where
  "unwire_format bs =
     \<lparr>bitsPerPixel = bs ! 0, depth = bs ! 1, bigEndian = bs ! 2 \<noteq> 0, trueColour = bs ! 3 \<noteq> 0,
      redMax = unwire16 (drop 4 bs), greenMax = unwire16 (drop 6 bs), blueMax = unwire16 (drop 8 bs),
      redShift = bs ! 10, greenShift = bs ! 11, blueShift = bs ! 12\<rparr>"

definition sz_rfbPixelFormat :: nat where "sz_rfbPixelFormat = 16"
definition sz_rfbProtocolVersionMsg :: nat where "sz_rfbProtocolVersionMsg = 12"
definition sz_rfbClientInitMsg :: nat where "sz_rfbClientInitMsg = 1"

definition rfbSecTypeInvalid :: int where "rfbSecTypeInvalid = 0"
definition rfbSecTypeNone :: int where "rfbSecTypeNone = 1"
definition rfbSecTypeVncAuth :: int where "rfbSecTypeVncAuth = 2"

definition rfbConnFailed :: uint32_t where "rfbConnFailed = 0"
definition rfbVncAuthOK :: uint32_t where "rfbVncAuthOK = 0"
definition rfbVncAuthFailed :: uint32_t where "rfbVncAuthFailed = 1"

definition rfbProtocolMajorVersion :: int where "rfbProtocolMajorVersion = 3"

text \<open>The types of the messages of a session, to the server and to the client.\<close>

abbreviation rfbSetPixelFormat :: uint8_t where "rfbSetPixelFormat \<equiv> 0"
abbreviation rfbFixColourMapEntries :: uint8_t where "rfbFixColourMapEntries \<equiv> 1"
abbreviation rfbSetEncodings :: uint8_t where "rfbSetEncodings \<equiv> 2"
abbreviation rfbFramebufferUpdateRequest :: uint8_t where "rfbFramebufferUpdateRequest \<equiv> 3"
abbreviation rfbKeyEvent :: uint8_t where "rfbKeyEvent \<equiv> 4"
abbreviation rfbPointerEvent :: uint8_t where "rfbPointerEvent \<equiv> 5"
abbreviation rfbClientCutText :: uint8_t where "rfbClientCutText \<equiv> 6"
abbreviation rfbFileTransfer :: uint8_t where "rfbFileTransfer \<equiv> 7"
abbreviation rfbSetScale :: uint8_t where "rfbSetScale \<equiv> 8"
abbreviation rfbSetServerInput :: uint8_t where "rfbSetServerInput \<equiv> 9"
abbreviation rfbSetSW :: uint8_t where "rfbSetSW \<equiv> 10"
abbreviation rfbTextChat :: uint8_t where "rfbTextChat \<equiv> 11"
abbreviation rfbPalmVNCSetScaleFactor :: uint8_t where "rfbPalmVNCSetScaleFactor \<equiv> 15"

abbreviation rfbFramebufferUpdate :: uint8_t where "rfbFramebufferUpdate \<equiv> 0"
abbreviation rfbSetColourMapEntries :: uint8_t where "rfbSetColourMapEntries \<equiv> 1"
abbreviation rfbBell :: uint8_t where "rfbBell \<equiv> 2"
abbreviation rfbServerCutText :: uint8_t where "rfbServerCutText \<equiv> 3"
abbreviation rfbResizeFrameBuffer :: uint8_t where "rfbResizeFrameBuffer \<equiv> 4"
abbreviation rfbPalmVNCReSizeFrameBuffer :: uint8_t where "rfbPalmVNCReSizeFrameBuffer \<equiv> 15"

text \<open>The encodings not named elsewhere, and the values of the chat and of the cut buffer.\<close>

definition rfbEncodingZlib :: uint32_t where "rfbEncodingZlib = 6"
definition rfbEncodingTight :: uint32_t where "rfbEncodingTight = 7"
definition rfbEncodingZlibHex :: uint32_t where "rfbEncodingZlibHex = 8"
definition rfbEncodingUltra :: uint32_t where "rfbEncodingUltra = 9"
definition rfbEncodingZRLE :: uint32_t where "rfbEncodingZRLE = 16"
definition rfbEncodingZYWRLE :: uint32_t where "rfbEncodingZYWRLE = 17"
definition rfbEncodingUltraZip :: uint32_t where "rfbEncodingUltraZip = 0xFFFF0009"
definition rfbEncodingCompressLevel0 :: uint32_t where "rfbEncodingCompressLevel0 = 0xFFFFFF00"
definition rfbEncodingCompressLevel9 :: uint32_t where "rfbEncodingCompressLevel9 = 0xFFFFFF09"
definition rfbEncodingQualityLevel0 :: uint32_t where "rfbEncodingQualityLevel0 = 0xFFFFFFE0"
definition rfbEncodingQualityLevel9 :: uint32_t where "rfbEncodingQualityLevel9 = 0xFFFFFFE9"

definition rfbTextMaxSize :: nat where "rfbTextMaxSize = 4096"
definition rfbTextChatOpen :: uint32_t where "rfbTextChatOpen = 0xFFFFFFFF"
definition rfbTextChatClose :: uint32_t where "rfbTextChatClose = 0xFFFFFFFE"
definition rfbTextChatFinished :: uint32_t where "rfbTextChatFinished = 0xFFFFFFFD"

definition sz_rfbSetPixelFormatMsg :: nat where "sz_rfbSetPixelFormatMsg = sz_rfbPixelFormat + 4"
definition sz_rfbFixColourMapEntriesMsg :: nat where "sz_rfbFixColourMapEntriesMsg = 6"
definition sz_rfbSetEncodingsMsg :: nat where "sz_rfbSetEncodingsMsg = 4"
definition sz_rfbFramebufferUpdateRequestMsg :: nat where "sz_rfbFramebufferUpdateRequestMsg = 10"
definition sz_rfbKeyEventMsg :: nat where "sz_rfbKeyEventMsg = 8"
definition sz_rfbPointerEventMsg :: nat where "sz_rfbPointerEventMsg = 6"
definition sz_rfbFileTransferMsg :: nat where "sz_rfbFileTransferMsg = 12"
definition sz_rfbSetSWMsg :: nat where "sz_rfbSetSWMsg = 6"
definition sz_rfbSetServerInputMsg :: nat where "sz_rfbSetServerInputMsg = 4"
definition sz_rfbTextChatMsg :: nat where "sz_rfbTextChatMsg = 8"
definition sz_rfbClientCutTextMsg :: nat where "sz_rfbClientCutTextMsg = 8"
definition sz_rfbSetScaleMsg :: nat where "sz_rfbSetScaleMsg = 4"

section \<open>Characters as bytes\<close>

definition ascii :: "string \<Rightarrow> uint8_t list" where
  "ascii s = map (\<lambda>c. of_char c) s"

section \<open>Round trips\<close>

lemma unwire16_wire16 [simp]: "unwire16 (wire16 v @ bs) = v"
  by (rule bit_word_eqI) (auto simp: unwire16_def wire16_def bit_simps)

lemma unwire16_wire16' [simp]: "unwire16 (wire16 v) = v"
  using unwire16_wire16[of v "[]"] by simp

lemma length_wire [simp]: "length (wire16 v) = 2" "length (wire32 w) = 4"
  by (simp_all add: wire16_def wire32_def)

lemma unwire32_wire32 [simp]: "unwire32 (wire32 v @ bs) = v"
proof (rule bit_word_eqI)
  fix i assume "i < LENGTH(32)"
  then show "bit (unwire32 (wire32 v @ bs)) i = bit v i"
    unfolding unwire32_def wire32_def
    by (cases "i < 8"; cases "i < 16"; cases "i < 24"; simp add: bit_simps; linarith)
qed

lemma unwire32_wire32' [simp]: "unwire32 (wire32 v) = v"
  using unwire32_wire32[of v "[]"] by simp

lemma length_wire_format [simp]: "length (wire_format f) = 16"
  by (simp add: wire_format_def)

lemma unwire_wire_format [simp]: "unwire_format (wire_format f @ bs) = f"
  by (simp add: unwire_format_def wire_format_def wire16_def unwire16_def[of "_ # _"] wire_bool_def)
    (simp add: unwire16_wire16'[unfolded unwire16_def wire16_def, simplified])

end
