(* ===== verification/Updates.thy ===== *)
theory Updates
  imports RegionRoutines RfbProto
begin

text \<open>
  How a change of the screen reaches the clients (\<open>libvncserver/main.c\<close>): every client has the
  region that is modified, the region to be copied and the distance of the copy. A picture is a
  function from coordinates to pixels; the frame buffer is a function from addresses (in pixels,
  row after row) to pixels, since the copying code works on addresses.
\<close>

section \<open>State\<close>

text \<open>The fields of \<open>rfbClientRec\<close> and \<open>rfbScreenInfo\<close> the update code works on.\<close>

record update_client =
  uc_sock :: int
  useCopyRect :: bool
  copyRegion :: sraRegion
  copyDX :: int
  copyDY :: int
  modifiedRegion :: sraRegion
  requestedRegion :: sraRegion
  enableCursorShapeUpdates :: bool
  enableCursorPosUpdates :: bool
  cursorWasMoved :: bool
  uc_cursorX :: int
  uc_cursorY :: int
  useNewFBSize :: bool
  newFBSizePending :: bool
  onHold :: bool
  translate_format :: rfbPixelFormat  \<comment> \<open>the server format the translation tables were made for\<close>

record cursor_size =
  cur_xhot :: int
  cur_yhot :: int
  cur_width :: int
  cur_height :: int

record update_screen =
  us_width :: int
  us_height :: int
  us_bitsPerPixel :: int
  us_serverFormat :: rfbPixelFormat
  us_cursorX :: int
  us_cursorY :: int
  us_cursor :: cursor_size
  us_clients :: "update_client list"

text \<open>The loop over \<open>rfbGetClientIterator\<close>, which passes over the clients that are closed.\<close>

definition for_clients :: "(update_client \<Rightarrow> update_client) \<Rightarrow> update_screen \<Rightarrow> update_screen" where
  "for_clients f scr = scr\<lparr>us_clients := map (\<lambda>cl. if 0 \<le> uc_sock cl then f cl else cl) (us_clients scr)\<rparr>"

section \<open>Modified regions\<close>

definition mark_client :: "sraRegion \<Rightarrow> update_client \<Rightarrow> update_client" where
  "mark_client modRegion cl = cl\<lparr>modifiedRegion := sraRgnOr (modifiedRegion cl) modRegion\<rparr>"

definition rfbMarkRegionAsModified :: "update_screen \<Rightarrow> sraRegion \<Rightarrow> update_screen" where
  "rfbMarkRegionAsModified scr modRegion = for_clients (mark_client modRegion) scr"

text \<open>
  The coordinates after ordering and clipping, or \<open>None\<close> for the early return. The scaled copies
  of the screen, which are refreshed first, are not part of this state.
\<close>

definition clip_mark :: "int \<Rightarrow> int \<Rightarrow> int \<Rightarrow> (int \<times> int) option" where
  "clip_mark a b limit =
     (let (a, b) = (if b < a then (b, a) else (a, b));
          a = (if a < 0 then 0 else a);
          b = (if limit < b then limit else b)
      in if a = b then None else Some (a, b))"

definition rfbMarkRectAsModified :: "update_screen \<Rightarrow> int \<Rightarrow> int \<Rightarrow> int \<Rightarrow> int \<Rightarrow> update_screen" where
  "rfbMarkRectAsModified scr x1 y1 x2 y2 =
     (case clip_mark x1 x2 (us_width scr) of
        None \<Rightarrow> scr
      | Some (x1, x2) \<Rightarrow>
         (case clip_mark y1 y2 (us_height scr) of
            None \<Rightarrow> scr
          | Some (y1, y2) \<Rightarrow> rfbMarkRegionAsModified scr (sraRgnCreateRect x1 y1 x2 y2)))"

section \<open>Copied regions\<close>

text \<open>The body of the loop of \<open>rfbScheduleCopyRegion\<close>.\<close>

definition forget_old_copy :: "sraRegion \<Rightarrow> int \<Rightarrow> int \<Rightarrow> update_client \<Rightarrow> update_client" where
  "forget_old_copy copyRgn dx dy cl =
     (if \<not> sraRgnEmpty (copyRegion cl)
      then (if copyDX cl \<noteq> dx \<or> copyDY cl \<noteq> dy
            then cl\<lparr>modifiedRegion := sraRgnOr (modifiedRegion cl) (copyRegion cl),
                    copyRegion := sraRgnMakeEmpty (copyRegion cl)\<rparr>
            else (let backup = sraRgnCreateRgn copyRgn;
                      backup = sraRgnOffset backup (- dx) (- dy);
                      backup = fst (sraRgnAnd backup (copyRegion cl))
                  in cl\<lparr>modifiedRegion := sraRgnOr (modifiedRegion cl) backup\<rparr>))
      else cl)"

definition mark_cursor :: "cursor_size \<Rightarrow> int \<Rightarrow> int \<Rightarrow> update_client \<Rightarrow> update_client" where
  "mark_cursor cursor dx dy cl =
     (let x = uc_cursorX cl - cur_xhot cursor; y = uc_cursorY cl - cur_yhot cursor;
          w = cur_width cursor; h = cur_height cursor;
          cursorRegion = sraRgnCreateRect x y (x + w) (y + h);
          cursorRegion = fst (sraRgnAnd cursorRegion (copyRegion cl));
          cl = (if \<not> sraRgnEmpty cursorRegion
                then cl\<lparr>modifiedRegion := sraRgnOr (modifiedRegion cl) cursorRegion\<rparr> else cl);
          cursorRegion = sraRgnCreateRect x y (x + w) (y + h);
          cursorRegion = sraRgnOffset cursorRegion dx dy;
          cursorRegion = fst (sraRgnAnd cursorRegion (copyRegion cl))
      in if \<not> sraRgnEmpty cursorRegion
         then cl\<lparr>modifiedRegion := sraRgnOr (modifiedRegion cl) cursorRegion\<rparr> else cl)"

definition schedule_client :: "cursor_size \<Rightarrow> sraRegion \<Rightarrow> int \<Rightarrow> int \<Rightarrow> update_client \<Rightarrow> update_client" where
  "schedule_client cursor copyRgn dx dy cl =
     (if useCopyRect cl
      then (let cl = forget_old_copy copyRgn dx dy cl;
                cl = cl\<lparr>copyRegion := sraRgnOr (copyRegion cl) copyRgn, copyDX := dx, copyDY := dy\<rparr>;
                backup = sraRgnCreateRgn (modifiedRegion cl);
                backup = sraRgnOffset backup dx dy;
                backup = fst (sraRgnAnd backup (copyRegion cl));
                cl = cl\<lparr>modifiedRegion := sraRgnOr (modifiedRegion cl) backup\<rparr>
            in if \<not> enableCursorShapeUpdates cl then mark_cursor cursor dx dy cl else cl)
      else cl\<lparr>modifiedRegion := sraRgnOr (modifiedRegion cl) copyRgn\<rparr>)"

definition rfbScheduleCopyRegion :: "update_screen \<Rightarrow> sraRegion \<Rightarrow> int \<Rightarrow> int \<Rightarrow> update_screen" where
  "rfbScheduleCopyRegion scr copyRgn dx dy = for_clients (schedule_client (us_cursor scr) copyRgn dx dy) scr"

definition rfbScheduleCopyRect :: "update_screen \<Rightarrow> int \<Rightarrow> int \<Rightarrow> int \<Rightarrow> int \<Rightarrow> int \<Rightarrow> int \<Rightarrow> update_screen" where
  "rfbScheduleCopyRect scr x1 y1 x2 y2 dx dy =
     rfbScheduleCopyRegion scr (sraRgnCreateRect x1 y1 x2 y2) dx dy"

text \<open>The copying itself; the rows of the buffer are \<open>stride\<close> pixels apart.\<close>

definition memmove :: "int \<Rightarrow> int \<Rightarrow> int \<Rightarrow> (int \<Rightarrow> 'p) \<Rightarrow> int \<Rightarrow> 'p" where
  "memmove out inp n mem = (\<lambda>a. if out \<le> a \<and> a < out + n then mem (inp + (a - out)) else mem a)"

definition copy_line :: "int \<Rightarrow> int \<Rightarrow> int \<Rightarrow> sraRect \<Rightarrow> int \<Rightarrow> (int \<Rightarrow> 'p) \<Rightarrow> int \<Rightarrow> 'p" where
  "copy_line stride dx dy rect j mem =
     memmove (rx1 rect + j * stride) (rx1 rect - dx + (j - dy) * stride) (rx2 rect - rx1 rect) mem"

definition copy_rect_lines :: "int \<Rightarrow> int \<Rightarrow> int \<Rightarrow> sraRect \<Rightarrow> (int \<Rightarrow> 'p) \<Rightarrow> int \<Rightarrow> 'p" where
  "copy_rect_lines stride dx dy rect mem =
     fold (copy_line stride dx dy rect)
       (if dy < 0 then [ry1 rect..ry2 rect - 1] else rev [ry1 rect..ry2 rect - 1]) mem"

definition copy_region_lines :: "int \<Rightarrow> sraRegion \<Rightarrow> int \<Rightarrow> int \<Rightarrow> (int \<Rightarrow> 'p) \<Rightarrow> int \<Rightarrow> 'p" where
  "copy_region_lines stride copyRgn dx dy mem =
     fold (copy_rect_lines stride dx dy)
       (iterator_rects (sraRgnGetReverseIterator copyRgn (dx < 0) (dy < 0))) mem"

definition rfbDoCopyRegion ::
    "update_screen \<times> (int \<Rightarrow> 'p) \<Rightarrow> sraRegion \<Rightarrow> int \<Rightarrow> int \<Rightarrow> update_screen \<times> (int \<Rightarrow> 'p)" where
  "rfbDoCopyRegion st copyRgn dx dy =
     (let (scr, frameBuffer) = st;
          frameBuffer = copy_region_lines (us_width scr) copyRgn dx dy frameBuffer
      in (rfbScheduleCopyRegion scr copyRgn dx dy, frameBuffer))"

definition rfbDoCopyRect ::
    "update_screen \<times> (int \<Rightarrow> 'p) \<Rightarrow> int \<Rightarrow> int \<Rightarrow> int \<Rightarrow> int \<Rightarrow> int \<Rightarrow> int \<Rightarrow> update_screen \<times> (int \<Rightarrow> 'p)" where
  "rfbDoCopyRect st x1 y1 x2 y2 dx dy = rfbDoCopyRegion st (sraRgnCreateRect x1 y1 x2 y2) dx dy"

section \<open>The pointer and a new frame buffer\<close>

definition rfbDefaultPtrAddEvent :: "update_screen \<Rightarrow> nat \<Rightarrow> int \<Rightarrow> int \<Rightarrow> update_screen" where
  "rfbDefaultPtrAddEvent scr me x y =
     (if x \<noteq> us_cursorX scr \<or> y \<noteq> us_cursorY scr
      then (let scr = scr\<lparr>us_cursorX := x, us_cursorY := y\<rparr>
            in scr\<lparr>us_clients := map (\<lambda>i. let cl = us_clients scr ! i in
                 if i = me then (if enableCursorPosUpdates cl then cl\<lparr>cursorWasMoved := False\<rparr> else cl)
                 else if 0 \<le> uc_sock cl \<and> enableCursorPosUpdates cl then cl\<lparr>cursorWasMoved := True\<rparr> else cl)
                 [0..<length (us_clients scr)]\<rparr>)
      else scr)"

text \<open>On a little-endian host (\<open>rfbEndianTest\<close>).\<close>

definition rfbInitServerFormat :: "int \<Rightarrow> nat \<Rightarrow> rfbPixelFormat" where
  "rfbInitServerFormat bpp bitsPerSample =
     (if bpp = 8
      then \<lparr>bitsPerPixel = 8, depth = 8, bigEndian = False, trueColour = True,
            redMax = 7, greenMax = 7, blueMax = 3, redShift = 0, greenShift = 3, blueShift = 6\<rparr>
      else \<lparr>bitsPerPixel = word_of_int bpp, depth = word_of_int bpp, bigEndian = False, trueColour = True,
            redMax = push_bit bitsPerSample 1 - 1, greenMax = push_bit bitsPerSample 1 - 1,
            blueMax = push_bit bitsPerSample 1 - 1,
            redShift = 0, greenShift = word_of_nat bitsPerSample, blueShift = word_of_nat (bitsPerSample * 2)\<rparr>)"

definition renew_client :: "rfbPixelFormat \<Rightarrow> bool \<Rightarrow> int \<Rightarrow> int \<Rightarrow> update_client \<Rightarrow> update_client" where
  "renew_client serverFormat format_changed width height cl =
     (let cl = (if format_changed then cl\<lparr>translate_format := serverFormat\<rparr> else cl);
          cl = cl\<lparr>modifiedRegion := sraRgnCreateRect 0 0 width height,
                  copyRegion := sraRgnMakeEmpty (copyRegion cl), copyDX := 0, copyDY := 0\<rparr>
      in if useNewFBSize cl then cl\<lparr>newFBSizePending := True\<rparr> else cl)"

definition rfbNewFramebuffer :: "update_screen \<Rightarrow> int \<Rightarrow> int \<Rightarrow> nat \<Rightarrow> int \<Rightarrow> update_screen" where
  "rfbNewFramebuffer scr width height bitsPerSample bytesPerPixel =
     (let old_format = us_serverFormat scr;
          scr = scr\<lparr>us_width := width, us_height := height, us_bitsPerPixel := 8 * bytesPerPixel,
                    us_serverFormat := rfbInitServerFormat (8 * bytesPerPixel) bitsPerSample\<rparr>;
          format_changed = (us_serverFormat scr \<noteq> old_format);
          scr = scr\<lparr>us_cursorX := (if width \<le> us_cursorX scr then width - 1 else us_cursorX scr),
                    us_cursorY := (if height \<le> us_cursorY scr then height - 1 else us_cursorY scr)\<rparr>
      in for_clients (renew_client (us_serverFormat scr) format_changed width height) scr)"

end
