(* ===== verification/Suinput.thy ===== *)
theory Suinput
  imports Prelude
begin

text \<open>
  \<open>jni/vnc/suinput.c\<close>: the virtual input device, made through the kernel's \<open>uinput\<close> interface. The
  kernel is a parameter: it answers each system call, and may let its answer depend on all calls
  made before. The state is the trace of the calls with their answers.
\<close>

section \<open>System calls\<close>

record input_id =
  bustype :: nat
  vendor :: nat
  product :: nat
  version :: nat

text \<open>The fields of \<open>struct uinput_user_dev\<close> that are set; all others are zero.\<close>

record uinput_user_dev =
  dev_name :: string
  dev_id :: input_id
  absmin :: "nat \<Rightarrow> int"
  absmax :: "nat \<Rightarrow> int"
  absfuzz :: "nat \<Rightarrow> int"
  absflat :: "nat \<Rightarrow> int"

datatype request =
    UI_SET_EVBIT nat
  | UI_SET_ABSBIT nat
  | UI_SET_KEYBIT nat
  | UI_DEV_CREATE
  | UI_DEV_DESTROY

text \<open>The fields of \<open>struct input_event\<close>: type, code and value (the time aside).\<close>

type_synonym input_event = "nat \<times> nat \<times> int"

datatype syscall =
    Open string
  | Ioctl int request
  | WriteUserDev int uinput_user_dev
  | WriteEvent int input_event
  | Socket
  | Connect int string
  | Send int string
  | Close int

type_synonym trace = "(syscall \<times> int) list"
type_synonym kernel = "trace \<Rightarrow> syscall \<Rightarrow> int"

definition call :: "kernel \<Rightarrow> syscall \<Rightarrow> trace \<Rightarrow> int \<times> trace" where
  "call k c t = (let r = k t c in (r, t @ [(c, r)]))"

text \<open>The descriptors a trace leaves open; a failing \<open>close\<close> releases its descriptor too.\<close>

fun fd_step :: "syscall \<times> int \<Rightarrow> int set \<Rightarrow> int set" where
  "fd_step (Open _, r) S = (if r = -1 then S else insert r S)"
| "fd_step (Socket, r) S = (if r = -1 then S else insert r S)"
| "fd_step (Close fd, _) S = S - {fd}"
| "fd_step _ S = S"

definition open_fds :: "trace \<Rightarrow> int set" where
  "open_fds t = fold fd_step t {}"

text \<open>POSIX: \<open>open\<close> and \<open>socket\<close> return a descriptor that is not in use.\<close>

definition fresh_fds :: "kernel \<Rightarrow> bool" where
  "fresh_fds k \<longleftrightarrow> (\<forall>t. (\<forall>p. k t (Open p) = -1 \<or> k t (Open p) \<notin> open_fds t) \<and>
                        (k t Socket = -1 \<or> k t Socket \<notin> open_fds t))"

section \<open>Constants of \<open>linux/input.h\<close> and \<open>linux/uinput.h\<close>\<close>

definition EV_SYN :: nat where "EV_SYN = 0"
definition EV_KEY :: nat where "EV_KEY = 1"
definition EV_REL :: nat where "EV_REL = 2"
definition EV_ABS :: nat where "EV_ABS = 3"
definition EV_REP :: nat where "EV_REP = 20"
definition SYN_REPORT :: nat where "SYN_REPORT = 0"
definition REL_X :: nat where "REL_X = 0"
definition REL_Y :: nat where "REL_Y = 1"
definition ABS_X :: nat where "ABS_X = 0"
definition ABS_Y :: nat where "ABS_Y = 1"
definition BTN_TOUCH :: nat where "BTN_TOUCH = 330"
definition KEY_HOME :: nat where "KEY_HOME = 102"
definition KEY_END :: nat where "KEY_END = 107"
definition KEY_MAX :: nat where "KEY_MAX = 0x2ff"
definition UINPUT_MAX_NAME_SIZE :: nat where "UINPUT_MAX_NAME_SIZE = 80"

text \<open>\<open>sizeof(struct input_event)\<close> and \<open>sizeof(struct uinput_user_dev)\<close> on a 32 bit system.\<close>

definition sizeof_input_event :: int where "sizeof_input_event = 16"
definition sizeof_uinput_user_dev :: int where "sizeof_uinput_user_dev = 1116"

lemmas event_codes =
  EV_SYN_def EV_KEY_def EV_REL_def EV_ABS_def EV_REP_def SYN_REPORT_def REL_X_def REL_Y_def
  ABS_X_def ABS_Y_def BTN_TOUCH_def KEY_HOME_def KEY_END_def

section \<open>Writing events\<close>

definition suinput_write :: "kernel \<Rightarrow> int \<Rightarrow> nat \<Rightarrow> nat \<Rightarrow> int \<Rightarrow> trace \<Rightarrow> int \<times> trace" where
  "suinput_write k fd type code val t =
     (let (n, t) = call k (WriteEvent fd (type, code, val)) t
      in if n \<noteq> sizeof_input_event then (-1, t) else (0, t))"

definition suinput_write_syn :: "kernel \<Rightarrow> int \<Rightarrow> nat \<Rightarrow> nat \<Rightarrow> int \<Rightarrow> trace \<Rightarrow> int \<times> trace" where
  "suinput_write_syn k fd type code val t =
     (let (r, t) = suinput_write k fd type code val t
      in if r \<noteq> 0 then (-1, t) else suinput_write k fd EV_SYN SYN_REPORT 0 t)"

definition suinput_move_pointer :: "kernel \<Rightarrow> int \<Rightarrow> int \<Rightarrow> int \<Rightarrow> trace \<Rightarrow> int \<times> trace" where
  "suinput_move_pointer k fd x y t =
     (let (r, t) = suinput_write k fd EV_REL REL_X x t
      in if r \<noteq> 0 then (-1, t) else suinput_write_syn k fd EV_REL REL_Y y t)"

definition suinput_set_pointer :: "kernel \<Rightarrow> int \<Rightarrow> int \<Rightarrow> int \<Rightarrow> trace \<Rightarrow> int \<times> trace" where
  "suinput_set_pointer k fd x y t =
     (let (r, t) = suinput_write k fd EV_ABS ABS_X x t
      in if r \<noteq> 0 then (-1, t) else suinput_write_syn k fd EV_ABS ABS_Y y t)"

definition suinput_press :: "kernel \<Rightarrow> int \<Rightarrow> nat \<Rightarrow> trace \<Rightarrow> int \<times> trace" where
  "suinput_press k fd code t = suinput_write k fd EV_KEY code 1 t"

definition suinput_release :: "kernel \<Rightarrow> int \<Rightarrow> nat \<Rightarrow> trace \<Rightarrow> int \<times> trace" where
  "suinput_release k fd code t = suinput_write k fd EV_KEY code 0 t"

definition suinput_click :: "kernel \<Rightarrow> int \<Rightarrow> nat \<Rightarrow> trace \<Rightarrow> int \<times> trace" where
  "suinput_click k fd code t =
     (let (r, t) = suinput_press k fd code t
      in if r \<noteq> 0 then (-1, t) else suinput_release k fd code t)"

section \<open>Opening and closing the device\<close>

definition UINPUT_FILEPATHS :: "string list" where
  "UINPUT_FILEPATHS =
     [''/android/dev/uinput'', ''/dev/uinput'', ''/dev/input/uinput'', ''/dev/misc/uinput'']"

fun open_first :: "kernel \<Rightarrow> string list \<Rightarrow> int \<Rightarrow> trace \<Rightarrow> int \<times> trace" where
  "open_first k [] fd t = (fd, t)"
| "open_first k (p # ps) fd t =
     (let (fd, t) = call k (Open p) t
      in if fd \<noteq> -1 then (fd, t) else open_first k ps fd t)"

text \<open>A run of \<open>if (ioctl(...) == -1) goto err\<close>; the flag tells that none of them failed.\<close>

fun ioctls :: "kernel \<Rightarrow> int \<Rightarrow> request list \<Rightarrow> trace \<Rightarrow> bool \<times> trace" where
  "ioctls k fd [] t = (True, t)"
| "ioctls k fd (r # rs) t =
     (let (a, t) = call k (Ioctl fd r) t
      in if a = -1 then (False, t) else ioctls k fd rs t)"

definition user_dev :: "string \<Rightarrow> input_id \<Rightarrow> uinput_user_dev" where
  "user_dev name ident =
     \<lparr>dev_name = take UINPUT_MAX_NAME_SIZE name, dev_id = ident,
      absmin = (\<lambda>_. 0)(ABS_X := -2047, ABS_Y := -2047),
      absmax = (\<lambda>_. 0)(ABS_X := 2048, ABS_Y := 2048),
      absfuzz = (\<lambda>_. 0)(ABS_X := 0, ABS_Y := 0), absflat = (\<lambda>_. 0)(ABS_X := 0, ABS_Y := 0)\<rparr>"

definition suinput_open :: "kernel \<Rightarrow> string \<Rightarrow> input_id \<Rightarrow> trace \<Rightarrow> int \<times> trace" where
  "suinput_open k device_name identent t =
     (let (fd, t) = open_first k UINPUT_FILEPATHS (-1) t;
          err = (\<lambda>t. (-1, snd (call k (Close fd) t)))
      in if fd = -1 then (-1, t)
         else let (ok, t) = ioctls k fd
                    [UI_SET_EVBIT EV_KEY, UI_SET_EVBIT EV_REP, UI_SET_EVBIT EV_ABS, UI_SET_EVBIT EV_SYN,
                     UI_SET_ABSBIT ABS_X, UI_SET_ABSBIT ABS_Y] t
              in if \<not> ok then err t
                 else let (ok, t) = ioctls k fd (map UI_SET_KEYBIT [0..<KEY_MAX]) t
                      in if \<not> ok then err t
                         else let (n, t) = call k (WriteUserDev fd (user_dev device_name identent)) t
                              in if n \<noteq> sizeof_uinput_user_dev then err t
                                 else let (a, t) = call k (Ioctl fd UI_DEV_CREATE) t
                                      in if a = -1 then err t else (fd, t))"

definition suinput_close :: "kernel \<Rightarrow> int \<Rightarrow> trace \<Rightarrow> int \<times> trace" where
  "suinput_close k fd t =
     (let (a, t) = call k (Ioctl fd UI_DEV_DESTROY) t
      in if a = -1 then (-1, snd (call k (Close fd) t))
         else let (a, t) = call k (Close fd) t in if a = -1 then (-1, t) else (0, t))"

section \<open>Descriptors\<close>

lemma open_fds_snoc: "open_fds (t @ [e]) = fd_step e (open_fds t)"
  by (simp add: open_fds_def)

lemma open_first_cases:
  assumes "open_first k ps (-1) t = (fd, t')"
  shows "if fd = -1 then open_fds t' = open_fds t
         else \<exists>p\<in>set ps. \<exists>u. t' = u @ [(Open p, fd)] \<and> k u (Open p) = fd \<and> open_fds u = open_fds t"
  using assms
proof (induction ps arbitrary: t)
  case Nil then show ?case by simp
next
  case (Cons p ps)
  show ?case
  proof (cases "k t (Open p) = -1")
    case True
    then have "open_first k ps (-1) (t @ [(Open p, -1)]) = (fd, t')"
      using Cons.prems by (simp add: call_def Let_def)
    from Cons.IH [OF this] show ?thesis by (auto simp: open_fds_snoc split: if_splits)
  next
    case False
    then show ?thesis using Cons.prems by (auto simp: call_def Let_def)
  qed
qed

text \<open>What a run of \<open>ioctl\<close> calls adds to the trace.\<close>

lemma ioctls_trace:
  assumes "ioctls k fd rs t = (ok, t')"
  shows "open_fds t' = open_fds t \<and> (ok \<longrightarrow> map fst t' = map fst t @ map (Ioctl fd) rs)"
  using assms
proof (induction rs arbitrary: t)
  case Nil then show ?case by simp
next
  case (Cons r rs)
  let ?t = "t @ [(Ioctl fd r, k t (Ioctl fd r))]"
  show ?case
  proof (cases "k t (Ioctl fd r) = -1")
    case True
    then show ?thesis using Cons.prems by (auto simp: call_def Let_def open_fds_snoc)
  next
    case False
    then have "ioctls k fd rs ?t = (ok, t')" using Cons.prems by (simp add: call_def Let_def)
    from Cons.IH [OF this] show ?thesis by (auto simp: open_fds_snoc)
  qed
qed

lemma open_first_no_close:
  assumes "open_first k ps fd0 t = (fd, t')"
  shows "\<exists>ps'. map fst t' = map fst t @ map Open ps'"
  using assms
proof (induction ps arbitrary: t fd0)
  case Nil then have "map fst t' = map fst t @ map Open []" by simp
  then show ?case by blast
next
  case (Cons p ps)
  let ?t = "t @ [(Open p, k t (Open p))]"
  show ?case
  proof (cases "k t (Open p) = -1")
    case True
    then have "open_first k ps (-1) ?t = (fd, t')" using Cons.prems by (simp add: call_def Let_def)
    from Cons.IH [OF this] obtain ps' where "map fst t' = map fst ?t @ map Open ps'" by blast
    then have "map fst t' = map fst t @ map Open (p # ps')" by simp
    then show ?thesis by blast
  next
    case False
    then have "map fst t' = map fst t @ map Open [p]" using Cons.prems by (auto simp: call_def Let_def)
    then show ?thesis by blast
  qed
qed

definition setup_calls :: "int \<Rightarrow> string \<Rightarrow> input_id \<Rightarrow> syscall list" where
  "setup_calls fd name ident =
     map (Ioctl fd) ([UI_SET_EVBIT EV_KEY, UI_SET_EVBIT EV_REP, UI_SET_EVBIT EV_ABS, UI_SET_EVBIT EV_SYN,
        UI_SET_ABSBIT ABS_X, UI_SET_ABSBIT ABS_Y] @ map UI_SET_KEYBIT [0..<KEY_MAX])
     @ [WriteUserDev fd (user_dev name ident), Ioctl fd UI_DEV_CREATE]"

text \<open>The cases of \<open>suinput_open\<close>: no device, a failing set-up step, or success.\<close>

lemma suinput_open_cases:
  assumes "suinput_open k name ident t = (fd, t')"
  obtains (no_device) "open_first k UINPUT_FILEPATHS (-1) t = (-1, t')" "fd = -1"
  | (failed) u v fd' where "open_first k UINPUT_FILEPATHS (-1) t = (fd', u)" "fd' \<noteq> -1" "fd = -1"
      "open_fds v = open_fds u" "t' = v @ [(Close fd', k v (Close fd'))]"
  | (opened) u where "open_first k UINPUT_FILEPATHS (-1) t = (fd, u)" "fd \<noteq> -1"
      "open_fds t' = open_fds u" "map fst t' = map fst u @ setup_calls fd name ident"
proof -
  obtain fd' u where o: "open_first k UINPUT_FILEPATHS (-1) t = (fd', u)" by fastforce
  show thesis
  proof (cases "fd' = -1")
    case True
    then have "suinput_open k name ident t = (-1, u)"
      unfolding suinput_open_def o by (simp add: Let_def del: ioctls.simps)
    with assms have "fd = -1" "t' = u" by simp_all
    with no_device o True show thesis by blast
  next
    case open': False
    let ?evs = "[UI_SET_EVBIT EV_KEY, UI_SET_EVBIT EV_REP, UI_SET_EVBIT EV_ABS, UI_SET_EVBIT EV_SYN,
                 UI_SET_ABSBIT ABS_X, UI_SET_ABSBIT ABS_Y]"
    obtain ok1 t1 where i1: "ioctls k fd' ?evs u = (ok1, t1)" by fastforce
    note r1 = ioctls_trace [OF i1]
    obtain ok2 t2 where i2: "ioctls k fd' (map UI_SET_KEYBIT [0..<KEY_MAX]) t1 = (ok2, t2)" by fastforce
    note r2 = ioctls_trace [OF i2]
    let ?d = "WriteUserDev fd' (user_dev name ident)"
    define t3 where "t3 = t2 @ [(?d, k t2 ?d)]"
    define t4 where "t4 = t3 @ [(Ioctl fd' UI_DEV_CREATE, k t3 (Ioctl fd' UI_DEV_CREATE))]"
    have "open_fds t3 = open_fds t2" by (simp add: t3_def open_fds_snoc)
    moreover have "open_fds t4 = open_fds t3" unfolding t4_def by (simp add: open_fds_snoc)
    ultimately have f3: "open_fds t3 = open_fds t2" "open_fds t4 = open_fds t2" by simp_all
    have eq: "suinput_open k name ident t =
        (if \<not> ok1 then (-1, t1 @ [(Close fd', k t1 (Close fd'))])
         else if \<not> ok2 then (-1, t2 @ [(Close fd', k t2 (Close fd'))])
         else if k t2 ?d \<noteq> sizeof_uinput_user_dev then (-1, t3 @ [(Close fd', k t3 (Close fd'))])
         else if k t3 (Ioctl fd' UI_DEV_CREATE) = -1 then (-1, t4 @ [(Close fd', k t4 (Close fd'))])
         else (fd', t4))"
      using open' by (simp add: suinput_open_def o i1 i2 call_def Let_def t3_def t4_def del: ioctls.simps)
    show thesis
    proof (cases "fd = -1")
      case True
      then show thesis using eq assms r1 r2 f3 failed [OF o open'] open' by (auto split: if_splits)
    next
      case False
      then have "ok1" "ok2" "fd = fd'" "t' = t4" using eq assms by (auto split: if_splits)
      with r1 r2 f3 o open' opened show thesis by (simp add: t3_def t4_def setup_calls_def)
    qed
  qed
qed

text \<open>
  C29: \<open>suinput_open\<close> keeps the descriptors of the process in order. When it returns -1, whatever
  step of the set-up failed, exactly the descriptors open before are open; otherwise the one it
  returns is open in addition, was not in use before, and the calls after the one that opened it
  are the complete set-up of the device, with its creation last.
\<close>

theorem suinput_open_descriptors:
  assumes "fresh_fds k" "suinput_open k name ident t = (fd, t')"
  shows "if fd = -1 then open_fds t' = open_fds t
         else fd \<notin> open_fds t \<and> open_fds t' = insert fd (open_fds t) \<and>
              (\<exists>ps. map fst t' = map fst t @ map Open ps @ setup_calls fd name ident)"
  using assms(2)
proof (cases rule: suinput_open_cases)
  case no_device
  then show ?thesis using open_first_cases by fastforce
next
  case (failed u v fd')
  from open_first_cases [OF failed(1)] failed(2) assms(1) show ?thesis
    by (auto simp: failed(3-5) open_fds_snoc fresh_fds_def)
next
  case (opened u)
  from open_first_cases [OF opened(1)] opened(2) assms(1) have
    "fd \<notin> open_fds t" "open_fds u = insert fd (open_fds t)"
    by (auto simp: open_fds_snoc fresh_fds_def)
  with open_first_no_close [OF opened(1)] opened show ?thesis by auto
qed

text \<open>A kernel that has only \<open>/dev/uinput\<close>, accepts every request and never reuses a number.\<close>

definition next_fd :: "trace \<Rightarrow> int" where
  "next_fd t = 3 + sum_list (map (\<lambda>(c, r). \<bar>r\<bar>) t)"

definition good_kernel :: kernel where
  "good_kernel t c =
     (case c of Open p \<Rightarrow> if p = ''/dev/uinput'' then next_fd t else -1
      | Socket \<Rightarrow> next_fd t | WriteUserDev _ _ \<Rightarrow> sizeof_uinput_user_dev
      | WriteEvent _ _ \<Rightarrow> sizeof_input_event | _ \<Rightarrow> 0)"

lemma fd_step_subset: "fd_step e S \<subseteq> insert (snd e) S"
proof -
  obtain c r where "e = (c, r)" by fastforce
  then show ?thesis by (cases c) auto
qed

lemma open_fds_below: "x \<in> open_fds t \<Longrightarrow> \<bar>x\<bar> < next_fd t"
proof (induction t arbitrary: x rule: rev_induct)
  case (snoc e t)
  then have "x = snd e \<or> x \<in> open_fds t" using fd_step_subset by (fastforce simp: open_fds_snoc)
  moreover have "0 \<le> sum_list (map (\<lambda>(c, r). \<bar>r\<bar>) t)" by (intro sum_list_nonneg) auto
  ultimately show ?case using snoc.IH by (force simp: next_fd_def split: prod.splits)
qed (simp add: open_fds_def)

lemma next_fd_pos: "3 \<le> next_fd t"
  unfolding next_fd_def using sum_list_nonneg [of "map (\<lambda>(c, r). \<bar>r\<bar>) t"] by force

lemma good_kernel_fresh: "fresh_fds good_kernel"
proof -
  have "next_fd t \<notin> open_fds t" for t using open_fds_below [of "next_fd t" t] by auto
  then show ?thesis by (auto simp: fresh_fds_def good_kernel_def)
qed

lemma ioctls_accepted:
  "(\<And>t r. k t (Ioctl fd r) \<noteq> -1) \<Longrightarrow> fst (ioctls k fd rs t)"
  by (induction rs arbitrary: t) (auto simp: call_def Let_def)

theorem suinput_open_descriptors_witness:
  "\<exists>t'. suinput_open good_kernel ''qwerty'' \<lparr>bustype = 6, vendor = 1, product = 1, version = 1\<rparr> [] = (4, t') \<and>
        open_fds t' = {4}"
proof -
  let ?i = "\<lparr>bustype = 6, vendor = 1, product = 1, version = 1\<rparr>"
  have o: "open_first good_kernel UINPUT_FILEPATHS (-1) [] =
      (4, [(Open ''/android/dev/uinput'', -1), (Open ''/dev/uinput'', 4)])"
    by (simp add: UINPUT_FILEPATHS_def good_kernel_def call_def Let_def next_fd_def)
  obtain fd t' where s: "suinput_open good_kernel ''qwerty'' ?i [] = (fd, t')" by fastforce
  have "fst (ioctls good_kernel 4 rs t)" for rs t by (rule ioctls_accepted) (simp add: good_kernel_def)
  then have "fst (suinput_open good_kernel ''qwerty'' ?i []) = 4"
    unfolding suinput_open_def o
    by (simp add: Let_def case_prod_beta call_def good_kernel_def del: ioctls.simps)
  with s have "fd = 4" by simp
  moreover have "open_fds t' = {4}"
    using suinput_open_descriptors [OF good_kernel_fresh s] calculation by (simp add: open_fds_def)
  ultimately show ?thesis using s by simp
qed

end
