(* ===== verification/FbVnc.thy ===== *)
theory FbVnc
  imports Updates Suinput "HOL-Library.Monad_Syntax"
begin

text \<open>
  The Android server itself: \<open>jni/vnc/fbvncserver.c\<close> and \<open>jni/vnc/update_screen.c\<close>, the frame buffer
  device polled into the VNC frame buffer and the input of the viewers turned into events of a
  virtual input device. Accesses to the pixel buffers are checked: \<open>None\<close> is an access out of
  bounds, which the C code makes without noticing.
\<close>

section \<open>State\<close>

text \<open>The part of \<open>struct fb_var_screeninfo\<close> that is read.\<close>

record fb_info =
  xres :: nat
  yres :: nat
  xres_virtual :: nat
  xoffset :: nat
  yoffset :: nat
  bits_per_pixel :: nat
  red_offset :: nat
  green_offset :: nat
  blue_offset :: nat
  red_length :: nat
  green_length :: nat
  blue_length :: nat

text \<open>
  The globals and the \<open>static\<close> variables of the two files; \<open>sys\<close> is the trace of the system calls
  and \<open>inputfd\<close> the input device, -1 when it could not be opened.
\<close>

record 'p android =
  scrinfo :: fb_info
  cmpbuf :: "'p list"
  vncbuf :: "'p list"
  static_i :: int
  idle :: bool
  standby :: nat
  rotation :: nat
  test_mode :: nat
  vncscr :: update_screen
  inputfd :: int
  sys :: trace
  leftClicked :: bool
  rightClicked :: bool
  middleClicked :: bool
  move_count :: int
  running :: bool
  listening :: bool

section \<open>update\_screen.c\<close>

definition rd :: "'p list \<Rightarrow> int \<Rightarrow> 'p option" where
  "rd xs k = (if 0 \<le> k \<and> nat k < length xs then Some (xs ! nat k) else None)"

definition wr :: "'p list \<Rightarrow> int \<Rightarrow> 'p \<Rightarrow> 'p list option" where
  "wr xs k p = (if 0 \<le> k \<and> nat k < length xs then Some (xs[nat k := p]) else None)"

definition PIXEL_TO_VIRTUALPIXEL :: "fb_info \<Rightarrow> int \<Rightarrow> int \<Rightarrow> int" where
  "PIXEL_TO_VIRTUALPIXEL info i j =
     (j + int (yoffset info)) * int (xres_virtual info) + i + int (xoffset info)"

text \<open>The local state of one scan: the buffer \<open>a\<close>, the bounds of the dirty rectangle, \<open>i\<close> and \<open>idle\<close>.\<close>

record 'p scan =
  buf_a :: "'p list"
  scan_i :: int
  max_x :: int
  max_y :: int
  min_x :: int
  min_y :: int
  scan_idle :: bool

fun loop :: "('i \<Rightarrow> 's \<Rightarrow> 's option) \<Rightarrow> 'i list \<Rightarrow> 's \<Rightarrow> 's option" where
  "loop f [] s = Some s"
| "loop f (x # xs) s = do { s \<leftarrow> f x s; loop f xs s }"

definition dirty :: "int \<Rightarrow> int \<Rightarrow> 'p scan \<Rightarrow> 'p scan" where
  "dirty x y s =
     s\<lparr>max_x := (if max_x s < x then x else max_x s), min_x := (if x < min_x s then x else min_x s),
       max_y := (if max_y s < y then y else max_y s), min_y := (if y < min_y s then y else min_y s),
       scan_idle := False\<rparr>"

definition scan0_pixel :: "fb_info \<Rightarrow> bool \<Rightarrow> 'p list \<Rightarrow> nat \<Rightarrow> nat \<Rightarrow> 'p scan \<Rightarrow> 'p scan option" where
  "scan0_pixel info test b j i s =
     (let offset = int j * int (xres info);
          pixelToVirtual = PIXEL_TO_VIRTUALPIXEL info (int i) (int j)
      in do { p \<leftarrow> rd (buf_a s) (int i + offset);
              q \<leftarrow> rd b pixelToVirtual;
              if p \<noteq> q
              then do { a \<leftarrow> (if test then wr (buf_a s) (int i + offset) q else Some (buf_a s));
                        Some (dirty (int i) (int j) (s\<lparr>buf_a := a\<rparr>)) }
              else Some s })"

definition scan0_row :: "fb_info \<Rightarrow> bool \<Rightarrow> 'p list \<Rightarrow> nat \<Rightarrow> 'p scan \<Rightarrow> 'p scan option" where
  "scan0_row info test b j s =
     do { s \<leftarrow> loop (scan0_pixel info test b j) [0..<xres info] s;
          Some (s\<lparr>scan_i := int (xres info)\<rparr>) }"

text \<open>
  In the other orientations \<open>offset\<close> and \<open>pixelToVirtual\<close> are computed before the inner loop, from
  the value the static variable \<open>i\<close> happens to have.
\<close>

definition scan90_row :: "fb_info \<Rightarrow> 'p list \<Rightarrow> nat \<Rightarrow> 'p scan \<Rightarrow> 'p scan option" where
  "scan90_row info b j s =
     (let offset = scan_i s * int (yres info);
          pixelToVirtual = PIXEL_TO_VIRTUALPIXEL info (scan_i s) (int j);
          idx = int (yres info) - 1 - int j + offset
      in do { s \<leftarrow> loop (\<lambda>i s.
                do { p \<leftarrow> rd (buf_a s) idx;
                     q \<leftarrow> rd b pixelToVirtual;
                     if p \<noteq> q
                     then do { a \<leftarrow> wr (buf_a s) idx q;
                               Some (dirty (int (yres info) - int j) (int i) (s\<lparr>buf_a := a\<rparr>)) }
                     else Some s }) [0..<xres info] s;
              Some (s\<lparr>scan_i := int (xres info)\<rparr>) })"

definition scan180_row :: "fb_info \<Rightarrow> 'p list \<Rightarrow> nat \<Rightarrow> 'p scan \<Rightarrow> 'p scan option" where
  "scan180_row info b j s =
     (let offset = (int (yres info) - 1 - int j) * int (xres info);
          pixelToVirtual = PIXEL_TO_VIRTUALPIXEL info (scan_i s) (int j)
      in do { s \<leftarrow> loop (\<lambda>i s.
                do { p \<leftarrow> rd (buf_a s) (int (xres info) - 1 - int i + offset);
                     q \<leftarrow> rd b pixelToVirtual;
                     if p \<noteq> q
                     then do { a \<leftarrow> wr (buf_a s) (int (xres info) - 1 - int i + offset) q;
                               Some (dirty (int i) (int (yres info) - int j) (s\<lparr>buf_a := a\<rparr>)) }
                     else Some s }) [0..<xres info] s;
              Some (s\<lparr>scan_i := int (xres info)\<rparr>) })"

definition scan270_row :: "fb_info \<Rightarrow> 'p list \<Rightarrow> nat \<Rightarrow> 'p scan \<Rightarrow> 'p scan option" where
  "scan270_row info b j s =
     (let offset = (int (xres info) - 1 - scan_i s) * int (yres info);
          pixelToVirtual = PIXEL_TO_VIRTUALPIXEL info (scan_i s) (int j)
      in do { s \<leftarrow> loop (\<lambda>i s.
                do { p \<leftarrow> rd (buf_a s) (int j + offset);
                     q \<leftarrow> rd b pixelToVirtual;
                     if p \<noteq> q
                     then do { a \<leftarrow> wr (buf_a s) (int j + offset) q;
                               Some (dirty (int j) (int i) (s\<lparr>buf_a := a\<rparr>)) }
                     else Some s }) [0..<xres info] s;
              Some (s\<lparr>scan_i := int (xres info)\<rparr>) })"

definition memcpy_pixels :: "'p list \<Rightarrow> 'p list \<Rightarrow> nat \<Rightarrow> 'p list option" where
  "memcpy_pixels dst src n =
     (if n \<le> length dst \<and> n \<le> length src then Some (take n src @ drop n dst) else None)"

text \<open>
  \<open>fb\<close> is the mapped device, as pixels. In test mode the scan starts \<open>yres * test_mode\<close> words of 32
  bits further on.
\<close>

definition update_screen :: "'a::len word list \<Rightarrow> 'a word android \<Rightarrow> 'a word android option" where
  "update_screen fb st =
     (let info = scrinfo st; test = (test_mode st \<noteq> 0);
          b = (if \<not> test then fb else drop (yres info * test_mode st * 32 div LENGTH('a)) fb);
          s = \<lparr>buf_a = cmpbuf st, scan_i = static_i st, max_x = -1, max_y = -1,
               min_x = 9999, min_y = 9999, scan_idle = True\<rparr>;
          n = nat (us_width (vncscr st) * us_height (vncscr st))
      in do { s \<leftarrow> (if rotation st = 0
                   then do { s \<leftarrow> loop (scan0_row info test b) [0..<yres info] s;
                             a \<leftarrow> (if \<not> test then memcpy_pixels (buf_a s) fb n else Some (buf_a s));
                             Some (s\<lparr>buf_a := a\<rparr>) }
                   else if rotation st = 90 then loop (scan90_row info b) [0..<yres info] s
                   else if rotation st = 180 then loop (scan180_row info b) [0..<yres info] s
                   else if rotation st = 270 then loop (scan270_row info b) [0..<yres info] s
                   else Some s);
              v \<leftarrow> memcpy_pixels (vncbuf st) (buf_a s) n;
              (let st = st\<lparr>cmpbuf := buf_a s, vncbuf := v, static_i := scan_i s, idle := scan_idle s\<rparr>
               in if \<not> scan_idle s
                  then Some (st\<lparr>vncscr := rfbMarkRectAsModified (vncscr st) (min_x s) (min_y s)
                                 (max_x s + 1) (max_y s + 1)\<rparr>)
                  else Some st) })"

section \<open>Events for the input device\<close>

text \<open>The server ignores whether an event could be written.\<close>

definition send_event :: "kernel \<Rightarrow> nat \<Rightarrow> nat \<Rightarrow> int \<Rightarrow> 'p android \<Rightarrow> 'p android" where
  "send_event k type code val st = st\<lparr>sys := snd (suinput_write k (inputfd st) type code val (sys st))\<rparr>"

definition press_key :: "kernel \<Rightarrow> nat \<Rightarrow> 'p android \<Rightarrow> 'p android" where
  "press_key k code st = st\<lparr>sys := snd (suinput_press k (inputfd st) code (sys st))\<rparr>"

definition release_key :: "kernel \<Rightarrow> nat \<Rightarrow> 'p android \<Rightarrow> 'p android" where
  "release_key k code st = st\<lparr>sys := snd (suinput_release k (inputfd st) code (sys st))\<rparr>"

section \<open>Pointer events\<close>

text \<open>
  The quotients are taken in \<open>unsigned int\<close>, since \<open>xres\<close> and \<open>yres\<close> are; subtracting \<open>scale / 2.0\<close>
  is exact and the result is whole.
\<close>

definition touch_quotient :: "uint32_t \<Rightarrow> nat \<Rightarrow> int" where
  "touch_quotient v res = uint ((v * 4096) div word_of_nat res) - 2048"

definition transform_touch_coordinates :: "nat \<Rightarrow> fb_info \<Rightarrow> nat \<Rightarrow> nat \<Rightarrow> int \<times> int" where
  "transform_touch_coordinates rot info old_x old_y =
     (let x = word_of_nat old_x; y = word_of_nat old_y;
          xr = word_of_nat (xres info); yr = word_of_nat (yres info)
      in if rot = 0 then (touch_quotient x (xres info), touch_quotient y (yres info))
         else if rot = 90 then (touch_quotient y (xres info), touch_quotient (yr - x) (yres info))
         else if rot = 180 then (touch_quotient (xr - x) (xres info), touch_quotient (yr - y) (yres info))
         else if rot = 270 then (touch_quotient (xr - y) (xres info), touch_quotient x (yres info))
         else (int old_x, int old_y))"

definition ptr_left :: "kernel \<Rightarrow> bool \<Rightarrow> int \<Rightarrow> int \<Rightarrow> 'p android \<Rightarrow> 'p android" where
  "ptr_left k down x y st =
     (if down \<and> leftClicked st
      then (let st = st\<lparr>move_count := move_count st + 1\<rparr>
            in if move_count st mod 10 = 1
               then send_event k EV_SYN SYN_REPORT 0
                      (send_event k EV_ABS ABS_Y y (send_event k EV_ABS ABS_X x st))
               else st)
      else if down
      then send_event k EV_SYN SYN_REPORT 0 (send_event k EV_KEY BTN_TOUCH 1
             (send_event k EV_ABS ABS_Y y (send_event k EV_ABS ABS_X x (st\<lparr>leftClicked := True\<rparr>))))
      else if leftClicked st
      then send_event k EV_SYN SYN_REPORT 0 (send_event k EV_KEY BTN_TOUCH 0
             (send_event k EV_ABS ABS_Y y (send_event k EV_ABS ABS_X x (st\<lparr>leftClicked := False\<rparr>))))
      else st)"

definition ptrevent :: "kernel \<Rightarrow> nat \<Rightarrow> nat \<Rightarrow> nat \<Rightarrow> 'p android \<Rightarrow> 'p android" where
  "ptrevent k buttonMask x y st =
     (let (x, y) = transform_touch_coordinates (rotation st) (scrinfo st) x y;
          st = ptr_left k (bit buttonMask 0) x y st;
          st = (if bit buttonMask 2 then press_key k 158 (st\<lparr>rightClicked := True\<rparr>)
                else if rightClicked st then release_key k 158 (st\<lparr>rightClicked := False\<rparr>)
                else st)
      in if bit buttonMask 1 then press_key k KEY_END (st\<lparr>middleClicked := True\<rparr>)
         else if middleClicked st then release_key k KEY_END (st\<lparr>middleClicked := False\<rparr>)
         else st)"

end
