(* ===== verification/FbServer.thy ===== *)
theory FbServer
  imports FbVnc
begin

text \<open>
  The rest of \<open>jni/vnc/fbvncserver.c\<close>: the keyboard, the rotation of the screen, the set-up of the
  server, its command line and its main loop.
\<close>

section \<open>The keyboard\<close>

text \<open>\<open>qwerty[]\<close> and the tables of the special characters with their shift states.\<close>

definition qwerty :: "nat list" where
  "qwerty = [30,48,46,32,18,33,34,35,23,36,37,38,50,49,24,25,16,19,31,20,22,47,17,45,21,44]"
definition spec1 :: "nat list" where "spec1 = [57,2,40,4,5,6,8,40,10,11,9,13,51,12,52,52]"
definition spec1sh :: "nat list" where "spec1sh = [0,1,1,1,1,1,1,0,1,1,1,1,0,0,0,1]"
definition spec2 :: "nat list" where "spec2 = [39,39,227,13,228,53,215]"
definition spec2sh :: "nat list" where "spec2sh = [1,0,1,1,1,1,0]"
definition spec3 :: "nat list" where "spec3 = [26,43,27,7,12,399]"
definition spec3sh :: "nat list" where "spec3sh = [0,0,0,1,1,0]"
definition spec4 :: "nat list" where "spec4 = [26,43,27,215,14]"
definition spec4sh :: "nat list" where "spec4sh = [1,1,1,1,0]"

text \<open>What a key does besides giving a scan code.\<close>

datatype key_effect = NoEffect | ShutDownServer | ExitProcess | Rotate

record key_result =
  scancode :: nat
  sh :: bool
  alt :: bool
  key_effect :: key_effect

abbreviation key :: "nat \<Rightarrow> key_result" where
  "key code \<equiv> \<lparr>scancode = code, sh = False, alt = False, key_effect = NoEffect\<rparr>"

abbreviation alt_key :: "nat \<Rightarrow> key_result" where
  "alt_key code \<equiv> \<lparr>scancode = code, sh = False, alt = True, key_effect = NoEffect\<rparr>"

abbreviation sh_alt_key :: "nat \<Rightarrow> key_result" where
  "sh_alt_key code \<equiv> \<lparr>scancode = code, sh = True, alt = True, key_effect = NoEffect\<rparr>"

abbreviation effect_key :: "key_effect \<Rightarrow> key_result" where
  "effect_key e \<equiv> \<lparr>scancode = 0, sh = False, alt = False, key_effect = e\<rparr>"

text \<open>
  The \<open>switch\<close>, with \<open>real\<close> always 1. The label 50106 has no statement of its own and falls
  through to the next.
\<close>

definition keysym_switch :: "bool \<Rightarrow> nat \<Rightarrow> key_result" where
  "keysym_switch down c =
     (if c = 0xff08 then key 14 else if c = 0xff09 then key 15
      else if c = 1 then alt_key 34 else if c = 3 then alt_key 46
      else if c = 4 then alt_key 32 else if c = 18 then alt_key 31
      else if c = 0xff0d then key 28 else if c = 0xff1b then key 158
      else if c = 0xff51 then key 105 else if c = 0xff53 then key 106
      else if c = 0xff54 then key 108 else if c = 0xff52 then key 103
      else if c = 0xff50 then key KEY_HOME
      else if c = 0xffc8 then effect_key ShutDownServer
      else if c = 0xffc9 then effect_key ExitProcess
      else if c = 0xffc1 then effect_key (if down then Rotate else NoEffect)
      else if c = 0xffff then key 158 else if c = 0xff55 then key 229
      else if c = 0xffcf then key 127 else if c = 0xffe3 then key 127
      else if c = 0xff56 then key 61 else if c = 0xff57 then key 107
      else if c = 0xffc2 then key 211 else if c = 0xffc3 then key 212
      else if c = 0xffc4 then key 150 else if c = 0xffc5 then key 155
      else if c = 50081 \<or> c = 225 then alt_key 48
      else if c = 50049 \<or> c = 193 then sh_alt_key 48
      else if c = 50089 \<or> c = 233 then alt_key 18
      else if c = 50057 \<or> c = 201 then sh_alt_key 18
      else if c = 50093 \<or> c = 0xffbf then alt_key 36
      else if c = 50061 \<or> c = 205 then sh_alt_key 36
      else if c = 50099 \<or> c = 243 then alt_key 16
      else if c = 50067 \<or> c = 211 then sh_alt_key 16
      else if c = 50102 \<or> c = 246 then alt_key 25
      else if c = 50070 \<or> c = 214 then sh_alt_key 25
      else if c = 50577 \<or> c = 245 then alt_key 19
      else if c = 50576 \<or> c = 213 then sh_alt_key 19
      else if c = 50106 \<or> c = 50074 \<or> c = 218 then sh_alt_key 17
      else if c = 50108 \<or> c = 252 then alt_key 47
      else if c = 50076 \<or> c = 220 then sh_alt_key 47
      else if c = 50609 \<or> c = 251 then alt_key 45
      else if c = 50608 \<or> c = 219 then sh_alt_key 45
      else key 0)"

definition shifted :: "nat \<Rightarrow> nat \<Rightarrow> key_result" where
  "shifted code s = (key code)\<lparr>sh := s \<noteq> 0\<rparr>"

definition keysym2scancode :: "bool \<Rightarrow> nat \<Rightarrow> key_result" where
  "keysym2scancode down c =
     (if 97 \<le> c \<and> c \<le> 122 then key (qwerty ! (c - 97))
      else if 65 \<le> c \<and> c \<le> 90 then shifted (qwerty ! (c - 65)) 1
      else if 49 \<le> c \<and> c \<le> 57 then key (c - 49 + 2)
      else if c = 48 then key 11
      else if 32 \<le> c \<and> c \<le> 47 then shifted (spec1 ! (c - 32)) (spec1sh ! (c - 32))
      else if 58 \<le> c \<and> c \<le> 64 then shifted (spec2 ! (c - 58)) (spec2sh ! (c - 58))
      else if 91 \<le> c \<and> c \<le> 96 then shifted (spec3 ! (c - 91)) (spec3sh ! (c - 91))
      else if 123 \<le> c \<and> c \<le> 127 then shifted (spec4 ! (c - 123)) (spec4sh ! (c - 123))
      else keysym_switch down c)"

section \<open>Rotation\<close>

definition device_format :: "fb_info \<Rightarrow> rfbPixelFormat \<Rightarrow> rfbPixelFormat" where
  "device_format info f =
     f\<lparr>redShift := word_of_nat (red_offset info), greenShift := word_of_nat (green_offset info),
       blueShift := word_of_nat (blue_offset info),
       redMax := push_bit (red_length info) 1 - 1, greenMax := push_bit (green_length info) 1 - 1,
       blueMax := push_bit (blue_length info) 1 - 1\<rparr>"

definition rotate_screen :: "'p android \<Rightarrow> 'p android" where
  "rotate_screen st =
     (let rot = (rotation st + 90) mod 360; info = scrinfo st;
          bpp = int (bits_per_pixel info) div 8;
          scr = (if rot = 90 \<or> rot = 270
                 then rfbNewFramebuffer (vncscr st) (int (yres info)) (int (xres info)) 0 bpp
                 else rfbNewFramebuffer (vncscr st) (int (xres info)) (int (yres info)) 0 bpp);
          scr = scr\<lparr>us_serverFormat := device_format info (us_serverFormat scr)\<rparr>;
          scr = rfbMarkRectAsModified scr 0 0 (us_width scr) (us_height scr)
      in st\<lparr>rotation := rot, vncscr := scr\<rparr>)"

section \<open>Key events\<close>

text \<open>\<open>rfbShutdownServer(screen, TRUE)\<close> closes all clients and the listening sockets.\<close>

definition rfbShutdownServer :: "'p android \<Rightarrow> 'p android" where
  "rfbShutdownServer st =
     st\<lparr>vncscr := for_clients (\<lambda>cl. cl\<lparr>uc_sock := -1\<rparr>) (vncscr st), listening := False\<rparr>"

definition apply_effect :: "key_effect \<Rightarrow> 'p android \<Rightarrow> 'p android" where
  "apply_effect e st =
     (case e of NoEffect \<Rightarrow> st | ShutDownServer \<Rightarrow> rfbShutdownServer st
      | ExitProcess \<Rightarrow> st\<lparr>running := False\<rparr> | Rotate \<Rightarrow> rotate_screen st)"

definition keyevent :: "kernel \<Rightarrow> bool \<Rightarrow> nat \<Rightarrow> 'p android \<Rightarrow> 'p android" where
  "keyevent k down keysym st =
     (let r = keysym2scancode down keysym; st = apply_effect (key_effect r) st in
      if scancode r \<noteq> 0 \<and> running st
      then (if keysym \<noteq> 0 \<and> down
            then (let st = (if sh r then press_key k 42 st else st);
                      st = (if alt r then press_key k 56 st else st);
                      st = press_key k (scancode r) st;
                      st = release_key k (scancode r) st;
                      st = (if alt r then release_key k 56 st else st)
                  in (if sh r then release_key k 42 st else st))
            else st)
      else st)"

section \<open>Command line\<close>

text \<open>
  \<open>argv\<close> without the program name. \<open>None\<close>: an argument is missing (\<open>argv[argc]\<close> is a null pointer)
  or does not fit in its buffer of 256 characters.
\<close>

record server_options =
  VNC_PASSWORD :: string
  framebuffer_device :: string
  VNC_PORT :: int
  opt_rotation :: int
  opt_scaling :: int
  opt_test_mode :: int
  help_exit :: bool

definition default_options :: server_options where
  "default_options = \<lparr>VNC_PASSWORD = '''', framebuffer_device = ''/dev/graphics/fb0'', VNC_PORT = 5901,
     opt_rotation = 0, opt_scaling = 100, opt_test_mode = 0, help_exit = False\<rparr>"

definition digit_value :: "char \<Rightarrow> int option" where
  "digit_value c = (if 48 \<le> (of_char c :: int) \<and> (of_char c :: int) \<le> 57 then Some (of_char c - 48) else None)"

fun read_digits :: "int \<Rightarrow> string \<Rightarrow> int" where
  "read_digits v [] = v"
| "read_digits v (c # cs) = (case digit_value c of None \<Rightarrow> v | Some d \<Rightarrow> read_digits (10 * v + d) cs)"

definition atoi :: "string \<Rightarrow> int" where
  "atoi s =
     (let s = dropWhile (\<lambda>c. c \<in> set [CHR '' '', CHR 0x09, CHR 0x0A, CHR 0x0B, CHR 0x0C, CHR 0x0D]) s
      in case s of
           c # cs \<Rightarrow> if c = CHR ''-'' then - read_digits 0 cs
                     else if c = CHR ''+'' then read_digits 0 cs else read_digits 0 s
         | [] \<Rightarrow> 0)"

definition buffer_copy :: "string \<Rightarrow> string option" where
  "buffer_copy s = (if length s < 256 then Some s else None)"

text \<open>The options with an argument: the body of the \<open>switch\<close>.\<close>

definition apply_option :: "char \<Rightarrow> string \<Rightarrow> server_options \<Rightarrow> server_options option" where
  "apply_option c v o' =
     (if c = CHR ''p'' then do { s \<leftarrow> buffer_copy v; Some (o'\<lparr>VNC_PASSWORD := s\<rparr>) }
      else if c = CHR ''f'' then do { s \<leftarrow> buffer_copy v; Some (o'\<lparr>framebuffer_device := s\<rparr>) }
      else if c = CHR ''P'' then Some (o'\<lparr>VNC_PORT := atoi v\<rparr>)
      else if c = CHR ''r''
      then (let r = atoi v
            in Some (if r = 0 \<or> r = 90 \<or> r = 180 \<or> r = 270 then o'\<lparr>opt_rotation := r\<rparr> else o'))
      else if c = CHR ''s''
      then (let r = atoi v in Some (o'\<lparr>opt_scaling := (if 1 \<le> r \<and> r \<le> 150 then r else 100)\<rparr>))
      else Some (o'\<lparr>opt_test_mode := atoi v\<rparr>))"

fun parse_args :: "string list \<Rightarrow> server_options \<Rightarrow> server_options option" where
  "parse_args [] o' = Some o'"
| "parse_args (arg # args) o' =
     (case arg of
        (d # c # _) \<Rightarrow>
          if d \<noteq> CHR ''-'' then parse_args args o'
          else if c = CHR ''h'' then Some (o'\<lparr>help_exit := True\<rparr>)
          else if c \<in> set ''pfPrst''
          then (case args of
                  [] \<Rightarrow> None
                | v # rest \<Rightarrow> do { o' \<leftarrow> apply_option c v o'; parse_args rest o' })
          else parse_args args o'
      | _ \<Rightarrow> parse_args args o')"

section \<open>Set-up\<close>

text \<open>\<open>roundUpToPageSize\<close> and the length of the mapping that \<open>init_fb\<close> makes of the device.\<close>

definition PAGE_SIZE :: nat where "PAGE_SIZE = 4096"

definition roundUpToPageSize :: "uint32_t \<Rightarrow> uint32_t" where
  "roundUpToPageSize x = (x + (word_of_nat PAGE_SIZE - 1)) AND NOT (word_of_nat PAGE_SIZE - 1)"

definition fb_map_size :: "fb_info \<Rightarrow> nat \<Rightarrow> nat \<Rightarrow> uint32_t" where
  "fb_map_size info line_length yres_virtual =
     (let size = yres_virtual;
          size = (if size < yres info * 2 then yres info * 2 else size)
      in roundUpToPageSize (word_of_nat (line_length * size)))"

text \<open>What \<open>init_fb_server\<close> makes of the screen and of the two buffers (\<open>calloc\<close>).\<close>

definition init_fb_server :: "fb_info \<Rightarrow> nat \<Rightarrow> nat \<Rightarrow> cursor_size \<Rightarrow> 'a::len word android" where
  "init_fb_server info rot test cursor =
     (let n = xres info * yres info;
          bpp = int (bits_per_pixel info) div 8;
          (w, h) = (if rot = 0 \<or> rot = 180 then (xres info, yres info) else (yres info, xres info));
          scr = \<lparr>us_width = int w, us_height = int h, us_bitsPerPixel = 8 * bpp,
                 us_serverFormat = device_format info (rfbInitServerFormat (8 * bpp) 0),
                 us_cursorX = 0, us_cursorY = 0, us_cursor = cursor, us_clients = []\<rparr>;
          scr = rfbMarkRectAsModified scr 0 0 (int (xres info)) (int (yres info))
      in \<lparr>scrinfo = info, cmpbuf = replicate n 0, vncbuf = replicate n 0, static_i = 0, idle = False,
          standby = 0, rotation = rot, test_mode = test, vncscr = scr, inputfd = -1, sys = [],
          leftClicked = False, rightClicked = False, middleClicked = False, move_count = 0,
          running = True, listening = True\<rparr>)"

text \<open>\<open>init_input\<close> and \<open>cleanup_kbd\<close>.\<close>

definition init_input :: "kernel \<Rightarrow> 'p android \<Rightarrow> 'p android" where
  "init_input k st =
     (let (fd, t) = suinput_open k ''qwerty'' \<lparr>bustype = 6, vendor = 1, product = 1, version = 1\<rparr> (sys st)
      in st\<lparr>inputfd := fd, sys := t\<rparr>)"

definition cleanup_kbd :: "kernel \<Rightarrow> 'p android \<Rightarrow> 'p android" where
  "cleanup_kbd k st =
     (if inputfd st \<noteq> -1 then st\<lparr>sys := snd (suinput_close k (inputfd st) (sys st))\<rparr> else st)"

section \<open>Messages to the graphical front end\<close>

text \<open>
  \<open>send_remote_msg\<close>: one connection to the local socket per message. The flag is \<open>False\<close> when the
  process exits.
\<close>

definition SOCK_PATH :: string where "SOCK_PATH = ''org.uoc.androidremote.server.localsocket''"

definition send_remote_msg :: "kernel \<Rightarrow> string \<Rightarrow> trace \<Rightarrow> bool \<times> trace" where
  "send_remote_msg k msg t =
     (let (localsocket, t) = call k Socket t
      in if localsocket = -1 then (False, t)
         else let (r, t) = call k (Connect localsocket (CHR 0x00 # SOCK_PATH)) t
              in if r = -1 then (True, t)
                 else let (r, t) = call k (Send localsocket msg) t
                      in if r = -1 then (True, t) else (True, snd (call k (Close localsocket) t)))"

text \<open>A buffer of the heap that holds a C string: \<open>strcat\<close> writes past its end when it is too small.\<close>

record c_buffer =
  capacity :: nat
  c_string :: string

definition strcat :: "c_buffer \<Rightarrow> string \<Rightarrow> c_buffer" where
  "strcat b s = b\<lparr>c_string := c_string b @ s\<rparr>"

definition bytes_past_end :: "c_buffer \<Rightarrow> nat" where
  "bytes_past_end b = (length (c_string b) + 1) - capacity b"

definition clientGone_msg :: c_buffer where
  "clientGone_msg =
     (let header = ''~DISCONNECTED|'' in strcat \<lparr>capacity = length header, c_string = ''''\<rparr> header)"

definition clientHook_msg :: "string \<Rightarrow> c_buffer" where
  "clientHook_msg host =
     (let header = ''~CONNECTED|''
      in strcat (strcat \<lparr>capacity = length host + length header, c_string = ''''\<rparr> header) host)"

text \<open>\<open>str[len] = 0\<close> ends the text at \<open>len\<close> at the latest.\<close>

definition CutText_msg :: "string \<Rightarrow> nat \<Rightarrow> c_buffer" where
  "CutText_msg str len =
     (let str = takeWhile (\<lambda>c. c \<noteq> CHR 0x00) (take len str); header = ''~CLIP|''
      in strcat (strcat \<lparr>capacity = length str + length header, c_string = ''''\<rparr> header) str)"

definition CutText :: "kernel \<Rightarrow> string \<Rightarrow> nat \<Rightarrow> 'p android \<Rightarrow> 'p android" where
  "CutText k str len st =
     (let (ok, t) = send_remote_msg k (c_string (CutText_msg str len)) (sys st)
      in st\<lparr>sys := t, running := running st \<and> ok\<rparr>)"

definition clientGone :: "kernel \<Rightarrow> 'p android \<Rightarrow> 'p android" where
  "clientGone k st =
     (let (ok, t) = send_remote_msg k (c_string clientGone_msg) (sys st)
      in st\<lparr>sys := t, running := running st \<and> ok\<rparr>)"

section \<open>The main loop\<close>

text \<open>
  One turn of the loop while a client is connected. \<open>process usec\<close> is \<open>rfbProcessEvents(vncscr, usec)\<close>,
  and \<open>fb\<close> what the device shows when the screen is scanned.
\<close>

definition loop_timeout :: "nat \<Rightarrow> nat" where
  "loop_timeout sb = (if 40 < sb then 300000 else if 30 < sb then 200000 else 1000)"

definition main_turn ::
    "(nat \<Rightarrow> 'a::len word android \<Rightarrow> 'a word android) \<Rightarrow> 'a word list \<Rightarrow> 'a word android \<Rightarrow>
     'a word android option" where
  "main_turn process fb st =
     (let scr = vncscr st;
          st = st\<lparr>vncscr := rfbMarkRectAsModified scr 0 0 (us_width scr) (us_height scr)\<rparr>;
          st = process (loop_timeout (standby st)) st
      in do { st \<leftarrow> update_screen fb st;
              Some (if idle st then st\<lparr>standby := standby st + 1\<rparr> else st\<lparr>standby := 0\<rparr>) })"

end
