(* ===== verification/FbScreen.thy ===== *)
theory FbScreen
  imports FbServer
begin

text \<open>
  What \<open>update_screen\<close> does in each orientation: upright it reports the changes exactly and the
  viewers get the first page of the device; turned by 90 or 270 degrees it leaves its buffer; upside
  down it fills every row with one pixel.
\<close>

section \<open>Loops\<close>

lemma loop_fold:
  assumes "\<And>x s. x \<in> set xs \<Longrightarrow> P s \<Longrightarrow> f x s = Some (g x s) \<and> P (g x s)" "P s"
  shows "loop f xs s = Some (fold g xs s) \<and> P (fold g xs s)"
  using assms by (induction xs arbitrary: s) auto

lemma loop_invariant:
  assumes "loop f xs s = Some s'" "P s" "\<And>x s s'. x \<in> set xs \<Longrightarrow> P s \<Longrightarrow> f x s = Some s' \<Longrightarrow> P s'"
  shows "P s'"
  using assms
proof (induction xs arbitrary: s)
  case (Cons x xs)
  from Cons.prems(1) obtain s1 where "f x s = Some s1" "loop f xs s1 = Some s'"
    by (auto split: Option.bind_splits)
  with Cons show ?case by (metis list.set_intros)
qed simp

lemma fold_if: "fold (\<lambda>i s. if D i then f i s else s) xs s = fold f (filter D xs) s"
  by (induction xs arbitrary: s) auto

lemma fold_concat_map: "fold (\<lambda>x. fold f (g x)) xs s = fold f (concat (map g xs)) s"
  by (induction xs arbitrary: s) auto

section \<open>The dirty rectangle\<close>

definition dirty_all :: "(int \<times> int) list \<Rightarrow> 'p scan \<Rightarrow> 'p scan" where
  "dirty_all ps = fold (\<lambda>(x, y). dirty x y) ps"

lemma dirty_simps [simp]:
  "buf_a (dirty x y s) = buf_a s" "scan_i (dirty x y s) = scan_i s" "\<not> scan_idle (dirty x y s)"
  "max_x (dirty x y s) = max (max_x s) x" "min_x (dirty x y s) = min (min_x s) x"
  "max_y (dirty x y s) = max (max_y s) y" "min_y (dirty x y s) = min (min_y s) y"
  by (auto simp: dirty_def)

lemma dirty_all_fields:
  "buf_a (dirty_all ps s) = buf_a s" "scan_i (dirty_all ps s) = scan_i s"
  "scan_idle (dirty_all ps s) \<longleftrightarrow> scan_idle s \<and> ps = []"
  "max_x (dirty_all ps s) = fold (\<lambda>p m. max m (fst p)) ps (max_x s)"
  "min_x (dirty_all ps s) = fold (\<lambda>p m. min m (fst p)) ps (min_x s)"
  "max_y (dirty_all ps s) = fold (\<lambda>p m. max m (snd p)) ps (max_y s)"
  "min_y (dirty_all ps s) = fold (\<lambda>p m. min m (snd p)) ps (min_y s)"
  by (induction ps arbitrary: s) (auto simp: dirty_all_def split: prod.splits)

lemma dirty_scan_i: "dirty x y (s\<lparr>scan_i := v\<rparr>) = (dirty x y s)\<lparr>scan_i := v\<rparr>"
  by (simp add: dirty_def)

lemma dirty_all_scan_i: "dirty_all ps (s\<lparr>scan_i := v\<rparr>) = (dirty_all ps s)\<lparr>scan_i := v\<rparr>"
  by (induction ps arbitrary: s) (auto simp: dirty_all_def dirty_scan_i split: prod.splits)

lemma fold_max_ge:
  fixes m :: int
  shows "p \<in> set ps \<Longrightarrow> f p \<le> fold (\<lambda>p m. max m (f p)) ps m" "m \<le> fold (\<lambda>p m. max m (f p)) ps m"
proof (induction ps arbitrary: m)
  case (Cons a ps)
  { case 1 then show ?case using Cons.IH(1) [of m] Cons.IH(2) [of "max m (f a)"] by (auto intro: Cons.IH(1))
  next case 2 then show ?case using Cons.IH(2) [of "max m (f a)"] by auto }
qed auto

lemma fold_max_in:
  fixes m :: int
  shows "ps \<noteq> [] \<Longrightarrow> \<forall>p\<in>set ps. m \<le> f p \<Longrightarrow> \<exists>p\<in>set ps. fold (\<lambda>p m. max m (f p)) ps m = f p"
proof (induction ps arbitrary: m)
  case (Cons a ps)
  show ?case
  proof (cases "ps = []")
    case False
    show ?thesis
    proof (cases "\<forall>p\<in>set ps. f a \<le> f p")
      case True
      with Cons.IH [OF False this] Cons.prems show ?thesis by (auto simp: max_def)
    next
      case False
      have *: "fold (\<lambda>p m. max m (f p)) ps m \<in> insert m (f ` set ps)" for m
        by (induction ps arbitrary: m) (auto simp: max_def)
      from Cons.prems have "max m (f a) = f a" by (auto simp: max_def)
      with * [of "f a"] show ?thesis by auto
    qed
  qed (use Cons.prems in \<open>auto simp: max_def\<close>)
qed simp

lemma fold_min_max: "fold (\<lambda>p m. min m (f p)) ps (m :: int) = - fold (\<lambda>p m. max m (- f p)) ps (- m)"
  by (induction ps arbitrary: m) (auto simp: minus_min_eq_max)

lemma fold_min_le: "p \<in> set ps \<Longrightarrow> fold (\<lambda>p m. min m (f p)) ps (m :: int) \<le> f p"
  using fold_max_ge(1) [of p ps "\<lambda>p. - f p" "- m"] by (simp add: fold_min_max)

lemma fold_min_in:
  "ps \<noteq> [] \<Longrightarrow> \<forall>p\<in>set ps. f p \<le> (m :: int) \<Longrightarrow> \<exists>p\<in>set ps. fold (\<lambda>p m. min m (f p)) ps m = f p"
  using fold_max_in [of ps "- m" "\<lambda>p. - f p"] by (auto simp: fold_min_max)

text \<open>The least rectangle around a set of points, its upper bounds exclusive.\<close>

definition bounding_box :: "(int \<times> int) set \<Rightarrow> int \<Rightarrow> int \<Rightarrow> int \<Rightarrow> int \<Rightarrow> bool" where
  "bounding_box S x1 y1 x2 y2 \<longleftrightarrow>
     (\<forall>(x, y)\<in>S. x1 \<le> x \<and> x < x2 \<and> y1 \<le> y \<and> y < y2) \<and>
     x1 \<in> fst ` S \<and> x2 - 1 \<in> fst ` S \<and> y1 \<in> snd ` S \<and> y2 - 1 \<in> snd ` S"

lemma dirty_all_box:
  assumes "ps \<noteq> []" "\<forall>(x, y)\<in>set ps. 0 \<le> x \<and> x \<le> 9999 \<and> 0 \<le> y \<and> y \<le> 9999"
    and "max_x s = -1" "max_y s = -1" "min_x s = 9999" "min_y s = 9999"
  shows "bounding_box (set ps) (min_x (dirty_all ps s)) (min_y (dirty_all ps s))
           (max_x (dirty_all ps s) + 1) (max_y (dirty_all ps s) + 1)"
proof -
  have b: "\<forall>p\<in>set ps. -1 \<le> fst p" "\<forall>p\<in>set ps. -1 \<le> snd p" "\<forall>p\<in>set ps. fst p \<le> 9999"
    "\<forall>p\<in>set ps. snd p \<le> 9999" using assms(2) by force+
  show ?thesis unfolding bounding_box_def dirty_all_fields assms(3-6)
    using fold_max_in [OF assms(1) b(1)] fold_max_in [OF assms(1) b(2)]
      fold_min_in [OF assms(1) b(3)] fold_min_in [OF assms(1) b(4)]
    by (auto simp: image_iff
        dest: fold_max_ge(1) [of _ ps fst "-1"] fold_max_ge(1) [of _ ps snd "-1"]
          fold_min_le [of _ ps fst 9999] fold_min_le [of _ ps snd 9999])
qed

section \<open>Upright\<close>

definition changed :: "fb_info \<Rightarrow> 'p list \<Rightarrow> 'p list \<Rightarrow> nat \<Rightarrow> nat \<Rightarrow> bool" where
  "changed info a b i j \<longleftrightarrow> a ! (j * xres info + i) \<noteq> b ! nat (PIXEL_TO_VIRTUALPIXEL info (int i) (int j))"

definition changed_pixels :: "fb_info \<Rightarrow> 'p list \<Rightarrow> 'p list \<Rightarrow> (int \<times> int) list" where
  "changed_pixels info a b =
     concat (map (\<lambda>j. map (\<lambda>i. (int i, int j)) (filter (\<lambda>i. changed info a b i j) [0..<xres info]))
       [0..<yres info])"

lemma set_changed_pixels:
  "set (changed_pixels info a b) =
     {(int i, int j) | i j. i < xres info \<and> j < yres info \<and> changed info a b i j}"
  by (auto simp: changed_pixels_def)

lemma PIXEL_TO_VIRTUALPIXEL_nat:
  "PIXEL_TO_VIRTUALPIXEL info (int i) (int j) =
     int ((j + yoffset info) * xres_virtual info + i + xoffset info)"
  by (simp add: PIXEL_TO_VIRTUALPIXEL_def)

lemma row_index: "i < w \<Longrightarrow> j < h \<Longrightarrow> j * w + i < w * (h :: nat)"
proof -
  assume "i < w" "j < h"
  then have "j * w + i < Suc j * w" "Suc j * w \<le> h * w" by (simp, intro mult_le_mono1, simp)
  then show ?thesis by (simp add: mult.commute)
qed

definition device_covers :: "fb_info \<Rightarrow> 'p list \<Rightarrow> bool" where
  "device_covers info b \<longleftrightarrow>
     (\<forall>i < xres info. \<forall>j < yres info. (j + yoffset info) * xres_virtual info + i + xoffset info < length b)"

lemma scan0_pixel_eq:
  assumes "i < xres info" "j < yres info" "length (buf_a s) = xres info * yres info" "device_covers info b"
  shows "scan0_pixel info False b j i s =
           Some (if changed info (buf_a s) b i j then dirty (int i) (int j) s else s)"
proof -
  have "rd (buf_a s) (int i + int j * int (xres info)) = Some (buf_a s ! (j * xres info + i))"
    using row_index [OF assms(1,2)] assms(3) by (simp add: rd_def nat_add_distrib nat_mult_distrib add.commute)
  moreover have "rd b (PIXEL_TO_VIRTUALPIXEL info (int i) (int j)) =
      Some (b ! nat (PIXEL_TO_VIRTUALPIXEL info (int i) (int j)))"
    using assms unfolding PIXEL_TO_VIRTUALPIXEL_nat device_covers_def rd_def nat_int
    by (simp del: of_nat_add of_nat_mult)
  ultimately show ?thesis by (simp add: scan0_pixel_def Let_def changed_def)
qed

lemma scan0_row_eq:
  assumes "j < yres info" "length (buf_a s) = xres info * yres info" "device_covers info b"
  shows "scan0_row info False b j s =
    Some ((dirty_all (map (\<lambda>i. (int i, int j)) (filter (\<lambda>i. changed info (buf_a s) b i j) [0..<xres info])) s)
            \<lparr>scan_i := int (xres info)\<rparr>)"
proof -
  let ?a = "buf_a s"
  have "loop (scan0_pixel info False b j) [0..<xres info] s =
      Some (fold (\<lambda>i s. if changed info ?a b i j then dirty (int i) (int j) s else s) [0..<xres info] s)"
    by (rule conjunct1, rule loop_fold [where P = "\<lambda>s. buf_a s = ?a"])
      (use assms in \<open>auto simp: scan0_pixel_eq\<close>)
  then show ?thesis
    by (simp add: scan0_row_def fold_if dirty_all_def fold_map comp_def)
qed

lemma scan0_rows_eq:
  assumes "length (buf_a s) = xres info * yres info" "device_covers info b"
  shows "loop (scan0_row info False b) [0..<yres info] s =
    Some ((dirty_all (changed_pixels info (buf_a s) b) s)
            \<lparr>scan_i := if yres info = 0 then scan_i s else int (xres info)\<rparr>)"
proof -
  let ?a = "buf_a s" and ?w = "int (xres info)"
  let ?p = "\<lambda>j. map (\<lambda>i. (int i, int j)) (filter (\<lambda>i. changed info ?a b i j) [0..<xres info])"
  have 1: "loop (scan0_row info False b) [0..<yres info] s =
      Some (fold (\<lambda>j s. (dirty_all (?p j) s)\<lparr>scan_i := ?w\<rparr>) [0..<yres info] s)"
    by (rule conjunct1, rule loop_fold [where P = "\<lambda>s. buf_a s = ?a"])
      (use assms in \<open>auto simp: scan0_row_eq dirty_all_fields\<close>)
  have 2: "fold (\<lambda>j s. (dirty_all (?p j) s)\<lparr>scan_i := ?w\<rparr>) js s =
      (dirty_all (concat (map ?p js)) s)\<lparr>scan_i := if js = [] then scan_i s else ?w\<rparr>" for js s
  proof (induction js arbitrary: s)
    case (Cons j js)
    have "dirty_all (concat (map ?p (j # js))) s = dirty_all (concat (map ?p js)) (dirty_all (?p j) s)"
      by (simp add: dirty_all_def)
    then show ?case using Cons by (simp add: dirty_all_scan_i)
  qed (simp add: dirty_all_def)
  show ?thesis unfolding 1 2 changed_pixels_def by simp
qed

lemma rfbMarkRectAsModified_size:
  "us_width (rfbMarkRectAsModified scr x1 y1 x2 y2) = us_width scr"
  "us_height (rfbMarkRectAsModified scr x1 y1 x2 y2) = us_height scr"
  by (simp_all add: rfbMarkRectAsModified_def rfbMarkRegionAsModified_def for_clients_def
      split: option.splits prod.splits)

text \<open>The start of a scan, and what \<open>update_screen\<close> does in this orientation.\<close>

definition scan_start :: "'p android \<Rightarrow> 'p scan" where
  "scan_start st = \<lparr>buf_a = cmpbuf st, scan_i = static_i st, max_x = -1, max_y = -1,
     min_x = 9999, min_y = 9999, scan_idle = True\<rparr>"

definition upright :: "'p list \<Rightarrow> 'p android \<Rightarrow> bool" where
  "upright fb st \<longleftrightarrow>
     rotation st = 0 \<and> test_mode st = 0 \<and>
     length (cmpbuf st) = xres (scrinfo st) * yres (scrinfo st) \<and>
     length (vncbuf st) = xres (scrinfo st) * yres (scrinfo st) \<and>
     us_width (vncscr st) = int (xres (scrinfo st)) \<and> us_height (vncscr st) = int (yres (scrinfo st)) \<and>
     xres (scrinfo st) \<le> 10000 \<and> yres (scrinfo st) \<le> 10000 \<and>
     xres (scrinfo st) * yres (scrinfo st) \<le> length fb \<and> device_covers (scrinfo st) fb"

lemma memcpy_all: "length a = n \<Longrightarrow> n \<le> length b \<Longrightarrow> memcpy_pixels a b n = Some (take n b)"
  by (simp add: memcpy_pixels_def)

lemma update_screen_upright:
  assumes "upright fb st"
  defines "n \<equiv> xres (scrinfo st) * yres (scrinfo st)"
  defines "d \<equiv> dirty_all (changed_pixels (scrinfo st) (cmpbuf st) fb) (scan_start st)"
  shows "\<exists>i. update_screen fb st =
    (let st' = st\<lparr>cmpbuf := take n fb, vncbuf := take n fb, static_i := i, idle := scan_idle d\<rparr>
     in Some (if scan_idle d then st'
              else st'\<lparr>vncscr := rfbMarkRectAsModified (vncscr st) (min_x d) (min_y d) (max_x d + 1) (max_y d + 1)\<rparr>))"
proof -
  let ?i = "scrinfo st"
  have n: "nat (us_width (vncscr st) * us_height (vncscr st)) = n"
    using assms(1) by (simp add: upright_def n_def nat_mult_distrib)
  have l: "length (cmpbuf st) = n" "length (vncbuf st) = n" "n \<le> length fb" "rotation st = 0" "test_mode st = 0"
    using assms(1) by (simp_all add: upright_def n_def)
  have rows: "loop (scan0_row ?i False fb) [0..<yres ?i] (scan_start st) =
      Some (d\<lparr>scan_i := if yres ?i = 0 then static_i st else int (xres ?i)\<rparr>)"
    using assms(1) scan0_rows_eq [of "scan_start st" ?i fb] by (simp add: upright_def d_def scan_start_def)
  have a: "buf_a d = cmpbuf st" by (simp add: d_def dirty_all_fields scan_start_def)
  have t: "memcpy_pixels (vncbuf st) (take n fb) n = Some (take n fb)"
    using l by (simp add: memcpy_pixels_def)
  show ?thesis
    unfolding update_screen_def Let_def n l(4,5) scan_start_def [symmetric]
    by (rule exI [of _ "if yres ?i = 0 then static_i st else int (xres ?i)"])
      (use rows in \<open>simp add: a l memcpy_all t\<close>)
qed

lemma scan_start_fields [simp]:
  "buf_a (scan_start st) = cmpbuf st" "scan_idle (scan_start st)"
  "max_x (scan_start st) = -1" "max_y (scan_start st) = -1"
  "min_x (scan_start st) = 9999" "min_y (scan_start st) = 9999"
  by (simp_all add: scan_start_def)

lemma changed_box:
  assumes "upright fb st" "changed_pixels (scrinfo st) (cmpbuf st) fb \<noteq> []"
  defines "d \<equiv> dirty_all (changed_pixels (scrinfo st) (cmpbuf st) fb) (scan_start st)"
  shows "bounding_box (set (changed_pixels (scrinfo st) (cmpbuf st) fb))
           (min_x d) (min_y d) (max_x d + 1) (max_y d + 1)"
  unfolding d_def using assms(1)
  by (intro dirty_all_box [OF assms(2)]) (auto simp: set_changed_pixels upright_def)

lemma all_pixels:
  assumes "length a = w * h" "w * h \<le> length fb"
    and "\<And>i j. i < w \<Longrightarrow> j < h \<Longrightarrow> a ! (j * w + i) = fb ! (j * w + i)"
  shows "a = take (w * h) fb"
proof (rule nth_equalityI)
  fix k assume "k < length a"
  then have k: "k < w * h" using assms(1) by simp
  then have "0 < w" by (cases w) auto
  then have "k mod w < w" "k div w < h" using k by (simp_all add: less_mult_imp_div_less mult.commute)
  from assms(3) [OF this] k show "a ! k = take (w * h) fb ! k" by (simp add: mult.commute)
qed (use assms in simp)

text \<open>
  C23: Upright and without the test mode, on a device that shows its first page (no offsets) and whose rows are
  as wide as the screen, one call of \<open>update_screen\<close> leaves in both buffers exactly what the device shows; it is
  idle exactly when nothing changed since the last call, and otherwise marks the least rectangle around the
  changed pixels as modified.
\<close>

theorem update_screen_exact:
  assumes "upright fb st"
    and "xoffset (scrinfo st) = 0" "yoffset (scrinfo st) = 0" "xres_virtual (scrinfo st) = xres (scrinfo st)"
  defines "w \<equiv> xres (scrinfo st)" and "h \<equiv> yres (scrinfo st)"
  shows "\<exists>st'. update_screen fb st = Some st' \<and>
    cmpbuf st' = take (w * h) fb \<and> vncbuf st' = take (w * h) fb \<and>
    (idle st' \<longleftrightarrow> cmpbuf st = take (w * h) fb) \<and>
    (if idle st' then vncscr st' = vncscr st
     else \<exists>x1 y1 x2 y2. vncscr st' = rfbMarkRectAsModified (vncscr st) x1 y1 x2 y2 \<and>
            bounding_box {(int i, int j) | i j. i < w \<and> j < h \<and> cmpbuf st ! (j * w + i) \<noteq> fb ! (j * w + i)}
              x1 y1 x2 y2)"
proof -
  let ?ps = "changed_pixels (scrinfo st) (cmpbuf st) fb"
  let ?d = "dirty_all ?ps (scan_start st)"
  have ch: "changed (scrinfo st) (cmpbuf st) fb i j \<longleftrightarrow> cmpbuf st ! (j * w + i) \<noteq> fb ! (j * w + i)" for i j
    unfolding changed_def PIXEL_TO_VIRTUALPIXEL_nat nat_int using assms(2-4) by (simp add: w_def)
  have set: "set ?ps = {(int i, int j) | i j. i < w \<and> j < h \<and> cmpbuf st ! (j * w + i) \<noteq> fb ! (j * w + i)}"
    by (simp add: set_changed_pixels ch w_def h_def)
  have l: "length (cmpbuf st) = w * h" "w * h \<le> length fb"
    using assms(1) by (simp_all add: upright_def w_def h_def)
  have "?ps = [] \<longleftrightarrow> cmpbuf st = take (w * h) fb"
  proof
    assume "?ps = []"
    then have "set ?ps = {}" by simp
    then have "cmpbuf st ! (j * w + i) = fb ! (j * w + i)" if "i < w" "j < h" for i j
      using that unfolding set by auto
    then show "cmpbuf st = take (w * h) fb" by (rule all_pixels [OF l])
  next
    assume "cmpbuf st = take (w * h) fb"
    then have "set ?ps = {}" unfolding set using row_index [of _ w _ h] by auto
    then show "?ps = []" by simp
  qed
  then have idle: "scan_idle ?d \<longleftrightarrow> cmpbuf st = take (w * h) fb" by (simp add: dirty_all_fields)
  define d where "d = ?d"
  from update_screen_upright [OF assms(1), folded w_def h_def d_def] obtain s where
    u: "update_screen fb st =
      (let st' = st\<lparr>cmpbuf := take (w * h) fb, vncbuf := take (w * h) fb, static_i := s, idle := scan_idle d\<rparr>
       in Some (if scan_idle d then st'
                else st'\<lparr>vncscr := rfbMarkRectAsModified (vncscr st) (min_x d) (min_y d) (max_x d + 1) (max_y d + 1)\<rparr>))"
    by blast
  show ?thesis
  proof (cases "scan_idle d")
    case True
    with u idle d_def show ?thesis by (simp add: Let_def)
  next
    case False
    then have "?ps \<noteq> []" by (auto simp: d_def dirty_all_fields)
    note box = changed_box [OF assms(1) this, folded d_def, unfolded set]
    have "cmpbuf st \<noteq> take (w * h) fb" using False idle d_def by simp
    then show ?thesis using False u box by (auto simp: Let_def)
  qed
qed

text \<open>
  C26: When the device shows another page than its first (\<open>yoffset\<close> or \<open>xoffset\<close> not zero, as a double
  buffered device does), the viewers still get the first page, and the server compares what it sent
  with the page that is visible: if the two differ anywhere, no number of calls makes it idle.
\<close>

theorem update_screen_first_page:
  assumes "upright fb st" "i < xres (scrinfo st)" "j < yres (scrinfo st)"
    and "fb ! (j * xres (scrinfo st) + i) \<noteq> fb ! nat (PIXEL_TO_VIRTUALPIXEL (scrinfo st) (int i) (int j))"
  shows "\<exists>st' st''. update_screen fb st = Some st' \<and> update_screen fb st' = Some st'' \<and>
    vncbuf st'' = take (xres (scrinfo st) * yres (scrinfo st)) fb \<and> \<not> idle st''"
proof -
  let ?n = "xres (scrinfo st) * yres (scrinfo st)"
  obtain st' where st': "update_screen fb st = Some st'" and
    f: "cmpbuf st' = take ?n fb" "scrinfo st' = scrinfo st" "upright fb st'"
    using update_screen_upright [OF assms(1)] assms(1)
    by (auto simp: Let_def upright_def rfbMarkRectAsModified_size)
  have "changed (scrinfo st') (cmpbuf st') fb i j"
    using assms(2-4) row_index [OF assms(2,3)] by (simp add: changed_def f)
  then have "changed_pixels (scrinfo st') (cmpbuf st') fb \<noteq> []"
    using assms(2,3) set_changed_pixels [of "scrinfo st'" "cmpbuf st'" fb] f(2) by fastforce
  then have "\<not> scan_idle (dirty_all (changed_pixels (scrinfo st') (cmpbuf st') fb) (scan_start st'))"
    by (simp add: dirty_all_fields)
  then show ?thesis using st' update_screen_upright [OF f(3)] f(2) by (auto simp: Let_def)
qed

text \<open>A device of two by two pixels with two pages; \<open>page\<close> is the row the visible page starts in.\<close>

definition small_info :: "nat \<Rightarrow> fb_info" where
  "small_info page = \<lparr>xres = 2, yres = 2, xres_virtual = 2, xoffset = 0, yoffset = page, bits_per_pixel = 32,
     red_offset = 16, green_offset = 8, blue_offset = 0, red_length = 8, green_length = 8, blue_length = 8\<rparr>"

definition small_server :: "nat \<Rightarrow> nat \<Rightarrow> 32 word android" where
  "small_server page rot = init_fb_server (small_info page) rot 0 \<lparr>cur_xhot = 0, cur_yhot = 0, cur_width = 0, cur_height = 0\<rparr>"

lemma small_server_simps [simp]:
  "scrinfo (small_server page rot) = small_info page" "rotation (small_server page rot) = rot"
  "cmpbuf (small_server page rot) = [0, 0, 0, 0]" "vncbuf (small_server page rot) = [0, 0, 0, 0]"
  "test_mode (small_server page rot) = 0" "static_i (small_server page rot) = 0"
  "us_width (vncscr (small_server page rot)) = 2" "us_height (vncscr (small_server page rot)) = 2"
  by (simp_all add: small_server_def init_fb_server_def small_info_def Let_def rfbMarkRectAsModified_size
      numeral_eq_Suc)

lemma small_upright: "upright [1, 2, 3, 4, 5, 6, 7, 8] (small_server page 0)" if "page \<le> 2"
  using that by (auto simp: upright_def device_covers_def small_info_def less_Suc_eq numeral_eq_Suc)

theorem update_screen_exact_witness:
  "\<exists>st'. update_screen [1, 2, 3, 4, 5, 6, 7, 8] (small_server 0 0) = Some st' \<and>
         vncbuf st' = [1, 2, 3, 4] \<and> \<not> idle st'"
  using update_screen_exact [OF small_upright [of 0]] by (auto simp: small_info_def)

theorem update_screen_first_page_witness:
  "\<exists>st' st''. update_screen [1, 2, 3, 4, 5, 6, 7, 8] (small_server 2 0) = Some st' \<and>
     update_screen [1, 2, 3, 4, 5, 6, 7, 8] st' = Some st'' \<and> vncbuf st'' = [1, 2, 3, 4] \<and> \<not> idle st''"
  using update_screen_first_page [OF small_upright [of 2], of 0 0]
  by (auto simp: small_info_def PIXEL_TO_VIRTUALPIXEL_def)

section \<open>Turned by 90 and by 270 degrees\<close>

lemma loop_second_fails:
  assumes "\<And>s s'. P s \<Longrightarrow> f 0 s = Some s' \<Longrightarrow> Q s'" "\<And>s. Q s \<Longrightarrow> f (Suc 0) s = None" "P s" "2 \<le> n"
  shows "loop f [0..<n] s = None"
proof -
  have "[0..<n] = 0 # 1 # [2..<n]" using assms(4) by (simp add: upt_rec numeral_2_eq_2)
  then show ?thesis using assms(1-3) by (cases "f 0 s") auto
qed

lemma wr_length: "wr a k p = Some a' \<Longrightarrow> length a' = length a"
  by (auto simp: wr_def split: if_splits)

lemma scan_row_length:
  assumes "do { s \<leftarrow> loop (\<lambda>i s. do { p \<leftarrow> rd (buf_a s) (idx i); q \<leftarrow> rd b ptv;
                  if p \<noteq> q then do { a \<leftarrow> wr (buf_a s) (idx i) q; Some (dirty (fx i) (fy i) (s\<lparr>buf_a := a\<rparr>)) }
                  else Some s }) is s; Some (s\<lparr>scan_i := v\<rparr>) } = Some s'"
  shows "length (buf_a s') = length (buf_a s)" "scan_i s' = v"
proof -
  obtain s1 where s1: "loop (\<lambda>i s. do { p \<leftarrow> rd (buf_a s) (idx i); q \<leftarrow> rd b ptv;
      if p \<noteq> q then do { a \<leftarrow> wr (buf_a s) (idx i) q; Some (dirty (fx i) (fy i) (s\<lparr>buf_a := a\<rparr>)) }
      else Some s }) is s = Some s1" "s' = s1\<lparr>scan_i := v\<rparr>"
    using assms by (auto split: Option.bind_splits)
  have "length (buf_a s1) = length (buf_a s)"
    by (rule loop_invariant [OF s1(1)]) (auto split: Option.bind_splits if_splits dest: wr_length)
  then show "length (buf_a s') = length (buf_a s)" "scan_i s' = v" by (simp_all add: s1(2))
qed

lemma loop_first_fails: "xs \<noteq> [] \<Longrightarrow> f (hd xs) s = None \<Longrightarrow> loop f xs s = None"
  by (cases xs) auto

text \<open>
  C27: With the screen turned by 90 or 270 degrees and at least two rows, every call of
  \<open>update_screen\<close> accesses the buffer outside its bounds, whatever the device holds and whatever
  calls were made before: the offset of the second row is computed from the column the first row
  ended with.
\<close>

theorem update_screen_sideways:
  assumes "rotation st = 90 \<or> rotation st = 270" "1 \<le> xres (scrinfo st)" "2 \<le> yres (scrinfo st)"
    and "length (cmpbuf st) = xres (scrinfo st) * yres (scrinfo st)"
  shows "update_screen fb st = None"
proof -
  let ?i = "scrinfo st"
  define P where "P = (\<lambda>s :: 'a word scan. length (buf_a s) = xres ?i * yres ?i)"
  define Q where "Q = (\<lambda>s. P s \<and> scan_i s = int (xres ?i))"
  have ne: "[0..<xres ?i] \<noteq> []" using assms(2) by simp
  have s90: "loop (scan90_row ?i b) [0..<yres ?i] s = None" if "P s" for b s
  proof (rule loop_second_fails [where P = P and Q = Q])
    show "Q s'" if "P s" "scan90_row ?i b 0 s = Some s'" for s s'
      using scan_row_length [OF that(2) [unfolded scan90_row_def Let_def]] that(1) by (simp add: Q_def P_def)
    show "scan90_row ?i b (Suc 0) s = None" if "Q s" for s
    proof -
      have "rd (buf_a s) (int (yres ?i) - 1 - int (Suc 0) + int (xres ?i) * int (yres ?i)) = None"
        using that assms(3) by (simp add: rd_def Q_def P_def nat_diff_distrib zless_nat_eq_int_zless
            del: of_nat_mult flip: of_nat_mult)
      then show ?thesis using that unfolding scan90_row_def Let_def Q_def
        by (simp add: loop_first_fails [OF ne])
    qed
  qed (use that assms(3) in simp_all)
  have s270: "loop (scan270_row ?i b) [0..<yres ?i] s = None" if "P s" for b s
  proof (rule loop_second_fails [where P = P and Q = Q])
    show "Q s'" if "P s" "scan270_row ?i b 0 s = Some s'" for s s'
      using scan_row_length [OF that(2) [unfolded scan270_row_def Let_def]] that(1) by (simp add: Q_def P_def)
    show "scan270_row ?i b (Suc 0) s = None" if "Q s" for s
    proof -
      have "rd (buf_a s) (int (Suc 0) + (int (xres ?i) - 1 - int (xres ?i)) * int (yres ?i)) = None"
        using assms(3) by (simp add: rd_def)
      then show ?thesis using that unfolding scan270_row_def Let_def Q_def
        by (simp add: loop_first_fails [OF ne])
    qed
  qed (use that assms(3) in simp_all)
  have "P (scan_start st)" using assms(4) by (simp add: P_def)
  then show ?thesis using assms(1) s90 s270
    unfolding update_screen_def Let_def scan_start_def [symmetric] by auto
qed

theorem update_screen_sideways_witness: "update_screen [1, 2, 3, 4, 5, 6, 7, 8] (small_server 0 90) = None"
  by (rule update_screen_sideways) (simp_all add: small_info_def)

end
