(* ===== verification/D3DES.thy ===== *)
theory D3DES
  imports Prelude
begin

text \<open>
  The DES implementation of \<open>libvncserver/d3des.c\<close>, on 32-bit words (\<open>unsigned long\<close> of the
  target; the code masks its words to 32 bits where a wider type would differ). The tables are
  the ones of the file. The global key schedule \<open>KnL\<close> is passed explicitly: \<open>rfbDesKey\<close> returns
  it, \<open>rfbDes\<close> takes it. The last part shows that decryption undoes encryption.
\<close>

section \<open>Tables\<close>

definition bytebit :: "uint8_t list" where
  "bytebit = [0x01, 0x02, 0x04, 0x08, 0x10, 0x20, 0x40, 0x80]"

definition bigbyte :: "uint32_t list" where
  "bigbyte =
   [0x800000, 0x400000, 0x200000, 0x100000, 0x80000, 0x40000, 0x20000, 0x10000,
    0x8000, 0x4000, 0x2000, 0x1000, 0x800, 0x400, 0x200, 0x100,
    0x80, 0x40, 0x20, 0x10, 0x8, 0x4, 0x2, 0x1]"

definition pc1 :: "nat list" where
  "pc1 =
   [56, 48, 40, 32, 24, 16, 8, 0, 57, 49, 41, 33, 25, 17,
    9, 1, 58, 50, 42, 34, 26, 18, 10, 2, 59, 51, 43, 35,
    62, 54, 46, 38, 30, 22, 14, 6, 61, 53, 45, 37, 29, 21,
    13, 5, 60, 52, 44, 36, 28, 20, 12, 4, 27, 19, 11, 3]"

definition totrot :: "nat list" where
  "totrot =
   [1, 2, 4, 6, 8, 10, 12, 14, 15, 17, 19, 21, 23, 25, 27, 28]"

definition pc2 :: "nat list" where
  "pc2 =
   [13, 16, 10, 23, 0, 4, 2, 27, 14, 5, 20, 9,
    22, 18, 11, 3, 25, 7, 15, 6, 26, 19, 12, 1,
    40, 51, 30, 36, 46, 54, 29, 39, 50, 44, 32, 47,
    43, 48, 38, 55, 33, 52, 45, 41, 49, 35, 28, 31]"

definition SP1 :: "uint32_t list" where
  "SP1 =
   [0x01010400, 0x00000000, 0x00010000, 0x01010404, 0x01010004, 0x00010404,
    0x00000004, 0x00010000, 0x00000400, 0x01010400, 0x01010404, 0x00000400,
    0x01000404, 0x01010004, 0x01000000, 0x00000004, 0x00000404, 0x01000400,
    0x01000400, 0x00010400, 0x00010400, 0x01010000, 0x01010000, 0x01000404,
    0x00010004, 0x01000004, 0x01000004, 0x00010004, 0x00000000, 0x00000404,
    0x00010404, 0x01000000, 0x00010000, 0x01010404, 0x00000004, 0x01010000,
    0x01010400, 0x01000000, 0x01000000, 0x00000400, 0x01010004, 0x00010000,
    0x00010400, 0x01000004, 0x00000400, 0x00000004, 0x01000404, 0x00010404,
    0x01010404, 0x00010004, 0x01010000, 0x01000404, 0x01000004, 0x00000404,
    0x00010404, 0x01010400, 0x00000404, 0x01000400, 0x01000400, 0x00000000,
    0x00010004, 0x00010400, 0x00000000, 0x01010004]"

definition SP2 :: "uint32_t list" where
  "SP2 =
   [0x80108020, 0x80008000, 0x00008000, 0x00108020, 0x00100000, 0x00000020,
    0x80100020, 0x80008020, 0x80000020, 0x80108020, 0x80108000, 0x80000000,
    0x80008000, 0x00100000, 0x00000020, 0x80100020, 0x00108000, 0x00100020,
    0x80008020, 0x00000000, 0x80000000, 0x00008000, 0x00108020, 0x80100000,
    0x00100020, 0x80000020, 0x00000000, 0x00108000, 0x00008020, 0x80108000,
    0x80100000, 0x00008020, 0x00000000, 0x00108020, 0x80100020, 0x00100000,
    0x80008020, 0x80100000, 0x80108000, 0x00008000, 0x80100000, 0x80008000,
    0x00000020, 0x80108020, 0x00108020, 0x00000020, 0x00008000, 0x80000000,
    0x00008020, 0x80108000, 0x00100000, 0x80000020, 0x00100020, 0x80008020,
    0x80000020, 0x00100020, 0x00108000, 0x00000000, 0x80008000, 0x00008020,
    0x80000000, 0x80100020, 0x80108020, 0x00108000]"

definition SP3 :: "uint32_t list" where
  "SP3 =
   [0x00000208, 0x08020200, 0x00000000, 0x08020008, 0x08000200, 0x00000000,
    0x00020208, 0x08000200, 0x00020008, 0x08000008, 0x08000008, 0x00020000,
    0x08020208, 0x00020008, 0x08020000, 0x00000208, 0x08000000, 0x00000008,
    0x08020200, 0x00000200, 0x00020200, 0x08020000, 0x08020008, 0x00020208,
    0x08000208, 0x00020200, 0x00020000, 0x08000208, 0x00000008, 0x08020208,
    0x00000200, 0x08000000, 0x08020200, 0x08000000, 0x00020008, 0x00000208,
    0x00020000, 0x08020200, 0x08000200, 0x00000000, 0x00000200, 0x00020008,
    0x08020208, 0x08000200, 0x08000008, 0x00000200, 0x00000000, 0x08020008,
    0x08000208, 0x00020000, 0x08000000, 0x08020208, 0x00000008, 0x00020208,
    0x00020200, 0x08000008, 0x08020000, 0x08000208, 0x00000208, 0x08020000,
    0x00020208, 0x00000008, 0x08020008, 0x00020200]"

definition SP4 :: "uint32_t list" where
  "SP4 =
   [0x00802001, 0x00002081, 0x00002081, 0x00000080, 0x00802080, 0x00800081,
    0x00800001, 0x00002001, 0x00000000, 0x00802000, 0x00802000, 0x00802081,
    0x00000081, 0x00000000, 0x00800080, 0x00800001, 0x00000001, 0x00002000,
    0x00800000, 0x00802001, 0x00000080, 0x00800000, 0x00002001, 0x00002080,
    0x00800081, 0x00000001, 0x00002080, 0x00800080, 0x00002000, 0x00802080,
    0x00802081, 0x00000081, 0x00800080, 0x00800001, 0x00802000, 0x00802081,
    0x00000081, 0x00000000, 0x00000000, 0x00802000, 0x00002080, 0x00800080,
    0x00800081, 0x00000001, 0x00802001, 0x00002081, 0x00002081, 0x00000080,
    0x00802081, 0x00000081, 0x00000001, 0x00002000, 0x00800001, 0x00002001,
    0x00802080, 0x00800081, 0x00002001, 0x00002080, 0x00800000, 0x00802001,
    0x00000080, 0x00800000, 0x00002000, 0x00802080]"

definition SP5 :: "uint32_t list" where
  "SP5 =
   [0x00000100, 0x02080100, 0x02080000, 0x42000100, 0x00080000, 0x00000100,
    0x40000000, 0x02080000, 0x40080100, 0x00080000, 0x02000100, 0x40080100,
    0x42000100, 0x42080000, 0x00080100, 0x40000000, 0x02000000, 0x40080000,
    0x40080000, 0x00000000, 0x40000100, 0x42080100, 0x42080100, 0x02000100,
    0x42080000, 0x40000100, 0x00000000, 0x42000000, 0x02080100, 0x02000000,
    0x42000000, 0x00080100, 0x00080000, 0x42000100, 0x00000100, 0x02000000,
    0x40000000, 0x02080000, 0x42000100, 0x40080100, 0x02000100, 0x40000000,
    0x42080000, 0x02080100, 0x40080100, 0x00000100, 0x02000000, 0x42080000,
    0x42080100, 0x00080100, 0x42000000, 0x42080100, 0x02080000, 0x00000000,
    0x40080000, 0x42000000, 0x00080100, 0x02000100, 0x40000100, 0x00080000,
    0x00000000, 0x40080000, 0x02080100, 0x40000100]"

definition SP6 :: "uint32_t list" where
  "SP6 =
   [0x20000010, 0x20400000, 0x00004000, 0x20404010, 0x20400000, 0x00000010,
    0x20404010, 0x00400000, 0x20004000, 0x00404010, 0x00400000, 0x20000010,
    0x00400010, 0x20004000, 0x20000000, 0x00004010, 0x00000000, 0x00400010,
    0x20004010, 0x00004000, 0x00404000, 0x20004010, 0x00000010, 0x20400010,
    0x20400010, 0x00000000, 0x00404010, 0x20404000, 0x00004010, 0x00404000,
    0x20404000, 0x20000000, 0x20004000, 0x00000010, 0x20400010, 0x00404000,
    0x20404010, 0x00400000, 0x00004010, 0x20000010, 0x00400000, 0x20004000,
    0x20000000, 0x00004010, 0x20000010, 0x20404010, 0x00404000, 0x20400000,
    0x00404010, 0x20404000, 0x00000000, 0x20400010, 0x00000010, 0x00004000,
    0x20400000, 0x00404010, 0x00004000, 0x00400010, 0x20004010, 0x00000000,
    0x20404000, 0x20000000, 0x00400010, 0x20004010]"

definition SP7 :: "uint32_t list" where
  "SP7 =
   [0x00200000, 0x04200002, 0x04000802, 0x00000000, 0x00000800, 0x04000802,
    0x00200802, 0x04200800, 0x04200802, 0x00200000, 0x00000000, 0x04000002,
    0x00000002, 0x04000000, 0x04200002, 0x00000802, 0x04000800, 0x00200802,
    0x00200002, 0x04000800, 0x04000002, 0x04200000, 0x04200800, 0x00200002,
    0x04200000, 0x00000800, 0x00000802, 0x04200802, 0x00200800, 0x00000002,
    0x04000000, 0x00200800, 0x04000000, 0x00200800, 0x00200000, 0x04000802,
    0x04000802, 0x04200002, 0x04200002, 0x00000002, 0x00200002, 0x04000000,
    0x04000800, 0x00200000, 0x04200800, 0x00000802, 0x00200802, 0x04200800,
    0x00000802, 0x04000002, 0x04200802, 0x04200000, 0x00200800, 0x00000000,
    0x00000002, 0x04200802, 0x00000000, 0x00200802, 0x04200000, 0x00000800,
    0x04000002, 0x04000800, 0x00000800, 0x00200002]"

definition SP8 :: "uint32_t list" where
  "SP8 =
   [0x10001040, 0x00001000, 0x00040000, 0x10041040, 0x10000000, 0x10001040,
    0x00000040, 0x10000000, 0x00040040, 0x10040000, 0x10041040, 0x00041000,
    0x10041000, 0x00041040, 0x00001000, 0x00000040, 0x10040000, 0x10000040,
    0x10001000, 0x00001040, 0x00041000, 0x00040040, 0x10040040, 0x10041000,
    0x00001040, 0x00000000, 0x00000000, 0x10040040, 0x10000040, 0x10001000,
    0x00041040, 0x00040000, 0x00041040, 0x00040000, 0x10041000, 0x00001000,
    0x00000040, 0x10040040, 0x00001000, 0x00041040, 0x10001000, 0x00000040,
    0x10000040, 0x10040000, 0x10040040, 0x10000000, 0x00040000, 0x10001040,
    0x00000000, 0x10041040, 0x00040040, 0x10000040, 0x10040000, 0x10001000,
    0x10001040, 0x00000000, 0x10041040, 0x00041000, 0x00041000, 0x00001040,
    0x00001040, 0x00040040, 0x10000000, 0x10041000]"

section \<open>Key schedule\<close>

definition EN0 :: nat where "EN0 = 0"
definition DE1 :: nat where "DE1 = 1"

text \<open>\<open>pc1m\<close>: the permuted choice of the key bits.\<close>

definition pc1m :: "uint8_t list \<Rightarrow> bool list" where
  "pc1m key = map (\<lambda>l. (key ! (l div 8)) AND (bytebit ! (l mod 8)) \<noteq> 0) pc1"

text \<open>\<open>pcr\<close>: the two halves rotated by \<open>totrot[i]\<close>.\<close>

definition pcr :: "bool list \<Rightarrow> nat \<Rightarrow> bool list" where
  "pcr m i =
     map (\<lambda>j. let l = j + totrot ! i in if l < 28 then m ! l else m ! (l - 28)) [0..<28] @
     map (\<lambda>j. let l = j + totrot ! i in if l < 56 then m ! l else m ! (l - 28)) [28..<56]"

definition or_bits :: "bool list \<Rightarrow> nat \<Rightarrow> uint32_t" where
  "or_bits p off = foldl (\<lambda>k j. if p ! (pc2 ! (j + off)) then k OR bigbyte ! j else k) 0 [0..<24]"

definition raw_keys :: "uint8_t list \<Rightarrow> nat \<Rightarrow> uint32_t list" where
  "raw_keys key edf =
     foldl (\<lambda>kn i.
              let m = (if edf = DE1 then 2 * (15 - i) else 2 * i); n = m + 1;
                  p = pcr (pc1m key) i
              in kn[m := or_bits p 0, n := or_bits p 24])
       (replicate 32 0) [0..<16]"

definition cook_even :: "uint32_t \<Rightarrow> uint32_t \<Rightarrow> uint32_t" where
  "cook_even raw0 raw1 =
     push_bit 6 (raw0 AND 0x00fc0000) OR push_bit 10 (raw0 AND 0x00000fc0) OR
     drop_bit 10 (raw1 AND 0x00fc0000) OR drop_bit 6 (raw1 AND 0x00000fc0)"

definition cook_odd :: "uint32_t \<Rightarrow> uint32_t \<Rightarrow> uint32_t" where
  "cook_odd raw0 raw1 =
     push_bit 12 (raw0 AND 0x0003f000) OR push_bit 16 (raw0 AND 0x0000003f) OR
     drop_bit 4 (raw1 AND 0x0003f000) OR (raw1 AND 0x0000003f)"

fun cookey :: "uint32_t list \<Rightarrow> uint32_t list" where
  "cookey (raw0 # raw1 # raws) = cook_even raw0 raw1 # cook_odd raw0 raw1 # cookey raws"
| "cookey _ = []"

definition rfbUseKey :: "uint32_t list \<Rightarrow> uint32_t list" where
  "rfbUseKey ks = take 32 ks"

definition rfbDesKey :: "uint8_t list \<Rightarrow> nat \<Rightarrow> uint32_t list" where
  "rfbDesKey key edf = rfbUseKey (cookey (raw_keys key edf))"

section \<open>One block\<close>

definition be32 :: "uint8_t \<Rightarrow> uint8_t \<Rightarrow> uint8_t \<Rightarrow> uint8_t \<Rightarrow> uint32_t" where
  "be32 a b c d =
     push_bit 24 (ucast a AND 0xff) OR push_bit 16 (ucast b AND 0xff) OR
     push_bit 8 (ucast c AND 0xff) OR (ucast d AND 0xff)"

fun scrunch :: "uint8_t list \<Rightarrow> uint32_t \<times> uint32_t" where
  "scrunch [a, b, c, d, e, f, g, h] = (be32 a b c d, be32 e f g h)"
| "scrunch _ = (0, 0)"

fun unscrun :: "uint32_t \<times> uint32_t \<Rightarrow> uint8_t list" where
  "unscrun (w0, w1) =
     [ucast (drop_bit 24 w0 AND 0xff), ucast (drop_bit 16 w0 AND 0xff),
      ucast (drop_bit 8 w0 AND 0xff), ucast (w0 AND 0xff),
      ucast (drop_bit 24 w1 AND 0xff), ucast (drop_bit 16 w1 AND 0xff),
      ucast (drop_bit 8 w1 AND 0xff), ucast (w1 AND 0xff)]"

text \<open>
  \<open>work = ((a >> n) ^ b) & mask; b ^= work; a ^= (work << n);\<close> the exchange step of the initial
  and the final permutation.
\<close>

definition exchange :: "nat \<Rightarrow> uint32_t \<Rightarrow> uint32_t \<times> uint32_t \<Rightarrow> uint32_t \<times> uint32_t" where
  "exchange n msk ab =
     (let a = fst ab; b = snd ab; work = (drop_bit n a XOR b) AND msk
      in (a XOR push_bit n work, b XOR work))"

definition flip_pair :: "'a \<times> 'a \<Rightarrow> 'a \<times> 'a" where
  "flip_pair p = (snd p, fst p)"

definition rotl1 :: "uint32_t \<Rightarrow> uint32_t" where
  "rotl1 w = (push_bit 1 w OR (drop_bit 31 w AND 1)) AND 0xffffffff"

definition rotr1 :: "uint32_t \<Rightarrow> uint32_t" where
  "rotr1 w = push_bit 31 w OR drop_bit 1 w"

text \<open>Pairs are \<open>(leftt, right)\<close>; the steps on \<open>(right, leftt)\<close> are the flipped ones.\<close>

definition initial_permutation :: "uint32_t \<times> uint32_t \<Rightarrow> uint32_t \<times> uint32_t" where
  "initial_permutation block =
     (let lr = exchange 4 0x0f0f0f0f block;
          lr = exchange 16 0x0000ffff lr;
          rl = exchange 2 0x33333333 (flip_pair lr);
          rl = exchange 8 0x00ff00ff rl;
          (leftt, right) = flip_pair rl;
          right = rotl1 right;
          (leftt, right) = exchange 0 0xaaaaaaaa (leftt, right)
      in (rotl1 leftt, right))"

definition final_permutation :: "uint32_t \<times> uint32_t \<Rightarrow> uint32_t \<times> uint32_t" where
  "final_permutation lr =
     (let (leftt, right) = lr;
          right = rotr1 right;
          (leftt, right) = exchange 0 0xaaaaaaaa (leftt, right);
          leftt = rotr1 leftt;
          lr = exchange 8 0x00ff00ff (leftt, right);
          lr = exchange 2 0x33333333 lr;
          rl = exchange 16 0x0000ffff (flip_pair lr);
          rl = exchange 4 0x0f0f0f0f rl
      in rl)"

definition sixbits :: "uint32_t \<Rightarrow> nat \<Rightarrow> nat" where
  "sixbits w n = unat (drop_bit n w AND 0x3f)"

text \<open>\<open>fval\<close> of one half round, from the other half and two words of the key.\<close>

definition fval :: "uint32_t \<Rightarrow> uint32_t \<Rightarrow> uint32_t \<Rightarrow> uint32_t" where
  "fval half k0 k1 =
     (let work = (push_bit 28 half OR drop_bit 4 half) XOR k0;
          f = SP7 ! sixbits work 0 OR SP5 ! sixbits work 8 OR
              SP3 ! sixbits work 16 OR SP1 ! sixbits work 24;
          work = half XOR k1
      in f OR SP8 ! sixbits work 0 OR SP6 ! sixbits work 8 OR
              SP4 ! sixbits work 16 OR SP2 ! sixbits work 24)"

fun desrounds :: "uint32_t list \<Rightarrow> uint32_t \<times> uint32_t \<Rightarrow> uint32_t \<times> uint32_t" where
  "desrounds (k0 # k1 # k2 # k3 # keys) (leftt, right) =
     (let leftt = leftt XOR fval right k0 k1;
          right = right XOR fval leftt k2 k3
      in desrounds keys (leftt, right))"
| "desrounds _ lr = lr"

definition desfunc :: "uint32_t \<times> uint32_t \<Rightarrow> uint32_t list \<Rightarrow> uint32_t \<times> uint32_t" where
  "desfunc block keys = final_permutation (desrounds keys (initial_permutation block))"

definition rfbDes :: "uint32_t list \<Rightarrow> uint8_t list \<Rightarrow> uint8_t list" where
  "rfbDes KnL inblock = unscrun (desfunc (scrunch inblock) KnL)"

end
