(* ===== verification/DESInverse.thy ===== *)
theory DESInverse
  imports D3DES
begin

text \<open>
  DES decryption undoes encryption. The rounds are a Feistel network, whatever the round
  function; the locale \<open>feistel\<close> proves it once, from the law of the exclusive or that the
  network rests on. What is left is the code's own part: the final permutation undoes the
  initial one, and the key schedule for decryption is the one for encryption in reverse.
\<close>

section \<open>Feistel networks\<close>

fun half_rounds :: "('w \<Rightarrow> 'w \<Rightarrow> 'w) \<Rightarrow> ('w \<Rightarrow> 'k \<Rightarrow> 'w) \<Rightarrow> 'k list \<Rightarrow> 'w \<times> 'w \<Rightarrow> 'w \<times> 'w" where
  "half_rounds mix f [] ab = ab"
| "half_rounds mix f (k # ks) (a, b) = half_rounds mix f ks (b, mix a (f b k))"

locale feistel =
  fixes mix :: "'w \<Rightarrow> 'w \<Rightarrow> 'w" and f :: "'w \<Rightarrow> 'k \<Rightarrow> 'w"
  assumes mix_cancel: "mix (mix a b) b = a"
begin

lemma half_rounds_append:
  "half_rounds mix f (ks @ ls) ab = half_rounds mix f ls (half_rounds mix f ks ab)"
  by (induction ks arbitrary: ab) (auto split: prod.splits)

lemma half_rounds_rev:
  "half_rounds mix f (rev ks) (flip_pair (half_rounds mix f ks ab)) = flip_pair ab"
proof (induction ks arbitrary: ab)
  case (Cons k ks)
  obtain a b where ab: "ab = (a, b)" by fastforce
  have "half_rounds mix f (rev (k # ks)) (flip_pair (half_rounds mix f (k # ks) ab)) =
      half_rounds mix f [k] (flip_pair (b, mix a (f b k)))"
    using Cons.IH[of "(b, mix a (f b k))"] by (simp add: ab half_rounds_append)
  also have "\<dots> = flip_pair ab" by (simp add: ab flip_pair_def mix_cancel)
  finally show ?case .
qed simp

end

interpretation des: feistel "(XOR) :: uint32_t \<Rightarrow> uint32_t \<Rightarrow> uint32_t" "\<lambda>h (k0, k1). fval h k0 k1"
  by unfold_locales (simp add: xor.assoc)

fun key_pairs :: "'a list \<Rightarrow> ('a \<times> 'a) list" where
  "key_pairs (k0 # k1 # ks) = (k0, k1) # key_pairs ks"
| "key_pairs _ = []"

lemma desrounds_half_rounds:
  "length keys mod 4 = 0 \<Longrightarrow>
   desrounds keys lr = half_rounds (XOR) (\<lambda>h (k0, k1). fval h k0 k1) (key_pairs keys) lr"
  by (induction keys lr rule: desrounds.induct) (auto simp: Let_def mod_Suc split: if_splits)

section \<open>The permutations\<close>

lemma flip_flip [simp]: "flip_pair (flip_pair p) = p"
  by (simp add: flip_pair_def)

lemma drop_push_masked:
  fixes x m :: uint32_t
  assumes "m AND mask (32 - n) = m"
  shows "drop_bit n (push_bit n (x AND m)) = x AND m"
proof (rule bit_word_eqI)
  fix i assume "i < LENGTH(32)"
  have "i + n < 32" if "bit m i"
  proof -
    have "bit (m AND mask (32 - n)) i" using that assms by simp
    then have "i < 32 - n" by (simp add: bit_and_iff bit_mask_iff)
    then show ?thesis by simp
  qed
  then show "bit (drop_bit n (push_bit n (x AND m))) i = bit (x AND m) i"
    using \<open>i < LENGTH(32)\<close> by (auto simp: bit_simps add.commute)
qed

lemma xor_masked_twice:
  fixes x y w m :: uint32_t
  assumes "w = (x XOR y) AND m"
  shows "((x XOR w) XOR (y XOR w)) AND m = w"
proof -
  have "(x XOR w) XOR (y XOR w) = x XOR y"
    by (simp add: xor.assoc xor.left_commute[of _ y] xor.commute[of _ y])
  then show ?thesis using assms by simp
qed

lemma exchange_pair:
  "exchange n m (a, b) =
     (a XOR push_bit n ((drop_bit n a XOR b) AND m), b XOR ((drop_bit n a XOR b) AND m))"
  by (simp only: exchange_def Let_def fst_conv snd_conv)

lemma xor_cancel_right: "(x XOR y) XOR y = (x :: uint32_t)"
  by (simp add: xor.assoc)

lemma exchange_involution:
  assumes "m AND mask (32 - n) = m"
  shows "exchange n m (exchange n m p) = p"
proof -
  obtain a b where p: "p = (a, b)" by fastforce
  obtain w where w: "w = (drop_bit n a XOR b) AND m" by simp
  have "drop_bit n (push_bit n w) = w"
    unfolding w by (rule drop_push_masked[OF assms])
  then have "drop_bit n (a XOR push_bit n w) = drop_bit n a XOR w"
    by (simp only: drop_bit_xor)
  moreover have "((drop_bit n a XOR w) XOR (b XOR w)) AND m = w"
    by (rule xor_masked_twice[OF w])
  ultimately show ?thesis
    by (simp only: p exchange_pair w[symmetric] xor_cancel_right)
qed

lemma exchange_inverses [simp]:
  "exchange 4 0x0f0f0f0f (exchange 4 0x0f0f0f0f p) = p"
  "exchange 16 0x0000ffff (exchange 16 0x0000ffff p) = p"
  "exchange 2 0x33333333 (exchange 2 0x33333333 p) = p"
  "exchange 8 0x00ff00ff (exchange 8 0x00ff00ff p) = p"
  by (rule exchange_involution, simp add: mask_eq_exp_minus_1)+

lemma exchange_0_flip: "exchange 0 m (flip_pair (exchange 0 m p)) = flip_pair p"
proof -
  have push_0: "push_bit 0 x = (x :: uint32_t)" for x by simp
  obtain a b where p: "p = (a, b)" by fastforce
  obtain w where w: "w = (a XOR b) AND m" by simp
  then have "w = (b XOR a) AND m" by (simp only: xor.commute)
  then have "((b XOR w) XOR (a XOR w)) AND m = w" by (rule xor_masked_twice)
  then show ?thesis
    by (simp only: p exchange_pair flip_pair_def w[symmetric] xor_cancel_right
        drop_bit_0 push_0 id_apply fst_conv snd_conv)
qed

lemma bit_rotr1: "bit (rotr1 w) i \<longleftrightarrow> i < 32 \<and> (31 \<le> i \<and> bit w (i - 31) \<or> bit w (1 + i))"
proof -
  have "bit (push_bit m w OR drop_bit n w) i \<longleftrightarrow> i < 32 \<and> (m \<le> i \<and> bit w (i - m) \<or> bit w (n + i))"
    for m n using bit_imp_le_length[of w "n + i"] by (auto simp: bit_simps)
  then show ?thesis by (simp only: rotr1_def)
qed

lemma bit_rotl1: "bit (rotl1 w) i \<longleftrightarrow> i < 32 \<and> (1 \<le> i \<and> bit w (i - 1) \<or> i = 0 \<and> bit w 31)"
proof -
  have "bit ((push_bit m w OR (drop_bit n w AND 1)) AND -1) i \<longleftrightarrow>
      i < 32 \<and> (m \<le> i \<and> bit w (i - m) \<or> i = 0 \<and> bit w n)"
    for m n by (auto simp: bit_simps)
  moreover have "(0xffffffff :: uint32_t) = -1" by simp
  ultimately show ?thesis by (simp only: rotl1_def)
qed

lemma rotr1_rotl1 [simp]: "rotr1 (rotl1 w) = w"
proof (rule bit_word_eqI)
  fix i assume "i < LENGTH(32)"
  then show "bit (rotr1 (rotl1 w)) i = bit w i"
    by (cases "i = 31") (auto simp: bit_rotr1 bit_rotl1)
qed

lemma rotl1_rotr1 [simp]: "rotl1 (rotr1 w) = w"
proof (rule bit_word_eqI)
  fix i assume "i < LENGTH(32)"
  then show "bit (rotl1 (rotr1 w)) i = bit w i"
    using bit_imp_le_length[of w 32] by (cases i) (auto simp: bit_rotr1 bit_rotl1)
qed

text \<open>The initial permutation up to its first rotation, and the final one after its last.\<close>

definition swaps :: "uint32_t \<times> uint32_t \<Rightarrow> uint32_t \<times> uint32_t" where
  "swaps p = flip_pair (exchange 8 0x00ff00ff (exchange 2 0x33333333
     (flip_pair (exchange 16 0x0000ffff (exchange 4 0x0f0f0f0f p)))))"

definition unswaps :: "uint32_t \<times> uint32_t \<Rightarrow> uint32_t \<times> uint32_t" where
  "unswaps p = exchange 4 0x0f0f0f0f (exchange 16 0x0000ffff (flip_pair
     (exchange 2 0x33333333 (exchange 8 0x00ff00ff p))))"

lemma unswaps_swaps [simp]: "unswaps (flip_pair (swaps p)) = p"
  by (simp add: swaps_def unswaps_def)

lemma swaps_unswaps [simp]: "swaps (unswaps p) = flip_pair p"
  by (simp add: swaps_def unswaps_def)

lemma initial_swaps:
  assumes "swaps p = (a, b)" and "exchange 0 0xaaaaaaaa (a, rotl1 b) = (l, r)"
  shows "initial_permutation p = (rotl1 l, r)"
  using assms by (simp add: initial_permutation_def swaps_def Let_def split_def)

lemma final_swaps:
  assumes "exchange 0 0xaaaaaaaa (l, rotr1 r) = (a, b)"
  shows "final_permutation (l, r) = unswaps (rotr1 a, b)"
  using assms by (simp add: final_permutation_def unswaps_def Let_def)

lemma final_initial: "final_permutation (flip_pair (initial_permutation p)) = p"
proof -
  obtain a b where ab: "swaps p = (a, b)" by fastforce
  obtain l r where lr: "exchange 0 0xaaaaaaaa (a, rotl1 b) = (l, r)" by fastforce
  have "exchange 0 0xaaaaaaaa (r, rotr1 (rotl1 l)) = (rotl1 b, a)"
    using exchange_0_flip[of "0xaaaaaaaa" "(a, rotl1 b)"] lr by (simp add: flip_pair_def)
  then have "final_permutation (r, rotl1 l) = unswaps (rotr1 (rotl1 b), a)"
    by (rule final_swaps)
  also have "\<dots> = unswaps (flip_pair (swaps p))" by (simp add: ab flip_pair_def)
  also have "\<dots> = p" by (rule unswaps_swaps)
  finally show ?thesis using initial_swaps[OF ab lr] by (simp add: flip_pair_def)
qed

lemma initial_final: "initial_permutation (final_permutation q) = flip_pair q"
proof -
  obtain l r where q: "q = (l, r)" by fastforce
  obtain a b where ab: "exchange 0 0xaaaaaaaa (l, rotr1 r) = (a, b)" by fastforce
  have f: "final_permutation q = unswaps (rotr1 a, b)" using final_swaps[OF ab] by (simp add: q)
  have sw: "swaps (unswaps (rotr1 a, b)) = (b, rotr1 a)" by (simp add: flip_pair_def)
  have "exchange 0 0xaaaaaaaa (b, rotl1 (rotr1 a)) = (rotr1 r, l)"
    using exchange_0_flip[of "0xaaaaaaaa" "(l, rotr1 r)"] ab by (simp add: flip_pair_def)
  from initial_swaps[OF sw this] show ?thesis unfolding f by (simp add: q flip_pair_def)
qed

section \<open>Blocks of bytes\<close>

lemma bit_low_byte: "bit ((x :: uint32_t) AND 0xff) i \<longleftrightarrow> i < 8 \<and> bit x i"
proof -
  have "(0xff :: uint32_t) = mask 8" by (simp add: mask_eq_exp_minus_1)
  then show ?thesis by (auto simp only: bit_and_iff bit_mask_iff) simp
qed

lemma bit_ucast_byte: "bit (ucast (a :: uint8_t) :: uint32_t) i \<longleftrightarrow> bit a i"
  using bit_imp_le_length[of a i] by (auto simp: bit_simps)

lemma bit_shifted_byte:
  "bit (push_bit k (ucast (a :: uint8_t) AND 0xff) :: uint32_t) i \<longleftrightarrow>
     i < 32 \<and> k \<le> i \<and> i < k + 8 \<and> bit a (i - k)"
  by (auto simp only: bit_push_bit_iff bit_low_byte bit_ucast_byte possible_bit_word) auto

lemma bit_be32:
  "bit (be32 a b c d) i \<longleftrightarrow>
     (if i < 8 then bit d i else if i < 16 then bit c (i - 8)
      else if i < 24 then bit b (i - 16) else i < 32 \<and> bit a (i - 24))"
  unfolding be32_def bit_or_iff bit_shifted_byte bit_low_byte bit_ucast_byte
  by (cases "i < 8"; cases "i < 16"; cases "i < 24"; cases "i < 32"; simp)

lemma bit_nth_byte:
  "bit (ucast (drop_bit k (w :: uint32_t) AND 0xff) :: uint8_t) i \<longleftrightarrow> i < 8 \<and> bit w (k + i)"
  by (auto simp only: bit_ucast_iff bit_low_byte bit_drop_bit_eq possible_bit_word) (auto simp: bit_drop_bit_eq)

lemma byte_of_be32 [simp]:
  "ucast (drop_bit 24 (be32 a b c d) AND 0xff) = a" "ucast (drop_bit 16 (be32 a b c d) AND 0xff) = b"
  "ucast (drop_bit 8 (be32 a b c d) AND 0xff) = c" "ucast (be32 a b c d AND 0xff) = d"
proof -
  have byte_eq: "x = y" if "\<And>i. i < 8 \<Longrightarrow> bit x i = bit y i" for x y :: uint8_t
    using that by (intro bit_word_eqI) simp
  show "ucast (drop_bit 24 (be32 a b c d) AND 0xff) = a"
    by (rule byte_eq) (simp add: bit_nth_byte bit_be32)
  show "ucast (drop_bit 16 (be32 a b c d) AND 0xff) = b"
    by (rule byte_eq) (simp add: bit_nth_byte bit_be32)
  show "ucast (drop_bit 8 (be32 a b c d) AND 0xff) = c"
    by (rule byte_eq) (simp add: bit_nth_byte bit_be32)
  show "ucast (be32 a b c d AND 0xff) = d"
    by (rule byte_eq) (simp add: bit_nth_byte[of 0, simplified] bit_be32)
qed

lemma be32_bytes [simp]:
  "be32 (ucast (drop_bit 24 w AND 0xff)) (ucast (drop_bit 16 w AND 0xff))
     (ucast (drop_bit 8 w AND 0xff)) (ucast (w AND 0xff)) = w"
proof (rule bit_word_eqI)
  fix i assume i: "i < LENGTH(32)"
  have less: "i - k < 8 \<longleftrightarrow> i < k + 8" if "\<not> i < k" for k using that by arith
  show "bit (be32 (ucast (drop_bit 24 w AND 0xff)) (ucast (drop_bit 16 w AND 0xff))
     (ucast (drop_bit 8 w AND 0xff)) (ucast (w AND 0xff))) i = bit w i"
    unfolding bit_be32 bit_nth_byte bit_nth_byte[of 0, simplified] bit_drop_bit_eq
    using i by (cases "i < 8"; cases "i < 16"; cases "i < 24"; simp add: less)
qed

lemma length_8: "length xs = 8 \<longleftrightarrow> (\<exists>a b c d e f g h. xs = [a, b, c, d, e, f, g, h])"
  by (auto simp: eval_nat_numeral length_Suc_conv)

lemma unscrun_scrunch: "length xs = 8 \<Longrightarrow> unscrun (scrunch xs) = xs"
  by (auto simp: length_8)

lemma scrunch_unscrun [simp]: "scrunch (unscrun p) = p"
  by (cases p) simp

lemma length_unscrun [simp]: "length (unscrun p) = 8"
  by (cases p) simp

section \<open>Key schedules\<close>

lemma fill_pairs:
  fixes g h :: "nat \<Rightarrow> 'a"
  shows "foldl (\<lambda>kn i. kn[2 * i := g i, 2 * i + 1 := h i]) (replicate 32 z) [0..<16] =
      concat (map (\<lambda>i. [g i, h i]) [0..<16])"
    "foldl (\<lambda>kn i. kn[2 * (15 - i) := g i, 2 * (15 - i) + 1 := h i]) (replicate 32 z) [0..<16] =
      concat (map (\<lambda>i. [g i, h i]) (rev [0..<16]))"
  by (simp_all add: upt_rec numeral_eq_Suc)

lemma raw_keys_schedule:
  "raw_keys key EN0 =
     concat (map (\<lambda>i. [or_bits (pcr (pc1m key) i) 0, or_bits (pcr (pc1m key) i) 24]) [0..<16])"
  "raw_keys key DE1 =
     concat (map (\<lambda>i. [or_bits (pcr (pc1m key) i) 0, or_bits (pcr (pc1m key) i) 24]) (rev [0..<16]))"
  by (simp_all only: raw_keys_def Let_def EN0_def DE1_def zero_neq_one refl if_False if_True fill_pairs)

lemma key_pairs_concat:
  "key_pairs (cookey (concat (map (\<lambda>i. [g i, h i]) xs))) =
     map (\<lambda>i. (cook_even (g i) (h i), cook_odd (g i) (h i))) xs"
  by (induction xs) simp_all

lemma length_cookey_concat: "length (cookey (concat (map (\<lambda>i. [g i, h i]) xs))) = 2 * length xs"
  by (induction xs) simp_all

lemma length_rfbDesKey: "length (rfbDesKey key EN0) = 32" "length (rfbDesKey key DE1) = 32"
  by (simp_all add: rfbDesKey_def rfbUseKey_def raw_keys_schedule length_cookey_concat)

lemma schedule_reversed:
  "key_pairs (rfbDesKey key DE1) = rev (key_pairs (rfbDesKey key EN0))"
  by (simp add: rfbDesKey_def rfbUseKey_def raw_keys_schedule length_cookey_concat
      key_pairs_concat rev_map)

section \<open>Decryption undoes encryption\<close>

lemma desfunc_half_rounds:
  "length keys = 32 \<Longrightarrow> desfunc blk keys =
     final_permutation (half_rounds (XOR) (\<lambda>h (k0, k1). fval h k0 k1) (key_pairs keys)
       (initial_permutation blk))"
  by (simp add: desfunc_def desrounds_half_rounds)

lemma desfunc_inverse:
  assumes "length ks = 32" "length ls = 32" "key_pairs ls = rev (key_pairs ks)"
  shows "desfunc (desfunc blk ks) ls = blk"
  by (simp add: desfunc_half_rounds assms initial_final des.half_rounds_rev final_initial)

lemma des_decrypts:
  "length blk = 8 \<Longrightarrow> rfbDes (rfbDesKey key DE1) (rfbDes (rfbDesKey key EN0) blk) = blk"
  by (simp add: rfbDes_def desfunc_inverse length_rfbDesKey schedule_reversed unscrun_scrunch)

lemma length_rfbDes [simp]: "length (rfbDes ks blk) = 8"
  by (simp add: rfbDes_def)

lemma des_encrypt_inj:
  "length a = 8 \<Longrightarrow> length b = 8 \<Longrightarrow>
   rfbDes (rfbDesKey key EN0) a = rfbDes (rfbDesKey key EN0) b \<longleftrightarrow> a = b"
  by (metis des_decrypts)

end
