(* ===== verification/VncAuth.thy ===== *)
theory VncAuth
  imports DESInverse
begin

text \<open>
  \<open>libvncserver/vncauth.c\<close> and the two password checks of \<open>libvncserver/main.c\<close>. A \<open>char *\<close> is
  the list of bytes it points to, \<open>strlen\<close> stops at the first zero byte (or at the end of the
  list, where the model puts the terminator). The file system is a map from names to contents;
  which names can be opened for writing is a parameter.
\<close>

section \<open>C strings\<close>

definition strlen :: "uint8_t list \<Rightarrow> nat" where
  "strlen s = length (takeWhile (\<lambda>c. c \<noteq> 0) s)"

definition memcmp_eq :: "uint8_t list \<Rightarrow> uint8_t list \<Rightarrow> nat \<Rightarrow> bool" where
  "memcmp_eq a b n \<longleftrightarrow> take n a = take n b"

section \<open>vncauth.c\<close>

definition CHALLENGESIZE :: nat where "CHALLENGESIZE = 16"

definition fixedkey :: "uint8_t list" where
  "fixedkey = [23, 82, 107, 6, 35, 78, 88, 7]"

definition pad_password :: "uint8_t list \<Rightarrow> uint8_t list" where
  "pad_password passwd = map (\<lambda>i. if i < strlen passwd then passwd ! i else 0) [0..<8]"

type_synonym files = "string \<Rightarrow> uint8_t list option"

definition rfbEncryptAndStorePasswd ::
    "(string \<Rightarrow> bool) \<Rightarrow> files \<Rightarrow> uint8_t list \<Rightarrow> string \<Rightarrow> nat \<times> files" where
  "rfbEncryptAndStorePasswd writable fs passwd fname =
     (if \<not> writable fname then (1, fs)
      else (let encryptedPasswd = pad_password passwd;
                encryptedPasswd = rfbDes (rfbDesKey fixedkey EN0) encryptedPasswd
            in (0, fs(fname \<mapsto> encryptedPasswd))))"

definition rfbDecryptPasswdFromFile :: "files \<Rightarrow> string \<Rightarrow> uint8_t list option" where
  "rfbDecryptPasswdFromFile fs fname =
     (case fs fname of
        None \<Rightarrow> None
      | Some contents \<Rightarrow>
          if length contents < 8 then None
          else (let passwd = take 8 contents;
                    passwd = rfbDes (rfbDesKey fixedkey DE1) passwd
                in Some (passwd @ [0])))"

text \<open>The values \<open>random()\<close> returns are an argument.\<close>

definition rfbRandomBytes :: "nat list \<Rightarrow> uint8_t list" where
  "rfbRandomBytes rands = map (\<lambda>i. word_of_nat (rands ! i) AND 255) [0..<CHALLENGESIZE]"

definition des_at :: "uint32_t list \<Rightarrow> uint8_t list \<Rightarrow> nat \<Rightarrow> uint8_t list" where
  "des_at keys bytes i =
     take i bytes @ rfbDes keys (take 8 (drop i bytes)) @ drop (i + 8) bytes"

definition rfbEncryptBytes :: "uint8_t list \<Rightarrow> uint8_t list \<Rightarrow> uint8_t list" where
  "rfbEncryptBytes bytes passwd =
     (let key = pad_password passwd; keys = rfbDesKey key EN0
      in foldl (des_at keys) bytes [0, 8])"

section \<open>The password checks\<close>

text \<open>
  The part of \<open>rfbClientRec\<close> that the connection set-up works on. \<open>inbuf\<close> holds the bytes of
  the peer that are not read yet, \<open>outbuf\<close> what was sent to it, \<open>write_ok\<close> whether the socket
  takes data, \<open>rands\<close> what \<open>random()\<close> is about to return.
\<close>

datatype client_state =
    RFB_PROTOCOL_VERSION | RFB_SECURITY_TYPE | RFB_AUTHENTICATION
  | RFB_INITIALISATION | RFB_NORMAL

record rfbClientRec =
  sock :: int
  client_state :: client_state
  protocolMajorVersion :: int
  protocolMinorVersion :: int
  reverseConnection :: bool
  viewOnly :: bool
  authChallenge :: "uint8_t list"
  inbuf :: "uint8_t list"
  outbuf :: "uint8_t list"
  write_ok :: bool
  rands :: "nat list"

text \<open>The default check encrypts the challenge of the client in place.\<close>

definition rfbDefaultPasswordCheck ::
    "files \<Rightarrow> string \<Rightarrow> rfbClientRec \<Rightarrow> uint8_t list \<Rightarrow> nat \<Rightarrow> bool \<times> rfbClientRec" where
  "rfbDefaultPasswordCheck fs authPasswdData cl response len =
     (case rfbDecryptPasswdFromFile fs authPasswdData of
        None \<Rightarrow> (False, cl)
      | Some passwd \<Rightarrow>
          (let cl = cl\<lparr>authChallenge := rfbEncryptBytes (authChallenge cl) passwd\<rparr>
           in if \<not> memcmp_eq (authChallenge cl) response len then (False, cl) else (True, cl)))"

fun check_list_loop ::
    "nat \<Rightarrow> uint8_t list list \<Rightarrow> nat \<Rightarrow> rfbClientRec \<Rightarrow> uint8_t list \<Rightarrow> nat \<Rightarrow> bool \<times> rfbClientRec" where
  "check_list_loop firstViewOnly [] i cl response len = (False, cl)"
| "check_list_loop firstViewOnly (passwd # passwds) i cl response len =
     (let auth_tmp = take CHALLENGESIZE (authChallenge cl);
          auth_tmp = rfbEncryptBytes auth_tmp passwd
      in if memcmp_eq auth_tmp response len
         then (True, if firstViewOnly \<le> i then cl\<lparr>viewOnly := True\<rparr> else cl)
         else check_list_loop firstViewOnly passwds (i + 1) cl response len)"

definition rfbCheckPasswordByList ::
    "nat \<Rightarrow> uint8_t list list \<Rightarrow> rfbClientRec \<Rightarrow> uint8_t list \<Rightarrow> nat \<Rightarrow> bool \<times> rfbClientRec" where
  "rfbCheckPasswordByList authPasswdFirstViewOnly passwds cl response len =
     check_list_loop authPasswdFirstViewOnly passwds 0 cl response len"

section \<open>Encryption with a password\<close>

text \<open>
  A block cipher is a pair of functions on blocks of eight bytes of which the second undoes the
  first. This is all that the storage of passwords and the challenge-response rely on.
\<close>

locale block_cipher =
  fixes enc dec :: "uint8_t list \<Rightarrow> uint8_t list \<Rightarrow> uint8_t list"
  assumes length_enc: "length (enc key blk) = 8"
    and dec_enc: "length blk = 8 \<Longrightarrow> dec key (enc key blk) = blk"
begin

lemma enc_inj: "length a = 8 \<Longrightarrow> length b = 8 \<Longrightarrow> enc key a = enc key b \<longleftrightarrow> a = b"
  by (metis dec_enc)

lemma two_blocks_inj:
  assumes "length a = 16" "length b = 16"
    and "enc key (take 8 a) @ enc key (take 8 (drop 8 a)) = enc key (take 8 b) @ enc key (take 8 (drop 8 b))"
  shows "a = b"
proof -
  have "enc key (take 8 a) = enc key (take 8 b)" "enc key (drop 8 a) = enc key (drop 8 b)"
    using assms by (auto simp: length_enc)
  then have "take 8 a = take 8 b" "drop 8 a = drop 8 b"
    using assms enc_inj[of "take 8 a" "take 8 b"] enc_inj[of "drop 8 a" "drop 8 b"] by auto
  then show ?thesis by (metis append_take_drop_id)
qed

end

interpretation des_cipher: block_cipher
  "\<lambda>key. rfbDes (rfbDesKey key EN0)" "\<lambda>key. rfbDes (rfbDesKey key DE1)"
  by unfold_locales (simp_all add: des_decrypts)

lemma length_pad_password [simp]: "length (pad_password p) = 8"
  by (simp add: pad_password_def)

lemma strlen_append_0 [simp]: "strlen (s @ [0]) = strlen s"
proof (cases "\<forall>x\<in>set s. x \<noteq> 0")
  case True
  then have "takeWhile (\<lambda>c. c \<noteq> 0) s = s" "takeWhile (\<lambda>c. c \<noteq> 0) (s @ [0]) = s"
    by (simp_all add: takeWhile_append)
  then show ?thesis by (simp only: strlen_def)
next
  case False
  then show ?thesis by (auto simp: strlen_def)
qed

lemma nth_strlen: "i < strlen s \<Longrightarrow> s ! i \<noteq> 0"
  using nth_mem[of i "takeWhile (\<lambda>c. c \<noteq> 0) s"] takeWhile_nth[of i "\<lambda>c. c \<noteq> 0" s]
    set_takeWhileD[of "s ! i" "\<lambda>c. c \<noteq> 0" s]
  by (simp add: strlen_def)

lemma strlen_le: "strlen s \<le> length s"
  by (simp add: strlen_def length_takeWhile_le)

lemma strlen_pad_password: "strlen (pad_password p) = min 8 (strlen p)"
proof -
  define k where "k = min 8 (strlen p)"
  have "takeWhile (\<lambda>c. c \<noteq> 0) (pad_password p) = take k (pad_password p)"
  proof (rule takeWhile_eq_take_P_nth)
    fix i assume "i < k" "i < length (pad_password p)"
    then show "pad_password p ! i \<noteq> 0" by (simp add: k_def pad_password_def nth_strlen)
  next
    assume "k < length (pad_password p)"
    then show "\<not> pad_password p ! k \<noteq> 0" by (simp add: k_def pad_password_def)
  qed
  then show ?thesis by (simp add: strlen_def k_def)
qed

lemma pad_pad_password [simp]: "pad_password (pad_password p @ [0]) = pad_password p"
  unfolding pad_password_def[of "pad_password p @ [0]"] strlen_append_0 strlen_pad_password
  by (auto simp: pad_password_def nth_append intro!: nth_equalityI)

lemma rfbEncryptBytes_blocks:
  "length bytes = 16 \<Longrightarrow> rfbEncryptBytes bytes p =
     rfbDes (rfbDesKey (pad_password p) EN0) (take 8 bytes) @
     rfbDes (rfbDesKey (pad_password p) EN0) (take 8 (drop 8 bytes))"
  by (simp add: rfbEncryptBytes_def des_at_def Let_def)

lemma length_rfbEncryptBytes: "length bytes = 16 \<Longrightarrow> length (rfbEncryptBytes bytes p) = 16"
  by (simp add: rfbEncryptBytes_blocks)

lemma rfbEncryptBytes_pad: "pad_password p = pad_password q \<Longrightarrow> rfbEncryptBytes c p = rfbEncryptBytes c q"
  by (simp add: rfbEncryptBytes_def)

lemma pad_password_eq_iff:
  "pad_password p = pad_password q \<longleftrightarrow> take 8 (take (strlen p) p) = take 8 (take (strlen q) q)"
    (is "?l \<longleftrightarrow> ?r")
proof
  have len: "length (take 8 (take (strlen s) s)) = min 8 (strlen s)" for s
    using strlen_le[of s] by simp
  have pad: "pad_password s = take 8 (take 8 (take (strlen s) s) @ replicate 8 0)" for s
    by (rule nth_equalityI) (use strlen_le[of s] in \<open>auto simp: pad_password_def nth_append\<close>)
  have unpad: "take 8 (take (strlen s) s) = take (strlen (pad_password s)) (pad_password s)" for s
    by (rule nth_equalityI)
      (use strlen_le[of s] in \<open>simp_all add: strlen_pad_password, simp add: pad_password_def\<close>)
  show "?r" if ?l using that unpad[of p] unpad[of q] by simp
  show "?l" if ?r using that pad[of p] pad[of q] by simp
qed

section \<open>Properties\<close>

text \<open>
  C24: Storing a password and reading it back yields the password's first eight characters,
  padded with zero bytes: the round trip through the file encrypted under the fixed key loses
  nothing else, and the other files are untouched.
\<close>

theorem rfbEncryptAndStorePasswd_roundtrip:
  assumes "writable fname"
    and "rfbEncryptAndStorePasswd writable fs passwd fname = (rc, fs')"
  shows "rc = 0 \<and> rfbDecryptPasswdFromFile fs' fname = Some (pad_password passwd @ [0]) \<and>
    (\<forall>other. other \<noteq> fname \<longrightarrow> fs' other = fs other)"
  using assms
  by (auto simp: rfbEncryptAndStorePasswd_def rfbDecryptPasswdFromFile_def Let_def des_cipher.dec_enc)

theorem rfbEncryptAndStorePasswd_roundtrip_witness:
  "\<exists>fs'. rfbEncryptAndStorePasswd (\<lambda>_. True) (\<lambda>_. None) [115, 101, 99, 114, 101, 116] ''passwd'' = (0, fs') \<and>
     rfbDecryptPasswdFromFile fs' ''passwd'' = Some [115, 101, 99, 114, 101, 116, 0, 0, 0] \<and>
     fs' ''other'' = None"
proof -
  obtain rc fs' where r: "rfbEncryptAndStorePasswd (\<lambda>_. True) (\<lambda>_. None)
      [115, 101, 99, 114, 101, 116] ''passwd'' = (rc, fs')" by fastforce
  have "pad_password [115, 101, 99, 114, 101, 116] = [115, 101, 99, 114, 101, 116, 0, 0]"
    by code_simp
  then show ?thesis
    using rfbEncryptAndStorePasswd_roundtrip[OF _ r] r by simp
qed

text \<open>
  The default check accepts a response exactly when it is the challenge encrypted under the
  password that was stored; it fails when the password file cannot be read.
\<close>

theorem rfbDefaultPasswordCheck_stored:
  assumes "writable fname"
    and "rfbEncryptAndStorePasswd writable fs passwd fname = (rc, fs')"
    and "length (authChallenge cl) = 16" and "length response = 16"
  shows "fst (rfbDefaultPasswordCheck fs' fname cl response 16) \<longleftrightarrow>
    response = rfbEncryptBytes (authChallenge cl) passwd"
proof -
  have "rfbDecryptPasswdFromFile fs' fname = Some (pad_password passwd @ [0])"
    using assms(1,2)
    by (auto simp: rfbEncryptAndStorePasswd_def rfbDecryptPasswdFromFile_def Let_def des_cipher.dec_enc)
  moreover have "rfbEncryptBytes (authChallenge cl) (pad_password passwd @ [0]) =
      rfbEncryptBytes (authChallenge cl) passwd"
    by (rule rfbEncryptBytes_pad) simp
  ultimately show ?thesis
    using assms(3,4)
    by (auto simp: rfbDefaultPasswordCheck_def memcmp_eq_def Let_def length_rfbEncryptBytes)
qed


theorem rfbDefaultPasswordCheck_stored_witness:
  "\<exists>fs' cl. rfbEncryptAndStorePasswd (\<lambda>_. True) (\<lambda>_. None) [120, 121] ''passwd'' = (0, fs') \<and>
     authChallenge cl = map word_of_nat [0..<16] \<and>
     fst (rfbDefaultPasswordCheck fs' ''passwd'' cl
       (rfbEncryptBytes (map word_of_nat [0..<16]) [120, 121]) 16)"
proof -
  obtain rc fs' where r: "rfbEncryptAndStorePasswd (\<lambda>_. True) (\<lambda>_. None) [120, 121] ''passwd'' = (rc, fs')"
    by fastforce
  have rc: "rc = 0" using r by (simp add: rfbEncryptAndStorePasswd_def Let_def)
  define cl :: rfbClientRec where
    "cl = \<lparr>sock = 5, client_state = RFB_AUTHENTICATION, protocolMajorVersion = 3, protocolMinorVersion = 8,
       reverseConnection = False, viewOnly = False, authChallenge = map word_of_nat [0..<16],
       inbuf = [], outbuf = [], write_ok = True, rands = []\<rparr>"
  show ?thesis
    using rfbDefaultPasswordCheck_stored[OF _ r, of cl "rfbEncryptBytes (map word_of_nat [0..<16]) [120, 121]"]
      r rc
    by (intro exI[of _ fs'] exI[of _ cl]) (simp add: cl_def length_rfbEncryptBytes)
qed

lemma check_list_loop_result:
  "fst (check_list_loop v ps i cl response len) \<longleftrightarrow>
     (\<exists>p\<in>set ps. memcmp_eq (rfbEncryptBytes (take CHALLENGESIZE (authChallenge cl)) p) response len)"
  by (induction ps arbitrary: i) (auto simp: Let_def)

lemma check_list_loop_client:
  "snd (check_list_loop v ps i cl response len) = cl \<or>
   snd (check_list_loop v ps i cl response len) = cl\<lparr>viewOnly := True\<rparr>"
  by (induction ps arbitrary: i) (auto simp: Let_def)

lemma check_list_loop_viewOnly:
  "viewOnly (snd (check_list_loop v ps i cl response len)) \<longleftrightarrow>
     viewOnly cl \<or>
     (\<exists>j<length ps. v \<le> i + j \<and>
        memcmp_eq (rfbEncryptBytes (take CHALLENGESIZE (authChallenge cl)) (ps ! j)) response len \<and>
        (\<forall>k<j. \<not> memcmp_eq (rfbEncryptBytes (take CHALLENGESIZE (authChallenge cl)) (ps ! k)) response len))"
proof (induction ps arbitrary: i)
  case (Cons p ps)
  show ?case
  proof (cases "memcmp_eq (rfbEncryptBytes (take CHALLENGESIZE (authChallenge cl)) p) response len")
    case True
    then show ?thesis by (simp add: Let_def Ex_less_Suc2 All_less_Suc2)
  next
    case False
    then show ?thesis
      using Cons.IH[of "i + 1"] by (simp add: Let_def Ex_less_Suc2 All_less_Suc2)
  qed
qed simp

text \<open>
  The check against a list accepts exactly the responses that encrypt the challenge under one
  of the passwords, and it makes the client view-only exactly when the first password that
  matches is at or past the first view-only index; nothing else of the client changes.
\<close>

theorem rfbCheckPasswordByList_spec:
  assumes "length (authChallenge cl) = 16" and "length response = 16"
    and "rfbCheckPasswordByList firstViewOnly passwds cl response 16 = (ok, cl')"
  shows "(ok \<longleftrightarrow> (\<exists>p\<in>set passwds. response = rfbEncryptBytes (authChallenge cl) p)) \<and>
    (viewOnly cl' \<longleftrightarrow> viewOnly cl \<or>
       (\<exists>j<length passwds. firstViewOnly \<le> j \<and> response = rfbEncryptBytes (authChallenge cl) (passwds ! j) \<and>
          (\<forall>k<j. response \<noteq> rfbEncryptBytes (authChallenge cl) (passwds ! k)))) \<and>
    cl'\<lparr>viewOnly := viewOnly cl\<rparr> = cl"
proof -
  have eq: "memcmp_eq (rfbEncryptBytes (take CHALLENGESIZE (authChallenge cl)) p) response 16 \<longleftrightarrow>
      response = rfbEncryptBytes (authChallenge cl) p" for p
    using assms(1,2) by (auto simp: memcmp_eq_def CHALLENGESIZE_def length_rfbEncryptBytes)
  have r: "ok = fst (check_list_loop firstViewOnly passwds 0 cl response 16)"
    "cl' = snd (check_list_loop firstViewOnly passwds 0 cl response 16)"
    using assms(3) by (simp_all add: rfbCheckPasswordByList_def)
  show ?thesis
    using check_list_loop_client[of firstViewOnly passwds 0 cl response 16]
    unfolding r check_list_loop_result check_list_loop_viewOnly eq by auto
qed

theorem rfbCheckPasswordByList_spec_witness:
  "\<exists>cl. authChallenge cl = replicate 16 7 \<and> \<not> viewOnly cl \<and>
     fst (rfbCheckPasswordByList 1 [[97], [98]] cl (rfbEncryptBytes (replicate 16 7) [97]) 16) \<and>
     \<not> viewOnly (snd (rfbCheckPasswordByList 1 [[97], [98]] cl (rfbEncryptBytes (replicate 16 7) [97]) 16))"
proof -
  define cl :: rfbClientRec where
    "cl = \<lparr>sock = 5, client_state = RFB_AUTHENTICATION, protocolMajorVersion = 3, protocolMinorVersion = 8,
       reverseConnection = False, viewOnly = False, authChallenge = replicate 16 7,
       inbuf = [], outbuf = [], write_ok = True, rands = []\<rparr>"
  define response where "response = rfbEncryptBytes (replicate 16 7) [97]"
  obtain ok cl' where r: "rfbCheckPasswordByList 1 [[97], [98]] cl response 16 = (ok, cl')" by fastforce
  have c: "authChallenge cl = replicate 16 7" "\<not> viewOnly cl" by (simp_all add: cl_def)
  have len: "length (authChallenge cl) = 16" "length response = 16"
    by (simp_all add: c response_def length_rfbEncryptBytes)
  have e: "rfbEncryptBytes (authChallenge cl) [97] = response" by (simp add: c response_def)
  note spec = rfbCheckPasswordByList_spec[OF len r]
  have ok by (simp add: spec e)
  have "\<not> (\<exists>j<length [[97], [98 :: uint8_t]]. 1 \<le> j \<and> (\<forall>k<j. response \<noteq> rfbEncryptBytes (authChallenge cl) ([[97], [98]] ! k)))"
    using e by (metis less_one nth_Cons_0 order_less_le_trans zero_less_one)
  then have "\<not> viewOnly cl'" using spec c(2) by blast
  with \<open>ok\<close> r c show ?thesis
    unfolding response_def[symmetric] by (intro exI[of _ cl]) simp
qed

text \<open>
  A password matters only up to its first eight characters, and a response only opens the
  challenge it was computed for: under one password, different challenges never have the same
  response.
\<close>

theorem rfbEncryptBytes_injective:
  assumes "length c = 16" and "length d = 16"
    and "take 8 (take (strlen p) p) = take 8 (take (strlen q) q)"
  shows "rfbEncryptBytes c p = rfbEncryptBytes d q \<longleftrightarrow> c = d"
proof -
  have "pad_password p = pad_password q" using assms(3) by (simp add: pad_password_eq_iff)
  then show ?thesis
    using des_cipher.two_blocks_inj[OF assms(1,2), of "pad_password q"]
    by (auto simp: rfbEncryptBytes_blocks assms(1,2))
qed

theorem rfbEncryptBytes_injective_witness:
  "rfbEncryptBytes (replicate 16 1) [112, 97, 115, 115, 119, 111, 114, 100, 49] \<noteq>
   rfbEncryptBytes (replicate 16 2) [112, 97, 115, 115, 119, 111, 114, 100, 50]"
  using rfbEncryptBytes_injective[of "replicate 16 1" "replicate 16 2"
      "[112, 97, 115, 115, 119, 111, 114, 100, 49]" "[112, 97, 115, 115, 119, 111, 114, 100, 50]"]
  by (simp add: strlen_def)

end
