(* ===== verification/SecHandlers.thy ===== *)
theory SecHandlers
  imports RfbProto "HOL-Library.Monad_Syntax"
begin

text \<open>
  The list of security types of \<open>libvncserver/auth.c\<close>: a singly linked list through the
  \<open>next\<close> fields of the handlers themselves, whose head is the file's static variable
  \<open>securityHandlers\<close>. Loops over it may not end when the links form a cycle, so they are partial
  functions (\<open>None\<close>: the loop does not end); the lemmas show that on a proper chain they do.
\<close>

section \<open>The heap of handlers\<close>

text \<open>The two static handlers of the file, and those an application brings, with their type.\<close>

datatype handler = VncSecurityHandlerVncAuth | VncSecurityHandlerNone | AppSecurityHandler nat uint8_t

fun handler_type :: "handler \<Rightarrow> uint8_t" where
  "handler_type VncSecurityHandlerVncAuth = 2"
| "handler_type VncSecurityHandlerNone = 1"
| "handler_type (AppSecurityHandler n t) = t"

record sec_list =
  securityHandlers :: "handler option"
  handler_next :: "handler \<Rightarrow> handler option"

definition sec_list_init :: sec_list where
  "sec_list_init = \<lparr>securityHandlers = None, handler_next = \<lambda>_. None\<rparr>"

section \<open>Operations\<close>

partial_function (option) find_handler ::
    "(handler \<Rightarrow> handler option) \<Rightarrow> handler option \<Rightarrow> handler \<Rightarrow> bool option" where
  "find_handler nxt head handler =
     (case head of
        None \<Rightarrow> Some False
      | Some h \<Rightarrow> if h = handler then Some True else find_handler nxt (nxt h) handler)"

partial_function (option) rfbRegisterSecurityHandler ::
    "sec_list \<Rightarrow> handler option \<Rightarrow> sec_list option" where
  "rfbRegisterSecurityHandler s handler =
     (case handler of
        None \<Rightarrow> Some s
      | Some h \<Rightarrow>
          (let nxt = handler_next s h in
           do { found \<leftarrow> find_handler (handler_next s) (securityHandlers s) h;
                if found then rfbRegisterSecurityHandler s nxt
                else rfbRegisterSecurityHandler
                  (s\<lparr>handler_next := (handler_next s)(h := securityHandlers s),
                     securityHandlers := Some h\<rparr>) nxt }))"

partial_function (option) unlink_handler ::
    "(handler \<Rightarrow> handler option) \<Rightarrow> handler \<Rightarrow> handler option \<Rightarrow> handler \<Rightarrow> (handler \<Rightarrow> handler option) option"
where
  "unlink_handler nxt pre cur handler =
     (case cur of
        None \<Rightarrow> Some nxt
      | Some c \<Rightarrow>
          if c = handler then Some (nxt(pre := nxt c))
          else unlink_handler nxt c (nxt c) handler)"

partial_function (option) rfbUnregisterSecurityHandler ::
    "sec_list \<Rightarrow> handler option \<Rightarrow> sec_list option" where
  "rfbUnregisterSecurityHandler s handler =
     (case handler of
        None \<Rightarrow> Some s
      | Some h \<Rightarrow>
          if securityHandlers s = Some h
          then (let s = s\<lparr>securityHandlers := handler_next s h\<rparr>
                in rfbUnregisterSecurityHandler s (handler_next s h))
          else
            do { nxt \<leftarrow> (case securityHandlers s of
                           None \<Rightarrow> Some (handler_next s)
                         | Some first \<Rightarrow> unlink_handler (handler_next s) first (Some first) h);
                 (let s = s\<lparr>handler_next := nxt\<rparr>
                  in rfbUnregisterSecurityHandler s (handler_next s h)) })"

text \<open>The lookup of \<open>rfbProcessClientSecurityType\<close>, and the types a client is offered.\<close>

partial_function (option) find_type ::
    "(handler \<Rightarrow> handler option) \<Rightarrow> handler option \<Rightarrow> uint8_t \<Rightarrow> handler option option" where
  "find_type nxt head chosenType =
     (case head of
        None \<Rightarrow> Some None
      | Some h \<Rightarrow> if chosenType = handler_type h then Some (Some h)
                  else find_type nxt (nxt h) chosenType)"

fun offered_types :: "nat \<Rightarrow> (handler \<Rightarrow> handler option) \<Rightarrow> handler option \<Rightarrow> uint8_t list" where
  "offered_types 0 nxt head = []"
| "offered_types (Suc room) nxt None = []"
| "offered_types (Suc room) nxt (Some h) = handler_type h # offered_types room nxt (nxt h)"

section \<open>Chains\<close>

fun chain :: "(handler \<Rightarrow> handler option) \<Rightarrow> handler option \<Rightarrow> handler list \<Rightarrow> bool" where
  "chain nxt head [] \<longleftrightarrow> head = None"
| "chain nxt head (h # hs) \<longleftrightarrow> head = Some h \<and> chain nxt (nxt h) hs"

lemma chain_unique: "chain nxt head xs \<Longrightarrow> chain nxt head ys \<Longrightarrow> xs = ys"
  by (induction xs arbitrary: head ys) (auto elim: chain.elims)

lemma chain_suffix: "chain nxt head (xs @ h # ys) \<Longrightarrow> chain nxt (Some h) (h # ys)"
  by (induction xs arbitrary: head) auto

lemma chain_distinct: "chain nxt head xs \<Longrightarrow> distinct xs"
proof (induction xs arbitrary: head)
  case (Cons h hs)
  then have c: "chain nxt (nxt h) hs" and "distinct hs" by auto
  moreover have "h \<notin> set hs"
  proof
    assume "h \<in> set hs"
    then obtain as bs where "hs = as @ h # bs" by (auto dest: split_list)
    with c have "chain nxt (nxt h) bs" by (auto dest: chain_suffix)
    with chain_unique[OF c] have "hs = bs" by blast
    with \<open>hs = as @ h # bs\<close> show False by (metis append_Cons append_Nil append_same_eq list.distinct(1)
        append.assoc append_is_Nil_conv self_append_conv2)
  qed
  ultimately show ?case by simp
qed simp

lemma chain_upd: "h \<notin> set xs \<Longrightarrow> chain (nxt(h := q)) head xs = chain nxt head xs"
  by (induction xs arbitrary: head) auto

lemma find_handler_chain: "chain nxt head xs \<Longrightarrow> find_handler nxt head h = Some (h \<in> set xs)"
  by (induction xs arbitrary: head) (auto simp: find_handler.simps)

lemma find_type_chain:
  "chain nxt head xs \<Longrightarrow> find_type nxt head t = Some (find (\<lambda>h. t = handler_type h) xs)"
  by (induction xs arbitrary: head) (auto simp: find_type.simps)

lemma offered_types_chain:
  "chain nxt head xs \<Longrightarrow> offered_types room nxt head = map handler_type (take room xs)"
proof (induction xs arbitrary: head room)
  case Nil
  then show ?case by (cases room) auto
next
  case (Cons h hs)
  then show ?case by (cases room) auto
qed

definition registered :: "sec_list \<Rightarrow> handler list \<Rightarrow> bool" where
  "registered s xs \<longleftrightarrow> chain (handler_next s) (securityHandlers s) xs"

lemma registered_init: "registered sec_list_init []"
  by (simp add: registered_def sec_list_init_def)

lemma register_old:
  "registered s xs \<Longrightarrow> chain (handler_next s) link ys \<Longrightarrow> set ys \<subseteq> set xs \<Longrightarrow>
   rfbRegisterSecurityHandler s link = Some s"
  by (induction ys arbitrary: link)
    (auto simp: rfbRegisterSecurityHandler.simps registered_def find_handler_chain Let_def)

lemma register_new:
  "registered s xs \<Longrightarrow> chain (handler_next s) link ys \<Longrightarrow> set ys \<inter> set xs = {} \<Longrightarrow>
   \<exists>s'. rfbRegisterSecurityHandler s link = Some s' \<and> registered s' (rev ys @ xs)"
proof (induction ys arbitrary: link s xs)
  case Nil
  then show ?case by (simp add: rfbRegisterSecurityHandler.simps)
next
  case (Cons h ys)
  define s1 where "s1 = s\<lparr>handler_next := (handler_next s)(h := securityHandlers s), securityHandlers := Some h\<rparr>"
  have link: "link = Some h" and ys: "chain (handler_next s) (handler_next s h) ys"
    and "h \<notin> set xs" "h \<notin> set ys" "set ys \<inter> set xs = {}"
    using Cons.prems chain_distinct[OF Cons.prems(2)] by auto
  then have "registered s1 (h # xs)" "chain (handler_next s1) (handler_next s h) ys"
    "set ys \<inter> set (h # xs) = {}"
    using Cons.prems(1) by (auto simp: s1_def registered_def chain_upd)
  from Cons.IH[OF this]
  obtain s' where "rfbRegisterSecurityHandler s1 (handler_next s h) = Some s'"
    "registered s' (rev ys @ h # xs)" by auto
  moreover have "find_handler (handler_next s) (securityHandlers s) h = Some False"
    using Cons.prems(1) \<open>h \<notin> set xs\<close> by (simp add: registered_def find_handler_chain)
  ultimately show ?case
    by (simp add: link rfbRegisterSecurityHandler.simps[of s] Let_def s1_def)
qed

text \<open>A single handler with a null \<open>next\<close>, or one that is registered already.\<close>

lemma register_one:
  assumes "registered s xs" and "h \<in> set xs \<or> handler_next s h = None"
  shows "\<exists>s'. rfbRegisterSecurityHandler s (Some h) = Some s' \<and>
    registered s' (if h \<in> set xs then xs else h # xs) \<and>
    (\<forall>g. g \<noteq> h \<longrightarrow> handler_next s' g = handler_next s g)"
proof (cases "h \<in> set xs")
  case True
  then obtain as bs where "xs = as @ h # bs" by (auto dest: split_list)
  then have "chain (handler_next s) (Some h) (h # bs)" "set (h # bs) \<subseteq> set xs"
    using assms(1) by (auto simp: registered_def dest: chain_suffix)
  then have "rfbRegisterSecurityHandler s (Some h) = Some s" by (rule register_old[OF assms(1)])
  then show ?thesis using assms(1) True by simp
next
  case False
  then have n: "handler_next s h = None" using assms(2) by simp
  have "find_handler (handler_next s) (securityHandlers s) h = Some False"
    using assms(1) False by (simp add: registered_def find_handler_chain)
  then have "rfbRegisterSecurityHandler s (Some h) =
      Some (s\<lparr>handler_next := (handler_next s)(h := securityHandlers s), securityHandlers := Some h\<rparr>)"
    by (simp add: rfbRegisterSecurityHandler.simps n Let_def)
  then show ?thesis using assms(1) False by (simp add: registered_def chain_upd)
qed

lemma unlink_handler_chain:
  "chain nxt cur (cs @ h # bs) \<Longrightarrow> h \<notin> set cs \<Longrightarrow>
   unlink_handler nxt pre cur h = Some (nxt(last (pre # cs) := nxt h))"
  by (induction cs arbitrary: cur pre) (auto simp: unlink_handler.simps)

lemma chain_unlinked:
  "chain nxt head (as @ h # bs) \<Longrightarrow> as \<noteq> [] \<Longrightarrow> chain (nxt(last as := nxt h)) head (as @ bs)"
proof (induction as arbitrary: head)
  case (Cons a as)
  have "distinct (a # as @ h # bs)" using chain_distinct[OF Cons.prems(1)] by simp
  show ?case
  proof (cases "as = []")
    case True
    then have "chain (nxt(a := nxt h)) (nxt h) bs"
      using Cons.prems(1) \<open>distinct _\<close> by (simp add: chain_upd)
    then show ?thesis using Cons.prems True by (simp add: fun_upd_def)
  next
    case False
    then have "last as \<noteq> a" using \<open>distinct _\<close> by (metis distinct.simps(2) Un_iff last_in_set set_append)
    then show ?thesis using Cons False by auto
  qed
qed simp

lemma unregister_suffix:
  "registered s (as @ bs) \<Longrightarrow> chain (handler_next s) link bs \<Longrightarrow>
   \<exists>s'. rfbUnregisterSecurityHandler s link = Some s' \<and> registered s' as"
proof (induction bs arbitrary: link s)
  case Nil
  then show ?case by (simp add: rfbUnregisterSecurityHandler.simps)
next
  case (Cons h bs)
  have link: "link = Some h" and bs: "chain (handler_next s) (handler_next s h) bs"
    using Cons.prems by auto
  have dist: "distinct (as @ h # bs)"
    using chain_distinct Cons.prems(1) unfolding registered_def by blast
  show ?case
  proof (cases "as = []")
    case True
    then have sh: "securityHandlers s = Some h" using Cons.prems(1) by (simp add: registered_def)
    define s1 where "s1 = s\<lparr>securityHandlers := handler_next s h\<rparr>"
    have "registered s1 (as @ bs)" "chain (handler_next s1) (handler_next s h) bs"
      using bs by (simp_all add: s1_def registered_def True)
    from Cons.IH[OF this] show ?thesis
      by (simp add: link rfbUnregisterSecurityHandler.simps[of s] sh s1_def)
  next
    case False
    then obtain a where sh: "securityHandlers s = Some a" "a \<noteq> h" "hd as = a"
      using Cons.prems(1) dist by (cases as) (auto simp: registered_def)
    define s1 where "s1 = s\<lparr>handler_next := (handler_next s)(last as := handler_next s h)\<rparr>"
    have "unlink_handler (handler_next s) a (Some a) h = Some (handler_next s1)"
      using unlink_handler_chain[of "handler_next s" "Some a" as h bs a] Cons.prems(1) dist False sh(1)
      by (auto simp: registered_def s1_def)
    moreover have r: "registered s1 (as @ bs)"
      using chain_unlinked[of "handler_next s" _ as h bs] Cons.prems(1) False
      by (simp add: registered_def s1_def)
    moreover have "last as \<notin> set (h # bs)" using dist last_in_set[OF False] by auto
    then have n: "handler_next s1 h = handler_next s h"
      and c: "chain (handler_next s1) (handler_next s h) bs"
      using bs by (auto simp: s1_def chain_upd)
    moreover have "s\<lparr>handler_next := handler_next s1\<rparr> = s1" by (simp add: s1_def)
    ultimately have "rfbUnregisterSecurityHandler s link = rfbUnregisterSecurityHandler s1 (handler_next s h)"
      using sh by (simp add: link rfbUnregisterSecurityHandler.simps[of s])
    with Cons.IH[OF r c] show ?thesis by simp
  qed
qed

section \<open>Properties\<close>

text \<open>
  Registering a list of new handlers ends and puts them in front of the registered ones, in
  reverse order; registering one that is there already ends and changes nothing.
\<close>

theorem rfbRegisterSecurityHandler_registers:
  assumes "registered s xs"
  shows "(chain (handler_next s) (Some h) ys \<and> set ys \<inter> set xs = {} \<longrightarrow>
      (\<exists>s'. rfbRegisterSecurityHandler s (Some h) = Some s' \<and> registered s' (rev ys @ xs))) \<and>
    (h \<in> set xs \<longrightarrow> rfbRegisterSecurityHandler s (Some h) = Some s)"
proof (intro conjI impI)
  assume "h \<in> set xs"
  then obtain as bs where "xs = as @ h # bs" by (auto dest: split_list)
  then have "chain (handler_next s) (Some h) (h # bs)" "set (h # bs) \<subseteq> set xs"
    using assms by (auto simp: registered_def dest: chain_suffix)
  then show "rfbRegisterSecurityHandler s (Some h) = Some s" by (rule register_old[OF assms])
qed (use register_new[OF assms] in blast)

theorem rfbRegisterSecurityHandler_registers_witness:
  "\<exists>s'. rfbRegisterSecurityHandler sec_list_init (Some VncSecurityHandlerVncAuth) = Some s' \<and>
     registered s' [VncSecurityHandlerVncAuth]"
  using rfbRegisterSecurityHandler_registers[OF registered_init,
      of VncSecurityHandlerVncAuth "[VncSecurityHandlerVncAuth]"]
  by (simp add: sec_list_init_def)

text \<open>
  C20: Unregistering a registered handler ends, and it takes every handler behind it out of the list
  as well, that is, all those that were registered earlier, because the handlers are linked
  through the very field that \<open>rfbUnregisterSecurityHandler\<close> follows as the caller's list.
\<close>

theorem rfbUnregisterSecurityHandler_truncates:
  assumes "registered s (as @ h # bs)"
  shows "\<exists>s'. rfbUnregisterSecurityHandler s (Some h) = Some s' \<and> registered s' as"
proof -
  have "chain (handler_next s) (Some h) (h # bs)"
    using assms by (auto simp: registered_def dest: chain_suffix)
  with assms show ?thesis by (rule unregister_suffix)
qed

theorem rfbUnregisterSecurityHandler_truncates_witness:
  "\<exists>s. registered s [AppSecurityHandler 0 16, VncSecurityHandlerVncAuth] \<and>
     (\<exists>s'. rfbUnregisterSecurityHandler s (Some (AppSecurityHandler 0 16)) = Some s' \<and> registered s' [])"
proof -
  define s where "s = \<lparr>securityHandlers = Some (AppSecurityHandler 0 16),
    handler_next = (\<lambda>h. if h = AppSecurityHandler 0 16 then Some VncSecurityHandlerVncAuth else None)\<rparr>"
  have "registered s ([] @ AppSecurityHandler 0 16 # [VncSecurityHandlerVncAuth])"
    by (simp add: s_def registered_def)
  then show ?thesis using rfbUnregisterSecurityHandler_truncates[of s "[]"] by auto
qed

end
