(* ===== verification/Auth.thy ===== *)
theory Auth
  imports VncAuth SecHandlers
begin

text \<open>
  The set-up of a connection: \<open>libvncserver/auth.c\<close> and the handshake of
  \<open>libvncserver/rfbserver.c\<close>, from the protocol version to the \<open>RFB_NORMAL\<close> state. Each handler
  takes the client record (and the list of security handlers, where the code reaches for that
  file's static variable) and returns it changed. A handler that walks the handler list returns
  \<open>None\<close> when the walk does not end.
\<close>

section \<open>Reading, writing and closing (\<open>sockets.c\<close>)\<close>

text \<open>
  \<open>rfbReadExact\<close> gives the bytes or nothing (the peer is gone, an error, or no data within the
  time limit); \<open>rfbWriteExact\<close> appends to what was sent, or fails.
\<close>

definition rfbReadExact :: "rfbClientRec \<Rightarrow> nat \<Rightarrow> (uint8_t list \<times> rfbClientRec) option" where
  "rfbReadExact cl len =
     (if sock cl < 0 \<or> length (inbuf cl) < len then None
      else Some (take len (inbuf cl), cl\<lparr>inbuf := drop len (inbuf cl)\<rparr>))"

definition rfbWriteExact :: "rfbClientRec \<Rightarrow> uint8_t list \<Rightarrow> bool \<times> rfbClientRec" where
  "rfbWriteExact cl buf =
     (if write_ok cl \<and> 0 \<le> sock cl then (True, cl\<lparr>outbuf := outbuf cl @ buf\<rparr>) else (False, cl))"

definition rfbCloseClient :: "rfbClientRec \<Rightarrow> rfbClientRec" where
  "rfbCloseClient cl = (if sock cl \<noteq> -1 then cl\<lparr>sock := -1\<rparr> else cl)"

definition rfbClientSendString :: "rfbClientRec \<Rightarrow> uint8_t list \<Rightarrow> rfbClientRec" where
  "rfbClientSendString cl reason =
     (let len = length reason;
          (ok, cl) = rfbWriteExact cl (wire32 (word_of_nat len) @ reason)
      in rfbCloseClient cl)"

definition rfbClientConnFailed :: "rfbClientRec \<Rightarrow> uint8_t list \<Rightarrow> rfbClientRec" where
  "rfbClientConnFailed cl reason =
     (let len = length reason;
          (ok, cl) = rfbWriteExact cl (wire32 rfbConnFailed @ wire32 (word_of_nat len) @ reason)
      in rfbCloseClient cl)"

section \<open>auth.c\<close>

text \<open>The fields of the screen that the handshake reads.\<close>

record rfbScreenAuth =
  has_authPasswdData :: bool
  passwordCheck :: "rfbClientRec \<Rightarrow> uint8_t list \<Rightarrow> nat \<Rightarrow> bool \<times> rfbClientRec"
  neverShared :: bool
  alwaysShared :: bool
  dontDisconnect :: bool
  width :: int
  height :: int
  serverFormat :: rfbPixelFormat
  desktopName :: "uint8_t list"
  screen_major :: int
  screen_minor :: int

definition rfbVncAuthSendChallenge :: "rfbClientRec \<Rightarrow> rfbClientRec" where
  "rfbVncAuthSendChallenge cl =
     (let cl = cl\<lparr>authChallenge := rfbRandomBytes (rands cl), rands := drop CHALLENGESIZE (rands cl)\<rparr>;
          (ok, cl) = rfbWriteExact cl (authChallenge cl)
      in if \<not> ok then rfbCloseClient cl
         else cl\<lparr>client_state := RFB_AUTHENTICATION\<rparr>)"

definition rfbVncAuthNone :: "rfbClientRec \<Rightarrow> rfbClientRec" where
  "rfbVncAuthNone cl =
     (if protocolMajorVersion cl = 3 \<and> protocolMinorVersion cl > 7
      then (let (ok, cl) = rfbWriteExact cl (wire32 rfbVncAuthOK)
            in if \<not> ok then rfbCloseClient cl
               else cl\<lparr>client_state := RFB_INITIALISATION\<rparr>)
      else cl\<lparr>client_state := RFB_INITIALISATION\<rparr>)"

definition MAX_SECURITY_TYPES :: nat where "MAX_SECURITY_TYPES = 255"

definition rfbSendSecurityTypeList ::
    "sec_list \<Rightarrow> rfbClientRec \<Rightarrow> int \<Rightarrow> (sec_list \<times> rfbClientRec) option" where
  "rfbSendSecurityTypeList s cl primaryType =
     do { s \<leftarrow> (if primaryType = rfbSecTypeNone
               then rfbRegisterSecurityHandler s (Some VncSecurityHandlerNone)
               else if primaryType = rfbSecTypeVncAuth
               then rfbRegisterSecurityHandler s (Some VncSecurityHandlerVncAuth)
               else Some s);
          (let types = offered_types (MAX_SECURITY_TYPES - 1) (handler_next s) (securityHandlers s);
               (ok, cl) = rfbWriteExact cl (word_of_nat (length types) # types)
           in if \<not> ok then Some (s, rfbCloseClient cl)
              else if types = []
              then Some (s, rfbClientSendString cl (ascii ''No authentication mode is registered!''))
              else Some (s, cl\<lparr>client_state := RFB_SECURITY_TYPE\<rparr>)) }"

definition rfbSendSecurityType :: "rfbClientRec \<Rightarrow> int \<Rightarrow> rfbClientRec" where
  "rfbSendSecurityType cl securityType =
     (let (ok, cl) = rfbWriteExact cl (wire32 (word_of_int securityType))
      in if \<not> ok then rfbCloseClient cl
         else if securityType = rfbSecTypeNone then cl\<lparr>client_state := RFB_INITIALISATION\<rparr>
         else if securityType = rfbSecTypeVncAuth then rfbVncAuthSendChallenge cl
         else rfbCloseClient cl)"

definition rfbAuthNewClient ::
    "rfbScreenAuth \<Rightarrow> sec_list \<Rightarrow> rfbClientRec \<Rightarrow> (sec_list \<times> rfbClientRec) option" where
  "rfbAuthNewClient screen s cl =
     (let securityType =
            (if \<not> has_authPasswdData screen \<or> reverseConnection cl then rfbSecTypeNone
             else if has_authPasswdData screen then rfbSecTypeVncAuth
             else rfbSecTypeInvalid)
      in if protocolMajorVersion cl = 3 \<and> protocolMinorVersion cl < 7
         then (if securityType = rfbSecTypeInvalid
               then Some (s, rfbClientConnFailed cl
                      (ascii ''Your viewer cannot handle required authentication methods''))
               else Some (s, rfbSendSecurityType cl securityType))
         else rfbSendSecurityTypeList s cl securityType)"

text \<open>\<open>app n\<close> is the handler function an application registered as its \<open>n\<close>-th.\<close>

fun run_handler :: "(nat \<Rightarrow> rfbClientRec \<Rightarrow> rfbClientRec) \<Rightarrow> handler \<Rightarrow> rfbClientRec \<Rightarrow> rfbClientRec" where
  "run_handler app VncSecurityHandlerVncAuth cl = rfbVncAuthSendChallenge cl"
| "run_handler app VncSecurityHandlerNone cl = rfbVncAuthNone cl"
| "run_handler app (AppSecurityHandler n t) cl = app n cl"

definition rfbProcessClientSecurityType ::
    "(nat \<Rightarrow> rfbClientRec \<Rightarrow> rfbClientRec) \<Rightarrow> sec_list \<Rightarrow> rfbClientRec \<Rightarrow> rfbClientRec option" where
  "rfbProcessClientSecurityType app s cl =
     (case rfbReadExact cl 1 of
        None \<Rightarrow> Some (rfbCloseClient cl)
      | Some (buf, cl) \<Rightarrow>
          do { found \<leftarrow> find_type (handler_next s) (securityHandlers s) (buf ! 0);
               (case found of
                  Some handler \<Rightarrow> Some (run_handler app handler cl)
                | None \<Rightarrow> Some (rfbCloseClient cl)) })"

definition rfbAuthProcessClientMessage :: "rfbScreenAuth \<Rightarrow> rfbClientRec \<Rightarrow> rfbClientRec" where
  "rfbAuthProcessClientMessage screen cl =
     (case rfbReadExact cl CHALLENGESIZE of
        None \<Rightarrow> rfbCloseClient cl
      | Some (response, cl) \<Rightarrow>
          (let (accepted, cl) = passwordCheck screen cl response CHALLENGESIZE in
           if \<not> accepted
           then (let (ok, cl) = rfbWriteExact cl (wire32 rfbVncAuthFailed)
                 in if protocolMinorVersion cl > 7
                    then rfbClientSendString cl (ascii ''password check failed!'')
                    else rfbCloseClient cl)
           else (let (ok, cl) = rfbWriteExact cl (wire32 rfbVncAuthOK)
                 in if \<not> ok then rfbCloseClient cl
                    else cl\<lparr>client_state := RFB_INITIALISATION\<rparr>)))"

section \<open>The protocol version (\<open>rfbserver.c\<close>)\<close>

text \<open>\<open>sscanf\<close> with the directives the code uses: a literal, white space, \<open>%03d\<close> and \<open>%1023s\<close>.\<close>

definition isspace :: "uint8_t \<Rightarrow> bool" where
  "isspace c \<longleftrightarrow> c = 32 \<or> (9 \<le> c \<and> c \<le> 13)"

definition isdigit :: "uint8_t \<Rightarrow> bool" where
  "isdigit c \<longleftrightarrow> 48 \<le> c \<and> c \<le> 57"

definition scan_literal :: "uint8_t list \<Rightarrow> uint8_t list \<Rightarrow> uint8_t list option" where
  "scan_literal lit s = (if take (length lit) s = lit then Some (drop (length lit) s) else None)"

definition scan_int :: "nat \<Rightarrow> uint8_t list \<Rightarrow> (int \<times> uint8_t list) option" where
  "scan_int n s =
     (let s = dropWhile isspace s;
          signed = (s \<noteq> [] \<and> (hd s = 43 \<or> hd s = 45));
          neg = (signed \<and> hd s = 45);
          body = (if signed then tl s else s);
          room = (if signed then n - 1 else n);
          digits = takeWhile isdigit (take room body);
          val = foldl (\<lambda>v c. 10 * v + (uint c - 48)) 0 digits
      in if digits = [] then None
         else Some (if neg then - val else val, drop (length digits) body))"

definition scan_version :: "uint8_t list \<Rightarrow> (int \<times> int \<times> uint8_t list) option" where
  "scan_version pv =
     do { s \<leftarrow> scan_literal (ascii ''RFB'') pv;
          (major, s) \<leftarrow> scan_int 3 (dropWhile isspace s);
          s \<leftarrow> scan_literal (ascii ''.'') s;
          (minor, s) \<leftarrow> scan_int 3 s;
          Some (major, minor, s) }"

definition scan_version_name :: "uint8_t list \<Rightarrow> (int \<times> int \<times> uint8_t list) option" where
  "scan_version_name pv =
     do { (major, minor, s) \<leftarrow> scan_version pv;
          (let s = dropWhile isspace s;
               name = takeWhile (\<lambda>c. \<not> isspace c \<and> c \<noteq> 0) (take 1023 s)
           in if name = [] then None else Some (major, minor, name)) }"

definition rfbProcessClientProtocolVersion ::
    "rfbScreenAuth \<Rightarrow> sec_list \<Rightarrow> rfbClientRec \<Rightarrow> (sec_list \<times> rfbClientRec) option" where
  "rfbProcessClientProtocolVersion screen s cl =
     (case rfbReadExact cl sz_rfbProtocolVersionMsg of
        None \<Rightarrow> Some (s, rfbCloseClient cl)
      | Some (pv, cl) \<Rightarrow>
          (let pv = pv @ [0];
               version = (case scan_version pv of
                            Some (major, minor, rest) \<Rightarrow> Some (major, minor)
                          | None \<Rightarrow> (case scan_version_name pv of
                                       Some (major, minor, name) \<Rightarrow> Some (major, minor)
                                     | None \<Rightarrow> None))
           in case version of
                None \<Rightarrow> Some (s, rfbCloseClient cl)
              | Some (major, minor) \<Rightarrow>
                  if major \<noteq> rfbProtocolMajorVersion then Some (s, rfbCloseClient cl)
                  else rfbAuthNewClient screen s
                         (cl\<lparr>protocolMajorVersion := major, protocolMinorVersion := minor\<rparr>)))"

definition rfbSetProtocolVersion :: "rfbScreenAuth \<Rightarrow> int \<Rightarrow> int \<Rightarrow> rfbScreenAuth" where
  "rfbSetProtocolVersion screen major minor =
     (if major = 3 \<and> (minor > 2 \<and> minor < 9)
      then screen\<lparr>screen_major := major, screen_minor := minor\<rparr> else screen)"

section \<open>The server and its clients\<close>

text \<open>
  The clients are the list at \<open>screen->clientHead\<close>, each with the number its connection got. The
  iterator of \<open>rfbserver.c\<close> passes over the clients whose socket is closed.
\<close>

record rfbServer =
  sec :: sec_list
  screen :: rfbScreenAuth
  clients :: "(nat \<times> rfbClientRec) list"

definition serverInit_bytes :: "rfbScreenAuth \<Rightarrow> uint8_t list" where
  "serverInit_bytes scr =
     (let name = take 127 (take (strlen (desktopName scr)) (desktopName scr))
      in wire16 (word_of_int (width scr)) @ wire16 (word_of_int (height scr)) @
         wire_format (serverFormat scr) @ wire32 (word_of_nat (length name)) @ name)"

definition update_client :: "nat \<Rightarrow> rfbClientRec \<Rightarrow> (nat \<times> rfbClientRec) list \<Rightarrow> (nat \<times> rfbClientRec) list" where
  "update_client i cl cls = map (\<lambda>(j, c). (j, if j = i then cl else c)) cls"

definition other_session :: "nat \<Rightarrow> nat \<times> rfbClientRec \<Rightarrow> bool" where
  "other_session i jc \<longleftrightarrow> 0 \<le> sock (snd jc) \<and> fst jc \<noteq> i \<and> client_state (snd jc) = RFB_NORMAL"

definition rfbProcessClientInitMessage :: "rfbServer \<Rightarrow> nat \<Rightarrow> rfbClientRec \<Rightarrow> rfbServer" where
  "rfbProcessClientInitMessage srv i cl =
     (case rfbReadExact cl sz_rfbClientInitMsg of
        None \<Rightarrow> srv\<lparr>clients := update_client i (rfbCloseClient cl) (clients srv)\<rparr>
      | Some (buf, cl) \<Rightarrow>
          (let shared = buf ! 0 \<noteq> 0;
               (ok, cl) = rfbWriteExact cl (serverInit_bytes (screen srv))
           in if \<not> ok then srv\<lparr>clients := update_client i (rfbCloseClient cl) (clients srv)\<rparr>
              else
                (let cl = cl\<lparr>client_state := RFB_NORMAL\<rparr>;
                     cls = update_client i cl (clients srv)
                 in if \<not> reverseConnection cl \<and>
                       (neverShared (screen srv) \<or> (\<not> alwaysShared (screen srv) \<and> \<not> shared))
                    then (if dontDisconnect (screen srv)
                          then (if \<exists>jc\<in>set cls. other_session i jc
                                then srv\<lparr>clients := update_client i (rfbCloseClient cl) cls\<rparr>
                                else srv\<lparr>clients := cls\<rparr>)
                          else srv\<lparr>clients :=
                                 map (\<lambda>jc. if other_session i jc then (fst jc, rfbCloseClient (snd jc)) else jc) cls\<rparr>)
                    else srv\<lparr>clients := cls\<rparr>)))"

definition set_client :: "rfbServer \<Rightarrow> nat \<Rightarrow> sec_list \<times> rfbClientRec \<Rightarrow> rfbServer" where
  "set_client srv i scl = srv\<lparr>sec := fst scl, clients := update_client i (snd scl) (clients srv)\<rparr>"

text \<open>\<open>normal\<close> stands for \<open>rfbProcessClientNormalMessage\<close>, which serves an open session.\<close>

definition rfbProcessClientMessage ::
    "(nat \<Rightarrow> rfbClientRec \<Rightarrow> rfbClientRec) \<Rightarrow> (rfbClientRec \<Rightarrow> rfbClientRec) \<Rightarrow>
     rfbServer \<Rightarrow> nat \<Rightarrow> rfbClientRec \<Rightarrow> rfbServer option" where
  "rfbProcessClientMessage app normal srv i cl =
     (case client_state cl of
        RFB_PROTOCOL_VERSION \<Rightarrow>
          map_option (set_client srv i) (rfbProcessClientProtocolVersion (screen srv) (sec srv) cl)
      | RFB_SECURITY_TYPE \<Rightarrow>
          map_option (\<lambda>cl. set_client srv i (sec srv, cl)) (rfbProcessClientSecurityType app (sec srv) cl)
      | RFB_AUTHENTICATION \<Rightarrow>
          Some (set_client srv i (sec srv, rfbAuthProcessClientMessage (screen srv) cl))
      | RFB_INITIALISATION \<Rightarrow> Some (rfbProcessClientInitMessage srv i cl)
      | RFB_NORMAL \<Rightarrow> Some (set_client srv i (sec srv, normal cl)))"

text \<open>A new connection, inbound or (with \<open>reverse\<close>) opened by the server.\<close>

definition banner :: "rfbScreenAuth \<Rightarrow> uint8_t list" where
  "banner scr =
     (let digits = (\<lambda>n. map (\<lambda>d. word_of_int (48 + d)) [n div 100 mod 10, n div 10 mod 10, n mod 10])
      in ascii ''RFB '' @ digits (screen_major scr) @ ascii ''.'' @ digits (screen_minor scr) @ [10])"

definition rfbNewClient :: "rfbServer \<Rightarrow> nat \<Rightarrow> int \<Rightarrow> bool \<Rightarrow> bool \<Rightarrow> rfbServer" where
  "rfbNewClient srv i fd can_write reverse =
     (let cl = \<lparr>sock = fd, client_state = RFB_PROTOCOL_VERSION, protocolMajorVersion = 0,
                protocolMinorVersion = 0, reverseConnection = False, viewOnly = False,
                authChallenge = replicate CHALLENGESIZE 0, inbuf = [], outbuf = [],
                write_ok = can_write, rands = []\<rparr>;
          (ok, cl) = rfbWriteExact cl (banner (screen srv))
      in if \<not> ok then srv
         else srv\<lparr>clients := (i, cl\<lparr>reverseConnection := reverse\<rparr>) # clients srv\<rparr>)"

end
