(* ===== verification/Subrects.thy ===== *)
theory Subrects
  imports RfbProto
begin

text \<open>
  What the RRE, CoRRE and Hextile encoders (\<open>libvncserver/rre.c\<close>, \<open>corre.c\<close>, \<open>hextile.c\<close>) and the
  decoders of \<open>libvncclient\<close> share: pixels as bytes, filling a rectangle of a pixel array, and the
  search for a one-coloured subrectangle. The C macros are instantiated for \<open>uint8_t\<close>,
  \<open>uint16_t\<close> and \<open>uint32_t\<close>; the definitions are polymorphic in the width of a pixel instead. The
  host is little-endian.
\<close>

section \<open>Pixels\<close>

definition pixel_size :: "'a::len itself \<Rightarrow> nat" where
  "pixel_size T = LENGTH('a) div 8"

definition pixel_bytes :: "'a::len word \<Rightarrow> uint8_t list" where
  "pixel_bytes p = map (\<lambda>i. ucast (drop_bit (8 * i) p)) [0..<pixel_size TYPE('a)]"

definition pixel_of :: "uint8_t list \<Rightarrow> 'a::len word" where
  "pixel_of bs = foldr (\<lambda>b acc. ucast b OR push_bit 8 acc) bs 0"

text \<open>Only whole numbers of bytes are pixel sizes.\<close>

abbreviation whole_bytes :: "'a::len itself \<Rightarrow> bool" where
  "whole_bytes T \<equiv> 8 dvd LENGTH('a)"

lemma length_pixel_bytes [simp]: "length (pixel_bytes (p :: 'a::len word)) = pixel_size TYPE('a)"
  by (simp add: pixel_bytes_def)

lemma bit_pixel_of:
  "bit (pixel_of bs :: 'a::len word) n \<longleftrightarrow>
     n < LENGTH('a) \<and> n div 8 < length bs \<and> bit (bs ! (n div 8)) (n mod 8)"
proof (induction bs arbitrary: n)
  case Nil
  then show ?case by (simp add: pixel_of_def)
next
  case (Cons b bs)
  have e: "pixel_of (b # bs) = (ucast b OR push_bit 8 (pixel_of bs) :: 'a word)"
    by (simp add: pixel_of_def)
  show ?case
  proof (cases "n < 8")
    case True
    then show ?thesis by (auto simp: e bit_simps)
  next
    case False
    then have "n div 8 = Suc ((n - 8) div 8)" "n mod 8 = (n - 8) mod 8"
      by (simp_all add: div_if[of n] mod_if[of n])
    moreover have "\<not> bit b n" using False bit_imp_le_length[of b n] by auto
    ultimately show ?thesis using False Cons.IH[of "n - 8"] by (auto simp: e bit_simps)
  qed
qed

lemma pixel_of_bytes [simp]:
  "whole_bytes TYPE('a) \<Longrightarrow> pixel_of (pixel_bytes (p :: 'a::len word)) = p"
proof (rule bit_word_eqI)
  fix n assume w: "whole_bytes TYPE('a)" and n: "n < LENGTH('a)"
  then have "n div 8 < LENGTH('a) div 8" by (auto elim!: dvdE)
  then show "bit (pixel_of (pixel_bytes p) :: 'a word) n = bit p n"
    using n by (simp add: bit_pixel_of pixel_bytes_def pixel_size_def bit_simps)
qed

text \<open>Pixels one after the other.\<close>

lemma length_chunks: "length (concat (map (\<lambda>p. pixel_bytes (tr p :: 'c::len word)) ps)) = length ps * pixel_size TYPE('c)"
  by (simp add: length_concat comp_def sum_list_triv)

lemma chunks_of_pixels:
  "i < length ps \<Longrightarrow>
   take (pixel_size TYPE('c)) (drop (i * pixel_size TYPE('c)) (concat (map pixel_bytes (ps :: 'c::len word list)))) =
   pixel_bytes (ps ! i)"
proof (induction ps arbitrary: i)
  case (Cons p ps)
  then show ?case by (cases i) (simp_all add: add.commute flip: drop_drop)
qed simp

lemma take_chunks:
  "take (k * pixel_size TYPE('c)) (concat (map pixel_bytes (ps :: 'c::len word list))) = concat (map pixel_bytes (take k ps))"
  "drop (k * pixel_size TYPE('c)) (concat (map pixel_bytes (ps :: 'c::len word list))) = concat (map pixel_bytes (drop k ps))"
proof (induction ps arbitrary: k)
  case (Cons p ps)
  { case 1 show ?case by (cases k) (simp_all add: Cons add.commute[of _ "pixel_size TYPE('c)"]) }
  { case 2 show ?case by (cases k) (simp_all add: Cons add.commute[of _ "pixel_size TYPE('c)"]) }
qed simp_all

lemma unchunk:
  fixes ps :: "'c::len word list"
  assumes "8 dvd LENGTH('c)" and "length ps = n"
  shows "map (\<lambda>i. pixel_of (take (pixel_size TYPE('c)) (drop (i * pixel_size TYPE('c)) (concat (map pixel_bytes ps))))) [0..<n] = ps"
  using assms chunks_of_pixels[of _ ps] by (intro nth_equalityI) simp_all

section \<open>Filling rectangles\<close>

definition fill :: "nat \<Rightarrow> 'p \<Rightarrow> nat \<Rightarrow> nat \<Rightarrow> nat \<Rightarrow> nat \<Rightarrow> 'p list \<Rightarrow> 'p list" where
  "fill width c x y w h data =
     fold (\<lambda>j. fold (\<lambda>i d. d[j * width + i := c]) [x..<x + w]) [y..<y + h] data"

definition in_rect :: "nat \<Rightarrow> nat \<Rightarrow> nat \<Rightarrow> nat \<Rightarrow> nat \<Rightarrow> nat \<Rightarrow> bool" where
  "in_rect x y w h px py \<longleftrightarrow> x \<le> px \<and> px < x + w \<and> y \<le> py \<and> py < y + h"

lemma nth_fold_update:
  "k < length d \<Longrightarrow> fold (\<lambda>i d. d[f i := c]) is d ! k = (if k \<in> f ` set is then c else d ! k)"
  by (induction "is" arbitrary: d) (auto simp: nth_list_update)

lemma length_fold_update [simp]: "length (fold (\<lambda>i d. d[f i := c]) is d) = length d"
  by (induction "is" arbitrary: d) auto

lemma length_fold_rows [simp]:
  "length (fold (\<lambda>j. fold (\<lambda>i d. d[j * width + i := c]) is) js d) = length d"
  by (induction js arbitrary: d) auto

lemma length_fill [simp]: "length (fill width c x y w h d) = length d"
  by (simp add: fill_def)

lemma nth_fold_rows:
  "k < length d \<Longrightarrow> fold (\<lambda>j. fold (\<lambda>i d. d[j * width + i := c]) is) js d ! k =
     (if \<exists>j\<in>set js. \<exists>i\<in>set is. k = j * width + i then c else d ! k)"
proof (induction js arbitrary: d)
  case (Cons j js)
  have row: "fold (\<lambda>i d. d[j * width + i := c]) is d ! k = (if \<exists>i\<in>set is. k = j * width + i then c else d ! k)"
    using nth_fold_update[OF Cons.prems, of "\<lambda>i. j * width + i" c "is"] by (simp only: image_iff)
  have "fold (\<lambda>j. fold (\<lambda>i d. d[j * width + i := c]) is) js (fold (\<lambda>i d. d[j * width + i := c]) is d) ! k =
      (if \<exists>j\<in>set js. \<exists>i\<in>set is. k = j * width + i then c else fold (\<lambda>i d. d[j * width + i := c]) is d ! k)"
    using Cons.prems by (intro Cons.IH) simp
  then show ?case unfolding row by (simp only: fold_Cons comp_apply list.set bex_simps) (simp split: if_split)
qed simp

lemma row_col_unique:
  fixes px py i j W :: nat
  assumes "px < W" and "i < W" and "py * W + px = j * W + i"
  shows "j = py" and "i = px"
proof -
  have "(py * W + px) div W = py" "(j * W + i) div W = j"
    "(py * W + px) mod W = px" "(j * W + i) mod W = i"
    using assms(1,2) by simp_all
  then show "j = py" "i = px" using assms(3) by metis+
qed

lemma nth_fill:
  assumes "px < width" and "x + w \<le> width" and "py * width + px < length d"
  shows "fill width c x y w h d ! (py * width + px) =
    (if in_rect x y w h px py then c else d ! (py * width + px))"
proof -
  have "(\<exists>j\<in>set [y..<y + h]. \<exists>i\<in>set [x..<x + w]. py * width + px = j * width + i) \<longleftrightarrow> in_rect x y w h px py"
    (is "?l \<longleftrightarrow> ?r")
  proof
    assume ?l
    then obtain j i where "y \<le> j" "j < y + h" "x \<le> i" "i < x + w" "py * width + px = j * width + i" by auto
    moreover from this have "j = py" "i = px" using row_col_unique[OF assms(1), of i py j] assms(2) by simp_all
    ultimately show ?r by (simp add: in_rect_def)
  next
    assume ?r
    then show ?l by (intro bexI[of _ py] bexI[of _ px]) (simp_all add: in_rect_def)
  qed
  then show ?thesis unfolding fill_def nth_fold_rows[OF assms(3)] by simp
qed

section \<open>The search for a subrectangle\<close>

text \<open>\<open>while ((seg[i] == cl) && (i < w)) i += 1;\<close> on a row.\<close>

function run_end :: "'p list \<Rightarrow> nat \<Rightarrow> nat \<Rightarrow> 'p \<Rightarrow> nat \<Rightarrow> nat" where
  "run_end data w j c i =
     (if i < w \<and> data ! (j * w + i) = c then run_end data w j c (i + 1) else i)"
  by pat_completeness auto
termination by (relation "measure (\<lambda>(data, w, j, c, i). w - i)") auto

declare run_end.simps [simp del]

text \<open>
  The loop over the rows \<open>j\<close>. It keeps \<open>hx\<close> and \<open>vx\<close>, the count \<open>hh\<close> of the rows below \<open>hy\<close>
  (\<open>hh = hy - y + 1\<close>) and \<open>hyflag\<close>, and returns \<open>hx\<close>, \<open>hh\<close>, \<open>vx\<close> and the row where it stopped.
\<close>

function scan_rows ::
    "'p list \<Rightarrow> nat \<Rightarrow> nat \<Rightarrow> 'p \<Rightarrow> nat \<Rightarrow> nat \<Rightarrow> nat \<Rightarrow> nat \<Rightarrow> nat \<Rightarrow> nat \<Rightarrow> bool \<Rightarrow>
     nat \<times> nat \<times> nat \<times> nat" where
  "scan_rows data w h c x y j hx hh vx hyflag =
     (if j < h \<and> data ! (j * w + x) = c
      then (let i = run_end data w j c x - 1;
                hx = (if j = y then i else hx);
                vx = (if j = y then i else vx);
                vx = (if i < vx then i else vx);
                (hh, hyflag) = (if hyflag \<and> hx \<le> i then (hh + 1, hyflag) else (hh, False))
            in scan_rows data w h c x y (j + 1) hx hh vx hyflag)
      else (hx, hh, vx, j))"
  by pat_completeness auto
termination by (relation "measure (\<lambda>(data, w, h, c, x, y, j, hx, hh, vx, f). h - j)") auto

declare scan_rows.simps [simp del]

text \<open>The bigger of the two candidates, as width and height.\<close>

definition choose_subrect :: "'p list \<Rightarrow> nat \<Rightarrow> nat \<Rightarrow> nat \<Rightarrow> nat \<Rightarrow> nat \<times> nat" where
  "choose_subrect data w h x y =
     (let cl = data ! (y * w + x);
          (hx, hh, vx, j) = scan_rows data w h cl x y y 0 0 0 True;
          hw = hx - x + 1; vw = vx - x + 1; vh = j - y
      in if vw * vh < hw * hh then (hw, hh) else (vw, vh))"

section \<open>The subrectangle has one colour\<close>

lemma run_end_ge: "i \<le> run_end data w j c i"
proof (induction data w j c i rule: run_end.induct)
  case (1 data w j c i)
  then show ?case by (subst run_end.simps) auto
qed

lemma run_end_le: "i \<le> w \<Longrightarrow> run_end data w j c i \<le> w"
proof (induction data w j c i rule: run_end.induct)
  case (1 data w j c i)
  then show ?case by (subst run_end.simps) auto
qed

lemma run_end_run: "i \<le> k \<Longrightarrow> k < run_end data w j c i \<Longrightarrow> data ! (j * w + k) = c"
proof (induction data w j c i rule: run_end.induct)
  case (1 data w j c i)
  show ?case
  proof (cases "i < w \<and> data ! (j * w + i) = c")
    case True
    then show ?thesis using 1 run_end.simps[of data w j c i] by (cases "k = i") auto
  next
    case False
    then have "run_end data w j c i = i" by (subst run_end.simps) auto
    then show ?thesis using 1 by simp
  qed
qed

lemma run_end_gt: "i < w \<Longrightarrow> data ! (j * w + i) = c \<Longrightarrow> i < run_end data w j c i"
  using run_end_ge[of "i + 1" data w j c] by (subst run_end.simps) auto

text \<open>What holds of the two candidates before row \<open>j\<close> is looked at.\<close>

definition candidates_ok ::
    "'p list \<Rightarrow> nat \<Rightarrow> 'p \<Rightarrow> nat \<Rightarrow> nat \<Rightarrow> nat \<Rightarrow> nat \<Rightarrow> nat \<Rightarrow> nat \<Rightarrow> bool" where
  "candidates_ok data w c x y j hx hh vx \<longleftrightarrow>
     y < j \<longrightarrow> x \<le> hx \<and> hx < w \<and> x \<le> vx \<and> vx < w \<and> 1 \<le> hh \<and> hh \<le> j - y \<and>
     (\<forall>r k. y \<le> r \<and> r < y + hh \<and> x \<le> k \<and> k \<le> hx \<longrightarrow> data ! (r * w + k) = c) \<and>
     (\<forall>r k. y \<le> r \<and> r < j \<and> x \<le> k \<and> k \<le> vx \<longrightarrow> data ! (r * w + k) = c)"

lemma scan_rows_ok:
  assumes "scan_rows data w h c x y j hx hh vx hyflag = (hx', hh', vx', j')"
    and "x < w" and "y \<le> j" and "j \<le> h"
    and "candidates_ok data w c x y j hx hh vx" and "hyflag \<longrightarrow> hh = j - y" and "j = y \<longrightarrow> hyflag"
  shows "candidates_ok data w c x y j' hx' hh' vx' \<and> j \<le> j' \<and> j' \<le> h \<and>
    (j < h \<and> data ! (j * w + x) = c \<longrightarrow> j < j')"
  using assms
proof (induction data w h c x y j hx hh vx hyflag arbitrary: hx' hh' vx' j' rule: scan_rows.induct)
  case (1 data w h c x y j hx hh vx hyflag)
  show ?case
  proof (cases "j < h \<and> data ! (j * w + x) = c")
    case False
    then have "(hx', hh', vx', j') = (hx, hh, vx, j)"
      using "1.prems"(1) by (subst (asm) scan_rows.simps) auto
    then show ?thesis using "1.prems" False by auto
  next
    case True
    define i where "i = run_end data w j c x - 1"
    define hx1 where "hx1 = (if j = y then i else hx)"
    define vy where "vy = (if j = y then i else vx)"
    define vx1 where "vx1 = (if i < vy then i else vy)"
    define hh1 where "hh1 = (if hyflag \<and> hx1 \<le> i then hh + 1 else hh)"
    define f1 where "f1 = (hyflag \<and> hx1 \<le> i)"
    have p1: "(hh1, f1) = (if hyflag \<and> hx1 \<le> i then (hh + 1, hyflag) else (hh, False))"
      by (simp add: hh1_def f1_def)
    have i: "x \<le> i" "i < w" and run: "\<And>k. x \<le> k \<Longrightarrow> k \<le> i \<Longrightarrow> data ! (j * w + k) = c"
      using run_end_gt[of x w data j c] run_end_le[of x w data j c] run_end_run[of x _ data w j c]
        True "1.prems"(2) by (auto simp: i_def)
    have "scan_rows data w h c x y j hx hh vx hyflag = scan_rows data w h c x y (j + 1) hx1 hh1 vx1 f1"
      by (subst scan_rows.simps)
        (simp only: True if_True Let_def simp_thms i_def[symmetric] hx1_def[symmetric] vy_def[symmetric]
          vx1_def[symmetric] p1[symmetric] prod.case)
    then have e: "scan_rows data w h c x y (j + 1) hx1 hh1 vx1 f1 = (hx', hh', vx', j')"
      using "1.prems"(1) by simp
    have ok: "candidates_ok data w c x y (j + 1) hx1 hh1 vx1"
    proof (cases "j = y")
      case True
      then show ?thesis
        using "1.prems"(6,7) i run unfolding candidates_ok_def hx1_def vx1_def vy_def hh1_def
        by (auto simp: le_less_Suc_eq)
    next
      case False
      then have "y < j" using "1.prems"(3) by simp
      then show ?thesis
        using "1.prems"(5,6) i run unfolding candidates_ok_def hx1_def vx1_def vy_def hh1_def
        by (auto simp: less_Suc_eq)
    qed
    have "f1 \<longrightarrow> hh1 = j + 1 - y" "j + 1 = y \<longrightarrow> f1"
      using "1.prems"(3,6) by (auto simp: f1_def hh1_def)
    from 1(1)[OF True i_def hx1_def vy_def vx1_def refl p1 e "1.prems"(2) _ _ ok this] "1.prems"(3) True
    show ?thesis by simp
  qed
qed

lemma choose_subrect_ok:
  assumes "choose_subrect data w h x y = (tw, th)" and "x < w" and "y < h"
  shows "1 \<le> tw" "x + tw \<le> w" "1 \<le> th" "y + th \<le> h"
    "\<And>px py. in_rect x y tw th px py \<Longrightarrow> data ! (py * w + px) = data ! (y * w + x)"
proof -
  define cl where "cl = data ! (y * w + x)"
  obtain hx hh vx j where s: "scan_rows data w h cl x y y 0 0 0 True = (hx, hh, vx, j)"
    by (metis prod_cases4)
  have "candidates_ok data w cl x y y 0 0 0" by (simp add: candidates_ok_def)
  with scan_rows_ok[OF s] assms(2,3)
  have ok: "candidates_ok data w cl x y j hx hh vx" "y < j" "j \<le> h" by (simp_all add: cl_def)
  then have c: "x \<le> hx" "hx < w" "x \<le> vx" "vx < w" "1 \<le> hh" "hh \<le> j - y"
    and h: "\<And>r k. y \<le> r \<Longrightarrow> r < y + hh \<Longrightarrow> x \<le> k \<Longrightarrow> k \<le> hx \<Longrightarrow> data ! (r * w + k) = cl"
    and v: "\<And>r k. y \<le> r \<Longrightarrow> r < j \<Longrightarrow> x \<le> k \<Longrightarrow> k \<le> vx \<Longrightarrow> data ! (r * w + k) = cl"
    unfolding candidates_ok_def by blast+
  have d: "(tw, th) = (hx - x + 1, hh) \<or> (tw, th) = (vx - x + 1, j - y)"
    using assms(1) s unfolding choose_subrect_def cl_def[symmetric] by (simp add: Let_def split: if_splits)
  then show "1 \<le> tw" "x + tw \<le> w" "1 \<le> th" "y + th \<le> h" using c ok(2,3) by auto
  show "data ! (py * w + px) = data ! (y * w + x)" if "in_rect x y tw th px py" for px py
    using d that c ok(2) h[of py px] v[of py px] unfolding cl_def in_rect_def by auto
qed

section \<open>The encoding loop\<close>

text \<open>
  \<open>for (y ...) for (x ...)\<close> of \<open>subrectEncode\<close>, over the positions that are left. \<open>put\<close> writes the
  four numbers of a subrectangle in \<open>sz\<close> bytes; the loop gives up (\<open>None\<close>) when the encoding gets
  longer than the raw data or than the buffer.
\<close>

definition positions :: "nat \<Rightarrow> nat \<Rightarrow> (nat \<times> nat) list" where
  "positions w h = concat (map (\<lambda>y. map (\<lambda>x. (x, y)) [0..<w]) [0..<h])"

type_synonym rect4 = "nat \<times> nat \<times> nat \<times> nat"

fun encode_loop ::
    "(rect4 \<Rightarrow> uint8_t list) \<Rightarrow> nat \<Rightarrow> nat \<Rightarrow> nat \<Rightarrow> 'a::len word \<Rightarrow> nat \<Rightarrow> nat \<Rightarrow> (nat \<times> nat) list \<Rightarrow>
     'a word list \<Rightarrow> nat \<Rightarrow> uint8_t list \<Rightarrow> (nat \<times> uint8_t list) option" where
  "encode_loop put sz rawLen bufSize bg w h [] data numsubs buf = Some (numsubs, buf)"
| "encode_loop put sz rawLen bufSize bg w h ((x, y) # ps) data numsubs buf =
     (if data ! (y * w + x) \<noteq> bg
      then (let cl = data ! (y * w + x);
                (thew, theh) = choose_subrect data w h x y;
                newLen = length buf + pixel_size TYPE('a) + sz
            in if rawLen < newLen \<or> bufSize < newLen then None
               else encode_loop put sz rawLen bufSize bg w h ps
                      (fill w bg x y thew theh data) (numsubs + 1)
                      (buf @ pixel_bytes cl @ put (x, y, thew, theh)))
      else encode_loop put sz rawLen bufSize bg w h ps data numsubs buf)"

section \<open>What the subrectangles paint\<close>

type_synonym 'p subrect = "'p \<times> rect4"

definition paint1 :: "'p subrect \<Rightarrow> (nat \<Rightarrow> nat \<Rightarrow> 'p) \<Rightarrow> nat \<Rightarrow> nat \<Rightarrow> 'p" where
  "paint1 s f = (\<lambda>px py. case s of (c, x, y, w, h) \<Rightarrow> if in_rect x y w h px py then c else f px py)"

definition paint :: "'p subrect list \<Rightarrow> (nat \<Rightarrow> nat \<Rightarrow> 'p) \<Rightarrow> nat \<Rightarrow> nat \<Rightarrow> 'p" where
  "paint subs f = fold paint1 subs f"

lemma paint_simps [simp]:
  "paint [] f = f" "paint (s # subs) f = paint subs (paint1 s f)"
  by (simp_all add: paint_def)

definition subrect_bytes :: "(rect4 \<Rightarrow> uint8_t list) \<Rightarrow> 'a::len word subrect \<Rightarrow> uint8_t list" where
  "subrect_bytes put s = pixel_bytes (fst s) @ put (snd s)"

definition inside :: "nat \<Rightarrow> nat \<Rightarrow> 'p subrect \<Rightarrow> bool" where
  "inside w h s = (case s of (c, x, y, sw, sh) \<Rightarrow> x + sw \<le> w \<and> y + sh \<le> h \<and> 1 \<le> sw \<and> 1 \<le> sh)"

text \<open>
  Every pixel is either painted already, and marked with the background in the working copy, or
  shows the background on the canvas and has its own colour in the working copy.
\<close>

definition painted_so_far ::
    "'p \<Rightarrow> nat \<Rightarrow> nat \<Rightarrow> (nat \<Rightarrow> nat \<Rightarrow> 'p) \<Rightarrow> 'p list \<Rightarrow> (nat \<Rightarrow> nat \<Rightarrow> 'p) \<Rightarrow> bool" where
  "painted_so_far bg w h orig data f \<longleftrightarrow> length data = w * h \<and>
     (\<forall>px<w. \<forall>py<h. (f px py = orig px py \<and> data ! (py * w + px) = bg) \<or>
        (f px py = bg \<and> data ! (py * w + px) = orig px py))"

lemma index_less: "px < w \<Longrightarrow> py < h \<Longrightarrow> py * w + px < w * (h :: nat)"
proof -
  assume "px < w" "py < h"
  then have "py * w + px < Suc py * w" by simp
  also have "\<dots> \<le> h * w" using \<open>py < h\<close> by (intro mult_le_mono1) simp
  finally show ?thesis by (simp add: mult.commute)
qed

lemma painted_step:
  assumes "painted_so_far bg w h orig data f" and "x < w" and "y < h"
    and "data ! (y * w + x) \<noteq> bg" and "choose_subrect data w h x y = (tw, th)"
  shows "painted_so_far bg w h orig (fill w bg x y tw th data) (paint1 (data ! (y * w + x), x, y, tw, th) f)"
proof -
  note c = choose_subrect_ok[OF assms(5,2,3)]
  let ?d = "fill w bg x y tw th data" and ?f = "paint1 (data ! (y * w + x), x, y, tw, th) f"
  have len: "length data = w * h" using assms(1) by (simp add: painted_so_far_def)
  have "(?f px py = orig px py \<and> ?d ! (py * w + px) = bg) \<or>
      (?f px py = bg \<and> ?d ! (py * w + px) = orig px py)" if p: "px < w" "py < h" for px py
  proof -
    have d: "?d ! (py * w + px) = (if in_rect x y tw th px py then bg else data ! (py * w + px))"
      using p index_less[OF p] len c(2) by (intro nth_fill) simp_all
    have old: "(f px py = orig px py \<and> data ! (py * w + px) = bg) \<or>
        (f px py = bg \<and> data ! (py * w + px) = orig px py)"
      using assms(1) p unfolding painted_so_far_def by blast
    show ?thesis
    proof (cases "in_rect x y tw th px py")
      case True
      then have "data ! (py * w + px) = data ! (y * w + x)" by (rule c(5))
      then have "orig px py = data ! (y * w + x)" using old assms(4) by auto
      then show ?thesis using True d by (simp add: paint1_def)
    next
      case False
      then show ?thesis using old d by (simp add: paint1_def)
    qed
  qed
  then show ?thesis by (simp add: painted_so_far_def len)
qed

text \<open>The subrectangles the loop finds, whatever is written of them.\<close>

fun find_subrects :: "'p \<Rightarrow> nat \<Rightarrow> nat \<Rightarrow> (nat \<times> nat) list \<Rightarrow> 'p list \<Rightarrow> 'p subrect list" where
  "find_subrects bg w h [] data = []"
| "find_subrects bg w h ((x, y) # ps) data =
     (if data ! (y * w + x) \<noteq> bg
      then (let (tw, th) = choose_subrect data w h x y
            in (data ! (y * w + x), x, y, tw, th) # find_subrects bg w h ps (fill w bg x y tw th data))
      else find_subrects bg w h ps data)"

lemma find_subrects_paints:
  assumes "\<forall>(x, y)\<in>set ps. x < w \<and> y < h" and "painted_so_far bg w h orig data f"
    and "subs = find_subrects bg w h ps data"
  shows "list_all (inside w h) subs \<and> (\<exists>data'. painted_so_far bg w h orig data' (paint subs f) \<and>
    (\<forall>px<w. \<forall>py<h. data ! (py * w + px) = bg \<or> (px, py) \<in> set ps \<longrightarrow> data' ! (py * w + px) = bg))"
  using assms
proof (induction bg w h ps data arbitrary: f subs rule: find_subrects.induct)
  case (1 bg w h data)
  then show ?case by auto
next
  case (2 bg w h x y ps data)
  have xy: "x < w" "y < h" and ps: "\<forall>(x, y)\<in>set ps. x < w \<and> y < h" using "2.prems"(1) by auto
  show ?case
  proof (cases "data ! (y * w + x) \<noteq> bg")
    case False
    then have "subs = find_subrects bg w h ps data" using "2.prems"(3) by simp
    from "2.IH"(2)[OF False ps "2.prems"(2) this] False show ?thesis by fastforce
  next
    case True
    obtain tw th where t: "choose_subrect data w h x y = (tw, th)" by fastforce
    let ?d = "fill w bg x y tw th data" and ?s = "(data ! (y * w + x), x, y, tw, th)"
    define rest where "rest = find_subrects bg w h ps ?d"
    have subs: "subs = ?s # rest" using "2.prems"(3) True t by (simp add: rest_def)
    have p: "painted_so_far bg w h orig ?d (paint1 ?s f)" by (rule painted_step[OF "2.prems"(2) xy True t])
    from "2.IH"(1)[OF True t[symmetric] refl ps p rest_def]
    obtain data' where *: "list_all (inside w h) rest" "painted_so_far bg w h orig data' (paint rest (paint1 ?s f))"
      "\<forall>px<w. \<forall>py<h. ?d ! (py * w + px) = bg \<or> (px, py) \<in> set ps \<longrightarrow> data' ! (py * w + px) = bg"
      by blast
    note ch = choose_subrect_ok[OF t xy]
    have len: "length data = w * h" using "2.prems"(2) by (simp add: painted_so_far_def)
    have d: "?d ! (py * w + px) = bg"
      if "px < w" "py < h" "data ! (py * w + px) = bg \<or> (px, py) = (x, y)" for px py
    proof -
      have "?d ! (py * w + px) = (if in_rect x y tw th px py then bg else data ! (py * w + px))"
        using index_less[OF that(1,2)] that(1) ch(2) len by (intro nth_fill) simp_all
      moreover have "in_rect x y tw th x y" using ch by (simp add: in_rect_def)
      ultimately show ?thesis using that(3) by auto
    qed
    have "data' ! (py * w + px) = bg"
      if "px < w" "py < h" "data ! (py * w + px) = bg \<or> (px, py) \<in> set ((x, y) # ps)" for px py
      using *(3) d[of px py] that by auto
    moreover have "inside w h ?s" using ch by (simp add: inside_def)
    ultimately show ?thesis using *(1,2) unfolding subs by auto
  qed
qed

lemma encode_loop_finds:
  assumes "encode_loop put sz rawLen bufSize bg w h ps data n buf = Some (n', buf')"
  shows "n' = n + length (find_subrects bg w h ps data) \<and>
    buf' = buf @ concat (map (subrect_bytes put) (find_subrects bg w h ps data))"
  using assms
  by (induction put sz rawLen bufSize bg w h ps data n buf rule: encode_loop.induct)
    (auto simp: Let_def subrect_bytes_def split: if_splits prod.splits)

lemma positions_iff: "(x, y) \<in> set (positions w h) \<longleftrightarrow> x < w \<and> y < h"
  by (auto simp: positions_def image_iff)

text \<open>Over a whole rectangle: painting the subrectangles on the background gives it back.\<close>

lemma find_all_paints:
  assumes "length data = w * h" and "subs = find_subrects bg w h (positions w h) data"
  shows "list_all (inside w h) subs"
    "\<And>px py. px < w \<Longrightarrow> py < h \<Longrightarrow> paint subs (\<lambda>_ _. bg) px py = data ! (py * w + px)"
proof -
  define orig where "orig = (\<lambda>px py. data ! (py * w + px))"
  have "painted_so_far bg w h orig data (\<lambda>_ _. bg)"
    using assms(1) by (simp add: painted_so_far_def orig_def)
  moreover have "\<forall>(x, y)\<in>set (positions w h). x < w \<and> y < h" by (auto simp: positions_iff)
  ultimately obtain data' where *: "list_all (inside w h) subs" "painted_so_far bg w h orig data' (paint subs (\<lambda>_ _. bg))"
      "\<forall>px<w. \<forall>py<h. data ! (py * w + px) = bg \<or> (px, py) \<in> set (positions w h) \<longrightarrow> data' ! (py * w + px) = bg"
    using find_subrects_paints[OF _ _ assms(2)] by blast
  show "list_all (inside w h) subs" by (rule *(1))
  show "paint subs (\<lambda>_ _. bg) px py = data ! (py * w + px)" if "px < w" "py < h" for px py
    using *(2,3) that unfolding painted_so_far_def by (auto simp: positions_iff orig_def)
qed

lemma encode_all_paints:
  assumes "encode_loop put sz rawLen bufSize bg w h (positions w h) data 0 buf = Some (n', buf')"
    and "length data = w * h"
  obtains subs where "n' = length subs" "buf' = buf @ concat (map (subrect_bytes put) subs)"
    "list_all (inside w h) subs"
    "\<And>px py. px < w \<Longrightarrow> py < h \<Longrightarrow> paint subs (\<lambda>_ _. bg) px py = data ! (py * w + px)"
  using that encode_loop_finds[OF assms(1)] find_all_paints[OF assms(2) refl] by simp

lemma encode_loop_length:
  assumes "encode_loop put sz rawLen bufSize bg w h ps data n buf = Some (n', buf')"
    and "length buf \<le> rawLen" and "\<And>r. length (put r) = sz"
  shows "length buf' \<le> rawLen"
  using assms
  by (induction put sz rawLen bufSize bg w h ps data n buf rule: encode_loop.induct)
    (auto simp: Let_def split: if_splits prod.splits)

section \<open>Painting on a client's frame buffer\<close>

text \<open>
  \<open>FillRectangle\<close> of \<open>libvncclient/rfbproto.c\<close>, for each of the pixel sizes. The frame buffer is a
  list of pixels in rows of \<open>width\<close>.
\<close>

definition FillRectangle :: "nat \<Rightarrow> 'p list \<Rightarrow> nat \<Rightarrow> nat \<Rightarrow> nat \<Rightarrow> nat \<Rightarrow> 'p \<Rightarrow> 'p list" where
  "FillRectangle width fb x y w h colour = fill width colour x y w h fb"

definition fill_subs :: "nat \<Rightarrow> nat \<Rightarrow> nat \<Rightarrow> 'p subrect list \<Rightarrow> 'p list \<Rightarrow> 'p list" where
  "fill_subs width rx ry subs fb =
     fold (\<lambda>(c, x, y, w, h) fb. FillRectangle width fb (rx + x) (ry + y) w h c) subs fb"

text \<open>\<open>shows W H fb f\<close>: the frame buffer of \<open>W\<close> by \<open>H\<close> pixels shows the picture \<open>f\<close>.\<close>

definition shows_pixels :: "nat \<Rightarrow> nat \<Rightarrow> 'p list \<Rightarrow> (nat \<Rightarrow> nat \<Rightarrow> 'p) \<Rightarrow> bool" where
  "shows_pixels W H fb f \<longleftrightarrow> length fb = W * H \<and> (\<forall>X<W. \<forall>Y<H. fb ! (Y * W + X) = f X Y)"

text \<open>The picture \<open>g\<close> laid over \<open>f\<close> in a rectangle.\<close>

definition overlay :: "nat \<Rightarrow> nat \<Rightarrow> nat \<Rightarrow> nat \<Rightarrow> (nat \<Rightarrow> nat \<Rightarrow> 'p) \<Rightarrow> (nat \<Rightarrow> nat \<Rightarrow> 'p) \<Rightarrow> nat \<Rightarrow> nat \<Rightarrow> 'p" where
  "overlay rx ry w h g f X Y = (if in_rect rx ry w h X Y then g (X - rx) (Y - ry) else f X Y)"

lemma shows_fill:
  assumes "shows_pixels W H fb f" and "x + w \<le> W"
  shows "shows_pixels W H (FillRectangle W fb x y w h c) (overlay x y w h (\<lambda>_ _. c) f)"
  using assms
  by (auto simp: shows_pixels_def FillRectangle_def overlay_def nth_fill index_less)

lemma shows_fill_subs:
  assumes "shows_pixels W H fb (overlay rx ry w h g f)" and "rx + w \<le> W" and "ry + h \<le> H"
    and "list_all (inside w h) subs"
  shows "shows_pixels W H (fill_subs W rx ry subs fb) (overlay rx ry w h (paint subs g) f)"
  using assms
proof (induction subs arbitrary: fb g)
  case Nil
  then show ?case by (simp add: fill_subs_def)
next
  case (Cons s subs)
  obtain c x y sw sh where s: "s = (c, x, y, sw, sh)" by (metis prod_cases5)
  have i: "x + sw \<le> w" "y + sh \<le> h" using Cons.prems(4) by (simp_all add: s inside_def)
  let ?fb = "FillRectangle W fb (rx + x) (ry + y) sw sh c"
  have "shows_pixels W H ?fb (overlay (rx + x) (ry + y) sw sh (\<lambda>_ _. c) (overlay rx ry w h g f))"
    using Cons.prems(1,2) i by (intro shows_fill) simp_all
  moreover have "overlay (rx + x) (ry + y) sw sh (\<lambda>_ _. c) (overlay rx ry w h g f) =
      overlay rx ry w h (paint1 s g) f"
    using i by (intro ext) (auto simp: overlay_def paint1_def s in_rect_def)
  ultimately have "shows_pixels W H ?fb (overlay rx ry w h (paint1 s g) f)" by simp
  from Cons.IH[OF this Cons.prems(2,3)] Cons.prems(4) show ?case by (simp add: fill_subs_def s)
qed

lemma overlay_cong:
  assumes "\<And>px py. px < w \<Longrightarrow> py < h \<Longrightarrow> g px py = g' px py"
  shows "overlay rx ry w h g f = overlay rx ry w h g' f"
  by (intro ext) (auto simp: overlay_def in_rect_def intro!: assms)

end
