(* ===== verification/Translate.thy ===== *)
theory Translate
  imports Auth Subrects
begin

text \<open>
  Pixel formats: \<open>libvncserver/translate.c\<close> with its templates \<open>tableinittctemplate.c\<close>,
  \<open>tableinitcmtemplate.c\<close>, \<open>tabletranstemplate.c\<close>, \<open>tableinit24.c\<close> and \<open>tabletrans24template.c\<close>.
  The server translates its pixels by lookup tables into the format a client asked for. The
  templates, instantiated there for 8, 16 and 32 bits, are polymorphic in the width of an output
  pixel here; what the code has apart for 24 bits is apart here too. A pixel of the server is a natural
  number. The host is little-endian. \<open>None\<close> is a division by zero, a number that is no \<open>int\<close>, or a shift by
  32 places and more; the shifts of the server's own format are taken to be smaller.
\<close>

section \<open>Formats\<close>

definition BGR233Format :: rfbPixelFormat where
  "BGR233Format = \<lparr>bitsPerPixel = 8, depth = 8, bigEndian = False, trueColour = True,
     redMax = 7, greenMax = 7, blueMax = 3, redShift = 0, greenShift = 3, blueShift = 6\<rparr>"

definition PF_EQ :: "rfbPixelFormat \<Rightarrow> rfbPixelFormat \<Rightarrow> bool" where
  "PF_EQ x y \<longleftrightarrow>
     bitsPerPixel x = bitsPerPixel y \<and> depth x = depth y \<and>
     (bigEndian x = bigEndian y \<or> bitsPerPixel x = 8) \<and> trueColour x = trueColour y \<and>
     (\<not> trueColour x \<or>
      (redMax x = redMax y \<and> greenMax x = greenMax y \<and> blueMax x = blueMax y \<and>
       redShift x = redShift y \<and> greenShift x = greenShift y \<and> blueShift x = blueShift y))"

text \<open>\<open>Swap16\<close>, \<open>Swap24\<close> and \<open>Swap32\<close>.\<close>

definition swap_bytes :: "'a::len word \<Rightarrow> 'a word" where
  "swap_bytes p = pixel_of (rev (pixel_bytes p))"

section \<open>True colour tables\<close>

text \<open>A colour channel of a format: shift and maximum.\<close>

definition component :: "uint8_t \<Rightarrow> uint16_t \<Rightarrow> nat \<Rightarrow> nat" where
  "component shift maxv v = drop_bit (unat shift) v AND unat maxv"

definition rescale :: "uint16_t \<Rightarrow> uint16_t \<Rightarrow> nat \<Rightarrow> nat option" where
  "rescale inMax outMax v =
     (if inMax = 0 \<or> 2 ^ 31 \<le> v * unat outMax + unat inMax div 2 then None
      else Some ((v * unat outMax + unat inMax div 2) div unat inMax))"

text \<open>\<open>v << shift\<close>; bits that leave the \<open>int\<close> at the top are lost, here when the pixel is stored.\<close>

definition shift_left :: "uint8_t \<Rightarrow> nat \<Rightarrow> nat option" where
  "shift_left shift v = (if unat shift < 32 then Some (push_bit (unat shift) v) else None)"

definition swap_if :: "bool \<Rightarrow> 'a::len word \<Rightarrow> 'a word" where
  "swap_if swap t = (if LENGTH('a) \<noteq> 8 \<and> swap then swap_bytes t else t)"

definition single_entry :: "rfbPixelFormat \<Rightarrow> rfbPixelFormat \<Rightarrow> nat \<Rightarrow> 'a::len word option" where
  "single_entry fi fo i =
     do { outRed \<leftarrow> rescale (redMax fi) (redMax fo) (component (redShift fi) (redMax fi) i);
          outGreen \<leftarrow> rescale (greenMax fi) (greenMax fo) (component (greenShift fi) (greenMax fi) i);
          outBlue \<leftarrow> rescale (blueMax fi) (blueMax fo) (component (blueShift fi) (blueMax fi) i);
          r \<leftarrow> shift_left (redShift fo) outRed;
          g \<leftarrow> shift_left (greenShift fo) outGreen;
          b \<leftarrow> shift_left (blueShift fo) outBlue;
          Some (swap_if (bigEndian fo \<noteq> bigEndian fi) (word_of_nat (r OR g OR b))) }"

definition rfbInitTrueColourSingleTable :: "rfbPixelFormat \<Rightarrow> rfbPixelFormat \<Rightarrow> 'a::len word list option" where
  "rfbInitTrueColourSingleTable fi fo = those (map (single_entry fi fo) [0..<2 ^ unat (bitsPerPixel fi)])"

definition rgb_entry :: "uint16_t \<Rightarrow> uint16_t \<Rightarrow> uint8_t \<Rightarrow> bool \<Rightarrow> nat \<Rightarrow> 'a::len word option" where
  "rgb_entry inMax outMax outShift swap i =
     do { v \<leftarrow> rescale inMax outMax i;
          s \<leftarrow> shift_left outShift v;
          Some (swap_if swap (word_of_nat s)) }"

definition rfbInitOneRGBTable :: "uint16_t \<Rightarrow> uint16_t \<Rightarrow> uint8_t \<Rightarrow> bool \<Rightarrow> 'a::len word list option" where
  "rfbInitOneRGBTable inMax outMax outShift swap =
     those (map (rgb_entry inMax outMax outShift swap) [0..<unat inMax + 1])"

text \<open>The three tables lie one after the other.\<close>

definition rfbInitTrueColourRGBTables :: "rfbPixelFormat \<Rightarrow> rfbPixelFormat \<Rightarrow> 'a::len word list option" where
  "rfbInitTrueColourRGBTables fi fo =
     (let swap = (bigEndian fo \<noteq> bigEndian fi) in
      do { r \<leftarrow> rfbInitOneRGBTable (redMax fi) (redMax fo) (redShift fo) swap;
           g \<leftarrow> rfbInitOneRGBTable (greenMax fi) (greenMax fo) (greenShift fo) swap;
           b \<leftarrow> rfbInitOneRGBTable (blueMax fi) (blueMax fo) (blueShift fo) swap;
           Some (r @ g @ b) })"

section \<open>Colour maps\<close>

record rfbColourMap =
  cm_count :: nat
  is16 :: bool
  cm_data :: "nat list"

definition colour_map_entry :: "rfbPixelFormat \<Rightarrow> rfbPixelFormat \<Rightarrow> rfbColourMap \<Rightarrow> nat \<Rightarrow> 'a::len word" where
  "colour_map_entry fi fo cm i =
     (let shift = (if is16 cm then 16 else 8);
          (r, g, b) = (if i < cm_count cm
                       then (cm_data cm ! (3 * i), cm_data cm ! (3 * i + 1), cm_data cm ! (3 * i + 2))
                       else (0, 0, 0));
          t = word_of_nat (push_bit (unat (redShift fo)) (drop_bit shift (r * (1 + unat (redMax fo)))) OR
                           push_bit (unat (greenShift fo)) (drop_bit shift (g * (1 + unat (greenMax fo)))) OR
                           push_bit (unat (blueShift fo)) (drop_bit shift (b * (1 + unat (blueMax fo)))))
      in swap_if (bigEndian fo \<noteq> bigEndian fi) t)"

definition rfbInitColourMapSingleTable ::
    "rfbPixelFormat \<Rightarrow> rfbPixelFormat \<Rightarrow> rfbColourMap \<Rightarrow> 'a::len word list" where
  "rfbInitColourMapSingleTable fi fo cm =
     map (colour_map_entry fi fo cm) [0..<2 ^ unat (bitsPerPixel fi)]"

section \<open>Translating rectangles\<close>

text \<open>
  \<open>h\<close> rows of \<open>w\<close> pixels, \<open>stride\<close> pixels apart. The widths for which the translation comes from
  \<open>tabletranstemplate.c\<close> are those of \<open>plain_width\<close>.
\<close>

definition plain_width :: "'a::len itself \<Rightarrow> bool" where
  "plain_width T \<longleftrightarrow> LENGTH('a) = 8 \<or> LENGTH('a) = 16 \<or> LENGTH('a) = 32"


definition translate_rows :: "('p \<Rightarrow> 'q) \<Rightarrow> 'p list \<Rightarrow> nat \<Rightarrow> nat \<Rightarrow> nat \<Rightarrow> 'q list" where
  "translate_rows f ip stride w h =
     concat (map (\<lambda>y. map f (take w (drop (y * stride) ip))) [0..<h])"

definition rfbTranslateNone :: "'p list \<Rightarrow> nat \<Rightarrow> nat \<Rightarrow> nat \<Rightarrow> 'p list" where
  "rfbTranslateNone ip stride w h = translate_rows (\<lambda>p. p) ip stride w h"

definition rfbTranslateWithSingleTable ::
    "'a::len word list \<Rightarrow> nat list \<Rightarrow> nat \<Rightarrow> nat \<Rightarrow> nat \<Rightarrow> 'a word list" where
  "rfbTranslateWithSingleTable t ip stride w h = translate_rows (\<lambda>p. t ! p) ip stride w h"

definition rgb_pixel :: "rfbPixelFormat \<Rightarrow> 'a::len word list \<Rightarrow> nat \<Rightarrow> 'a word" where
  "rgb_pixel fi table p =
     (let greenTable = unat (redMax fi) + 1; blueTable = greenTable + unat (greenMax fi) + 1
      in table ! component (redShift fi) (redMax fi) p OR
         table ! (greenTable + component (greenShift fi) (greenMax fi) p) OR
         table ! (blueTable + component (blueShift fi) (blueMax fi) p))"

definition rfbTranslateWithRGBTables ::
    "rfbPixelFormat \<Rightarrow> 'a::len word list \<Rightarrow> nat list \<Rightarrow> nat \<Rightarrow> nat \<Rightarrow> nat \<Rightarrow> 'a word list" where
  "rfbTranslateWithRGBTables fi table ip stride w h =
     translate_rows (rgb_pixel fi table) ip stride w h"

text \<open>
  With 24 bits for an output pixel the tables are arrays of bytes, three for each entry; the code
  indexes them as above, without the factor three (\<open>rfbTranslateWithRGBTablesINto24\<close>).
\<close>

definition rgb_pixel24 :: "rfbPixelFormat \<Rightarrow> uint8_t list \<Rightarrow> nat \<Rightarrow> uint32_t" where
  "rgb_pixel24 fi table p =
     (let greenTable = 3 * (unat (redMax fi) + 1); blueTable = greenTable + 3 * (unat (greenMax fi) + 1)
      in ucast (table ! component (redShift fi) (redMax fi) p) OR
         ucast (table ! (greenTable + component (greenShift fi) (greenMax fi) p)) OR
         ucast (table ! (blueTable + component (blueShift fi) (blueMax fi) p)))"

definition rfbTranslateWithRGBTablesINto24 ::
    "rfbPixelFormat \<Rightarrow> uint8_t list \<Rightarrow> nat list \<Rightarrow> nat \<Rightarrow> nat \<Rightarrow> nat \<Rightarrow> uint8_t list" where
  "rfbTranslateWithRGBTablesINto24 fi table ip stride w h =
     concat (translate_rows (\<lambda>p. take 3 (pixel_bytes (rgb_pixel24 fi table p))) ip stride w h)"

section \<open>Choosing a translation\<close>

text \<open>The table is kept as the bytes in memory.\<close>

datatype translate_fn =
    TranslateNone
  | TranslateWithSingleTable nat nat "uint8_t list"
  | TranslateWithRGBTables nat nat "uint8_t list"

record translate_client =
  conn :: rfbClientRec
  format :: rfbPixelFormat
  translateFn :: translate_fn

record translate_screen =
  ts_serverFormat :: rfbPixelFormat
  colourMap :: rfbColourMap

definition table_bytes :: "'a::len word list \<Rightarrow> uint8_t list" where
  "table_bytes t = concat (map pixel_bytes t)"

definition single_table :: "rfbPixelFormat \<Rightarrow> rfbPixelFormat \<Rightarrow> uint8_t list option" where
  "single_table fi fo =
     (if bitsPerPixel fo = 8
      then map_option table_bytes (rfbInitTrueColourSingleTable fi fo :: 8 word list option)
      else if bitsPerPixel fo = 16
      then map_option table_bytes (rfbInitTrueColourSingleTable fi fo :: 16 word list option)
      else if bitsPerPixel fo = 24
      then map_option table_bytes (rfbInitTrueColourSingleTable fi fo :: 24 word list option)
      else map_option table_bytes (rfbInitTrueColourSingleTable fi fo :: 32 word list option))"

definition rgb_tables :: "rfbPixelFormat \<Rightarrow> rfbPixelFormat \<Rightarrow> uint8_t list option" where
  "rgb_tables fi fo =
     (if bitsPerPixel fo = 8
      then map_option table_bytes (rfbInitTrueColourRGBTables fi fo :: 8 word list option)
      else if bitsPerPixel fo = 16
      then map_option table_bytes (rfbInitTrueColourRGBTables fi fo :: 16 word list option)
      else if bitsPerPixel fo = 24
      then map_option table_bytes (rfbInitTrueColourRGBTables fi fo :: 24 word list option)
      else map_option table_bytes (rfbInitTrueColourRGBTables fi fo :: 32 word list option))"

definition colour_map_table :: "rfbPixelFormat \<Rightarrow> rfbPixelFormat \<Rightarrow> rfbColourMap \<Rightarrow> uint8_t list" where
  "colour_map_table fi fo cm =
     (if bitsPerPixel fo = 8
      then table_bytes (rfbInitColourMapSingleTable fi fo cm :: 8 word list)
      else if bitsPerPixel fo = 16
      then table_bytes (rfbInitColourMapSingleTable fi fo cm :: 16 word list)
      else if bitsPerPixel fo = 24
      then table_bytes (rfbInitColourMapSingleTable fi fo cm :: 24 word list)
      else table_bytes (rfbInitColourMapSingleTable fi fo cm :: 32 word list))"

text \<open>The message \<open>SetColourMapEntries\<close> with the colours of \<open>BGR233Format\<close>.\<close>

definition BGR233_colours :: "nat list" where
  "BGR233_colours =
     concat (map (\<lambda>b. concat (map (\<lambda>g. concat (map (\<lambda>r.
       [r * 65535 div 7, g * 65535 div 7, b * 65535 div 3]) [0..<8])) [0..<8])) [0..<4])"

definition rfbSetClientColourMapBGR233 :: "translate_client \<Rightarrow> bool \<times> translate_client" where
  "rfbSetClientColourMapBGR233 cl =
     (if bitsPerPixel (format cl) \<noteq> 8 then (False, cl\<lparr>conn := rfbCloseClient (conn cl)\<rparr>)
      else (let (ok, c) = rfbWriteExact (conn cl)
                  ([1, 0] @ wire16 0 @ wire16 256 @ concat (map (\<lambda>v. wire16 (word_of_nat v)) BGR233_colours))
            in if \<not> ok then (False, cl\<lparr>conn := rfbCloseClient c\<rparr>) else (True, cl\<lparr>conn := c\<rparr>)))"

definition valid_bpp :: "uint8_t \<Rightarrow> bool" where
  "valid_bpp b \<longleftrightarrow> b = 8 \<or> b = 16 \<or> b = 24 \<or> b = 32"

definition rfbSetTranslateFunction ::
    "bool \<Rightarrow> translate_screen \<Rightarrow> translate_client \<Rightarrow> (bool \<times> translate_client) option" where
  "rfbSetTranslateFunction economic scr cl =
     (let sf = ts_serverFormat scr; fail = Some (False, cl\<lparr>conn := rfbCloseClient (conn cl)\<rparr>)
      in if \<not> valid_bpp (bitsPerPixel sf) then fail
         else if \<not> valid_bpp (bitsPerPixel (format cl)) then fail
         else if \<not> trueColour (format cl) \<and> bitsPerPixel (format cl) \<noteq> 8 then fail
         else
           (let (ok, cl) = (if \<not> trueColour (format cl)
                            then (case rfbSetClientColourMapBGR233 cl of
                                    (ok, cl) \<Rightarrow> if \<not> ok then (False, cl) else (True, cl\<lparr>format := BGR233Format\<rparr>))
                            else (True, cl));
                b_in = unat (bitsPerPixel sf); b_out = unat (bitsPerPixel (format cl))
            in if \<not> ok then Some (False, cl)
               else if PF_EQ (format cl) sf then Some (True, cl\<lparr>translateFn := TranslateNone\<rparr>)
               else if b_in < 16 \<or> ((\<not> trueColour sf \<or> \<not> economic) \<and> b_in = 16)
               then (if trueColour sf
                     then do { t \<leftarrow> single_table sf (format cl);
                               Some (True, cl\<lparr>translateFn := TranslateWithSingleTable b_in b_out t\<rparr>) }
                     else Some (True, cl\<lparr>translateFn := TranslateWithSingleTable b_in b_out
                                           (colour_map_table sf (format cl) (colourMap scr))\<rparr>))
               else do { t \<leftarrow> rgb_tables sf (format cl);
                         Some (True, cl\<lparr>translateFn := TranslateWithRGBTables b_in b_out t\<rparr>) }))"

end
