(* ===== verification/TranslateCorrect.thy ===== *)
theory TranslateCorrect
  imports Translate
begin

text \<open>
  The two kinds of translation tables agree, a translated pixel has the colours it should have, and
  a format with at least as many shades loses nothing.
\<close>

section \<open>Lists of results\<close>

lemma those_map_Some: "those (map f xs) = Some ys \<longleftrightarrow> map f xs = map Some ys"
proof (induction xs arbitrary: ys)
  case (Cons x xs)
  then show ?case by (cases ys) (auto split: option.splits)
qed auto

lemma those_nth:
  assumes "those (map f [0..<n]) = Some ys"
  shows "length ys = n" "i < n \<Longrightarrow> f i = Some (ys ! i)"
proof -
  from assms have e: "map f [0..<n] = map Some ys" by (simp add: those_map_Some)
  then show l: "length ys = n" by (metis length_map diff_zero length_upt)
  assume "i < n"
  then have "map f [0..<n] ! i = map Some ys ! i" using e by simp
  then show "f i = Some (ys ! i)" using \<open>i < n\<close> l by simp
qed

section \<open>Swapping bytes\<close>

lemma bit_swap_bytes:
  assumes "whole_bytes TYPE('a)"
  shows "bit (swap_bytes (p :: 'a::len word)) n \<longleftrightarrow>
         n < LENGTH('a) \<and> bit p (8 * (pixel_size TYPE('a) - 1 - n div 8) + n mod 8)"
proof (cases "n < LENGTH('a)")
  case True
  then have k: "n div 8 < pixel_size TYPE('a)" using assms by (auto simp: pixel_size_def elim!: dvdE)
  have "n mod 8 < 8" by simp
  with True k show ?thesis
    by (auto simp: swap_bytes_def bit_pixel_of rev_nth pixel_bytes_def bit_simps)
next
  case False
  then show ?thesis using bit_imp_le_length [of "swap_bytes p" n] by auto
qed

lemma swap_bytes_or:
  "whole_bytes TYPE('a) \<Longrightarrow> swap_bytes (p OR q) = swap_bytes p OR swap_bytes (q :: 'a::len word)"
  by (rule bit_word_eqI) (auto simp: bit_swap_bytes bit_simps)

lemma swap_if_or:
  "whole_bytes TYPE('a) \<Longrightarrow> swap_if b (p OR q) = swap_if b p OR swap_if b (q :: 'a::len word)"
  by (simp add: swap_if_def swap_bytes_or)

lemma word_of_nat_or: "word_of_nat (a OR b) = (word_of_nat a OR word_of_nat b :: 'a::len word)"
  by (rule bit_word_eqI) (simp add: bit_simps)

section \<open>The tables agree\<close>

lemma component_le: "component s m v \<le> unat m"
  unfolding component_def by (metis AND_upper2 of_nat_0_le_iff of_nat_and_eq of_nat_le_iff)

lemma single_entry_eq:
  assumes "whole_bytes TYPE('a)"
  shows "(single_entry fi fo i :: 'a::len word option) =
    (let sw = bigEndian fo \<noteq> bigEndian fi in
     do { r \<leftarrow> rgb_entry (redMax fi) (redMax fo) (redShift fo) sw (component (redShift fi) (redMax fi) i);
          g \<leftarrow> rgb_entry (greenMax fi) (greenMax fo) (greenShift fo) sw (component (greenShift fi) (greenMax fi) i);
          b \<leftarrow> rgb_entry (blueMax fi) (blueMax fo) (blueShift fo) sw (component (blueShift fi) (blueMax fi) i);
          Some (r OR g OR b) })"
  using assms by (simp add: single_entry_def rgb_entry_def Let_def word_of_nat_or swap_if_or split: Option.bind_splits)

lemma rgb_tables_entry:
  assumes "rfbInitTrueColourRGBTables fi fo = Some (t :: 'a::len word list)" "whole_bytes TYPE('a)"
  shows "single_entry fi fo p = Some (rgb_pixel fi t p)"
proof -
  let ?sw = "bigEndian fo \<noteq> bigEndian fi"
  from assms(1) obtain r g b where
    r: "rfbInitOneRGBTable (redMax fi) (redMax fo) (redShift fo) ?sw = Some r" and
    g: "rfbInitOneRGBTable (greenMax fi) (greenMax fo) (greenShift fo) ?sw = Some g" and
    b: "rfbInitOneRGBTable (blueMax fi) (blueMax fo) (blueShift fo) ?sw = Some b" and
    t: "t = r @ g @ b"
    by (auto simp: rfbInitTrueColourRGBTables_def Let_def split: Option.bind_splits)
  note nth = those_nth [OF r [unfolded rfbInitOneRGBTable_def]] those_nth [OF g [unfolded rfbInitOneRGBTable_def]]
    those_nth [OF b [unfolded rfbInitOneRGBTable_def]]
  have c: "component s m p < unat m + 1" for s m by (simp add: component_le le_imp_less_Suc)
  show ?thesis
    unfolding single_entry_eq [OF assms(2)] Let_def nth(2) [OF c] nth(4) [OF c] nth(6) [OF c]
    using nth(1,3,5) c by (simp add: rgb_pixel_def t Let_def nth_append)
qed

lemma plain_whole: "plain_width TYPE('a::len) \<Longrightarrow> whole_bytes TYPE('a)"
  by (auto simp: plain_width_def)

text \<open>
  C31: A rectangle translated with the three tables for red, green and blue is the one translated with
  the single table, for every pair of formats that has both and every width of an output pixel but 24 bits.
\<close>

theorem rfbTranslate_tables_agree:
  assumes "plain_width TYPE('a::len)"
    and "rfbInitTrueColourSingleTable fi fo = Some (t1 :: 'a word list)"
    and "rfbInitTrueColourRGBTables fi fo = Some (t3 :: 'a word list)"
    and "\<forall>p\<in>set ip. p < 2 ^ unat (bitsPerPixel fi)"
  shows "rfbTranslateWithRGBTables fi t3 ip stride w h = rfbTranslateWithSingleTable t1 ip stride w h"
proof -
  have "rgb_pixel fi t3 p = t1 ! p" if "p \<in> set ip" for p
  proof -
    have "single_entry fi fo p = Some (t1 ! p)"
      using those_nth(2) [OF assms(2) [unfolded rfbInitTrueColourSingleTable_def]] that assms(4) by blast
    then show ?thesis using rgb_tables_entry [OF assms(3) plain_whole [OF assms(1)]] by simp
  qed
  then have eq: "map (rgb_pixel fi t3) (take w (drop n ip)) = map ((!) t1) (take w (drop n ip))" for n
    by (auto dest!: in_set_takeD in_set_dropD)
  show ?thesis
    unfolding rfbTranslateWithRGBTables_def rfbTranslateWithSingleTable_def translate_rows_def eq ..
qed

section \<open>Colours\<close>

text \<open>
  A colour channel of \<open>n\<close> bits at \<open>s\<close>; a format of \<open>k\<close> bits whose three channels have all ones as
  maximum, lie inside the pixel and do not overlap.
\<close>

definition channel_ok :: "nat \<Rightarrow> uint8_t \<Rightarrow> uint16_t \<Rightarrow> nat \<Rightarrow> bool" where
  "channel_ok k s m n \<longleftrightarrow> 0 < n \<and> unat m = 2 ^ n - 1 \<and> unat s + n \<le> k"

definition apart :: "uint8_t \<Rightarrow> nat \<Rightarrow> uint8_t \<Rightarrow> nat \<Rightarrow> bool" where
  "apart s n s' n' \<longleftrightarrow> unat s + n \<le> unat s' \<or> unat s' + n' \<le> unat s"

definition format_ok :: "nat \<Rightarrow> rfbPixelFormat \<Rightarrow> bool" where
  "format_ok k f \<longleftrightarrow> (\<exists>r g b.
     channel_ok k (redShift f) (redMax f) r \<and> channel_ok k (greenShift f) (greenMax f) g \<and>
     channel_ok k (blueShift f) (blueMax f) b \<and>
     apart (redShift f) r (greenShift f) g \<and> apart (redShift f) r (blueShift f) b \<and>
     apart (greenShift f) g (blueShift f) b)"

definition red :: "rfbPixelFormat \<Rightarrow> nat \<Rightarrow> nat" where "red f = component (redShift f) (redMax f)"
definition green :: "rfbPixelFormat \<Rightarrow> nat \<Rightarrow> nat" where "green f = component (greenShift f) (greenMax f)"
definition blue :: "rfbPixelFormat \<Rightarrow> nat \<Rightarrow> nat" where "blue f = component (blueShift f) (blueMax f)"

text \<open>The value a client with the format \<open>f\<close> makes of the bytes of a pixel.\<close>

definition client_value :: "rfbPixelFormat \<Rightarrow> 'a::len word \<Rightarrow> nat" where
  "client_value f p = unat (pixel_of (if bigEndian f then rev (pixel_bytes p) else pixel_bytes p) :: 'a word)"

text \<open>Rounding to the nearest shade.\<close>

definition shade :: "uint16_t \<Rightarrow> uint16_t \<Rightarrow> nat \<Rightarrow> nat" where
  "shade inMax outMax v = (v * unat outMax + unat inMax div 2) div unat inMax"

text \<open>A channel that can be computed with: the numbers are of type \<open>int\<close>, and so is the shift.\<close>

definition channel_fits :: "uint16_t \<Rightarrow> uint16_t \<Rightarrow> uint8_t \<Rightarrow> bool" where
  "channel_fits m m' s \<longleftrightarrow> unat m * unat m' + unat m div 2 < 2 ^ 31 \<and> unat s < 32"

definition table_fits :: "rfbPixelFormat \<Rightarrow> rfbPixelFormat \<Rightarrow> bool" where
  "table_fits fi fo \<longleftrightarrow> channel_fits (redMax fi) (redMax fo) (redShift fo) \<and>
     channel_fits (greenMax fi) (greenMax fo) (greenShift fo) \<and> channel_fits (blueMax fi) (blueMax fo) (blueShift fo)"

lemma channel_fits_steps:
  assumes "channel_fits m m' s" "m \<noteq> 0" "v \<le> unat m"
  shows "rescale m m' v = Some (shade m m' v)" "shift_left s k = Some (push_bit (unat s) k)"
proof -
  have "v * unat m' \<le> unat m * unat m'" using assms(3) by simp
  then have "v * unat m' + unat m div 2 < 2 ^ 31" using assms(1) unfolding channel_fits_def by linarith
  then show "rescale m m' v = Some (shade m m' v)" using assms(2) by (simp add: rescale_def shade_def)
  show "shift_left s k = Some (push_bit (unat s) k)" using assms(1) by (simp add: shift_left_def channel_fits_def)
qed

text \<open>Without a maximum there are no shades.\<close>

definition has_colours :: "rfbPixelFormat \<Rightarrow> bool" where
  "has_colours f \<longleftrightarrow> redMax f \<noteq> 0 \<and> greenMax f \<noteq> 0 \<and> blueMax f \<noteq> 0"

lemma shade_le: "v \<le> unat m \<Longrightarrow> 0 < unat m \<Longrightarrow> shade m m' v \<le> unat m'"
proof -
  assume "v \<le> unat m" "0 < unat m"
  then have "v * unat m' + unat m div 2 \<le> unat m' * unat m + unat m div 2" by (simp add: mult.commute)
  then have "shade m m' v \<le> (unat m' * unat m + unat m div 2) div unat m"
    unfolding shade_def by (rule div_le_mono)
  also have "\<dots> = unat m'" using \<open>0 < unat m\<close> by simp
  finally show ?thesis .
qed

lemma bits_below: "v \<le> 2 ^ n - 1 \<Longrightarrow> bit (v :: nat) i \<Longrightarrow> i < n"
proof -
  assume "v \<le> 2 ^ n - 1" "bit v i"
  moreover have "0 < (2 :: nat) ^ n" by simp
  ultimately have "v < 2 ^ n" by linarith
  then have "take_bit n v = v" by (simp add: take_bit_nat_eq_self)
  with \<open>bit v i\<close> show "i < n" by (metis bit_take_bit_iff)
qed

lemma component_field:
  assumes "channel_ok k s m n" "c \<le> unat m" "k = LENGTH('a::len)"
    and "\<And>i. unat s \<le> i \<Longrightarrow> i < unat s + n \<Longrightarrow> \<not> bit rest i"
  shows "component s m (unat (word_of_nat (push_bit (unat s) c OR rest) :: 'a word)) = c"
proof -
  have m: "unat m = mask n" using assms(1) by (simp add: channel_ok_def mask_eq_exp_minus_1)
  have c: "bit c i \<Longrightarrow> i < n" for i using bits_below [of c n i] assms(1,2) by (simp add: channel_ok_def)
  have k: "unat s + n \<le> LENGTH('a)" using assms(1,3) by (simp add: channel_ok_def)
  show ?thesis
  proof (rule bit_eqI)
    fix i
    show "bit (component s m (unat (word_of_nat (push_bit (unat s) c OR rest) :: 'a word))) i = bit c i"
      unfolding component_def m
      using c [of i] k assms(4) [of "unat s + i"]
      by (auto simp: bit_simps unsigned_of_nat ac_simps)
  qed
qed

lemma swap_bytes_swap_bytes:
  assumes "whole_bytes TYPE('a)"
  shows "swap_bytes (swap_bytes p) = (p :: 'a::len word)"
proof (rule bit_word_eqI)
  fix n assume n: "n < LENGTH('a)"
  define k where "k = pixel_size TYPE('a)"
  have l: "LENGTH('a) = 8 * k" using assms by (auto simp: k_def pixel_size_def elim!: dvdE)
  have d: "n div 8 < k" using n l by (simp add: less_mult_imp_div_less mult.commute)
  define i where "i = 8 * (k - 1 - n div 8) + n mod 8"
  have i: "i div 8 = k - 1 - n div 8" "i mod 8 = n mod 8" by (simp_all add: i_def)
  have "i div 8 < k" using d i by simp
  then have "i < 8 * k" by (simp add: div_less_iff_less_mult mult.commute)
  moreover have "8 * (k - 1 - i div 8) + i mod 8 = n" using d by (simp add: i)
  ultimately show "bit (swap_bytes (swap_bytes p)) n = bit p n"
    using n unfolding bit_swap_bytes [OF assms] k_def [symmetric] i_def [symmetric] l by simp
qed

lemma client_value_swap_if:
  assumes "whole_bytes TYPE('a)" "\<not> bigEndian fi"
  shows "client_value fo (swap_if (bigEndian fo \<noteq> bigEndian fi) (t :: 'a::len word)) = unat t"
proof (cases "bigEndian fo")
  case False
  then show ?thesis using assms by (simp add: client_value_def swap_if_def)
next
  case True
  show ?thesis
  proof (cases "LENGTH('a) = 8")
    case l: True
    then have "rev (pixel_bytes t) = pixel_bytes t" by (simp add: pixel_bytes_def pixel_size_def)
    then show ?thesis using assms l True by (simp add: client_value_def swap_if_def)
  next
    case False
    then have "pixel_of (rev (pixel_bytes (swap_bytes t))) = t"
      using swap_bytes_swap_bytes [OF assms(1), of t] by (simp add: swap_bytes_def)
    then show ?thesis using assms True False by (simp add: client_value_def swap_if_def)
  qed
qed

lemma channel_clear:
  assumes "channel_ok k s' m' n'" "c \<le> unat m'" "apart s n s' n'" "unat s \<le> i" "i < unat s + n"
  shows "\<not> bit (push_bit (unat s') c) i"
proof
  assume "bit (push_bit (unat s') c) i"
  then have "unat s' \<le> i" "bit c (i - unat s')" by (auto simp: bit_simps)
  then have "i - unat s' < n'" using bits_below [of c n'] assms(1,2) by (simp add: channel_ok_def)
  with assms(3-5) \<open>unat s' \<le> i\<close> show False by (auto simp: apart_def)
qed

lemma single_entry_colours:
  assumes "whole_bytes TYPE('a)" "format_ok LENGTH('a) fo" "\<not> bigEndian fi"
    and "has_colours fi" "table_fits fi fo"
  obtains t where "single_entry fi fo p = Some (t :: 'a::len word)"
    "red fo (client_value fo t) = shade (redMax fi) (redMax fo) (red fi p)"
    "green fo (client_value fo t) = shade (greenMax fi) (greenMax fo) (green fi p)"
    "blue fo (client_value fo t) = shade (blueMax fi) (blueMax fo) (blue fi p)"
proof -
  define r where "r = shade (redMax fi) (redMax fo) (red fi p)"
  define g where "g = shade (greenMax fi) (greenMax fo) (green fi p)"
  define b where "b = shade (blueMax fi) (blueMax fo) (blue fi p)"
  let ?r = "push_bit (unat (redShift fo)) r" and ?g = "push_bit (unat (greenShift fo)) g"
    and ?b = "push_bit (unat (blueShift fo)) b"
  let ?t = "word_of_nat (?r OR ?g OR ?b) :: 'a word"
  have pos: "0 < unat (redMax fi)" "0 < unat (greenMax fi)" "0 < unat (blueMax fi)"
    using assms(4) by (simp_all add: has_colours_def unat_gt_0)
  have le: "r \<le> unat (redMax fo)" "g \<le> unat (greenMax fo)" "b \<le> unat (blueMax fo)"
    using pos by (simp_all add: r_def g_def b_def shade_le red_def green_def blue_def component_le)
  obtain nr ng nb where ok:
    "channel_ok LENGTH('a) (redShift fo) (redMax fo) nr" "channel_ok LENGTH('a) (greenShift fo) (greenMax fo) ng"
    "channel_ok LENGTH('a) (blueShift fo) (blueMax fo) nb"
    "apart (redShift fo) nr (greenShift fo) ng" "apart (redShift fo) nr (blueShift fo) nb"
    "apart (greenShift fo) ng (blueShift fo) nb" using assms(2) by (auto simp: format_ok_def)
  then have ok': "apart (greenShift fo) ng (redShift fo) nr" "apart (blueShift fo) nb (redShift fo) nr"
    "apart (blueShift fo) nb (greenShift fo) ng" by (auto simp: apart_def)
  have "red fo (unat ?t) = r" unfolding red_def
    by (rule component_field [OF ok(1) le(1) refl])
      (use channel_clear [OF ok(2) le(2) ok(4)] channel_clear [OF ok(3) le(3) ok(5)] in \<open>simp add: bit_or_iff\<close>)
  moreover have "?r OR ?g OR ?b = ?g OR (?r OR ?b)" by (simp add: ac_simps)
  then have "green fo (unat ?t) = g" unfolding green_def
    by (simp only:) (rule component_field [OF ok(2) le(2) refl],
      use channel_clear [OF ok(1) le(1) ok'(1)] channel_clear [OF ok(3) le(3) ok(6)] in \<open>simp add: bit_or_iff\<close>)
  moreover have "?r OR ?g OR ?b = ?b OR (?r OR ?g)" by (simp add: ac_simps)
  then have "blue fo (unat ?t) = b" unfolding blue_def
    by (simp only:) (rule component_field [OF ok(3) le(3) refl],
      use channel_clear [OF ok(1) le(1) ok'(2)] channel_clear [OF ok(2) le(2) ok'(3)] in \<open>simp add: bit_or_iff\<close>)
  moreover have "single_entry fi fo p = Some (swap_if (bigEndian fo \<noteq> bigEndian fi) ?t)"
  proof -
    have nz: "redMax fi \<noteq> 0" "greenMax fi \<noteq> 0" "blueMax fi \<noteq> 0" using assms(4) by (simp_all add: has_colours_def)
    have fits: "channel_fits (redMax fi) (redMax fo) (redShift fo)" "channel_fits (greenMax fi) (greenMax fo) (greenShift fo)"
      "channel_fits (blueMax fi) (blueMax fo) (blueShift fo)" using assms(5) by (simp_all add: table_fits_def)
    show ?thesis
      by (simp add: single_entry_def channel_fits_steps[OF fits(1) nz(1) component_le] channel_fits_steps[OF fits(2) nz(2) component_le]
          channel_fits_steps[OF fits(3) nz(3) component_le] red_def green_def blue_def r_def g_def b_def)
  qed
  ultimately show thesis
    using that client_value_swap_if [OF assms(1,3), of fo ?t] by (simp add: r_def g_def b_def)
qed

lemma those_map_total: "(\<And>x. x \<in> set xs \<Longrightarrow> f x \<noteq> None) \<Longrightarrow> \<exists>ys. those (map f xs) = Some ys"
  by (induction xs) fastforce+

lemma single_table_exists:
  assumes "has_colours fi" "table_fits fi fo"
  shows "\<exists>t. rfbInitTrueColourSingleTable fi fo = Some (t :: 'a::len word list)"
proof -
  have nz: "redMax fi \<noteq> 0" "greenMax fi \<noteq> 0" "blueMax fi \<noteq> 0" using assms(1) by (simp_all add: has_colours_def)
  have fits: "channel_fits (redMax fi) (redMax fo) (redShift fo)" "channel_fits (greenMax fi) (greenMax fo) (greenShift fo)"
    "channel_fits (blueMax fi) (blueMax fo) (blueShift fo)" using assms(2) by (simp_all add: table_fits_def)
  show ?thesis
    unfolding rfbInitTrueColourSingleTable_def
    by (intro those_map_total)
      (simp add: single_entry_def channel_fits_steps[OF fits(1) nz(1) component_le] channel_fits_steps[OF fits(2) nz(2) component_le]
        channel_fits_steps[OF fits(3) nz(3) component_le])
qed

lemma rgb_tables_exist:
  assumes "has_colours fi" "table_fits fi fo"
  shows "\<exists>t. rfbInitTrueColourRGBTables fi fo = Some (t :: 'a::len word list)"
proof -
  have one: "\<exists>t. rfbInitOneRGBTable m m' s sw = Some (t :: 'a word list)" if "m \<noteq> 0" "channel_fits m m' s" for m m' s sw
    unfolding rfbInitOneRGBTable_def
    by (intro those_map_total)
      (use channel_fits_steps(1)[OF that(2,1)] channel_fits_steps(2)[OF that(2,1) le0] in \<open>auto simp: rgb_entry_def less_Suc_eq_le\<close>)
  obtain r g b where
    "rfbInitOneRGBTable (redMax fi) (redMax fo) (redShift fo) (bigEndian fo \<noteq> bigEndian fi) = Some (r :: 'a word list)"
    "rfbInitOneRGBTable (greenMax fi) (greenMax fo) (greenShift fo) (bigEndian fo \<noteq> bigEndian fi) = Some (g :: 'a word list)"
    "rfbInitOneRGBTable (blueMax fi) (blueMax fo) (blueShift fo) (bigEndian fo \<noteq> bigEndian fi) = Some (b :: 'a word list)"
    using one assms unfolding has_colours_def table_fits_def by metis
  then show ?thesis unfolding rfbInitTrueColourRGBTables_def Let_def by simp
qed

text \<open>Tables that were made show that the formats could be computed with.\<close>

lemma rgb_tables_fit:
  assumes "rfbInitTrueColourRGBTables fi fo = Some (t :: 'a::len word list)"
  shows "has_colours fi" "table_fits fi fo"
proof -
  have one: "m \<noteq> 0 \<and> channel_fits m m' s" if "rfbInitOneRGBTable m m' s sw = Some (t :: 'a word list)" for m m' s sw t
  proof -
    have e: "rgb_entry m m' s sw (unat m) = Some (t ! unat m)" using those_nth(2)[OF that[unfolded rfbInitOneRGBTable_def]] by simp
    then have "m \<noteq> 0 \<and> \<not> 2 ^ 31 \<le> unat m * unat m' + unat m div 2" "unat s < 32"
      by (auto simp: rgb_entry_def rescale_def shift_left_def split: if_splits)
    then show ?thesis by (simp add: channel_fits_def)
  qed
  from assms obtain r g b where
    "rfbInitOneRGBTable (redMax fi) (redMax fo) (redShift fo) (bigEndian fo \<noteq> bigEndian fi) = Some (r :: 'a word list)"
    "rfbInitOneRGBTable (greenMax fi) (greenMax fo) (greenShift fo) (bigEndian fo \<noteq> bigEndian fi) = Some (g :: 'a word list)"
    "rfbInitOneRGBTable (blueMax fi) (blueMax fo) (blueShift fo) (bigEndian fo \<noteq> bigEndian fi) = Some (b :: 'a word list)"
    by (auto simp: rfbInitTrueColourRGBTables_def Let_def split: Option.bind_splits)
  from one[OF this(1)] one[OF this(2)] one[OF this(3)] show "has_colours fi" "table_fits fi fo"
    by (simp_all add: has_colours_def table_fits_def)
qed

text \<open>
  C32: Translating a pixel of the server into 8, 16 or 32 bits, by three tables or by the single one, gives
  the client exactly the nearest shades of its red, green and blue, read with the byte order, the shifts and
  the maxima the client asked for. The maxima of the server must not be zero, and products of maxima have
  to be of type \<open>int\<close>; then the tables can be made.
\<close>

theorem rfbTranslate_colours:
  assumes "plain_width TYPE('a::len)" "format_ok LENGTH('a) fo" "\<not> bigEndian fi"
    and "has_colours fi" "table_fits fi fo"
  shows "\<exists>t t1 :: 'a word list. rfbInitTrueColourRGBTables fi fo = Some t \<and> rfbInitTrueColourSingleTable fi fo = Some t1 \<and>
    (\<forall>p q. q = rgb_pixel fi t p \<or> (p < 2 ^ unat (bitsPerPixel fi) \<and> q = t1 ! p) \<longrightarrow>
         red fo (client_value fo q) = shade (redMax fi) (redMax fo) (red fi p) \<and>
         green fo (client_value fo q) = shade (greenMax fi) (greenMax fo) (green fi p) \<and>
         blue fo (client_value fo q) = shade (blueMax fi) (blueMax fo) (blue fi p))"
proof -
  obtain t t1 :: "'a word list" where t: "rfbInitTrueColourRGBTables fi fo = Some t" and t1: "rfbInitTrueColourSingleTable fi fo = Some t1"
    using rgb_tables_exist [OF assms(4,5)] single_table_exists [OF assms(4,5)] by metis
  have "red fo (client_value fo q) = shade (redMax fi) (redMax fo) (red fi p) \<and>
      green fo (client_value fo q) = shade (greenMax fi) (greenMax fo) (green fi p) \<and>
      blue fo (client_value fo q) = shade (blueMax fi) (blueMax fo) (blue fi p)"
    if "q = rgb_pixel fi t p \<or> (p < 2 ^ unat (bitsPerPixel fi) \<and> q = t1 ! p)" for p q
  proof -
    have "single_entry fi fo p = Some q"
      using that rgb_tables_entry [OF t plain_whole[OF assms(1)], of p] those_nth(2) [OF t1 [unfolded rfbInitTrueColourSingleTable_def], of p]
      by auto
    then show ?thesis using single_entry_colours [OF plain_whole[OF assms(1)] assms(2-5), of p] by (metis option.inject)
  qed
  with t t1 show ?thesis by blast
qed

definition rgb888 :: rfbPixelFormat where
  "rgb888 = \<lparr>bitsPerPixel = 32, depth = 24, bigEndian = False, trueColour = True, redMax = 255,
     greenMax = 255, blueMax = 255, redShift = 16, greenShift = 8, blueShift = 0\<rparr>"

definition rgb565_big :: rfbPixelFormat where
  "rgb565_big = \<lparr>bitsPerPixel = 16, depth = 16, bigEndian = True, trueColour = True, redMax = 31,
     greenMax = 63, blueMax = 31, redShift = 11, greenShift = 5, blueShift = 0\<rparr>"

lemma format_ok_rgb565: "format_ok 16 rgb565_big"
  unfolding format_ok_def
  by (rule exI [of _ 5], rule exI [of _ 6], rule exI [of _ 5])
    (simp add: rgb565_big_def channel_ok_def apart_def)

lemma format_ok_rgb888: "format_ok 32 rgb888"
  unfolding format_ok_def
  by (rule exI [of _ 8], rule exI [of _ 8], rule exI [of _ 8])
    (simp add: rgb888_def channel_ok_def apart_def)

theorem rfbTranslate_colours_witness:
  "\<exists>t :: 16 word list. rfbInitTrueColourRGBTables rgb888 rgb565_big = Some t \<and>
     red rgb565_big (client_value rgb565_big (rgb_pixel rgb888 t 0xff8000)) = 31 \<and>
     green rgb565_big (client_value rgb565_big (rgb_pixel rgb888 t 0xff8000)) = 32"
proof -
  have c: "redMax rgb888 = 255" "greenMax rgb888 = 255" "blueMax rgb888 = 255" "\<not> bigEndian rgb888"
    "redMax rgb565_big = 31" "greenMax rgb565_big = 63"
    by (simp_all add: rgb888_def rgb565_big_def)
  have f: "format_ok LENGTH(16) rgb565_big" using format_ok_rgb565 by simp
  have w: "plain_width TYPE(16)" by (simp add: plain_width_def)
  have fits: "has_colours rgb888" "table_fits rgb888 rgb565_big"
    by (simp_all add: has_colours_def table_fits_def channel_fits_def rgb888_def rgb565_big_def)
  have v: "red rgb888 0xff8000 = 255" "green rgb888 0xff8000 = 128"
    by (simp_all add: red_def green_def component_def rgb888_def)
  have s: "shade 255 31 255 = 31" "shade 255 63 128 = 32" by (simp_all add: shade_def)
  obtain t :: "16 word list" where "rfbInitTrueColourRGBTables rgb888 rgb565_big = Some t"
    "red rgb565_big (client_value rgb565_big (rgb_pixel rgb888 t 0xff8000)) = shade 255 31 (red rgb888 0xff8000)"
    "green rgb565_big (client_value rgb565_big (rgb_pixel rgb888 t 0xff8000)) = shade 255 63 (green rgb888 0xff8000)"
    using rfbTranslate_colours [OF w f c(4) fits] unfolding c(1,2,5,6) by blast
  then show ?thesis unfolding v s by blast
qed

lemma small_table: "\<exists>t. rfbInitTrueColourSingleTable BGR233Format rgb888 = Some (t :: 32 word list)"
  by (rule single_table_exists) (simp_all add: has_colours_def table_fits_def channel_fits_def BGR233Format_def rgb888_def)

theorem rfbTranslate_tables_agree_witness:
  "\<exists>t1 t3 :: 32 word list. rfbInitTrueColourSingleTable BGR233Format rgb888 = Some t1 \<and>
     rfbInitTrueColourRGBTables BGR233Format rgb888 = Some t3 \<and>
     rfbTranslateWithRGBTables BGR233Format t3 [0, 7, 56, 192] 2 2 2 =
     rfbTranslateWithSingleTable t1 [0, 7, 56, 192] 2 2 2"
proof -
  obtain t1 :: "32 word list" where t1: "rfbInitTrueColourSingleTable BGR233Format rgb888 = Some t1"
    using small_table by blast
  obtain t3 :: "32 word list" where t3: "rfbInitTrueColourRGBTables BGR233Format rgb888 = Some t3"
    using rgb_tables_exist [of BGR233Format rgb888]
    by (auto simp: has_colours_def table_fits_def channel_fits_def BGR233Format_def rgb888_def)
  have "rfbTranslateWithRGBTables BGR233Format t3 [0, 7, 56, 192] 2 2 2 =
     rfbTranslateWithSingleTable t1 [0, 7, 56, 192] 2 2 2"
    by (rule rfbTranslate_tables_agree [OF _ t1 t3]) (auto simp: BGR233Format_def plain_width_def)
  with t1 t3 show ?thesis by blast
qed

section \<open>There and back\<close>

lemma shade_back:
  assumes "c \<le> unat m" "unat m \<le> unat m'" "odd (unat m)" "odd (unat m')"
  shows "shade m' m (shade m m' c) = c"
proof -
  obtain a where a: "unat m = 2 * a + 1" using assms(3) by (auto elim: oddE)
  obtain b where b: "unat m' = 2 * b + 1" using assms(4) by (auto elim: oddE)
  define M where "M = 2 * b + 1"
  define N where "N = 2 * a + 1"
  define q where "q = (c * M + a) div N"
  have q: "q * N \<le> c * M + a" "c * M + a < q * N + N"
  proof -
    define r where "r = (c * M + a) mod N"
    have "q * N + r = c * M + a" "r < N" by (simp_all add: q_def r_def N_def del: mult_Suc mult_Suc_right)
    then show "q * N \<le> c * M + a" "c * M + a < q * N + N" by linarith+
  qed
  have "c * M \<le> q * N + b" using q(2) assms(2) a b by (simp add: N_def)
  moreover have "q * N + b < (c + 1) * M"
    using q(1) assms(2) a b by (simp add: M_def algebra_simps)
  ultimately have "(q * N + b) div M = c" by (simp add: div_nat_eqI mult.commute)
  then show ?thesis using a b by (simp add: shade_def q_def M_def N_def)
qed

lemma channel_odd: "channel_ok k s m n \<Longrightarrow> odd (unat m)"
  by (auto simp: channel_ok_def)

lemma format_odd: "format_ok k f \<Longrightarrow> odd (unat (redMax f)) \<and> odd (unat (greenMax f)) \<and> odd (unat (blueMax f))"
  by (auto simp: format_ok_def dest: channel_odd)

lemma odd_nonzero: "odd (unat (w :: uint16_t)) \<Longrightarrow> w \<noteq> 0"
  by auto

lemma client_value_little:
  "whole_bytes TYPE('a) \<Longrightarrow> \<not> bigEndian f \<Longrightarrow> client_value f (p :: 'a::len word) = unat p"
  by (simp add: client_value_def)

text \<open>
  C33: Translating a pixel to a format of 8, 16 or 32 bits with at least as many shades of every colour and
  back again restores its red, green and blue.
\<close>

theorem rfbTranslate_back:
  fixes p :: nat
  assumes "plain_width TYPE('a::len)" "plain_width TYPE('b::len)"
    and "format_ok LENGTH('a) fo" "format_ok LENGTH('b) fi" "\<not> bigEndian fi" "\<not> bigEndian fo"
    and "redMax fi \<le> redMax fo" "greenMax fi \<le> greenMax fo" "blueMax fi \<le> blueMax fo"
    and "rfbInitTrueColourRGBTables fi fo = Some (t :: 'a word list)"
    and "rfbInitTrueColourRGBTables fo fi = Some (t' :: 'b word list)"
  defines "q \<equiv> unat (rgb_pixel fo t' (unat (rgb_pixel fi t p)))"
  shows "red fi q = red fi p \<and> green fi q = green fi p \<and> blue fi q = blue fi p"
proof -
  note o_in = format_odd [OF assms(4)] and o_out = format_odd [OF assms(3)]
  note w = plain_whole [OF assms(1)] plain_whole [OF assms(2)]
  note there = single_entry_colours [OF w(1) assms(3,5) rgb_tables_fit [OF assms(10)], of p,
      unfolded rgb_tables_entry [OF assms(10) w(1)] option.inject]
  note back_again = single_entry_colours [OF w(2) assms(4,6) rgb_tables_fit [OF assms(11)], of "unat (rgb_pixel fi t p)",
      unfolded rgb_tables_entry [OF assms(11) w(2)] option.inject]
  have "red fo (unat (rgb_pixel fi t p)) = shade (redMax fi) (redMax fo) (red fi p) \<and>
      green fo (unat (rgb_pixel fi t p)) = shade (greenMax fi) (greenMax fo) (green fi p) \<and>
      blue fo (unat (rgb_pixel fi t p)) = shade (blueMax fi) (blueMax fo) (blue fi p)"
    using there by (metis client_value_little [OF w(1) assms(6)])
  moreover have "red fi q = shade (redMax fo) (redMax fi) (red fo (unat (rgb_pixel fi t p))) \<and>
      green fi q = shade (greenMax fo) (greenMax fi) (green fo (unat (rgb_pixel fi t p))) \<and>
      blue fi q = shade (blueMax fo) (blueMax fi) (blue fo (unat (rgb_pixel fi t p)))"
    unfolding q_def using back_again by (metis client_value_little [OF w(2) assms(5)])
  moreover have "red fi p \<le> unat (redMax fi)" "green fi p \<le> unat (greenMax fi)" "blue fi p \<le> unat (blueMax fi)"
    by (simp_all add: red_def green_def blue_def component_le)
  ultimately show ?thesis
    using shade_back o_in o_out assms(7-9) by (simp add: word_le_nat_alt)
qed

definition rgb565 :: rfbPixelFormat where
  "rgb565 = rgb565_big\<lparr>bigEndian := False\<rparr>"

theorem rfbTranslate_back_witness:
  "\<exists>t t'. rfbInitTrueColourRGBTables rgb565 rgb888 = Some (t :: 32 word list) \<and>
     rfbInitTrueColourRGBTables rgb888 rgb565 = Some (t' :: 16 word list) \<and>
     red rgb565 (unat (rgb_pixel rgb888 t' (unat (rgb_pixel rgb565 t 0xabcd)))) = 21"
proof -
  have f: "format_ok LENGTH(32) rgb888" "format_ok LENGTH(16) rgb565"
    using format_ok_rgb565 format_ok_rgb888 by (simp_all add: rgb565_def format_ok_def)
  have fits: "has_colours rgb565" "table_fits rgb565 rgb888" "has_colours rgb888" "table_fits rgb888 rgb565"
    by (simp_all add: has_colours_def table_fits_def channel_fits_def rgb565_def rgb565_big_def rgb888_def)
  obtain t :: "32 word list" where t: "rfbInitTrueColourRGBTables rgb565 rgb888 = Some t"
    using rgb_tables_exist [OF fits(1,2)] by blast
  obtain t' :: "16 word list" where t': "rfbInitTrueColourRGBTables rgb888 rgb565 = Some t'"
    using rgb_tables_exist [OF fits(3,4)] by blast
  have "red rgb565 (unat (rgb_pixel rgb888 t' (unat (rgb_pixel rgb565 t 0xabcd)))) = red rgb565 0xabcd"
    using rfbTranslate_back [OF _ _ f _ _ _ _ _ t t', of "0xabcd"]
    by (simp add: plain_width_def rgb565_def rgb565_big_def rgb888_def)
  moreover have "red rgb565 0xabcd = 21"
    by (simp add: red_def component_def rgb565_def rgb565_big_def)
  ultimately show ?thesis using t t' by simp
qed

section \<open>24 bits\<close>

text \<open>
  A pixel translated with three tables into 24 bits has nothing but its least significant byte:
  the translation reads single bytes of tables whose entries are three bytes, so its second and
  third byte are always zero, whatever the formats and the pixel.
\<close>

theorem rfbTranslate_into_24:
  "take 3 (pixel_bytes (rgb_pixel24 fi table p)) = [ucast (rgb_pixel24 fi table p), 0, 0]"
proof -
  have "\<not> bit (rgb_pixel24 fi table p) n" if "8 \<le> n" for n
    using that by (auto simp: rgb_pixel24_def Let_def bit_simps dest: bit_imp_le_length)
  then have "ucast (drop_bit 8 (rgb_pixel24 fi table p)) = (0 :: uint8_t)"
    "ucast (drop_bit 16 (rgb_pixel24 fi table p)) = (0 :: uint8_t)"
    by (auto intro!: bit_word_eqI simp: bit_simps)
  then show ?thesis by (simp add: pixel_bytes_def pixel_size_def upt_rec)
qed

section \<open>Choosing a translation\<close>

lemma tables_exist:
  assumes "has_colours sf" "table_fits sf fo"
  shows "\<exists>R. rgb_tables sf fo = Some R" "\<exists>S. single_table sf fo = Some S"
  using rgb_tables_exist [OF assms, where 'a = 8] rgb_tables_exist [OF assms, where 'a = 16]
    rgb_tables_exist [OF assms, where 'a = 24] rgb_tables_exist [OF assms, where 'a = 32]
    single_table_exists [OF assms, where 'a = 8] single_table_exists [OF assms, where 'a = 16]
    single_table_exists [OF assms, where 'a = 24] single_table_exists [OF assms, where 'a = 32]
  by (auto simp: rgb_tables_def single_table_def)

text \<open>A format without shades of a colour makes every translation divide by zero.\<close>

lemma tables_None:
  assumes "\<not> has_colours fi"
  shows "rfbInitTrueColourSingleTable fi fo = (None :: 'a::len word list option)"
    and "rfbInitTrueColourRGBTables fi fo = (None :: 'a word list option)"
proof -
  have z: "redMax fi = 0 \<or> greenMax fi = 0 \<or> blueMax fi = 0" using assms by (auto simp: has_colours_def)
  have "[0..<2 ^ n] = 0 # [1..<2 ^ n]" for n by (simp add: upt_conv_Cons)
  moreover have "single_entry fi fo 0 = (None :: 'a word option)"
    using z by (auto simp: single_entry_def rescale_def split: Option.bind_splits)
  ultimately show "rfbInitTrueColourSingleTable fi fo = (None :: 'a word list option)"
    by (simp add: rfbInitTrueColourSingleTable_def)
  have "rfbInitOneRGBTable 0 m s sw = (None :: 'a word list option)" for m s sw
    by (simp add: rfbInitOneRGBTable_def rgb_entry_def rescale_def)
  then show "rfbInitTrueColourRGBTables fi fo = (None :: 'a word list option)"
    using z by (auto simp: rfbInitTrueColourRGBTables_def Let_def split: Option.bind_splits)
qed

lemma no_tables: "\<not> has_colours sf \<Longrightarrow> rgb_tables sf fo = None \<and> single_table sf fo = None"
  by (simp add: rgb_tables_def single_table_def tables_None)

text \<open>The translation into the format \<open>f\<close>, if its tables can be made.\<close>

definition chosen_translation :: "bool \<Rightarrow> rfbPixelFormat \<Rightarrow> rfbPixelFormat \<Rightarrow> translate_fn option" where
  "chosen_translation economic sf f =
     (let b_in = unat (bitsPerPixel sf); b_out = unat (bitsPerPixel f)
      in if PF_EQ f sf then Some TranslateNone
         else if b_in < 16 \<or> (\<not> economic \<and> b_in = 16) then map_option (TranslateWithSingleTable b_in b_out) (single_table sf f)
         else map_option (TranslateWithRGBTables b_in b_out) (rgb_tables sf f))"

lemma bind_map: "(do { t \<leftarrow> x; Some (g t) }) = map_option g x"
  by (cases x) simp_all

text \<open>A true colour client of a valid size keeps its format.\<close>

lemma rfbSetTranslateFunction_true:
  assumes "trueColour (ts_serverFormat scr)" "valid_bpp (bitsPerPixel (ts_serverFormat scr))"
    and "has_colours (ts_serverFormat scr)" "table_fits (ts_serverFormat scr) (format cl)"
    and "trueColour (format cl)" "valid_bpp (bitsPerPixel (format cl))"
  shows "\<exists>fn. chosen_translation economic (ts_serverFormat scr) (format cl) = Some fn \<and>
    (\<forall>k. rfbSetTranslateFunction economic scr (cl\<lparr>conn := k\<rparr>) = Some (True, cl\<lparr>conn := k, translateFn := fn\<rparr>))"
proof -
  obtain R S where "rgb_tables (ts_serverFormat scr) (format cl) = Some R" "single_table (ts_serverFormat scr) (format cl) = Some S"
    using tables_exist[OF assms(3,4)] by blast
  then show ?thesis
    using assms by (auto simp: rfbSetTranslateFunction_def chosen_translation_def Let_def)
qed

text \<open>The format pixels are sent in, and when it comes to choosing a translation into it.\<close>

definition sent_format :: "translate_client \<Rightarrow> rfbPixelFormat" where
  "sent_format cl = (if trueColour (format cl) then format cl else BGR233Format)"

definition translates :: "translate_screen \<Rightarrow> translate_client \<Rightarrow> bool" where
  "translates scr cl \<longleftrightarrow> valid_bpp (bitsPerPixel (ts_serverFormat scr)) \<and> valid_bpp (bitsPerPixel (format cl)) \<and>
     (trueColour (format cl) \<or> bitsPerPixel (format cl) = 8 \<and> fst (rfbSetClientColourMapBGR233 cl))"

text \<open>The choice, once it comes to it.\<close>

lemma rfbSetTranslateFunction_eq:
  assumes "trueColour (ts_serverFormat scr)"
  shows "\<not> translates scr cl \<Longrightarrow> \<exists>cl'. rfbSetTranslateFunction economic scr cl = Some (False, cl') \<and> sock (conn cl') = -1"
    and "translates scr cl \<Longrightarrow> \<exists>c. format c = sent_format cl \<and> rfbSetTranslateFunction economic scr cl =
      map_option (\<lambda>fn. (True, c\<lparr>translateFn := fn\<rparr>)) (chosen_translation economic (ts_serverFormat scr) (sent_format cl))"
proof -
  obtain ok c where c: "rfbSetClientColourMapBGR233 cl = (ok, c)" by fastforce
  have close: "sock (rfbCloseClient k) = -1" for k by (simp add: rfbCloseClient_def)
  have failed: "\<not> ok \<Longrightarrow> sock (conn c) = -1"
    using c by (auto simp: rfbSetClientColourMapBGR233_def Let_def close split: prod.splits if_splits)
  show "\<exists>cl'. rfbSetTranslateFunction economic scr cl = Some (False, cl') \<and> sock (conn cl') = -1" if "\<not> translates scr cl"
    using that assms failed by (auto simp: rfbSetTranslateFunction_def translates_def Let_def c close)
  assume t: "translates scr cl"
  then have v: "valid_bpp (bitsPerPixel (ts_serverFormat scr))" "valid_bpp (bitsPerPixel (format cl))"
    and col: "trueColour (format cl) \<or> bitsPerPixel (format cl) = 8 \<and> ok" by (auto simp: translates_def c)
  show "\<exists>c. format c = sent_format cl \<and> rfbSetTranslateFunction economic scr cl =
      map_option (\<lambda>fn. (True, c\<lparr>translateFn := fn\<rparr>)) (chosen_translation economic (ts_serverFormat scr) (sent_format cl))"
  proof (cases "trueColour (format cl)")
    case True
    then show ?thesis using v assms by (intro exI[of _ cl]) (simp add: rfbSetTranslateFunction_def chosen_translation_def sent_format_def Let_def bind_map option.map_comp comp_def)
  next
    case False
    then show ?thesis using v assms col
      by (intro exI[of _ "c\<lparr>format := BGR233Format\<rparr>"]) (simp add: rfbSetTranslateFunction_def chosen_translation_def sent_format_def Let_def bind_map option.map_comp comp_def c)
  qed
qed

text \<open>
  C34: Choosing a translation on a true colour server. When numbers and shifts fit in an \<open>int\<close>, it divides by zero in
  exactly one case: a maximum of the server is zero, the client's format is valid and not the server's.
  Otherwise it succeeds for every valid format, where a client without true colour must have 8 bits and got its
  colour map; it then has the format it asked for or BGR233, and its pixels go untranslated exactly if that
  is the server's format. When it fails the connection is closed.
\<close>

theorem rfbSetTranslateFunction_total:
  assumes "trueColour (ts_serverFormat scr)" "table_fits (ts_serverFormat scr) (sent_format cl)"
  shows "(rfbSetTranslateFunction economic scr cl = None \<longleftrightarrow>
      translates scr cl \<and> \<not> PF_EQ (sent_format cl) (ts_serverFormat scr) \<and> \<not> has_colours (ts_serverFormat scr)) \<and>
    (\<forall>ok cl'. rfbSetTranslateFunction economic scr cl = Some (ok, cl') \<longrightarrow> (ok \<longleftrightarrow> translates scr cl) \<and>
      (if ok then format cl' = sent_format cl \<and> (translateFn cl' = TranslateNone \<longleftrightarrow> PF_EQ (sent_format cl) (ts_serverFormat scr))
       else sock (conn cl') = -1))"
proof (cases "translates scr cl")
  case False
  then show ?thesis using rfbSetTranslateFunction_eq(1)[OF assms(1) False, of economic] by auto
next
  case True
  let ?sf = "ts_serverFormat scr" and ?f = "sent_format cl"
  obtain c where c: "format c = ?f" and e: "rfbSetTranslateFunction economic scr cl =
      map_option (\<lambda>fn. (True, c\<lparr>translateFn := fn\<rparr>)) (chosen_translation economic ?sf ?f)"
    using rfbSetTranslateFunction_eq(2)[OF assms(1) True, of economic] by blast
  show ?thesis
  proof (cases "has_colours ?sf")
    case colours: True
    then obtain R S where "rgb_tables ?sf ?f = Some R" "single_table ?sf ?f = Some S" using tables_exist[OF _ assms(2)] by blast
    then show ?thesis using True c colours unfolding e by (auto simp: chosen_translation_def Let_def split: if_splits)
  next
    case False
    then show ?thesis using True c no_tables[OF False, of ?f] unfolding e by (auto simp: chosen_translation_def Let_def split: if_splits)
  qed
qed

definition new_translate_client :: "rfbPixelFormat \<Rightarrow> translate_client" where
  "new_translate_client f =
     \<lparr>conn = \<lparr>sock = 7, client_state = RFB_NORMAL, protocolMajorVersion = 3, protocolMinorVersion = 8,
              reverseConnection = False, viewOnly = False, authChallenge = [], inbuf = [], outbuf = [],
              write_ok = True, rands = []\<rparr>,
      format = f, translateFn = TranslateNone\<rparr>"

theorem rfbSetTranslateFunction_total_witness:
  "(\<exists>cl'. rfbSetTranslateFunction False \<lparr>ts_serverFormat = rgb888, colourMap = \<lparr>cm_count = 0, is16 = False, cm_data = []\<rparr>\<rparr>
      (new_translate_client rgb565_big) = Some (True, cl') \<and> translateFn cl' \<noteq> TranslateNone) \<and>
   rfbSetTranslateFunction False \<lparr>ts_serverFormat = rgb888\<lparr>greenMax := 0\<rparr>, colourMap = \<lparr>cm_count = 0, is16 = False, cm_data = []\<rparr>\<rparr>
      (new_translate_client rgb565_big) = None"
proof -
  let ?scr = "\<lambda>f. \<lparr>ts_serverFormat = f, colourMap = \<lparr>cm_count = 0, is16 = False, cm_data = []\<rparr>\<rparr>"
  let ?cl = "new_translate_client rgb565_big"
  let ?none = "rgb888\<lparr>greenMax := 0\<rparr>"
  have f: "sent_format ?cl = rgb565_big" by (simp add: sent_format_def new_translate_client_def rgb565_big_def)
  have t: "trueColour (ts_serverFormat (?scr rgb888))" "trueColour (ts_serverFormat (?scr ?none))" by (simp_all add: rgb888_def)
  have fits: "table_fits (ts_serverFormat (?scr rgb888)) (sent_format ?cl)" "table_fits (ts_serverFormat (?scr ?none)) (sent_format ?cl)"
    unfolding f by (simp_all add: table_fits_def channel_fits_def rgb888_def rgb565_big_def)
  have tr: "translates (?scr rgb888) ?cl" "translates (?scr ?none) ?cl"
    by (simp_all add: translates_def valid_bpp_def new_translate_client_def rgb565_big_def rgb888_def)
  have ne: "\<not> PF_EQ (sent_format ?cl) (ts_serverFormat (?scr rgb888))" "\<not> PF_EQ (sent_format ?cl) (ts_serverFormat (?scr ?none))"
    unfolding f by (simp_all add: PF_EQ_def rgb888_def rgb565_big_def)
  have col: "has_colours (ts_serverFormat (?scr rgb888))" "\<not> has_colours (ts_serverFormat (?scr ?none))"
    by (simp_all add: has_colours_def rgb888_def)
  note one = rfbSetTranslateFunction_total[OF t(1) fits(1), of False] and two = rfbSetTranslateFunction_total[OF t(2) fits(2), of False]
  from one col(1) obtain ok cl' where r: "rfbSetTranslateFunction False (?scr rgb888) ?cl = Some (ok, cl')" by fastforce
  from r one tr(1) ne(1) have "ok \<and> translateFn cl' \<noteq> TranslateNone" by metis
  then show ?thesis using r two tr(2) ne(2) col(2) by auto
qed

lemma rfbSetTranslateFunction_zero:
  assumes "trueColour (ts_serverFormat scr)" "redMax (ts_serverFormat scr) = 0" "valid_bpp (bitsPerPixel (ts_serverFormat scr))"
    and "trueColour (format cl)" "valid_bpp (bitsPerPixel (format cl))" "redMax (format cl) \<noteq> 0"
  shows "rfbSetTranslateFunction economic scr cl = None"
proof -
  let ?sf = "ts_serverFormat scr" and ?f = "format cl"
  have "\<not> has_colours ?sf" using assms(2) by (simp add: has_colours_def)
  note none = no_tables[OF this, of ?f]
  moreover have "\<not> PF_EQ ?f ?sf" using assms by (auto simp: PF_EQ_def)
  ultimately show ?thesis using assms by (simp add: rfbSetTranslateFunction_def Let_def)
qed

end
