(* ===== verification/FbInput.thy ===== *)
theory FbInput
  imports FbServer TranslateCorrect
begin

text \<open>
  What the viewers' input becomes: which events the input device gets from sequences of pointer and
  key events, in which range, and what rotating the screen leaves behind.
\<close>

section \<open>Events in a trace\<close>

text \<open>The events the server tried to write, in order.\<close>

fun event_of :: "syscall \<times> int \<Rightarrow> input_event list" where
  "event_of (WriteEvent _ e, _) = [e]"
| "event_of _ = []"

definition events :: "trace \<Rightarrow> input_event list" where
  "events t = concat (map event_of t)"

lemma events_append [simp]: "events (t @ u) = events t @ events u"
  by (simp add: events_def)

lemma events_write [simp]:
  "events (snd (suinput_write k fd type code val t)) = events t @ [(type, code, val)]"
  by (simp add: suinput_write_def call_def Let_def events_def)

lemma events_send [simp]:
  "events (sys (send_event k type code val st)) = events (sys st) @ [(type, code, val)]"
  "events (sys (press_key k code st)) = events (sys st) @ [(EV_KEY, code, 1)]"
  "events (sys (release_key k code st)) = events (sys st) @ [(EV_KEY, code, 0)]"
  by (simp_all add: send_event_def press_key_def release_key_def suinput_press_def suinput_release_def)

lemma send_fields [simp]:
  "leftClicked (send_event k type code val st) = leftClicked st"
  "leftClicked (press_key k code st) = leftClicked st"
  "leftClicked (release_key k code st) = leftClicked st"
  "running (send_event k type code val st) = running st"
  "running (press_key k code st) = running st" "running (release_key k code st) = running st"
  by (simp_all add: send_event_def press_key_def release_key_def)

section \<open>Touches\<close>

definition touches :: "trace \<Rightarrow> int list" where
  "touches t = map (\<lambda>(_, _, val). val) (filter (\<lambda>(type, code, _). type = EV_KEY \<and> code = BTN_TOUCH) (events t))"

definition alternating :: "int list \<Rightarrow> bool" where
  "alternating vs \<longleftrightarrow> (\<forall>i < length vs. vs ! i = (if even i then 1 else 0))"

lemma alternating_snoc:
  "alternating (vs @ [v]) \<longleftrightarrow> alternating vs \<and> v = (if even (length vs) then 1 else 0)"
  by (auto simp: alternating_def nth_append less_Suc_eq)

definition touch_ok :: "'p android \<Rightarrow> bool" where
  "touch_ok st \<longleftrightarrow> alternating (touches (sys st)) \<and> (leftClicked st \<longleftrightarrow> odd (length (touches (sys st))))"

lemma ptr_left_touch_ok: "touch_ok st \<Longrightarrow> touch_ok (ptr_left k down x y st)"
  by (auto simp: ptr_left_def touch_ok_def touches_def alternating_snoc Let_def event_codes)

lemma ptrevent_touch_ok:
  assumes "touch_ok st"
  shows "touch_ok (ptrevent k buttons x y st)"
proof -
  obtain x' y' where t: "transform_touch_coordinates (rotation st) (scrinfo st) x y = (x', y')" by fastforce
  have "touch_ok (ptr_left k (bit buttons 0) x' y' st)" by (rule ptr_left_touch_ok [OF assms])
  then show ?thesis
    unfolding ptrevent_def t by (auto simp: touch_ok_def touches_def Let_def event_codes)
qed

definition pointer_events :: "kernel \<Rightarrow> (nat \<times> nat \<times> nat) list \<Rightarrow> 'p android \<Rightarrow> 'p android" where
  "pointer_events k es st = fold (\<lambda>(buttons, x, y). ptrevent k buttons x y) es st"

text \<open>
  Whatever pointer events arrive and whether or not the device takes the events, the touch
  events written for them alternate between touching and releasing, beginning with a touch, and the
  screen counts as touched exactly when the server holds the left button for pressed.
\<close>

theorem pointer_events_alternate:
  assumes "sys st = []" "\<not> leftClicked st"
  shows "alternating (touches (sys (pointer_events k es st))) \<and>
         (leftClicked (pointer_events k es st) \<longleftrightarrow> odd (length (touches (sys (pointer_events k es st)))))"
proof -
  have "touch_ok (pointer_events k es st)" if "touch_ok st" for st :: "'a android"
    using that unfolding pointer_events_def
    by (induction es arbitrary: st) (auto simp: ptrevent_touch_ok split: prod.splits)
  moreover have "touch_ok st" using assms by (simp add: touch_ok_def touches_def events_def alternating_def)
  ultimately show ?thesis by (simp add: touch_ok_def)
qed

text \<open>The input of a device without pixels, for the examples.\<close>

definition idle_server :: "nat \<Rightarrow> 32 word android" where
  "idle_server rot = init_fb_server
     \<lparr>xres = 480, yres = 800, xres_virtual = 480, xoffset = 0, yoffset = 0, bits_per_pixel = 32,
      red_offset = 16, green_offset = 8, blue_offset = 0, red_length = 8, green_length = 8, blue_length = 8\<rparr>
     rot 0 \<lparr>cur_xhot = 0, cur_yhot = 0, cur_width = 0, cur_height = 0\<rparr>"

lemma idle_server_simps [simp]:
  "sys (idle_server rot) = []" "\<not> leftClicked (idle_server rot)" "running (idle_server rot)"
  "rotation (idle_server rot) = rot"
  by (simp_all add: idle_server_def init_fb_server_def Let_def)

theorem pointer_events_alternate_witness:
  "alternating (touches (sys (pointer_events (\<lambda>_ _. 16) [(1, 10, 20), (1, 11, 20), (0, 11, 20), (1, 0, 0)] (idle_server 0))))"
  using pointer_events_alternate [of "idle_server 0" "\<lambda>_ _. 16"] by simp

section \<open>Keys\<close>

definition typed :: "key_result \<Rightarrow> input_event list" where
  "typed r =
     (let code = scancode r in
      (if sh r then [(EV_KEY, 42, 1)] else []) @ (if alt r then [(EV_KEY, 56, 1)] else []) @
      [(EV_KEY, code, 1), (EV_KEY, code, 0)] @
      (if alt r then [(EV_KEY, 56, 0)] else []) @ (if sh r then [(EV_KEY, 42, 0)] else []))"

lemma keysym_ranges:
  assumes "32 \<le> c" "c \<le> 127"
  shows "scancode (keysym2scancode down c) \<noteq> 0 \<and> key_effect (keysym2scancode down c) = NoEffect \<and>
         \<not> alt (keysym2scancode down c)"
proof -
  have "c \<in> set [32..<128]" unfolding set_upt atLeastLessThan_iff using assms by linarith
  moreover have "\<forall>c\<in>set [32..<128]. scancode (keysym2scancode down c) \<noteq> 0 \<and>
      key_effect (keysym2scancode down c) = NoEffect \<and> \<not> alt (keysym2scancode down c)"
    by (simp add: upt_conv_Cons keysym2scancode_def shifted_def qwerty_def spec1_def spec1sh_def
        spec2_def spec2sh_def spec3_def spec3sh_def spec4_def spec4sh_def)
  ultimately show ?thesis by blast
qed

text \<open>
  Pressing the key of a printable character types it: the device gets the press and the release
  of a key, enclosed in those of the shift key where the character needs it, and nothing else;
  releasing the key changes nothing at all.
\<close>

theorem keyevent_types:
  assumes "32 \<le> c" "c \<le> 127" "running st"
  shows "events (sys (keyevent k True c st)) = events (sys st) @ typed (keysym2scancode True c) \<and>
         0 < scancode (keysym2scancode True c) \<and> keyevent k False c st = st"
proof -
  let ?r = "keysym2scancode True c"
  have r: "scancode ?r \<noteq> 0" "key_effect ?r = NoEffect" "\<not> alt ?r" using keysym_ranges [OF assms(1,2)] by auto
  have f: "key_effect (keysym2scancode False c) = NoEffect" using keysym_ranges [OF assms(1,2)] by auto
  have "events (sys (keyevent k True c st)) = events (sys st) @ typed ?r"
    using r assms by (simp add: keyevent_def apply_effect_def Let_def typed_def)
  moreover have "keyevent k False c st = st"
    using f assms by (simp add: keyevent_def apply_effect_def Let_def)
  ultimately show ?thesis using r by simp
qed

theorem keyevent_types_witness:
  "events (sys (keyevent (\<lambda>_ _. 16) True 65 (idle_server 0))) =
     [(EV_KEY, 42, 1), (EV_KEY, 30, 1), (EV_KEY, 30, 0), (EV_KEY, 42, 0)]"
  using keyevent_types [of 65 "idle_server 0" "\<lambda>_ _. 16"]
  by (simp add: typed_def keysym2scancode_def shifted_def qwerty_def events_def Let_def)

section \<open>Coordinates\<close>

text \<open>The points a viewer can show: those of the screen in its orientation.\<close>

definition on_screen :: "nat \<Rightarrow> fb_info \<Rightarrow> nat \<Rightarrow> nat \<Rightarrow> bool" where
  "on_screen rot info x y \<longleftrightarrow>
     (if rot = 90 \<or> rot = 270 then x < yres info \<and> y < xres info else x < xres info \<and> y < yres info)"

lemma touch_quotient_bounds:
  assumes "v \<le> res" "0 < res" "res < 2 ^ 16"
  shows "-2048 \<le> touch_quotient (word_of_nat v) res \<and> touch_quotient (word_of_nat v) res \<le> 2048"
    and "touch_quotient (word_of_nat v) res = int (v * 4096 div res) - 2048"
proof -
  have "v * 4096 < 2 ^ 32" "res < 2 ^ 32" using assms by simp_all
  then have w: "unat (word_of_nat (v * 4096) :: uint32_t) = v * 4096" "unat (word_of_nat res :: uint32_t) = res"
    unfolding unsigned_of_nat by (simp_all add: take_bit_nat_eq_self)
  have "word_of_nat v * 4096 = (word_of_nat (v * 4096) :: uint32_t)" by simp
  then have "unat ((word_of_nat v * 4096) div word_of_nat res :: uint32_t) = v * 4096 div res"
    by (simp only: unat_div_distrib w)
  then have "uint ((word_of_nat v * 4096) div word_of_nat res :: uint32_t) = int (v * 4096 div res)"
    by (simp only: uint_nat)
  then show eq: "touch_quotient (word_of_nat v) res = int (v * 4096 div res) - 2048"
    by (simp add: touch_quotient_def)
  have "v * 4096 div res \<le> res * 4096 div res" using assms(1) by (intro div_le_mono mult_le_mono1)
  then show "-2048 \<le> touch_quotient (word_of_nat v) res \<and> touch_quotient (word_of_nat v) res \<le> 2048"
    using assms(2) by (simp add: eq)
qed

text \<open>
  C35: The coordinates the device gets for a point of the screen, in each orientation, are between
  -2048 and 2048; and they leave the range the device was announced with, since the left edge of an
  upright screen is sent as -2048, one less than the announced minimum.
\<close>

theorem touch_coordinates_range:
  assumes "rot \<in> {0, 90, 180, 270}" "on_screen rot info x y"
    and "xres info < 2 ^ 16" "yres info < 2 ^ 16"
  defines "p \<equiv> transform_touch_coordinates rot info x y"
  shows "-2048 \<le> fst p \<and> fst p \<le> absmax (user_dev name ident) ABS_X \<and>
         -2048 \<le> snd p \<and> snd p \<le> absmax (user_dev name ident) ABS_Y \<and>
         (rot = 0 \<and> x = 0 \<longrightarrow> fst p < absmin (user_dev name ident) ABS_X)"
proof -
  have q: "-2048 \<le> touch_quotient (word_of_nat v) r" "touch_quotient (word_of_nat v) r \<le> 2048"
    if "v \<le> r" "0 < r" "r < 2 ^ 16" for v r using touch_quotient_bounds(1) [OF that] by auto
  have q': "-2048 \<le> touch_quotient (word_of_nat r - word_of_nat v) r"
    "touch_quotient (word_of_nat r - word_of_nat v) r \<le> 2048" if "v \<le> r" "0 < r" "r < 2 ^ 16" for v r
    using q [of "r - v" r] that by (simp_all add: of_nat_diff)
  have pos: "0 < xres info" "0 < yres info" using assms(2) by (auto simp: on_screen_def split: if_splits)
  have "x = 0 \<Longrightarrow> touch_quotient (word_of_nat x) (xres info) = -2048"
    using touch_quotient_bounds(2) [of 0 "xres info"] pos assms(3) by simp
  then show ?thesis
    using assms(1-4) pos unfolding p_def transform_touch_coordinates_def on_screen_def
    by (auto simp: Let_def user_dev_def event_codes intro!: q q' split: if_splits)
qed

theorem touch_coordinates_range_witness:
  "fst (transform_touch_coordinates 0 (scrinfo (idle_server 0)) 0 5)
     < absmin (user_dev ''qwerty'' \<lparr>bustype = 6, vendor = 1, product = 1, version = 1\<rparr>) ABS_X"
proof -
  have i: "xres (scrinfo (idle_server 0)) = 480" "yres (scrinfo (idle_server 0)) = 800"
    by (simp_all add: idle_server_def init_fb_server_def Let_def)
  show ?thesis
    using touch_coordinates_range [of 0 "scrinfo (idle_server 0)" 0 5 "''qwerty''"
        "\<lparr>bustype = 6, vendor = 1, product = 1, version = 1\<rparr>"]
    by (simp add: on_screen_def i)
qed

section \<open>Rotation\<close>

lemma for_clients_clients:
  "us_clients (for_clients f scr) = map (\<lambda>cl. if 0 \<le> uc_sock cl then f cl else cl) (us_clients scr)"
  by (simp add: for_clients_def)

lemma mark_keeps_format:
  assumes "cl \<in> set (us_clients (rfbMarkRectAsModified scr x1 y1 x2 y2))"
  obtains cl' where "cl' \<in> set (us_clients scr)" "uc_sock cl' = uc_sock cl" "translate_format cl' = translate_format cl"
proof -
  have "cl \<in> set (us_clients scr) \<or> (\<exists>r. cl \<in> set (us_clients (rfbMarkRegionAsModified scr r)))"
    using assms by (auto simp: rfbMarkRectAsModified_def split: option.splits)
  then show thesis
    by (auto simp: rfbMarkRegionAsModified_def for_clients_clients mark_client_def split: if_splits intro: that)
qed

lemma renew_fields:
  "translate_format (renew_client f True w h cl) = f" "uc_sock (renew_client f ch w h cl) = uc_sock cl"
  by (simp_all add: renew_client_def Let_def)

definition bare_format :: "fb_info \<Rightarrow> rfbPixelFormat" where
  "bare_format info = rfbInitServerFormat (8 * (int (bits_per_pixel info) div 8)) 0"

lemma rotate_clients:
  assumes "us_serverFormat (vncscr st) \<noteq> bare_format (scrinfo st)"
    and "cl \<in> set (us_clients (vncscr (rotate_screen st)))" "0 \<le> uc_sock cl"
  shows "translate_format cl = bare_format (scrinfo st)"
proof -
  let ?new = "\<lambda>w h. rfbNewFramebuffer (vncscr st) w h 0 (int (bits_per_pixel (scrinfo st)) div 8)"
  from assms(2) obtain w h f x1 y1 x2 y2 where
    "cl \<in> set (us_clients (rfbMarkRectAsModified ((?new w h)\<lparr>us_serverFormat := f\<rparr>) x1 y1 x2 y2))"
    by (auto simp: rotate_screen_def Let_def split: if_splits)
  then obtain cl' where cl': "cl' \<in> set (us_clients (?new w h))" "uc_sock cl' = uc_sock cl"
    "translate_format cl' = translate_format cl" by (rule mark_keeps_format) simp
  then show ?thesis
    using assms(1,3) by (auto simp: rfbNewFramebuffer_def Let_def for_clients_clients bare_format_def
        renew_fields split: if_splits)
qed

text \<open>
  When the screen of a device with 16 or 32 bits is rotated, the translation of every connected
  client is set up for a server format without colours, and for a viewer with a true colour format
  of any shades this divides by zero.
\<close>

theorem rotate_divides_by_zero:
  assumes "bits_per_pixel (scrinfo st) = 16 \<or> bits_per_pixel (scrinfo st) = 32"
    and "us_serverFormat (vncscr st) \<noteq> bare_format (scrinfo st)"
    and "cl \<in> set (us_clients (vncscr (rotate_screen st)))" "0 \<le> uc_sock cl"
    and "trueColour (format tc)" "valid_bpp (bitsPerPixel (format tc))" "redMax (format tc) \<noteq> 0"
  shows "rfbSetTranslateFunction economic \<lparr>ts_serverFormat = translate_format cl, colourMap = cm\<rparr> tc = None"
proof -
  have b: "bare_format (scrinfo st) = rfbInitServerFormat 16 0 \<or> bare_format (scrinfo st) = rfbInitServerFormat 32 0"
    using assms(1) by (auto simp: bare_format_def)
  show ?thesis
    unfolding rotate_clients [OF assms(2-4)]
    using b assms(5-7)
    by (intro rfbSetTranslateFunction_zero) (auto simp: rfbInitServerFormat_def valid_bpp_def)
qed

definition one_viewer :: "32 word android \<Rightarrow> 32 word android" where
  "one_viewer st = st\<lparr>vncscr := (vncscr st)\<lparr>us_clients :=
     [\<lparr>uc_sock = 5, useCopyRect = False, copyRegion = [], copyDX = 0, copyDY = 0, modifiedRegion = [],
       requestedRegion = [], enableCursorShapeUpdates = False, enableCursorPosUpdates = False,
       cursorWasMoved = False, uc_cursorX = 0, uc_cursorY = 0, useNewFBSize = False,
       newFBSizePending = False, onHold = False, translate_format = us_serverFormat (vncscr st)\<rparr>]\<rparr>\<rparr>"

lemma mark_socks: "map uc_sock (us_clients (rfbMarkRectAsModified scr x1 y1 x2 y2)) = map uc_sock (us_clients scr)"
  by (simp add: rfbMarkRectAsModified_def rfbMarkRegionAsModified_def for_clients_clients mark_client_def
      split: option.splits prod.splits)

lemma rotate_socks: "map uc_sock (us_clients (vncscr (rotate_screen st))) = map uc_sock (us_clients (vncscr st))"
  by (simp add: rotate_screen_def Let_def mark_socks rfbNewFramebuffer_def for_clients_clients renew_fields)

theorem rotate_divides_by_zero_witness:
  "\<exists>cl \<in> set (us_clients (vncscr (rotate_screen (one_viewer (idle_server 0))))).
     rfbSetTranslateFunction False
       \<lparr>ts_serverFormat = translate_format cl, colourMap = \<lparr>cm_count = 0, is16 = False, cm_data = []\<rparr>\<rparr>
       (new_translate_client rgb565_big) = None"
proof -
  let ?st = "one_viewer (idle_server 0)"
  have "map uc_sock (us_clients (vncscr (rotate_screen ?st))) = [5]"
    unfolding rotate_socks by (simp add: one_viewer_def)
  then obtain cl where cl: "us_clients (vncscr (rotate_screen ?st)) = [cl]" "uc_sock cl = 5" by auto
  have i: "bits_per_pixel (scrinfo ?st) = 32" "red_length (scrinfo ?st) = 8"
    by (simp_all add: one_viewer_def idle_server_def init_fb_server_def Let_def)
  have "redMax (us_serverFormat (vncscr ?st)) = 255"
    by (simp add: one_viewer_def idle_server_def init_fb_server_def Let_def device_format_def
        rfbMarkRectAsModified_def rfbMarkRegionAsModified_def for_clients_def split: option.splits prod.splits)
  moreover have "redMax (bare_format (scrinfo ?st)) = 0" by (simp add: bare_format_def rfbInitServerFormat_def i)
  ultimately have "us_serverFormat (vncscr ?st) \<noteq> bare_format (scrinfo ?st)" by auto
  from rotate_divides_by_zero [OF _ this, of cl "new_translate_client rgb565_big"] i cl show ?thesis
    by (simp add: new_translate_client_def rgb565_big_def valid_bpp_def)
qed

end
