(* ===== verification/FbMessages.thy ===== *)
theory FbMessages
  imports FbServer
begin

text \<open>
  The messages to the graphical front end: the heap buffers they are put together in and the
  descriptors they leave open, and what the command line can set.
\<close>

section \<open>Buffers\<close>

text \<open>
  Every message is put together in a buffer that is one byte too small: the terminating zero is
  written past its end, whoever connects and whatever is cut.
\<close>

theorem messages_overflow:
  "bytes_past_end clientGone_msg = 1 \<and> bytes_past_end (clientHook_msg host) = 1 \<and>
   bytes_past_end (CutText_msg str len) = 1"
  by (simp add: bytes_past_end_def clientGone_msg_def clientHook_msg_def CutText_msg_def strcat_def Let_def)

section \<open>Descriptors\<close>

fun send_all :: "kernel \<Rightarrow> string list \<Rightarrow> trace \<Rightarrow> trace" where
  "send_all k [] t = t"
| "send_all k (m # ms) t = send_all k ms (snd (send_remote_msg k m t))"

lemma open_fds_call: "open_fds (snd (call k c t)) = fd_step (c, k t c) (open_fds t)"
  by (simp add: call_def Let_def open_fds_snoc)

lemma send_refused:
  assumes "k t Socket \<noteq> -1" "\<And>t fd s. k t (Connect fd s) = -1"
  shows "open_fds (snd (send_remote_msg k m t)) = insert (k t Socket) (open_fds t)"
  using assms by (simp add: send_remote_msg_def call_def Let_def open_fds_snoc
      open_fds_snoc [of "t @ [a]" for a, simplified])

text \<open>
  C39: While the front end does not listen, every message leaves the socket open that was made for
  it: after \<open>n\<close> messages the process has \<open>n\<close> more descriptors.
\<close>

theorem refused_messages_leak:
  assumes "fresh_fds k" "\<And>t. k t Socket \<noteq> -1" "\<And>t fd s. k t (Connect fd s) = -1" "finite (open_fds t)"
  shows "card (open_fds (send_all k ms t)) = card (open_fds t) + length ms"
  using assms(4)
proof (induction ms arbitrary: t)
  case (Cons m ms)
  note o = send_refused [where k = k and m = m and t = t, OF assms(2,3)]
  have "k t Socket \<notin> open_fds t" using assms(1,2) by (auto simp: fresh_fds_def)
  with Cons o show ?case by simp
qed simp

definition deaf_kernel :: kernel where
  "deaf_kernel t c = (case c of Socket \<Rightarrow> next_fd t | _ \<Rightarrow> -1)"

lemma deaf_kernel_fresh: "fresh_fds deaf_kernel"
proof -
  have "next_fd t \<notin> open_fds t" for t using open_fds_below [of "next_fd t" t] by auto
  then show ?thesis by (auto simp: fresh_fds_def deaf_kernel_def)
qed

theorem refused_messages_leak_witness:
  "card (open_fds (send_all deaf_kernel [''a'', ''b'', ''c''] [])) = 3"
proof -
  have "next_fd t \<noteq> -1" for t using next_fd_pos [of t] by simp
  then show ?thesis
    using refused_messages_leak [OF deaf_kernel_fresh, of "[]" "[''a'', ''b'', ''c'']"]
    by (simp add: deaf_kernel_def open_fds_def)
qed

section \<open>Options\<close>

definition options_ok :: "server_options \<Rightarrow> bool" where
  "options_ok o' \<longleftrightarrow> opt_rotation o' \<in> {0, 90, 180, 270} \<and> 1 \<le> opt_scaling o' \<and> opt_scaling o' \<le> 150 \<and>
     length (VNC_PASSWORD o') < 256 \<and> length (framebuffer_device o') < 256"

lemma apply_option_ok: "apply_option c v o1 = Some o2 \<Longrightarrow> options_ok o1 \<Longrightarrow> options_ok o2"
  by (auto simp: apply_option_def options_ok_def buffer_copy_def Let_def split: if_splits Option.bind_splits)

lemma help_ok: "options_ok o1 \<Longrightarrow> options_ok (o1\<lparr>help_exit := b\<rparr>)"
  by (simp add: options_ok_def)

text \<open>What one argument does.\<close>

lemma parse_args_cases:
  assumes "parse_args (arg # args) o1 = Some o2"
  obtains "parse_args args o1 = Some o2" | "o2 = o1\<lparr>help_exit := True\<rparr>"
    | c v rest o3 where "args = v # rest" "apply_option c v o1 = Some o3" "parse_args rest o3 = Some o2"
proof (cases "\<exists>d c cs. arg = d # c # cs")
  case False
  then have "parse_args args o1 = Some o2" using assms by (auto split: list.splits)
  then show thesis by (rule that(1))
next
  case True
  then obtain d c cs where arg: "arg = d # c # cs" by blast
  define takes where "takes \<longleftrightarrow> c \<in> set ''pfPrst''"
  have "parse_args (arg # args) o1 =
     (if d \<noteq> CHR ''-'' then parse_args args o1
      else if c = CHR ''h'' then Some (o1\<lparr>help_exit := True\<rparr>)
      else if takes
      then (case args of [] \<Rightarrow> None
            | v # rest \<Rightarrow> Option.bind (apply_option c v o1) (parse_args rest))
      else parse_args args o1)"
    by (simp add: arg takes_def)
  with assms show thesis using that
    by (cases args) (auto split: if_splits Option.bind_splits)
qed

lemma parse_args_preserves: "parse_args args o1 = Some o2 \<Longrightarrow> options_ok o1 \<Longrightarrow> options_ok o2"
proof (induction "length args" arbitrary: args o1 rule: less_induct)
  case less
  show ?case
  proof (cases args)
    case (Cons arg args')
    from less(2) [unfolded Cons] show ?thesis
    proof (cases rule: parse_args_cases)
      case 1 then show ?thesis using less(1) [of args' o1] less(3) Cons by simp
    next
      case 2 then show ?thesis using help_ok less(3) by simp
    next
      case (3 c v rest o3)
      then show ?thesis using less(1) [of rest o3] apply_option_ok less(3) Cons by simp
    qed
  qed (use less in simp)
qed

text \<open>
  Whatever the command line, the rotation the server starts with is one of the four it knows,
  the scaling is between 1 and 150 percent, and the strings fit in their buffers (where an argument
  that does not fit or is missing ends the run, as writing past a buffer or reading a null pointer).
\<close>

theorem parse_args_ok:
  assumes "parse_args args default_options = Some o2"
  shows "options_ok o2"
  by (rule parse_args_preserves [OF assms]) (simp add: options_ok_def default_options_def)

theorem parse_args_ok_witness:
  "\<exists>o2. parse_args [''-r'', ''90'', ''-s'', ''400''] default_options = Some o2 \<and> opt_rotation o2 = 90 \<and> options_ok o2"
proof -
  have "\<exists>o2. parse_args [''-r'', ''90'', ''-s'', ''400''] default_options = Some o2 \<and> opt_rotation o2 = 90"
    by (simp add: apply_option_def atoi_def digit_value_def default_options_def Let_def)
  then show ?thesis using parse_args_ok by blast
qed

end
