(* ===== verification/RRE.thy ===== *)
theory RRE
  imports Subrects
begin

text \<open>
  The update buffer of a client, raw rectangles (\<open>libvncserver/rfbserver.c\<close>), the RRE and CoRRE
  encoders (\<open>rre.c\<close>, \<open>corre.c\<close>) and the decoders of the same encodings in \<open>libvncclient\<close>.
  The picture a client is to see, in its own pixel format, is a function \<open>fb\<close> from coordinates to
  pixels: what \<open>translateFn\<close> writes for a rectangle is \<open>tile fb\<close> of it.
\<close>

section \<open>The update buffer\<close>

text \<open>
  \<open>writes_left\<close> is how many more writes to the socket succeed: any of them may be the first to
  fail. \<open>sent\<close> holds what was written.
\<close>

record update_state =
  updateBuf :: "uint8_t list"
  sent :: "uint8_t list"
  writes_left :: nat
  sock_open :: bool

definition UPDATE_BUF_SIZE :: nat where "UPDATE_BUF_SIZE = 30000"
definition sz_rfbFramebufferUpdateRectHeader :: nat where "sz_rfbFramebufferUpdateRectHeader = 12"
definition sz_rfbRREHeader :: nat where "sz_rfbRREHeader = 4"
definition sz_rfbRectangle :: nat where "sz_rfbRectangle = 8"
definition sz_rfbCoRRERectangle :: nat where "sz_rfbCoRRERectangle = 4"

definition rfbEncodingRaw :: uint32_t where "rfbEncodingRaw = 0"
definition rfbEncodingRRE :: uint32_t where "rfbEncodingRRE = 2"
definition rfbEncodingCoRRE :: uint32_t where "rfbEncodingCoRRE = 4"
definition rfbEncodingHextile :: uint32_t where "rfbEncodingHextile = 5"

definition rfbSendUpdateBuf :: "update_state \<Rightarrow> bool \<times> update_state" where
  "rfbSendUpdateBuf cl =
     (if \<not> sock_open cl then (False, cl)
      else if writes_left cl = 0 then (False, cl\<lparr>sock_open := False\<rparr>)
      else (True, cl\<lparr>sent := sent cl @ updateBuf cl, updateBuf := [], writes_left := writes_left cl - 1\<rparr>))"

text \<open>\<open>if (cl->ublen + n > UPDATE_BUF_SIZE) if (!rfbSendUpdateBuf(cl)) return FALSE;\<close>\<close>

definition make_room :: "nat \<Rightarrow> update_state \<Rightarrow> bool \<times> update_state" where
  "make_room n cl =
     (if UPDATE_BUF_SIZE < length (updateBuf cl) + n then rfbSendUpdateBuf cl else (True, cl))"

definition put_bytes :: "uint8_t list \<Rightarrow> update_state \<Rightarrow> update_state" where
  "put_bytes bs cl = cl\<lparr>updateBuf := updateBuf cl @ bs\<rparr>"

definition rect_header :: "nat \<Rightarrow> nat \<Rightarrow> nat \<Rightarrow> nat \<Rightarrow> uint32_t \<Rightarrow> uint8_t list" where
  "rect_header x y w h encoding =
     wire16 (word_of_nat x) @ wire16 (word_of_nat y) @ wire16 (word_of_nat w) @
     wire16 (word_of_nat h) @ wire32 encoding"

text \<open>The loop that copies \<open>rreAfterBuf\<close> into the update buffer, in chunks.\<close>

function copy_loop :: "uint8_t list \<Rightarrow> update_state \<Rightarrow> bool \<times> update_state" where
  "copy_loop rest cl =
     (if rest = [] then (True, cl)
      else (let bytesToCopy = UPDATE_BUF_SIZE - length (updateBuf cl);
                bytesToCopy = (if length rest < bytesToCopy then length rest else bytesToCopy);
                cl = put_bytes (take bytesToCopy rest) cl
            in if length (updateBuf cl) = UPDATE_BUF_SIZE
               then (let (ok, cl') = rfbSendUpdateBuf cl
                     in if \<not> ok then (False, cl') else copy_loop (drop bytesToCopy rest) cl')
               else if UPDATE_BUF_SIZE < length (updateBuf cl) then (False, cl)
               else copy_loop (drop bytesToCopy rest) cl))"
  by pat_completeness auto
termination
  by (relation "measure (\<lambda>(rest, cl). 2 * length rest + (if length (updateBuf cl) = UPDATE_BUF_SIZE then 1 else 0))")
    (auto simp: put_bytes_def rfbSendUpdateBuf_def UPDATE_BUF_SIZE_def split: if_splits)

declare copy_loop.simps [simp del]

section \<open>Raw rectangles\<close>

definition tile :: "(nat \<Rightarrow> nat \<Rightarrow> 'p) \<Rightarrow> nat \<Rightarrow> nat \<Rightarrow> nat \<Rightarrow> nat \<Rightarrow> 'p list" where
  "tile fb x y w h = concat (map (\<lambda>j. map (\<lambda>i. fb (x + i) (y + j)) [0..<w]) [0..<h])"

definition tile_bytes :: "(nat \<Rightarrow> nat \<Rightarrow> 'a::len word) \<Rightarrow> nat \<Rightarrow> nat \<Rightarrow> nat \<Rightarrow> nat \<Rightarrow> uint8_t list" where
  "tile_bytes fb x y w h = concat (map pixel_bytes (tile fb x y w h))"

function raw_loop ::
    "(nat \<Rightarrow> nat \<Rightarrow> 'a::len word) \<Rightarrow> nat \<Rightarrow> nat \<Rightarrow> nat \<Rightarrow> nat \<Rightarrow> nat \<Rightarrow> nat \<Rightarrow> update_state \<Rightarrow> bool \<times> update_state"
where
  "raw_loop fb bytesPerLine x y w h nlines cl =
     (let nlines = (if h < nlines then h else nlines);
          cl = put_bytes (tile_bytes fb x y w nlines) cl;
          h = h - nlines
      in if h = 0 then (True, cl)
         else (let (ok, cl) = rfbSendUpdateBuf cl in
               if \<not> ok then (False, cl)
               else (let y = y + nlines;
                         nlines = (UPDATE_BUF_SIZE - length (updateBuf cl)) div bytesPerLine
                     in if nlines = 0 then (False, cl\<lparr>sock_open := False\<rparr>)
                        else raw_loop fb bytesPerLine x y w h nlines cl)))"
  by pat_completeness auto
termination
  by (relation "measure (\<lambda>(fb, b, x, y, w, h, n, cl). 2 * h + (if n = 0 then 1 else 0))") auto

declare raw_loop.simps [simp del]

definition rfbSendRectEncodingRaw ::
    "(nat \<Rightarrow> nat \<Rightarrow> 'a::len word) \<Rightarrow> nat \<Rightarrow> nat \<Rightarrow> nat \<Rightarrow> nat \<Rightarrow> update_state \<Rightarrow> bool \<times> update_state" where
  "rfbSendRectEncodingRaw fb x y w h cl =
     (let bytesPerLine = w * pixel_size TYPE('a);
          (ok, cl) = (if 0 < length (updateBuf cl) then rfbSendUpdateBuf cl else (True, cl))
      in if \<not> ok then (False, cl)
         else (let cl = put_bytes (rect_header x y w h rfbEncodingRaw) cl;
                   nlines = (UPDATE_BUF_SIZE - length (updateBuf cl)) div bytesPerLine
               in raw_loop fb bytesPerLine x y w h nlines cl))"

section \<open>RRE\<close>

text \<open>\<open>getBgColour\<close>: the most frequent colour of eight-bit pixels, else the first pixel.\<close>

definition count_colour :: "(nat \<Rightarrow> nat) \<times> nat \<times> 'a::len word \<Rightarrow> 'a word \<Rightarrow> (nat \<Rightarrow> nat) \<times> nat \<times> 'a word" where
  "count_colour st p =
     (let (counts, maxcount, maxclr) = st; k = unat p;
          counts = counts(k := counts k + 1)
      in if maxcount < counts k then (counts, counts k, p) else (counts, maxcount, maxclr))"

definition getBgColour :: "'a::len word list \<Rightarrow> nat \<Rightarrow> 'a word" where
  "getBgColour data n =
     (if LENGTH('a) \<noteq> 8 then data ! 0
      else snd (snd (fold (\<lambda>p st. count_colour st p) (take n data) (\<lambda>_. 0, 0, 0))))"

text \<open>The number of subrectangles and the contents of \<open>rreAfterBuf\<close>, or \<open>None\<close> for \<open>-1\<close>.\<close>

definition put_rectangle :: "rect4 \<Rightarrow> uint8_t list" where
  "put_rectangle r = (case r of (x, y, w, h) \<Rightarrow>
     wire16 (word_of_nat x) @ wire16 (word_of_nat y) @ wire16 (word_of_nat w) @ wire16 (word_of_nat h))"

definition rre_subrectEncode ::
    "nat \<Rightarrow> 'a::len word list \<Rightarrow> nat \<Rightarrow> nat \<Rightarrow> (nat \<times> uint8_t list) option" where
  "rre_subrectEncode rreAfterBufSize data w h =
     (let bg = getBgColour data (w * h)
      in encode_loop put_rectangle sz_rfbRectangle (w * h * pixel_size TYPE('a)) rreAfterBufSize
           bg w h (positions w h) data 0 (pixel_bytes bg))"

text \<open>
  \<open>maxRawSize\<close> is the size of the whole screen in the client's format, which both buffers have at
  least; \<open>rreAfterBufSize\<close> is the size of the second one after it was grown.
\<close>

definition rfbSendRectEncodingRRE ::
    "(nat \<Rightarrow> nat \<Rightarrow> 'a::len word) \<Rightarrow> nat \<Rightarrow> nat \<Rightarrow> nat \<Rightarrow> nat \<Rightarrow> nat \<Rightarrow> nat \<Rightarrow> nat \<Rightarrow> update_state \<Rightarrow>
     bool \<times> update_state" where
  "rfbSendRectEncodingRRE fb screen_w screen_h rreAfterBufSize x y w h cl =
     (let maxRawSize = screen_w * screen_h * pixel_size TYPE('a);
          rreAfterBufSize = (if rreAfterBufSize < maxRawSize then maxRawSize else rreAfterBufSize)
      in case rre_subrectEncode rreAfterBufSize (tile fb x y w h) w h of
           None \<Rightarrow> rfbSendRectEncodingRaw fb x y w h cl
         | Some (nSubrects, rreAfterBuf) \<Rightarrow>
             (let (ok, cl) = make_room (sz_rfbFramebufferUpdateRectHeader + sz_rfbRREHeader) cl
              in if \<not> ok then (False, cl)
                 else (let cl = put_bytes (rect_header x y w h rfbEncodingRRE) cl;
                           cl = put_bytes (wire32 (word_of_nat nSubrects)) cl
                       in copy_loop rreAfterBuf cl)))"

section \<open>CoRRE\<close>

definition put_corre_rectangle :: "rect4 \<Rightarrow> uint8_t list" where
  "put_corre_rectangle r = (case r of (x, y, w, h) \<Rightarrow>
     [word_of_nat x, word_of_nat y, word_of_nat w, word_of_nat h])"

definition corre_subrectEncode ::
    "nat \<Rightarrow> 'a::len word list \<Rightarrow> nat \<Rightarrow> nat \<Rightarrow> (nat \<times> uint8_t list) option" where
  "corre_subrectEncode rreAfterBufSize data w h =
     (let bg = getBgColour data (w * h)
      in encode_loop put_corre_rectangle sz_rfbCoRRERectangle (w * h * pixel_size TYPE('a)) rreAfterBufSize
           bg w h (positions w h) data 0 (pixel_bytes bg))"

definition rfbSendSmallRectEncodingCoRRE ::
    "(nat \<Rightarrow> nat \<Rightarrow> 'a::len word) \<Rightarrow> nat \<Rightarrow> nat \<Rightarrow> nat \<Rightarrow> nat \<Rightarrow> nat \<Rightarrow> nat \<Rightarrow> nat \<Rightarrow> update_state \<Rightarrow>
     bool \<times> update_state" where
  "rfbSendSmallRectEncodingCoRRE fb screen_w screen_h rreAfterBufSize x y w h cl =
     (let maxRawSize = screen_w * screen_h * pixel_size TYPE('a);
          rreAfterBufSize = (if rreAfterBufSize < maxRawSize then maxRawSize else rreAfterBufSize)
      in case corre_subrectEncode rreAfterBufSize (tile fb x y w h) w h of
           None \<Rightarrow> rfbSendRectEncodingRaw fb x y w h cl
         | Some (nSubrects, rreAfterBuf) \<Rightarrow>
             (let (ok, cl) = make_room (sz_rfbFramebufferUpdateRectHeader + sz_rfbRREHeader) cl
              in if \<not> ok then (False, cl)
                 else (let cl = put_bytes (rect_header x y w h rfbEncodingCoRRE) cl;
                           cl = put_bytes (wire32 (word_of_nat nSubrects)) cl
                       in copy_loop rreAfterBuf cl)))"

text \<open>
  Larger rectangles are cut into pieces of at most \<open>correMaxWidth\<close> by \<open>correMaxHeight\<close>. The result
  of sending a piece is dropped, as in the code.
\<close>

function rfbSendRectEncodingCoRRE ::
    "(nat \<Rightarrow> nat \<Rightarrow> 'a::len word) \<Rightarrow> nat \<Rightarrow> nat \<Rightarrow> nat \<Rightarrow> nat \<Rightarrow> nat \<Rightarrow> nat \<Rightarrow> nat \<Rightarrow> nat \<Rightarrow> nat \<Rightarrow>
     update_state \<Rightarrow> bool \<times> update_state" where
  "rfbSendRectEncodingCoRRE fb sw sh bufSize maxW maxH x y w h cl =
     (if maxH < h \<and> 0 < maxH
      then (let (ok, cl) = rfbSendRectEncodingCoRRE fb sw sh bufSize maxW maxH x y w maxH cl
            in if \<not> ok then (False, cl)
               else rfbSendRectEncodingCoRRE fb sw sh bufSize maxW maxH x (y + maxH) w (h - maxH) cl)
      else if maxW < w \<and> 0 < maxW
      then (let (ok, cl) = rfbSendRectEncodingCoRRE fb sw sh bufSize maxW maxH x y maxW h cl
            in if \<not> ok then (False, cl)
               else rfbSendRectEncodingCoRRE fb sw sh bufSize maxW maxH (x + maxW) y (w - maxW) h cl)
      else (True, snd (rfbSendSmallRectEncodingCoRRE fb sw sh bufSize x y w h cl)))"
  by pat_completeness auto
termination
  by (relation "measure (\<lambda>(fb, sw, sh, b, mw, mh, x, y, w, h, cl). w + h)") auto

declare rfbSendRectEncodingCoRRE.simps [simp del]

end
