(* ===== verification/Cursor.thy ===== *)
theory Cursor
  imports Updates RRE "HOL-Library.Monad_Syntax" "HOL-Library.Signed_Division"
begin

text \<open>
  \<open>libvncserver/cursor.c\<close>: cursors as bitmaps and as pixels of the server, drawing a cursor into the
  frame buffer and taking it out again, and sending its shape and position. The frame buffer is a
  function from coordinates to pixels of the server; the code only accesses it inside the screen.
  The scaled copies of the screen, which the code refreshes after drawing, are not part of the state.
  \<open>None\<close> is an access through a null pointer or a division by zero.
\<close>

section \<open>Cursors\<close>

text \<open>
  \<open>rfbCursor\<close>, with the metrics of \<open>cursor_size\<close>. \<open>source\<close> and \<open>mask\<close> are bitmaps whose rows take
  whole bytes, the first column in the most significant bit.
\<close>

record 'p rfbCursor = cursor_size +
  source :: "uint8_t list option"
  cur_mask :: "uint8_t list"
  foreRed :: uint16_t
  foreGreen :: uint16_t
  foreBlue :: uint16_t
  backRed :: uint16_t
  backGreen :: uint16_t
  backBlue :: uint16_t
  richSource :: "'p list option"
  alphaSource :: "uint8_t list option"
  alphaPreMultiplied :: bool

definition row_bytes :: "int \<Rightarrow> nat" where
  "row_bytes w = nat ((w + 7) div 8)"

text \<open>The bit of column \<open>i\<close>: \<open>bit=0x80\<close> at first, then \<open>bit=(bit&1)?0x80:bit>>1\<close>.\<close>

fun column_bit :: "nat \<Rightarrow> uint8_t" where
  "column_bit 0 = 0x80"
| "column_bit (Suc i) = (if column_bit i AND 1 \<noteq> 0 then 0x80 else drop_bit 1 (column_bit i))"

definition set_column :: "nat \<Rightarrow> nat \<Rightarrow> nat \<Rightarrow> uint8_t list \<Rightarrow> uint8_t list" where
  "set_column w j i bm = bm[j * w + i div 8 := bm ! (j * w + i div 8) OR column_bit i]"

definition bitmap_column :: "nat \<Rightarrow> uint8_t list \<Rightarrow> nat \<Rightarrow> nat \<Rightarrow> bool" where
  "bitmap_column w bm j i \<longleftrightarrow> bm ! (j * w + i div 8) AND column_bit i \<noteq> 0"

definition cells :: "nat \<Rightarrow> nat \<Rightarrow> (nat \<times> nat) list" where
  "cells height width = List.product [0..<height] [0..<width]"

section \<open>Making cursors\<close>

definition rfbReverseByte :: "uint8_t list" where
  "rfbReverseByte =
   [
    0x00, 0x80, 0x40, 0xc0, 0x20, 0xa0, 0x60, 0xe0, 0x10, 0x90, 0x50, 0xd0, 0x30, 0xb0, 0x70, 0xf0,
     0x08, 0x88, 0x48, 0xc8, 0x28, 0xa8, 0x68, 0xe8, 0x18, 0x98, 0x58, 0xd8, 0x38, 0xb8, 0x78, 0xf8,
     0x04, 0x84, 0x44, 0xc4, 0x24, 0xa4, 0x64, 0xe4, 0x14, 0x94, 0x54, 0xd4, 0x34, 0xb4, 0x74, 0xf4,
     0x0c, 0x8c, 0x4c, 0xcc, 0x2c, 0xac, 0x6c, 0xec, 0x1c, 0x9c, 0x5c, 0xdc, 0x3c, 0xbc, 0x7c, 0xfc,
     0x02, 0x82, 0x42, 0xc2, 0x22, 0xa2, 0x62, 0xe2, 0x12, 0x92, 0x52, 0xd2, 0x32, 0xb2, 0x72, 0xf2,
     0x0a, 0x8a, 0x4a, 0xca, 0x2a, 0xaa, 0x6a, 0xea, 0x1a, 0x9a, 0x5a, 0xda, 0x3a, 0xba, 0x7a, 0xfa,
     0x06, 0x86, 0x46, 0xc6, 0x26, 0xa6, 0x66, 0xe6, 0x16, 0x96, 0x56, 0xd6, 0x36, 0xb6, 0x76, 0xf6,
     0x0e, 0x8e, 0x4e, 0xce, 0x2e, 0xae, 0x6e, 0xee, 0x1e, 0x9e, 0x5e, 0xde, 0x3e, 0xbe, 0x7e, 0xfe,
     0x01, 0x81, 0x41, 0xc1, 0x21, 0xa1, 0x61, 0xe1, 0x11, 0x91, 0x51, 0xd1, 0x31, 0xb1, 0x71, 0xf1,
     0x09, 0x89, 0x49, 0xc9, 0x29, 0xa9, 0x69, 0xe9, 0x19, 0x99, 0x59, 0xd9, 0x39, 0xb9, 0x79, 0xf9,
     0x05, 0x85, 0x45, 0xc5, 0x25, 0xa5, 0x65, 0xe5, 0x15, 0x95, 0x55, 0xd5, 0x35, 0xb5, 0x75, 0xf5,
     0x0d, 0x8d, 0x4d, 0xcd, 0x2d, 0xad, 0x6d, 0xed, 0x1d, 0x9d, 0x5d, 0xdd, 0x3d, 0xbd, 0x7d, 0xfd,
     0x03, 0x83, 0x43, 0xc3, 0x23, 0xa3, 0x63, 0xe3, 0x13, 0x93, 0x53, 0xd3, 0x33, 0xb3, 0x73, 0xf3,
     0x0b, 0x8b, 0x4b, 0xcb, 0x2b, 0xab, 0x6b, 0xeb, 0x1b, 0x9b, 0x5b, 0xdb, 0x3b, 0xbb, 0x7b, 0xfb,
     0x07, 0x87, 0x47, 0xc7, 0x27, 0xa7, 0x67, 0xe7, 0x17, 0x97, 0x57, 0xd7, 0x37, 0xb7, 0x77, 0xf7,
     0x0f, 0x8f, 0x4f, 0xcf, 0x2f, 0xaf, 0x6f, 0xef, 0x1f, 0x9f, 0x5f, 0xdf, 0x3f, 0xbf, 0x7f, 0xff]"

definition rfbConvertLSBCursorBitmapOrMask :: "nat \<Rightarrow> nat \<Rightarrow> uint8_t list \<Rightarrow> uint8_t list" where
  "rfbConvertLSBCursorBitmapOrMask width height bitmap =
     (let t = (width + 7) div 8 * height
      in fold (\<lambda>i bm. bm[i := rfbReverseByte ! unat (bm ! i)]) [0..<t] bitmap)"

text \<open>The bitmap of a picture of characters, row after row, where a blank is no pixel.\<close>

definition string_bitmap :: "nat \<Rightarrow> nat \<Rightarrow> string \<Rightarrow> uint8_t list" where
  "string_bitmap width height cp =
     (let w = (width + 7) div 8
      in fold (\<lambda>(j, i) bm. if cp ! (j * width + i) \<noteq> CHR '' '' then set_column w j i bm else bm)
           (cells height width) (replicate (w * height) 0))"

definition mask_byte :: "nat \<Rightarrow> nat \<Rightarrow> uint8_t list \<Rightarrow> nat \<Rightarrow> nat \<Rightarrow> uint8_t list \<Rightarrow> uint8_t list" where
  "mask_byte w height src j i m =
     (let c = src ! (j * w + i);
          c = (if 0 < j then c OR src ! ((j - 1) * w + i) else c);
          c = (if j < height - 1 then c OR src ! ((j + 1) * w + i) else c);
          m = (if 0 < i \<and> c AND 0x80 \<noteq> 0
                  then m[j * w + i - 1 := m ! (j * w + i - 1) OR 0x01] else m);
          m = (if i < w - 1 \<and> c AND 0x01 \<noteq> 0
                  then m[j * w + i + 1 := m ! (j * w + i + 1) OR 0x80] else m)
      in m[j * w + i := m ! (j * w + i) OR (push_bit 1 c OR c OR drop_bit 1 c)])"

definition rfbMakeMaskForXCursor :: "nat \<Rightarrow> nat \<Rightarrow> uint8_t list \<Rightarrow> uint8_t list" where
  "rfbMakeMaskForXCursor width height src =
     (let w = (width + 7) div 8
      in fold (\<lambda>(j, i). mask_byte w height src j i)
           (List.product [0..<height] (rev [0..<w])) (replicate (w * height) 0))"

definition rfbMakeXCursor :: "nat \<Rightarrow> nat \<Rightarrow> string \<Rightarrow> string option \<Rightarrow> 'p rfbCursor" where
  "rfbMakeXCursor width height cursorString maskString =
     (let src = string_bitmap width height cursorString
      in \<lparr>cur_xhot = 0, cur_yhot = 0, cur_width = int width, cur_height = int height,
          source = Some src,
          cur_mask = (case maskString of Some s \<Rightarrow> string_bitmap width height s
                      | None \<Rightarrow> rfbMakeMaskForXCursor width height src),
          foreRed = 0xffff, foreGreen = 0xffff, foreBlue = 0xffff,
          backRed = 0, backGreen = 0, backBlue = 0,
          richSource = None, alphaSource = None, alphaPreMultiplied = False\<rparr>)"

text \<open>
  Dithering of the opacity: the error of a pixel is passed to the right and to three pixels of the
  next row. The division of C truncates.
\<close>

definition dither_pixel ::
    "nat \<Rightarrow> nat \<Rightarrow> uint8_t list \<Rightarrow> nat \<Rightarrow> nat \<Rightarrow> uint8_t list \<times> int list \<times> int \<Rightarrow>
     uint8_t list \<times> int list \<times> int" where
  "dither_pixel width maskStride alpha j i st =
     (let (result, error, currentError) = st;
          currentError = currentError + (uint (alpha ! (i + width * j)) + error ! i);
          (result, currentError) =
            (if currentError < 0x80 then (result, currentError)
             else (result[i div 8 + j * maskStride :=
                     result ! (i div 8 + j * maskStride) OR word_of_nat (drop_bit (i mod 8) 0x100)],
                   currentError - 0xff));
          right = currentError sdiv 16; middle = currentError * 5 sdiv 16; left = currentError * 3 sdiv 16;
          currentError = currentError - (right + middle + left);
          error = error[i := right];
          error = (if 0 < i then error[i - 1 := middle] else error);
          error = (if 1 < i then error[i - 2 := left] else error)
      in (result, error, currentError))"

definition rfbMakeMaskFromAlphaSource :: "nat \<Rightarrow> nat \<Rightarrow> uint8_t list \<Rightarrow> uint8_t list" where
  "rfbMakeMaskFromAlphaSource width height alpha =
     (let maskStride = (width + 7) div 8
      in fst (fold (\<lambda>(j, i). dither_pixel width maskStride alpha j i) (cells height width)
           (replicate (maskStride * height) 0, replicate width 0, 0)))"

text \<open>The bytes of a 32-bit colour that make a pixel of the format, on a little-endian host.\<close>

definition colour_pixel :: "rfbPixelFormat \<Rightarrow> uint32_t \<Rightarrow> 's::len word" where
  "colour_pixel f v = (if bigEndian f then ucast (drop_bit (32 - LENGTH('s)) v) else ucast v)"

definition colour_shifted :: "rfbPixelFormat \<Rightarrow> uint16_t \<Rightarrow> uint16_t \<Rightarrow> uint16_t \<Rightarrow> uint32_t" where
  "colour_shifted f r g b =
     push_bit (unat (redShift f)) (ucast r) OR push_bit (unat (greenShift f)) (ucast g) OR
     push_bit (unat (blueShift f)) (ucast b)"

definition rfbMakeRichCursorFromXCursor :: "rfbPixelFormat \<Rightarrow> 's::len word rfbCursor \<Rightarrow> 's word rfbCursor option" where
  "rfbMakeRichCursorFromXCursor f c =
     (case source c of
        None \<Rightarrow> None
      | Some bm \<Rightarrow>
         (let w = row_bytes (cur_width c);
              back = colour_pixel f (colour_shifted f (backRed c) (backGreen c) (backBlue c));
              fore = colour_pixel f (colour_shifted f (foreRed c) (foreGreen c) (foreBlue c))
          in Some (c\<lparr>richSource := Some (map (\<lambda>(j, i). if bitmap_column w bm j i then fore else back)
                       (cells (nat (cur_height c)) (nat (cur_width c))))\<rparr>)))"

text \<open>\<open>SETRGB\<close> for one component, and the grey value that decides between black and white.\<close>

definition grey_component :: "uint16_t \<Rightarrow> uint8_t \<Rightarrow> 's::len word \<Rightarrow> nat option" where
  "grey_component maxv shift u =
     (if maxv = 0 then None
      else Some (255 * drop_bit (unat shift) (push_bit (unat shift) (unat maxv) AND unat u) div unat maxv))"

definition grey_set :: "rfbPixelFormat \<Rightarrow> 's::len word \<Rightarrow> bool option" where
  "grey_set f u =
     do { r \<leftarrow> grey_component (redMax f) (redShift f) u;
          g \<leftarrow> grey_component (greenMax f) (greenShift f) u;
          b \<leftarrow> grey_component (blueMax f) (blueShift f) u;
          Some (128 \<le> (r + g + b) div 3) }"

definition colour_scaled :: "rfbPixelFormat \<Rightarrow> uint16_t \<Rightarrow> uint16_t \<Rightarrow> uint16_t \<Rightarrow> uint32_t" where
  "colour_scaled f r g b =
     word_of_nat (push_bit (unat (redShift f)) (unat (redMax f) * unat r div 0xffff) OR
                  push_bit (unat (greenShift f)) (unat (greenMax f) * unat g div 0xffff) OR
                  push_bit (unat (blueShift f)) (unat (blueMax f) * unat b div 0xffff))"

definition rfbMakeXCursorFromRichCursor :: "rfbPixelFormat \<Rightarrow> 's::len word rfbCursor \<Rightarrow> 's word rfbCursor option" where
  "rfbMakeXCursorFromRichCursor f c =
     (let w = row_bytes (cur_width c); width = nat (cur_width c);
          bpp = unat (bitsPerPixel f) div 8;
          interp = (backRed c = 0 \<and> backGreen c = 0 \<and> backBlue c = 0 \<and>
                    foreRed c = 0 \<and> foreGreen c = 0 \<and> foreBlue c = 0 \<and>
                    trueColour f \<and> (bpp = 1 \<or> bpp = 2 \<or> bpp = 4));
          c = (if interp then c\<lparr>foreRed := 0xffff, foreGreen := 0xffff, foreBlue := 0xffff\<rparr> else c);
          background = colour_pixel f (colour_scaled f (backRed c) (backGreen c) (backBlue c))
      in case richSource c of
           None \<Rightarrow> None
         | Some rich \<Rightarrow>
            do { set \<leftarrow> those (map (\<lambda>(j, i). if interp then grey_set f (rich ! (j * width + i))
                                           else Some (rich ! (j * width + i) \<noteq> background))
                         (cells (nat (cur_height c)) width));
                 Some (c\<lparr>source := Some (fold (\<lambda>((j, i), b) bm. if b then set_column w j i bm else bm)
                   (zip (cells (nat (cur_height c)) width) set) (replicate (w * nat (cur_height c)) 0))\<rparr>) })"

section \<open>Drawing in the frame buffer\<close>

text \<open>The fields of the screen that drawing and sending work on.\<close>

record 'p server_screen =
  ss_width :: int
  ss_height :: int
  ss_format :: rfbPixelFormat
  frameBuffer :: "int \<Rightarrow> int \<Rightarrow> 'p"
  underCursorBuffer :: "'p list"
  ss_cursor :: "'p rfbCursor option"
  ss_cursorX :: int
  ss_cursorY :: int

text \<open>
  One axis of the part of a cursor that is on the screen: its first coordinate, its extent (nothing
  is drawn unless this is positive) and the offset of that part in the cursor.
\<close>

definition cursor_axis :: "int \<Rightarrow> int \<Rightarrow> int \<Rightarrow> int \<Rightarrow> int \<times> int \<times> int" where
  "cursor_axis pos hot len limit =
     (let x1 = pos - hot; x2 = x1 + len;
          (i1, x1) = (if x1 < 0 then (- x1, 0) else (0, x1));
          x2 = (if limit \<le> x2 then limit - 1 else x2)
      in (x1, x2 - x1, i1))"

definition restore_row :: "int \<Rightarrow> int \<Rightarrow> int \<Rightarrow> 'p list \<Rightarrow> int \<Rightarrow> (int \<Rightarrow> int \<Rightarrow> 'p) \<Rightarrow> int \<Rightarrow> int \<Rightarrow> 'p" where
  "restore_row x1 y1 x2 saved j fb =
     (\<lambda>x y. if y = y1 + j \<and> x1 \<le> x \<and> x < x1 + x2 then saved ! nat (j * x2 + (x - x1)) else fb x y)"

definition rfbHideCursor :: "int \<Rightarrow> int \<Rightarrow> 'p server_screen \<Rightarrow> 'p server_screen" where
  "rfbHideCursor clX clY s =
     (case ss_cursor s of
        None \<Rightarrow> s
      | Some c \<Rightarrow>
         (let (x1, x2, _) = cursor_axis clX (cur_xhot c) (cur_width c) (ss_width s)
          in if x2 \<le> 0 then s
             else (let (y1, y2, _) = cursor_axis clY (cur_yhot c) (cur_height c) (ss_height s)
                   in if y2 \<le> 0 then s
                      else s\<lparr>frameBuffer :=
                        fold (restore_row x1 y1 x2 (underCursorBuffer s)) [0..y2 - 1] (frameBuffer s)\<rparr>)))"

text \<open>
  Saving a row copies it unless the buffer already has it and no row before it was copied. When the
  buffer is too small it is allocated anew, with the contents \<open>heap\<close>.
\<close>

definition save_row ::
    "int \<Rightarrow> int \<Rightarrow> int \<Rightarrow> (int \<Rightarrow> int \<Rightarrow> 'p) \<Rightarrow> int \<Rightarrow> bool \<times> 'p list \<Rightarrow> bool \<times> 'p list" where
  "save_row x1 y1 x2 fb j st =
     (let (wasChanged, buf) = st;
          dest = nat (j * x2); count = nat x2;
          src = map (\<lambda>i. fb (x1 + i) (y1 + j)) [0..x2 - 1]
      in if wasChanged \<or> take count (drop dest buf) \<noteq> src
         then (True, take dest buf @ src @ drop (dest + count) buf)
         else (wasChanged, buf))"

definition grow_under :: "(nat \<Rightarrow> 'p) \<Rightarrow> nat \<Rightarrow> 'p list \<Rightarrow> 'p list" where
  "grow_under heap bufSize buf = (if length buf < bufSize then map heap [0..<bufSize] else buf)"

text \<open>Blending a pixel of the cursor into a pixel of the frame buffer, component by component.\<close>

definition pixel_component :: "uint16_t \<Rightarrow> uint8_t \<Rightarrow> uint32_t \<Rightarrow> nat" where
  "pixel_component maxv shift v =
     unat (drop_bit (unat shift) (v AND push_bit (unat shift) (ucast maxv)))"

definition blend_component :: "bool \<Rightarrow> uint16_t \<Rightarrow> uint8_t \<Rightarrow> nat \<Rightarrow> uint32_t \<Rightarrow> uint32_t \<Rightarrow> uint32_t" where
  "blend_component preMultiplied maxv shift asrc sval dval =
     (let src = pixel_component maxv shift sval; dst = pixel_component maxv shift dval;
          src = (if \<not> preMultiplied then asrc * src div 255 else src)
      in push_bit (unat shift) (word_of_nat (src + (255 - asrc) * dst div 255)))"

definition blend_pixel :: "rfbPixelFormat \<Rightarrow> bool \<Rightarrow> nat \<Rightarrow> 's::len word \<Rightarrow> 's word \<Rightarrow> 's word" where
  "blend_pixel f preMultiplied asrc src dest =
     (if asrc = 0 then dest
      else ucast (blend_component preMultiplied (redMax f) (redShift f) asrc (ucast src) (ucast dest) OR
                  blend_component preMultiplied (greenMax f) (greenShift f) asrc (ucast src) (ucast dest) OR
                  blend_component preMultiplied (blueMax f) (blueShift f) asrc (ucast src) (ucast dest)))"

definition set_pixel :: "int \<Rightarrow> int \<Rightarrow> 'p \<Rightarrow> (int \<Rightarrow> int \<Rightarrow> 'p) \<Rightarrow> int \<Rightarrow> int \<Rightarrow> 'p" where
  "set_pixel x y p fb = (\<lambda>x' y'. if x' = x \<and> y' = y then p else fb x' y')"

text \<open>\<open>(mask[\<dots>]<<((i+i1)&7))&0x80\<close>.\<close>

definition mask_bit :: "nat \<Rightarrow> uint8_t list \<Rightarrow> nat \<Rightarrow> nat \<Rightarrow> bool" where
  "mask_bit w m j i \<longleftrightarrow> bit (push_bit (i mod 8) (unat (m ! (j * w + i div 8)))) 7"

definition draw_cell ::
    "rfbPixelFormat \<Rightarrow> 's::len word rfbCursor \<Rightarrow> 's word list \<Rightarrow> int \<Rightarrow> int \<Rightarrow> int \<Rightarrow> int \<Rightarrow> nat \<times> nat \<Rightarrow>
     (int \<Rightarrow> int \<Rightarrow> 's word) \<Rightarrow> int \<Rightarrow> int \<Rightarrow> 's word" where
  "draw_cell f c rich x1 y1 i1 j1 ji fb =
     (let (j, i) = ji; x = x1 + int i; y = y1 + int j;
          cj = j + nat j1; ci = i + nat i1; at = cj * nat (cur_width c) + ci
      in case alphaSource c of
           Some alpha \<Rightarrow>
             set_pixel x y (blend_pixel f (alphaPreMultiplied c) (unat (alpha ! at)) (rich ! at) (fb x y)) fb
         | None \<Rightarrow>
             if mask_bit (row_bytes (cur_width c)) (cur_mask c) cj ci then set_pixel x y (rich ! at) fb else fb)"

definition rfbShowCursor ::
    "(nat \<Rightarrow> 's::len word) \<Rightarrow> int \<Rightarrow> int \<Rightarrow> 's word server_screen \<Rightarrow> 's word server_screen option" where
  "rfbShowCursor heap clX clY s =
     (case ss_cursor s of
        None \<Rightarrow> Some s
      | Some c \<Rightarrow>
         (let buf = grow_under heap (nat (cur_width c * cur_height c)) (underCursorBuffer s);
              s = s\<lparr>underCursorBuffer := buf\<rparr>;
              (x1, x2, i1) = cursor_axis clX (cur_xhot c) (cur_width c) (ss_width s)
          in if x2 \<le> 0 then Some s
             else (let (y1, y2, j1) = cursor_axis clY (cur_yhot c) (cur_height c) (ss_height s)
                   in if y2 \<le> 0 then Some s
                      else (let s = s\<lparr>underCursorBuffer :=
                                  snd (fold (save_row x1 y1 x2 (frameBuffer s)) [0..y2 - 1] (False, buf))\<rparr>
                            in do { c \<leftarrow> (if richSource c = None
                                          then rfbMakeRichCursorFromXCursor (ss_format s) c else Some c);
                                    rich \<leftarrow> richSource c;
                                    Some (s\<lparr>ss_cursor := Some c,
                                       frameBuffer := fold (draw_cell (ss_format s) c rich x1 y1 i1 j1)
                                         (cells (nat y2) (nat x2)) (frameBuffer s)\<rparr>) }))))"

text \<open>The rectangle of the cursor, clipped, is added to the region given.\<close>

definition rfbRedrawAfterHideCursor :: "int \<Rightarrow> int \<Rightarrow> 'p server_screen \<Rightarrow> sraRegion \<Rightarrow> sraRegion" where
  "rfbRedrawAfterHideCursor clX clY s region =
     (case ss_cursor s of
        None \<Rightarrow> region
      | Some c \<Rightarrow>
         (let x = clX - cur_xhot c; y = clY - cur_yhot c; x2 = x + cur_width c; y2 = y + cur_height c;
              ((x, y, x2, y2), r) = sraClipRect2 x y x2 y2 0 0 (ss_width s) (ss_height s)
          in if r then sraRgnOr region (sraRgnCreateRect x y x2 y2) else region))"

end
