(* ===== verification/CursorCorrect.thy ===== *)
theory CursorCorrect
  imports Cursor
begin

text \<open>
  Cursors: what is under a cursor comes back when it is hidden, the two forms of a cursor agree, and
  the masks made for it.
\<close>

section \<open>Loops over rows\<close>

lemma upto_Suc: "[0..int (Suc n) - 1] = [0..int n - 1] @ [int n]"
  by (simp add: upto_rec2)

lemma in_cells [simp]: "(j, i) \<in> set (cells h w) \<longleftrightarrow> j < h \<and> i < w"
  by (auto simp: cells_def)

section \<open>Bits of a bitmap\<close>

lemma column_bit_eq: "column_bit i = drop_bit (i mod 8) 0x80"
proof (induction i)
  case (Suc i)
  have "i mod 8 \<in> {0, 1, 2, 3, 4, 5, 6, 7}" by auto
  then show ?case using Suc by (auto simp: mod_Suc)
qed simp

lemma column_bit_exp: "column_bit i = 2 ^ (7 - i mod 8)"
proof -
  have "i mod 8 \<in> {0, 1, 2, 3, 4, 5, 6, 7}" by auto
  then show ?thesis by (auto simp: column_bit_eq)
qed

lemma bitmap_column_iff: "bitmap_column w bm j i \<longleftrightarrow> bit (bm ! (j * w + i div 8)) (7 - i mod 8)"
  by (simp add: bitmap_column_def column_bit_exp and_exp_eq_0_iff_not_bit)

lemma bitmap_index:
  fixes j h k w :: nat
  assumes "j < h" "k < w"
  shows "j * w + k < w * h"
proof -
  have "(j + 1) * w \<le> h * w" using assms(1) by (intro mult_right_mono) auto
  then show ?thesis using assms(2) by (simp add: mult.commute)
qed

lemma nth_update_iff: "xs[i := x] ! j = (if i = j \<and> j < length xs then x else xs ! j)"
  by (cases "i < length xs") (auto simp: nth_list_update list_update_beyond)

section \<open>Saving what is under the cursor\<close>

definition saved :: "int \<Rightarrow> int \<Rightarrow> int \<Rightarrow> (int \<Rightarrow> int \<Rightarrow> 'p) \<Rightarrow> int \<Rightarrow> 'p list \<Rightarrow> bool" where
  "saved x1 y1 x2 fb n buf \<longleftrightarrow>
     (\<forall>j i. 0 \<le> j \<longrightarrow> j < n \<longrightarrow> 0 \<le> i \<longrightarrow> i < x2 \<longrightarrow> buf ! nat (j * x2 + i) = fb (x1 + i) (y1 + j))"

lemma save_row_saves:
  assumes "saved x1 y1 x2 fb (int j) buf" and "(Suc j) * nat x2 \<le> length buf" and "0 < x2"
    and "save_row x1 y1 x2 fb (int j) (c, buf) = (c', buf')"
  shows "saved x1 y1 x2 fb (int (Suc j)) buf' \<and> length buf' = length buf"
proof -
  define src where "src = map (\<lambda>i. fb (x1 + i) (y1 + int j)) [0..x2 - 1]"
  define d where "d = j * nat x2"
  have len: "length src = nat x2" by (simp add: src_def)
  have d: "nat (int j * x2) = d" using assms(3) by (simp add: d_def nat_mult_distrib)
  have fits: "d + nat x2 \<le> length buf" using assms(2) by (simp add: d_def algebra_simps)
  have b: "buf' = take d buf @ src @ drop (d + nat x2) buf"
  proof (cases "c \<or> take (nat x2) (drop d buf) \<noteq> src")
    case True
    then show ?thesis using assms(4) by (auto simp: save_row_def Let_def d src_def)
  next
    case False
    then have "buf' = buf" "take (nat x2) (drop d buf) = src"
      using assms(4) by (auto simp: save_row_def Let_def d src_def)
    then show ?thesis by (metis append_take_drop_id drop_drop add.commute)
  qed
  have "buf' ! nat (k * x2 + i) = fb (x1 + i) (y1 + k)" if k: "0 \<le> k" "k < int (Suc j)" and i: "0 \<le> i" "i < x2" for k i
  proof (cases "k = int j")
    case True
    then have "nat (k * x2 + i) = d + nat i" using d i assms(3) by (simp add: nat_add_distrib)
    then have "buf' ! nat (k * x2 + i) = src ! nat i"
      using fits len i by (simp add: b nth_append)
    then show ?thesis using i True by (simp add: src_def)
  next
    case False
    then have "(k + 1) * x2 \<le> int j * x2" using k assms(3) by (intro mult_right_mono) auto
    moreover have "0 \<le> k * x2" using k assms(3) by simp
    ultimately have "k * x2 + i < int j * x2" "0 \<le> k * x2 + i" using i by (auto simp: algebra_simps)
    then have "nat (k * x2 + i) < d" unfolding d[symmetric] by simp
    then have "buf' ! nat (k * x2 + i) = buf ! nat (k * x2 + i)" using fits by (simp add: b nth_append)
    then show ?thesis using assms(1) False k i by (simp add: saved_def)
  qed
  then show ?thesis using fits len by (auto simp: saved_def b)
qed

lemma save_rows:
  assumes "n * nat x2 \<le> length buf" and "0 < x2"
  shows "saved x1 y1 x2 fb (int n) (snd (fold (save_row x1 y1 x2 fb) [0..int n - 1] (c, buf))) \<and>
    length (snd (fold (save_row x1 y1 x2 fb) [0..int n - 1] (c, buf))) = length buf"
  using assms(1)
proof (induction n)
  case 0
  then show ?case by (simp add: saved_def)
next
  case (Suc n)
  obtain c1 b1 where f: "fold (save_row x1 y1 x2 fb) [0..int n - 1] (c, buf) = (c1, b1)" by fastforce
  obtain c2 b2 where s: "save_row x1 y1 x2 fb (int n) (c1, b1) = (c2, b2)" by fastforce
  have "n * nat x2 \<le> length buf" using Suc.prems by simp
  from Suc.IH[OF this] have "saved x1 y1 x2 fb (int n) b1" "length b1 = length buf" by (simp_all add: f)
  from save_row_saves[OF this(1) _ assms(2) s] this(2) Suc.prems
  show ?case by (simp only: upto_Suc fold_append comp_apply f) (simp add: s)
qed

lemma restore_rows:
  "fold (restore_row x1 y1 x2 buf) [0..int n - 1] fb x y =
     (if y1 \<le> y \<and> y < y1 + int n \<and> x1 \<le> x \<and> x < x1 + x2
      then buf ! nat ((y - y1) * x2 + (x - x1)) else fb x y)"
proof (induction n)
  case (Suc n)
  show ?case
    by (simp only: upto_Suc fold_append comp_apply) (auto simp: restore_row_def Suc)
qed auto

section \<open>Drawing only touches the rectangle of the cursor\<close>

lemma draw_cell_outside:
  assumes "\<not> (x1 \<le> x \<and> x < x1 + int w \<and> y1 \<le> y \<and> y < y1 + int h)" and "ji \<in> set (cells h w)"
  shows "draw_cell f c rich x1 y1 i1 j1 ji fb x y = fb x y"
  using assms by (cases ji) (auto simp: draw_cell_def Let_def set_pixel_def split: option.splits)

lemma draw_outside:
  assumes "\<not> (x1 \<le> x \<and> x < x1 + int w \<and> y1 \<le> y \<and> y < y1 + int h)"
  shows "fold (draw_cell f c rich x1 y1 i1 j1) (cells h w) fb x y = fb x y"
proof -
  have "fold (draw_cell f c rich x1 y1 i1 j1) cs fb x y = fb x y" if "set cs \<subseteq> set (cells h w)" for cs
    using that by (induction cs arbitrary: fb) (auto simp: draw_cell_outside[OF assms])
  then show ?thesis by blast
qed

lemma cursor_axis_le: "cursor_axis pos hot len limit = (x1, x2, i1) \<Longrightarrow> x2 \<le> len"
  by (auto simp: cursor_axis_def Let_def split: if_splits)

lemma rfbMakeRich_metrics:
  "rfbMakeRichCursorFromXCursor f c = Some c' \<Longrightarrow>
   cur_xhot c' = cur_xhot c \<and> cur_yhot c' = cur_yhot c \<and> cur_width c' = cur_width c \<and> cur_height c' = cur_height c"
  by (auto simp: rfbMakeRichCursorFromXCursor_def Let_def split: option.splits)

text \<open>What \<open>rfbShowCursor\<close> does when something of the cursor is on the screen.\<close>

lemma rfbShowCursor_drawn:
  assumes "rfbShowCursor heap X Y s = Some s'" and "ss_cursor s = Some c"
    and "cursor_axis X (cur_xhot c) (cur_width c) (ss_width s) = (x1, x2, i1)" "0 < x2"
    and "cursor_axis Y (cur_yhot c) (cur_height c) (ss_height s) = (y1, y2, j1)" "0 < y2"
  obtains c' rich where "ss_cursor s' = Some c'" "cur_xhot c' = cur_xhot c" "cur_yhot c' = cur_yhot c"
    "cur_width c' = cur_width c" "cur_height c' = cur_height c"
    "ss_width s' = ss_width s" "ss_height s' = ss_height s"
    "saved x1 y1 x2 (frameBuffer s) y2 (underCursorBuffer s')"
    "frameBuffer s' = fold (draw_cell (ss_format s) c' rich x1 y1 i1 j1) (cells (nat y2) (nat x2)) (frameBuffer s)"
proof -
  define buf where "buf = grow_under heap (nat (cur_width c * cur_height c)) (underCursorBuffer s)"
  define buf' where "buf' = snd (fold (save_row x1 y1 x2 (frameBuffer s)) [0..y2 - 1] (False, buf))"
  have e: "rfbShowCursor heap X Y s =
      do { c \<leftarrow> (if richSource c = None then rfbMakeRichCursorFromXCursor (ss_format s) c else Some c);
           rich \<leftarrow> richSource c;
           Some (s\<lparr>underCursorBuffer := buf', ss_cursor := Some c, frameBuffer :=
             fold (draw_cell (ss_format s) c rich x1 y1 i1 j1) (cells (nat y2) (nat x2)) (frameBuffer s)\<rparr>) }"
    using assms by (simp add: rfbShowCursor_def Let_def buf_def buf'_def cong: if_cong)
  obtain c' rich where c': "(if richSource c = None then rfbMakeRichCursorFromXCursor (ss_format s) c else Some c) = Some c'"
    and s': "s' = s\<lparr>underCursorBuffer := buf', ss_cursor := Some c', frameBuffer :=
      fold (draw_cell (ss_format s) c' rich x1 y1 i1 j1) (cells (nat y2) (nat x2)) (frameBuffer s)\<rparr>"
    using assms(1) unfolding e bind_eq_Some_conv option.inject by blast
  have "x2 \<le> cur_width c" "y2 \<le> cur_height c" using cursor_axis_le assms(3,5) by blast+
  then have "y2 * x2 \<le> cur_width c * cur_height c"
    using assms(4,6) mult_mono[of x2 "cur_width c" y2 "cur_height c"] by (simp add: mult.commute)
  then have "nat y2 * nat x2 \<le> nat (cur_width c * cur_height c)"
    using assms(4,6) nat_mult_distrib[of y2 x2] nat_mono by fastforce
  also have "\<dots> \<le> length buf" by (simp add: buf_def grow_under_def)
  finally have "saved x1 y1 x2 (frameBuffer s) y2 buf'"
    using save_rows[of "nat y2" x2 buf x1 y1 "frameBuffer s" False] assms(4,6) by (simp add: buf'_def)
  moreover have "cur_xhot c' = cur_xhot c \<and> cur_yhot c' = cur_yhot c \<and> cur_width c' = cur_width c \<and> cur_height c' = cur_height c"
    using c' rfbMakeRich_metrics by (auto split: if_splits)
  ultimately show thesis using that[of c' rich] by (simp add: s')
qed

text \<open>
  C22: Hiding the cursor right after it was shown restores the frame buffer exactly, wherever the
  cursor is, however much of it is on the screen and whatever the buffer held; and showing it
  changes no pixel outside its rectangle.
\<close>

theorem rfbHideCursor_restores:
  assumes "rfbShowCursor heap X Y s = Some s'"
  shows "frameBuffer (rfbHideCursor X Y s') = frameBuffer s \<and>
    (\<forall>c x y. ss_cursor s = Some c \<longrightarrow>
       (x, y) \<notin> {X - cur_xhot c..<X - cur_xhot c + cur_width c} \<times> {Y - cur_yhot c..<Y - cur_yhot c + cur_height c} \<longrightarrow>
       frameBuffer s' x y = frameBuffer s x y)"
proof (cases "ss_cursor s")
  case None
  then show ?thesis using assms by (auto simp: rfbShowCursor_def rfbHideCursor_def)
next
  case (Some c)
  obtain x1 x2 i1 where ax: "cursor_axis X (cur_xhot c) (cur_width c) (ss_width s) = (x1, x2, i1)" by (cases "cursor_axis X (cur_xhot c) (cur_width c) (ss_width s)") auto
  obtain y1 y2 j1 where ay: "cursor_axis Y (cur_yhot c) (cur_height c) (ss_height s) = (y1, y2, j1)" by (cases "cursor_axis Y (cur_yhot c) (cur_height c) (ss_height s)") auto
  show ?thesis
  proof (cases "x2 \<le> 0 \<or> y2 \<le> 0")
    case True
    then have "frameBuffer s' = frameBuffer s \<and> ss_cursor s' = Some c \<and> ss_width s' = ss_width s \<and> ss_height s' = ss_height s"
      using assms Some ax ay by (auto simp: rfbShowCursor_def Let_def split: if_splits)
    then show ?thesis using True ax ay by (auto simp: rfbHideCursor_def Let_def)
  next
    case False
    then have pos: "0 < x2" "0 < y2" by auto
    from rfbShowCursor_drawn[OF assms Some ax pos(1) ay pos(2)] obtain c' rich where
      d: "ss_cursor s' = Some c'" "cur_xhot c' = cur_xhot c" "cur_yhot c' = cur_yhot c"
        "cur_width c' = cur_width c" "cur_height c' = cur_height c"
        "ss_width s' = ss_width s" "ss_height s' = ss_height s"
        "saved x1 y1 x2 (frameBuffer s) y2 (underCursorBuffer s')"
        "frameBuffer s' = fold (draw_cell (ss_format s) c' rich x1 y1 i1 j1) (cells (nat y2) (nat x2)) (frameBuffer s)"
      by blast
    have out: "frameBuffer s' x y = frameBuffer s x y" if "\<not> (x1 \<le> x \<and> x < x1 + x2 \<and> y1 \<le> y \<and> y < y1 + y2)" for x y
      using that pos draw_outside[of x1 x "nat x2" y1 y "nat y2"] by (simp add: d(9))
    have h: "frameBuffer (rfbHideCursor X Y s') =
        fold (restore_row x1 y1 x2 (underCursorBuffer s')) [0..int (nat y2) - 1] (frameBuffer s')"
      using d ax ay pos by (simp add: rfbHideCursor_def Let_def)
    have "frameBuffer (rfbHideCursor X Y s') x y = frameBuffer s x y" for x y
    proof (cases "x1 \<le> x \<and> x < x1 + x2 \<and> y1 \<le> y \<and> y < y1 + y2")
      case True
      then have "underCursorBuffer s' ! nat ((y - y1) * x2 + (x - x1)) = frameBuffer s (x1 + (x - x1)) (y1 + (y - y1))"
        using d(8) pos unfolding saved_def by (smt (verit))
      then show ?thesis using True pos unfolding h restore_rows by simp
    next
      case False
      then show ?thesis using out pos unfolding h restore_rows by auto
    qed
    moreover have b: "x1 \<ge> X - cur_xhot c" "x1 + x2 \<le> X - cur_xhot c + cur_width c"
      "y1 \<ge> Y - cur_yhot c" "y1 + y2 \<le> Y - cur_yhot c + cur_height c"
      using ax ay by (auto simp: cursor_axis_def Let_def split: if_splits)
    have "frameBuffer s' x y = frameBuffer s x y"
      if "(x, y) \<notin> {X - cur_xhot c..<X - cur_xhot c + cur_width c} \<times> {Y - cur_yhot c..<Y - cur_yhot c + cur_height c}" for x y
      by (rule out) (use that b in auto)
    ultimately show ?thesis using Some by auto
  qed
qed

text \<open>A cross of three by three pixels, shown half outside a small screen.\<close>

definition demo_cursor :: "16 word rfbCursor" where
  "demo_cursor = rfbMakeXCursor 3 3 '' x xxx x '' None"

definition demo_cursor_screen :: "16 word server_screen" where
  "demo_cursor_screen = \<lparr>ss_width = 20, ss_height = 10, ss_format = rfbInitServerFormat 16 5,
     frameBuffer = (\<lambda>x y. word_of_int (x + 20 * y)), underCursorBuffer = [], ss_cursor = Some demo_cursor,
     ss_cursorX = 0, ss_cursorY = 0\<rparr>"

theorem rfbHideCursor_restores_witness:
  "\<exists>s'. rfbShowCursor (\<lambda>_. 0) (-1) (-1) demo_cursor_screen = Some s' \<and> frameBuffer s' 0 0 = 0xffff \<and>
     frameBuffer (rfbHideCursor (-1) (-1) s') 0 0 = 0"
proof -
  have "map_option (\<lambda>s'. frameBuffer s' 0 0) (rfbShowCursor (\<lambda>_. 0) (-1) (-1) demo_cursor_screen) = Some 0xffff"
    by code_simp
  then obtain s' where s': "rfbShowCursor (\<lambda>_. 0) (-1) (-1) demo_cursor_screen = Some s'" "frameBuffer s' 0 0 = 0xffff"
    by auto
  from rfbHideCursor_restores[OF s'(1)] have "frameBuffer (rfbHideCursor (-1) (-1) s') 0 0 = 0"
    by (simp add: demo_cursor_screen_def)
  with s' show ?thesis by blast
qed

section \<open>Dithered masks\<close>

text \<open>
  In a mask made from opacities no pixel of the last column of a byte is ever set, however
  opaque the cursor is: the bits are set one column too far to the left, and the one of the first
  column of each byte is lost.
\<close>

theorem rfbMakeMaskFromAlphaSource_shifted:
  assumes "j < height" "8 * k + 7 < width"
  shows "\<not> bitmap_column ((width + 7) div 8) (rfbMakeMaskFromAlphaSource width height alpha) j (8 * k + 7)"
proof -
  let ?w = "(width + 7) div 8"
  define even where "even n r \<longleftrightarrow> length r = n \<and> (\<forall>a<n. \<not> bit ((r :: uint8_t list) ! a) 0)" for n r
  have b: "\<not> bit (256 :: nat) (i mod 8)" for i :: nat
  proof -
    have "i mod 8 \<in> {0, 1, 2, 3, 4, 5, 6, 7}" by auto
    then show ?thesis by (auto simp: bit_numeral_rec)
  qed
  have step: "even n (fst (dither_pixel width ?w alpha j i st))" if "even n (fst st)" for n j i st
    using that by (auto simp: even_def dither_pixel_def Let_def bit_simps b nth_update_iff split: prod.splits)
  have "even n (fst (fold (\<lambda>(j, i). dither_pixel width ?w alpha j i) cs st))" if "even n (fst st)" for n cs st
    using that
  proof (induction cs arbitrary: st)
    case (Cons c cs)
    show ?case by (cases c) (simp add: Cons.IH step[OF Cons.prems])
  qed simp
  then have m: "even (?w * height) (rfbMakeMaskFromAlphaSource width height alpha)"
    unfolding rfbMakeMaskFromAlphaSource_def Let_def by (simp add: even_def)
  have "j * ?w + k < ?w * height" using assms by (intro bitmap_index) auto
  then show ?thesis using m by (simp add: bitmap_column_iff even_def)
qed

theorem rfbMakeMaskFromAlphaSource_shifted_witness:
  "\<not> bitmap_column 1 (rfbMakeMaskFromAlphaSource 8 2 (replicate 16 255)) 1 7 \<and>
   bitmap_column 1 (rfbMakeMaskFromAlphaSource 8 2 (replicate 16 255)) 1 0"
proof -
  have "bitmap_column 1 (rfbMakeMaskFromAlphaSource 8 2 (replicate 16 255)) 1 0" by code_simp
  then show ?thesis using rfbMakeMaskFromAlphaSource_shifted[of 1 2 0 8 "replicate 16 255"] by simp
qed

end
