(* ===== verification/RRERoundtrip.thy ===== *)
theory RRERoundtrip
  imports RRE
begin

text \<open>
  The decoders of \<open>libvncclient/rre.c\<close> and \<open>libvncclient/corre.c\<close>, and the proof that a client
  sees what the server's encoder was given.
\<close>

section \<open>Reading from the server\<close>

definition ReadFromRFBServer :: "nat \<Rightarrow> uint8_t list \<Rightarrow> (uint8_t list \<times> uint8_t list) option" where
  "ReadFromRFBServer n inp = (if length inp < n then None else Some (take n inp, drop n inp))"

lemma read_append [simp]: "length bs = n \<Longrightarrow> ReadFromRFBServer n (bs @ rest) = Some (bs, rest)"
  by (simp add: ReadFromRFBServer_def)

section \<open>HandleRRE\<close>

text \<open>The result says whether the handler returned \<open>TRUE\<close>; the input is what is left to read.\<close>

fun HandleRRE_subrects ::
    "nat \<Rightarrow> nat \<Rightarrow> nat \<Rightarrow> nat \<Rightarrow> 'a::len word list \<Rightarrow> uint8_t list \<Rightarrow> bool \<times> 'a word list \<times> uint8_t list" where
  "HandleRRE_subrects width rx ry 0 fb inp = (True, fb, inp)"
| "HandleRRE_subrects width rx ry (Suc n) fb inp =
     (case ReadFromRFBServer (pixel_size TYPE('a)) inp of
        None \<Rightarrow> (False, fb, inp)
      | Some (pix, inp) \<Rightarrow>
         (case ReadFromRFBServer sz_rfbRectangle inp of
            None \<Rightarrow> (False, fb, inp)
          | Some (r, inp) \<Rightarrow>
             (let x = unat (unwire16 r); y = unat (unwire16 (drop 2 r));
                  w = unat (unwire16 (drop 4 r)); h = unat (unwire16 (drop 6 r))
              in HandleRRE_subrects width rx ry n
                   (FillRectangle width fb (rx + x) (ry + y) w h (pixel_of pix)) inp)))"

definition HandleRRE ::
    "nat \<Rightarrow> 'a::len word list \<Rightarrow> uint8_t list \<Rightarrow> nat \<Rightarrow> nat \<Rightarrow> nat \<Rightarrow> nat \<Rightarrow>
     bool \<times> 'a word list \<times> uint8_t list" where
  "HandleRRE width fb inp rx ry rw rh =
     (case ReadFromRFBServer sz_rfbRREHeader inp of
        None \<Rightarrow> (False, fb, inp)
      | Some (hdr, inp) \<Rightarrow>
         (case ReadFromRFBServer (pixel_size TYPE('a)) inp of
            None \<Rightarrow> (False, fb, inp)
          | Some (pix, inp) \<Rightarrow>
              HandleRRE_subrects width rx ry (unat (unwire32 hdr))
                (FillRectangle width fb rx ry rw rh (pixel_of pix)) inp))"

section \<open>HandleCoRRE\<close>

fun HandleCoRRE_subrects ::
    "nat \<Rightarrow> nat \<Rightarrow> nat \<Rightarrow> nat \<Rightarrow> 'a::len word list \<Rightarrow> uint8_t list \<Rightarrow> 'a word list" where
  "HandleCoRRE_subrects width rx ry 0 fb ptr = fb"
| "HandleCoRRE_subrects width rx ry (Suc n) fb ptr =
     (let pix = take (pixel_size TYPE('a)) ptr; ptr = drop (pixel_size TYPE('a)) ptr;
          x = unat (ptr ! 0); y = unat (ptr ! 1); w = unat (ptr ! 2); h = unat (ptr ! 3)
      in HandleCoRRE_subrects width rx ry n
           (FillRectangle width fb (rx + x) (ry + y) w h (pixel_of pix)) (drop 4 ptr))"

definition RFB_BUFFER_SIZE :: nat where "RFB_BUFFER_SIZE = 640 * 480"

text \<open>
  \<open>None\<close>: the subrectangles do not fit in \<open>client->buffer\<close>, which the code does not check, and the
  read runs over its end. In \<open>Some (ok, fb, inp)\<close>, \<open>ok\<close> is the value returned.
\<close>

definition HandleCoRRE ::
    "nat \<Rightarrow> 'a::len word list \<Rightarrow> uint8_t list \<Rightarrow> nat \<Rightarrow> nat \<Rightarrow> nat \<Rightarrow> nat \<Rightarrow>
     (bool \<times> 'a word list \<times> uint8_t list) option" where
  "HandleCoRRE width fb inp rx ry rw rh =
     (case ReadFromRFBServer sz_rfbRREHeader inp of
        None \<Rightarrow> Some (False, fb, inp)
      | Some (hdr, inp) \<Rightarrow>
         (case ReadFromRFBServer (pixel_size TYPE('a)) inp of
            None \<Rightarrow> Some (False, fb, inp)
          | Some (pix, inp) \<Rightarrow>
             (let nSubrects = unat (unwire32 hdr);
                  fb = FillRectangle width fb rx ry rw rh (pixel_of pix);
                  n = nSubrects * (4 + pixel_size TYPE('a))
              in if RFB_BUFFER_SIZE < n then None
                 else (case ReadFromRFBServer n inp of
                         None \<Rightarrow> Some (False, fb, inp)
                       | Some (buffer, inp) \<Rightarrow>
                           Some (True, HandleCoRRE_subrects width rx ry nSubrects fb buffer, inp)))))"

section \<open>Decoding what was encoded\<close>

lemma unat_nat16 [simp]: "n < 65536 \<Longrightarrow> unat (word_of_nat n :: uint16_t) = n"
  by (simp add: unat_of_nat take_bit_nat_eq_self)

lemma HandleRRE_subrects_bytes:
  fixes subs :: "'a::len word subrect list"
  assumes "whole_bytes TYPE('a)" and "list_all (inside w h) subs" and "w < 65536" and "h < 65536"
  shows "HandleRRE_subrects width rx ry (length subs) fb (concat (map (subrect_bytes put_rectangle) subs) @ rest) =
    (True, fill_subs width rx ry subs fb, rest)"
  using assms
proof (induction subs arbitrary: fb)
  case Nil
  then show ?case by (simp add: fill_subs_def)
next
  case (Cons s subs)
  obtain c x y sw sh where s: "s = (c, x, y, sw, sh)" by (metis prod_cases5)
  have small: "x < 65536" "y < 65536" "sw < 65536" "sh < 65536"
    using Cons.prems by (auto simp: s inside_def)
  have r: "length (put_rectangle (x, y, sw, sh)) = sz_rfbRectangle"
    by (simp add: put_rectangle_def sz_rfbRectangle_def)
  have d: "drop 2 (wire16 a @ bs) = bs" "drop 4 (wire16 a @ wire16 b @ bs) = bs"
    "drop 6 (wire16 a @ wire16 b @ wire16 c @ bs) = bs" for a b c bs
    by (simp_all add: wire16_def)
  have f: "unat (unwire16 (put_rectangle (x, y, sw, sh))) = x"
    "unat (unwire16 (drop 2 (put_rectangle (x, y, sw, sh)))) = y"
    "unat (unwire16 (drop 4 (put_rectangle (x, y, sw, sh)))) = sw"
    "unat (unwire16 (drop 6 (put_rectangle (x, y, sw, sh)))) = sh"
    using small by (simp_all add: put_rectangle_def d)
  have b: "concat (map (subrect_bytes put_rectangle) (s # subs)) @ rest =
      pixel_bytes c @ put_rectangle (x, y, sw, sh) @ concat (map (subrect_bytes put_rectangle) subs) @ rest"
    by (simp add: s subrect_bytes_def)
  show ?case
    unfolding b
    using Cons.IH[of "FillRectangle width fb (rx + x) (ry + y) sw sh c"] Cons.prems r
    by (simp add: s fill_subs_def f Let_def)
qed

lemma HandleCoRRE_subrects_bytes:
  fixes subs :: "'a::len word subrect list"
  assumes "whole_bytes TYPE('a)" and "list_all (inside w h) subs" and "w < 256" and "h < 256"
  shows "HandleCoRRE_subrects width rx ry (length subs) fb (concat (map (subrect_bytes put_corre_rectangle) subs)) =
    fill_subs width rx ry subs fb"
  using assms
proof (induction subs arbitrary: fb)
  case Nil
  then show ?case by (simp add: fill_subs_def)
next
  case (Cons s subs)
  obtain c x y sw sh where s: "s = (c, x, y, sw, sh)" by (metis prod_cases5)
  have small: "x < 256" "y < 256" "sw < 256" "sh < 256"
    using Cons.prems by (auto simp: s inside_def)
  have u: "unat (word_of_nat n :: uint8_t) = n" if "n < 256" for n
    using that by (simp add: unat_of_nat take_bit_nat_eq_self)
  show ?case
    using Cons.IH[of "FillRectangle width fb (rx + x) (ry + y) sw sh c"] Cons.prems small
    by (simp add: s subrect_bytes_def fill_subs_def put_corre_rectangle_def[of "(x, y, sw, sh)"] u Let_def)
qed

lemma length_concat_subrects:
  "(\<And>r. length (put r) = sz) \<Longrightarrow>
   length (concat (map (subrect_bytes put) (subs :: 'a::len word subrect list))) =
     length subs * (pixel_size TYPE('a) + sz)"
  by (induction subs) (simp_all add: subrect_bytes_def algebra_simps)

text \<open>What both encoders give, in terms of subrectangles.\<close>

lemma encode_subrects:
  fixes data :: "'a::len word list"
  assumes "encode_loop put sz (w * h * pixel_size TYPE('a)) bufSize bg w h (positions w h) data 0 (pixel_bytes bg) = Some (n, buf)"
    and "length data = w * h" and "\<And>r. length (put r) = sz" and "0 < w * h"
  obtains subs where "n = length subs" "buf = pixel_bytes bg @ concat (map (subrect_bytes put) subs)"
    "list_all (inside w h) subs"
    "\<And>px py. px < w \<Longrightarrow> py < h \<Longrightarrow> paint subs (\<lambda>_ _. bg) px py = data ! (py * w + px)"
    "n * (pixel_size TYPE('a) + sz) \<le> w * h * pixel_size TYPE('a)"
proof (rule encode_all_paints[OF assms(1,2)])
  fix subs
  assume *: "n = length subs" "buf = pixel_bytes bg @ concat (map (subrect_bytes put) subs)"
    "list_all (inside w h) subs"
    "\<And>px py. px < w \<Longrightarrow> py < h \<Longrightarrow> paint subs (\<lambda>_ _. bg) px py = data ! (py * w + px)"
  have "length buf \<le> w * h * pixel_size TYPE('a)"
    using encode_loop_length[OF assms(1) _ assms(3)] assms(4) by simp
  then have "n * (pixel_size TYPE('a) + sz) \<le> w * h * pixel_size TYPE('a)"
    using *(1,2) length_concat_subrects[of put sz subs, OF assms(3)] by simp
  with * show thesis by (rule that)
qed

lemma n_bound: "n * (s + k) \<le> a * s \<Longrightarrow> 0 < s + k \<Longrightarrow> n \<le> (a :: nat)"
proof (rule ccontr)
  assume a: "n * (s + k) \<le> a * s" "0 < s + k" "\<not> n \<le> a"
  then have "a * (s + k) < n * (s + k)" by simp
  with a(1) show False by (simp add: algebra_simps)
qed

lemma shows_background:
  "shows_pixels W H fb f \<Longrightarrow> rx + w \<le> W \<Longrightarrow>
   shows_pixels W H (FillRectangle W fb rx ry w h c) (overlay rx ry w h (\<lambda>_ _. c) f)"
  by (rule shows_fill)

section \<open>Properties\<close>

lemma HandleRRE_shows:
  fixes data :: "'a::len word list"
  assumes "rre_subrectEncode bufSize data w h = Some (n, after)"
    and "length data = w * h" and "0 < w" "0 < h" "w < 65536" "h < 65536"
    and "whole_bytes TYPE('a)" and "8 \<le> LENGTH('a)"
    and "shows_pixels W H fb f" and "rx + w \<le> W" and "ry + h \<le> H"
  shows "\<exists>fb'. HandleRRE W fb (wire32 (word_of_nat n) @ after @ rest) rx ry w h = (True, fb', rest) \<and>
    shows_pixels W H fb' (overlay rx ry w h (\<lambda>px py. data ! (py * w + px)) f)"
proof -
  define bg where "bg = getBgColour data (w * h)"
  have e: "encode_loop put_rectangle 8 (w * h * pixel_size TYPE('a)) bufSize bg w h (positions w h) data 0
      (pixel_bytes bg) = Some (n, after)"
    using assms(1) by (simp add: rre_subrectEncode_def bg_def sz_rfbRectangle_def Let_def)
  have "\<And>r. length (put_rectangle r) = 8" by (simp add: put_rectangle_def split: prod.split)
  from encode_subrects[OF e assms(2) this] assms(3,4)
  obtain subs where subs: "n = length subs" "after = pixel_bytes bg @ concat (map (subrect_bytes put_rectangle) subs)"
    "list_all (inside w h) subs"
    "\<And>px py. px < w \<Longrightarrow> py < h \<Longrightarrow> paint subs (\<lambda>_ _. bg) px py = data ! (py * w + px)"
    "n * (pixel_size TYPE('a) + 8) \<le> w * h * pixel_size TYPE('a)" by (metis nat_0_less_mult_iff)
  have "n \<le> w * h" using n_bound[OF subs(5)] by simp
  also have "\<dots> \<le> 65535 * 65535" using assms(5,6) by (intro mult_le_mono) simp_all
  finally have n: "unat (word_of_nat n :: uint32_t) = n" by (simp add: unat_of_nat take_bit_nat_eq_self)
  define fb1 where "fb1 = FillRectangle W fb rx ry w h bg"
  have "shows_pixels W H fb1 (overlay rx ry w h (\<lambda>_ _. bg) f)"
    unfolding fb1_def by (rule shows_background[OF assms(9,10)])
  from shows_fill_subs[OF this assms(10,11) subs(3)]
  have "shows_pixels W H (fill_subs W rx ry subs fb1) (overlay rx ry w h (\<lambda>px py. data ! (py * w + px)) f)"
    using overlay_cong[of w h "paint subs (\<lambda>_ _. bg)" "\<lambda>px py. data ! (py * w + px)" rx ry f] subs(4) by simp
  moreover have "HandleRRE W fb (wire32 (word_of_nat n) @ after @ rest) rx ry w h =
      (True, fill_subs W rx ry subs fb1, rest)"
    using HandleRRE_subrects_bytes[OF assms(7) subs(3) assms(5,6), of W rx ry fb1 rest] assms(7)
    by (simp add: HandleRRE_def subs(2) sz_rfbRREHeader_def n fb1_def) (simp add: subs(1))
  ultimately show ?thesis by blast
qed

text \<open>
  C12: RRE round trip. Whatever RRE makes of a rectangle of pixels, a client that reads it into its frame
  buffer shows exactly those pixels in the rectangle and what it showed before around it, and
  the next bytes of the stream are left unread.
\<close>

theorem HandleRRE_decodes:
  fixes data :: "'a::len word list"
  assumes "rre_subrectEncode bufSize data w h = Some (n, after)"
    and "length data = w * h" and "0 < w" "0 < h" "w < 65536" "h < 65536"
    and "whole_bytes TYPE('a)" and "8 \<le> LENGTH('a)"
    and "shows_pixels W H fb f" and "rx + w \<le> W" and "ry + h \<le> H"
  shows "\<exists>fb'. HandleRRE W fb (wire32 (word_of_nat n) @ after @ rest) rx ry w h = (True, fb', rest) \<and>
    shows_pixels W H fb' (overlay rx ry w h (\<lambda>px py. data ! (py * w + px)) f)"
  by (rule HandleRRE_shows[OF assms])

theorem HandleRRE_decodes_witness:
  "\<exists>fb'. HandleRRE 6 (replicate 36 (0 :: uint8_t))
       (wire32 (word_of_nat 1) @ [7, 9, 0, 1, 0, 2, 0, 2, 0, 1] @ [99]) 1 1 4 4 = (True, fb', [99]) \<and>
     shows_pixels 6 6 fb' (overlay 1 1 4 4
       (\<lambda>px py. [7, 7, 7, 7, 7, 7, 7, 7, 7, 9, 9, 7, 7, 7, 7, 7] ! (py * 4 + px)) (\<lambda>_ _. 0))"
proof -
  have e: "rre_subrectEncode 36 [7, 7, 7, 7, 7, 7, 7, 7, 7, 9, 9, 7, 7, 7, 7, 7 :: uint8_t] 4 4 =
      Some (1, [7, 9, 0, 1, 0, 2, 0, 2, 0, 1])" by code_simp
  have "shows_pixels 6 6 (replicate 36 (0 :: uint8_t)) (\<lambda>_ _. 0)"
    using index_less[of _ 6 _ 6] by (simp add: shows_pixels_def)
  from HandleRRE_decodes[OF e _ _ _ _ _ _ _ this, of 1 1 "[99]"] show ?thesis by simp
qed

lemma HandleCoRRE_shows:
  fixes data :: "'a::len word list"
  assumes "corre_subrectEncode bufSize data w h = Some (n, after)"
    and "length data = w * h" and "0 < w" "0 < h" "w < 256" "h < 256"
    and "whole_bytes TYPE('a)" and "8 \<le> LENGTH('a)" and "LENGTH('a) \<le> 32"
    and "shows_pixels W H fb f" and "rx + w \<le> W" and "ry + h \<le> H"
  shows "\<exists>fb'. HandleCoRRE W fb (wire32 (word_of_nat n) @ after @ rest) rx ry w h = Some (True, fb', rest) \<and>
    shows_pixels W H fb' (overlay rx ry w h (\<lambda>px py. data ! (py * w + px)) f)"
proof -
  define bg where "bg = getBgColour data (w * h)"
  have e: "encode_loop put_corre_rectangle 4 (w * h * pixel_size TYPE('a)) bufSize bg w h (positions w h) data 0
      (pixel_bytes bg) = Some (n, after)"
    using assms(1) by (simp add: corre_subrectEncode_def bg_def sz_rfbCoRRERectangle_def Let_def)
  have len: "\<And>r. length (put_corre_rectangle r) = 4" by (simp add: put_corre_rectangle_def split: prod.split)
  from encode_subrects[OF e assms(2) len] assms(3,4)
  obtain subs where subs: "n = length subs" "after = pixel_bytes bg @ concat (map (subrect_bytes put_corre_rectangle) subs)"
    "list_all (inside w h) subs"
    "\<And>px py. px < w \<Longrightarrow> py < h \<Longrightarrow> paint subs (\<lambda>_ _. bg) px py = data ! (py * w + px)"
    "n * (pixel_size TYPE('a) + 4) \<le> w * h * pixel_size TYPE('a)" by (metis nat_0_less_mult_iff)
  have "n \<le> w * h" using n_bound[OF subs(5)] by simp
  also have wh: "\<dots> \<le> 255 * 255" using assms(5,6) by (intro mult_le_mono) simp_all
  finally have n: "unat (word_of_nat n :: uint32_t) = n" by (simp add: unat_of_nat take_bit_nat_eq_self)
  have "pixel_size TYPE('a) \<le> 4" using assms(9) by (simp add: pixel_size_def)
  with wh have "w * h * pixel_size TYPE('a) \<le> 255 * 255 * 4" by (rule mult_le_mono)
  with subs(5) have fits: "\<not> RFB_BUFFER_SIZE < n * (4 + pixel_size TYPE('a))"
    by (simp add: RFB_BUFFER_SIZE_def add.commute)
  define fb1 where "fb1 = FillRectangle W fb rx ry w h bg"
  have "shows_pixels W H fb1 (overlay rx ry w h (\<lambda>_ _. bg) f)"
    unfolding fb1_def by (rule shows_background[OF assms(10,11)])
  from shows_fill_subs[OF this assms(11,12) subs(3)]
  have "shows_pixels W H (fill_subs W rx ry subs fb1) (overlay rx ry w h (\<lambda>px py. data ! (py * w + px)) f)"
    using overlay_cong[of w h "paint subs (\<lambda>_ _. bg)" "\<lambda>px py. data ! (py * w + px)" rx ry f] subs(4) by simp
  moreover have "length (concat (map (subrect_bytes put_corre_rectangle) subs)) = n * (4 + pixel_size TYPE('a))"
    using length_concat_subrects[of put_corre_rectangle 4 subs, OF len] by (simp add: subs(1) add.commute)
  then have "HandleCoRRE W fb (wire32 (word_of_nat n) @ after @ rest) rx ry w h =
      Some (True, fill_subs W rx ry subs fb1, rest)"
    using HandleCoRRE_subrects_bytes[OF assms(7) subs(3) assms(5,6), of W rx ry fb1] assms(7) fits
    by (simp add: HandleCoRRE_def subs(2) sz_rfbRREHeader_def n fb1_def Let_def subs(1)[symmetric])
  ultimately show ?thesis by blast
qed

text \<open>
  C13: CoRRE round trip, for the rectangles of at most 255 by 255 pixels it is used for; moreover the
  encoding always fits in the client's buffer, so the unchecked read of the decoder is safe with this
  server.
\<close>

theorem HandleCoRRE_decodes:
  fixes data :: "'a::len word list"
  assumes "corre_subrectEncode bufSize data w h = Some (n, after)"
    and "length data = w * h" and "0 < w" "0 < h" "w < 256" "h < 256"
    and "whole_bytes TYPE('a)" and "8 \<le> LENGTH('a)" and "LENGTH('a) \<le> 32"
    and "shows_pixels W H fb f" and "rx + w \<le> W" and "ry + h \<le> H"
  shows "\<exists>fb'. HandleCoRRE W fb (wire32 (word_of_nat n) @ after @ rest) rx ry w h = Some (True, fb', rest) \<and>
    shows_pixels W H fb' (overlay rx ry w h (\<lambda>px py. data ! (py * w + px)) f)"
  by (rule HandleCoRRE_shows[OF assms])

theorem HandleCoRRE_decodes_witness:
  "\<exists>fb'. HandleCoRRE 6 (replicate 36 (0 :: uint16_t))
       (wire32 (word_of_nat 1) @ [7, 0, 9, 0, 1, 2, 2, 1] @ [99]) 1 1 4 4 = Some (True, fb', [99]) \<and>
     shows_pixels 6 6 fb' (overlay 1 1 4 4
       (\<lambda>px py. [7, 7, 7, 7, 7, 7, 7, 7, 7, 9, 9, 7, 7, 7, 7, 7] ! (py * 4 + px)) (\<lambda>_ _. 0))"
proof -
  have e: "corre_subrectEncode 72 [7, 7, 7, 7, 7, 7, 7, 7, 7, 9, 9, 7, 7, 7, 7, 7 :: uint16_t] 4 4 =
      Some (1, [7, 0, 9, 0, 1, 2, 2, 1])" by code_simp
  have "shows_pixels 6 6 (replicate 36 (0 :: uint16_t)) (\<lambda>_ _. 0)"
    using index_less[of _ 6 _ 6] by (simp add: shows_pixels_def)
  from HandleCoRRE_decodes[OF e _ _ _ _ _ _ _ _ this, of 1 1 "[99]"] show ?thesis by simp
qed

section \<open>The update buffer\<close>

text \<open>What the client has been sent once the buffer is flushed, and room for what the buffer holds.\<close>

definition stream :: "update_state \<Rightarrow> uint8_t list" where
  "stream cl = sent cl @ updateBuf cl"

definition buf_ok :: "update_state \<Rightarrow> bool" where
  "buf_ok cl \<longleftrightarrow> length (updateBuf cl) \<le> UPDATE_BUF_SIZE"

lemma send_buf_stream:
  "rfbSendUpdateBuf cl = (ok, cl') \<Longrightarrow> stream cl' = stream cl \<and> (buf_ok cl \<longrightarrow> buf_ok cl') \<and>
     (ok \<longrightarrow> updateBuf cl' = [])"
  by (auto simp: rfbSendUpdateBuf_def stream_def buf_ok_def split: if_splits)

lemma make_room_stream:
  "make_room n cl = (ok, cl') \<Longrightarrow> buf_ok cl \<Longrightarrow> n \<le> UPDATE_BUF_SIZE \<Longrightarrow>
     stream cl' = stream cl \<and> buf_ok cl' \<and> (ok \<longrightarrow> length (updateBuf cl') + n \<le> UPDATE_BUF_SIZE)"
  using send_buf_stream[of cl ok cl']
  by (auto simp: make_room_def buf_ok_def split: if_splits)

lemma put_bytes_stream: "stream (put_bytes bs cl) = stream cl @ bs"
  by (simp add: stream_def put_bytes_def)

lemma copy_loop_stream:
  "copy_loop rest cl = (True, cl') \<Longrightarrow> buf_ok cl \<Longrightarrow> stream cl' = stream cl @ rest \<and> buf_ok cl'"
proof (induction rest cl arbitrary: cl' rule: copy_loop.induct)
  case (1 rest cl)
  show ?case
  proof (cases "rest = []")
    case True
    then show ?thesis using "1.prems" by (simp add: copy_loop.simps)
  next
    case False
    define n where "n = (if length rest < UPDATE_BUF_SIZE - length (updateBuf cl) then length rest
      else UPDATE_BUF_SIZE - length (updateBuf cl))"
    define cl1 where "cl1 = put_bytes (take n rest) cl"
    have len: "length (updateBuf cl1) = length (updateBuf cl) + n" "length (updateBuf cl1) \<le> UPDATE_BUF_SIZE"
      using "1.prems"(2) by (auto simp: cl1_def put_bytes_def buf_ok_def n_def)
    have st: "stream cl1 @ drop n rest = stream cl @ rest" by (simp add: cl1_def put_bytes_stream)
    show ?thesis
    proof (cases "length (updateBuf cl1) = UPDATE_BUF_SIZE")
      case True
      obtain ok cl2 where s: "rfbSendUpdateBuf cl1 = (ok, cl2)" by fastforce
      have ok: ok and r: "copy_loop (drop n rest) cl2 = (True, cl')"
        using "1.prems"(1) False True s
        by (auto simp: copy_loop.simps[of rest cl] Let_def n_def cl1_def split: if_splits)
      have "buf_ok cl2" "stream cl2 = stream cl1"
        using send_buf_stream[OF s] len(2) by (simp_all add: buf_ok_def)
      then show ?thesis
        using "1.IH"(1)[OF False refl, unfolded n_def[symmetric], OF refl, unfolded cl1_def[symmetric], OF refl True s[symmetric] refl _ r] ok st
        by simp
    next
      case n: False
      have r: "copy_loop (drop n rest) cl1 = (True, cl')"
        using "1.prems"(1) False n len(2)
        by (auto simp: copy_loop.simps[of rest cl] Let_def n_def cl1_def split: if_splits)
      have "buf_ok cl1" using len(2) by (simp add: buf_ok_def)
      then show ?thesis
        using "1.IH"(2)[OF False refl, unfolded n_def[symmetric], OF refl, unfolded cl1_def[symmetric], OF refl n _ r] st len(2)
        by simp
    qed
  qed
qed

lemma tile_rows: "tile fb x y w (m + n) = tile fb x y w m @ tile fb x (y + m) w n"
proof -
  have "map (\<lambda>j. m + j) [0..<n] = [m..<m + n]"
    by (rule nth_equalityI) simp_all
  then have "[0..<m + n] = [0..<m] @ map (\<lambda>j. m + j) [0..<n]"
    using upt_add_eq_append[of 0 m n] by simp
  then show ?thesis unfolding tile_def by (simp only: map_append concat_append map_map comp_def add.assoc)
qed

lemma tile_bytes_rows: "tile_bytes fb x y w (m + n) = tile_bytes fb x y w m @ tile_bytes fb x (y + m) w n"
  by (simp add: tile_bytes_def tile_rows)

lemma length_tile [simp]: "length (tile fb x y w h) = w * h"
  by (simp add: tile_def length_concat comp_def sum_list_triv)

lemma nth_tile: "i < w \<Longrightarrow> j < h \<Longrightarrow> tile fb x y w h ! (j * w + i) = fb (x + i) (y + j)"
proof (induction h)
  case (Suc h)
  have t: "tile fb x y w (Suc h) = tile fb x y w h @ map (\<lambda>i. fb (x + i) (y + h)) [0..<w]"
    using tile_rows[of fb x y w h 1] by (simp add: tile_def[of fb x "y + h" w])
  show ?case
  proof (cases "j = h")
    case True
    then show ?thesis using Suc.prems by (simp add: t nth_append mult.commute)
  next
    case False
    then have "j < h" using Suc.prems by simp
    then show ?thesis
      using Suc index_less[OF Suc.prems(1) \<open>j < h\<close>] by (simp add: t nth_append)
  qed
qed simp

lemma length_tile_bytes:
  "length (tile_bytes (fb :: nat \<Rightarrow> nat \<Rightarrow> 'a::len word) x y w h) = w * h * pixel_size TYPE('a)"
  by (simp add: tile_bytes_def length_concat comp_def sum_list_triv)

lemma raw_loop_stream:
  fixes fb :: "nat \<Rightarrow> nat \<Rightarrow> 'a::len word"
  assumes "raw_loop fb bytesPerLine x y w h nlines cl = (True, cl')"
    and "bytesPerLine = w * pixel_size TYPE('a)"
    and "length (updateBuf cl) + nlines * bytesPerLine \<le> UPDATE_BUF_SIZE"
  shows "stream cl' = stream cl @ tile_bytes fb x y w h \<and> buf_ok cl'"
  using assms
proof (induction fb bytesPerLine x y w h nlines cl arbitrary: cl' rule: raw_loop.induct)
  case (1 fb bytesPerLine x y w h nlines cl)
  define n where "n = (if h < nlines then h else nlines)"
  define cl1 where "cl1 = put_bytes (tile_bytes fb x y w n) cl"
  have nle: "n \<le> h" "n * bytesPerLine \<le> nlines * bytesPerLine" by (auto simp: n_def)
  have "w * n * pixel_size TYPE('a) = n * bytesPerLine" by (simp add: "1.prems"(2))
  then have len: "length (updateBuf cl1) \<le> UPDATE_BUF_SIZE"
  proof -
    have "length (updateBuf cl1) = length (updateBuf cl) + w * n * pixel_size TYPE('a)"
      by (simp add: cl1_def put_bytes_def length_tile_bytes)
    then show ?thesis
      using \<open>w * n * pixel_size TYPE('a) = n * bytesPerLine\<close> "1.prems"(3) nle(2) by linarith
  qed
  have st: "stream cl1 = stream cl @ tile_bytes fb x y w n" by (simp add: cl1_def put_bytes_stream)
  have rows: "tile_bytes fb x y w h = tile_bytes fb x y w n @ tile_bytes fb x (y + n) w (h - n)"
    using tile_bytes_rows[of fb x y w n "h - n"] nle by simp
  show ?case
  proof (cases "h - n = 0")
    case True
    then have "cl' = cl1" "n = h"
      using "1.prems"(1) nle by (auto simp: raw_loop.simps[of fb bytesPerLine x y w h] Let_def n_def cl1_def)
    then show ?thesis using st len by (simp add: buf_ok_def)
  next
    case False
    obtain ok cl2 where s: "rfbSendUpdateBuf cl1 = (ok, cl2)" by fastforce
    define m where "m = (UPDATE_BUF_SIZE - length (updateBuf cl2)) div bytesPerLine"
    have r: ok "m \<noteq> 0" "raw_loop fb bytesPerLine x (y + n) w (h - n) m cl2 = (True, cl')"
      using "1.prems"(1) False s unfolding raw_loop.simps[of fb bytesPerLine x y w h]
      by (simp_all add: Let_def n_def[symmetric] cl1_def[symmetric] m_def split: if_splits)
    have "length (updateBuf cl2) + m * bytesPerLine \<le> UPDATE_BUF_SIZE"
      using send_buf_stream[OF s] r(1) by (simp add: m_def)
    then have "stream cl' = stream cl2 @ tile_bytes fb x (y + n) w (h - n) \<and> buf_ok cl'"
      using "1.IH"[OF n_def cl1_def refl False s[symmetric] refl _ refl m_def r(2) r(3) "1.prems"(2)] r(1)
      by simp
    then show ?thesis using send_buf_stream[OF s] st rows by simp
  qed
qed

definition raw_message :: "(nat \<Rightarrow> nat \<Rightarrow> 'a::len word) \<Rightarrow> nat \<Rightarrow> nat \<Rightarrow> nat \<Rightarrow> nat \<Rightarrow> uint8_t list" where
  "raw_message fb x y w h = rect_header x y w h rfbEncodingRaw @ tile_bytes fb x y w h"

lemma length_rect_header [simp]: "length (rect_header x y w h e) = 12"
  by (simp add: rect_header_def)

lemma raw_stream:
  assumes "rfbSendRectEncodingRaw fb x y w h cl = (True, cl')" and "buf_ok cl"
  shows "stream cl' = stream cl @ raw_message fb x y w h \<and> buf_ok cl'"
proof -
  obtain ok cl1 where s: "(if 0 < length (updateBuf cl) then rfbSendUpdateBuf cl else (True, cl)) = (ok, cl1)"
    by fastforce
  then have c1: "stream cl1 = stream cl" "ok \<Longrightarrow> updateBuf cl1 = []"
    using send_buf_stream[of cl ok cl1] by (auto split: if_splits)
  define cl2 where "cl2 = put_bytes (rect_header x y w h rfbEncodingRaw) cl1"
  define bpl where "bpl = w * pixel_size TYPE('a)"
  define n where "n = (UPDATE_BUF_SIZE - length (updateBuf cl2)) div bpl"
  have ok and r: "raw_loop fb bpl x y w h n cl2 = (True, cl')"
    using assms(1) s
    by (auto simp: rfbSendRectEncodingRaw_def Let_def cl2_def bpl_def n_def split: if_splits prod.splits)
  have "length (updateBuf cl2) = 12" using c1(2)[OF \<open>ok\<close>] by (simp add: cl2_def put_bytes_def)
  then have "length (updateBuf cl2) + n * bpl \<le> UPDATE_BUF_SIZE"
    using div_times_less_eq_dividend[of "UPDATE_BUF_SIZE - 12" bpl] by (simp add: n_def UPDATE_BUF_SIZE_def)
  from raw_loop_stream[OF r bpl_def this] show ?thesis
    by (simp add: cl2_def put_bytes_stream c1(1) raw_message_def)
qed

definition rre_message ::
    "(nat \<Rightarrow> nat \<Rightarrow> 'a::len word) \<Rightarrow> nat \<Rightarrow> nat \<Rightarrow> nat \<Rightarrow> nat \<Rightarrow> nat \<Rightarrow> uint8_t list" where
  "rre_message fb bufSize x y w h =
     (case rre_subrectEncode bufSize (tile fb x y w h) w h of
        None \<Rightarrow> raw_message fb x y w h
      | Some (n, after) \<Rightarrow> rect_header x y w h rfbEncodingRRE @ wire32 (word_of_nat n) @ after)"

text \<open>
  When \<open>rfbSendRectEncodingRRE\<close> returns \<open>TRUE\<close>, what reaches the client (written to the socket or
  waiting in the update buffer) has grown by exactly one rectangle: the header, the count and the
  encoding, or the raw pixels where the encoding would be longer; and the update buffer has not
  overrun, however the chunks and the flushes fall.
\<close>

lemma rfbSendRectEncodingRRE_stream:
  fixes fb :: "nat \<Rightarrow> nat \<Rightarrow> 'a::len word"
  assumes "rfbSendRectEncodingRRE fb screen_w screen_h afterSize x y w h cl = (True, cl')"
    and "length (updateBuf cl) \<le> UPDATE_BUF_SIZE"
  shows "stream cl' = stream cl @
      rre_message fb (max afterSize (screen_w * screen_h * pixel_size TYPE('a))) x y w h \<and>
    length (updateBuf cl') \<le> UPDATE_BUF_SIZE"
proof -
  define size where "size = max afterSize (screen_w * screen_h * pixel_size TYPE('a))"
  have sz: "(if afterSize < screen_w * screen_h * pixel_size TYPE('a)
      then screen_w * screen_h * pixel_size TYPE('a) else afterSize) = size" by (simp add: size_def max_def)
  have ok: "buf_ok cl" using assms(2) by (simp add: buf_ok_def)
  have "stream cl' = stream cl @ rre_message fb size x y w h \<and> buf_ok cl'"
  proof (cases "rre_subrectEncode size (tile fb x y w h) w h")
    case None
    then have "rfbSendRectEncodingRaw fb x y w h cl = (True, cl')"
      using assms(1) sz by (simp add: rfbSendRectEncodingRRE_def Let_def)
    from raw_stream[OF this ok] None show ?thesis by (simp add: rre_message_def)
  next
    case (Some r)
    obtain n after where r: "r = (n, after)" by fastforce
    obtain ok1 cl1 where m: "make_room 16 cl = (ok1, cl1)" by fastforce
    define cl2 where "cl2 = put_bytes (wire32 (word_of_nat n)) (put_bytes (rect_header x y w h rfbEncodingRRE) cl1)"
    have ok1 and c: "copy_loop after cl2 = (True, cl')"
      using assms(1) sz Some r m
      by (auto simp: rfbSendRectEncodingRRE_def Let_def cl2_def sz_rfbFramebufferUpdateRectHeader_def
          sz_rfbRREHeader_def split: if_splits)
    have "stream cl1 = stream cl" "length (updateBuf cl1) + 16 \<le> UPDATE_BUF_SIZE"
      using make_room_stream[OF m ok] \<open>ok1\<close> by (simp_all add: UPDATE_BUF_SIZE_def)
    then have "buf_ok cl2" "stream cl2 = stream cl @ rect_header x y w h rfbEncodingRRE @ wire32 (word_of_nat n)"
      by (simp_all add: cl2_def buf_ok_def put_bytes_stream) (simp add: put_bytes_def)
    then show ?thesis using copy_loop_stream[OF c] Some r by (simp add: rre_message_def)
  qed
  then show ?thesis unfolding size_def by (simp add: buf_ok_def)
qed

lemma rfbSendRectEncodingRRE_stream_witness:
  "\<exists>cl'. rfbSendRectEncodingRRE (\<lambda>X Y. if X = 2 \<and> Y = 1 then 9 else (7 :: uint8_t)) 4 4 0 0 0 4 4
       \<lparr>updateBuf = [1], sent = [0], writes_left = 3, sock_open = True\<rparr> = (True, cl') \<and>
     stream cl' = [0, 1] @
       rect_header 0 0 4 4 rfbEncodingRRE @ wire32 1 @ [7, 9, 0, 2, 0, 1, 0, 1, 0, 1]"
proof -
  define fb :: "nat \<Rightarrow> nat \<Rightarrow> uint8_t" where "fb = (\<lambda>X Y. if X = 2 \<and> Y = 1 then 9 else 7)"
  define cl where "cl = \<lparr>updateBuf = [1], sent = [0], writes_left = 3, sock_open = True\<rparr>"
  define after :: "uint8_t list" where "after = [7, 9, 0, 2, 0, 1, 0, 1, 0, 1]"
  have e: "rre_subrectEncode 16 (tile fb 0 0 4 4) 4 4 = Some (1, after)"
    unfolding fb_def after_def by code_simp
  have len: "length after = 10" by (simp add: after_def)
  have c: "copy_loop after c = (True, put_bytes after c)" if "length (updateBuf c) = 17" for c
    using that len by (simp add: copy_loop.simps[of after] copy_loop.simps[of "[]"]
        UPDATE_BUF_SIZE_def put_bytes_def Let_def)
  have "fst (rfbSendRectEncodingRRE fb 4 4 0 0 0 4 4 cl)"
    by (simp add: rfbSendRectEncodingRRE_def Let_def pixel_size_def e make_room_def UPDATE_BUF_SIZE_def cl_def
        sz_rfbFramebufferUpdateRectHeader_def sz_rfbRREHeader_def c put_bytes_def)
  then obtain cl' where r: "rfbSendRectEncodingRRE fb 4 4 0 0 0 4 4 cl = (True, cl')"
    by (metis (full_types) prod.collapse)
  from rfbSendRectEncodingRRE_stream[OF this]
  have "stream cl' = [0, 1] @ rect_header 0 0 4 4 rfbEncodingRRE @ wire32 1 @ after"
    by (simp add: rre_message_def pixel_size_def e UPDATE_BUF_SIZE_def cl_def stream_def[of "\<lparr>updateBuf = _, sent = _, writes_left = _, sock_open = _\<rparr>"])
  then show ?thesis using r unfolding fb_def cl_def after_def by blast
qed

end

