(* ===== verification/Pseudo.thy ===== *)
theory Pseudo
  imports CursorCorrect RRERoundtrip
begin

text \<open>
  The pseudo-rectangles of an update, which carry no pixels of the screen: the shape and position of
  the cursor (\<open>cursor.c\<close>), the state of the keyboard lights, what the server supports and who it is,
  the size of the screen and the mark after the last rectangle (\<open>rfbserver.c\<close>); and how the client
  reads the shape of the cursor (\<open>libvncclient/cursor.c\<close>).
\<close>

section \<open>Sending\<close>

definition rfbEncodingCopyRect :: uint32_t where "rfbEncodingCopyRect = 1"
definition rfbEncodingXCursor :: uint32_t where "rfbEncodingXCursor = 0xFFFFFF10"
definition rfbEncodingRichCursor :: uint32_t where "rfbEncodingRichCursor = 0xFFFFFF11"
definition rfbEncodingPointerPos :: uint32_t where "rfbEncodingPointerPos = 0xFFFFFF18"
definition rfbEncodingLastRect :: uint32_t where "rfbEncodingLastRect = 0xFFFFFF20"
definition rfbEncodingNewFBSize :: uint32_t where "rfbEncodingNewFBSize = 0xFFFFFF21"
definition rfbEncodingKeyboardLedState :: uint32_t where "rfbEncodingKeyboardLedState = 0xFFFE0000"
definition rfbEncodingSupportedMessages :: uint32_t where "rfbEncodingSupportedMessages = 0xFFFE0001"
definition rfbEncodingSupportedEncodings :: uint32_t where "rfbEncodingSupportedEncodings = 0xFFFE0002"
definition rfbEncodingServerIdentity :: uint32_t where "rfbEncodingServerIdentity = 0xFFFE0003"

definition sz_rfbSupportedMessages :: nat where "sz_rfbSupportedMessages = 64"
definition sz_rfbXCursorColors :: nat where "sz_rfbXCursorColors = 6"

text \<open>Bytes put into the update buffer, which is sent first when they do not fit.\<close>

definition put_with_room :: "uint8_t list \<Rightarrow> update_state \<Rightarrow> bool \<times> update_state" where
  "put_with_room bs cl =
     (let (ok, cl) = make_room (length bs) cl in if \<not> ok then (False, cl) else (True, put_bytes bs cl))"

text \<open>The same, and the buffer sent with them.\<close>

definition put_and_send :: "uint8_t list \<Rightarrow> update_state \<Rightarrow> bool \<times> update_state" where
  "put_and_send bs cl =
     (let (ok, cl) = put_with_room bs cl in if \<not> ok then (False, cl) else rfbSendUpdateBuf cl)"

definition rfbSendCursorPos :: "int \<Rightarrow> int \<Rightarrow> update_state \<Rightarrow> bool \<times> update_state" where
  "rfbSendCursorPos X Y cl =
     put_and_send (wire16 (word_of_int X) @ wire16 (word_of_int Y) @ wire16 0 @ wire16 0 @
                   wire32 rfbEncodingPointerPos) cl"

definition rfbSendKeyboardLedState :: "int \<Rightarrow> update_state \<Rightarrow> bool \<times> update_state" where
  "rfbSendKeyboardLedState led cl =
     put_and_send (wire16 (word_of_int led) @ wire16 0 @ wire16 0 @ wire16 0 @
                   wire32 rfbEncodingKeyboardLedState) cl"

definition rfbSetBit :: "nat \<Rightarrow> uint8_t list \<Rightarrow> uint8_t list" where
  "rfbSetBit position buffer =
     (let i = position mod 256 div 8 in buffer[i := buffer ! i OR push_bit (position mod 8) 1])"

definition client2server :: "uint8_t list" where
  "client2server = fold rfbSetBit [0, 1, 2, 3, 4, 5, 6, 7, 8, 0xF] (replicate 32 0)"

definition server2client :: "uint8_t list" where
  "server2client = fold rfbSetBit [0, 1, 2, 3, 4, 0xF] (replicate 32 0)"

definition rfbSendSupportedMessages :: "update_state \<Rightarrow> bool \<times> update_state" where
  "rfbSendSupportedMessages cl =
     put_and_send (rect_header 0 0 sz_rfbSupportedMessages 0 rfbEncodingSupportedMessages @
                   client2server @ server2client) cl"

text \<open>The list for a server with zlib and jpeg, as configured.\<close>

definition supported :: "uint32_t list" where
  "supported = [0, 1, 2, 4, 5, 6, 16, 17, 7, 9, 0xFFFF0009, rfbEncodingXCursor, rfbEncodingRichCursor,
     rfbEncodingPointerPos, rfbEncodingLastRect, rfbEncodingNewFBSize, rfbEncodingKeyboardLedState,
     rfbEncodingSupportedMessages, rfbEncodingSupportedEncodings, rfbEncodingServerIdentity]"

definition rfbSendSupportedEncodings :: "update_state \<Rightarrow> bool \<times> update_state" where
  "rfbSendSupportedEncodings cl =
     put_and_send (rect_header 0 0 (length supported * 4) (length supported) rfbEncodingSupportedEncodings @
                   concat (map wire32 supported)) cl"

definition identity_string :: "string option \<Rightarrow> string" where
  "identity_string versionString =
     take 510 ((case versionString of None \<Rightarrow> ''unknown'' | Some s \<Rightarrow> s) @ '' ('' @ ''LibVNCServer 0.9.7'' @ '')'')"

definition rfbSendServerIdentity :: "string option \<Rightarrow> update_state \<Rightarrow> bool \<times> update_state" where
  "rfbSendServerIdentity versionString cl =
     (let buffer = ascii (identity_string versionString) @ [0]
      in put_and_send (rect_header 0 0 (length buffer) 0 rfbEncodingServerIdentity @ buffer) cl)"

definition rfbSendLastRectMarker :: "update_state \<Rightarrow> bool \<times> update_state" where
  "rfbSendLastRectMarker cl = put_with_room (rect_header 0 0 0 0 rfbEncodingLastRect) cl"

definition rfbSendNewFBSize :: "int \<Rightarrow> int \<Rightarrow> update_state \<Rightarrow> bool \<times> update_state" where
  "rfbSendNewFBSize w h cl =
     put_with_room (wire16 0 @ wire16 0 @ wire16 (word_of_int w) @ wire16 (word_of_int h) @
                    wire32 rfbEncodingNewFBSize) cl"

section \<open>The shape of the cursor\<close>

definition no_cursor :: "'p rfbCursor \<Rightarrow> bool" where
  "no_cursor c \<longleftrightarrow> cur_width c = 1 \<and> cur_height c = 1 \<and> cur_mask c ! 0 = 0"

text \<open>The other form of the cursor is made when it is missing.\<close>

definition shape_cursor ::
    "bool \<Rightarrow> rfbPixelFormat \<Rightarrow> 's::len word rfbCursor \<Rightarrow> 's word rfbCursor option" where
  "shape_cursor useRich f c =
     (if useRich then (if richSource c = None then rfbMakeRichCursorFromXCursor f c else Some c)
      else (if source c = None then rfbMakeXCursorFromRichCursor f c else Some c))"

definition cursor_colours :: "'p rfbCursor \<Rightarrow> uint8_t list" where
  "cursor_colours c =
     map (\<lambda>v. ucast (drop_bit 8 v)) [foreRed c, foreGreen c, foreBlue c, backRed c, backGreen c, backBlue c]"

text \<open>What is sent of a cursor; \<open>tr\<close> translates a pixel for the client. \<open>None\<close>: no such pixels.\<close>

definition shape_message :: "('s \<Rightarrow> 'c::len word) \<Rightarrow> bool \<Rightarrow> 's rfbCursor \<Rightarrow> uint8_t list option" where
  "shape_message tr useRich c =
     (let bitmapRowBytes = row_bytes (cur_width c); maskBytes = bitmapRowBytes * nat (cur_height c);
          w = nat (cur_width c); h = nat (cur_height c);
          header = wire16 (word_of_int (cur_xhot c)) @ wire16 (word_of_int (cur_yhot c)) @
                   wire16 (word_of_nat w) @ wire16 (word_of_nat h) @
                   wire32 (if useRich then rfbEncodingRichCursor else rfbEncodingXCursor)
      in do { body \<leftarrow> (if useRich
                      then map_option (\<lambda>rich. concat (map (\<lambda>p. pixel_bytes (tr p)) (take (w * h) rich))) (richSource c)
                      else map_option (\<lambda>bits. cursor_colours c @ take maskBytes bits) (source c));
              Some (header @ body @ take maskBytes (cur_mask c)) })"

definition send_shape ::
    "('s \<Rightarrow> 'c::len word) \<Rightarrow> bool \<Rightarrow> 's rfbCursor \<Rightarrow> update_state \<Rightarrow> (bool \<times> update_state) option" where
  "send_shape tr useRich c cl =
     (let maskBytes = row_bytes (cur_width c) * nat (cur_height c);
          dataBytes = (if useRich then nat (cur_width c) * nat (cur_height c) * pixel_size TYPE('c)
                       else maskBytes);
          room = sz_rfbFramebufferUpdateRectHeader + sz_rfbXCursorColors + maskBytes + dataBytes;
          (ok, cl) = make_room room cl
      in if \<not> ok then Some (False, cl)
         else if UPDATE_BUF_SIZE < length (updateBuf cl) + room then Some (False, cl)
         else do { msg \<leftarrow> shape_message tr useRich c;
                   Some (rfbSendUpdateBuf (put_bytes msg cl)) })"

text \<open>
  The result of the call, the cursor (which may have got its other form) and the update buffer.
  The room asked for counts the colours in both encodings.
\<close>

definition rfbSendCursorShape ::
    "('s::len word \<Rightarrow> 'c::len word) \<Rightarrow> bool \<Rightarrow> 's word server_screen \<Rightarrow> update_state \<Rightarrow>
     (bool \<times> 's word server_screen \<times> update_state) option" where
  "rfbSendCursorShape tr useRich s cl =
     (let empty = put_and_send (rect_header 0 0 0 0
            (if useRich then rfbEncodingRichCursor else rfbEncodingXCursor)) cl
      in do { cursor \<leftarrow> (case ss_cursor s of None \<Rightarrow> Some None
                         | Some c \<Rightarrow> map_option Some (shape_cursor useRich (ss_format s) c));
              (ok, cl) \<leftarrow> (case cursor of
                            None \<Rightarrow> Some empty
                          | Some c \<Rightarrow> if no_cursor c then Some empty else send_shape tr useRich c cl);
              Some (ok, s\<lparr>ss_cursor := cursor\<rparr>, cl) })"

section \<open>The client\<close>

text \<open>\<open>RGB24_TO_PIXEL\<close>, and one row of bits taken apart.\<close>

definition RGB24_TO_PIXEL :: "rfbPixelFormat \<Rightarrow> uint8_t \<Rightarrow> uint8_t \<Rightarrow> uint8_t \<Rightarrow> uint32_t" where
  "RGB24_TO_PIXEL f r g b =
     push_bit (unat (redShift f)) ((ucast r * ucast (redMax f) + 127) div 255) OR
     push_bit (unat (greenShift f)) ((ucast g * ucast (greenMax f) + 127) div 255) OR
     push_bit (unat (blueShift f)) ((ucast b * ucast (blueMax f) + 127) div 255)"

definition row_bits :: "uint8_t list \<Rightarrow> nat \<Rightarrow> nat \<Rightarrow> nat \<Rightarrow> bool list" where
  "row_bits buf bytesPerRow width y =
     concat (map (\<lambda>x. map (\<lambda>b. bit (buf ! (y * bytesPerRow + x)) b) (rev [0..<8])) [0..<width div 8]) @
     map (\<lambda>b. bit (buf ! (y * bytesPerRow + width div 8)) b) (rev [8 - width mod 8..<8])"

definition bitmap_bits :: "uint8_t list \<Rightarrow> nat \<Rightarrow> nat \<Rightarrow> bool list" where
  "bitmap_bits buf width height = concat (map (row_bits buf ((width + 7) div 8) width) [0..<height])"

text \<open>
  The pixels and the mask the client gets and the bytes left, or \<open>None\<close> when the server ends. Without
  any pixels nothing is read.
\<close>

definition HandleCursorShape ::
    "rfbPixelFormat \<Rightarrow> nat \<Rightarrow> nat \<Rightarrow> uint32_t \<Rightarrow> uint8_t list \<Rightarrow>
     (('c::len word list \<times> bool list) option \<times> uint8_t list) option" where
  "HandleCursorShape f width height enc bs =
     (let bytesMaskData = (width + 7) div 8 * height
      in if width * height = 0 then Some (None, bs)
         else do { (rcSource, bs) \<leftarrow>
                     (if enc = rfbEncodingXCursor
                      then do { (rgb, bs) \<leftarrow> ReadFromRFBServer sz_rfbXCursorColors bs;
                                (buf, bs) \<leftarrow> ReadFromRFBServer bytesMaskData bs;
                                (let colour0 = RGB24_TO_PIXEL f (rgb ! 3) (rgb ! 4) (rgb ! 5);
                                     colour1 = RGB24_TO_PIXEL f (rgb ! 0) (rgb ! 1) (rgb ! 2)
                                 in Some (map (\<lambda>b. ucast (if b then colour1 else colour0))
                                           (bitmap_bits buf width height), bs)) }
                      else do { (pixels, bs) \<leftarrow> ReadFromRFBServer (width * height * pixel_size TYPE('c)) bs;
                                Some (map (\<lambda>i. pixel_of (take (pixel_size TYPE('c))
                                            (drop (i * pixel_size TYPE('c)) pixels))) [0..<width * height], bs) });
                   (buf, bs) \<leftarrow> ReadFromRFBServer bytesMaskData bs;
                   Some (Some (rcSource, bitmap_bits buf width height), bs) })"

end
