(* ===== verification/UpdatesCorrect.thy ===== *)
theory UpdatesCorrect
  imports Updates
begin

text \<open>
  What the update regions promise: outside the modified region a client can be brought up to date
  by the pending copy alone. The promise is an abstract relation between what a client shows, what
  the screen shows and the client's regions; marking, scheduling a copy and changing the frame
  buffer keep it.
\<close>

section \<open>Regions as sets of pixels\<close>

named_theorems region_sets \<open>the regions the operations compute, as sets of pixels\<close>

lemma rgn_Or [region_sets]:
  assumes "rgn_ok a" and "rgn_ok b"
  shows "rgn_ok (sraRgnOr a b)" "pixels (sraRgnOr a b) = pixels a \<union> pixels b"
  using row.Or_correct[of a b] assms by (auto simp: rgn_ok_def sraRgnOr_def pixels_def)

lemma rgn_And [region_sets]:
  assumes "rgn_ok a" and "rgn_ok b"
  shows "rgn_ok (fst (sraRgnAnd a b))" "pixels (fst (sraRgnAnd a b)) = pixels a \<inter> pixels b"
  using row.And_correct[of a b] assms by (auto simp: rgn_ok_def sraRgnAnd_def pixels_def)

lemma rgn_Offset [region_sets]:
  "rgn_ok r \<Longrightarrow> rgn_ok (sraRgnOffset r dx dy)"
  "(x, y) \<in> pixels (sraRgnOffset r dx dy) \<longleftrightarrow> (x - dx, y - dy) \<in> pixels r"
  by (auto simp: rgn_ok_iff sraRgnOffset_def sorted_wrt_map before_eta)
    (simp_all add: pixels_iff less_diff_eq le_diff_eq diff_le_eq diff_less_eq add.commute)

lemma rgn_Create [region_sets]:
  "sraRgnCreateRgn r = r" "rgn_ok (sraRgnMakeEmpty r)" "pixels (sraRgnMakeEmpty r) = {}"
  by (simp_all add: sraRgnCreateRgn_id sraRgnMakeEmpty_def rgn_ok_Nil)

lemma rgn_Empty [region_sets]: "rgn_ok r \<Longrightarrow> sraRgnEmpty r \<longleftrightarrow> pixels r = {}"
  by (auto simp: sraRgnEmpty_def sraSpanListEmpty_def pixels_empty_iff split: list.splits)

section \<open>The promise\<close>

type_synonym 'p picture = "int \<Rightarrow> int \<Rightarrow> 'p"

definition regions_ok :: "update_client \<Rightarrow> bool" where
  "regions_ok cl \<longleftrightarrow> rgn_ok (modifiedRegion cl) \<and> rgn_ok (copyRegion cl)"

definition up_to_date :: "'p picture \<Rightarrow> 'p picture \<Rightarrow> update_client \<Rightarrow> bool" where
  "up_to_date view scr cl \<longleftrightarrow>
     (\<forall>x y. (x, y) \<notin> pixels (modifiedRegion cl) \<longrightarrow>
        scr x y = (if (x, y) \<in> pixels (copyRegion cl) then view (x - copyDX cl) (y - copyDY cl) else view x y))"

definition copied :: "'p picture \<Rightarrow> sraRegion \<Rightarrow> int \<Rightarrow> int \<Rightarrow> 'p picture" where
  "copied scr r dx dy x y = (if (x, y) \<in> pixels r then scr (x - dx) (y - dy) else scr x y)"

lemma up_to_date_changed:
  "up_to_date view scr cl \<Longrightarrow> regions_ok cl \<Longrightarrow> rgn_ok r \<Longrightarrow>
   (\<And>x y. (x, y) \<notin> pixels r \<Longrightarrow> scr' x y = scr x y) \<Longrightarrow>
   up_to_date view scr' (mark_client r cl) \<and> regions_ok (mark_client r cl)"
  by (auto simp: up_to_date_def mark_client_def regions_ok_def region_sets)

section \<open>Scheduling a copy\<close>

text \<open>
  After the first step, no pixel of the new copy comes from a pixel whose own old copy is still
  pending, except where the pixel is modified.
\<close>

lemma forget_old_copy_spec:
  assumes "up_to_date view scr cl" and "regions_ok cl" and "rgn_ok r" and "cl' = forget_old_copy r dx dy cl"
  shows "up_to_date view scr cl'" "regions_ok cl'"
    "pixels (copyRegion cl') = {} \<or> (copyDX cl' = dx \<and> copyDY cl' = dy)"
    "\<And>x y. (x, y) \<in> pixels r \<Longrightarrow> (x - dx, y - dy) \<in> pixels (copyRegion cl') \<Longrightarrow>
       (x - dx, y - dy) \<in> pixels (modifiedRegion cl')"
    "enableCursorShapeUpdates cl' = enableCursorShapeUpdates cl"
proof -
  have ok: "rgn_ok (modifiedRegion cl)" "rgn_ok (copyRegion cl)" using assms(2) by (simp_all add: regions_ok_def)
  have backup: "rgn_ok (fst (sraRgnAnd (sraRgnOffset (sraRgnCreateRgn r) (- dx) (- dy)) (copyRegion cl)))"
    "pixels (fst (sraRgnAnd (sraRgnOffset (sraRgnCreateRgn r) (- dx) (- dy)) (copyRegion cl))) =
      pixels (sraRgnOffset r (- dx) (- dy)) \<inter> pixels (copyRegion cl)"
    using ok assms(3) by (simp_all add: region_sets)
  have "up_to_date view scr cl' \<and> regions_ok cl' \<and>
    (pixels (copyRegion cl') = {} \<or> (copyDX cl' = dx \<and> copyDY cl' = dy)) \<and>
    (\<forall>x y. (x, y) \<in> pixels r \<longrightarrow> (x - dx, y - dy) \<in> pixels (copyRegion cl') \<longrightarrow>
       (x - dx, y - dy) \<in> pixels (modifiedRegion cl'))"
  proof (cases "sraRgnEmpty (copyRegion cl)")
    case True
    then show ?thesis using assms ok by (simp add: forget_old_copy_def region_sets)
  next
    case False
    show ?thesis
    proof (cases "copyDX cl \<noteq> dx \<or> copyDY cl \<noteq> dy")
      case True
      then have c: "cl' = cl\<lparr>modifiedRegion := sraRgnOr (modifiedRegion cl) (copyRegion cl),
          copyRegion := sraRgnMakeEmpty (copyRegion cl)\<rparr>"
        using False assms(4) by (simp add: forget_old_copy_def)
      show ?thesis
        using assms(1) ok by (auto simp: c up_to_date_def regions_ok_def region_sets)
    next
      case same: False
      then have c: "cl' = cl\<lparr>modifiedRegion := sraRgnOr (modifiedRegion cl)
          (fst (sraRgnAnd (sraRgnOffset (sraRgnCreateRgn r) (- dx) (- dy)) (copyRegion cl)))\<rparr>"
        using False assms(4) by (simp add: forget_old_copy_def Let_def)
      show ?thesis
        using assms(1) ok backup same by (simp add: c up_to_date_def regions_ok_def region_sets)
    qed
  qed
  then show "up_to_date view scr cl'" "regions_ok cl'"
    "pixels (copyRegion cl') = {} \<or> (copyDX cl' = dx \<and> copyDY cl' = dy)"
    "\<And>x y. (x, y) \<in> pixels r \<Longrightarrow> (x - dx, y - dy) \<in> pixels (copyRegion cl') \<Longrightarrow>
       (x - dx, y - dy) \<in> pixels (modifiedRegion cl')" by blast+
  show "enableCursorShapeUpdates cl' = enableCursorShapeUpdates cl"
    using assms(4) by (simp add: forget_old_copy_def Let_def)
qed

lemma mark_cursor_spec:
  assumes "up_to_date view scr cl" and "regions_ok cl" and "0 < cur_width cursor" and "0 < cur_height cursor"
  shows "up_to_date view scr (mark_cursor cursor dx dy cl) \<and> regions_ok (mark_cursor cursor dx dy cl)"
proof -
  have mark: "up_to_date view scr (c\<lparr>modifiedRegion := sraRgnOr (modifiedRegion c) b\<rparr>) \<and>
      regions_ok (c\<lparr>modifiedRegion := sraRgnOr (modifiedRegion c) b\<rparr>)"
    if "up_to_date view scr c" "regions_ok c" "rgn_ok b" for c b
    using that by (auto simp: up_to_date_def regions_ok_def region_sets)
  let ?x = "uc_cursorX cl - cur_xhot cursor" and ?y = "uc_cursorY cl - cur_yhot cursor"
  have r: "rgn_ok (sraRgnCreateRect ?x ?y (?x + cur_width cursor) (?y + cur_height cursor))"
    by (rule rgn_ok_rect) (use assms in simp_all)
  have k: "rgn_ok (copyRegion cl)" using assms(2) by (simp add: regions_ok_def)
  show ?thesis
    unfolding mark_cursor_def Let_def
    using assms(1,2) mark rgn_And(1)[OF r k] rgn_And(1)[OF rgn_Offset(1)[OF r] k]
    by (simp split: if_split)
qed

lemma schedule_client_spec:
  assumes "up_to_date view scr cl" and "regions_ok cl" and "rgn_ok r"
    and "0 < cur_width cursor" and "0 < cur_height cursor"
    and "useCopyRect cl \<or> pixels (copyRegion cl) = {}"
  shows "up_to_date view (copied scr r dx dy) (schedule_client cursor r dx dy cl) \<and>
    regions_ok (schedule_client cursor r dx dy cl)"
proof (cases "useCopyRect cl")
  case False
  then show ?thesis
    using assms(1,2,3,6) by (auto simp: schedule_client_def up_to_date_def regions_ok_def region_sets copied_def)
next
  case True
  define c1 where "c1 = forget_old_copy r dx dy cl"
  note f = forget_old_copy_spec[OF assms(1-3) c1_def]
  define c2 where "c2 = c1\<lparr>copyRegion := sraRgnOr (copyRegion c1) r, copyDX := dx, copyDY := dy\<rparr>"
  define b where "b = fst (sraRgnAnd (sraRgnOffset (sraRgnCreateRgn (modifiedRegion c2)) dx dy) (copyRegion c2))"
  define c3 where "c3 = c2\<lparr>modifiedRegion := sraRgnOr (modifiedRegion c2) b\<rparr>"
  have ok: "rgn_ok (modifiedRegion c1)" "rgn_ok (copyRegion c1)" using f(2) by (simp_all add: regions_ok_def)
  have k: "rgn_ok (copyRegion c2)" "pixels (copyRegion c2) = pixels (copyRegion c1) \<union> pixels r"
    using ok assms(3) by (simp_all add: c2_def region_sets)
  have b: "rgn_ok b" "\<And>x y. (x, y) \<in> pixels b \<longleftrightarrow> (x - dx, y - dy) \<in> pixels (modifiedRegion c1) \<and>
      ((x, y) \<in> pixels (copyRegion c1) \<or> (x, y) \<in> pixels r)"
    using ok k by (auto simp: b_def c2_def region_sets)
  have m: "rgn_ok (modifiedRegion c3)" "pixels (modifiedRegion c3) = pixels (modifiedRegion c1) \<union> pixels b"
    using ok b(1) by (simp_all add: c3_def c2_def region_sets)
  have view: "scr x y = (if (x, y) \<in> pixels (copyRegion c1) then view (x - copyDX c1) (y - copyDY c1) else view x y)"
    if "(x, y) \<notin> pixels (modifiedRegion c1)" for x y using f(1) that by (simp add: up_to_date_def)
  have "copied scr r dx dy x y =
      (if (x, y) \<in> pixels (copyRegion c1) \<union> pixels r then view (x - dx) (y - dy) else view x y)"
    if not: "(x, y) \<notin> pixels (modifiedRegion c3)" for x y
  proof (cases "(x, y) \<in> pixels r")
    case True
    then have "(x - dx, y - dy) \<notin> pixels (modifiedRegion c1)" using not m(2) b(2) by simp
    moreover from this have "(x - dx, y - dy) \<notin> pixels (copyRegion c1)" using f(4) True by blast
    ultimately have "scr (x - dx) (y - dy) = view (x - dx) (y - dy)" using view by simp
    with True show ?thesis by (simp add: copied_def)
  next
    case False
    then show ?thesis using view[of x y] not m(2) f(3) by (auto simp: copied_def)
  qed
  then have "up_to_date view (copied scr r dx dy) c3"
    using k(2) by (simp add: up_to_date_def c3_def c2_def)
  moreover have "regions_ok c3" using m(1) k(1) by (simp add: regions_ok_def c3_def)
  moreover have "schedule_client cursor r dx dy cl =
      (if \<not> enableCursorShapeUpdates c3 then mark_cursor cursor dx dy c3 else c3)"
    using True by (simp add: schedule_client_def Let_def c3_def b_def c2_def c1_def)
  ultimately show ?thesis using mark_cursor_spec[OF _ _ assms(4,5), of view "copied scr r dx dy" c3 dx dy] by simp
qed

section \<open>Copying in the frame buffer\<close>

text \<open>What a buffer shows whose rows are \<open>W\<close> pixels apart.\<close>

definition shown :: "int \<Rightarrow> (int \<Rightarrow> 'p) \<Rightarrow> 'p picture" where
  "shown W mem x y = mem (x + y * W)"

lemma row_address:
  fixes W :: int
  assumes "0 \<le> a" "b \<le> W" "0 \<le> x" "x < W"
  shows "a + j * W \<le> x + y * W \<and> x + y * W < b + j * W \<longleftrightarrow> y = j \<and> a \<le> x \<and> x < b"
proof (cases y j rule: linorder_cases)
  case less
  then have "y * W + W \<le> j * W" using assms mult_right_mono[of "y + 1" j W] by (simp add: algebra_simps)
  then show ?thesis using assms less by auto
next
  case greater
  then have "j * W + W \<le> y * W" using assms mult_right_mono[of "j + 1" y W] by (simp add: algebra_simps)
  then show ?thesis using assms greater by auto
qed auto

lemma shown_copy_line:
  assumes "0 \<le> rx1 r" "rx2 r \<le> W" "0 \<le> rx1 r - dx" "rx2 r - dx \<le> W" "0 \<le> x" "x < W"
  shows "shown W (copy_line W dx dy r j mem) x y =
    (if y = j \<and> rx1 r \<le> x \<and> x < rx2 r then shown W mem (x - dx) (j - dy) else shown W mem x y)"
proof -
  have a: "rx1 r + j * W \<le> x + y * W \<and> x + y * W < rx1 r + j * W + (rx2 r - rx1 r) \<longleftrightarrow>
      y = j \<and> rx1 r \<le> x \<and> x < rx2 r"
    using row_address[OF assms(1,2,5,6), of j y] by (simp add: algebra_simps)
  show ?thesis unfolding shown_def copy_line_def memmove_def a by (auto simp: algebra_simps)
qed

lemma shown_copy_lines:
  assumes r: "0 \<le> rx1 r" "rx2 r \<le> W" "0 \<le> rx1 r - dx" "rx2 r - dx \<le> W"
    and "sorted_wrt (\<lambda>i j. j - dy \<noteq> i) js" and "\<forall>d\<in>D. \<forall>j\<in>set js. j - dy \<noteq> d"
    and "\<And>x y. 0 \<le> x \<Longrightarrow> x < W \<Longrightarrow> shown W mem x y =
      (if y \<in> D \<and> rx1 r \<le> x \<and> x < rx2 r then orig (x - dx) (y - dy) else orig x y)"
    and "0 \<le> x" "x < W"
  shows "shown W (fold (copy_line W dx dy r) js mem) x y =
    (if (y \<in> D \<or> y \<in> set js) \<and> rx1 r \<le> x \<and> x < rx2 r then orig (x - dx) (y - dy) else orig x y)"
  using assms(5-7)
proof (induction js arbitrary: D mem)
  case Nil
  then show ?case using assms(8,9) by simp
next
  case (Cons j js)
  have "shown W (copy_line W dx dy r j mem) x' y' =
      (if y' \<in> insert j D \<and> rx1 r \<le> x' \<and> x' < rx2 r then orig (x' - dx) (y' - dy) else orig x' y')"
    if x': "0 \<le> x'" "x' < W" for x' y'
  proof -
    have "shown W mem (x' - dx) (j - dy) = orig (x' - dx) (j - dy)" if "rx1 r \<le> x'" "x' < rx2 r"
      using Cons.prems(2) Cons.prems(3)[of "x' - dx" "j - dy"] r that by auto
    then show ?thesis
      unfolding shown_copy_line[OF r x'] using Cons.prems(3)[OF x', of y'] by auto
  qed
  moreover have "\<forall>d\<in>insert j D. \<forall>i\<in>set js. i - dy \<noteq> d" "sorted_wrt (\<lambda>i j. j - dy \<noteq> i) js"
    using Cons.prems(1,2) by auto
  ultimately have "shown W (fold (copy_line W dx dy r) js (copy_line W dx dy r j mem)) x y =
      (if (y \<in> insert j D \<or> y \<in> set js) \<and> rx1 r \<le> x \<and> x < rx2 r then orig (x - dx) (y - dy) else orig x y)"
    using Cons.IH[of "insert j D" "copy_line W dx dy r j mem"] by blast
  then show ?case by auto
qed

lemma shown_copy_rect:
  assumes r: "0 \<le> rx1 r" "rx2 r \<le> W" "0 \<le> rx1 r - dx" "rx2 r - dx \<le> W" and x: "0 \<le> x" "x < W"
  shows "shown W (copy_rect_lines W dx dy r mem) x y =
    (if rx1 r \<le> x \<and> x < rx2 r \<and> ry1 r \<le> y \<and> y < ry2 r then shown W mem (x - dx) (y - dy) else shown W mem x y)"
proof -
  define js where "js = (if dy < 0 then [ry1 r..ry2 r - 1] else rev [ry1 r..ry2 r - 1])"
  have less: "sorted_wrt (<) [ry1 r..ry2 r - 1]" by simp
  have "sorted_wrt (\<lambda>i j. j - dy \<noteq> i) [ry1 r..ry2 r - 1]" if "dy < 0"
    using that by (intro sorted_wrt_mono_rel[OF _ less]) auto
  moreover have "sorted_wrt (\<lambda>i j. i - dy \<noteq> j) [ry1 r..ry2 r - 1]" if "\<not> dy < 0"
    using that by (intro sorted_wrt_mono_rel[OF _ less]) auto
  ultimately have "sorted_wrt (\<lambda>i j. j - dy \<noteq> i) js"
    unfolding js_def by (simp add: sorted_wrt_rev)
  from shown_copy_lines[OF r this, of "{}" mem "shown W mem" x y] x show ?thesis
    by (auto simp: copy_rect_lines_def js_def)
qed

section \<open>A small screen to try the properties on\<close>

definition demo_update_client :: update_client where
  "demo_update_client = \<lparr>uc_sock = 5, useCopyRect = True, copyRegion = [], copyDX = 0, copyDY = 0,
     modifiedRegion = [], requestedRegion = [], enableCursorShapeUpdates = False,
     enableCursorPosUpdates = False, cursorWasMoved = False, uc_cursorX = 3, uc_cursorY = 4,
     useNewFBSize = True, newFBSizePending = False, onHold = False,
     translate_format = rfbInitServerFormat 16 5\<rparr>"

definition demo_update_screen :: update_screen where
  "demo_update_screen = \<lparr>us_width = 100, us_height = 80, us_bitsPerPixel = 16,
     us_serverFormat = rfbInitServerFormat 16 5, us_cursorX = 0, us_cursorY = 0,
     us_cursor = \<lparr>cur_xhot = 3, cur_yhot = 3, cur_width = 8, cur_height = 7\<rparr>,
     us_clients = [demo_update_client]\<rparr>"

section \<open>Properties\<close>

text \<open>
  C11: \<open>rfbScheduleCopyRegion\<close> keeps every client consistent: if a client could be brought up to date
  before, by its pending copy and the modified pixels, then after the region has been copied on
  the screen it can be again, whatever copy was pending, in the same or another direction, and
  wherever its cursor is.
\<close>

theorem rfbScheduleCopyRegion_consistent:
  assumes "i < length (us_clients scr)" and "0 \<le> uc_sock (us_clients scr ! i)"
    and "up_to_date view pic (us_clients scr ! i)" and "regions_ok (us_clients scr ! i)" and "rgn_ok r"
    and "0 < cur_width (us_cursor scr)" and "0 < cur_height (us_cursor scr)"
    and "useCopyRect (us_clients scr ! i) \<or> pixels (copyRegion (us_clients scr ! i)) = {}"
  shows "up_to_date view (copied pic r dx dy) (us_clients (rfbScheduleCopyRegion scr r dx dy) ! i) \<and>
    regions_ok (us_clients (rfbScheduleCopyRegion scr r dx dy) ! i)"
  using schedule_client_spec[OF assms(3-8)] assms(1,2)
  by (simp add: rfbScheduleCopyRegion_def for_clients_def)

theorem rfbScheduleCopyRegion_consistent_witness:
  "up_to_date (\<lambda>x y. x + 100 * y) (copied (\<lambda>x y. x + 100 * y) (sraRgnCreateRect 10 10 30 30) 2 3)
     (us_clients (rfbScheduleCopyRegion demo_update_screen (sraRgnCreateRect 10 10 30 30) 2 3) ! 0) \<and>
   pixels (sraRgnCreateRect 10 10 30 30) \<noteq> {}"
proof -
  have "up_to_date (\<lambda>x y. x + 100 * y) (\<lambda>x y. x + 100 * y) (us_clients demo_update_screen ! 0)"
    "regions_ok (us_clients demo_update_screen ! 0)" "0 \<le> uc_sock (us_clients demo_update_screen ! 0)"
    "0 < length (us_clients demo_update_screen)" "useCopyRect (us_clients demo_update_screen ! 0)"
    "0 < cur_width (us_cursor demo_update_screen)" "0 < cur_height (us_cursor demo_update_screen)"
    by (simp_all add: demo_update_screen_def demo_update_client_def up_to_date_def regions_ok_def rgn_ok_Nil)
  with rfbScheduleCopyRegion_consistent[of 0 demo_update_screen "\<lambda>x y. x + 100 * y" "\<lambda>x y. x + 100 * y"
      "sraRgnCreateRect 10 10 30 30" 2 3]
  show ?thesis by (simp add: rgn_ok_rect pixels_rect)
qed

text \<open>
  C23: \<open>rfbDoCopyRect\<close> moves a rectangle of the frame buffer as if source and destination were
  apart, in whatever direction they overlap, and touches nothing else of the rows it works on.
\<close>

theorem rfbDoCopyRect_moves:
  assumes "0 \<le> x1" "x1 < x2" "x2 \<le> us_width scr" "y1 < y2"
    and "0 \<le> x1 - dx" "x2 - dx \<le> us_width scr" and "0 \<le> x" "x < us_width scr"
    and "rfbDoCopyRect (scr, mem) x1 y1 x2 y2 dx dy = (scr', mem')"
  shows "shown (us_width scr) mem' x y =
    copied (shown (us_width scr) mem) (sraRgnCreateRect x1 y1 x2 y2) dx dy x y"
proof -
  define r where "r = \<lparr>rx1 = x1, ry1 = y1, rx2 = x2, ry2 = y2\<rparr>"
  have "iterator_rects (sraRgnGetReverseIterator (sraRgnCreateRect x1 y1 x2 y2) (dx < 0) (dy < 0)) = [r]"
    using assms(2,4)
    by (simp add: reverse_iterator_rects rgn_ok_rect)
      (simp add: sraRgnCreateRect_def row_rects_def rect_of_def r_def)
  then have "mem' = copy_rect_lines (us_width scr) dx dy r mem"
    using assms(9) by (simp add: rfbDoCopyRect_def rfbDoCopyRegion_def copy_region_lines_def Let_def)
  then show ?thesis
    using shown_copy_rect[of r "us_width scr" dx x dy mem y] assms
    by (auto simp: copied_def pixels_rect r_def)
qed

theorem rfbDoCopyRect_moves_witness:
  "shown 100 (snd (rfbDoCopyRect (demo_update_screen, \<lambda>a. a) 10 10 30 30 2 3)) 15 20 = 13 + 17 * 100"
proof -
  obtain scr' mem' where r: "rfbDoCopyRect (demo_update_screen, \<lambda>a. a) 10 10 30 30 2 3 = (scr', mem')" by fastforce
  have "us_width demo_update_screen = 100" by (simp add: demo_update_screen_def)
  with rfbDoCopyRect_moves[OF _ _ _ _ _ _ _ _ r, of 15 20] show ?thesis
    unfolding r by (simp add: copied_def pixels_rect shown_def)
qed

text \<open>
  C22: With more than one rectangle, \<open>rfbDoCopyRegion\<close> may copy a pixel it has overwritten already:
  it asks the iterator for the rectangles in the order of the copy's direction, so that for a move
  downwards it starts at the top.
\<close>

theorem rfbDoCopyRegion_overwrites:
  "\<exists>r dy x y. 0 < dy \<and> rgn_ok r \<and> pixels r \<subseteq> {0..<4} \<times> {1..<8} \<and> (x, y) \<in> pixels r \<and>
     shown 4 (copy_region_lines 4 r 0 dy (\<lambda>a. a)) x y \<noteq> copied (shown 4 (\<lambda>a. a)) r 0 dy x y"
proof -
  define r where "r = sraRgnOr (sraRgnCreateRect 0 1 2 3) (sraRgnCreateRect 0 3 1 5)"
  have ok: "rgn_ok r" "pixels r = {0..<2} \<times> {1..<3} \<union> {0..<1} \<times> {3..<5}"
    by (simp_all add: r_def region_sets rgn_ok_rect pixels_rect)
  have eq: "r = [sraSpanCreate 1 3 [sraSpanCreate 0 2 ()], sraSpanCreate 3 5 [sraSpanCreate 0 1 ()]]"
    unfolding r_def by code_simp
  have "iterator_rects (sraRgnGetReverseIterator r False False) =
      [\<lparr>rx1 = 0, ry1 = 1, rx2 = 2, ry2 = 3\<rparr>, \<lparr>rx1 = 0, ry1 = 3, rx2 = 1, ry2 = 5\<rparr>]"
    unfolding reverse_iterator_rects[OF ok(1)] by (simp add: eq row_rects_def rect_of_def sraSpanCreate_def)
  then have "shown 4 (copy_region_lines 4 r 0 1 (\<lambda>a. a)) 0 3 = 4"
    by (simp add: copy_region_lines_def shown_copy_rect) (simp add: shown_def)
  moreover have "copied (shown 4 (\<lambda>a. a)) r 0 1 0 3 = 8" by (simp add: copied_def ok shown_def)
  ultimately show ?thesis
    using ok by (intro exI[of _ r] exI[of _ 1] exI[of _ 0] exI[of _ 3]) auto
qed

text \<open>
  C28: \<open>rfbMarkRectAsModified\<close>, given the corners of a rectangle in any order that meets the screen,
  marks its part on the screen for every connected client and no more; so if the picture changed
  only there, every client that was consistent still is.
\<close>

theorem rfbMarkRectAsModified_consistent:
  assumes "min x1 x2 < us_width scr" "0 < max x1 x2" "x1 \<noteq> x2"
    and "min y1 y2 < us_height scr" "0 < max y1 y2" "y1 \<noteq> y2" and "0 < us_width scr" "0 < us_height scr"
    and "i < length (us_clients scr)" and "0 \<le> uc_sock (us_clients scr ! i)"
    and "regions_ok (us_clients scr ! i)" and "up_to_date view pic (us_clients scr ! i)"
    and "\<And>x y. (x, y) \<notin> {max 0 (min x1 x2)..<min (us_width scr) (max x1 x2)} \<times>
           {max 0 (min y1 y2)..<min (us_height scr) (max y1 y2)} \<Longrightarrow> pic' x y = pic x y"
  shows "let cl = us_clients scr ! i; cl' = us_clients (rfbMarkRectAsModified scr x1 y1 x2 y2) ! i
    in pixels (modifiedRegion cl') = pixels (modifiedRegion cl) \<union>
         {max 0 (min x1 x2)..<min (us_width scr) (max x1 x2)} \<times>
         {max 0 (min y1 y2)..<min (us_height scr) (max y1 y2)} \<and>
       regions_ok cl' \<and> up_to_date view pic' cl'"
proof -
  define r where "r = sraRgnCreateRect (max 0 (min x1 x2)) (max 0 (min y1 y2))
    (min (us_width scr) (max x1 x2)) (min (us_height scr) (max y1 y2))"
  have clip: "clip_mark a b l = Some (max 0 (min a b), min l (max a b))"
    if "min a b < l" "0 < max a b" "a \<noteq> b" "0 < l" for a b l
    using that by (auto simp: clip_mark_def Let_def)
  have e: "rfbMarkRectAsModified scr x1 y1 x2 y2 = rfbMarkRegionAsModified scr r"
    using clip[OF assms(1-3,7)] clip[OF assms(4-6,8)] by (simp add: rfbMarkRectAsModified_def r_def)
  have r: "rgn_ok r" unfolding r_def using assms by (intro rgn_ok_rect) auto
  have p: "pixels r = {max 0 (min x1 x2)..<min (us_width scr) (max x1 x2)} \<times>
      {max 0 (min y1 y2)..<min (us_height scr) (max y1 y2)}" by (simp add: r_def pixels_rect)
  have "us_clients (rfbMarkRectAsModified scr x1 y1 x2 y2) ! i = mark_client r (us_clients scr ! i)"
    using assms(9,10) by (simp add: e rfbMarkRegionAsModified_def for_clients_def)
  moreover have "pixels (modifiedRegion (mark_client r (us_clients scr ! i))) =
      pixels (modifiedRegion (us_clients scr ! i)) \<union> pixels r"
    using assms(11) r by (simp add: mark_client_def regions_ok_def region_sets)
  moreover have "up_to_date view pic' (mark_client r (us_clients scr ! i)) \<and> regions_ok (mark_client r (us_clients scr ! i))"
    using up_to_date_changed[OF assms(12,11) r] assms(13) unfolding p by blast
  ultimately show ?thesis by (simp add: p Let_def)
qed

theorem rfbMarkRectAsModified_consistent_witness:
  "pixels (modifiedRegion (us_clients (rfbMarkRectAsModified demo_update_screen 120 5 90 (-3)) ! 0)) =
     {90..<100} \<times> {0..<5}"
proof -
  have "up_to_date (\<lambda>_ _. 0 :: int) (\<lambda>_ _. 0) (us_clients demo_update_screen ! 0)"
    "regions_ok (us_clients demo_update_screen ! 0)" "0 \<le> uc_sock (us_clients demo_update_screen ! 0)"
    "modifiedRegion (us_clients demo_update_screen ! 0) = []"
    "us_width demo_update_screen = 100" "us_height demo_update_screen = 80" "0 < length (us_clients demo_update_screen)"
    by (simp_all add: demo_update_screen_def demo_update_client_def up_to_date_def regions_ok_def rgn_ok_Nil)
  with rfbMarkRectAsModified_consistent[of 120 90 demo_update_screen 5 "-3" 0 "\<lambda>_ _. 0 :: int" "\<lambda>_ _. 0" "\<lambda>_ _. 0"]
  show ?thesis by (simp add: Let_def)
qed

text \<open>
  A rectangle that lies beside the screen is not dropped: the clipping turns its corners around
  again, and the region marked for the clients is no region (its row is not well formed).
\<close>

theorem rfbMarkRectAsModified_offscreen:
  assumes "0 \<le> us_width scr" "us_width scr < x1" "x1 < x2" "0 \<le> y1" "y1 < y2" "y2 \<le> us_height scr"
  shows "rfbMarkRectAsModified scr x1 y1 x2 y2 = rfbMarkRegionAsModified scr (sraRgnCreateRect x1 y1 (us_width scr) y2) \<and>
    \<not> rgn_ok (sraRgnCreateRect x1 y1 (us_width scr) y2)"
  using assms by (simp add: rfbMarkRectAsModified_def clip_mark_def Let_def rgn_ok_iff sraRgnCreateRect_def)

theorem rfbMarkRectAsModified_offscreen_witness:
  "rfbMarkRectAsModified demo_update_screen 150 0 160 10 =
     rfbMarkRegionAsModified demo_update_screen (sraRgnCreateRect 150 0 100 10)"
proof -
  have "us_width demo_update_screen = 100" "us_height demo_update_screen = 80"
    by (simp_all add: demo_update_screen_def)
  with rfbMarkRectAsModified_offscreen[of demo_update_screen 150 160 0 10] show ?thesis by simp
qed

end

