(* ===== verification/ClientFrame.thy ===== *)
theory ClientFrame
  imports RRERoundtrip
begin

text \<open>
  How pixels get into the frame buffer of the client (\<open>libvncclient/rfbproto.c\<close>): rectangles copied
  from a buffer, and rectangles moved in the frame buffer itself. The frame buffer is a list of
  pixels, row after row; the pixel type stands for the bits per pixel the code switches on.
\<close>

section \<open>Rectangles of pixels\<close>

text \<open>Rows of \<open>w\<close> pixels from a buffer; the loop ends by the address, at the end of the last row.\<close>

definition put_row :: "nat \<Rightarrow> 'p list \<Rightarrow> 'p list \<Rightarrow> 'p list" where
  "put_row at src fb = take at fb @ src @ drop (at + length src) fb"

definition CopyRectangle :: "nat \<Rightarrow> 'p list \<Rightarrow> 'p list \<Rightarrow> nat \<Rightarrow> nat \<Rightarrow> nat \<Rightarrow> nat \<Rightarrow> 'p list" where
  "CopyRectangle width fb buffer x y w h =
     fold (\<lambda>k fb. if x + (y + k) * width < (y + h) * width
                  then put_row (x + (y + k) * width) (take w (drop (k * w) buffer)) fb else fb) [0..<h] fb"

text \<open>The order of the rows and of the columns depends on the direction of the move.\<close>

definition copy_cell :: "nat \<Rightarrow> int \<Rightarrow> int \<Rightarrow> nat \<times> nat \<Rightarrow> 'p list \<Rightarrow> 'p list" where
  "copy_cell width sx sy ji fb =
     (let (j, i) = ji
      in fb[j * width + i := fb ! nat (int (j * width + i) + (sy * int width + sx))])"

definition copy_order :: "nat \<Rightarrow> nat \<Rightarrow> nat \<Rightarrow> nat \<Rightarrow> nat \<Rightarrow> nat \<Rightarrow> (nat \<times> nat) list" where
  "copy_order src_x src_y w h dest_x dest_y =
     (let rows = (if dest_y < src_y then [dest_y..<dest_y + h] else rev [dest_y..<dest_y + h]);
          cols = (if dest_x < src_x then [dest_x..<dest_x + w] else rev [dest_x..<dest_x + w])
      in List.product rows cols)"

definition CopyRectangleFromRectangle ::
    "nat \<Rightarrow> 'p list \<Rightarrow> nat \<Rightarrow> nat \<Rightarrow> nat \<Rightarrow> nat \<Rightarrow> nat \<Rightarrow> nat \<Rightarrow> 'p list" where
  "CopyRectangleFromRectangle width fb src_x src_y w h dest_x dest_y =
     fold (copy_cell width (int src_x - int dest_x) (int src_y - int dest_y))
       (copy_order src_x src_y w h dest_x dest_y) fb"

section \<open>Rows of pixels\<close>

lemma shows_row:
  assumes "shows_pixels W H fb f" and "x + length src \<le> W" and "y < H"
  shows "shows_pixels W H (put_row (x + y * W) src fb) (overlay x y (length src) 1 (\<lambda>px _. src ! px) f)"
proof -
  have len: "length fb = W * H" using assms(1) by (simp add: shows_pixels_def)
  have "(y + 1) * W \<le> H * W" using assms(3) by (intro mult_right_mono) auto
  then have fits: "x + y * W + length src \<le> W * H" using assms(2) by (simp add: algebra_simps)
  have "put_row (x + y * W) src fb ! (Y * W + X) = overlay x y (length src) 1 (\<lambda>px _. src ! px) f X Y"
    if "X < W" "Y < H" for X Y
  proof -
    have old: "fb ! (Y * W + X) = f X Y" using assms(1) that by (simp add: shows_pixels_def)
    have "Y * W + X < W * H" using index_less[OF that] .
    have at: "x + y * W \<le> Y * W + X \<and> Y * W + X < x + y * W + length src \<longleftrightarrow> Y = y \<and> x \<le> X \<and> X < x + length src"
    proof (cases Y y rule: linorder_cases)
      case less
      then have "(Y + 1) * W \<le> y * W" by (intro mult_right_mono) auto
      then show ?thesis using that less by auto
    next
      case greater
      then have "(y + 1) * W \<le> Y * W" by (intro mult_right_mono) auto
      then show ?thesis using assms(2) greater by auto
    qed auto
    show ?thesis
    proof (cases "x + y * W \<le> Y * W + X \<and> Y * W + X < x + y * W + length src")
      case True
      then have e: "Y = y" "x \<le> X" "X < x + length src" using at by auto
      then show ?thesis using fits len by (auto simp: put_row_def nth_append overlay_def in_rect_def)
    next
      case False
      then have same: "overlay x y (length src) 1 (\<lambda>px _. src ! px) f X Y = f X Y"
        using at by (auto simp: overlay_def in_rect_def)
      show ?thesis
      proof (cases "Y * W + X < x + y * W")
        case True
        then show ?thesis using fits len by (simp add: put_row_def nth_append same old del: One_nat_def)
      next
        case no: False
        then have "x + y * W + length src \<le> Y * W + X" using False by linarith
        then show ?thesis using fits len \<open>Y * W + X < W * H\<close> by (auto simp: put_row_def nth_append same old simp del: One_nat_def)
      qed
    qed
  qed
  moreover have "length (put_row (x + y * W) src fb) = W * H" using fits len by (simp add: put_row_def)
  ultimately show ?thesis by (simp add: shows_pixels_def)
qed

lemma CopyRectangle_shows:
  assumes "shows_pixels W H fb f" and "x + w \<le> W" and "y + h \<le> H" and "length buffer = w * h"
  shows "shows_pixels W H (CopyRectangle W fb buffer x y w h) (overlay x y w h (\<lambda>px py. buffer ! (py * w + px)) f)"
proof (cases "w = 0")
  case True
  have "fold (\<lambda>k fb. if x + (y + k) * W < (y + h) * W then put_row (x + (y + k) * W) (take w (drop (k * w) buffer)) fb else fb) ks fb = fb" for ks
    by (induction ks) (auto simp: True put_row_def)
  moreover have "overlay x y w h (\<lambda>px py. buffer ! (py * w + px)) f = f" by (intro ext) (auto simp: overlay_def in_rect_def True)
  ultimately show ?thesis using assms(1) by (simp add: CopyRectangle_def)
next
  case False
  define g where "g = (\<lambda>px py. buffer ! (py * w + px))"
  define step where "step = (\<lambda>k fb. if x + (y + k) * W < (y + h) * W then put_row (x + (y + k) * W) (take w (drop (k * w) buffer)) fb else fb)"
  have "shows_pixels W H (fold step [0..<n] fb) (overlay x y w n g f)" if "n \<le> h" for n
    using that
  proof (induction n)
    case 0
    have "overlay x y w 0 g f = f" by (intro ext) (auto simp: overlay_def in_rect_def)
    then show ?case using assms(1) by simp
  next
    case (Suc n)
    have "(y + n + 1) * W \<le> (y + h) * W" using Suc.prems by (intro mult_right_mono) auto
    then have guard: "x + (y + n) * W < (y + h) * W" using assms(2) False by (simp add: algebra_simps)
    have "(n + 1) * w \<le> h * w" using Suc.prems by (intro mult_right_mono) auto
    define row where "row = take w (drop (n * w) buffer)"
    have len: "length row = w" using assms(4) \<open>(n + 1) * w \<le> h * w\<close> by (simp add: row_def algebra_simps)
    have "shows_pixels W H (step n (fold step [0..<n] fb)) (overlay x (y + n) w 1 (\<lambda>px _. row ! px) (overlay x y w n g f))"
      using shows_row[of W H "fold step [0..<n] fb" "overlay x y w n g f" x row "y + n"]
        Suc assms(2,3) guard by (simp add: step_def len flip: row_def)
    moreover have "overlay x (y + n) w 1 (\<lambda>px _. row ! px) (overlay x y w n g f) = overlay x y w (Suc n) g f"
    proof (intro ext)
      fix X Y
      have "row ! (X - x) = buffer ! (n * w + (X - x))" if "X < x + w" "x \<le> X"
      proof -
        have "n * w \<le> h * w" using Suc.prems by (intro mult_right_mono) auto
        then have "n * w \<le> length buffer" unfolding assms(4) by (simp only: mult.commute)
        moreover have "X - x < w" using that by arith
        ultimately show ?thesis by (simp add: row_def)
      qed
      then show "overlay x (y + n) w 1 (\<lambda>px _. row ! px) (overlay x y w n g f) X Y = overlay x y w (Suc n) g f X Y"
        by (cases "Y = y + n") (auto simp: overlay_def in_rect_def g_def)
    qed
    ultimately show ?case by simp
  qed
  from this[of h] show ?thesis by (simp add: CopyRectangle_def step_def g_def)
qed

section \<open>Moving a rectangle\<close>

text \<open>The cell \<open>q\<close>, copied later, does not read the cell \<open>p\<close>.\<close>

definition unread :: "nat \<Rightarrow> nat \<Rightarrow> nat \<Rightarrow> nat \<Rightarrow> nat \<times> nat \<Rightarrow> nat \<times> nat \<Rightarrow> bool" where
  "unread x y sx sy p q \<longleftrightarrow> (snd q - x + sx, fst q - y + sy) \<noteq> (snd p, fst p)"

definition moved :: "nat \<Rightarrow> nat \<Rightarrow> nat \<Rightarrow> nat \<Rightarrow> (nat \<times> nat) set \<Rightarrow> (nat \<Rightarrow> nat \<Rightarrow> 'p) \<Rightarrow> nat \<Rightarrow> nat \<Rightarrow> 'p" where
  "moved x y sx sy D f X Y = (if (Y, X) \<in> D then f (X - x + sx) (Y - y + sy) else f X Y)"

lemma copy_cell_shows:
  assumes "shows_pixels W H fb (moved x y sx sy D f)" and "x \<le> i" "i < W" "y \<le> j" "j < H"
    and "i - x + sx < W" "j - y + sy < H" and "(j - y + sy, i - x + sx) \<notin> D"
  shows "shows_pixels W H (copy_cell W (int sx - int x) (int sy - int y) (j, i) fb) (moved x y sx sy (insert (j, i) D) f)"
proof -
  have "int (j * W + i) + ((int sy - int y) * int W + (int sx - int x)) = int ((j - y + sy) * W + (i - x + sx))"
  proof -
    obtain k l where "i = x + k" "j = y + l" using assms(2,4) by (metis le_Suc_ex)
    then show ?thesis by (simp add: algebra_simps)
  qed
  then have src: "copy_cell W (int sx - int x) (int sy - int y) (j, i) fb = fb[j * W + i := f (i - x + sx) (j - y + sy)]"
    using assms(1,6,7,8) by (simp add: copy_cell_def shows_pixels_def moved_def del: of_nat_add of_nat_mult)
  have "j * W + i < W * H" using index_less[OF assms(3,5)] .
  moreover have "j * W + i = Y * W + X \<longleftrightarrow> Y = j \<and> X = i" if "X < W" for X Y
    using that assms(3) by (metis div_mult_self1 div_less mult.commute add.commute mod_mult_self2 mod_less add_0 less_nat_zero_code)
  ultimately show ?thesis
    unfolding src using assms(1) by (auto simp: shows_pixels_def moved_def nth_list_update)
qed

lemma copy_cells_show:
  assumes "shows_pixels W H fb (moved x y sx sy D f)" and "sorted_wrt (unread x y sx sy) cs"
    and "\<forall>(j, i)\<in>set cs. x \<le> i \<and> i < W \<and> y \<le> j \<and> j < H \<and> i - x + sx < W \<and> j - y + sy < H \<and> (j - y + sy, i - x + sx) \<notin> D"
  shows "shows_pixels W H (fold (copy_cell W (int sx - int x) (int sy - int y)) cs fb) (moved x y sx sy (D \<union> set cs) f)"
  using assms
proof (induction cs arbitrary: fb D)
  case (Cons c cs)
  obtain j i where c: "c = (j, i)" by fastforce
  have s: "shows_pixels W H (copy_cell W (int sx - int x) (int sy - int y) c fb) (moved x y sx sy (insert c D) f)"
    using Cons.prems(1,3) unfolding c by (intro copy_cell_shows) auto
  have "\<forall>(j', i')\<in>set cs. (j' - y + sy, i' - x + sx) \<noteq> (j, i)" using Cons.prems(2) by (auto simp: unread_def c)
  then have "\<forall>(j, i)\<in>set cs. x \<le> i \<and> i < W \<and> y \<le> j \<and> j < H \<and> i - x + sx < W \<and> j - y + sy < H \<and> (j - y + sy, i - x + sx) \<notin> insert c D"
    using Cons.prems(3) by (auto simp: c)
  from Cons.IH[OF s _ this] Cons.prems(2) show ?case by simp
qed simp

lemma sorted_wrt_product:
  assumes "sorted_wrt (\<lambda>a a'. \<forall>b\<in>set ys. \<forall>b'\<in>set ys. R (a, b) (a', b')) xs" and "\<And>a. a \<in> set xs \<Longrightarrow> sorted_wrt (\<lambda>b b'. R (a, b) (a, b')) ys"
  shows "sorted_wrt R (List.product xs ys)"
  using assms
proof (induction xs)
  case (Cons x xs)
  then show ?case by (auto simp: sorted_wrt_append sorted_wrt_map)
qed simp

lemma copy_order_unread: "sorted_wrt (unread x y sx sy) (copy_order sx sy w h x y)"
proof -
  define rows where "rows = (if y < sy then [y..<y + h] else rev [y..<y + h])"
  define cols where "cols = (if x < sx then [x..<x + w] else rev [x..<x + w])"
  have up: "sorted_wrt (<) [a..<b]" for a b :: nat by simp
  have c: "sorted_wrt (\<lambda>b b'. if x < sx then b < b' else b' < b) cols"
    using up by (auto simp: cols_def sorted_wrt_rev)
  have r: "sorted_wrt (\<lambda>b b'. if y < sy then b < b' else b' < b) rows"
    using up by (auto simp: rows_def sorted_wrt_rev)
  have inr: "\<forall>a\<in>set rows. y \<le> a" "\<forall>b\<in>set cols. x \<le> b" by (auto simp: rows_def cols_def split: if_splits)
  have "sorted_wrt (\<lambda>a a'. \<forall>b\<in>set cols. \<forall>b'\<in>set cols. unread x y sx sy (a, b) (a', b')) rows"
  proof (rule sorted_wrt_mono_rel[OF _ r])
    fix a a' assume "a \<in> set rows" "a' \<in> set rows" "if y < sy then a < a' else a' < a"
    then have "a' - y + sy \<noteq> a" using inr(1) by (auto split: if_splits)
    then show "\<forall>b\<in>set cols. \<forall>b'\<in>set cols. unread x y sx sy (a, b) (a', b')" by (simp add: unread_def)
  qed
  moreover have "sorted_wrt (\<lambda>b b'. unread x y sx sy (a, b) (a, b')) cols" for a
  proof (rule sorted_wrt_mono_rel[OF _ c])
    fix b b' assume "b \<in> set cols" "b' \<in> set cols" "if x < sx then b < b' else b' < b"
    then have "b' - x + sx \<noteq> b" using inr(2) by (auto split: if_splits)
    then show "unread x y sx sy (a, b) (a, b')" by (simp add: unread_def)
  qed
  ultimately show ?thesis unfolding copy_order_def Let_def rows_def[symmetric] cols_def[symmetric] by (rule sorted_wrt_product)
qed

lemma CopyRectangleFromRectangle_shows:
  assumes "shows_pixels W H fb f" and "x + w \<le> W" "y + h \<le> H" "sx + w \<le> W" "sy + h \<le> H"
  shows "shows_pixels W H (CopyRectangleFromRectangle W fb sx sy w h x y) (overlay x y w h (\<lambda>px py. f (sx + px) (sy + py)) f)"
proof -
  have set: "set (copy_order sx sy w h x y) = {y..<y + h} \<times> {x..<x + w}" by (auto simp: copy_order_def Let_def)
  have "shows_pixels W H (CopyRectangleFromRectangle W fb sx sy w h x y)
      (moved x y sx sy ({} \<union> set (copy_order sx sy w h x y)) f)"
    unfolding CopyRectangleFromRectangle_def
    by (rule copy_cells_show[OF _ copy_order_unread]) (use assms in \<open>auto simp: set moved_def shows_pixels_def\<close>)
  moreover have "moved x y sx sy ({} \<union> set (copy_order sx sy w h x y)) f = overlay x y w h (\<lambda>px py. f (sx + px) (sy + py)) f"
    by (intro ext) (auto simp: moved_def overlay_def in_rect_def set add.commute)
  ultimately show ?thesis by simp
qed

text \<open>
  C20: Moving a rectangle in the frame buffer of the client, pixel by pixel and in place, is the same
  as reading the whole source first, however source and destination overlap; nothing else changes.
\<close>

theorem CopyRectangleFromRectangle_moves:
  assumes "shows_pixels W H fb f" and "x + w \<le> W" "y + h \<le> H" "sx + w \<le> W" "sy + h \<le> H"
  shows "shows_pixels W H (CopyRectangleFromRectangle W fb sx sy w h x y) (overlay x y w h (\<lambda>px py. f (sx + px) (sy + py)) f)"
  by (rule CopyRectangleFromRectangle_shows[OF assms])

theorem CopyRectangleFromRectangle_moves_witness:
  "CopyRectangleFromRectangle 4 [1, 2, 3, 4 :: nat] 0 0 3 1 1 0 ! 3 = 3"
proof -
  have "shows_pixels 4 1 [1, 2, 3, 4 :: nat] (\<lambda>X Y. X + 1)"
    by (auto simp: shows_pixels_def less_Suc_eq numeral_eq_Suc)
  from CopyRectangleFromRectangle_moves[OF this, of 1 3 0 1 0 0]
  have "shows_pixels 4 1 (CopyRectangleFromRectangle 4 [1, 2, 3, 4 :: nat] 0 0 3 1 1 0)
      (overlay 1 0 3 1 (\<lambda>px py. px + 1) (\<lambda>X Y. X + 1))" by simp
  then have "\<forall>Y<1. \<forall>X<4. CopyRectangleFromRectangle 4 [1, 2, 3, 4 :: nat] 0 0 3 1 1 0 ! (Y * 4 + X) =
      overlay 1 0 3 1 (\<lambda>px py. px + 1) (\<lambda>X Y. X + 1) X Y" by (simp add: shows_pixels_def)
  from this[rule_format, of 0 3] show ?thesis by (simp add: overlay_def in_rect_def)
qed

end
