(* ===== verification/Hextile.thy ===== *)
theory Hextile
  imports ClientFrame
begin

text \<open>
  The Hextile encoding: \<open>rfbSendRectEncodingHextile\<close> of \<open>libvncserver/hextile.c\<close> and its decoder in
  \<open>libvncclient/hextile.c\<close>. A rectangle is cut into tiles of at most 16 by 16 pixels; each is sent as
  its pixels, or as a background with subrectangles. The background and the foreground are only
  sent when they differ from those of the tile before.
\<close>

section \<open>One tile\<close>

definition rfbHextileRaw :: uint8_t where "rfbHextileRaw = 1"
definition rfbHextileBackgroundSpecified :: uint8_t where "rfbHextileBackgroundSpecified = 2"
definition rfbHextileForegroundSpecified :: uint8_t where "rfbHextileForegroundSpecified = 4"
definition rfbHextileAnySubrects :: uint8_t where "rfbHextileAnySubrects = 8"
definition rfbHextileSubrectsColoured :: uint8_t where "rfbHextileSubrectsColoured = 16"

definition rfbHextilePackXY :: "nat \<Rightarrow> nat \<Rightarrow> uint8_t" where
  "rfbHextilePackXY x y = word_of_nat (push_bit 4 x OR y)"

definition rfbHextilePackWH :: "nat \<Rightarrow> nat \<Rightarrow> uint8_t" where
  "rfbHextilePackWH w h = word_of_nat (push_bit 4 (w - 1) OR (h - 1))"

definition put_hextile_rect :: "rect4 \<Rightarrow> uint8_t list" where
  "put_hextile_rect r = (case r of (x, y, w, h) \<Rightarrow> [rfbHextilePackXY x y, rfbHextilePackWH w h])"

text \<open>
  \<open>testColours\<close>: the loop over the pixels ends at the third colour. The counts and colours so far are
  \<open>n1\<close>, \<open>colour1\<close> and \<open>n2\<close>, \<open>colour2\<close>; the result says whether the tile has at most two colours (\<open>mono\<close>),
  only one (\<open>solid\<close>), and what its background and foreground are.
\<close>

fun testColours_loop :: "'p list \<Rightarrow> nat \<Rightarrow> nat \<Rightarrow> 'p \<Rightarrow> 'p \<Rightarrow> bool \<Rightarrow> bool \<times> bool \<times> nat \<times> nat \<times> 'p \<times> 'p" where
  "testColours_loop [] n1 n2 c1 c2 solid = (True, solid, n1, n2, c1, c2)"
| "testColours_loop (p # ps) n1 n2 c1 c2 solid =
     (let c1 = (if n1 = 0 then p else c1)
      in if p = c1 then testColours_loop ps (n1 + 1) n2 c1 c2 solid
         else (let (solid, c2) = (if n2 = 0 then (False, p) else (solid, c2))
               in if p = c2 then testColours_loop ps n1 (n2 + 1) c1 c2 solid
                  else (False, solid, n1, n2, c1, c2)))"

definition testColours :: "'a::len word list \<Rightarrow> bool \<times> bool \<times> 'a word \<times> 'a word" where
  "testColours data =
     (let (monoc, solid, n1, n2, c1, c2) = testColours_loop data 0 0 0 0 True
      in if n2 < n1 then (monoc, solid, c1, c2) else (monoc, solid, c2, c1))"

text \<open>
  \<open>subrectEncode\<close>: the number of subrectangles and their bytes, or \<open>None\<close> when they get longer than
  the raw tile. The byte of the count is the first of the length that is limited.
\<close>

definition hextile_subrect :: "bool \<Rightarrow> 'a::len word \<times> rect4 \<Rightarrow> uint8_t list" where
  "hextile_subrect monoc s = (if monoc then put_hextile_rect (snd s) else pixel_bytes (fst s) @ put_hextile_rect (snd s))"

fun hextile_loop ::
    "bool \<Rightarrow> nat \<Rightarrow> 'a::len word \<Rightarrow> nat \<Rightarrow> nat \<Rightarrow> (nat \<times> nat) list \<Rightarrow> 'a word list \<Rightarrow> nat \<Rightarrow> uint8_t list \<Rightarrow>
     (nat \<times> uint8_t list) option" where
  "hextile_loop monoc rawLen bg w h [] data numsubs buf = Some (numsubs, buf)"
| "hextile_loop monoc rawLen bg w h ((x, y) # ps) data numsubs buf =
     (if data ! (y * w + x) \<noteq> bg
      then (let cl2 = data ! (y * w + x);
                (thew, theh) = choose_subrect data w h x y;
                newLen = (if monoc then 1 + length buf + 2 else 1 + length buf + pixel_size TYPE('a) + 2)
            in if rawLen < newLen then None
               else hextile_loop monoc rawLen bg w h ps (fill w bg x y thew theh data) (numsubs + 1)
                      (buf @ hextile_subrect monoc (cl2, x, y, thew, theh)))
      else hextile_loop monoc rawLen bg w h ps data numsubs buf)"

definition hextile_subrectEncode :: "bool \<Rightarrow> 'a::len word list \<Rightarrow> nat \<Rightarrow> nat \<Rightarrow> 'a word \<Rightarrow> uint8_t list option" where
  "hextile_subrectEncode monoc data w h bg =
     map_option (\<lambda>(numsubs, buf). word_of_nat numsubs # buf)
       (hextile_loop monoc (w * h * pixel_size TYPE('a)) bg w h (positions w h) data 0 [])"

text \<open>What the server remembers of the tile before.\<close>

record 'p hextile_state =
  ht_bg :: 'p
  ht_fg :: 'p
  validBg :: bool
  validFg :: bool

text \<open>The bytes of one tile.\<close>

definition hextile_tile :: "'a::len word list \<Rightarrow> nat \<Rightarrow> nat \<Rightarrow> 'a word hextile_state \<Rightarrow> uint8_t list \<times> 'a word hextile_state" where
  "hextile_tile data w h st =
     (let (monoc, solid, newBg, newFg) = testColours data;
          (flags, bgBytes, st) =
            (if \<not> validBg st \<or> newBg \<noteq> ht_bg st
             then (rfbHextileBackgroundSpecified, pixel_bytes newBg, st\<lparr>validBg := True, ht_bg := newBg\<rparr>)
             else (0, [], st))
      in if solid then (flags # bgBytes, st)
         else
           (let flags = flags OR rfbHextileAnySubrects;
                (flags, fgBytes, st) =
                  (if monoc
                   then (if \<not> validFg st \<or> newFg \<noteq> ht_fg st
                         then (flags OR rfbHextileForegroundSpecified, pixel_bytes newFg, st\<lparr>validFg := True, ht_fg := newFg\<rparr>)
                         else (flags, [], st))
                   else (flags OR rfbHextileSubrectsColoured, [], st\<lparr>validFg := False\<rparr>))
            in case hextile_subrectEncode monoc data w h (ht_bg st) of
                 Some subs \<Rightarrow> (flags # bgBytes @ fgBytes @ subs, st)
               | None \<Rightarrow> (rfbHextileRaw # concat (map pixel_bytes data), st\<lparr>validBg := False, validFg := False\<rparr>)))"

section \<open>A rectangle\<close>

text \<open>The corners of the tiles: \<open>for (y = ry; y < ry+rh; y += 16) for (x = rx; x < rx+rw; x += 16)\<close>.\<close>

definition tile_starts :: "nat \<Rightarrow> nat \<Rightarrow> nat list" where
  "tile_starts r n = map (\<lambda>k. r + 16 * k) [0..<(n + 15) div 16]"

definition tile_corners :: "nat \<Rightarrow> nat \<Rightarrow> nat \<Rightarrow> nat \<Rightarrow> (nat \<times> nat) list" where
  "tile_corners rx ry rw rh = concat (map (\<lambda>y. map (\<lambda>x. (x, y)) (tile_starts rx rw)) (tile_starts ry rh))"

definition tile_size :: "nat \<Rightarrow> nat \<Rightarrow> nat \<Rightarrow> nat" where
  "tile_size r n x = (if r + n - x < 16 then r + n - x else 16)"

fun send_tiles ::
    "(nat \<Rightarrow> nat \<Rightarrow> 'a::len word) \<Rightarrow> nat \<Rightarrow> nat \<Rightarrow> nat \<Rightarrow> nat \<Rightarrow> (nat \<times> nat) list \<Rightarrow> 'a word hextile_state \<Rightarrow>
     update_state \<Rightarrow> bool \<times> update_state" where
  "send_tiles fb rx ry rw rh [] st cl = (True, cl)"
| "send_tiles fb rx ry rw rh ((x, y) # ts) st cl =
     (let w = tile_size rx rw x; h = tile_size ry rh y;
          (ok, cl) = make_room (1 + (2 + 16 * 16) * pixel_size TYPE('a)) cl
      in if \<not> ok then (False, cl)
         else (let (bytes, st) = hextile_tile (tile fb x y w h) w h st
               in send_tiles fb rx ry rw rh ts st (put_bytes bytes cl)))"

definition sendHextiles ::
    "(nat \<Rightarrow> nat \<Rightarrow> 'a::len word) \<Rightarrow> nat \<Rightarrow> nat \<Rightarrow> nat \<Rightarrow> nat \<Rightarrow> update_state \<Rightarrow> bool \<times> update_state" where
  "sendHextiles fb rx ry rw rh cl =
     send_tiles fb rx ry rw rh (tile_corners rx ry rw rh)
       \<lparr>ht_bg = 0, ht_fg = 0, validBg = False, validFg = False\<rparr> cl"

text \<open>There is no variant for 24 bits; by then the header is in the buffer.\<close>

definition rfbSendRectEncodingHextile ::
    "(nat \<Rightarrow> nat \<Rightarrow> 'a::len word) \<Rightarrow> nat \<Rightarrow> nat \<Rightarrow> nat \<Rightarrow> nat \<Rightarrow> update_state \<Rightarrow> bool \<times> update_state" where
  "rfbSendRectEncodingHextile fb x y w h cl =
     (let (ok, cl) = make_room sz_rfbFramebufferUpdateRectHeader cl
      in if \<not> ok then (False, cl)
         else (let cl = put_bytes (rect_header x y w h rfbEncodingHextile) cl
               in if LENGTH('a) = 8 \<or> LENGTH('a) = 16 \<or> LENGTH('a) = 32
                  then sendHextiles fb x y w h cl else (False, cl)))"

section \<open>The decoder\<close>

definition rfbHextileExtractXY :: "uint8_t \<Rightarrow> nat \<times> nat" where
  "rfbHextileExtractXY b = (unat (drop_bit 4 b), unat (b AND 0xf))"

definition rfbHextileExtractWH :: "uint8_t \<Rightarrow> nat \<times> nat" where
  "rfbHextileExtractWH b = (unat (drop_bit 4 b) + 1, unat (b AND 0xf) + 1)"

text \<open>
  The loops over the subrectangles of a tile. The coloured ones leave their last colour as the
  foreground.
\<close>

fun hextile_subrects :: "nat \<Rightarrow> nat \<Rightarrow> nat \<Rightarrow> bool \<Rightarrow> nat \<Rightarrow> 'a::len word \<Rightarrow> 'a word list \<Rightarrow> uint8_t list \<Rightarrow> 'a word \<times> 'a word list"
where
  "hextile_subrects width x y coloured 0 fg fb ptr = (fg, fb)"
| "hextile_subrects width x y coloured (Suc n) fg fb ptr =
     (let (fg, ptr) = (if coloured then (pixel_of (take (pixel_size TYPE('a)) ptr), drop (pixel_size TYPE('a)) ptr) else (fg, ptr));
          (sx, sy) = rfbHextileExtractXY (ptr ! 0); (sw, sh) = rfbHextileExtractWH (ptr ! 1)
      in hextile_subrects width x y coloured n fg (FillRectangle width fb (x + sx) (y + sy) sw sh fg) (drop 2 ptr))"

text \<open>
  One tile: the background, the foreground, the frame buffer and the bytes left; \<open>None\<close> when the
  server ends. At first \<open>bg\<close> and \<open>fg\<close> are whatever is on the stack.
\<close>

definition read_pixel_if :: "bool \<Rightarrow> 'a::len word \<Rightarrow> uint8_t list \<Rightarrow> ('a word \<times> uint8_t list) option" where
  "read_pixel_if due p inp =
     (if due then map_option (\<lambda>(bs, inp). (pixel_of bs, inp)) (ReadFromRFBServer (pixel_size TYPE('a)) inp) else Some (p, inp))"

definition HandleHextile_tile ::
    "nat \<Rightarrow> nat \<Rightarrow> nat \<Rightarrow> nat \<Rightarrow> nat \<Rightarrow> 'a::len word \<times> 'a word \<times> 'a word list \<times> uint8_t list \<Rightarrow>
     ('a word \<times> 'a word \<times> 'a word list \<times> uint8_t list) option" where
  "HandleHextile_tile width x y w h st =
     (let (bg, fg, fb, inp) = st
      in case ReadFromRFBServer 1 inp of
           None \<Rightarrow> None
         | Some (sub, inp) \<Rightarrow>
            (let subencoding = sub ! 0
             in if bit subencoding 0
                then (case ReadFromRFBServer (w * h * pixel_size TYPE('a)) inp of
                        None \<Rightarrow> None
                      | Some (buffer, inp) \<Rightarrow>
                          Some (bg, fg, CopyRectangle width fb (map (\<lambda>i. pixel_of (take (pixel_size TYPE('a))
                            (drop (i * pixel_size TYPE('a)) buffer))) [0..<w * h]) x y w h, inp))
                else (case read_pixel_if (bit subencoding 1) bg inp of
                        None \<Rightarrow> None
                      | Some (bg, inp) \<Rightarrow>
                         (let fb = FillRectangle width fb x y w h bg
                          in case read_pixel_if (bit subencoding 2) fg inp of
                               None \<Rightarrow> None
                             | Some (fg, inp) \<Rightarrow>
                                if \<not> bit subencoding 3 then Some (bg, fg, fb, inp)
                                else (case ReadFromRFBServer 1 inp of
                                        None \<Rightarrow> None
                                      | Some (ns, inp) \<Rightarrow>
                                         (let nSubrects = unat (ns ! 0); coloured = bit subencoding 4;
                                              len = nSubrects * (if coloured then 2 + pixel_size TYPE('a) else 2)
                                          in case ReadFromRFBServer len inp of
                                               None \<Rightarrow> None
                                             | Some (ptr, inp) \<Rightarrow>
                                                (let (fg, fb) = hextile_subrects width x y coloured nSubrects fg fb ptr
                                                 in Some (bg, fg, fb, inp))))))))"

fun HandleHextile_tiles ::
    "nat \<Rightarrow> nat \<Rightarrow> nat \<Rightarrow> nat \<Rightarrow> nat \<Rightarrow> (nat \<times> nat) list \<Rightarrow> 'a::len word \<times> 'a word \<times> 'a word list \<times> uint8_t list \<Rightarrow>
     ('a word list \<times> uint8_t list) option" where
  "HandleHextile_tiles width rx ry rw rh [] (bg, fg, fb, inp) = Some (fb, inp)"
| "HandleHextile_tiles width rx ry rw rh ((x, y) # ts) st =
     (case HandleHextile_tile width x y (tile_size rx rw x) (tile_size ry rh y) st of
        None \<Rightarrow> None
      | Some st \<Rightarrow> HandleHextile_tiles width rx ry rw rh ts st)"

definition HandleHextile ::
    "'a::len word \<Rightarrow> 'a word \<Rightarrow> nat \<Rightarrow> 'a word list \<Rightarrow> uint8_t list \<Rightarrow> nat \<Rightarrow> nat \<Rightarrow> nat \<Rightarrow> nat \<Rightarrow>
     ('a word list \<times> uint8_t list) option" where
  "HandleHextile bg fg width fb inp rx ry rw rh =
     HandleHextile_tiles width rx ry rw rh (tile_corners rx ry rw rh) (bg, fg, fb, inp)"

end
