(* ===== verification/SendUpdate.thy ===== *)
theory SendUpdate
  imports Pseudo UpdatesCorrect Hextile
begin

text \<open>
  \<open>rfbSendFramebufferUpdate\<close> of \<open>libvncserver/rfbserver.c\<close>: what of a client's regions is sent now and
  how, for a client that does not scale the screen, and the test and the setting of the cursor that
  lead to it (\<open>FB_UPDATE_PENDING\<close>, \<open>rfbSetCursor\<close>). The encoders of Ultra, Zlib, Tight and
  ZRLE are arguments. Statistics, locks, the log and
  the display hook are left out.
\<close>

section \<open>State\<close>

text \<open>
  The fields of \<open>rfbClientRec\<close> that updates depend on: the regions with the cursor last shown to the
  client, and the update buffer.
\<close>

record send_client =
  regions :: update_client
  outb :: update_state
  cursorWasChanged :: bool
  readyForSetColourMapEntries :: bool
  useRichCursorEncoding :: bool
  enableLastRectEncoding :: bool
  enableKeyboardLedState :: bool
  lastKeyboardLedState :: int
  enableSupportedMessages :: bool
  enableSupportedEncodings :: bool
  enableServerIdentity :: bool
  progressiveSliceY :: int
  preferredEncoding :: int
  correMaxWidth :: int
  correMaxHeight :: int
  tightCompressLevel :: nat

text \<open>
  Settings of the screen. \<open>ledState\<close> is what the hook for the keyboard lights returns, if there is
  one; \<open>pad\<close> is what is left in the second byte of the update buffer; \<open>heap\<close> is fresh memory.
\<close>

record 'p send_settings =
  progressiveSliceHeight :: int
  maxRectsPerUpdate :: int
  ledState :: "int option"
  versionString :: "string option"
  pad :: uint8_t
  heap :: "nat \<Rightarrow> 'p"
  rreAfterBufSize :: nat

section \<open>The regions of an update\<close>

text \<open>The slice of the screen that is sent next, and where the one after it begins.\<close>

definition progressive_slice :: "int \<Rightarrow> int \<Rightarrow> int \<Rightarrow> int \<Rightarrow> sraRegion \<Rightarrow> sraRegion \<times> int" where
  "progressive_slice sliceHeight w h y rgn =
     (let (rgn, y) =
            (case snd (sraRgnPopRect (sraRgnBBox (Some rgn)) 0) of
               None \<Rightarrow> (rgn, y)
             | Some rect \<Rightarrow>
                 (let y = (if y < ry1 rect \<or> ry2 rect \<le> y then ry1 rect else y)
                  in (fst (sraRgnAnd rgn (sraRgnCreateRect 0 y w (y + sliceHeight))), y)));
          y = y + sliceHeight
      in (rgn, if h \<le> y then 0 else y))"

text \<open>
  What is sent as pixels and what as a copy by which distance, with the regions the client is left
  with, or \<open>None\<close> when there is nothing to send. \<open>idle\<close>: nothing but pixels could be due.
\<close>

definition forget_modified_copy :: "update_client \<Rightarrow> update_client" where
  "forget_modified_copy cl = cl\<lparr>copyRegion := fst (sraRgnSubtract (copyRegion cl) (modifiedRegion cl))\<rparr>"

definition copy_now :: "update_client \<Rightarrow> sraRegion" where
  "copy_now cl =
     fst (sraRgnAnd (fst (sraRgnAnd (sraRgnCreateRgn (copyRegion cl)) (requestedRegion cl)))
       (sraRgnOffset (sraRgnCreateRgn (requestedRegion cl)) (copyDX cl) (copyDY cl)))"

definition split_update ::
    "bool \<Rightarrow> sraRegion \<Rightarrow> update_client \<Rightarrow> (sraRegion \<times> sraRegion \<times> int \<times> int \<times> update_client) option" where
  "split_update idle updateRegion cl =
     (let (updateRegion, r) = sraRgnAnd (sraRgnOr updateRegion (copyRegion cl)) (requestedRegion cl)
      in if \<not> r \<and> sraRgnEmpty updateRegion \<and> idle then None
         else
           (let updateCopyRegion = copy_now cl;
                dx = copyDX cl; dy = copyDY cl;
                updateRegion = fst (sraRgnSubtract updateRegion updateCopyRegion);
                m = sraRgnOr (modifiedRegion cl) (copyRegion cl);
                m = fst (sraRgnSubtract m updateRegion);
                m = fst (sraRgnSubtract m updateCopyRegion)
            in Some (updateRegion, updateCopyRegion, dx, dy,
                 cl\<lparr>modifiedRegion := m, requestedRegion := sraRgnMakeEmpty (requestedRegion cl),
                    copyRegion := sraRgnMakeEmpty (copyRegion cl), copyDX := 0, copyDY := 0\<rparr>)))"

section \<open>Counting rectangles\<close>

abbreviation region_rects :: "sraRegion \<Rightarrow> sraRect list" where
  "region_rects r \<equiv> iterator_rects (sraRgnGetIterator r)"

definition rect_w :: "sraRect \<Rightarrow> int" where "rect_w r = rx2 r - rx1 r"
definition rect_h :: "sraRect \<Rightarrow> int" where "rect_h r = ry2 r - ry1 r"

definition ULTRA_MAX_RECT_SIZE :: int where "ULTRA_MAX_RECT_SIZE = 128 * 256"

text \<open>\<open>ULTRA_MAX_SIZE\<close> and \<open>ZLIB_MAX_SIZE\<close> have the same body.\<close>

definition ULTRA_MAX_SIZE :: "int \<Rightarrow> int" where
  "ULTRA_MAX_SIZE m = (if ULTRA_MAX_RECT_SIZE < m * 2 then m * 2 else ULTRA_MAX_RECT_SIZE)"

definition corre_count :: "int \<Rightarrow> int \<Rightarrow> sraRect \<Rightarrow> int" where
  "corre_count maxW maxH r = ((rect_w r - 1) div maxW + 1) * ((rect_h r - 1) div maxH + 1)"

definition strip_count :: "sraRect \<Rightarrow> int" where
  "strip_count r = (rect_h r - 1) div (ULTRA_MAX_SIZE (rect_w r) div rect_w r) + 1"

text \<open>\<open>maxRectSize\<close> and \<open>maxRectWidth\<close> of \<open>tightConf\<close>, by compression level.\<close>

definition tightConf :: "(int \<times> int) list" where
  "tightConf = [(512, 32), (2048, 128), (6144, 256), (10240, 1024), (16384, 2048),
     (32768, 2048), (65536, 2048), (65536, 2048), (65536, 2048), (65536, 2048)]"

definition MIN_SPLIT_RECT_SIZE :: int where "MIN_SPLIT_RECT_SIZE = 4096"

definition rfbNumCodedRectsTight :: "bool \<Rightarrow> nat \<Rightarrow> int \<Rightarrow> int \<Rightarrow> int" where
  "rfbNumCodedRectsTight lastRect level w h =
     (if lastRect \<and> MIN_SPLIT_RECT_SIZE \<le> w * h then 0
      else (let (maxRectSize, maxRectWidth) = tightConf ! level
            in if maxRectWidth < w \<or> maxRectSize < w * h
               then (let subrectMaxWidth = (if maxRectWidth < w then maxRectWidth else w);
                         subrectMaxHeight = maxRectSize div subrectMaxWidth
                     in ((w - 1) div maxRectWidth + 1) * ((h - 1) div subrectMaxHeight + 1))
               else 1))"

fun tight_count :: "bool \<Rightarrow> nat \<Rightarrow> sraRect list \<Rightarrow> int \<Rightarrow> int" where
  "tight_count lastRect level [] n = n"
| "tight_count lastRect level (r # rs) n =
     (let m = rfbNumCodedRectsTight lastRect level (rect_w r) (rect_h r)
      in if m = 0 then 0xFFFF else tight_count lastRect level rs (n + m))"

definition ENC_CoRRE :: int where "ENC_CoRRE = 4"
definition ENC_RRE :: int where "ENC_RRE = 2"
definition ENC_Hextile :: int where "ENC_Hextile = 5"
definition ENC_Zlib :: int where "ENC_Zlib = 6"
definition ENC_Tight :: int where "ENC_Tight = 7"
definition ENC_Ultra :: int where "ENC_Ultra = 9"

definition count_update :: "send_client \<Rightarrow> sraRegion \<Rightarrow> int" where
  "count_update cl rgn =
     (if preferredEncoding cl = ENC_CoRRE
      then sum_list (map (corre_count (correMaxWidth cl) (correMaxHeight cl)) (region_rects rgn))
      else if preferredEncoding cl = ENC_Ultra \<or> preferredEncoding cl = ENC_Zlib
      then sum_list (map strip_count (region_rects rgn))
      else if preferredEncoding cl = ENC_Tight
      then tight_count (enableLastRectEncoding cl) (tightCompressLevel cl) (region_rects rgn) 0
      else int (sraRgnCountRects rgn))"

text \<open>Too many rectangles are replaced by their bounding box, where the encoder does not split them.\<close>

definition limit_rects :: "int \<Rightarrow> send_client \<Rightarrow> sraRegion \<Rightarrow> sraRegion \<times> int" where
  "limit_rects maxRects cl rgn =
     (let n = count_update cl rgn
      in if n \<noteq> 0xFFFF \<and> 0 < maxRects \<and>
            preferredEncoding cl \<notin> {ENC_CoRRE, ENC_Ultra, ENC_Zlib, ENC_Tight} \<and> maxRects < n
         then (let rgn = sraRgnBBox (Some rgn) in (rgn, int (sraRgnCountRects rgn)))
         else (rgn, n))"

section \<open>Sending\<close>

definition int_header :: "int \<Rightarrow> int \<Rightarrow> int \<Rightarrow> int \<Rightarrow> uint32_t \<Rightarrow> uint8_t list" where
  "int_header x y w h encoding =
     wire16 (word_of_int x) @ wire16 (word_of_int y) @ wire16 (word_of_int w) @ wire16 (word_of_int h) @
     wire32 encoding"

text \<open>There is no test for room in the update buffer.\<close>

definition put_copy :: "int \<Rightarrow> int \<Rightarrow> sraRect \<Rightarrow> update_state \<Rightarrow> update_state" where
  "put_copy dx dy r =
     put_bytes (int_header (rx1 r) (ry1 r) (rect_w r) (rect_h r) rfbEncodingCopyRect @
       wire16 (word_of_int (rx1 r - dx)) @ wire16 (word_of_int (ry1 r - dy)))"

definition rfbSendCopyRegion :: "sraRegion \<Rightarrow> int \<Rightarrow> int \<Rightarrow> update_state \<Rightarrow> update_state" where
  "rfbSendCopyRegion reg dx dy cl =
     fold (put_copy dx dy) (iterator_rects (sraRgnGetReverseIterator reg (0 < dx) (0 < dy))) cl"

text \<open>
  One rectangle in the preferred encoding. \<open>other\<close> stands for the encoders that are not part of
  this development; a number without a case sends nothing.
\<close>

definition encode_rect ::
    "(int \<Rightarrow> nat \<Rightarrow> nat \<Rightarrow> nat \<Rightarrow> nat \<Rightarrow> update_state \<Rightarrow> bool \<times> update_state) \<Rightarrow> (nat \<Rightarrow> nat \<Rightarrow> 'c::len word) \<Rightarrow>
     nat \<Rightarrow> nat \<Rightarrow> nat \<Rightarrow> send_client \<Rightarrow> sraRect \<Rightarrow> update_state \<Rightarrow> bool \<times> update_state" where
  "encode_rect other fb sw sh bufSize cl r out =
     (let x = nat (rx1 r); y = nat (ry1 r); w = nat (rect_w r); h = nat (rect_h r);
          enc = preferredEncoding cl
      in if enc = -1 \<or> enc = 0 then rfbSendRectEncodingRaw fb x y w h out
         else if enc = ENC_RRE then rfbSendRectEncodingRRE fb sw sh bufSize x y w h out
         else if enc = ENC_CoRRE
         then rfbSendRectEncodingCoRRE fb sw sh bufSize (nat (correMaxWidth cl)) (nat (correMaxHeight cl)) x y w h out
         else if enc = ENC_Hextile then rfbSendRectEncodingHextile fb x y w h out
         else if enc \<in> {6, 7, 9, 16, 17} then other enc x y w h out
         else (True, out))"

fun send_rects :: "(sraRect \<Rightarrow> update_state \<Rightarrow> bool \<times> update_state) \<Rightarrow> sraRect list \<Rightarrow> update_state \<Rightarrow> bool \<times> update_state" where
  "send_rects enc [] out = (True, out)"
| "send_rects enc (r # rs) out =
     (let (ok, out) = enc r out in if \<not> ok then (False, out) else send_rects enc rs out)"

record send_flags =
  sendCursorShape :: bool
  sendCursorPos :: bool
  sendKeyboardLedState :: bool
  sendSupportedMessages :: bool
  sendSupportedEncodings :: bool
  sendServerIdentity :: bool

text \<open>What else is due; the three requests about the server are served once.\<close>

definition take_flags :: "int option \<Rightarrow> send_client \<Rightarrow> send_flags \<times> send_client" where
  "take_flags led cl =
     (let u = regions cl;
          ledDue = (enableKeyboardLedState cl \<and> (case led of None \<Rightarrow> False | Some x \<Rightarrow> x \<noteq> lastKeyboardLedState cl))
      in (\<lparr>sendCursorShape = enableCursorShapeUpdates u \<and> cursorWasChanged cl \<and> readyForSetColourMapEntries cl,
           sendCursorPos = enableCursorPosUpdates u \<and> cursorWasMoved u,
           sendKeyboardLedState = ledDue,
           sendSupportedMessages = enableSupportedMessages cl,
           sendSupportedEncodings = enableSupportedEncodings cl,
           sendServerIdentity = enableServerIdentity cl\<rparr>,
          cl\<lparr>lastKeyboardLedState := (if ledDue then the led else lastKeyboardLedState cl),
             enableSupportedMessages := False, enableSupportedEncodings := False, enableServerIdentity := False\<rparr>))"

definition flag_count :: "send_flags \<Rightarrow> int" where
  "flag_count f = of_bool (sendCursorShape f) + of_bool (sendCursorPos f) + of_bool (sendKeyboardLedState f) +
     of_bool (sendSupportedMessages f) + of_bool (sendSupportedEncodings f) + of_bool (sendServerIdentity f)"

definition on_out :: "bool \<Rightarrow> (update_state \<Rightarrow> bool \<times> update_state) \<Rightarrow> bool \<times> send_client \<Rightarrow> bool \<times> send_client" where
  "on_out due f st =
     (let (ok, cl) = st
      in if ok \<and> due then (let (ok, out) = f (outb cl) in (ok, cl\<lparr>outb := out\<rparr>)) else (ok, cl))"

text \<open>The pseudo-rectangles, each only after the one before it was sent.\<close>

definition send_pseudo ::
    "('s::len word \<Rightarrow> 'c::len word) \<Rightarrow> 's word send_settings \<Rightarrow> send_flags \<Rightarrow> 's word server_screen \<Rightarrow> send_client \<Rightarrow>
     (bool \<times> 's word server_screen \<times> send_client) option" where
  "send_pseudo tr st f s cl =
     do { (ok, s, cl) \<leftarrow>
            (if sendCursorShape f
             then (let cl = cl\<lparr>cursorWasChanged := False\<rparr>
                   in do { (ok, s, out) \<leftarrow> rfbSendCursorShape tr (useRichCursorEncoding cl) s (outb cl);
                           Some (ok, s, cl\<lparr>outb := out\<rparr>) })
             else Some (True, s, cl));
          (let cl = (if ok \<and> sendCursorPos f then cl\<lparr>regions := (regions cl)\<lparr>cursorWasMoved := False\<rparr>\<rparr> else cl);
               r = on_out (sendCursorPos f) (rfbSendCursorPos (ss_cursorX s) (ss_cursorY s)) (ok, cl);
               r = on_out (sendKeyboardLedState f) (rfbSendKeyboardLedState (lastKeyboardLedState cl)) r;
               r = on_out (sendSupportedMessages f) rfbSendSupportedMessages r;
               r = on_out (sendSupportedEncodings f) rfbSendSupportedEncodings r;
               (ok, cl) = on_out (sendServerIdentity f) (rfbSendServerIdentity (versionString st)) r
           in Some (ok, s, cl)) }"

definition send_pixels ::
    "(sraRect \<Rightarrow> update_state \<Rightarrow> bool \<times> update_state) \<Rightarrow> sraRegion \<Rightarrow> int \<Rightarrow> int \<Rightarrow> sraRegion \<Rightarrow> bool \<Rightarrow>
     update_state \<Rightarrow> bool \<times> update_state" where
  "send_pixels enc copyRgn dx dy rgn lastRect out =
     (let out = (if \<not> sraRgnEmpty copyRgn then rfbSendCopyRegion copyRgn dx dy out else out);
          (ok, out) = send_rects enc (region_rects rgn) out
      in if \<not> ok then (False, out)
         else (let (ok, out) = (if lastRect then rfbSendLastRectMarker out else (True, out))
               in if \<not> ok then (False, out) else rfbSendUpdateBuf out))"

section \<open>rfbSendFramebufferUpdate\<close>

definition update_header :: "uint8_t \<Rightarrow> uint16_t \<Rightarrow> uint8_t list" where
  "update_header p nRects = [0, p] @ wire16 nRects"

text \<open>The cursor of a client that does not draw it itself has moved: both places are sent again.\<close>

definition follow_cursor :: "'p server_screen \<Rightarrow> sraRegion \<times> update_client \<Rightarrow> sraRegion \<times> update_client" where
  "follow_cursor s ru =
     (let (rgn, u) = ru
      in if uc_cursorX u \<noteq> ss_cursorX s \<or> uc_cursorY u \<noteq> ss_cursorY s
         then (let rgn = rfbRedrawAfterHideCursor (uc_cursorX u) (uc_cursorY u) s rgn;
                   u = u\<lparr>uc_cursorX := ss_cursorX s, uc_cursorY := ss_cursorY s\<rparr>
               in (rfbRedrawAfterHideCursor (uc_cursorX u) (uc_cursorY u) s rgn, u))
         else (rgn, u))"

definition send_split ::
    "('s::len word \<Rightarrow> 'c::len word) \<Rightarrow> (int \<Rightarrow> nat \<Rightarrow> nat \<Rightarrow> nat \<Rightarrow> nat \<Rightarrow> update_state \<Rightarrow> bool \<times> update_state) \<Rightarrow>
     's word send_settings \<Rightarrow> send_flags \<Rightarrow> sraRegion \<times> sraRegion \<times> int \<times> int \<times> update_client \<Rightarrow>
     's word server_screen \<Rightarrow> send_client \<Rightarrow> (bool \<times> 's word server_screen \<times> send_client) option" where
  "send_split tr other st f parts s cl =
     (let (rgn, copyRgn, dx, dy, u) = parts;
          drawn = (\<not> enableCursorShapeUpdates u);
          (rgn, u) = (if drawn then follow_cursor s (rgn, u) else (rgn, u));
          cl = cl\<lparr>regions := u\<rparr>
      in do { s \<leftarrow> (if drawn then rfbShowCursor (heap st) (uc_cursorX u) (uc_cursorY u) s else Some s);
              (let (rgn, n) = limit_rects (maxRectsPerUpdate st) cl rgn;
                   nRects = (if n \<noteq> 0xFFFF then word_of_int (int (sraRgnCountRects copyRgn) + n + flag_count f) else 0xFFFF);
                   cl = cl\<lparr>outb := (outb cl)\<lparr>updateBuf := update_header (pad st) nRects\<rparr>\<rparr>
               in do { (ok, s, cl) \<leftarrow> send_pseudo tr st f s cl;
                       (let fb = (\<lambda>x y. tr (frameBuffer s (int x) (int y)));
                            (ok, out) = (if ok then send_pixels (encode_rect other fb (nat (ss_width s)) (nat (ss_height s))
                                                      (rreAfterBufSize st) cl) copyRgn dx dy rgn (n = 0xFFFF) (outb cl)
                                         else (False, outb cl));
                            s = (if drawn then rfbHideCursor (uc_cursorX u) (uc_cursorY u) s else s)
                        in Some (ok, s, cl\<lparr>outb := out\<rparr>)) }) })"

text \<open>What is due: the flags, the client with them taken, and the parts to be sent, if any.\<close>

definition update_parts ::
    "'p send_settings \<Rightarrow> sraRegion \<Rightarrow> 'p server_screen \<Rightarrow> send_client \<Rightarrow>
     send_flags \<times> send_client \<times> (sraRegion \<times> sraRegion \<times> int \<times> int \<times> update_client) option" where
  "update_parts st givenUpdateRegion s cl =
     (let (f, cl) = take_flags (ledState st) cl;
          cl = cl\<lparr>regions := forget_modified_copy (regions cl)\<rparr>;
          (rgn, y) = (if 0 < progressiveSliceHeight st
                      then progressive_slice (progressiveSliceHeight st) (ss_width s) (ss_height s)
                             (progressiveSliceY cl) (sraRgnCreateRgn givenUpdateRegion)
                      else (sraRgnCreateRgn givenUpdateRegion, progressiveSliceY cl));
          cl = cl\<lparr>progressiveSliceY := y\<rparr>;
          u = regions cl;
          idle = ((enableCursorShapeUpdates u \<or> (uc_cursorX u = ss_cursorX s \<and> uc_cursorY u = ss_cursorY s)) \<and>
                  flag_count f = 0)
      in (f, cl, split_update idle rgn u))"

definition rfbSendFramebufferUpdate ::
    "('s::len word \<Rightarrow> 'c::len word) \<Rightarrow> (int \<Rightarrow> nat \<Rightarrow> nat \<Rightarrow> nat \<Rightarrow> nat \<Rightarrow> update_state \<Rightarrow> bool \<times> update_state) \<Rightarrow>
     's word send_settings \<Rightarrow> sraRegion \<Rightarrow> 's word server_screen \<Rightarrow> send_client \<Rightarrow>
     (bool \<times> 's word server_screen \<times> send_client) option" where
  "rfbSendFramebufferUpdate tr other st givenUpdateRegion s cl =
     (if useNewFBSize (regions cl) \<and> newFBSizePending (regions cl)
      then (let out = (outb cl)\<lparr>updateBuf := update_header (pad st) 1\<rparr>;
                (ok, out) = rfbSendNewFBSize (ss_width s) (ss_height s) out;
                (ok, out) = (if \<not> ok then (False, out) else rfbSendUpdateBuf out)
            in Some (ok, s, cl\<lparr>regions := (regions cl)\<lparr>newFBSizePending := False\<rparr>, outb := out\<rparr>))
      else
        (let (f, cl, parts) = update_parts st givenUpdateRegion s cl
         in case parts of
              None \<Rightarrow> Some (True, s, cl)
            | Some parts \<Rightarrow> send_split tr other st f parts s cl))"

section \<open>What leads to an update\<close>

definition FB_UPDATE_PENDING :: "'p server_screen \<Rightarrow> send_client \<Rightarrow> bool" where
  "FB_UPDATE_PENDING s cl \<longleftrightarrow>
     (let u = regions cl
      in (enableCursorShapeUpdates u \<and> cursorWasChanged cl) \<or>
         (\<not> enableCursorShapeUpdates u \<and> (uc_cursorX u \<noteq> ss_cursorX s \<or> uc_cursorY u \<noteq> ss_cursorY s)) \<or>
         (useNewFBSize u \<and> newFBSizePending u) \<or> (enableCursorPosUpdates u \<and> cursorWasMoved u) \<or>
         \<not> sraRgnEmpty (copyRegion u) \<or> \<not> sraRgnEmpty (modifiedRegion u))"

definition redraw_cursor :: "'p server_screen \<Rightarrow> send_client \<Rightarrow> send_client" where
  "redraw_cursor s cl =
     (let u = regions cl
      in if \<not> enableCursorShapeUpdates u
         then cl\<lparr>regions := u\<lparr>modifiedRegion :=
                rfbRedrawAfterHideCursor (uc_cursorX u) (uc_cursorY u) s (modifiedRegion u)\<rparr>\<rparr>
         else cl)"

definition open_clients :: "(send_client \<Rightarrow> send_client) \<Rightarrow> send_client list \<Rightarrow> send_client list" where
  "open_clients f = map (\<lambda>cl. if 0 \<le> uc_sock (regions cl) then f cl else cl)"

definition rfbSetCursor ::
    "'p rfbCursor option \<Rightarrow> 'p server_screen \<times> send_client list \<Rightarrow> 'p server_screen \<times> send_client list" where
  "rfbSetCursor c st =
     (let (s, cls) = st;
          cls = (if ss_cursor s \<noteq> None then open_clients (redraw_cursor s) cls else cls);
          s = s\<lparr>ss_cursor := c\<rparr>
      in (s, open_clients (\<lambda>cl. redraw_cursor s (cl\<lparr>cursorWasChanged := True\<rparr>)) cls))"

end
