(* ===== verification/NormalMessages.thy ===== *)
theory NormalMessages
  imports SendUpdate Translate
begin

text \<open>
  What a client in a session may send: \<open>rfbProcessClientNormalMessage\<close> of \<open>libvncserver/rfbserver.c\<close>, with the
  enabling of protocol extensions (\<open>main.c\<close>) and the colour maps of clients (\<open>translate.c\<close>). Scaling
  the screen for a client and the transfer of files are arguments; statistics and the log are left
  out.
\<close>

section \<open>State\<close>

text \<open>
  The client, as the message code sees it: what updates depend on, the pixel format with its
  translation and the socket, and the rest. \<open>nm_scaled\<close> is the size of the scaled screen of the client, if
  it has another one than the server. \<open>nm_id\<close> stands for the address of the record.
\<close>

record normal_client =
  nm_id :: nat
  nm_send :: send_client
  nm_trans :: translate_client
  zlibCompressLevel :: nat
  tightQualityLevel :: nat
  PalmVNC :: bool
  lastPtrButtons :: uint8_t
  lastPtrX :: int
  lastPtrY :: int
  nm_scaled :: "(int \<times> int) option"
  extensions :: "nat list"

text \<open>Calls of the functions the application has given to the screen, in their order.\<close>

datatype host_call =
    kbdAddEvent nat uint8_t uint32_t
  | ptrAddEvent nat uint8_t int int
  | setXCutText nat "uint8_t list"
  | setSingleWindow nat nat nat
  | setServerInput nat uint8_t
  | setTextChat nat uint32_t "uint8_t list option"

record 'p normal_screen =
  ns_screen :: "'p server_screen"
  ns_translate :: translate_screen
  rfbEconomicTranslate :: bool
  dontConvertRichCursorToXCursor :: bool
  pointerClient :: "nat option"
  deferPtrUpdateTime :: int
  has_setSingleWindow :: bool
  has_setServerInput :: bool
  has_setTextChat :: bool
  calls :: "host_call list"

text \<open>
  An extension of the protocol: the list up to its final zero, and its functions, which get the
  client. \<open>mallocable n\<close> tells whether \<open>n\<close> bytes can be had.
\<close>

record extension =
  pseudoEncodings :: "uint32_t list"
  enablePseudoEncoding :: "(normal_client \<Rightarrow> uint32_t \<Rightarrow> bool \<times> normal_client) option"
  handleMessage :: "(normal_client \<Rightarrow> uint8_t \<Rightarrow> bool \<times> normal_client) option"

record normal_env =
  installed :: "extension list"
  mallocable :: "nat \<Rightarrow> bool"
  scale_point :: "int \<times> int \<Rightarrow> int \<times> int \<Rightarrow> int \<times> int"
  scale_rect :: "int \<times> int \<Rightarrow> int \<times> int \<times> int \<times> int \<Rightarrow> int \<times> int \<times> int \<times> int"
  scale_setup :: "int \<Rightarrow> int \<Rightarrow> normal_client \<Rightarrow> normal_client"
  file_transfer :: "uint8_t \<Rightarrow> uint8_t \<Rightarrow> uint32_t \<Rightarrow> uint32_t \<Rightarrow> normal_client \<Rightarrow> normal_client"

type_synonym 'p session = "'p normal_screen \<times> normal_client"

section \<open>Reading and closing\<close>

definition set_conn :: "rfbClientRec \<Rightarrow> normal_client \<Rightarrow> normal_client" where
  "set_conn k c = c\<lparr>nm_trans := (nm_trans c)\<lparr>conn := k\<rparr>\<rparr>"

text \<open>The socket is one field of the client; the parts of the state that look at it agree.\<close>

definition mark_closed :: "normal_client \<Rightarrow> normal_client" where
  "mark_closed c =
     c\<lparr>nm_send := (nm_send c)\<lparr>regions := (regions (nm_send c))\<lparr>uc_sock := -1\<rparr>,
                               outb := (outb (nm_send c))\<lparr>sock_open := False\<rparr>\<rparr>\<rparr>"

definition close_normal :: "normal_client \<Rightarrow> normal_client" where
  "close_normal c = mark_closed (set_conn (rfbCloseClient (conn (nm_trans c))) c)"

definition is_open :: "normal_client \<Rightarrow> bool" where
  "is_open c \<longleftrightarrow> 0 \<le> sock (conn (nm_trans c))"

text \<open>
  \<open>if ((n = rfbReadExact(...)) <= 0) { ... rfbCloseClient(cl); return; }\<close> before the rest \<open>k\<close> of a handler.
\<close>

definition reading ::
    "nat \<Rightarrow> (uint8_t list \<Rightarrow> 'p session \<Rightarrow> 'p session option) \<Rightarrow> 'p session \<Rightarrow> 'p session option" where
  "reading n k st =
     (let (s, c) = st
      in case rfbReadExact (conn (nm_trans c)) n of
           None \<Rightarrow> Some (s, close_normal c)
         | Some (bs, cn) \<Rightarrow> k bs (s, set_conn cn c))"

definition call_host :: "host_call \<Rightarrow> 'p normal_screen \<Rightarrow> 'p normal_screen" where
  "call_host h s = s\<lparr>calls := calls s @ [h]\<rparr>"

section \<open>SetPixelFormat\<close>

definition set_translation :: "translate_client \<Rightarrow> normal_client \<Rightarrow> normal_client" where
  "set_translation t c = (let c = c\<lparr>nm_trans := t\<rparr> in if sock (conn t) < 0 then mark_closed c else c)"

definition handle_SetPixelFormat :: "uint8_t list \<Rightarrow> 'p session \<Rightarrow> 'p session option" where
  "handle_SetPixelFormat msg st =
     (let (s, c) = st;
          t = (nm_trans c)\<lparr>format := unwire_format (drop 3 msg)\<rparr>;
          c = c\<lparr>nm_send := (nm_send c)\<lparr>readyForSetColourMapEntries := True\<rparr>\<rparr>
      in case rfbSetTranslateFunction (rfbEconomicTranslate s) (ns_translate s) t of
           None \<Rightarrow> None
         | Some (ok, t) \<Rightarrow> Some (s, set_translation t c))"

section \<open>SetEncodings\<close>

definition pixel_encodings :: "uint32_t list" where
  "pixel_encodings = [rfbEncodingRaw, rfbEncodingRRE, rfbEncodingCoRRE, rfbEncodingHextile, rfbEncodingUltra,
     rfbEncodingZlib, rfbEncodingZRLE, rfbEncodingZYWRLE, rfbEncodingTight]"

definition reset_encodings :: "normal_client \<Rightarrow> normal_client" where
  "reset_encodings c =
     (let n = nm_send c
      in c\<lparr>nm_send := n\<lparr>preferredEncoding := -1, cursorWasChanged := False, useRichCursorEncoding := False,
             enableLastRectEncoding := False, enableKeyboardLedState := False, enableSupportedMessages := False,
             enableSupportedEncodings := False, enableServerIdentity := False,
             regions := (regions n)\<lparr>useCopyRect := False, useNewFBSize := False,
               enableCursorPosUpdates := False, enableCursorShapeUpdates := False\<rparr>\<rparr>\<rparr>)"

text \<open>Extensions that are enabled for the client come first, then those that only claim the number.\<close>

definition rfbEnableExtension :: "nat \<Rightarrow> normal_client \<Rightarrow> bool \<times> normal_client" where
  "rfbEnableExtension e c = (if e \<in> set (extensions c) then (False, c) else (True, c\<lparr>extensions := e # extensions c\<rparr>))"

definition rfbDisableExtension :: "nat \<Rightarrow> normal_client \<Rightarrow> bool \<times> normal_client" where
  "rfbDisableExtension e c =
     (if e \<in> set (extensions c) then (True, c\<lparr>extensions := remove1 e (extensions c)\<rparr>) else (False, c))"

fun ask_enabled :: "extension list \<Rightarrow> uint32_t \<Rightarrow> nat list \<Rightarrow> normal_client \<Rightarrow> bool \<times> normal_client" where
  "ask_enabled exts enc [] c = (False, c)"
| "ask_enabled exts enc (e # es) c =
     (case enablePseudoEncoding (exts ! e) of
        None \<Rightarrow> ask_enabled exts enc es c
      | Some f \<Rightarrow> (let (ok, c) = f c enc in if ok then (True, c) else ask_enabled exts enc es c))"

text \<open>
  The result is \<open>None\<close> when an extension has the number in its list but no function, which the code
  calls all the same.
\<close>

fun ask_claiming :: "uint32_t \<Rightarrow> nat \<Rightarrow> extension \<Rightarrow> uint32_t list \<Rightarrow> normal_client \<Rightarrow> (bool \<times> normal_client) option" where
  "ask_claiming enc e x [] c = Some (False, c)"
| "ask_claiming enc e x (p # ps) c =
     (if p = enc
      then (case enablePseudoEncoding x of
              None \<Rightarrow> None
            | Some f \<Rightarrow>
                (let (ok, c) = f c enc
                 in if \<not> ok then ask_claiming enc e x ps c else Some (True, snd (rfbEnableExtension e c))))
      else ask_claiming enc e x ps c)"

fun ask_installed :: "uint32_t \<Rightarrow> (nat \<times> extension) list \<Rightarrow> normal_client \<Rightarrow> normal_client option" where
  "ask_installed enc [] c = Some c"
| "ask_installed enc ((e, x) # es) c =
     (case ask_claiming enc e x (pseudoEncodings x) c of
        None \<Rightarrow> None
      | Some (handled, c) \<Rightarrow> if handled then Some c else ask_installed enc es c)"

definition other_encoding :: "extension list \<Rightarrow> uint32_t \<Rightarrow> normal_client \<Rightarrow> normal_client option" where
  "other_encoding exts enc c =
     (if rfbEncodingCompressLevel0 \<le> enc \<and> enc \<le> rfbEncodingCompressLevel9
      then Some (c\<lparr>zlibCompressLevel := unat (enc AND 0x0F),
                   nm_send := (nm_send c)\<lparr>tightCompressLevel := unat (enc AND 0x0F)\<rparr>\<rparr>)
      else if rfbEncodingQualityLevel0 \<le> enc \<and> enc \<le> rfbEncodingQualityLevel9
      then Some (c\<lparr>tightQualityLevel := unat (enc AND 0x0F)\<rparr>)
      else (let (handled, c) = ask_enabled exts enc (extensions c) c
            in if handled then Some c else ask_installed enc (zip [0..<length exts] exts) c))"

definition shape_updates :: "'p server_screen \<Rightarrow> bool \<Rightarrow> normal_client \<Rightarrow> normal_client" where
  "shape_updates s rich c =
     (let n = redraw_cursor s (nm_send c);
          n = n\<lparr>regions := (regions n)\<lparr>enableCursorShapeUpdates := True\<rparr>, cursorWasChanged := True\<rparr>
      in c\<lparr>nm_send := if rich then n\<lparr>useRichCursorEncoding := True\<rparr> else n\<rparr>)"

text \<open>One number of the list.\<close>

definition apply_encoding :: "normal_env \<Rightarrow> 'p normal_screen \<Rightarrow> uint32_t \<Rightarrow> normal_client \<Rightarrow> normal_client option" where
  "apply_encoding env s enc c =
     (let n = nm_send c; u = regions n
      in if enc = rfbEncodingCopyRect then Some (c\<lparr>nm_send := n\<lparr>regions := u\<lparr>useCopyRect := True\<rparr>\<rparr>\<rparr>)
         else if enc \<in> set pixel_encodings
         then Some (if preferredEncoding n = -1 then c\<lparr>nm_send := n\<lparr>preferredEncoding := uint enc\<rparr>\<rparr> else c)
         else if enc = rfbEncodingXCursor
         then Some (if \<not> dontConvertRichCursorToXCursor s then shape_updates (ns_screen s) False c else c)
         else if enc = rfbEncodingRichCursor then Some (shape_updates (ns_screen s) True c)
         else if enc = rfbEncodingPointerPos
         then Some (if \<not> enableCursorPosUpdates u
                    then c\<lparr>nm_send := n\<lparr>regions := u\<lparr>enableCursorPosUpdates := True, cursorWasMoved := True\<rparr>\<rparr>\<rparr> else c)
         else if enc = rfbEncodingLastRect then Some (c\<lparr>nm_send := n\<lparr>enableLastRectEncoding := True\<rparr>\<rparr>)
         else if enc = rfbEncodingNewFBSize then Some (c\<lparr>nm_send := n\<lparr>regions := u\<lparr>useNewFBSize := True\<rparr>\<rparr>\<rparr>)
         else if enc = rfbEncodingKeyboardLedState then Some (c\<lparr>nm_send := n\<lparr>enableKeyboardLedState := True\<rparr>\<rparr>)
         else if enc = rfbEncodingSupportedMessages then Some (c\<lparr>nm_send := n\<lparr>enableSupportedMessages := True\<rparr>\<rparr>)
         else if enc = rfbEncodingSupportedEncodings then Some (c\<lparr>nm_send := n\<lparr>enableSupportedEncodings := True\<rparr>\<rparr>)
         else if enc = rfbEncodingServerIdentity then Some (c\<lparr>nm_send := n\<lparr>enableServerIdentity := True\<rparr>\<rparr>)
         else other_encoding (installed env) enc c)"

definition finish_encodings :: "int \<Rightarrow> normal_client \<Rightarrow> normal_client" where
  "finish_encodings lastPreferredEncoding c =
     (let n = nm_send c;
          n = (if preferredEncoding n = -1
               then n\<lparr>preferredEncoding := if lastPreferredEncoding = -1 then uint rfbEncodingRaw else lastPreferredEncoding\<rparr>
               else n);
          u = regions n;
          u = (if enableCursorPosUpdates u \<and> \<not> enableCursorShapeUpdates u then u\<lparr>enableCursorPosUpdates := False\<rparr> else u)
      in c\<lparr>nm_send := n\<lparr>regions := u\<rparr>\<rparr>)"

fun read_encodings :: "normal_env \<Rightarrow> int \<Rightarrow> nat \<Rightarrow> 'p session \<Rightarrow> 'p session option" where
  "read_encodings env lastPref 0 st = (let (s, c) = st in Some (s, finish_encodings lastPref c))"
| "read_encodings env lastPref (Suc n) st =
     reading 4 (\<lambda>bs (s, c). case apply_encoding env s (unwire32 bs) c of
       None \<Rightarrow> None | Some c \<Rightarrow> read_encodings env lastPref n (s, c)) st"

definition handle_SetEncodings :: "normal_env \<Rightarrow> uint8_t list \<Rightarrow> 'p session \<Rightarrow> 'p session option" where
  "handle_SetEncodings env msg st =
     (let (s, c) = st; lastPref = preferredEncoding (nm_send c)
      in read_encodings env lastPref (unat (unwire16 (drop 1 msg))) (s, reset_encodings c))"

section \<open>FramebufferUpdateRequest\<close>

text \<open>
  Places of the client's screen in that of the server. A client without a scaled screen has the
  same coordinates.
\<close>

definition to_screen :: "normal_env \<Rightarrow> normal_client \<Rightarrow> int \<times> int \<Rightarrow> int \<times> int" where
  "to_screen env c p = (case nm_scaled c of None \<Rightarrow> p | Some wh \<Rightarrow> scale_point env wh p)"

definition rect_to_screen :: "normal_env \<Rightarrow> normal_client \<Rightarrow> int \<times> int \<times> int \<times> int \<Rightarrow> int \<times> int \<times> int \<times> int" where
  "rect_to_screen env c r = (case nm_scaled c of None \<Rightarrow> r | Some wh \<Rightarrow> scale_rect env wh r)"

definition u16 :: "int \<Rightarrow> int" where "u16 v = v mod 65536"

text \<open>One axis: position and extent are kept in 16 bits.\<close>

definition clip_axis :: "int \<Rightarrow> int \<Rightarrow> int \<Rightarrow> int \<times> bool" where
  "clip_axis extent x w = (let w = (if extent - x < w then u16 (extent - x) else w) in (w, \<not> extent - x < w))"

definition rectSwapIfLEAndClip ::
    "normal_env \<Rightarrow> 'p server_screen \<Rightarrow> normal_client \<Rightarrow> int \<times> int \<times> int \<times> int \<Rightarrow> (int \<times> int \<times> int \<times> int) option" where
  "rectSwapIfLEAndClip env s c r =
     (let (x1, y1, w1, h1) = rect_to_screen env c r;
          x = u16 x1; y = u16 y1;
          (w, okw) = clip_axis (ss_width s) x (u16 w1);
          (h, okh) = clip_axis (ss_height s) y (u16 h1)
      in if okw \<and> okh then Some (x, y, w, h) else None)"

text \<open>
  \<open>rfbSendSetColourMapEntries\<close>: \<open>junk\<close> are the bytes found in the buffer, which are sent for the padding and for
  colours beyond the end of the map.
\<close>

definition colour_bytes :: "rfbColourMap \<Rightarrow> (nat \<Rightarrow> uint8_t) \<Rightarrow> nat \<Rightarrow> uint8_t list" where
  "colour_bytes cm junk i =
     (if i < cm_count cm then concat (map (\<lambda>k. wire16 (word_of_nat (cm_data cm ! (3 * i + k)))) [0..<3])
      else map (\<lambda>k. junk (6 + 6 * i + k)) [0..<6])"

definition rfbSendSetColourMapEntries ::
    "rfbColourMap \<Rightarrow> (nat \<Rightarrow> uint8_t) \<Rightarrow> nat \<Rightarrow> nat \<Rightarrow> normal_client \<Rightarrow> bool \<times> normal_client" where
  "rfbSendSetColourMapEntries cm junk firstColour nColours c =
     (let (ok, cn) = rfbWriteExact (conn (nm_trans c))
            ([rfbSetColourMapEntries, junk 1] @ wire16 (word_of_nat firstColour) @ wire16 (word_of_nat nColours) @
             concat (map (colour_bytes cm junk) [0..<nColours]));
          c = set_conn cn c
      in if \<not> ok then (False, close_normal c) else (True, c))"

definition rfbSetClientColourMap ::
    "(nat \<Rightarrow> uint8_t) \<Rightarrow> nat \<Rightarrow> nat \<Rightarrow> 'p normal_screen \<Rightarrow> normal_client \<Rightarrow> bool \<times> normal_client" where
  "rfbSetClientColourMap junk firstColour nColours s c =
     (let sf = ts_serverFormat (ns_translate s); cm = colourMap (ns_translate s); t = nm_trans c; n = nm_send c
      in if trueColour sf \<or> \<not> readyForSetColourMapEntries n then (True, c)
         else (let nColours = (if nColours = 0 then cm_count cm else nColours)
               in if trueColour (format t)
                  then (True, c\<lparr>nm_trans := t\<lparr>translateFn := TranslateWithSingleTable (unat (bitsPerPixel sf))
                                  (unat (bitsPerPixel (format t))) (colour_map_table sf (format t) cm)\<rparr>,
                                nm_send := n\<lparr>regions := (regions n)\<lparr>modifiedRegion :=
                                  sraRgnCreateRect 0 0 (ss_width (ns_screen s)) (ss_height (ns_screen s))\<rparr>\<rparr>\<rparr>)
                  else rfbSendSetColourMapEntries cm junk firstColour nColours c))"

definition request_region :: "bool \<Rightarrow> sraRegion \<Rightarrow> update_client \<Rightarrow> update_client" where
  "request_region incremental r u =
     (if incremental then u
      else u\<lparr>modifiedRegion := sraRgnOr (modifiedRegion u) r, copyRegion := fst (sraRgnSubtract (copyRegion u) r)\<rparr>)"

definition on_regions :: "(update_client \<Rightarrow> update_client) \<Rightarrow> normal_client \<Rightarrow> normal_client" where
  "on_regions f c = c\<lparr>nm_send := (nm_send c)\<lparr>regions := f (regions (nm_send c))\<rparr>\<rparr>"

definition handle_FramebufferUpdateRequest ::
    "normal_env \<Rightarrow> (nat \<Rightarrow> uint8_t) \<Rightarrow> uint8_t list \<Rightarrow> 'p session \<Rightarrow> 'p session option" where
  "handle_FramebufferUpdateRequest env junk msg st =
     (let (s, c) = st;
          field = (\<lambda>k. uint (unwire16 (drop k msg)))
      in case rectSwapIfLEAndClip env (ns_screen s) c (field 1, field 3, field 5, field 7) of
           None \<Rightarrow> Some (s, c)
         | Some (x, y, w, h) \<Rightarrow>
            (let r = sraRgnCreateRect x y (x + w) (y + h);
                 c = on_regions (\<lambda>u. u\<lparr>requestedRegion := sraRgnOr (requestedRegion u) r\<rparr>) c;
                 (ok, c) =
                   (if \<not> readyForSetColourMapEntries (nm_send c)
                    then (let c = c\<lparr>nm_send := (nm_send c)\<lparr>readyForSetColourMapEntries := True\<rparr>\<rparr>
                          in if \<not> trueColour (format (nm_trans c)) then rfbSetClientColourMap junk 0 0 s c else (True, c))
                    else (True, c))
             in if \<not> ok then Some (s, c) else Some (s, on_regions (request_region (msg ! 0 \<noteq> 0) r) c)))"

section \<open>Input\<close>

definition handle_KeyEvent :: "uint8_t list \<Rightarrow> 'p session \<Rightarrow> 'p session option" where
  "handle_KeyEvent msg st =
     (let (s, c) = st
      in Some (if \<not> viewOnly (conn (nm_trans c)) then call_host (kbdAddEvent (nm_id c) (msg ! 0) (unwire32 (drop 3 msg))) s else s, c))"

definition handle_PointerEvent :: "normal_env \<Rightarrow> uint8_t list \<Rightarrow> 'p session \<Rightarrow> 'p session option" where
  "handle_PointerEvent env msg st =
     (let (s, c) = st; buttonMask = msg ! 0;
          (x, y) = to_screen env c (uint (unwire16 (drop 1 msg)), uint (unwire16 (drop 3 msg)))
      in if pointerClient s \<noteq> None \<and> pointerClient s \<noteq> Some (nm_id c) then Some (s, c)
         else
           (let s = s\<lparr>pointerClient := if buttonMask = 0 then None else Some (nm_id c)\<rparr>
            in if viewOnly (conn (nm_trans c)) then Some (s, c)
               else if buttonMask \<noteq> lastPtrButtons c \<or> deferPtrUpdateTime s = 0
               then Some (call_host (ptrAddEvent (nm_id c) buttonMask x y) s, c\<lparr>lastPtrButtons := buttonMask\<rparr>)
               else Some (s, c\<lparr>lastPtrX := x, lastPtrY := y, lastPtrButtons := buttonMask\<rparr>)))"

definition handle_ClientCutText :: "normal_env \<Rightarrow> uint8_t list \<Rightarrow> 'p session \<Rightarrow> 'p session option" where
  "handle_ClientCutText env msg st =
     (let (s, c) = st; len = unat (unwire32 (drop 3 msg))
      in if 0 < len \<and> \<not> mallocable env len then Some (s, close_normal c)
         else reading len (\<lambda>str (s, c). Some (if \<not> viewOnly (conn (nm_trans c)) then call_host (setXCutText (nm_id c) str) s else s, c)) (s, c))"

section \<open>UltraVNC\<close>

definition handle_FileTransfer :: "normal_env \<Rightarrow> uint8_t list \<Rightarrow> 'p session \<Rightarrow> 'p session option" where
  "handle_FileTransfer env msg st =
     (let (s, c) = st in Some (s, file_transfer env (msg ! 0) (msg ! 1) (unwire32 (drop 3 msg)) (unwire32 (drop 7 msg)) c))"

definition handle_SetSW :: "uint8_t list \<Rightarrow> 'p session \<Rightarrow> 'p session option" where
  "handle_SetSW msg st =
     (let (s, c) = st
      in Some (if has_setSingleWindow s
               then call_host (setSingleWindow (nm_id c) (unat (unwire16 (drop 1 msg))) (unat (unwire16 (drop 3 msg)))) s else s, c))"

definition handle_SetServerInput :: "uint8_t list \<Rightarrow> 'p session \<Rightarrow> 'p session option" where
  "handle_SetServerInput msg st =
     (let (s, c) = st in Some (if has_setServerInput s then call_host (setServerInput (nm_id c) (msg ! 0)) s else s, c))"

definition chat :: "uint32_t \<Rightarrow> uint8_t list option \<Rightarrow> 'p session \<Rightarrow> 'p session option" where
  "chat len str st = (let (s, c) = st in Some (if has_setTextChat s then call_host (setTextChat (nm_id c) len str) s else s, c))"

definition handle_TextChat :: "normal_env \<Rightarrow> uint8_t list \<Rightarrow> 'p session \<Rightarrow> 'p session option" where
  "handle_TextChat env msg st =
     (let (s, c) = st; len = unwire32 (drop 3 msg)
      in if len = rfbTextChatOpen \<or> len = rfbTextChatClose \<or> len = rfbTextChatFinished then chat len None st
         else if 0 < len \<and> unat len < rfbTextMaxSize
         then (if \<not> mallocable env (unat len) then Some (s, close_normal c)
               else reading (unat len) (\<lambda>str. chat len (Some str)) st)
         else Some (s, close_normal c))"

text \<open>The scale is not tested before the division.\<close>

definition handle_SetScale :: "normal_env \<Rightarrow> uint8_t list \<Rightarrow> 'p session \<Rightarrow> 'p session option" where
  "handle_SetScale env msg st =
     (let (s, c) = st; scale = uint (msg ! 0)
      in if scale = 0 then None
         else Some (s, scale_setup env (ss_width (ns_screen s) div scale) (ss_height (ns_screen s) div scale) c))"

section \<open>The message\<close>

fun ask_message :: "extension list \<Rightarrow> uint8_t \<Rightarrow> nat list \<Rightarrow> normal_client \<Rightarrow> bool \<times> normal_client" where
  "ask_message exts ty [] c = (False, c)"
| "ask_message exts ty (e # es) c =
     (case handleMessage (exts ! e) of
        None \<Rightarrow> ask_message exts ty es c
      | Some f \<Rightarrow> (let (ok, c) = f c ty in if ok then (True, c) else ask_message exts ty es c))"

definition unknown_message :: "normal_env \<Rightarrow> uint8_t \<Rightarrow> 'p session \<Rightarrow> 'p session option" where
  "unknown_message env ty st =
     (let (s, c) = st; (ok, c) = ask_message (installed env) ty (extensions c) c
      in Some (s, if ok then c else close_normal c))"

text \<open>The message after its first byte; each handler reads the rest of its structure.\<close>

definition handle_message ::
    "normal_env \<Rightarrow> (nat \<Rightarrow> uint8_t) \<Rightarrow> uint8_t \<Rightarrow> 'p session \<Rightarrow> 'p session option" where
  "handle_message env junk ty st =
     (if ty = rfbSetPixelFormat then reading (sz_rfbSetPixelFormatMsg - 1) handle_SetPixelFormat st
      else if ty = rfbFixColourMapEntries then reading (sz_rfbFixColourMapEntriesMsg - 1) (\<lambda>msg (s, c). Some (s, close_normal c)) st
      else if ty = rfbSetEncodings then reading (sz_rfbSetEncodingsMsg - 1) (handle_SetEncodings env) st
      else if ty = rfbFramebufferUpdateRequest then reading (sz_rfbFramebufferUpdateRequestMsg - 1) (handle_FramebufferUpdateRequest env junk) st
      else if ty = rfbKeyEvent then reading (sz_rfbKeyEventMsg - 1) handle_KeyEvent st
      else if ty = rfbPointerEvent then reading (sz_rfbPointerEventMsg - 1) (handle_PointerEvent env) st
      else if ty = rfbClientCutText then reading (sz_rfbClientCutTextMsg - 1) (handle_ClientCutText env) st
      else if ty = rfbFileTransfer then reading (sz_rfbFileTransferMsg - 1) (handle_FileTransfer env) st
      else if ty = rfbSetScale then reading (sz_rfbSetScaleMsg - 1) (handle_SetScale env) st
      else if ty = rfbSetServerInput then reading (sz_rfbSetServerInputMsg - 1) handle_SetServerInput st
      else if ty = rfbSetSW then reading (sz_rfbSetSWMsg - 1) handle_SetSW st
      else if ty = rfbTextChat then reading (sz_rfbTextChatMsg - 1) (handle_TextChat env) st
      else if ty = rfbPalmVNCSetScaleFactor
      then reading (sz_rfbSetScaleMsg - 1) (handle_SetScale env) (fst st, (snd st)\<lparr>PalmVNC := True\<rparr>)
      else unknown_message env ty st)"

definition rfbProcessClientNormalMessage ::
    "normal_env \<Rightarrow> (nat \<Rightarrow> uint8_t) \<Rightarrow> 'p session \<Rightarrow> 'p session option" where
  "rfbProcessClientNormalMessage env junk st = reading 1 (\<lambda>ty. handle_message env junk (ty ! 0)) st"

section \<open>Messages to all clients\<close>

text \<open>\<open>rfbSendBell\<close>, \<open>rfbSendServerCutText\<close>, \<open>rfbSetClientColourMaps\<close>: the iterator passes over closed clients.\<close>

definition send_to :: "uint8_t list list \<Rightarrow> normal_client \<Rightarrow> normal_client" where
  "send_to parts c =
     snd (fold (\<lambda>bs (ok, c). if \<not> ok then (False, c)
       else (let (ok, cn) = rfbWriteExact (conn (nm_trans c)) bs; c = set_conn cn c
             in if \<not> ok then (False, close_normal c) else (True, c))) parts (True, c))"

definition all_open :: "(normal_client \<Rightarrow> normal_client) \<Rightarrow> normal_client list \<Rightarrow> normal_client list" where
  "all_open f cs = map (\<lambda>c. if is_open c then f c else c) cs"

definition rfbSendBell :: "normal_client list \<Rightarrow> normal_client list" where
  "rfbSendBell cs = all_open (send_to [[rfbBell]]) cs"

definition rfbSendServerCutText :: "(nat \<Rightarrow> uint8_t) \<Rightarrow> uint8_t list \<Rightarrow> normal_client list \<Rightarrow> normal_client list" where
  "rfbSendServerCutText junk str cs = all_open (send_to [[rfbServerCutText, junk 1, junk 2, junk 3] @ wire32 (word_of_nat (length str)), str]) cs"

definition rfbSetClientColourMaps ::
    "(nat \<Rightarrow> uint8_t) \<Rightarrow> nat \<Rightarrow> nat \<Rightarrow> 'p normal_screen \<Rightarrow> normal_client list \<Rightarrow> normal_client list" where
  "rfbSetClientColourMaps junk firstColour nColours s cs = all_open (\<lambda>c. snd (rfbSetClientColourMap junk firstColour nColours s c)) cs"

section \<open>UDP\<close>

text \<open>
  \<open>rfbProcessUDPInput\<close>: a whole packet at once, \<open>None\<close> when reading fails. The result tells whether the
  socket stays connected.
\<close>

definition rfbProcessUDPInput :: "uint8_t list option \<Rightarrow> 'p session \<Rightarrow> bool \<times> 'p session" where
  "rfbProcessUDPInput packet st =
     (let (s, c) = st
      in if onHold (regions (nm_send c)) then (True, st)
         else (case packet of
                 None \<Rightarrow> (False, st)
               | Some msg \<Rightarrow>
                  (if msg = [] then (False, st)
                   else if msg ! 0 = rfbKeyEvent
                   then (if length msg \<noteq> sz_rfbKeyEventMsg then (False, st)
                         else (True, call_host (kbdAddEvent (nm_id c) (msg ! 1) (unwire32 (drop 4 msg))) s, c))
                   else if msg ! 0 = rfbPointerEvent
                   then (if length msg \<noteq> sz_rfbPointerEventMsg then (False, st)
                         else (True, call_host (ptrAddEvent (nm_id c) (msg ! 1) (uint (unwire16 (drop 2 msg)))
                                (uint (unwire16 (drop 4 msg)))) s, c))
                   else (False, st))))"

end
