(* ===== verification/NormalMessagesCorrect.thy ===== *)
theory NormalMessagesCorrect
  imports NormalMessages SendUpdateCorrect "HOL-Library.While_Combinator"
begin

text \<open>
  What the messages of a client may do: which calls they make, that a stream of them comes to an
  end, and what a request for an update does to the regions kept for the client.
\<close>

section \<open>Reading\<close>

lemma reading_cases:
  assumes "reading n k (s, c) = Some r"
  obtains (closed) "r = (s, close_normal c)"
  | (bytes) bs cn where "rfbReadExact (conn (nm_trans c)) n = Some (bs, cn)" "k bs (s, set_conn cn c) = Some r"
  using assms by (auto simp: reading_def split: option.splits)

lemma read_exact:
  assumes "rfbReadExact cl n = Some (bs, cl')"
  shows "inbuf cl = bs @ inbuf cl'" "length bs = n" "cl' = cl\<lparr>inbuf := inbuf cl'\<rparr>" "0 \<le> sock cl"
  using assms by (auto simp: rfbReadExact_def append_eq_conv_conj split: if_splits)

lemma reading_bytes:
  "0 \<le> sock (conn (nm_trans c)) \<Longrightarrow> inbuf (conn (nm_trans c)) = bs @ rest \<Longrightarrow> length bs = n \<Longrightarrow>
   reading n k (s, c) = k bs (s, set_conn ((conn (nm_trans c))\<lparr>inbuf := rest\<rparr>) c)"
  by (simp add: reading_def rfbReadExact_def)

lemma close_normal_fields [simp]:
  "nm_id (close_normal c) = nm_id c" "viewOnly (conn (nm_trans (close_normal c))) = viewOnly (conn (nm_trans c))"
  "inbuf (conn (nm_trans (close_normal c))) = inbuf (conn (nm_trans c))" "\<not> is_open (close_normal c)"
  by (simp_all add: close_normal_def mark_closed_def set_conn_def rfbCloseClient_def is_open_def)

lemma set_conn_fields [simp]:
  "nm_id (set_conn k c) = nm_id c" "conn (nm_trans (set_conn k c)) = k" "nm_send (set_conn k c) = nm_send c"
  "lastPtrButtons (set_conn k c) = lastPtrButtons c" "nm_scaled (set_conn k c) = nm_scaled c"
  "extensions (set_conn k c) = extensions c" "format (nm_trans (set_conn k c)) = format (nm_trans c)"
  by (simp_all add: set_conn_def)

section \<open>Calls\<close>

fun caller :: "host_call \<Rightarrow> nat" where
  "caller (kbdAddEvent i _ _) = i"
| "caller (ptrAddEvent i _ _ _) = i"
| "caller (setXCutText i _) = i"
| "caller (setSingleWindow i _ _) = i"
| "caller (setServerInput i _) = i"
| "caller (setTextChat i _ _) = i"

fun is_input :: "host_call \<Rightarrow> bool" where
  "is_input (kbdAddEvent _ _ _) = True"
| "is_input (ptrAddEvent _ _ _ _) = True"
| "is_input (setXCutText _ _) = True"
| "is_input _ = False"

text \<open>At most one call is made, for this client, and it is no input unless the client may control.\<close>

definition may_call :: "nat \<Rightarrow> bool \<Rightarrow> 'p normal_screen \<Rightarrow> 'p session option \<Rightarrow> bool" where
  "may_call i vo s r \<longleftrightarrow>
     (\<forall>s' c'. r = Some (s', c') \<longrightarrow>
        (\<exists>hs. calls s' = calls s @ hs \<and> length hs \<le> 1 \<and> (\<forall>h\<in>set hs. caller h = i \<and> (vo \<longrightarrow> \<not> is_input h))))"

lemma may_call_same [intro]: "calls s' = calls s \<Longrightarrow> may_call i vo s (Some (s', c))"
  by (auto simp: may_call_def)

lemma may_call_None [intro, simp]: "may_call i vo s None"
  by (simp add: may_call_def)

lemma may_call_one [intro]:
  "calls s' = calls s \<Longrightarrow> caller h = i \<Longrightarrow> (vo \<Longrightarrow> \<not> is_input h) \<Longrightarrow> may_call i vo s (Some (call_host h s', c))"
  by (auto simp: may_call_def call_host_def)

lemma may_call_reading:
  assumes "\<And>bs cn. viewOnly cn = viewOnly (conn (nm_trans c)) \<Longrightarrow> may_call i vo s (k bs (s, set_conn cn c))"
  shows "may_call i vo s (reading n k (s, c))"
proof (cases "rfbReadExact (conn (nm_trans c)) n")
  case None
  then show ?thesis by (auto simp: reading_def)
next
  case (Some r)
  obtain bs cn where r: "r = (bs, cn)" by fastforce
  have "viewOnly cn = viewOnly (conn (nm_trans c))" using read_exact(3)[OF Some[unfolded r]] by (metis rfbClientRec.select_convs(6) rfbClientRec.surjective rfbClientRec.update_convs(8))
  then show ?thesis using assms Some r by (simp add: reading_def)
qed

lemma may_call_encodings: "may_call i vo s (read_encodings env lastPref n (s, c))"
proof (induction n arbitrary: c)
  case 0
  then show ?case by (auto simp: Let_def)
next
  case (Suc n)
  show ?case by (auto intro!: may_call_reading Suc.IH split: option.splits)
qed

lemma may_call_handlers:
  assumes "nm_id c = i" and "viewOnly (conn (nm_trans c)) = vo"
  shows "may_call i vo s (handle_SetPixelFormat msg (s, c))"
    and "may_call i vo s (handle_SetEncodings env msg (s, c))"
    and "may_call i vo s (handle_FramebufferUpdateRequest env junk msg (s, c))"
    and "may_call i vo s (handle_KeyEvent msg (s, c))"
    and "may_call i vo s (handle_PointerEvent env msg (s, c))"
    and "may_call i vo s (handle_ClientCutText env msg (s, c))"
    and "may_call i vo s (handle_FileTransfer env msg (s, c))"
    and "may_call i vo s (handle_SetSW msg (s, c))"
    and "may_call i vo s (handle_SetServerInput msg (s, c))"
    and "may_call i vo s (chat len str (s, c))"
    and "may_call i vo s (handle_SetScale env msg (s, c))"
    and "may_call i vo s (unknown_message env ty (s, c))"
proof -
  show "may_call i vo s (handle_SetPixelFormat msg (s, c))"
    by (auto simp: handle_SetPixelFormat_def Let_def split: option.splits)
  show "may_call i vo s (handle_SetEncodings env msg (s, c))"
    by (simp add: handle_SetEncodings_def Let_def may_call_encodings)
  show "may_call i vo s (handle_FramebufferUpdateRequest env junk msg (s, c))"
    by (auto simp: handle_FramebufferUpdateRequest_def Let_def split: option.splits prod.splits if_splits)
  show "may_call i vo s (handle_KeyEvent msg (s, c))"
    using assms by (auto simp: handle_KeyEvent_def)
  show "may_call i vo s (handle_PointerEvent env msg (s, c))"
    using assms by (auto simp: handle_PointerEvent_def Let_def split: prod.splits)
  show "may_call i vo s (handle_ClientCutText env msg (s, c))"
    using assms by (auto simp: handle_ClientCutText_def Let_def intro!: may_call_reading may_call_one)
  show "may_call i vo s (handle_FileTransfer env msg (s, c))" by (auto simp: handle_FileTransfer_def)
  show "may_call i vo s (handle_SetSW msg (s, c))" using assms by (auto simp: handle_SetSW_def)
  show "may_call i vo s (handle_SetServerInput msg (s, c))" using assms by (auto simp: handle_SetServerInput_def)
  show "may_call i vo s (chat len str (s, c))" using assms by (auto simp: chat_def)
  show "may_call i vo s (handle_SetScale env msg (s, c))" by (auto simp: handle_SetScale_def Let_def)
  show "may_call i vo s (unknown_message env ty (s, c))" by (auto simp: unknown_message_def split: prod.splits)
qed

lemma may_call_TextChat:
  assumes "nm_id c = i" and "viewOnly (conn (nm_trans c)) = vo"
  shows "may_call i vo s (handle_TextChat env msg (s, c))"
  using assms by (auto simp: handle_TextChat_def Let_def intro!: may_call_reading may_call_handlers)

lemma may_call_message:
  assumes "nm_id c = i" and "viewOnly (conn (nm_trans c)) = vo"
  shows "may_call i vo s (handle_message env junk ty (s, c))"
  using assms by (auto simp: handle_message_def intro!: may_call_reading may_call_handlers may_call_TextChat)

lemma may_call_rfbProcessClientNormalMessage:
  "may_call (nm_id c) (viewOnly (conn (nm_trans c))) s (rfbProcessClientNormalMessage env junk (s, c))"
  by (auto simp: rfbProcessClientNormalMessage_def intro!: may_call_reading may_call_message)

section \<open>A stream of messages\<close>

text \<open>
  The loop of \<open>clientInput\<close> (\<open>main.c\<close>) for a client in a session, over a stream that ends. \<open>None\<close> in the
  state stands for undefined behaviour in a handler.
\<close>

definition client_input ::
    "normal_env \<Rightarrow> (nat \<Rightarrow> uint8_t) \<Rightarrow> 'p session option \<Rightarrow> 'p session option option" where
  "client_input env junk =
     while_option (\<lambda>st. case st of None \<Rightarrow> False | Some (s, c) \<Rightarrow> is_open c)
       (\<lambda>st. Option.bind st (rfbProcessClientNormalMessage env junk))"

definition unread_input :: "normal_client \<Rightarrow> nat" where
  "unread_input c = length (inbuf (conn (nm_trans c)))"

text \<open>
  What is not in the sources may read from the socket, but it puts nothing back, and enables only
  extensions that are installed.
\<close>

definition goes_on :: "normal_env \<Rightarrow> normal_client \<Rightarrow> normal_client \<Rightarrow> bool" where
  "goes_on env c c' \<longleftrightarrow> unread_input c' \<le> unread_input c \<and>
     (set (extensions c) \<subseteq> {..<length (installed env)} \<longrightarrow> set (extensions c') \<subseteq> {..<length (installed env)})"

definition polite_env :: "normal_env \<Rightarrow> bool" where
  "polite_env env \<longleftrightarrow>
     (\<forall>x\<in>set (installed env).
        (\<forall>f c enc. enablePseudoEncoding x = Some f \<longrightarrow> goes_on env c (snd (f c enc))) \<and>
        (\<forall>f c ty. handleMessage x = Some f \<longrightarrow> goes_on env c (snd (f c ty)))) \<and>
     (\<forall>w h c. goes_on env c (scale_setup env w h c)) \<and>
     (\<forall>t p sz len c. goes_on env c (file_transfer env t p sz len c))"

definition leads_on :: "normal_env \<Rightarrow> normal_client \<Rightarrow> 'p session option \<Rightarrow> bool" where
  "leads_on env c r \<longleftrightarrow> (\<forall>s' c'. r = Some (s', c') \<longrightarrow> goes_on env c c')"

lemma leads_on_simps [simp]: "leads_on env c None" "leads_on env c (Some (s, c')) \<longleftrightarrow> goes_on env c c'"
  by (simp_all add: leads_on_def)

lemma goes_on_refl [simp, intro]: "goes_on env c c" by (simp add: goes_on_def)

lemma goes_on_trans [trans]: "goes_on env a b \<Longrightarrow> goes_on env b c \<Longrightarrow> goes_on env a c"
  by (auto simp: goes_on_def)

lemma leads_on_trans: "goes_on env a b \<Longrightarrow> leads_on env b r \<Longrightarrow> leads_on env a r"
  by (auto simp: leads_on_def intro: goes_on_trans)

lemma goes_on_same:
  "inbuf (conn (nm_trans c')) = inbuf (conn (nm_trans c)) \<Longrightarrow> extensions c' = extensions c \<Longrightarrow> goes_on env c c'"
  by (simp add: goes_on_def unread_input_def)

lemma close_extensions [simp]: "extensions (close_normal c) = extensions c"
  by (simp add: close_normal_def mark_closed_def set_conn_def)

lemma leads_on_reading:
  assumes "\<And>bs cn. leads_on env (set_conn cn c) (k bs (s, set_conn cn c))"
  shows "leads_on env c (reading n k (s, c))"
proof (cases "rfbReadExact (conn (nm_trans c)) n")
  case None
  then show ?thesis by (simp add: reading_def goes_on_same)
next
  case (Some r)
  obtain bs cn where r: "r = (bs, cn)" by fastforce
  have "goes_on env c (set_conn cn c)" using read_exact(1)[OF Some[unfolded r]] by (simp add: goes_on_def unread_input_def)
  from leads_on_trans[OF this assms] show ?thesis using Some r by (auto simp: reading_def)
qed

lemma set_translate_inbuf:
  "rfbSetTranslateFunction e scr t = Some (ok, t') \<Longrightarrow> inbuf (conn t') = inbuf (conn t)"
proof -
  have cm: "inbuf (conn (snd (rfbSetClientColourMapBGR233 t))) = inbuf (conn t)"
    by (auto simp: rfbSetClientColourMapBGR233_def rfbCloseClient_def rfbWriteExact_def Let_def)
  assume "rfbSetTranslateFunction e scr t = Some (ok, t')"
  then show ?thesis
    using cm unfolding rfbSetTranslateFunction_def Let_def
    by (auto simp: rfbCloseClient_def bind_eq_Some_conv split: if_splits prod.splits)
qed

lemma goes_on_colour_map: "goes_on env c (snd (rfbSetClientColourMap junk i n s c))"
  by (rule goes_on_same; simp add: rfbSetClientColourMap_def rfbSendSetColourMapEntries_def Let_def rfbWriteExact_def)

lemma ask_enabled_goes_on:
  assumes "polite_env env" and "set es \<subseteq> {..<length (installed env)}"
  shows "goes_on env c (snd (ask_enabled (installed env) enc es c))"
  using assms(2)
proof (induction es arbitrary: c)
  case (Cons e es)
  have e: "installed env ! e \<in> set (installed env)" and sub: "set es \<subseteq> {..<length (installed env)}" using Cons.prems by auto
  show ?case
  proof (cases "enablePseudoEncoding (installed env ! e)")
    case None
    then show ?thesis using Cons.IH[OF sub] by simp
  next
    case (Some f)
    obtain ok c1 where f: "f c enc = (ok, c1)" by fastforce
    have "goes_on env c c1" using assms(1) e Some f unfolding polite_env_def by (metis snd_conv)
    then show ?thesis using Some f goes_on_trans[OF _ Cons.IH[OF sub, of c1]] by auto
  qed
qed simp

lemma ask_message_goes_on:
  assumes "polite_env env" and "set es \<subseteq> {..<length (installed env)}"
  shows "goes_on env c (snd (ask_message (installed env) ty es c))"
  using assms(2)
proof (induction es arbitrary: c)
  case (Cons e es)
  have e: "installed env ! e \<in> set (installed env)" and sub: "set es \<subseteq> {..<length (installed env)}" using Cons.prems by auto
  show ?case
  proof (cases "handleMessage (installed env ! e)")
    case None
    then show ?thesis using Cons.IH[OF sub] by simp
  next
    case (Some f)
    obtain ok c1 where f: "f c ty = (ok, c1)" by fastforce
    have "goes_on env c c1" using assms(1) e Some f unfolding polite_env_def by (metis snd_conv)
    then show ?thesis using Some f goes_on_trans[OF _ Cons.IH[OF sub, of c1]] by auto
  qed
qed simp

lemma ask_claiming_goes_on:
  assumes "polite_env env" and "x \<in> set (installed env)" and "e < length (installed env)"
    and "ask_claiming enc e x ps c = Some (h, c')"
  shows "goes_on env c c'"
  using assms(4)
proof (induction ps arbitrary: c)
  case (Cons p ps)
  show ?case
  proof (cases "p = enc")
    case True
    then obtain f where f: "enablePseudoEncoding x = Some f" using Cons.prems by (auto split: option.splits)
    obtain ok c1 where o: "f c enc = (ok, c1)" by fastforce
    have g: "goes_on env c c1" using assms(1,2) f o unfolding polite_env_def by (metis snd_conv)
    show ?thesis
    proof (cases ok)
      case True
      have "goes_on env c1 (snd (rfbEnableExtension e c1))"
        using assms(3) by (auto simp: rfbEnableExtension_def goes_on_def unread_input_def)
      then show ?thesis using Cons.prems \<open>p = enc\<close> f o True g by (auto intro: goes_on_trans)
    next
      case False
      then show ?thesis using Cons.prems \<open>p = enc\<close> f o g Cons.IH[of c1] by (auto intro: goes_on_trans)
    qed
  next
    case False
    then show ?thesis using Cons by simp
  qed
qed simp

lemma ask_installed_goes_on:
  assumes "polite_env env" and "set es \<subseteq> set (zip [0..<length (installed env)] (installed env))"
    and "ask_installed enc es c = Some c'"
  shows "goes_on env c c'"
  using assms(2,3)
proof (induction es arbitrary: c)
  case (Cons ex es)
  obtain e x where ex: "ex = (e, x)" by fastforce
  have "(e, x) \<in> set (zip [0..<length (installed env)] (installed env))" using Cons.prems(1) ex by auto
  then have x: "x \<in> set (installed env)" "e < length (installed env)" by (auto dest: set_zip_leftD set_zip_rightD)
  obtain h c1 where a: "ask_claiming enc e x (pseudoEncodings x) c = Some (h, c1)"
    using Cons.prems(2) ex by (auto split: option.splits)
  show ?case
    using Cons.prems ex a ask_claiming_goes_on[OF assms(1) x a] Cons.IH[of c1]
    by (auto split: if_splits intro: goes_on_trans)
qed simp

abbreviation known_extensions :: "normal_env \<Rightarrow> normal_client \<Rightarrow> bool" where
  "known_extensions env c \<equiv> set (extensions c) \<subseteq> {..<length (installed env)}"

lemma goes_on_other_encoding:
  assumes "polite_env env" and "known_extensions env c" and "other_encoding (installed env) enc c = Some c'"
  shows "goes_on env c c'"
proof -
  obtain h c1 where a: "ask_enabled (installed env) enc (extensions c) c = (h, c1)" by fastforce
  have g: "goes_on env c c1" using ask_enabled_goes_on[OF assms(1,2), of c enc] a by simp
  show ?thesis
    using assms(3) a g ask_installed_goes_on[OF assms(1), of "zip [0..<length (installed env)] (installed env)" enc c1 c']
    by (auto simp: other_encoding_def goes_on_same split: if_splits intro: goes_on_trans)
qed

lemma goes_on_apply_encoding:
  assumes "polite_env env" and "known_extensions env c" and "apply_encoding env s enc c = Some c'"
  shows "goes_on env c c'"
  using assms(3) goes_on_other_encoding[OF assms(1,2)]
  by (auto simp: apply_encoding_def Let_def shape_updates_def goes_on_same split: if_splits)

lemma leads_on_encodings:
  assumes "polite_env env"
  shows "known_extensions env c \<Longrightarrow> leads_on env c (read_encodings env lastPref n (s, c))"
proof (induction n arbitrary: c)
  case 0
  then show ?case by (simp add: finish_encodings_def Let_def goes_on_same)
next
  case (Suc n)
  have "leads_on env (set_conn cn c) (case apply_encoding env s (unwire32 bs) (set_conn cn c) of
      None \<Rightarrow> None | Some c \<Rightarrow> read_encodings env lastPref n (s, c))" for bs cn
  proof (cases "apply_encoding env s (unwire32 bs) (set_conn cn c)")
    case (Some c1)
    have "known_extensions env (set_conn cn c)" using Suc.prems by simp
    moreover from goes_on_apply_encoding[OF assms this Some]
    have g: "goes_on env (set_conn cn c) c1" .
    ultimately have "known_extensions env c1" by (auto simp: goes_on_def)
    from leads_on_trans[OF g Suc.IH[OF this]] show ?thesis using Some by simp
  qed simp
  then show ?case by (auto intro!: leads_on_reading)
qed

text \<open>The part of a request for an update between the two changes of the regions.\<close>

definition prepare_colours :: "(nat \<Rightarrow> uint8_t) \<Rightarrow> 'p normal_screen \<Rightarrow> normal_client \<Rightarrow> bool \<times> normal_client" where
  "prepare_colours junk s c =
     (if \<not> readyForSetColourMapEntries (nm_send c)
      then (let c = c\<lparr>nm_send := (nm_send c)\<lparr>readyForSetColourMapEntries := True\<rparr>\<rparr>
            in if \<not> trueColour (format (nm_trans c)) then rfbSetClientColourMap junk 0 0 s c else (True, c))
      else (True, c))"

lemma goes_on_prepare: "goes_on env c (snd (prepare_colours junk s c))"
proof -
  have rd: "goes_on env c (c\<lparr>nm_send := x\<rparr>)" for x by (simp add: goes_on_same)
  have "goes_on env c (snd (rfbSetClientColourMap junk 0 0 s (c\<lparr>nm_send := x\<rparr>)))" for x
    by (rule goes_on_trans[OF rd goes_on_colour_map])
  with rd show ?thesis by (simp add: prepare_colours_def Let_def)
qed

definition msg_rect :: "uint8_t list \<Rightarrow> int \<times> int \<times> int \<times> int" where
  "msg_rect msg = (uint (unwire16 (drop 1 msg)), uint (unwire16 (drop 3 msg)), uint (unwire16 (drop 5 msg)), uint (unwire16 (drop 7 msg)))"

lemma update_request_cases:
  "handle_FramebufferUpdateRequest env junk msg (s, c) =
     (case rectSwapIfLEAndClip env (ns_screen s) c (msg_rect msg) of
        None \<Rightarrow> Some (s, c)
      | Some (x, y, w, h) \<Rightarrow>
         (let r = sraRgnCreateRect x y (x + w) (y + h);
              (ok, c) = prepare_colours junk s (on_regions (\<lambda>u. u\<lparr>requestedRegion := sraRgnOr (requestedRegion u) r\<rparr>) c)
          in Some (s, if ok then on_regions (request_region (msg ! 0 \<noteq> 0) r) c else c)))"
  by (auto simp: handle_FramebufferUpdateRequest_def msg_rect_def prepare_colours_def Let_def split: option.splits prod.splits)

lemma leads_on_update_request: "leads_on env c (handle_FramebufferUpdateRequest env junk msg (s, c))"
proof -
  have on: "goes_on env c (on_regions f c)" for f c by (simp add: on_regions_def goes_on_same)
  have "goes_on env c (snd (prepare_colours junk s (on_regions f c)))" for f
    using on goes_on_prepare goes_on_trans by blast
  moreover from goes_on_trans[OF this on]
  have "goes_on env c (on_regions g (snd (prepare_colours junk s (on_regions f c))))" for f g .
  ultimately show ?thesis
    by (auto simp: update_request_cases Let_def case_prod_unfold split: option.splits)
qed

lemma leads_on_handlers:
  assumes "polite_env env" and "known_extensions env c"
  shows "leads_on env c (handle_SetPixelFormat msg (s, c))"
    and "leads_on env c (handle_SetEncodings env msg (s, c))"
    and "leads_on env c (handle_FramebufferUpdateRequest env junk msg (s, c))"
    and "leads_on env c (handle_KeyEvent msg (s, c))"
    and "leads_on env c (handle_PointerEvent env msg (s, c))"
    and "leads_on env c (handle_ClientCutText env msg (s, c))"
    and "leads_on env c (handle_FileTransfer env msg (s, c))"
    and "leads_on env c (handle_SetSW msg (s, c))"
    and "leads_on env c (handle_SetServerInput msg (s, c))"
    and "leads_on env c (chat len str (s, c))"
    and "leads_on env c (handle_SetScale env msg (s, c))"
    and "leads_on env c (unknown_message env ty (s, c))"
proof -
  show "leads_on env c (handle_SetPixelFormat msg (s, c))"
    by (auto simp: handle_SetPixelFormat_def set_translation_def Let_def mark_closed_def dest!: set_translate_inbuf
        intro!: goes_on_same split: option.splits)
  have "goes_on env c (reset_encodings c)" by (simp add: reset_encodings_def Let_def goes_on_same)
  moreover have "known_extensions env (reset_encodings c)" using assms(2) by (simp add: reset_encodings_def Let_def)
  ultimately show "leads_on env c (handle_SetEncodings env msg (s, c))"
    using leads_on_trans leads_on_encodings[OF assms(1)] by (fastforce simp: handle_SetEncodings_def Let_def)
  show "leads_on env c (handle_KeyEvent msg (s, c))" by (simp add: handle_KeyEvent_def)
  show "leads_on env c (handle_PointerEvent env msg (s, c))"
    by (auto simp: handle_PointerEvent_def Let_def goes_on_same split: prod.splits)
  show "leads_on env c (handle_ClientCutText env msg (s, c))"
    by (auto simp: handle_ClientCutText_def Let_def goes_on_same intro!: leads_on_reading)
  show "leads_on env c (handle_FileTransfer env msg (s, c))"
    using assms(1) by (simp add: handle_FileTransfer_def polite_env_def)
  show "leads_on env c (handle_SetSW msg (s, c))" by (simp add: handle_SetSW_def)
  show "leads_on env c (handle_SetServerInput msg (s, c))" by (simp add: handle_SetServerInput_def)
  show "leads_on env c (chat len str (s, c))" by (simp add: chat_def)
  show "leads_on env c (handle_SetScale env msg (s, c))"
    using assms(1) by (simp add: handle_SetScale_def polite_env_def Let_def)
  obtain ok c1 where a: "ask_message (installed env) ty (extensions c) c = (ok, c1)" by fastforce
  then have "goes_on env c c1" using ask_message_goes_on[OF assms, of c ty] by simp
  then show "leads_on env c (unknown_message env ty (s, c))"
    using a by (auto simp: unknown_message_def goes_on_same intro: goes_on_trans)
  show "leads_on env c (handle_FramebufferUpdateRequest env junk msg (s, c))"
    by (rule leads_on_update_request)
qed

lemma leads_on_TextChat:
  assumes "polite_env env" and "known_extensions env c"
  shows "leads_on env c (handle_TextChat env msg (s, c))"
  using assms by (auto simp: handle_TextChat_def Let_def goes_on_same intro!: leads_on_reading leads_on_handlers)

lemma leads_on_message:
  assumes "polite_env env" and "known_extensions env c"
  shows "leads_on env c (handle_message env junk ty (s, c))"
proof -
  have p: "goes_on env c (c\<lparr>PalmVNC := True\<rparr>)" "known_extensions env (c\<lparr>PalmVNC := True\<rparr>)"
    using assms(2) by (simp_all add: goes_on_same)
  have "leads_on env (c\<lparr>PalmVNC := True\<rparr>) (reading (sz_rfbSetScaleMsg - 1) (handle_SetScale env) (s, c\<lparr>PalmVNC := True\<rparr>))"
    using assms p by (auto intro!: leads_on_reading leads_on_handlers)
  from leads_on_trans[OF p(1) this] show ?thesis
    using assms by (auto simp: handle_message_def goes_on_same intro!: leads_on_reading leads_on_handlers leads_on_TextChat)
qed

text \<open>A message takes its first byte at least, or the connection is closed.\<close>

lemma message_takes_a_byte:
  assumes "polite_env env" and "known_extensions env c"
    and "rfbProcessClientNormalMessage env junk (s, c) = Some (s', c')"
  shows "known_extensions env c'"
    and "unread_input c' + (if is_open c' then 1 else 0) < unread_input c + 1 \<or> unread_input c' < unread_input c"
proof -
  have "known_extensions env c' \<and>
    (unread_input c' + (if is_open c' then 1 else 0) < unread_input c + 1 \<or> unread_input c' < unread_input c)"
  proof (rule reading_cases[OF assms(3)[unfolded rfbProcessClientNormalMessage_def]])
    assume "(s', c') = (s, close_normal c)"
    then show ?thesis using assms(2) by (simp add: unread_input_def)
  next
    fix bs cn
    assume r: "rfbReadExact (conn (nm_trans c)) 1 = Some (bs, cn)"
      and h: "handle_message env junk (bs ! 0) (s, set_conn cn c) = Some (s', c')"
    have k: "known_extensions env (set_conn cn c)" using assms(2) by simp
    have "leads_on env (set_conn cn c) (handle_message env junk (bs ! 0) (s, set_conn cn c))"
      by (rule leads_on_message[OF assms(1) k])
    then have g: "goes_on env (set_conn cn c) c'" using h by simp
    have "unread_input (set_conn cn c) < unread_input c" using read_exact(1,2)[OF r] by (simp add: unread_input_def)
    then show ?thesis using g k by (simp add: goes_on_def)
  qed
  then show "known_extensions env c'"
    "unread_input c' + (if is_open c' then 1 else 0) < unread_input c + 1 \<or> unread_input c' < unread_input c" by blast+
qed

lemma client_input_Some:
  assumes "polite_env env" and "known_extensions env c"
  shows "\<exists>r. client_input env junk (Some (s, c)) = Some r"
proof -
  define P :: "'a session option \<Rightarrow> bool" where "P = (\<lambda>st. \<forall>s c. st = Some (s, c) \<longrightarrow> known_extensions env c)"
  define f :: "'a session option \<Rightarrow> nat" where
    "f = (\<lambda>st. case st of None \<Rightarrow> 0 | Some (s, c) \<Rightarrow> 2 * unread_input c + (if is_open c then 1 else 0))"
  show ?thesis unfolding client_input_def
  proof (rule measure_while_option_Some[of P _ _ f])
    fix st :: "'a session option"
    assume P: "P st" and b: "case st of None \<Rightarrow> False | Some (s, c) \<Rightarrow> is_open c"
    then obtain s c where st: "st = Some (s, c)" "is_open c" "known_extensions env c"
      by (auto simp: P_def split: option.splits)
    show "P (Option.bind st (rfbProcessClientNormalMessage env junk)) \<and>
        f (Option.bind st (rfbProcessClientNormalMessage env junk)) < f st"
    proof (cases "rfbProcessClientNormalMessage env junk (s, c)")
      case None
      then show ?thesis using st by (simp add: P_def f_def)
    next
      case (Some r)
      obtain s' c' where r: "r = (s', c')" by fastforce
      show ?thesis
        using message_takes_a_byte[OF assms(1) st(3) Some[unfolded r]] Some r st
        by (auto simp: P_def f_def split: if_splits)
    qed
  next
    show "P (Some (s, c))" using assms(2) by (simp add: P_def)
  qed
qed

lemma while_option_exit: "while_option b f s = Some t \<Longrightarrow> \<not> b t"
  by (rule while_option_stop)

section \<open>A request for an update\<close>

text \<open>A client that has the coordinates of the screen; its rectangle meets the screen.\<close>

lemma clip_axis_spec:
  assumes "0 \<le> x" "x < extent" "extent < 65536" "0 < w" "w < 65536"
  shows "clip_axis extent x w = (min w (extent - x), True)"
  using assms by (simp add: clip_axis_def Let_def u16_def min_def)

lemma clip_rect:
  assumes "nm_scaled c = None" "0 \<le> x" "x < ss_width s" "ss_width s < 65536" "0 \<le> y" "y < ss_height s" "ss_height s < 65536"
    and "0 < w" "w < 65536" "0 < h" "h < 65536"
  shows "rectSwapIfLEAndClip env s c (x, y, w, h) = Some (x, y, min w (ss_width s - x), min h (ss_height s - y))"
proof -
  have "u16 x = x" "u16 y = y" "u16 w = w" "u16 h = h" using assms by (simp_all add: u16_def)
  then show ?thesis
    using clip_axis_spec[of x "ss_width s" w] clip_axis_spec[of y "ss_height s" h] assms
    by (simp add: rectSwapIfLEAndClip_def rect_to_screen_def)
qed

lemma request_region_spec:
  assumes "up_to_date view scr u" "regions_ok u" "rgn_ok r"
  shows "up_to_date view scr (request_region inc r u)" "regions_ok (request_region inc r u)"
    "\<not> inc \<Longrightarrow> pixels r \<subseteq> pixels (modifiedRegion (request_region inc r u))"
    "requestedRegion (request_region inc r u) = requestedRegion u"
  using assms by (auto simp: request_region_def up_to_date_def regions_ok_def region_sets)

lemma request_added:
  assumes "up_to_date view scr u" "regions_ok u" "rgn_ok (requestedRegion u)" "rgn_ok r"
    and "u' = request_region inc r (u\<lparr>requestedRegion := sraRgnOr (requestedRegion u) r\<rparr>)"
  shows "up_to_date view scr u'" "regions_ok u'" "rgn_ok (requestedRegion u')"
    "pixels (requestedRegion u') = pixels (requestedRegion u) \<union> pixels r"
    "\<not> inc \<longrightarrow> pixels r \<subseteq> pixels (modifiedRegion u')"
    "inc \<longrightarrow> modifiedRegion u' = modifiedRegion u \<and> copyRegion u' = copyRegion u"
proof -
  have "up_to_date view scr (u\<lparr>requestedRegion := sraRgnOr (requestedRegion u) r\<rparr>)"
    "regions_ok (u\<lparr>requestedRegion := sraRgnOr (requestedRegion u) r\<rparr>)"
    using assms(1,2) by (simp_all add: up_to_date_def regions_ok_def)
  from request_region_spec[OF this assms(4), of inc] show "up_to_date view scr u'" "regions_ok u'"
    "rgn_ok (requestedRegion u')" "pixels (requestedRegion u') = pixels (requestedRegion u) \<union> pixels r"
    "\<not> inc \<longrightarrow> pixels r \<subseteq> pixels (modifiedRegion u')"
    using assms(3,4,5) by (simp_all add: region_sets)
  show "inc \<longrightarrow> modifiedRegion u' = modifiedRegion u \<and> copyRegion u' = copyRegion u"
    using assms(5) by (simp add: request_region_def)
qed

end
