(* ===== verification/ClientUpdate.thy ===== *)
theory ClientUpdate
  imports Pseudo Hextile
begin

text \<open>
  How the client takes in an update: the message \<open>FramebufferUpdate\<close> of \<open>HandleRFBServerMessage\<close>
  in \<open>libvncclient/rfbproto.c\<close>. The callbacks are the default ones, which do nothing. The decoders of Ultra,
  Zlib, Tight and ZRLE are an argument.
\<close>

section \<open>The client\<close>

text \<open>
  \<open>supported_messages\<close> are the two sets of messages the server knows.
  \<open>frame_memory\<close> is the memory a new frame buffer is made of, and \<open>requests\<close> what was sent to the
  server; any write may be the first to fail (\<open>writes\<close>).
\<close>

record supported_messages =
  client2server :: "uint8_t list"
  server2client :: "uint8_t list"

record 'c rfb_client =
  c_width :: nat
  c_height :: nat
  c_frame :: "'c list"
  c_format :: rfbPixelFormat
  updateRect :: "nat \<times> nat \<times> nat \<times> nat"
  rc_source :: "'c list option"
  rc_mask :: "bool list"
  CurrentKeyboardLedState :: nat
  requests :: "uint8_t list"
  writes :: nat
  frame_memory :: "nat \<Rightarrow> 'c"
  supportedMessages :: supported_messages

text \<open>The messages that may be sent are the bits of a set; \<open>messageType\<close> is one of them.\<close>

definition message_bit :: "uint8_t list \<Rightarrow> uint8_t \<Rightarrow> bool" where
  "message_bit ms ty = bit (ms ! (unat ty div 8)) (unat ty mod 8)"

definition SupportsClient2Server :: "'c rfb_client \<Rightarrow> uint8_t \<Rightarrow> bool" where
  "SupportsClient2Server c ty = message_bit (client2server (supportedMessages c)) ty"

definition WriteToRFBServer :: "uint8_t list \<Rightarrow> 'c rfb_client \<Rightarrow> bool \<times> 'c rfb_client" where
  "WriteToRFBServer bs c =
     (if writes c = 0 then (False, c) else (True, c\<lparr>requests := requests c @ bs, writes := writes c - 1\<rparr>))"

definition SendFramebufferUpdateRequest ::
    "nat \<Rightarrow> nat \<Rightarrow> nat \<Rightarrow> nat \<Rightarrow> bool \<Rightarrow> 'c rfb_client \<Rightarrow> bool \<times> 'c rfb_client" where
  "SendFramebufferUpdateRequest x y w h incremental c =
     (if \<not> SupportsClient2Server c rfbFramebufferUpdateRequest then (True, c)
      else WriteToRFBServer ([rfbFramebufferUpdateRequest, if incremental then 1 else 0] @ wire16 (word_of_nat x) @
             wire16 (word_of_nat y) @ wire16 (word_of_nat w) @ wire16 (word_of_nat h)) c)"

definition SendIncrementalFramebufferUpdateRequest :: "'c rfb_client \<Rightarrow> bool \<times> 'c rfb_client" where
  "SendIncrementalFramebufferUpdateRequest c =
     (case updateRect c of (x, y, w, h) \<Rightarrow> SendFramebufferUpdateRequest x y w h True c)"

definition MallocFrameBuffer :: "'c rfb_client \<Rightarrow> 'c rfb_client" where
  "MallocFrameBuffer c = c\<lparr>c_frame := map (frame_memory c) [0..<c_width c * c_height c]\<rparr>"

text \<open>
  Raw pixels come in pieces that fit in the buffer of the client. \<open>None\<close>: the server ended, or no
  line fits in the buffer and the loop never ends, or its divisor is zero.
\<close>

function raw_lines ::
    "nat \<Rightarrow> nat \<Rightarrow> nat \<Rightarrow> nat \<Rightarrow> nat \<Rightarrow> nat \<Rightarrow> 'c::len word list \<Rightarrow> uint8_t list \<Rightarrow> ('c word list \<times> uint8_t list) option"
where
  "raw_lines width linesToRead x y w h fb bs =
     (if h = 0 then Some (fb, bs)
      else (let n = (if h < linesToRead then h else linesToRead)
            in if n = 0 then None
               else (case ReadFromRFBServer (w * pixel_size TYPE('c) * n) bs of
                       None \<Rightarrow> None
                     | Some (buffer, bs) \<Rightarrow>
                         raw_lines width n x (y + n) w (h - n)
                           (CopyRectangle width fb
                             (map (\<lambda>i. pixel_of (take (pixel_size TYPE('c)) (drop (i * pixel_size TYPE('c)) buffer))) [0..<w * n])
                             x y w n) bs)))"
  by pat_completeness auto
termination
  by (relation "measure (\<lambda>(width, l, x, y, w, h, fb, bs). h)") auto

declare raw_lines.simps [simp del]

text \<open>The decoders that are not modelled, and the pixels that are on the stack when the one of Hextile starts.\<close>

record 'p decoders =
  dec_other :: "uint32_t \<Rightarrow> nat \<Rightarrow> nat \<Rightarrow> nat \<Rightarrow> nat \<Rightarrow> 'p list \<Rightarrow> uint8_t list \<Rightarrow> ('p list \<times> uint8_t list) option"
  stack_bg :: 'p
  stack_fg :: 'p

text \<open>
  One rectangle with pixels: the new frame buffer and the bytes left, or \<open>None\<close> when the handler
  returns \<open>FALSE\<close> (or for an overrun of the buffer, which CoRRE does not check). The test for the
  size comes first; only \<open>rfbEncodingUltraZip\<close> passes it by.
\<close>

definition handle_pixels ::
    "'c::len word decoders \<Rightarrow>
     nat \<Rightarrow> nat \<Rightarrow> uint32_t \<Rightarrow> nat \<Rightarrow> nat \<Rightarrow> nat \<Rightarrow> nat \<Rightarrow> 'c word list \<Rightarrow> uint8_t list \<Rightarrow>
     ('c word list \<times> uint8_t list) option" where
  "handle_pixels d W H enc x y w h fb bs =
     (if enc \<noteq> rfbEncodingUltraZip \<and> (W < x + w \<or> H < y + h) then None
      else if enc = rfbEncodingRaw
      then (let bytesPerLine = w * pixel_size TYPE('c)
            in if bytesPerLine = 0 then None
               else raw_lines W (RFB_BUFFER_SIZE div bytesPerLine) x y w h fb bs)
      else if enc = rfbEncodingCopyRect
      then (case ReadFromRFBServer 4 bs of
              None \<Rightarrow> None
            | Some (cr, bs) \<Rightarrow>
                Some (CopyRectangleFromRectangle W fb (unat (unwire16 cr)) (unat (unwire16 (drop 2 cr))) w h x y, bs))
      else if enc = rfbEncodingRRE
      then (case HandleRRE W fb bs x y w h of (ok, fb, bs) \<Rightarrow> if ok then Some (fb, bs) else None)
      else if enc = rfbEncodingCoRRE
      then (case HandleCoRRE W fb bs x y w h of
              None \<Rightarrow> None | Some (ok, fb, bs) \<Rightarrow> if ok then Some (fb, bs) else None)
      else if enc = rfbEncodingHextile then HandleHextile (stack_bg d) (stack_fg d) W fb bs x y w h
      else dec_other d enc x y w h fb bs)"

text \<open>One turn of the loop over the rectangles, for anything but the mark after the last one.\<close>

definition handle_rect ::
    "'c::len word decoders \<Rightarrow>
     uint32_t \<Rightarrow> nat \<Rightarrow> nat \<Rightarrow> nat \<Rightarrow> nat \<Rightarrow> 'c word rfb_client \<Rightarrow> uint8_t list \<Rightarrow> ('c word rfb_client \<times> uint8_t list) option" where
  "handle_rect d enc x y w h c bs =
     (if enc = rfbEncodingXCursor \<or> enc = rfbEncodingRichCursor
      then do { (shape, bs) \<leftarrow> HandleCursorShape (c_format c) w h enc bs;
                Some (case shape of None \<Rightarrow> c | Some (src, m) \<Rightarrow> c\<lparr>rc_source := Some src, rc_mask := m\<rparr>, bs) }
      else if enc = rfbEncodingPointerPos then Some (c, bs)
      else if enc = rfbEncodingKeyboardLedState then Some (c\<lparr>CurrentKeyboardLedState := x\<rparr>, bs)
      else if enc = rfbEncodingNewFBSize
      then (let c = MallocFrameBuffer (c\<lparr>c_width := w, c_height := h\<rparr>);
                (ok, c) = SendFramebufferUpdateRequest 0 0 w h False c
            in Some (c, bs))
      else if enc = rfbEncodingSupportedMessages
      then do { (_, bs) \<leftarrow> ReadFromRFBServer sz_rfbSupportedMessages bs; Some (c, bs) }
      else if enc = rfbEncodingSupportedEncodings \<or> enc = rfbEncodingServerIdentity
      then do { (_, bs) \<leftarrow> ReadFromRFBServer w bs; Some (c, bs) }
      else do { (fb, bs) \<leftarrow> handle_pixels d (c_width c) (c_height c) enc x y w h (c_frame c) bs;
                Some (c\<lparr>c_frame := fb\<rparr>, bs) })"

fun handle_rects ::
    "'c::len word decoders \<Rightarrow>
     nat \<Rightarrow> 'c word rfb_client \<Rightarrow> uint8_t list \<Rightarrow> ('c word rfb_client \<times> uint8_t list) option" where
  "handle_rects d 0 c bs = Some (c, bs)"
| "handle_rects d (Suc n) c bs =
     do { (hdr, bs) \<leftarrow> ReadFromRFBServer sz_rfbFramebufferUpdateRectHeader bs;
          (if unwire32 (drop 8 hdr) = rfbEncodingLastRect then Some (c, bs)
           else do { (c, bs) \<leftarrow> handle_rect d (unwire32 (drop 8 hdr)) (unat (unwire16 hdr))
                       (unat (unwire16 (drop 2 hdr))) (unat (unwire16 (drop 4 hdr))) (unat (unwire16 (drop 6 hdr))) c bs;
                     handle_rects d n c bs }) }"

text \<open>The message after its first byte.\<close>

definition HandleFramebufferUpdate ::
    "'c::len word decoders \<Rightarrow>
     'c word rfb_client \<Rightarrow> uint8_t list \<Rightarrow> ('c word rfb_client \<times> uint8_t list) option" where
  "HandleFramebufferUpdate d c bs =
     do { (hdr, bs) \<leftarrow> ReadFromRFBServer 3 bs;
          (c, bs) \<leftarrow> handle_rects d (unat (unwire16 (drop 1 hdr))) c bs;
          (let (ok, c) = SendIncrementalFramebufferUpdateRequest c in if ok then Some (c, bs) else None) }"

end
