(* ===== verification/ClientProto.thy ===== *)
theory ClientProto
  imports ClientUpdate Auth
begin

text \<open>
  The rest of \<open>libvncclient/rfbproto.c\<close>: the set of supported messages, the set-up of a connection
  (\<open>InitialiseRFBConnection\<close>), what the client asks for (\<open>SetFormatAndEncodings\<close>) and its other messages;
  and \<open>rfbInitConnection\<close> of \<open>vncviewer.c\<close>, which puts them together. The log is left out, and files
  recorded by vncrec.
\<close>

section \<open>Supported messages\<close>

definition set_message_bit :: "uint8_t \<Rightarrow> uint8_t list \<Rightarrow> uint8_t list" where
  "set_message_bit ty ms = (let i = unat ty div 8 in ms[i := ms ! i OR push_bit (unat ty mod 8) 1])"

text \<open>The bits to keep are negated with \<open>!\<close>, which gives the number 0.\<close>

definition clear_message_bit :: "uint8_t \<Rightarrow> uint8_t list \<Rightarrow> uint8_t list" where
  "clear_message_bit ty ms =
     (let i = unat ty div 8 in ms[i := ms ! i AND (if push_bit (unat ty mod 8) (1 :: nat) = 0 then 1 else 0)])"

definition on_c2s :: "(uint8_t list \<Rightarrow> uint8_t list) \<Rightarrow> 'c rfb_client \<Rightarrow> 'c rfb_client" where
  "on_c2s f c = c\<lparr>supportedMessages := (supportedMessages c)\<lparr>client2server := f (client2server (supportedMessages c))\<rparr>\<rparr>"

definition on_s2c :: "(uint8_t list \<Rightarrow> uint8_t list) \<Rightarrow> 'c rfb_client \<Rightarrow> 'c rfb_client" where
  "on_s2c f c = c\<lparr>supportedMessages := (supportedMessages c)\<lparr>server2client := f (server2client (supportedMessages c))\<rparr>\<rparr>"

definition SupportsServer2Client :: "'c rfb_client \<Rightarrow> uint8_t \<Rightarrow> bool" where
  "SupportsServer2Client c ty = message_bit (server2client (supportedMessages c)) ty"

definition SetClient2Server :: "uint8_t \<Rightarrow> 'c rfb_client \<Rightarrow> 'c rfb_client" where
  "SetClient2Server ty = on_c2s (set_message_bit ty)"

definition SetServer2Client :: "uint8_t \<Rightarrow> 'c rfb_client \<Rightarrow> 'c rfb_client" where
  "SetServer2Client ty = on_s2c (set_message_bit ty)"

definition ClearClient2Server :: "uint8_t \<Rightarrow> 'c rfb_client \<Rightarrow> 'c rfb_client" where
  "ClearClient2Server ty = on_c2s (clear_message_bit ty)"

definition ClearServer2Client :: "uint8_t \<Rightarrow> 'c rfb_client \<Rightarrow> 'c rfb_client" where
  "ClearServer2Client ty = on_s2c (clear_message_bit ty)"

definition default_c2s :: "uint8_t list" where
  "default_c2s = [rfbSetPixelFormat, rfbSetEncodings, rfbFramebufferUpdateRequest, rfbKeyEvent, rfbPointerEvent, rfbClientCutText]"

definition default_s2c :: "uint8_t list" where
  "default_s2c = [rfbFramebufferUpdate, rfbSetColourMapEntries, rfbBell, rfbServerCutText]"

definition DefaultSupportedMessages :: "'c rfb_client \<Rightarrow> 'c rfb_client" where
  "DefaultSupportedMessages c =
     fold SetServer2Client default_s2c (fold SetClient2Server default_c2s
       (c\<lparr>supportedMessages := \<lparr>client2server = replicate 32 0, server2client = replicate 32 0\<rparr>\<rparr>))"

definition DefaultSupportedMessagesUltraVNC :: "'c rfb_client \<Rightarrow> 'c rfb_client" where
  "DefaultSupportedMessagesUltraVNC c =
     fold SetServer2Client [rfbResizeFrameBuffer, rfbPalmVNCReSizeFrameBuffer, rfbFileTransfer, rfbTextChat]
       (fold SetClient2Server [rfbFileTransfer, rfbSetScale, rfbSetServerInput, rfbSetSW, rfbTextChat, rfbPalmVNCSetScaleFactor]
         (DefaultSupportedMessages c))"

definition DefaultSupportedMessagesTightVNC :: "'c rfb_client \<Rightarrow> 'c rfb_client" where
  "DefaultSupportedMessagesTightVNC c =
     fold SetServer2Client [rfbFileTransfer, rfbTextChat]
       (fold SetClient2Server [rfbFileTransfer, rfbSetServerInput, rfbSetSW] (DefaultSupportedMessages c))"

section \<open>Messages of the client\<close>

text \<open>A message is only sent when the server knows it; otherwise it counts as sent.\<close>

definition send_message :: "uint8_t \<Rightarrow> uint8_t list \<Rightarrow> 'c rfb_client \<Rightarrow> bool \<times> 'c rfb_client" where
  "send_message ty rest c = (if \<not> SupportsClient2Server c ty then (True, c) else WriteToRFBServer (ty # rest) c)"

definition SendScaleSetting :: "uint8_t \<Rightarrow> 'c rfb_client \<Rightarrow> bool \<times> 'c rfb_client" where
  "SendScaleSetting scale c =
     (let (ok, c) = send_message rfbSetScale [scale, 0, 0] c
      in if \<not> ok then (False, c) else send_message rfbPalmVNCSetScaleFactor [scale, 0, 0] c)"

definition text_chat :: "uint32_t \<Rightarrow> 'c rfb_client \<Rightarrow> bool \<times> 'c rfb_client" where
  "text_chat len c = send_message rfbTextChat ([0, 0, 0] @ wire32 len) c"

definition TextChatSend :: "uint8_t list \<Rightarrow> 'c rfb_client \<Rightarrow> bool \<times> 'c rfb_client" where
  "TextChatSend text c =
     (if \<not> SupportsClient2Server c rfbTextChat then (True, c)
      else (let (ok, c) = text_chat (word_of_nat (length text)) c
            in if \<not> ok then (False, c) else if 0 < length text then WriteToRFBServer text c else (True, c)))"

definition TextChatOpen :: "'c rfb_client \<Rightarrow> bool \<times> 'c rfb_client" where
  "TextChatOpen = text_chat rfbTextChatOpen"

definition TextChatClose :: "'c rfb_client \<Rightarrow> bool \<times> 'c rfb_client" where
  "TextChatClose = text_chat rfbTextChatClose"

definition TextChatFinish :: "'c rfb_client \<Rightarrow> bool \<times> 'c rfb_client" where
  "TextChatFinish = text_chat rfbTextChatFinished"

definition PermitServerInput :: "bool \<Rightarrow> 'c rfb_client \<Rightarrow> bool \<times> 'c rfb_client" where
  "PermitServerInput enabled = send_message rfbSetServerInput [if enabled then 1 else 0, 0, 0]"

definition SendPointerEvent :: "int \<Rightarrow> int \<Rightarrow> uint8_t \<Rightarrow> 'c rfb_client \<Rightarrow> bool \<times> 'c rfb_client" where
  "SendPointerEvent x y buttonMask =
     (let x = (if x < 0 then 0 else x); y = (if y < 0 then 0 else y)
      in send_message rfbPointerEvent (buttonMask # wire16 (word_of_int x) @ wire16 (word_of_int y)))"

text \<open>Padding that is never written: \<open>junk\<close> is what is found there.\<close>

definition SendKeyEvent :: "(nat \<Rightarrow> uint8_t) \<Rightarrow> uint32_t \<Rightarrow> bool \<Rightarrow> 'c rfb_client \<Rightarrow> bool \<times> 'c rfb_client" where
  "SendKeyEvent junk key down = send_message rfbKeyEvent ([if down then 1 else 0, junk 2, junk 3] @ wire32 key)"

definition SendClientCutText :: "(nat \<Rightarrow> uint8_t) \<Rightarrow> uint8_t list \<Rightarrow> 'c rfb_client \<Rightarrow> bool \<times> 'c rfb_client" where
  "SendClientCutText junk str c =
     (if \<not> SupportsClient2Server c rfbClientCutText then (True, c)
      else (let (ok, c) = WriteToRFBServer ([rfbClientCutText, junk 1, junk 2, junk 3] @ wire32 (word_of_nat (length str))) c
            in if \<not> ok then (False, c) else WriteToRFBServer str c))"

section \<open>SetFormatAndEncodings\<close>

text \<open>
  The settings of the application. \<open>sameMachine\<close> is what the socket tells, \<open>extensionEncodings\<close> what the
  protocol extensions of the client want.
\<close>

record app_data =
  shareDesktop :: bool
  encodingsString :: "string option"
  compressLevel :: int
  qualityLevel :: int
  enableJPEG :: bool
  useRemoteCursor :: bool
  scaleSetting :: int
  canHandleNewFBSize :: bool
  sameMachine :: bool
  extensionEncodings :: "uint32_t list"

definition initAppData :: app_data where
  "initAppData = \<lparr>shareDesktop = True, encodingsString = Some ''tight zrle ultra copyrect hextile zlib corre rre raw'',
     compressLevel = 3, qualityLevel = 5, enableJPEG = True, useRemoteCursor = False, scaleSetting = 0,
     canHandleNewFBSize = False, sameMachine = False, extensionEncodings = []\<rparr>"

definition MAX_ENCODINGS :: nat where "MAX_ENCODINGS = 20"

record enc_request =
  encs :: "uint32_t list"
  requestCompressLevel :: bool
  requestQualityLevel :: bool
  requestLastRectEncoding :: bool

definition ask :: "uint32_t \<Rightarrow> enc_request \<Rightarrow> enc_request" where
  "ask enc r = r\<lparr>encs := encs r @ [enc]\<rparr>"

definition ask_if_room :: "bool \<Rightarrow> uint32_t \<Rightarrow> enc_request \<Rightarrow> enc_request" where
  "ask_if_room due enc r = (if length (encs r) < MAX_ENCODINGS \<and> due then ask enc r else r)"

text \<open>
  \<open>strncasecmp(encStr, name, encStrLen) == 0\<close>, where \<open>encStrLen\<close> is the length of the word at \<open>encStr\<close>: an
  abbreviation of a name is taken for the name.
\<close>

definition to_lower :: "char \<Rightarrow> char" where
  "to_lower ch = (let n = of_char ch :: nat in if 65 \<le> n \<and> n \<le> 90 then char_of (n + 32) else ch)"

definition same_name :: "string \<Rightarrow> string \<Rightarrow> bool" where
  "same_name w name \<longleftrightarrow> length w \<le> length name \<and> map to_lower w = take (length w) name"

definition valid_level :: "int \<Rightarrow> bool" where
  "valid_level n \<longleftrightarrow> 0 \<le> n \<and> n \<le> 9"

definition ask_for_name :: "app_data \<Rightarrow> string \<Rightarrow> enc_request \<Rightarrow> enc_request" where
  "ask_for_name app w r =
     (let compressed = (\<lambda>r. if valid_level (compressLevel app) then r\<lparr>requestCompressLevel := True\<rparr> else r)
      in if same_name w ''raw'' then ask rfbEncodingRaw r
         else if same_name w ''copyrect'' then ask rfbEncodingCopyRect r
         else if same_name w ''tight''
         then (let r = compressed ((ask rfbEncodingTight r)\<lparr>requestLastRectEncoding := True\<rparr>)
               in if enableJPEG app then r\<lparr>requestQualityLevel := True\<rparr> else r)
         else if same_name w ''hextile'' then ask rfbEncodingHextile r
         else if same_name w ''zlib'' then compressed (ask rfbEncodingZlib r)
         else if same_name w ''zlibhex'' then compressed (ask rfbEncodingZlibHex r)
         else if same_name w ''zrle'' then ask rfbEncodingZRLE r
         else if same_name w ''zywrle'' then (ask rfbEncodingZYWRLE r)\<lparr>requestQualityLevel := True\<rparr>
         else if same_name w ''ultra'' \<or> same_name w ''ultrazip'' then ask rfbEncodingUltraZip (ask rfbEncodingUltra r)
         else if same_name w ''corre'' then ask rfbEncodingCoRRE r
         else if same_name w ''rre'' then ask rfbEncodingRRE r
         else r)"

fun split_words :: "string \<Rightarrow> string list" where
  "split_words [] = [[]]"
| "split_words (ch # s) =
     (if ch = CHR '' '' then [] # split_words s
      else (case split_words s of w # ws \<Rightarrow> (ch # w) # ws | [] \<Rightarrow> [[ch]]))"

text \<open>The words are looked at as long as fewer than \<open>MAX_ENCODINGS\<close> numbers are there.\<close>

fun ask_for_names :: "app_data \<Rightarrow> string list \<Rightarrow> enc_request \<Rightarrow> enc_request" where
  "ask_for_names app [] r = r"
| "ask_for_names app (w # ws) r =
     (let r = ask_for_name app w r in if length (encs r) < MAX_ENCODINGS then ask_for_names app ws r else r)"

definition fix_quality :: "app_data \<Rightarrow> app_data" where
  "fix_quality app = (if \<not> valid_level (qualityLevel app) then app\<lparr>qualityLevel := 5\<rparr> else app)"

definition wanted_encodings :: "app_data \<Rightarrow> enc_request \<times> app_data" where
  "wanted_encodings app =
     (let r = \<lparr>encs = [], requestCompressLevel = False, requestQualityLevel = False, requestLastRectEncoding = False\<rparr>
      in case encodingsString app of
           Some s \<Rightarrow>
             (let r = ask_for_names app (split_words s) r;
                  r = ask_if_room (requestCompressLevel r) (word_of_int (compressLevel app) + rfbEncodingCompressLevel0) r;
                  app = (if length (encs r) < MAX_ENCODINGS \<and> requestQualityLevel r then fix_quality app else app);
                  r = ask_if_room (requestQualityLevel r) (word_of_int (qualityLevel app) + rfbEncodingQualityLevel0) r
              in (r, app))
         | None \<Rightarrow>
             (let r = (if sameMachine app then ask rfbEncodingRaw r else r);
                  r = (ask rfbEncodingTight (ask rfbEncodingCopyRect r))\<lparr>requestLastRectEncoding := True\<rparr>;
                  r = fold ask [rfbEncodingHextile, rfbEncodingZlib, rfbEncodingZRLE, rfbEncodingZYWRLE, rfbEncodingUltra,
                         rfbEncodingUltraZip, rfbEncodingCoRRE, rfbEncodingRRE] r;
                  r = ask (if valid_level (compressLevel app) then word_of_int (compressLevel app) + rfbEncodingCompressLevel0
                           else rfbEncodingCompressLevel0 + 1) r;
                  app = (if enableJPEG app then fix_quality app else app);
                  r = (if enableJPEG app then ask (word_of_int (qualityLevel app) + rfbEncodingQualityLevel0) r else r)
              in (r, app)))"

definition pseudo_encodings :: "app_data \<Rightarrow> enc_request \<Rightarrow> enc_request" where
  "pseudo_encodings app r =
     (let r = fold (ask_if_room (useRemoteCursor app)) [rfbEncodingXCursor, rfbEncodingRichCursor, rfbEncodingPointerPos] r;
          r = ask_if_room True rfbEncodingKeyboardLedState r;
          r = ask_if_room (canHandleNewFBSize app) rfbEncodingNewFBSize r;
          r = ask_if_room (requestLastRectEncoding r) rfbEncodingLastRect r;
          r = fold (ask_if_room True) [rfbEncodingSupportedMessages, rfbEncodingSupportedEncodings, rfbEncodingServerIdentity] r
      in fold ask (extensionEncodings app) r)"

text \<open>\<open>None\<close>: the numbers run over the end of the buffer. \<open>pad\<close> is the byte that is not written.\<close>

definition SetFormatAndEncodings ::
    "(nat \<Rightarrow> uint8_t) \<Rightarrow> app_data \<Rightarrow> 'c rfb_client \<Rightarrow> (bool \<times> app_data \<times> 'c rfb_client) option" where
  "SetFormatAndEncodings junk app c =
     (if \<not> SupportsClient2Server c rfbSetPixelFormat then Some (True, app, c)
      else
        (let (ok, c) = WriteToRFBServer ([rfbSetPixelFormat, junk 1, junk 2, junk 3] @ wire_format (c_format c)) c
         in if \<not> ok then Some (False, app, c)
            else if \<not> SupportsClient2Server c rfbSetEncodings then Some (True, app, c)
            else (let (r, app) = wanted_encodings app; e = encs (pseudo_encodings app r)
                  in if MAX_ENCODINGS < length e then None
                     else (let (ok, c) = WriteToRFBServer ([rfbSetEncodings, junk 1] @ wire16 (word_of_nat (length e)) @
                                           concat (map wire32 e)) c
                           in Some (ok, app, c)))))"

section \<open>InitialiseRFBConnection\<close>

record rfb_session =
  s_major :: int
  s_minor :: int
  si_width :: nat
  si_height :: nat
  si_format :: rfbPixelFormat
  s_desktopName :: "uint8_t list"

text \<open>
  The set-up goes on as long as every read and every write succeeds; the result says whether the function
  returned \<open>TRUE\<close>. \<open>None\<close> stands for undefined behaviour.
\<close>

type_synonym 'c set_up = "rfb_session \<times> 'c rfb_client \<times> uint8_t list"

definition reads ::
    "nat \<Rightarrow> (uint8_t list \<Rightarrow> 'c set_up \<Rightarrow> (bool \<times> 'c set_up) option) \<Rightarrow> 'c set_up \<Rightarrow> (bool \<times> 'c set_up) option" where
  "reads n k st =
     (let (se, c, inp) = st
      in case ReadFromRFBServer n inp of None \<Rightarrow> Some (False, st) | Some (bs, inp) \<Rightarrow> k bs (se, c, inp))"

definition writing ::
    "uint8_t list \<Rightarrow> ('c set_up \<Rightarrow> (bool \<times> 'c set_up) option) \<Rightarrow> 'c set_up \<Rightarrow> (bool \<times> 'c set_up) option" where
  "writing bs k st =
     (let (se, c, inp) = st; (ok, c) = WriteToRFBServer bs c in if \<not> ok then Some (False, se, c, inp) else k (se, c, inp))"

text \<open>
  A string with its length before it. One byte more is allocated; for the largest length the sum
  is 0, and the string is written into a block without room.
\<close>

definition reads_string ::
    "uint32_t \<Rightarrow> (uint8_t list \<Rightarrow> 'c set_up \<Rightarrow> (bool \<times> 'c set_up) option) \<Rightarrow> 'c set_up \<Rightarrow> (bool \<times> 'c set_up) option" where
  "reads_string len k = (if len + 1 = 0 then (\<lambda>st. None) else reads (unat len) k)"

definition read_reason :: "'c set_up \<Rightarrow> (bool \<times> 'c set_up) option" where
  "read_reason = reads 4 (\<lambda>len. reads_string (unwire32 len) (\<lambda>reason st. Some (False, st)))"

definition rfbHandleAuthResult :: "('c set_up \<Rightarrow> (bool \<times> 'c set_up) option) \<Rightarrow> 'c set_up \<Rightarrow> (bool \<times> 'c set_up) option" where
  "rfbHandleAuthResult k =
     reads 4 (\<lambda>r st.
       if unwire32 r = rfbVncAuthOK then k st
       else if unwire32 r = rfbVncAuthFailed \<and> s_major (fst st) = 3 \<and> 7 < s_minor (fst st) then read_reason st
       else Some (False, st))"

text \<open>\<open>sprintf(pv, "RFB %03d.%03d\n", ...)\<close>, for numbers that were read with three characters.\<close>

definition fmt03 :: "int \<Rightarrow> uint8_t list" where
  "fmt03 n =
     (let digit = (\<lambda>d. word_of_int (48 + d mod 10))
      in if n < 0 then [45, digit (- n div 10), digit (- n)] else [digit (n div 100), digit (n div 10), digit n])"

definition version_msg :: "int \<Rightarrow> int \<Rightarrow> uint8_t list" where
  "version_msg major minor = ascii ''RFB '' @ fmt03 major @ ascii ''.'' @ fmt03 minor @ [10]"

text \<open>The first type of the list the client knows is answered as soon as it is read.\<close>

fun read_security_types ::
    "nat \<Rightarrow> uint8_t option \<Rightarrow> (uint8_t option \<Rightarrow> 'c set_up \<Rightarrow> (bool \<times> 'c set_up) option) \<Rightarrow> 'c set_up \<Rightarrow> (bool \<times> 'c set_up) option"
where
  "read_security_types 0 chosen k st = k chosen st"
| "read_security_types (Suc n) chosen k st =
     reads 1 (\<lambda>t. if chosen = None \<and> (t ! 0 = 2 \<or> t ! 0 = 1)
       then writing t (read_security_types n (Some (t ! 0)) k)
       else read_security_types n chosen k) st"

text \<open>\<open>password\<close> is what \<open>GetPassword\<close> returns. Only its first eight characters are kept.\<close>

definition authenticate ::
    "uint8_t list option \<Rightarrow> ('c set_up \<Rightarrow> (bool \<times> 'c set_up) option) \<Rightarrow> uint32_t \<Rightarrow> 'c set_up \<Rightarrow> (bool \<times> 'c set_up) option" where
  "authenticate password k authScheme =
     (if authScheme = 0 then read_reason
      else if authScheme = 1
      then (\<lambda>st. if s_major (fst st) = 3 \<and> 7 < s_minor (fst st) then rfbHandleAuthResult k st else k st)
      else if authScheme = 2
      then reads CHALLENGESIZE (\<lambda>challenge st.
             case password of
               None \<Rightarrow> Some (False, st)
             | Some p \<Rightarrow> (if strlen p = 0 then Some (False, st)
                 else writing (rfbEncryptBytes challenge (take 8 (take (strlen p) p))) (rfbHandleAuthResult k) st))
      else (\<lambda>st. Some (False, st)))"

definition sz_rfbServerInitMsg :: nat where "sz_rfbServerInitMsg = 8 + sz_rfbPixelFormat"

definition client_init :: "app_data \<Rightarrow> 'c set_up \<Rightarrow> (bool \<times> 'c set_up) option" where
  "client_init app =
     writing [if shareDesktop app then 1 else 0]
       (reads sz_rfbServerInitMsg (\<lambda>si.
          reads_string (unwire32 (drop 20 si)) (\<lambda>name (se, c, inp).
            Some (True, se\<lparr>si_width := unat (unwire16 si), si_height := unat (unwire16 (drop 2 si)),
              si_format := unwire_format (drop 4 si), s_desktopName := name\<rparr>, c, inp))))"

definition agree_version :: "int \<Rightarrow> int \<Rightarrow> 'c set_up \<Rightarrow> 'c set_up" where
  "agree_version major minor st =
     (let (se, c, inp) = st;
          c = DefaultSupportedMessages c;
          se = se\<lparr>s_major := major, s_minor := if major = rfbProtocolMajorVersion \<and> 8 < minor then 8 else minor\<rparr>;
          c = (if major = 3 \<and> (minor = 4 \<or> minor = 6) then DefaultSupportedMessagesUltraVNC c else c);
          c = (if major = 3 \<and> minor = 5 then DefaultSupportedMessagesTightVNC c else c)
      in (se, c, inp))"

definition choose_security ::
    "(uint32_t \<Rightarrow> 'c set_up \<Rightarrow> (bool \<times> 'c set_up) option) \<Rightarrow> 'c set_up \<Rightarrow> (bool \<times> 'c set_up) option" where
  "choose_security k st =
     (if s_major (fst st) = 3 \<and> 6 < s_minor (fst st)
      then reads 1 (\<lambda>count.
             if count ! 0 = 0 then read_reason
             else read_security_types (unat (count ! 0)) None
                    (\<lambda>chosen st. case chosen of None \<Rightarrow> None | Some t \<Rightarrow> k (ucast t) st)) st
      else reads 4 (\<lambda>scheme. k (unwire32 scheme)) st)"

definition InitialiseRFBConnection ::
    "uint8_t list option \<Rightarrow> app_data \<Rightarrow> 'c set_up \<Rightarrow> (bool \<times> 'c set_up) option" where
  "InitialiseRFBConnection password app =
     reads sz_rfbProtocolVersionMsg (\<lambda>pv st.
       case scan_version (pv @ [0]) of
         None \<Rightarrow> Some (False, st)
       | Some (major, minor, rest) \<Rightarrow>
          (let st = agree_version major minor st
           in writing (version_msg (s_major (fst st)) (s_minor (fst st)))
                (choose_security (authenticate password (client_init app))) st))"

section \<open>rfbInitConnection\<close>

text \<open>The update rectangle of a client is \<open>None\<close> until it is set. The connection itself is open already.\<close>

definition first_request ::
    "app_data \<Rightarrow> nat \<times> nat \<times> nat \<times> nat \<Rightarrow> 'c rfb_client \<Rightarrow> bool \<times> 'c rfb_client" where
  "first_request app r c =
     (let (x, y, w, h) = r; k = nat (scaleSetting app)
      in if 1 < scaleSetting app
         then (let (ok, c) = SendScaleSetting (word_of_int (scaleSetting app)) c
               in if \<not> ok then (False, c) else SendFramebufferUpdateRequest (x div k) (y div k) (w div k) (h div k) False c)
         else SendFramebufferUpdateRequest x y w h False c)"

definition rfbInitConnection ::
    "(nat \<Rightarrow> uint8_t) \<Rightarrow> uint8_t list option \<Rightarrow> (nat \<times> nat \<times> nat \<times> nat) option \<Rightarrow> app_data \<Rightarrow> 'c set_up \<Rightarrow>
     (bool \<times> app_data \<times> 'c set_up) option" where
  "rfbInitConnection junk password given app st =
     do { (ok, se, c, inp) \<leftarrow> InitialiseRFBConnection password app st;
          (if \<not> ok then Some (False, app, se, c, inp)
           else do { (ok, app, c) \<leftarrow> SetFormatAndEncodings junk app c;
                     (if \<not> ok then Some (False, app, se, c, inp)
                      else (let c = MallocFrameBuffer (c\<lparr>c_width := si_width se, c_height := si_height se\<rparr>);
                                r = (case given of None \<Rightarrow> (0, 0, si_width se, si_height se) | Some r \<Rightarrow> r);
                                c = c\<lparr>updateRect := r\<rparr>;
                                (ok, c) = first_request app r c
                            in Some (ok, app, se, c, inp))) }) }"

end
