(* ===== verification/SendStream.thy ===== *)
theory SendStream
  imports SendUpdateCorrect
begin

text \<open>
  What the encoders deliver: when the socket is still open after the last of them, each has added
  its message to what the client is sent, nothing was lost at a flush and the update buffer never
  overran. An encoder that fails leaves the socket closed, also where its result is dropped.
\<close>

section \<open>Delivering a message\<close>

definition delivers :: "(update_state \<Rightarrow> bool \<times> update_state) \<Rightarrow> uint8_t list \<Rightarrow> bool" where
  "delivers f msg \<longleftrightarrow>
     (\<forall>cl. (sock_open (snd (f cl)) \<longrightarrow> sock_open cl) \<and>
        (buf_ok cl \<and> sock_open (snd (f cl)) \<longrightarrow>
           fst (f cl) \<and> buf_ok (snd (f cl)) \<and> stream (snd (f cl)) = stream cl @ msg))"

lemma delivers_open: "delivers f msg \<Longrightarrow> sock_open (snd (f cl)) \<Longrightarrow> sock_open cl"
  by (simp add: delivers_def)

lemma delivers_stream:
  "delivers f msg \<Longrightarrow> buf_ok cl \<Longrightarrow> sock_open (snd (f cl)) \<Longrightarrow>
     fst (f cl) \<and> buf_ok (snd (f cl)) \<and> stream (snd (f cl)) = stream cl @ msg"
  by (simp add: delivers_def)

lemma deliversI:
  assumes "\<And>cl. sock_open (snd (f cl)) \<Longrightarrow> sock_open cl"
    and "\<And>cl. buf_ok cl \<Longrightarrow> \<not> fst (f cl) \<Longrightarrow> \<not> sock_open (snd (f cl))"
    and "\<And>cl. buf_ok cl \<Longrightarrow> fst (f cl) \<Longrightarrow> buf_ok (snd (f cl)) \<and> stream (snd (f cl)) = stream cl @ msg"
  shows "delivers f msg"
  using assms unfolding delivers_def by blast

lemma delivers_nothing: "delivers (\<lambda>cl. (True, cl)) []"
  by (simp add: delivers_def)

text \<open>One after the other, the second only after the first succeeded.\<close>

lemma delivers_then:
  assumes "delivers f a" and "delivers g b"
  shows "delivers (\<lambda>cl. let (ok, cl) = f cl in if \<not> ok then (False, cl) else g cl) (a @ b)"
  unfolding delivers_def
proof (intro allI conjI impI)
  fix cl
  let ?h = "let (ok, cl) = f cl in if \<not> ok then (False, cl) else g cl"
  obtain ok cl1 where f: "f cl = (ok, cl1)" by fastforce
  have h: "?h = (if \<not> ok then (False, cl1) else g cl1)" by (simp add: f)
  have bk: "sock_open (snd ?h) \<Longrightarrow> sock_open cl1"
    using delivers_open[OF assms(2), of cl1] by (auto simp: h split: if_splits)
  show "sock_open (snd ?h) \<Longrightarrow> sock_open cl" using bk delivers_open[OF assms(1), of cl] by (simp add: f)
  assume "buf_ok cl \<and> sock_open (snd ?h)"
  then have *: "buf_ok cl" "sock_open (snd ?h)" by simp_all
  then have c1: "ok" "buf_ok cl1" "stream cl1 = stream cl @ a"
    using bk delivers_stream[OF assms(1), of cl] by (simp_all add: f)
  moreover have "sock_open (snd (g cl1))" using * c1 by (simp add: h)
  ultimately show "fst ?h" "buf_ok (snd ?h)" "stream (snd ?h) = stream cl @ a @ b"
    using delivers_stream[OF assms(2), of cl1] by (simp_all add: h)
qed

section \<open>The parts of the encoders\<close>

lemma send_buf_closed:
  "sock_open (snd (rfbSendUpdateBuf cl)) \<Longrightarrow> sock_open cl"
  "\<not> fst (rfbSendUpdateBuf cl) \<Longrightarrow> \<not> sock_open (snd (rfbSendUpdateBuf cl))"
  by (auto simp: rfbSendUpdateBuf_def split: if_splits)

lemma make_room_closed:
  "sock_open (snd (make_room n cl)) \<Longrightarrow> sock_open cl"
  "\<not> fst (make_room n cl) \<Longrightarrow> \<not> sock_open (snd (make_room n cl))"
  using send_buf_closed by (auto simp: make_room_def split: if_splits)

lemma put_bytes_open [simp]: "sock_open (put_bytes bs cl) = sock_open cl"
  by (simp add: put_bytes_def)

lemma copy_loop_closed: "sock_open (snd (copy_loop rest cl)) \<Longrightarrow> sock_open cl"
proof (induction rest cl rule: copy_loop.induct)
  case (1 rest cl)
  show ?case
  proof (cases "rest = []")
    case True
    then show ?thesis using "1.prems" by (simp add: copy_loop.simps)
  next
    case False
    define n where "n = (if length rest < UPDATE_BUF_SIZE - length (updateBuf cl) then length rest
      else UPDATE_BUF_SIZE - length (updateBuf cl))"
    define cl1 where "cl1 = put_bytes (take n rest) cl"
    have same: "sock_open cl1 = sock_open cl" by (simp add: cl1_def)
    obtain ok cl2 where s: "rfbSendUpdateBuf cl1 = (ok, cl2)" by fastforce
    have c2: "sock_open cl2 \<Longrightarrow> sock_open cl1" using send_buf_closed(1)[of cl1] s by simp
    have e: "copy_loop rest cl = (if length (updateBuf cl1) = UPDATE_BUF_SIZE
        then (if \<not> ok then (False, cl2) else copy_loop (drop n rest) cl2)
        else if UPDATE_BUF_SIZE < length (updateBuf cl1) then (False, cl1) else copy_loop (drop n rest) cl1)"
      using False s by (subst copy_loop.simps) (simp add: Let_def flip: n_def cl1_def)
    note IH = "1.IH"[OF False refl, unfolded n_def[symmetric], OF refl, unfolded cl1_def[symmetric], OF refl]
    show ?thesis
      using "1.prems" IH(1)[OF _ s[symmetric] refl] IH(2) c2 same unfolding e by (auto split: if_splits)
  qed
qed

lemma copy_loop_fails: "buf_ok cl \<Longrightarrow> \<not> fst (copy_loop rest cl) \<Longrightarrow> \<not> sock_open (snd (copy_loop rest cl))"
proof (induction rest cl rule: copy_loop.induct)
  case (1 rest cl)
  show ?case
  proof (cases "rest = []")
    case True
    then show ?thesis using "1.prems" by (simp add: copy_loop.simps)
  next
    case False
    define n where "n = (if length rest < UPDATE_BUF_SIZE - length (updateBuf cl) then length rest
      else UPDATE_BUF_SIZE - length (updateBuf cl))"
    define cl1 where "cl1 = put_bytes (take n rest) cl"
    have ok1: "buf_ok cl1" using "1.prems"(1) by (auto simp: cl1_def put_bytes_def buf_ok_def n_def)
    obtain ok cl2 where s: "rfbSendUpdateBuf cl1 = (ok, cl2)" by fastforce
    have c2: "buf_ok cl2" "\<not> ok \<Longrightarrow> \<not> sock_open cl2"
      using send_buf_stream[OF s] ok1 send_buf_closed(2)[of cl1] s by simp_all
    have e: "copy_loop rest cl = (if length (updateBuf cl1) = UPDATE_BUF_SIZE
        then (if \<not> ok then (False, cl2) else copy_loop (drop n rest) cl2)
        else if UPDATE_BUF_SIZE < length (updateBuf cl1) then (False, cl1) else copy_loop (drop n rest) cl1)"
      using False s by (subst copy_loop.simps) (simp add: Let_def flip: n_def cl1_def)
    note IH = "1.IH"[OF False refl, unfolded n_def[symmetric], OF refl, unfolded cl1_def[symmetric], OF refl]
    show ?thesis
      using "1.prems"(2) IH(1)[OF _ s[symmetric] refl] IH(2) c2 ok1 unfolding e by (auto simp: buf_ok_def split: if_splits)
  qed
qed

lemma raw_loop_closed:
  "sock_open (snd (raw_loop fb b x y w h n cl)) \<Longrightarrow> sock_open cl"
  "\<not> fst (raw_loop fb b x y w h n cl) \<Longrightarrow> \<not> sock_open (snd (raw_loop fb b x y w h n cl))"
proof (induction fb b x y w h n cl rule: raw_loop.induct)
  case (1 fb b x y w h nlines cl)
  define n where "n = (if h < nlines then h else nlines)"
  define cl1 where "cl1 = put_bytes (tile_bytes fb x y w n) cl"
  have same: "sock_open cl1 = sock_open cl" by (simp add: cl1_def)
  obtain ok cl2 where s: "rfbSendUpdateBuf cl1 = (ok, cl2)" by fastforce
  have c2: "sock_open cl2 \<Longrightarrow> sock_open cl1" "\<not> ok \<Longrightarrow> \<not> sock_open cl2"
    using send_buf_closed[of cl1] s by simp_all
  define m where "m = (UPDATE_BUF_SIZE - length (updateBuf cl2)) div b"
  have e: "raw_loop fb b x y w h nlines cl = (if h - n = 0 then (True, cl1)
      else if \<not> ok then (False, cl2) else if m = 0 then (False, cl2\<lparr>sock_open := False\<rparr>)
      else raw_loop fb b x (y + n) w (h - n) m cl2)"
    using s by (subst raw_loop.simps) (simp add: Let_def flip: n_def cl1_def m_def)
  note IH = "1.IH"[OF n_def cl1_def refl _ s[symmetric] refl _ refl m_def]
  { case 1 then show ?case using IH(1) c2 same unfolding e by (auto split: if_splits) }
  { case 2 then show ?case using IH(2) c2 same unfolding e by (auto split: if_splits) }
qed

section \<open>The encoders\<close>

lemma delivers_raw: "delivers (rfbSendRectEncodingRaw fb x y w h) (raw_message fb x y w h)"
proof (rule deliversI)
  fix cl
  obtain ok cl1 where s: "(if 0 < length (updateBuf cl) then rfbSendUpdateBuf cl else (True, cl)) = (ok, cl1)" by fastforce
  then have c1: "sock_open cl1 \<Longrightarrow> sock_open cl" "\<not> ok \<Longrightarrow> \<not> sock_open cl1"
    using send_buf_closed[of cl] by (auto split: if_splits)
  define cl2 where "cl2 = put_bytes (rect_header x y w h rfbEncodingRaw) cl1"
  have same: "sock_open cl2 = sock_open cl1" by (simp add: cl2_def)
  define b where "b = w * pixel_size TYPE('a)"
  define n where "n = (UPDATE_BUF_SIZE - length (updateBuf cl2)) div b"
  have e: "rfbSendRectEncodingRaw fb x y w h cl = (if \<not> ok then (False, cl1) else raw_loop fb b x y w h n cl2)"
    using s by (simp add: rfbSendRectEncodingRaw_def Let_def flip: cl2_def b_def n_def)
  show "sock_open (snd (rfbSendRectEncodingRaw fb x y w h cl)) \<Longrightarrow> sock_open cl"
    using c1 same raw_loop_closed(1)[of fb b x y w h n cl2] unfolding e by (auto split: if_splits)
  show "\<not> fst (rfbSendRectEncodingRaw fb x y w h cl) \<Longrightarrow> \<not> sock_open (snd (rfbSendRectEncodingRaw fb x y w h cl))"
    using c1 same raw_loop_closed(2)[of fb b x y w h n cl2] unfolding e by (auto split: if_splits)
  assume "buf_ok cl" "fst (rfbSendRectEncodingRaw fb x y w h cl)"
  then show "buf_ok (snd (rfbSendRectEncodingRaw fb x y w h cl)) \<and>
      stream (snd (rfbSendRectEncodingRaw fb x y w h cl)) = stream cl @ raw_message fb x y w h"
    using raw_stream[of fb x y w h cl] by (metis prod.collapse)
qed

text \<open>A count and a buffer of subrectangles, behind a header, once there is room for both.\<close>

lemma delivers_after:
  assumes "length hdr = 16"
  shows "delivers (\<lambda>cl. let (ok, cl) = make_room 16 cl in if \<not> ok then (False, cl)
    else copy_loop after (put_bytes hdr cl)) (hdr @ after)"
proof (rule deliversI)
  fix cl
  let ?f = "let (ok, cl) = make_room 16 cl in if \<not> ok then (False, cl) else copy_loop after (put_bytes hdr cl)"
  obtain ok cl1 where m: "make_room 16 cl = (ok, cl1)" by fastforce
  have e: "?f = (if \<not> ok then (False, cl1) else copy_loop after (put_bytes hdr cl1))" by (simp add: m)
  have c1: "sock_open cl1 \<Longrightarrow> sock_open cl" "\<not> ok \<Longrightarrow> \<not> sock_open cl1" using make_room_closed[of 16 cl] m by simp_all
  show "sock_open (snd ?f) \<Longrightarrow> sock_open cl"
    using c1 copy_loop_closed[of after "put_bytes hdr cl1"] unfolding e by (auto split: if_splits)
  assume ok: "buf_ok cl"
  have room: "ok \<Longrightarrow> stream cl1 = stream cl \<and> length (updateBuf cl1) + 16 \<le> UPDATE_BUF_SIZE"
    using make_room_stream[OF m ok] by (simp add: UPDATE_BUF_SIZE_def)
  then have b: "ok \<Longrightarrow> buf_ok (put_bytes hdr cl1)" "ok \<Longrightarrow> stream (put_bytes hdr cl1) = stream cl @ hdr"
    using assms by (simp_all add: buf_ok_def put_bytes_stream) (simp add: put_bytes_def)
  show "\<not> fst ?f \<Longrightarrow> \<not> sock_open (snd ?f)"
    using c1 copy_loop_fails[OF b(1), of after] unfolding e by (auto split: if_splits)
  show "fst ?f \<Longrightarrow> buf_ok (snd ?f) \<and> stream (snd ?f) = stream cl @ hdr @ after"
    using copy_loop_stream[of after "put_bytes hdr cl1" "snd (copy_loop after (put_bytes hdr cl1))"] b
    unfolding e by (auto simp: prod_eq_iff split: if_splits)
qed

lemma put_bytes_append: "put_bytes b (put_bytes a cl) = put_bytes (a @ b) cl"
  by (simp add: put_bytes_def)

lemma delivers_RRE:
  fixes fb :: "nat \<Rightarrow> nat \<Rightarrow> 'a::len word"
  shows "delivers (rfbSendRectEncodingRRE fb sw sh asz x y w h)
     (rre_message fb (max asz (sw * sh * pixel_size TYPE('a))) x y w h)"
proof -
  define S where "S = max asz (sw * sh * pixel_size TYPE('a))"
  have sz: "(if asz < sw * sh * pixel_size TYPE('a) then sw * sh * pixel_size TYPE('a) else asz) = S" by (simp add: S_def)
  show ?thesis
  proof (cases "rre_subrectEncode S (tile fb x y w h) w h")
    case None
    then have "rfbSendRectEncodingRRE fb sw sh asz x y w h = rfbSendRectEncodingRaw fb x y w h"
      unfolding rfbSendRectEncodingRRE_def Let_def sz by (auto simp: fun_eq_iff Let_def)
    then show ?thesis using None delivers_raw[of fb x y w h] by (simp add: rre_message_def flip: S_def)
  next
    case (Some r)
    obtain n after where r: "r = (n, after)" by fastforce
    have e: "rfbSendRectEncodingRRE fb sw sh asz x y w h =
        (\<lambda>cl. let (ok, cl) = make_room 16 cl in if \<not> ok then (False, cl)
           else copy_loop after (put_bytes (rect_header x y w h rfbEncodingRRE @ wire32 (word_of_nat n)) cl))"
      unfolding rfbSendRectEncodingRRE_def Let_def sz
      by (auto simp: fun_eq_iff Some r put_bytes_append sz_rfbFramebufferUpdateRectHeader_def sz_rfbRREHeader_def split: prod.splits)
    show ?thesis
      using delivers_after[of "rect_header x y w h rfbEncodingRRE @ wire32 (word_of_nat n)" after]
      unfolding e by (simp add: rre_message_def Some r flip: S_def)
  qed
qed

definition corre_message ::
    "(nat \<Rightarrow> nat \<Rightarrow> 'a::len word) \<Rightarrow> nat \<Rightarrow> nat \<Rightarrow> nat \<Rightarrow> nat \<Rightarrow> nat \<Rightarrow> uint8_t list" where
  "corre_message fb bufSize x y w h =
     (case corre_subrectEncode bufSize (tile fb x y w h) w h of
        None \<Rightarrow> raw_message fb x y w h
      | Some (n, after) \<Rightarrow> rect_header x y w h rfbEncodingCoRRE @ wire32 (word_of_nat n) @ after)"

lemma delivers_small_CoRRE:
  fixes fb :: "nat \<Rightarrow> nat \<Rightarrow> 'a::len word"
  shows "delivers (rfbSendSmallRectEncodingCoRRE fb sw sh asz x y w h)
     (corre_message fb (max asz (sw * sh * pixel_size TYPE('a))) x y w h)"
proof -
  define S where "S = max asz (sw * sh * pixel_size TYPE('a))"
  have sz: "(if asz < sw * sh * pixel_size TYPE('a) then sw * sh * pixel_size TYPE('a) else asz) = S" by (simp add: S_def)
  show ?thesis
  proof (cases "corre_subrectEncode S (tile fb x y w h) w h")
    case None
    then have "rfbSendSmallRectEncodingCoRRE fb sw sh asz x y w h = rfbSendRectEncodingRaw fb x y w h"
      unfolding rfbSendSmallRectEncodingCoRRE_def Let_def sz by (auto simp: fun_eq_iff Let_def)
    then show ?thesis using None delivers_raw[of fb x y w h] by (simp add: corre_message_def flip: S_def)
  next
    case (Some r)
    obtain n after where r: "r = (n, after)" by fastforce
    have e: "rfbSendSmallRectEncodingCoRRE fb sw sh asz x y w h =
        (\<lambda>cl. let (ok, cl) = make_room 16 cl in if \<not> ok then (False, cl)
           else copy_loop after (put_bytes (rect_header x y w h rfbEncodingCoRRE @ wire32 (word_of_nat n)) cl))"
      unfolding rfbSendSmallRectEncodingCoRRE_def Let_def sz
      by (auto simp: fun_eq_iff Some r put_bytes_append sz_rfbFramebufferUpdateRectHeader_def sz_rfbRREHeader_def split: prod.splits)
    show ?thesis
      using delivers_after[of "rect_header x y w h rfbEncodingCoRRE @ wire32 (word_of_nat n)" after]
      unfolding e by (simp add: corre_message_def Some r flip: S_def)
  qed
qed

text \<open>The pieces CoRRE cuts a rectangle into, in the order they are sent.\<close>

function corre_pieces :: "nat \<Rightarrow> nat \<Rightarrow> nat \<Rightarrow> nat \<Rightarrow> nat \<Rightarrow> nat \<Rightarrow> (nat \<times> nat \<times> nat \<times> nat) list" where
  "corre_pieces maxW maxH x y w h =
     (if maxH < h \<and> 0 < maxH
      then corre_pieces maxW maxH x y w maxH @ corre_pieces maxW maxH x (y + maxH) w (h - maxH)
      else if maxW < w \<and> 0 < maxW
      then corre_pieces maxW maxH x y maxW h @ corre_pieces maxW maxH (x + maxW) y (w - maxW) h
      else [(x, y, w, h)])"
  by pat_completeness auto
termination by (relation "measure (\<lambda>(mw, mh, x, y, w, h). w + h)") auto

declare corre_pieces.simps [simp del]

text \<open>The result of sending a piece is dropped; the closed socket still stops the update.\<close>

lemma delivers_dropped: "delivers f msg \<Longrightarrow> delivers (\<lambda>cl. (True, snd (f cl))) msg"
  by (simp add: delivers_def)

lemma delivers_CoRRE:
  fixes fb :: "nat \<Rightarrow> nat \<Rightarrow> 'a::len word"
  shows "delivers (rfbSendRectEncodingCoRRE fb sw sh asz maxW maxH x y w h)
     (concat (map (\<lambda>(x, y, w, h). corre_message fb (max asz (sw * sh * pixel_size TYPE('a))) x y w h)
       (corre_pieces maxW maxH x y w h)))"
proof (induction maxW maxH x y w h rule: corre_pieces.induct)
  case (1 maxW maxH x y w h)
  show ?case
  proof (cases "maxH < h \<and> 0 < maxH")
    case True
    then have "rfbSendRectEncodingCoRRE fb sw sh asz maxW maxH x y w h =
        (\<lambda>cl. let (ok, cl) = rfbSendRectEncodingCoRRE fb sw sh asz maxW maxH x y w maxH cl in if \<not> ok then (False, cl)
           else rfbSendRectEncodingCoRRE fb sw sh asz maxW maxH x (y + maxH) w (h - maxH) cl)"
      by (intro ext) (subst rfbSendRectEncodingCoRRE.simps, simp)
    then show ?thesis
      using delivers_then[OF "1.IH"(1,2)[OF True]] True by (simp add: corre_pieces.simps[of maxW maxH x y w h])
  next
    case no: False
    show ?thesis
    proof (cases "maxW < w \<and> 0 < maxW")
      case True
      then have "rfbSendRectEncodingCoRRE fb sw sh asz maxW maxH x y w h =
          (\<lambda>cl. let (ok, cl) = rfbSendRectEncodingCoRRE fb sw sh asz maxW maxH x y maxW h cl in if \<not> ok then (False, cl)
             else rfbSendRectEncodingCoRRE fb sw sh asz maxW maxH (x + maxW) y (w - maxW) h cl)"
        by (intro ext) (subst rfbSendRectEncodingCoRRE.simps, simp only: if_not_P[OF no] True simp_thms if_True)
      moreover have "corre_pieces maxW maxH x y w h =
          corre_pieces maxW maxH x y maxW h @ corre_pieces maxW maxH (x + maxW) y (w - maxW) h"
        by (subst corre_pieces.simps) (simp only: if_not_P[OF no] True simp_thms if_True)
      ultimately show ?thesis
        by (simp only: map_append concat_append) (rule delivers_then[OF "1.IH"(3,4)[OF no True]])
    next
      case False
      then have "rfbSendRectEncodingCoRRE fb sw sh asz maxW maxH x y w h =
          (\<lambda>cl. (True, snd (rfbSendSmallRectEncodingCoRRE fb sw sh asz x y w h cl)))"
        by (intro ext) (subst rfbSendRectEncodingCoRRE.simps, simp only: if_not_P[OF no] False simp_thms if_False)
      moreover have "corre_pieces maxW maxH x y w h = [(x, y, w, h)]"
        by (subst corre_pieces.simps) (simp only: if_not_P[OF no] False simp_thms if_False)
      ultimately show ?thesis using delivers_dropped[OF delivers_small_CoRRE[of fb sw sh asz x y w h]] by simp
    qed
  qed
qed

definition box :: "nat \<Rightarrow> nat \<Rightarrow> nat \<Rightarrow> nat \<Rightarrow> (int \<times> int) set" where
  "box x y w h = {int x..<int (x + w)} \<times> {int y..<int (y + h)}"

lemma box_split:
  "k \<le> h \<Longrightarrow> box x y w k \<union> box x (y + k) w (h - k) = box x y w h"
  "k \<le> w \<Longrightarrow> box x y k h \<union> box (x + k) y (w - k) h = box x y w h"
  by (auto simp: box_def)

lemma div_step: "0 < k \<Longrightarrow> k < n \<Longrightarrow> (n - 1) div k = (n - k - 1) div k + (1 :: nat)"
  by (simp add: le_div_geq diff_commute)

text \<open>The pieces cover the rectangle, each is as small as asked for, and their number is the announced one.\<close>

lemma corre_pieces_spec:
  assumes "0 < maxW" "0 < maxH" "0 < w" "0 < h"
  shows "\<forall>(px, py, pw, ph)\<in>set (corre_pieces maxW maxH x y w h).
      0 < pw \<and> pw \<le> maxW \<and> 0 < ph \<and> ph \<le> maxH \<and> px + pw \<le> x + w \<and> py + ph \<le> y + h" (is ?small)
    and "(\<Union>(px, py, pw, ph)\<in>set (corre_pieces maxW maxH x y w h). box px py pw ph) = box x y w h" (is ?cover)
    and "length (corre_pieces maxW maxH x y w h) = ((w - 1) div maxW + 1) * ((h - 1) div maxH + 1)" (is ?count)
proof -
  have "?small \<and> ?cover \<and> ?count"
    using assms
  proof (induction maxW maxH x y w h rule: corre_pieces.induct)
    case (1 maxW maxH x y w h)
    show ?case
    proof (cases "maxH < h \<and> 0 < maxH")
      case True
      have e: "corre_pieces maxW maxH x y w h = corre_pieces maxW maxH x y w maxH @ corre_pieces maxW maxH x (y + maxH) w (h - maxH)"
        by (subst corre_pieces.simps) (simp only: True simp_thms if_True)
      note a = "1.IH"(1)[OF True "1.prems"(1-3)] and b = "1.IH"(2)[OF True "1.prems"(1-3)]
      have "(h - 1) div maxH = (h - maxH - 1) div maxH + 1"
        by (rule div_step) (use True in auto)
      then have "length (corre_pieces maxW maxH x y w h) = ((w - 1) div maxW + 1) * ((h - 1) div maxH + 1)"
        using a b True unfolding e length_append by (simp add: add_mult_distrib2)
      moreover have "(\<Union>(px, py, pw, ph)\<in>set (corre_pieces maxW maxH x y w h). box px py pw ph) = box x y w h"
        using a b True box_split(1)[of maxH h x y w] unfolding e by simp
      moreover have "\<forall>(px, py, pw, ph)\<in>set (corre_pieces maxW maxH x y w h).
          0 < pw \<and> pw \<le> maxW \<and> 0 < ph \<and> ph \<le> maxH \<and> px + pw \<le> x + w \<and> py + ph \<le> y + h"
        using a b True unfolding e by fastforce
      ultimately show ?thesis by (intro conjI)
    next
      case no: False
      show ?thesis
      proof (cases "maxW < w \<and> 0 < maxW")
        case True
        have e: "corre_pieces maxW maxH x y w h = corre_pieces maxW maxH x y maxW h @ corre_pieces maxW maxH (x + maxW) y (w - maxW) h"
          by (subst corre_pieces.simps) (simp only: if_not_P[OF no] True simp_thms if_True)
        note a = "1.IH"(3)[OF no True "1.prems"(1,2)] and b = "1.IH"(4)[OF no True "1.prems"(1,2)]
        have "(w - 1) div maxW = (w - maxW - 1) div maxW + 1"
          by (rule div_step) (use True in auto)
        then have "length (corre_pieces maxW maxH x y w h) = ((w - 1) div maxW + 1) * ((h - 1) div maxH + 1)"
          using a b True "1.prems" unfolding e length_append by (simp add: add_mult_distrib)
        moreover have "(\<Union>(px, py, pw, ph)\<in>set (corre_pieces maxW maxH x y w h). box px py pw ph) = box x y w h"
          using a b True "1.prems" box_split(2)[of maxW w x y h] unfolding e by simp
        moreover have "\<forall>(px, py, pw, ph)\<in>set (corre_pieces maxW maxH x y w h).
            0 < pw \<and> pw \<le> maxW \<and> 0 < ph \<and> ph \<le> maxH \<and> px + pw \<le> x + w \<and> py + ph \<le> y + h"
          using a b True "1.prems" unfolding e by fastforce
        ultimately show ?thesis by (intro conjI)
      next
        case False
        have "corre_pieces maxW maxH x y w h = [(x, y, w, h)]"
          by (subst corre_pieces.simps) (simp only: if_not_P[OF no] False simp_thms if_False)
        moreover have "w \<le> maxW" "h \<le> maxH" using no False "1.prems" by auto
        ultimately show ?thesis using "1.prems" by simp
      qed
    qed
  qed
  then show ?small ?cover ?count by (rule conjunct1, rule conjunct2[THEN conjunct1], rule conjunct2[THEN conjunct2])
qed

end
