(* ===== verification/HextileRoundtrip.thy ===== *)
theory HextileRoundtrip
  imports Hextile
begin

text \<open>
  Decoding a Hextile rectangle gives the pixels it was made of, however the colours remembered from
  one tile to the next are sent or left out.
\<close>

section \<open>The colours of a tile\<close>

text \<open>What the loop knows of the pixels \<open>D\<close> it has seen.\<close>

definition colours_seen :: "'p set \<Rightarrow> nat \<Rightarrow> nat \<Rightarrow> 'p \<Rightarrow> 'p \<Rightarrow> bool \<Rightarrow> bool" where
  "colours_seen D n1 n2 c1 c2 solid \<longleftrightarrow>
     D = (if n1 = 0 then {} else {c1}) \<union> (if n2 = 0 then {} else {c2}) \<and> (n1 = 0 \<longrightarrow> n2 = 0) \<and> (solid \<longleftrightarrow> n2 = 0)"

lemma testColours_loop_spec:
  assumes "testColours_loop ps n1 n2 c1 c2 solid = (m, s, k1, k2, d1, d2)" and "colours_seen D n1 n2 c1 c2 solid"
  shows "\<exists>D'. colours_seen D' k1 k2 d1 d2 s \<and> D \<subseteq> D' \<and> D' \<subseteq> D \<union> set ps \<and> (m \<longrightarrow> D' = D \<union> set ps) \<and>
    (n1 \<noteq> 0 \<or> ps \<noteq> [] \<longrightarrow> k1 \<noteq> 0) \<and> (s \<longrightarrow> m)"
  using assms
proof (induction ps n1 n2 c1 c2 solid arbitrary: D rule: testColours_loop.induct)
  case (1 n1 n2 c1 c2 solid)
  then show ?case by (intro exI[of _ D]) auto
next
  case (2 p ps n1 n2 c1 c2 solid)
  define a1 where "a1 = (if n1 = 0 then p else c1)"
  define a2 where "a2 = (if n2 = 0 then p else c2)"
  define so where "so = (if n2 = 0 then False else solid)"
  have P: "(so, a2) = (if n2 = 0 then (False, p) else (solid, c2))" by (simp add: so_def a2_def)
  have e: "(if p = a1 then testColours_loop ps (n1 + 1) n2 a1 c2 solid
      else if p = a2 then testColours_loop ps n1 (n2 + 1) a1 a2 so else (False, so, n1, n2, a1, a2)) = (m, s, k1, k2, d1, d2)"
    using "2.prems"(1) by (simp only: testColours_loop.simps Let_def a1_def[symmetric] P[symmetric] prod.case)
  show ?case
  proof (cases "p = a1")
    case True
    have r: "testColours_loop ps (n1 + 1) n2 a1 c2 solid = (m, s, k1, k2, d1, d2)" using e True by simp
    have "colours_seen (insert p D) (n1 + 1) n2 a1 c2 solid"
      using "2.prems"(2) True by (auto simp: colours_seen_def a1_def split: if_splits)
    from "2.IH"(1)[OF a1_def True r this] show ?thesis by auto
  next
    case False
    then have n1: "n1 \<noteq> 0" "a1 = c1" by (auto simp: a1_def split: if_splits)
    show ?thesis
    proof (cases "p = a2")
      case True
      have r: "testColours_loop ps n1 (n2 + 1) a1 a2 so = (m, s, k1, k2, d1, d2)" using e False True by simp
      have "colours_seen (insert p D) n1 (n2 + 1) a1 a2 so"
        using "2.prems"(2) True n1 by (auto simp: colours_seen_def a2_def so_def split: if_splits)
      from "2.IH"(2)[OF a1_def False P refl True r this] n1 show ?thesis by auto
    next
      case no: False
      then have "n2 \<noteq> 0" by (auto simp: a2_def split: if_splits)
      then have "m = False" "s = solid" "k1 = n1" "k2 = n2" "d1 = c1" "d2 = c2"
        using e False no n1 by (auto simp: a2_def so_def)
      then show ?thesis using "2.prems"(2) n1 \<open>n2 \<noteq> 0\<close> by (intro exI[of _ D]) (auto simp: colours_seen_def)
    qed
  qed
qed

lemma testColours_spec:
  assumes "testColours data = (m, s, bg, fg)" and "data \<noteq> []"
  shows "bg \<in> set data" "s \<Longrightarrow> set data = {bg}" "m \<Longrightarrow> set data \<subseteq> {bg, fg}" "s \<Longrightarrow> m"
proof -
  obtain m' s' k1 k2 d1 d2 where r: "testColours_loop data 0 0 0 0 True = (m', s', k1, k2, d1, d2)"
    by (metis prod_cases6)
  have "colours_seen {} 0 0 0 0 True" by (simp add: colours_seen_def)
  from testColours_loop_spec[OF r this] assms(2) obtain D where
    D: "colours_seen D k1 k2 d1 d2 s'" "D \<subseteq> set data" "m' \<longrightarrow> D = set data" "k1 \<noteq> 0" "s' \<longrightarrow> m'" by auto
  have e: "m = m'" "s = s'" "bg = (if k2 < k1 then d1 else d2)" "fg = (if k2 < k1 then d2 else d1)"
    using assms(1) r by (auto simp: testColours_def split: if_splits)
  show "bg \<in> set data" "s \<Longrightarrow> set data = {bg}" "m \<Longrightarrow> set data \<subseteq> {bg, fg}" "s \<Longrightarrow> m"
    using D unfolding e colours_seen_def by (auto split: if_splits)
qed

section \<open>The subrectangles of a tile\<close>

lemma length_hextile_subrect:
  "length (hextile_subrect monoc (s :: 'a::len word \<times> rect4)) = (if monoc then 2 else pixel_size TYPE('a) + 2)"
  by (simp add: hextile_subrect_def put_hextile_rect_def split: prod.split)

lemma hextile_loop_finds:
  assumes "hextile_loop monoc rawLen bg w h ps data n buf = Some (n', buf')"
  shows "n' = n + length (find_subrects bg w h ps data) \<and>
    buf' = buf @ concat (map (hextile_subrect monoc) (find_subrects bg w h ps data)) \<and> length buf' + 1 \<le> max rawLen (length buf + 1)"
  using assms
proof (induction monoc rawLen bg w h ps data n buf rule: hextile_loop.induct)
  case (2 monoc rawLen bg w h x y ps data n buf)
  show ?case
  proof (cases "data ! (y * w + x) \<noteq> bg")
    case True
    obtain tw th where t: "choose_subrect data w h x y = (tw, th)" by fastforce
    let ?s = "(data ! (y * w + x), x, y, tw, th)"
    define newLen where "newLen = (if monoc then 1 + length buf + 2 else 1 + length buf + pixel_size TYPE('a) + 2)"
    have e: "\<not> rawLen < newLen" "hextile_loop monoc rawLen bg w h ps (fill w bg x y tw th data) (n + 1) (buf @ hextile_subrect monoc ?s) = Some (n', buf')"
      using "2.prems" True t by (auto simp: Let_def newLen_def split: if_splits)
    have "length (buf @ hextile_subrect monoc ?s) + 1 = newLen" by (simp add: newLen_def length_hextile_subrect)
    then show ?thesis
      using "2.IH"(1)[OF True refl t[symmetric] refl newLen_def e] e(1) True t by auto
  next
    case False
    then have "hextile_loop monoc rawLen bg w h ps data n buf = Some (n', buf')" using "2.prems" by simp
    from "2.IH"(2)[OF False this] have ih: "n' = n + length (find_subrects bg w h ps data) \<and>
        buf' = buf @ concat (map (hextile_subrect monoc) (find_subrects bg w h ps data)) \<and> length buf' + 1 \<le> max rawLen (length buf + 1)" .
    have "find_subrects bg w h ((x, y) # ps) data = find_subrects bg w h ps data" using False by simp
    then show ?thesis by (simp only:) (rule ih)
  qed
qed simp

lemma set_fill: "set (fill w c x y tw th data) \<subseteq> insert c (set data)"
proof -
  have row: "set (fold (\<lambda>i d. d[f i := c]) is d) \<subseteq> insert c (set d)" for f "is" d
  proof (induction "is" arbitrary: d)
    case (Cons i "is")
    then show ?case using set_update_subset_insert[of d "f i" c] by fastforce
  qed auto
  have "set (fold (\<lambda>j. fold (\<lambda>i d. d[j * w + i := c]) is) js d) \<subseteq> insert c (set d)" for "is" js d
  proof (induction js arbitrary: d)
    case (Cons j js)
    then show ?case using row[of "\<lambda>i. j * w + i" "is" d] by fastforce
  qed auto
  then show ?thesis by (simp add: fill_def)
qed

lemma find_subrects_colours:
  assumes "length data = w * h" and "\<forall>(x, y)\<in>set ps. x < w \<and> y < h" and "s \<in> set (find_subrects bg w h ps data)"
  shows "fst s \<in> set data" "fst s \<noteq> bg"
proof -
  have "fst s \<in> set data \<and> fst s \<noteq> bg"
    using assms
  proof (induction bg w h ps data rule: find_subrects.induct)
    case (2 bg w h x y ps data)
    have at: "data ! (y * w + x) \<in> set data" using index_less[of x w y h] "2.prems"(1,2) by auto
    have ps: "\<forall>(x, y)\<in>set ps. x < w \<and> y < h" using "2.prems"(2) by simp
    show ?case
    proof (cases "data ! (y * w + x) \<noteq> bg")
      case True
      obtain tw th where t: "choose_subrect data w h x y = (tw, th)" by fastforce
      have "s = (data ! (y * w + x), x, y, tw, th) \<or> s \<in> set (find_subrects bg w h ps (fill w bg x y tw th data))"
        using "2.prems"(3) True t by simp
      then show ?thesis
      proof
        assume "s \<in> set (find_subrects bg w h ps (fill w bg x y tw th data))"
        then show ?thesis
          using "2.IH"(1)[OF True t[symmetric] refl _ ps] "2.prems"(1) set_fill[of w bg x y tw th data] by auto
      qed (use at True in simp)
    next
      case False
      then show ?thesis using "2.IH"(2)[OF False "2.prems"(1) ps] "2.prems"(3) by simp
    qed
  qed simp
  then show "fst s \<in> set data" "fst s \<noteq> bg" by simp_all
qed

lemma length_filter_le_filter:
  "(\<And>x. x \<in> set xs \<Longrightarrow> P x \<Longrightarrow> Q x) \<Longrightarrow> length (filter P xs) \<le> length (filter Q xs)"
  by (induction xs) (auto intro: le_SucI)

lemma length_find_subrects:
  assumes "length data = w * h" and "\<forall>(x, y)\<in>set ps. x < w \<and> y < h"
  shows "length (find_subrects bg w h ps data) \<le> length (filter (\<lambda>(x, y). data ! (y * w + x) \<noteq> bg) ps)"
  using assms
proof (induction bg w h ps data rule: find_subrects.induct)
  case (2 bg w h x y ps data)
  show ?case
  proof (cases "data ! (y * w + x) \<noteq> bg")
    case True
    obtain tw th where t: "choose_subrect data w h x y = (tw, th)" by fastforce
    have xy: "x < w" "y < h" using "2.prems"(2) by auto
    note ch = choose_subrect_ok[OF t xy]
    have "length (filter (\<lambda>(x', y'). fill w bg x y tw th data ! (y' * w + x') \<noteq> bg) ps) \<le>
        length (filter (\<lambda>(x, y). data ! (y * w + x) \<noteq> bg) ps)"
    proof (rule length_filter_le_filter)
      fix p assume "p \<in> set ps" and p: "case p of (x', y') \<Rightarrow> fill w bg x y tw th data ! (y' * w + x') \<noteq> bg"
      then obtain px py where "p = (px, py)" "px < w" "py < h" using "2.prems"(2) by auto
      then show "case p of (x, y) \<Rightarrow> data ! (y * w + x) \<noteq> bg"
        using p nth_fill[of px w x tw py data bg y th] ch(2) index_less[of px w py h] "2.prems"(1)
        by (auto split: if_splits)
    qed
    moreover have "length (find_subrects bg w h ps (fill w bg x y tw th data)) \<le>
        length (filter (\<lambda>(x', y'). fill w bg x y tw th data ! (y' * w + x') \<noteq> bg) ps)"
      using "2.IH"(1)[OF True t[symmetric] refl] "2.prems" by simp
    ultimately show ?thesis using True t by simp
  qed (use 2 in simp)
qed simp

lemma few_subrects:
  assumes "length data = w * h" "w \<le> 16" "h \<le> 16" "bg \<in> set data"
  shows "length (find_subrects bg w h (positions w h) data) < 256"
proof -
  have pos: "\<forall>(x, y)\<in>set (positions w h). x < w \<and> y < h" by (auto simp: positions_iff)
  obtain i where i: "i < w * h" "data ! i = bg" using assms(1,4) by (auto simp: in_set_conv_nth)
  then have "0 < w" by (cases w) auto
  with i(1) have "i div w < h" by (simp add: less_mult_imp_div_less mult.commute)
  then have at: "(i mod w, i div w) \<in> set (positions w h)" using \<open>0 < w\<close> by (simp add: positions_iff)
  have "length (filter (\<lambda>(x, y). data ! (y * w + x) \<noteq> bg) (positions w h)) < length (positions w h)"
    by (rule length_filter_less[OF at]) (simp add: i(2))
  moreover have "length (positions w h) = h * w" by (simp add: positions_def length_concat comp_def sum_list_triv)
  moreover have "h * w \<le> 16 * 16" using assms(2,3) by (intro mult_le_mono) simp_all
  ultimately show ?thesis using length_find_subrects[OF assms(1) pos, of bg] by linarith
qed

section \<open>The bytes of a tile\<close>

lemma nibbles:
  assumes "a < 16" "b < 16"
  shows "unat (drop_bit 4 (word_of_nat (push_bit 4 a OR b) :: uint8_t)) = a"
    and "unat ((word_of_nat (push_bit 4 a OR b) :: uint8_t) AND 0xf) = b"
proof -
  have b: "drop_bit 4 b = 0" "take_bit 4 b = b" using assms(2) by (simp_all add: drop_bit_eq_div take_bit_nat_eq_self)
  have "push_bit 4 a OR b = take_bit 8 (push_bit 4 a OR b)"
    using assms by (simp add: take_bit_push_bit take_bit_nat_eq_self)
  also have "\<dots> < 256" using take_bit_nat_less_exp[of 8 "push_bit 4 a OR b"] by simp
  finally have u: "unat (word_of_nat (push_bit 4 a OR b) :: uint8_t) = push_bit 4 a OR b" by (simp add: unat_of_nat)
  show "unat (drop_bit 4 (word_of_nat (push_bit 4 a OR b) :: uint8_t)) = a"
    by (simp add: unat_drop_bit_eq u b) (simp add: drop_bit_eq_div push_bit_eq_mult)
  have "(0xf :: uint8_t) = mask 4" by (simp add: mask_eq_exp_minus_1)
  then show "unat ((word_of_nat (push_bit 4 a OR b) :: uint8_t) AND 0xf) = b"
    by (simp only: flip: take_bit_eq_mask) (simp add: u b unsigned_take_bit_eq take_bit_push_bit)
qed

lemma extract_packed:
  "x < 16 \<Longrightarrow> y < 16 \<Longrightarrow> rfbHextileExtractXY (rfbHextilePackXY x y) = (x, y)"
  "1 \<le> w \<Longrightarrow> w \<le> 16 \<Longrightarrow> 1 \<le> h \<Longrightarrow> h \<le> 16 \<Longrightarrow> rfbHextileExtractWH (rfbHextilePackWH w h) = (w, h)"
  using nibbles[of x y] nibbles[of "w - 1" "h - 1"]
  by (simp_all add: rfbHextileExtractXY_def rfbHextilePackXY_def rfbHextileExtractWH_def rfbHextilePackWH_def)

lemma hextile_subrect_bytes:
  "hextile_subrect True (c, x, y, w, h) = [rfbHextilePackXY x y, rfbHextilePackWH w h]"
  "hextile_subrect False (c, x, y, w, h) = pixel_bytes c @ [rfbHextilePackXY x y, rfbHextilePackWH w h]"
  by (simp_all add: hextile_subrect_def put_hextile_rect_def)

lemma hextile_subrects_bytes:
  fixes subs :: "'a::len word subrect list"
  assumes "whole_bytes TYPE('a)" and "list_all (inside w h) subs" "w \<le> 16" "h \<le> 16"
    and "\<not> coloured \<Longrightarrow> \<forall>s\<in>set subs. fst s = fg"
  shows "\<exists>fg'. hextile_subrects width x y coloured (length subs) fg fb (concat (map (hextile_subrect (\<not> coloured)) subs)) =
      (fg', fill_subs width x y subs fb) \<and> (\<not> coloured \<longrightarrow> fg' = fg)"
  using assms
proof (induction subs arbitrary: fg fb)
  case Nil
  then show ?case by (simp add: fill_subs_def)
next
  case (Cons s subs)
  obtain c sx sy sw sh where s: "s = (c, sx, sy, sw, sh)" by (metis prod_cases5)
  have small: "sx < 16" "sy < 16" "1 \<le> sw" "sw \<le> 16" "1 \<le> sh" "sh \<le> 16"
    using Cons.prems(2-4) by (auto simp: s inside_def)
  note e = extract_packed(1)[OF small(1,2)] extract_packed(2)[OF small(3-6)]
  have "\<exists>fg'. hextile_subrects width x y coloured (length subs) c (FillRectangle width fb (x + sx) (y + sy) sw sh c)
      (concat (map (hextile_subrect (\<not> coloured)) subs)) =
      (fg', fill_subs width x y subs (FillRectangle width fb (x + sx) (y + sy) sw sh c)) \<and> (\<not> coloured \<longrightarrow> fg' = c)"
    using Cons.prems by (intro Cons.IH) (auto simp: s)
  moreover have "\<not> coloured \<Longrightarrow> c = fg" using Cons.prems(5) by (simp add: s)
  ultimately show ?case
    using Cons.prems(1) by (cases coloured) (simp_all add: s hextile_subrect_bytes fill_subs_def e)
qed

section \<open>One tile\<close>

text \<open>What the client remembers is what the server believes it does.\<close>

definition remembers :: "'p hextile_state \<Rightarrow> 'p \<Rightarrow> 'p \<Rightarrow> bool" where
  "remembers st bg fg \<longleftrightarrow> (validBg st \<longrightarrow> bg = ht_bg st) \<and> (validFg st \<longrightarrow> fg = ht_fg st)"

text \<open>The flags of a tile with subrectangles, and the bits the decoder tests.\<close>

definition tile_flags :: "bool \<Rightarrow> bool \<Rightarrow> bool \<Rightarrow> bool \<Rightarrow> uint8_t" where
  "tile_flags bg fg subs coloured =
     (let f = (if bg then rfbHextileBackgroundSpecified else 0);
          f = (if subs then f OR rfbHextileAnySubrects else f);
          f = (if fg then f OR rfbHextileForegroundSpecified else f)
      in if coloured then f OR rfbHextileSubrectsColoured else f)"

lemma flag_bits:
  "bit rfbHextileRaw n \<longleftrightarrow> n = 0" "bit rfbHextileBackgroundSpecified n \<longleftrightarrow> n = 1"
  "bit rfbHextileForegroundSpecified n \<longleftrightarrow> n = 2" "bit rfbHextileAnySubrects n \<longleftrightarrow> n = 3"
  "bit rfbHextileSubrectsColoured n \<longleftrightarrow> n = 4"
proof -
  have e: "bit ((2 :: uint8_t) ^ k) n \<longleftrightarrow> n = k" if "k < 8" for k
    using that by (auto simp: bit_exp_iff)
  show "bit rfbHextileRaw n \<longleftrightarrow> n = 0" using e[of 0] by (simp add: rfbHextileRaw_def)
  show "bit rfbHextileBackgroundSpecified n \<longleftrightarrow> n = 1" using e[of 1] by (simp add: rfbHextileBackgroundSpecified_def)
  show "bit rfbHextileForegroundSpecified n \<longleftrightarrow> n = 2" using e[of 2] by (simp add: rfbHextileForegroundSpecified_def)
  show "bit rfbHextileAnySubrects n \<longleftrightarrow> n = 3" using e[of 3] by (simp add: rfbHextileAnySubrects_def)
  show "bit rfbHextileSubrectsColoured n \<longleftrightarrow> n = 4" using e[of 4] by (simp add: rfbHextileSubrectsColoured_def)
qed

lemma tile_flags_bits:
  "bit (tile_flags bg fg subs coloured) 0 = False" "bit (tile_flags bg fg subs coloured) 1 = bg"
  "bit (tile_flags bg fg subs coloured) 2 = fg" "bit (tile_flags bg fg subs coloured) 3 = subs"
  "bit (tile_flags bg fg subs coloured) 4 = coloured"
  by (simp_all add: tile_flags_def Let_def bit_or_iff flag_bits)

lemma read_pixel_if_bytes:
  fixes p :: "'a::len word"
  assumes "whole_bytes TYPE('a)"
  shows "read_pixel_if due p ((if due then pixel_bytes q else []) @ rest) = Some (if due then q else p, rest)"
  using assms by (simp add: read_pixel_if_def)

lemma read_byte: "ReadFromRFBServer 1 (b # rest) = Some ([b], rest)"
  by (simp add: ReadFromRFBServer_def)

lemma length_chunks1: "length (concat (map pixel_bytes (ps :: 'a::len word list))) = length ps * pixel_size TYPE('a)"
  using length_chunks[of "\<lambda>p. p" ps] by simp

text \<open>The decoder after the byte of flags.\<close>

definition after_flags ::
    "nat \<Rightarrow> nat \<Rightarrow> nat \<Rightarrow> nat \<Rightarrow> nat \<Rightarrow> bool \<Rightarrow> bool \<Rightarrow> 'a::len word \<Rightarrow> 'a word \<Rightarrow> 'a word list \<Rightarrow> uint8_t list \<Rightarrow>
     ('a word \<times> 'a word \<times> 'a word list \<times> uint8_t list) option" where
  "after_flags W x y w h subs coloured bg fg fb inp =
     (let fb = FillRectangle W fb x y w h bg
      in if \<not> subs then Some (bg, fg, fb, inp)
         else (let n = unat (inp ! 0); len = n * (if coloured then 2 + pixel_size TYPE('a) else 2)
               in case ReadFromRFBServer len (drop 1 inp) of
                    None \<Rightarrow> None
                  | Some (ptr, inp) \<Rightarrow>
                     (let (fg, fb) = hextile_subrects W x y coloured n fg fb ptr in Some (bg, fg, fb, inp))))"

lemma tile_after_flags:
  fixes bg fg :: "'a::len word"
  assumes "whole_bytes TYPE('a)" and "subs \<Longrightarrow> inp \<noteq> []"
  shows "HandleHextile_tile W x y w h
      (bg, fg, fb, tile_flags b1 b2 subs coloured # (if b1 then pixel_bytes bg' else []) @ (if b2 then pixel_bytes fg' else []) @ inp) =
    after_flags W x y w h subs coloured (if b1 then bg' else bg) (if b2 then fg' else fg) fb inp"
proof -
  have sub: "[tile_flags b1 b2 subs coloured] ! 0 = tile_flags b1 b2 subs coloured" by simp
  have d: "drop 1 (b # bs) = bs" "(b # bs) ! 0 = b" for b :: uint8_t and bs by simp_all
  have "subs \<Longrightarrow> \<exists>b bs. inp = b # bs" using assms(2) by (cases inp) auto
  then show ?thesis
    unfolding HandleHextile_tile_def prod.case Let_def read_byte option.case sub tile_flags_bits
      read_pixel_if_bytes[OF assms(1), of b1 bg bg'] read_pixel_if_bytes[OF assms(1), of b2 fg fg'] if_False
    by (auto simp: after_flags_def read_byte Let_def d simp del: One_nat_def cong: option.case_cong)
qed

lemma raw_tile_shows:
  fixes data :: "'a::len word list"
  assumes "length data = w * h" and "whole_bytes TYPE('a)" and "shows_pixels W H fb f" "x + w \<le> W" "y + h \<le> H"
  shows "\<exists>fb'. HandleHextile_tile W x y w h (bg, fg, fb, rfbHextileRaw # concat (map pixel_bytes data) @ rest) =
      Some (bg, fg, fb', rest) \<and> shows_pixels W H fb' (overlay x y w h (\<lambda>px py. data ! (py * w + px)) f)"
proof -
  have sub: "[rfbHextileRaw] ! 0 = rfbHextileRaw" by simp
  have "ReadFromRFBServer (w * h * pixel_size TYPE('a)) (concat (map pixel_bytes data) @ rest) =
      Some (concat (map pixel_bytes data), rest)"
    by (rule read_append) (simp add: length_chunks1 assms(1))
  then have "HandleHextile_tile W x y w h (bg, fg, fb, rfbHextileRaw # concat (map pixel_bytes data) @ rest) =
      Some (bg, fg, CopyRectangle W fb data x y w h, rest)"
    unfolding HandleHextile_tile_def prod.case Let_def read_byte option.case sub
    by (simp add: flag_bits unchunk[OF assms(2,1)])
  then show ?thesis using CopyRectangle_shows[OF assms(3-5,1)] by simp
qed

lemma solid_tile_shows:
  fixes bg :: "'a::len word"
  assumes "shows_pixels W H fb f" "x + w \<le> W"
  shows "\<exists>fb'. after_flags W x y w h False coloured bg fg fb rest = Some (bg, fg, fb', rest) \<and>
    shows_pixels W H fb' (overlay x y w h (\<lambda>_ _. bg) f)"
  using shows_fill[OF assms] by (simp add: after_flags_def)

lemma subrects_tile_shows:
  fixes data :: "'a::len word list"
  assumes "hextile_subrectEncode (\<not> coloured) data w h bg = Some bytes"
    and "length data = w * h" "w \<le> 16" "h \<le> 16" "bg \<in> set data" and "whole_bytes TYPE('a)"
    and "\<not> coloured \<Longrightarrow> set data \<subseteq> {bg, fg}"
    and "shows_pixels W H fb f" "x + w \<le> W" "y + h \<le> H"
  shows "\<exists>fg' fb'. after_flags W x y w h True coloured bg fg fb (bytes @ rest) = Some (bg, fg', fb', rest) \<and>
    (\<not> coloured \<longrightarrow> fg' = fg) \<and> shows_pixels W H fb' (overlay x y w h (\<lambda>px py. data ! (py * w + px)) f) \<and>
    length bytes \<le> max (w * h * pixel_size TYPE('a)) 1"
proof -
  define subs where "subs = find_subrects bg w h (positions w h) data"
  obtain n buf where loop: "hextile_loop (\<not> coloured) (w * h * pixel_size TYPE('a)) bg w h (positions w h) data 0 [] = Some (n, buf)"
    and bytes: "bytes = word_of_nat n # buf"
    using assms(1) by (auto simp: hextile_subrectEncode_def)
  note finds = hextile_loop_finds[OF loop, folded subs_def]
  have n: "n = length subs" "buf = concat (map (hextile_subrect (\<not> coloured)) subs)" using finds by simp_all
  have len: "length bytes \<le> max (w * h * pixel_size TYPE('a)) 1"
    using conjunct2[OF conjunct2[OF finds]] by (simp add: bytes)
  have pos: "\<forall>(x, y)\<in>set (positions w h). x < w \<and> y < h" by (auto simp: positions_iff)
  note all = find_all_paints[OF assms(2) subs_def]
  have col: "\<forall>s\<in>set subs. fst s \<in> set data \<and> fst s \<noteq> bg"
    using find_subrects_colours[OF assms(2) pos] by (simp add: subs_def)
  have few: "length subs < 256" unfolding subs_def by (rule few_subrects[OF assms(2,3,4,5)])
  define fb1 where "fb1 = FillRectangle W fb x y w h bg"
  have "shows_pixels W H fb1 (overlay x y w h (\<lambda>_ _. bg) f)"
    unfolding fb1_def by (rule shows_fill[OF assms(8,9)])
  from shows_fill_subs[OF this assms(9,10) all(1)]
  have shown: "shows_pixels W H (fill_subs W x y subs fb1) (overlay x y w h (\<lambda>px py. data ! (py * w + px)) f)"
    using overlay_cong[of w h "paint subs (\<lambda>_ _. bg)" "\<lambda>px py. data ! (py * w + px)" x y f] all(2) by simp
  have "\<exists>fg'. hextile_subrects W x y coloured (length subs) fg fb1 buf = (fg', fill_subs W x y subs fb1) \<and> (\<not> coloured \<longrightarrow> fg' = fg)"
    unfolding n(2) by (rule hextile_subrects_bytes[OF assms(6) all(1) assms(3,4)]) (use assms(7) col in auto)
  then obtain fg' where h: "hextile_subrects W x y coloured (length subs) fg fb1 buf = (fg', fill_subs W x y subs fb1)"
    "\<not> coloured \<longrightarrow> fg' = fg" by blast
  have "length buf = length subs * (if coloured then 2 + pixel_size TYPE('a) else 2)"
    unfolding n(2) by (induction subs) (simp_all add: length_hextile_subrect)
  moreover have "unat (word_of_nat n :: uint8_t) = length subs" using few n(1) by (simp add: unat_of_nat)
  ultimately have "after_flags W x y w h True coloured bg fg fb (bytes @ rest) = Some (bg, fg', fill_subs W x y subs fb1, rest)"
    by (simp add: after_flags_def bytes h Let_def flip: fb1_def)
  with h(2) shown len show ?thesis by blast
qed

lemma hextile_tile_shows:
  fixes data :: "'a::len word list"
  assumes "hextile_tile data w h st = (bytes, st')" and "remembers st bg fg"
    and data: "length data = w * h" "0 < w" "w \<le> 16" "0 < h" "h \<le> 16" and "whole_bytes TYPE('a)"
    and fb: "shows_pixels W H fb f" "x + w \<le> W" "y + h \<le> H"
  shows "\<exists>bg' fg' fb'. HandleHextile_tile W x y w h (bg, fg, fb, bytes @ rest) = Some (bg', fg', fb', rest) \<and>
    remembers st' bg' fg' \<and> shows_pixels W H fb' (overlay x y w h (\<lambda>px py. data ! (py * w + px)) f)" (is ?shown)
    and "length bytes \<le> 1 + (2 + w * h) * pixel_size TYPE('a)" (is ?small)
proof -
  obtain monoc solid newBg newFg where t: "testColours data = (monoc, solid, newBg, newFg)" by (metis prod_cases4)
  have "data \<noteq> []" using data by auto
  note tc = testColours_spec[OF t this]
  define b1 where "b1 \<longleftrightarrow> \<not> validBg st \<or> newBg \<noteq> ht_bg st"
  define st1 where "st1 = (if b1 then st\<lparr>validBg := True, ht_bg := newBg\<rparr> else st)"
  define b2 where "b2 \<longleftrightarrow> monoc \<and> (\<not> validFg st1 \<or> newFg \<noteq> ht_fg st1)"
  define st2 where "st2 = (if b2 then st1\<lparr>validFg := True, ht_fg := newFg\<rparr> else if monoc then st1 else st1\<lparr>validFg := False\<rparr>)"
  define bgB where "bgB = (if b1 then pixel_bytes newBg else [])"
  define fgB where "fgB = (if b2 then pixel_bytes newFg else [])"
  have bg: "(if b1 then newBg else bg) = newBg" "ht_bg st1 = newBg" "validBg st1" "ht_bg st2 = newBg" "validBg st2"
    using assms(2) by (auto simp: b1_def st1_def st2_def remembers_def)
  have v1: "validFg st1 = validFg st" "ht_fg st1 = ht_fg st" by (simp_all add: st1_def)
  have fg: "monoc \<Longrightarrow> (if b2 then newFg else fg) = newFg" "validFg st1 \<Longrightarrow> ht_fg st1 = fg"
    "validFg st2 \<Longrightarrow> monoc \<and> ht_fg st2 = newFg"
    using assms(2) by (auto simp: b2_def st2_def v1 remembers_def split: if_splits)
  have f: "(if b1 then (rfbHextileBackgroundSpecified, pixel_bytes newBg, st\<lparr>validBg := True, ht_bg := newBg\<rparr>) else (0, [], st)) =
      (tile_flags b1 False False False, bgB, st1)"
    by (simp add: tile_flags_def bgB_def st1_def)
  have g: "(if monoc then (if \<not> validFg st1 \<or> newFg \<noteq> ht_fg st1
        then ((tile_flags b1 False False False OR rfbHextileAnySubrects) OR rfbHextileForegroundSpecified, pixel_bytes newFg, st1\<lparr>validFg := True, ht_fg := newFg\<rparr>)
        else (tile_flags b1 False False False OR rfbHextileAnySubrects, [], st1))
      else ((tile_flags b1 False False False OR rfbHextileAnySubrects) OR rfbHextileSubrectsColoured, [], st1\<lparr>validFg := False\<rparr>)) =
      (tile_flags b1 b2 True (\<not> monoc), fgB, st2)"
    by (cases monoc) (auto simp: tile_flags_def fgB_def st2_def b2_def Let_def)
  have e: "hextile_tile data w h st = (if solid then (tile_flags b1 False False False # bgB, st1)
      else case hextile_subrectEncode monoc data w h newBg of
        Some subs \<Rightarrow> (tile_flags b1 b2 True (\<not> monoc) # bgB @ fgB @ subs, st2)
      | None \<Rightarrow> (rfbHextileRaw # concat (map pixel_bytes data), st2\<lparr>validBg := False, validFg := False\<rparr>))"
    unfolding hextile_tile_def t Let_def prod.case b1_def[symmetric] f g bg(4) ..
  have flags: "HandleHextile_tile W x y w h (bg, fg, fb, tile_flags b1 b2 subs coloured # bgB @ fgB @ inp) =
      after_flags W x y w h subs coloured newBg (if b2 then newFg else fg) fb inp" if "subs \<Longrightarrow> inp \<noteq> []" for subs coloured inp
    using tile_after_flags[where inp = inp, OF assms(8) that] bg(1) unfolding bgB_def fgB_def by simp
  have "?shown \<and> ?small"
  proof (cases solid)
    case True
    have "set data = {newBg}" using tc(2) True by simp
    then have "data ! (py * w + px) = newBg" if "px < w" "py < h" for px py
      using nth_mem[of "py * w + px" data] index_less[OF that] data(1) by auto
    then have o: "overlay x y w h (\<lambda>_ _. newBg) f = overlay x y w h (\<lambda>px py. data ! (py * w + px)) f"
      by (intro overlay_cong) simp
    have b: "bytes = tile_flags b1 False False False # bgB @ []" "st' = st1" using e True assms(1) by auto
    have "HandleHextile_tile W x y w h (bg, fg, fb, bytes @ rest) = after_flags W x y w h False False newBg fg fb rest"
      using tile_after_flags[OF assms(8), of False rest W x y w h bg fg fb b1 False False newBg newFg] bg(1)
      by (simp add: b bgB_def)
    moreover have "remembers st' newBg fg" using bg fg by (auto simp: remembers_def b)
    moreover have "length bytes \<le> 1 + pixel_size TYPE('a)" by (simp add: b bgB_def)
    ultimately show ?thesis using solid_tile_shows[OF fb(1,2), of y h False newBg fg rest] o by auto
  next
    case ns: False
    show ?thesis
    proof (cases "hextile_subrectEncode monoc data w h newBg")
      case None
      have b: "bytes = rfbHextileRaw # concat (map pixel_bytes data)" "\<not> validBg st'" "\<not> validFg st'"
        using e ns None assms(1) by auto
      then have "remembers st' bg fg" by (simp add: remembers_def)
      moreover have "length bytes \<le> 1 + (2 + w * h) * pixel_size TYPE('a)" by (simp add: b length_chunks1 data(1))
      ultimately show ?thesis using raw_tile_shows[OF data(1) assms(8) fb, of bg fg rest] b(1) by auto
    next
      case (Some subs)
      have b: "bytes = tile_flags b1 b2 True (\<not> monoc) # bgB @ fgB @ subs" "st' = st2" using e ns Some assms(1) by auto
      have ne: "subs \<noteq> []" using Some by (auto simp: hextile_subrectEncode_def)
      have enc: "hextile_subrectEncode (\<not> \<not> monoc) data w h newBg = Some subs" using Some by simp
      have col: "\<not> \<not> monoc \<Longrightarrow> set data \<subseteq> {newBg, if b2 then newFg else fg}" using tc(3) fg(1) by simp
      from subrects_tile_shows[OF enc data(1,3,5) tc(1) assms(8) col fb, of rest]
      obtain fg' fb' where r: "after_flags W x y w h True (\<not> monoc) newBg (if b2 then newFg else fg) fb (subs @ rest) = Some (newBg, fg', fb', rest)"
        "monoc \<longrightarrow> fg' = (if b2 then newFg else fg)" "shows_pixels W H fb' (overlay x y w h (\<lambda>px py. data ! (py * w + px)) f)"
        "length subs \<le> max (w * h * pixel_size TYPE('a)) 1" by auto
      have "HandleHextile_tile W x y w h (bg, fg, fb, bytes @ rest) = Some (newBg, fg', fb', rest)"
        using flags[of True "subs @ rest"] r(1) ne by (simp add: b)
      moreover have "remembers st' newBg fg'" using bg fg r(2) by (auto simp: remembers_def b)
      moreover have "length bytes \<le> 1 + (2 + w * h) * pixel_size TYPE('a)"
      proof -
        have "0 < pixel_size TYPE('a)" using dvd_imp_le[OF assms(8)] by (simp add: pixel_size_def div_greater_zero_iff)
        then have "0 < w * h * pixel_size TYPE('a)" using data by simp
        then have "length subs \<le> w * h * pixel_size TYPE('a)" using r(4) by linarith
        moreover have "length bgB \<le> pixel_size TYPE('a)" "length fgB \<le> pixel_size TYPE('a)" by (simp_all add: bgB_def fgB_def)
        ultimately show ?thesis by (simp add: b add_mult_distrib)
      qed
      ultimately show ?thesis using r(3) by blast
    qed
  qed
  then show ?shown ?small by simp_all
qed

section \<open>A rectangle\<close>

lemma tile_starts_in:
  "x \<in> set (tile_starts r n) \<Longrightarrow> r \<le> x \<and> 0 < tile_size r n x \<and> tile_size r n x \<le> 16 \<and> x + tile_size r n x \<le> r + n"
  by (auto simp: tile_starts_def tile_size_def)

lemma tile_starts_cover: "(\<exists>x\<in>set (tile_starts r n). x \<le> X \<and> X < x + tile_size r n x) \<longleftrightarrow> r \<le> X \<and> X < r + n"
proof
  assume "r \<le> X \<and> X < r + n"
  then have X: "r \<le> X" "X < r + n" by simp_all
  define k where "k = (X - r) div 16"
  have k: "r + 16 * k \<le> X" "X < r + 16 * k + 16" "k < (n + 15) div 16" using X by (auto simp: k_def)
  then have "r + 16 * k \<in> set (tile_starts r n)" by (auto simp: tile_starts_def)
  moreover have "X < (r + 16 * k) + tile_size r n (r + 16 * k)" using k X by (simp add: tile_size_def)
  ultimately show "\<exists>x\<in>set (tile_starts r n). x \<le> X \<and> X < x + tile_size r n x" using k(1) by blast
qed (use tile_starts_in in fastforce)

lemma tile_corners_cover:
  "(\<exists>(x, y)\<in>set (tile_corners rx ry rw rh). in_rect x y (tile_size rx rw x) (tile_size ry rh y) X Y) \<longleftrightarrow> in_rect rx ry rw rh X Y"
proof -
  have "(\<exists>(x, y)\<in>set (tile_corners rx ry rw rh). in_rect x y (tile_size rx rw x) (tile_size ry rh y) X Y) \<longleftrightarrow>
      (\<exists>x\<in>set (tile_starts rx rw). x \<le> X \<and> X < x + tile_size rx rw x) \<and>
      (\<exists>y\<in>set (tile_starts ry rh). y \<le> Y \<and> Y < y + tile_size ry rh y)"
    unfolding tile_corners_def in_rect_def by auto
  then show ?thesis by (simp add: tile_starts_cover in_rect_def)
qed

text \<open>All the bytes of the tiles, each made with what is remembered of those before.\<close>

fun tiles_bytes ::
    "(nat \<Rightarrow> nat \<Rightarrow> 'a::len word) \<Rightarrow> nat \<Rightarrow> nat \<Rightarrow> nat \<Rightarrow> nat \<Rightarrow> (nat \<times> nat) list \<Rightarrow> 'a word hextile_state \<Rightarrow> uint8_t list" where
  "tiles_bytes fb rx ry rw rh [] st = []"
| "tiles_bytes fb rx ry rw rh ((x, y) # ts) st =
     (let w = tile_size rx rw x; h = tile_size ry rh y; (bytes, st) = hextile_tile (tile fb x y w h) w h st
      in bytes @ tiles_bytes fb rx ry rw rh ts st)"

definition hextile_start :: "'a::len word hextile_state" where
  "hextile_start = \<lparr>ht_bg = 0, ht_fg = 0, validBg = False, validFg = False\<rparr>"

lemma overlay_picture: "overlay x y w h (\<lambda>px py. pic (x + px) (y + py)) f = (\<lambda>X Y. if in_rect x y w h X Y then pic X Y else f X Y)"
  by (intro ext) (auto simp: overlay_def in_rect_def)

lemma HandleHextile_tiles_show:
  fixes pic :: "nat \<Rightarrow> nat \<Rightarrow> 'a::len word"
  assumes "\<forall>(x, y)\<in>set ts. x \<in> set (tile_starts rx rw) \<and> y \<in> set (tile_starts ry rh)"
    and "remembers st bg fg" and "whole_bytes TYPE('a)"
    and "shows_pixels W H fb f" "rx + rw \<le> W" "ry + rh \<le> H"
  shows "\<exists>fb'. HandleHextile_tiles W rx ry rw rh ts (bg, fg, fb, tiles_bytes pic rx ry rw rh ts st @ rest) = Some (fb', rest) \<and>
    shows_pixels W H fb' (\<lambda>X Y. if \<exists>(x, y)\<in>set ts. in_rect x y (tile_size rx rw x) (tile_size ry rh y) X Y then pic X Y else f X Y)"
  using assms
proof (induction ts arbitrary: st bg fg fb f)
  case (Cons t ts)
  obtain x y where t: "t = (x, y)" by fastforce
  define w where "w = tile_size rx rw x"
  define h where "h = tile_size ry rh y"
  obtain bytes st' where b: "hextile_tile (tile pic x y w h) w h st = (bytes, st')" by fastforce
  have "x \<in> set (tile_starts rx rw)" "y \<in> set (tile_starts ry rh)" using Cons.prems(1) by (simp_all add: t)
  then have wh: "0 < w" "w \<le> 16" "0 < h" "h \<le> 16" "x + w \<le> W" "y + h \<le> H"
    using tile_starts_in[of x rx rw] tile_starts_in[of y ry rh] Cons.prems(5,6) by (simp_all add: w_def h_def)
  from hextile_tile_shows(1)[OF b Cons.prems(2) _ wh(1-4) Cons.prems(3,4) wh(5,6), of "tiles_bytes pic rx ry rw rh ts st' @ rest"]
  obtain bg' fg' fb' where r: "HandleHextile_tile W x y w h (bg, fg, fb, bytes @ tiles_bytes pic rx ry rw rh ts st' @ rest) =
      Some (bg', fg', fb', tiles_bytes pic rx ry rw rh ts st' @ rest)" "remembers st' bg' fg'"
    "shows_pixels W H fb' (overlay x y w h (\<lambda>px py. tile pic x y w h ! (py * w + px)) f)" by auto
  have o: "overlay x y w h (\<lambda>px py. tile pic x y w h ! (py * w + px)) f = (\<lambda>X Y. if in_rect x y w h X Y then pic X Y else f X Y)"
    unfolding overlay_picture[symmetric] by (rule overlay_cong) (rule nth_tile)
  have ts: "\<forall>(x, y)\<in>set ts. x \<in> set (tile_starts rx rw) \<and> y \<in> set (tile_starts ry rh)" using Cons.prems(1) by simp
  from Cons.IH[OF ts r(2) Cons.prems(3) r(3)[unfolded o] Cons.prems(5,6)]
  obtain fb2 where s: "HandleHextile_tiles W rx ry rw rh ts (bg', fg', fb', tiles_bytes pic rx ry rw rh ts st' @ rest) = Some (fb2, rest)"
    "shows_pixels W H fb2 (\<lambda>X Y. if \<exists>(x, y)\<in>set ts. in_rect x y (tile_size rx rw x) (tile_size ry rh y) X Y then pic X Y
       else if in_rect x y w h X Y then pic X Y else f X Y)" by blast
  have "tiles_bytes pic rx ry rw rh (t # ts) st = bytes @ tiles_bytes pic rx ry rw rh ts st'"
    using b by (simp add: t flip: w_def h_def)
  then have "HandleHextile_tiles W rx ry rw rh (t # ts) (bg, fg, fb, tiles_bytes pic rx ry rw rh (t # ts) st @ rest) = Some (fb2, rest)"
    using r(1) s(1) by (simp add: t flip: w_def h_def)
  moreover have "(\<lambda>X Y. if \<exists>(x, y)\<in>set (t # ts). in_rect x y (tile_size rx rw x) (tile_size ry rh y) X Y then pic X Y else f X Y) =
      (\<lambda>X Y. if \<exists>(x, y)\<in>set ts. in_rect x y (tile_size rx rw x) (tile_size ry rh y) X Y then pic X Y
       else if in_rect x y w h X Y then pic X Y else f X Y)"
    by (intro ext) (simp add: t w_def h_def)
  ultimately show ?case using s(2) by auto
qed simp

lemma HandleHextile_shows:
  fixes pic :: "nat \<Rightarrow> nat \<Rightarrow> 'a::len word"
  assumes "whole_bytes TYPE('a)" and "shows_pixels W H fb f" "rx + rw \<le> W" "ry + rh \<le> H"
  shows "\<exists>fb'. HandleHextile bg fg W fb (tiles_bytes pic rx ry rw rh (tile_corners rx ry rw rh) hextile_start @ rest) rx ry rw rh =
      Some (fb', rest) \<and> shows_pixels W H fb' (overlay rx ry rw rh (\<lambda>px py. pic (rx + px) (ry + py)) f)"
proof -
  have ts: "\<forall>(x, y)\<in>set (tile_corners rx ry rw rh). x \<in> set (tile_starts rx rw) \<and> y \<in> set (tile_starts ry rh)"
    by (auto simp: tile_corners_def)
  have "remembers hextile_start bg fg" by (simp add: remembers_def hextile_start_def)
  from HandleHextile_tiles_show[OF ts this assms, of pic rest]
  show ?thesis unfolding overlay_picture
    by (simp add: HandleHextile_def tile_corners_cover)
qed

end
