(* ===== verification/HextileStream.thy ===== *)
theory HextileStream
  imports SendStream HextileRoundtrip
begin

text \<open>
  The Hextile encoder of the server and the update buffer: a tile always fits in the buffer once it has
  made room for the largest one, and what reaches the client decodes to the rectangle.
\<close>

section \<open>The tiles in the update buffer\<close>

definition hextile_message :: "(nat \<Rightarrow> nat \<Rightarrow> 'a::len word) \<Rightarrow> nat \<Rightarrow> nat \<Rightarrow> nat \<Rightarrow> nat \<Rightarrow> uint8_t list" where
  "hextile_message fb x y w h =
     rect_header x y w h rfbEncodingHextile @ tiles_bytes fb x y w h (tile_corners x y w h) hextile_start"

text \<open>A message of bounded length, behind a check for room.\<close>

lemma delivers_put:
  assumes "length msg \<le> n" and "n \<le> UPDATE_BUF_SIZE" and "delivers g rest"
  shows "delivers (\<lambda>cl. let (ok, cl) = make_room n cl in if \<not> ok then (False, cl) else g (put_bytes msg cl)) (msg @ rest)"
  unfolding delivers_def
proof (intro allI conjI impI)
  fix cl
  let ?f = "let (ok, cl) = make_room n cl in if \<not> ok then (False, cl) else g (put_bytes msg cl)"
  obtain ok cl1 where m: "make_room n cl = (ok, cl1)" by fastforce
  have e: "?f = (if \<not> ok then (False, cl1) else g (put_bytes msg cl1))" by (simp add: m)
  have c1: "sock_open cl1 \<Longrightarrow> sock_open cl" "\<not> ok \<Longrightarrow> \<not> sock_open cl1" using make_room_closed[of n cl] m by simp_all
  have was: "sock_open (snd ?f) \<Longrightarrow> sock_open cl1 \<and> ok"
    using delivers_open[OF assms(3), of "put_bytes msg cl1"] c1(2) unfolding e by (auto split: if_splits)
  show "sock_open (snd ?f) \<Longrightarrow> sock_open cl" using was c1 by blast
  assume "buf_ok cl \<and> sock_open (snd ?f)"
  then have *: "buf_ok cl" "sock_open (snd ?f)" by simp_all
  then have ok: ok using was by blast
  have room: "stream cl1 = stream cl \<and> length (updateBuf cl1) + n \<le> UPDATE_BUF_SIZE"
    using make_room_stream[OF m *(1)] ok assms(2) by simp
  then have "buf_ok (put_bytes msg cl1)" "stream (put_bytes msg cl1) = stream cl @ msg"
    using assms(1) by (simp_all add: buf_ok_def put_bytes_stream) (simp add: put_bytes_def)
  with delivers_stream[OF assms(3), of "put_bytes msg cl1"] * ok
  show "fst ?f" "buf_ok (snd ?f)" "stream (snd ?f) = stream cl @ msg @ rest" unfolding e by auto
qed

lemma delivers_tiles:
  fixes fb :: "nat \<Rightarrow> nat \<Rightarrow> 'a::len word"
  assumes "\<forall>(x, y)\<in>set ts. x \<in> set (tile_starts rx rw) \<and> y \<in> set (tile_starts ry rh)"
    and "whole_bytes TYPE('a)" "LENGTH('a) \<le> 32"
  shows "delivers (send_tiles fb rx ry rw rh ts st) (tiles_bytes fb rx ry rw rh ts st)"
  using assms(1)
proof (induction ts arbitrary: st)
  case Nil
  then show ?case using delivers_nothing by simp
next
  case (Cons t ts)
  obtain x y where t: "t = (x, y)" by fastforce
  define w where "w = tile_size rx rw x"
  define h where "h = tile_size ry rh y"
  define n where "n = 1 + (2 + 16 * 16) * pixel_size TYPE('a)"
  obtain bytes st' where b: "hextile_tile (tile fb x y w h) w h st = (bytes, st')" by fastforce
  have "x \<in> set (tile_starts rx rw)" "y \<in> set (tile_starts ry rh)" using Cons.prems by (simp_all add: t)
  then have wh: "0 < w" "w \<le> 16" "0 < h" "h \<le> 16"
    using tile_starts_in[of x rx rw] tile_starts_in[of y ry rh] by (simp_all add: w_def h_def)
  have "remembers st (ht_bg st) (ht_fg st)" by (simp add: remembers_def)
  from hextile_tile_shows(2)[OF b this length_tile wh assms(2), of w h "replicate (w * h) 0" "\<lambda>_ _. 0" 0 0]
  have "length bytes \<le> 1 + (2 + w * h) * pixel_size TYPE('a)" using index_less[of _ w _ h] by (simp add: shows_pixels_def)
  also have "\<dots> \<le> n" unfolding n_def using wh by (intro add_left_mono mult_right_mono mult_le_mono) auto
  finally have len: "length bytes \<le> n" .
  have "pixel_size TYPE('a) \<le> 4" using assms(3) by (simp add: pixel_size_def)
  then have small: "n \<le> UPDATE_BUF_SIZE" by (simp add: n_def UPDATE_BUF_SIZE_def)
  have ih: "delivers (send_tiles fb rx ry rw rh ts st') (tiles_bytes fb rx ry rw rh ts st')"
    using Cons by simp
  have "send_tiles fb rx ry rw rh (t # ts) st =
      (\<lambda>cl. let (ok, cl) = make_room n cl in if \<not> ok then (False, cl) else send_tiles fb rx ry rw rh ts st' (put_bytes bytes cl))"
    using b by (intro ext) (simp add: t n_def[simplified] split: prod.split flip: w_def h_def)
  moreover have "tiles_bytes fb rx ry rw rh (t # ts) st = bytes @ tiles_bytes fb rx ry rw rh ts st'"
    using b by (simp add: t flip: w_def h_def)
  ultimately show ?case using delivers_put[OF len small ih] by simp
qed

lemma delivers_Hextile:
  fixes fb :: "nat \<Rightarrow> nat \<Rightarrow> 'a::len word"
  assumes "LENGTH('a) = 8 \<or> LENGTH('a) = 16 \<or> LENGTH('a) = 32"
  shows "delivers (rfbSendRectEncodingHextile fb x y w h) (hextile_message fb x y w h)"
proof -
  have corners: "\<forall>(cx, cy)\<in>set (tile_corners x y w h). cx \<in> set (tile_starts x w) \<and> cy \<in> set (tile_starts y h)"
    by (auto simp: tile_corners_def)
  have "whole_bytes TYPE('a)" "LENGTH('a) \<le> 32" using assms by auto
  from delivers_put[OF _ _ delivers_tiles[OF corners this, of fb hextile_start], of "rect_header x y w h rfbEncodingHextile" 12]
  have "delivers (\<lambda>cl. let (ok, cl) = make_room 12 cl in if \<not> ok then (False, cl)
      else send_tiles fb x y w h (tile_corners x y w h) hextile_start (put_bytes (rect_header x y w h rfbEncodingHextile) cl))
    (hextile_message fb x y w h)"
    by (simp add: UPDATE_BUF_SIZE_def hextile_message_def)
  moreover have "rfbSendRectEncodingHextile fb x y w h = (\<lambda>cl. let (ok, cl) = make_room 12 cl in if \<not> ok then (False, cl)
      else send_tiles fb x y w h (tile_corners x y w h) hextile_start (put_bytes (rect_header x y w h rfbEncodingHextile) cl))"
    using assms by (intro ext) (simp add: rfbSendRectEncodingHextile_def sz_rfbFramebufferUpdateRectHeader_def sendHextiles_def hextile_start_def Let_def split: prod.split)
  ultimately show ?thesis by simp
qed

section \<open>The round trip\<close>

text \<open>
  C14: Hextile round trip. Whatever rectangle the server encodes, the bytes it adds to the stream after the
  header decode to exactly those pixels, whatever the decoder's colours held before, with the next bytes
  left unread: leaving out a colour the tile before has set never changes what is shown, and the
  number of subrectangles always fits in its byte.
\<close>

theorem HandleHextile_decodes:
  fixes pic :: "nat \<Rightarrow> nat \<Rightarrow> 'a::len word"
  assumes "buf_ok cl" "sock_open (snd (rfbSendRectEncodingHextile pic x y w h cl))"
    and "LENGTH('a) = 8 \<or> LENGTH('a) = 16 \<or> LENGTH('a) = 32"
    and "shows_pixels W H fb f" "x + w \<le> W" "y + h \<le> H"
  shows "\<exists>body. stream (snd (rfbSendRectEncodingHextile pic x y w h cl)) = stream cl @ rect_header x y w h rfbEncodingHextile @ body \<and>
    (\<forall>bg fg rest. \<exists>fb'. HandleHextile bg fg W fb (body @ rest) x y w h = Some (fb', rest) \<and>
      shows_pixels W H fb' (overlay x y w h (\<lambda>px py. pic (x + px) (y + py)) f))"
proof -
  have "8 dvd LENGTH('a)" using assms(3) by auto
  from HandleHextile_shows[OF this assms(4-6)] delivers_stream[OF delivers_Hextile[OF assms(3)] assms(1,2)]
  show ?thesis by (auto simp: hextile_message_def)
qed

lemma demo_hextile_open:
  fixes pic :: "nat \<Rightarrow> nat \<Rightarrow> 8 word"
  assumes "updateBuf cl = []" "sock_open cl"
  shows "sock_open (snd (rfbSendRectEncodingHextile pic 0 0 2 1 cl))"
proof -
  have "tile_corners 0 0 2 1 = [(0, 0)]" by code_simp
  then show ?thesis
    using assms by (simp add: rfbSendRectEncodingHextile_def sendHextiles_def make_room_def put_bytes_def UPDATE_BUF_SIZE_def
        sz_rfbFramebufferUpdateRectHeader_def pixel_size_def Let_def split: prod.split)
qed

theorem HandleHextile_decodes_witness:
  "\<exists>body. stream (snd (rfbSendRectEncodingHextile (\<lambda>X Y. if X = 0 then 7 else 9 :: uint8_t) 0 0 2 1
        \<lparr>updateBuf = [], sent = [1], writes_left = 3, sock_open = True\<rparr>)) = [1] @ rect_header 0 0 2 1 rfbEncodingHextile @ body \<and>
    (\<forall>bg fg rest. \<exists>fb'. HandleHextile bg fg 2 [0, 0 :: uint8_t] (body @ rest) 0 0 2 1 = Some (fb', rest) \<and> fb' ! 0 = 7 \<and> fb' ! 1 = 9)"
proof -
  let ?cl = "\<lparr>updateBuf = [], sent = [1], writes_left = 3, sock_open = True\<rparr>"
  let ?pic = "\<lambda>X Y. if X = 0 then 7 else 9 :: uint8_t"
  have s: "shows_pixels 2 1 [0, 0] (\<lambda>_ _. 0 :: uint8_t)" by (auto simp: shows_pixels_def less_2_cases_iff)
  have o: "buf_ok ?cl" "sock_open (snd (rfbSendRectEncodingHextile ?pic 0 0 2 1 ?cl))"
    by (simp add: buf_ok_def) (rule demo_hextile_open; simp)
  obtain body where b: "stream (snd (rfbSendRectEncodingHextile ?pic 0 0 2 1 ?cl)) = stream ?cl @ rect_header 0 0 2 1 rfbEncodingHextile @ body"
    "\<And>bg fg rest. \<exists>fb'. HandleHextile bg fg 2 [0, 0 :: uint8_t] (body @ rest) 0 0 2 1 = Some (fb', rest) \<and>
      shows_pixels 2 1 fb' (overlay 0 0 2 1 (\<lambda>px py. ?pic (0 + px) (0 + py)) (\<lambda>_ _. 0))"
    using HandleHextile_decodes[OF o _ s] by auto
  have f: "fb' ! 0 = 7 \<and> fb' ! 1 = 9" if "shows_pixels 2 1 fb' (overlay 0 0 2 1 (\<lambda>px py. ?pic (0 + px) (0 + py)) (\<lambda>_ _. 0))" for fb'
    using that by (auto simp: shows_pixels_def overlay_def in_rect_def less_2_cases_iff)
  have "\<exists>fb'. HandleHextile bg fg 2 [0, 0 :: uint8_t] (body @ rest) 0 0 2 1 = Some (fb', rest) \<and> fb' ! 0 = 7 \<and> fb' ! 1 = 9" for bg fg :: uint8_t and rest
    using b(2)[of bg fg rest] f by blast
  moreover have "stream ?cl = [1]" by (simp add: stream_def)
  ultimately show ?thesis using b(1) by (intro exI[of _ body]) simp
qed

end
