(* ===== verification/PseudoCorrect.thy ===== *)
theory PseudoCorrect
  imports Pseudo
begin

text \<open>The client reads the shape of the cursor the server sent.\<close>

section \<open>Bitmaps taken apart\<close>

lemma upt_split: "[0..<a + n] = [0..<a] @ map ((+) a) [0..<n]"
proof -
  have "[a..<a + n] = map ((+) a) [0..<n]" by (rule nth_equalityI) simp_all
  then show ?thesis using upt_add_eq_append[of 0 a n] by simp
qed

lemma bytes_of_columns: "concat (map (\<lambda>x. map (\<lambda>r. f (8 * x + r)) [0..<8]) [0..<n]) = map f [0..<8 * n]"
proof (induction n)
  case (Suc n)
  have "[0..<8 * Suc n] = [0..<8 * n] @ map ((+) (8 * n)) [0..<8]"
    using upt_split[of "8 * n" 8] by (simp add: add.commute)
  then show ?case using Suc by simp
qed simp

lemma row_bits_columns: "row_bits buf w width y = map (bitmap_column w buf y) [0..<width]"
proof -
  have rev: "rev [8 - m..<8] = map (\<lambda>r. 7 - r) [0..<m]" if "m \<le> 8" for m :: nat
    using that by (intro nth_equalityI) (auto simp: rev_nth)
  have split: "[0..<width] = [0..<8 * (width div 8)] @ map (\<lambda>r. 8 * (width div 8) + r) [0..<width mod 8]"
    using upt_split[of "8 * (width div 8)" "width mod 8"] by simp
  have full: "map (\<lambda>b. bit (buf ! (y * w + x)) b) (rev [0..<8]) =
      map (\<lambda>r. bitmap_column w buf y (8 * x + r)) [0..<8]" for x
    using rev[of 8] by (simp add: bitmap_column_iff comp_def)
  have part: "map (\<lambda>b. bit (buf ! (y * w + width div 8)) b) (rev [8 - width mod 8..<8]) =
      map (bitmap_column w buf y) (map (\<lambda>r. 8 * (width div 8) + r) [0..<width mod 8])"
    unfolding rev[OF less_imp_le[OF mod_less_divisor[OF zero_less_numeral]]] map_map
  proof (rule map_cong[OF refl])
    fix r assume "r \<in> set [0..<width mod 8]"
    then have "r < 8" by (simp add: order.strict_trans)
    then show "(bit (buf ! (y * w + width div 8)) \<circ> (\<lambda>r. 7 - r)) r =
        (bitmap_column w buf y \<circ> (+) (8 * (width div 8))) r"
      by (simp add: bitmap_column_iff)
  qed
  show ?thesis
    unfolding row_bits_def split map_append full part bytes_of_columns ..
qed

lemma bitmap_bits_columns:
  "bitmap_bits buf width height = map (\<lambda>(j, i). bitmap_column ((width + 7) div 8) buf j i) (cells height width)"
  by (simp add: bitmap_bits_def cells_def product_concat_map map_concat comp_def row_bits_columns[abs_def])

lemma bitmap_column_take:
  assumes "j < h" "i < width" "w = (width + 7) div 8"
  shows "bitmap_column w (take (w * h) bm) j i = bitmap_column w bm j i"
proof -
  have "i div 8 < w" using assms(2,3) by simp
  then show ?thesis using bitmap_index[OF assms(1)] by (simp add: bitmap_column_def)
qed

section \<open>The round trip\<close>

definition bitmap_pixels :: "'p \<Rightarrow> 'p \<Rightarrow> uint8_t list \<Rightarrow> nat \<Rightarrow> nat \<Rightarrow> 'p list" where
  "bitmap_pixels fore back bm w h =
     map (\<lambda>(j, i). if bitmap_column ((w + 7) div 8) bm j i then fore else back) (cells h w)"

text \<open>The pixels the client is to get of a cursor.\<close>

definition shape_pixels :: "('s \<Rightarrow> 'c::len word) \<Rightarrow> rfbPixelFormat \<Rightarrow> bool \<Rightarrow> 's rfbCursor \<Rightarrow> 'c word list" where
  "shape_pixels tr f useRich c =
     (if useRich then map tr (the (richSource c))
      else bitmap_pixels
        (ucast (RGB24_TO_PIXEL f (ucast (drop_bit 8 (foreRed c))) (ucast (drop_bit 8 (foreGreen c))) (ucast (drop_bit 8 (foreBlue c)))))
        (ucast (RGB24_TO_PIXEL f (ucast (drop_bit 8 (backRed c))) (ucast (drop_bit 8 (backGreen c))) (ucast (drop_bit 8 (backBlue c)))))
        (the (source c)) (nat (cur_width c)) (nat (cur_height c)))"

definition cursor_ok :: "'p rfbCursor \<Rightarrow> bool" where
  "cursor_ok c \<longleftrightarrow> 0 < cur_width c \<and> 0 < cur_height c \<and>
     length (cur_mask c) = row_bytes (cur_width c) * nat (cur_height c) \<and>
     (\<forall>bm. source c = Some bm \<longrightarrow> length bm = row_bytes (cur_width c) * nat (cur_height c)) \<and>
     (\<forall>rich. richSource c = Some rich \<longrightarrow> length rich = nat (cur_width c) * nat (cur_height c))"

lemma HandleCursorShape_message:
  fixes tr :: "'s \<Rightarrow> 'c::len word"
  assumes "shape_message tr useRich c = Some msg" and "cursor_ok c" and "whole_bytes TYPE('c)"
  shows "HandleCursorShape f (nat (cur_width c)) (nat (cur_height c))
      (if useRich then rfbEncodingRichCursor else rfbEncodingXCursor) (drop 12 msg @ rest) =
    Some (Some (shape_pixels tr f useRich c,
      bitmap_bits (cur_mask c) (nat (cur_width c)) (nat (cur_height c))), rest)"
proof -
  define w where "w = nat (cur_width c)"
  define h where "h = nat (cur_height c)"
  have rb: "row_bytes (cur_width c) = (w + 7) div 8"
    using assms(2) by (simp add: row_bytes_def w_def cursor_ok_def nat_div_distrib nat_add_distrib)
  have pos: "w * h \<noteq> 0" using assms(2) by (simp add: w_def h_def cursor_ok_def)
  have mask: "length (cur_mask c) = (w + 7) div 8 * h"
    using assms(2) by (simp add: cursor_ok_def h_def rb)
  show ?thesis
  proof (cases useRich)
    case True
    obtain rich where r: "richSource c = Some rich" "length rich = w * h"
      using assms True by (auto simp: shape_message_def Let_def cursor_ok_def w_def h_def bind_eq_Some_conv)
    have "drop 12 msg = concat (map (\<lambda>p. pixel_bytes (tr p)) rich) @ cur_mask c"
      using assms(1) True r mask by (auto simp: shape_message_def Let_def rb simp flip: w_def h_def)
    then have m: "drop 12 msg @ rest = concat (map (\<lambda>p. pixel_bytes (tr p)) rich) @ (cur_mask c @ rest)" by simp
    have "pixel_of (take (pixel_size TYPE('c)) (drop (i * pixel_size TYPE('c)) (concat (map (\<lambda>p. pixel_bytes (tr p)) rich)))) =
        map tr rich ! i" if "i < w * h" for i
      using chunks_of_pixels[of i "map tr rich"] that r(2) assms(3) by (simp add: comp_def)
    then have "map (\<lambda>i. pixel_of (take (pixel_size TYPE('c)) (drop (i * pixel_size TYPE('c))
        (concat (map (\<lambda>p. pixel_bytes (tr p)) rich))))) [0..<w * h] = map tr rich"
      using r(2) by (intro nth_equalityI) simp_all
    then show ?thesis
      using True r pos mask unfolding m w_def[symmetric] h_def[symmetric]
      by (simp add: HandleCursorShape_def shape_pixels_def length_chunks rfbEncodingRichCursor_def rfbEncodingXCursor_def)
  next
    case False
    obtain bm where r: "source c = Some bm" "length bm = (w + 7) div 8 * h"
      using assms False by (auto simp: shape_message_def Let_def cursor_ok_def rb h_def bind_eq_Some_conv)
    have m: "drop 12 msg @ rest = cursor_colours c @ bm @ cur_mask c @ rest"
      using assms(1) False r mask by (auto simp: shape_message_def Let_def rb simp flip: w_def h_def)
    have "length (cursor_colours c) = sz_rfbXCursorColors" by (simp add: cursor_colours_def sz_rfbXCursorColors_def)
    then show ?thesis
      using False r pos mask unfolding m w_def[symmetric] h_def[symmetric]
      by (simp add: HandleCursorShape_def shape_pixels_def bitmap_pixels_def bitmap_bits_columns w_def[symmetric] h_def[symmetric])
        (simp add: cursor_colours_def case_prod_unfold comp_def)
  qed
qed

text \<open>
  C21: When \<open>rfbSendCursorShape\<close> succeeds with a cursor that is not empty, in either encoding, what
  it adds to the stream to the client is a header with its hot spot, its size and the encoding, and
  a body which the client takes apart into exactly the pixels and the mask of the cursor, consuming
  no byte more.
\<close>

theorem HandleCursorShape_decodes:
  fixes tr :: "'s::len word \<Rightarrow> 'c::len word"
  assumes "rfbSendCursorShape tr useRich s cl = Some (True, s', cl')" and "ss_cursor s' = Some c" "\<not> no_cursor c"
    and "cursor_ok c" "8 dvd LENGTH('c)" "buf_ok cl"
  defines "enc \<equiv> (if useRich then rfbEncodingRichCursor else rfbEncodingXCursor)"
  shows "\<exists>body. stream cl' = stream cl @ wire16 (word_of_int (cur_xhot c)) @ wire16 (word_of_int (cur_yhot c)) @
        wire16 (word_of_int (cur_width c)) @ wire16 (word_of_int (cur_height c)) @ wire32 enc @ body \<and>
      updateBuf cl' = [] \<and>
      (\<forall>rest. HandleCursorShape f (nat (cur_width c)) (nat (cur_height c)) enc (body @ rest) =
        Some (Some (shape_pixels tr f useRich c,
          bitmap_bits (cur_mask c) (nat (cur_width c)) (nat (cur_height c))), rest))"
proof -
  have s: "send_shape tr useRich c cl = Some (True, cl')"
    using assms(1-3) by (auto simp: rfbSendCursorShape_def Let_def bind_eq_Some_conv split: option.splits if_splits)
  obtain n cl1 msg where m: "make_room n cl = (True, cl1)" "n + length (updateBuf cl1) \<le> UPDATE_BUF_SIZE"
    "shape_message tr useRich c = Some msg" "rfbSendUpdateBuf (put_bytes msg cl1) = (True, cl')"
  proof -
    define n where "n = sz_rfbFramebufferUpdateRectHeader + sz_rfbXCursorColors + row_bytes (cur_width c) * nat (cur_height c) +
      (if useRich then nat (cur_width c) * nat (cur_height c) * pixel_size TYPE('c) else row_bytes (cur_width c) * nat (cur_height c))"
    obtain ok cl1 where r: "make_room n cl = (ok, cl1)" by fastforce
    have "send_shape tr useRich c cl =
        (if \<not> ok then Some (False, cl1)
         else if UPDATE_BUF_SIZE < length (updateBuf cl1) + n then Some (False, cl1)
         else do { msg \<leftarrow> shape_message tr useRich c; Some (rfbSendUpdateBuf (put_bytes msg cl1)) })"
      using r by (simp add: send_shape_def Let_def n_def)
    with s r show thesis using that[of n cl1] by (auto simp: bind_eq_Some_conv split: if_splits)
  qed
  have "stream cl1 = stream cl" using m(1) send_buf_stream[of cl True cl1] by (auto simp: make_room_def split: if_splits)
  then have "stream cl' = stream cl @ msg \<and> updateBuf cl' = []"
    using send_buf_stream[OF m(4)] by (simp add: put_bytes_stream)
  moreover have "msg = (wire16 (word_of_int (cur_xhot c)) @ wire16 (word_of_int (cur_yhot c)) @
        wire16 (word_of_int (cur_width c)) @ wire16 (word_of_int (cur_height c)) @ wire32 enc) @ drop 12 msg"
    using m(3) assms(4) by (auto simp: shape_message_def Let_def bind_eq_Some_conv enc_def cursor_ok_def)
  ultimately show ?thesis
    using HandleCursorShape_message[OF m(3) assms(4,5), of f] unfolding enc_def
    by (intro exI[of _ "drop 12 msg"]) auto
qed

definition demo_update_state :: update_state where
  "demo_update_state = \<lparr>updateBuf = [], sent = [], writes_left = 10, sock_open = True\<rparr>"

theorem HandleCursorShape_decodes_witness:
  "\<exists>ok s' cl' body. rfbSendCursorShape (\<lambda>p. p) False demo_cursor_screen demo_update_state = Some (ok, s', cl') \<and>
     stream cl' = [0, 0, 0, 0, 0, 3, 0, 3, 0xff, 0xff, 0xff, 0x10] @ body \<and>
     HandleCursorShape (rfbInitServerFormat 16 5) 3 3 rfbEncodingXCursor body =
       Some (Some (shape_pixels (\<lambda>p. p) (rfbInitServerFormat 16 5) False demo_cursor,
         bitmap_bits [0xf0, 0xf0, 0xf0] 3 3), [])"
proof -
  have c: "cur_xhot demo_cursor = 0" "cur_yhot demo_cursor = 0" "cur_width demo_cursor = 3" "cur_height demo_cursor = 3"
    "richSource demo_cursor = None" "source demo_cursor = Some [0x40, 0xe0, 0x40]"
    "cur_mask demo_cursor = [0xf0, 0xf0, 0xf0]" by code_simp+
  obtain msg where "shape_message (\<lambda>p. p) False demo_cursor = Some msg" by (simp add: shape_message_def c Let_def)
  then obtain s' cl' where r: "rfbSendCursorShape (\<lambda>p. p) False demo_cursor_screen demo_update_state = Some (True, s', cl')"
    "ss_cursor s' = Some demo_cursor"
    by (simp add: rfbSendCursorShape_def demo_cursor_screen_def shape_cursor_def c no_cursor_def send_shape_def
        row_bytes_def make_room_def demo_update_state_def UPDATE_BUF_SIZE_def rfbSendUpdateBuf_def put_bytes_def
        sz_rfbFramebufferUpdateRectHeader_def sz_rfbXCursorColors_def)
  have "\<not> no_cursor demo_cursor" "cursor_ok demo_cursor"
    using c by (auto simp: no_cursor_def cursor_ok_def row_bytes_def)
  moreover have "buf_ok demo_update_state" "stream demo_update_state = []" 
    by (simp_all add: buf_ok_def demo_update_state_def stream_def)
  ultimately obtain body where "stream cl' = wire16 0 @ wire16 0 @ wire16 3 @ wire16 3 @ wire32 rfbEncodingXCursor @ body"
    "\<forall>rest. HandleCursorShape (rfbInitServerFormat 16 5) 3 3 rfbEncodingXCursor (body @ rest) =
       Some (Some (shape_pixels (\<lambda>p. p) (rfbInitServerFormat 16 5) False demo_cursor,
         bitmap_bits [0xf0, 0xf0, 0xf0] 3 3), rest)"
    using HandleCursorShape_decodes[OF r, of "rfbInitServerFormat 16 5"] c by auto
  moreover have "wire16 0 @ wire16 0 @ wire16 3 @ wire16 3 @ wire32 rfbEncodingXCursor =
      [0, 0, 0, 0, 0, 3, 0, 3, 0xff, 0xff, 0xff, 0x10]" by code_simp
  ultimately show ?thesis using r(1) by (metis append.assoc append_Nil2)
qed

end
