(* ===== verification/ClientUpdateCorrect.thy ===== *)
theory ClientUpdateCorrect
  imports ClientUpdate PseudoCorrect
begin

text \<open>
  What the client shows after the rectangles of an update: pixels laid over the picture, and
  rectangles moved in it as if source and destination did not overlap.
\<close>

section \<open>Raw rectangles\<close>

lemma overlay_rows:
  "overlay x (y + n) w m (\<lambda>px py. g px (py + n)) (overlay x y w n g f) = overlay x y w (n + m) g f"
  by (intro ext) (auto simp: overlay_def in_rect_def)

lemma raw_lines_shows:
  fixes ps :: "'c::len word list"
  assumes "shows_pixels W H fb f" and "x + w \<le> W" "y + h \<le> H" "length ps = w * h" "0 < l" "8 dvd LENGTH('c)"
  shows "\<exists>fb'. raw_lines W l x y w h fb (concat (map pixel_bytes ps) @ rest) = Some (fb', rest) \<and>
    shows_pixels W H fb' (overlay x y w h (\<lambda>px py. ps ! (py * w + px)) f)"
  using assms
proof (induction h arbitrary: l y fb f ps rule: less_induct)
  case (less h)
  show ?case
  proof (cases "h = 0")
    case True
    have "overlay x y w 0 g f = f" for g by (intro ext) (auto simp: overlay_def in_rect_def)
    then show ?thesis using less.prems True by (simp add: raw_lines.simps)
  next
    case False
    define n where "n = (if h < l then h else l)"
    have n: "0 < n" "n \<le> h" using False less.prems(5) by (auto simp: n_def)
    have "w * n \<le> w * h" using n by simp
    then have lens: "length (take (w * n) ps) = w * n" "length (drop (w * n) ps) = w * (h - n)"
      using less.prems(4) by (simp_all add: right_diff_distrib')
    define fb1 where "fb1 = CopyRectangle W fb (take (w * n) ps) x y w n"
    have s1: "shows_pixels W H fb1 (overlay x y w n (\<lambda>px py. take (w * n) ps ! (py * w + px)) f)"
      unfolding fb1_def using CopyRectangle_shows[OF less.prems(1,2) _ lens(1)] less.prems(3) n by simp
    obtain fb2 where r: "raw_lines W n x (y + n) w (h - n) fb1 (concat (map pixel_bytes (drop (w * n) ps)) @ rest) = Some (fb2, rest)"
      and s2: "shows_pixels W H fb2 (overlay x (y + n) w (h - n) (\<lambda>px py. drop (w * n) ps ! (py * w + px))
        (overlay x y w n (\<lambda>px py. take (w * n) ps ! (py * w + px)) f))"
      using less.IH[OF _ s1 less.prems(2) _ lens(2) n(1) less.prems(6), of "y + n"] n less.prems(3) by auto
    have bytes: "concat (map pixel_bytes ps) = concat (map pixel_bytes (take (w * n) ps)) @ concat (map pixel_bytes (drop (w * n) ps))"
      by (metis append_take_drop_id concat_append map_append)
    have len: "length (concat (map pixel_bytes (take (w * n) ps))) = w * pixel_size TYPE('c) * n"
      using length_chunks[of "\<lambda>p. p" "take (w * n) ps"] lens by (simp add: mult.assoc mult.commute mult.left_commute)
    have "raw_lines W l x y w h fb (concat (map pixel_bytes ps) @ rest) = Some (fb2, rest)"
      using False n r unfolding bytes
      by (subst raw_lines.simps) (simp add: len unchunk[OF less.prems(6) lens(1)] Let_def flip: n_def fb1_def)
    moreover have "overlay x (y + n) w (h - n) (\<lambda>px py. drop (w * n) ps ! (py * w + px))
        (overlay x y w n (\<lambda>px py. take (w * n) ps ! (py * w + px)) f) = overlay x y w h (\<lambda>px py. ps ! (py * w + px)) f"
    proof -
      have a: "overlay x y w n (\<lambda>px py. take (w * n) ps ! (py * w + px)) f = overlay x y w n (\<lambda>px py. ps ! (py * w + px)) f"
        by (rule overlay_cong) (use index_less in \<open>auto\<close>)
      have b: "overlay x (y + n) w (h - n) (\<lambda>px py. drop (w * n) ps ! (py * w + px)) g =
          overlay x (y + n) w (h - n) (\<lambda>px py. ps ! ((py + n) * w + px)) g" for g
        by (rule overlay_cong) (use lens in \<open>auto simp: algebra_simps\<close>)
      show ?thesis unfolding a b using overlay_rows[of x y n w "h - n" "\<lambda>px py. ps ! (py * w + px)" f] n by simp
    qed
    ultimately show ?thesis using s2 by auto
  qed
qed

end
