(* ===== verification/UpdateRoundtrip.thy ===== *)
theory UpdateRoundtrip
  imports HextileStream ClientUpdateCorrect
begin

text \<open>
  An update from end to end: what \<open>rfbSendFramebufferUpdate\<close> writes to the socket, read by the
  client's \<open>HandleFramebufferUpdate\<close>, turns the picture the client shows into the one the regions of
  the client promise.
\<close>

section \<open>Messages that paint\<close>

text \<open>
  \<open>msg\<close> is \<open>n\<close> rectangles that turn any picture into \<open>g\<close> of it, on a client of \<open>W\<close> by \<open>H\<close> pixels.
\<close>

definition shows_view :: "nat \<Rightarrow> nat \<Rightarrow> 'p list \<Rightarrow> 'p picture \<Rightarrow> bool" where
  "shows_view W H fb view \<longleftrightarrow> shows_pixels W H fb (\<lambda>X Y. view (int X) (int Y))"


definition paints ::
    "'c::len word decoders \<Rightarrow>
     nat \<Rightarrow> nat \<Rightarrow> nat \<Rightarrow> uint8_t list \<Rightarrow> ('c word picture \<Rightarrow> 'c word picture) \<Rightarrow> bool" where
  "paints d W H n msg g \<longleftrightarrow>
     (\<forall>c view rest m. c_width c = W \<longrightarrow> c_height c = H \<longrightarrow> shows_view W H (c_frame c) view \<longrightarrow>
        (\<exists>fb. handle_rects d (n + m) c (msg @ rest) = handle_rects d m (c\<lparr>c_frame := fb\<rparr>) rest \<and>
              shows_view W H fb (g view)))"

lemma paints_none: "paints d W H 0 [] (\<lambda>view. view)"
proof -
  have "c\<lparr>c_frame := c_frame c\<rparr> = c" for c :: "'a word rfb_client" by simp
  then show ?thesis unfolding paints_def by (metis add_0 append_Nil)
qed

lemma paints_append:
  assumes "paints d W H n1 m1 g1" and "paints d W H n2 m2 g2"
  shows "paints d W H (n1 + n2) (m1 @ m2) (\<lambda>view. g2 (g1 view))"
  unfolding paints_def
proof (intro allI impI)
  fix c :: "'a word rfb_client" and view rest m
  assume c: "c_width c = W" "c_height c = H" "shows_view W H (c_frame c) view"
  then obtain fb where fb: "handle_rects d (n1 + (n2 + m)) c (m1 @ m2 @ rest) = handle_rects d (n2 + m) (c\<lparr>c_frame := fb\<rparr>) (m2 @ rest)"
    "shows_view W H fb (g1 view)" using assms(1) unfolding paints_def by blast
  let ?c = "c\<lparr>c_frame := fb\<rparr>"
  have "c_width ?c = W" "c_height ?c = H" "shows_view W H (c_frame ?c) (g1 view)" using c fb by simp_all
  then obtain fb' where "handle_rects d (n2 + m) ?c (m2 @ rest) = handle_rects d m (?c\<lparr>c_frame := fb'\<rparr>) rest"
    "shows_view W H fb' (g2 (g1 view))" using assms(2) unfolding paints_def by blast
  then show "\<exists>fb. handle_rects d (n1 + n2 + m) c ((m1 @ m2) @ rest) = handle_rects d m (c\<lparr>c_frame := fb\<rparr>) rest \<and>
      shows_view W H fb (g2 (g1 view))"
    using fb(1) by (auto simp: add.assoc)
qed

text \<open>A single rectangle in one of the encodings with pixels.\<close>

lemma paints_rect:
  assumes "x < 65536" "y < 65536" "w < 65536" "h < 65536" and "enc \<in> {rfbEncodingRaw, rfbEncodingCopyRect, rfbEncodingRRE, rfbEncodingCoRRE, rfbEncodingHextile}"
    and "\<And>fb view rest. shows_view W H fb view \<Longrightarrow>
      \<exists>fb'. handle_pixels d W H enc x y w h fb (body @ rest) = Some (fb', rest) \<and> shows_view W H fb' (g view)"
  shows "paints d W H 1 (rect_header x y w h enc @ body) g"
  unfolding paints_def
proof (intro allI impI)
  fix c :: "'a word rfb_client" and view rest m
  assume c: "c_width c = W" "c_height c = H" "shows_view W H (c_frame c) view"
  obtain fb where fb: "handle_pixels d W H enc x y w h (c_frame c) (body @ rest) = Some (fb, rest)" "shows_view W H fb (g view)"
    using assms(6)[OF c(3)] by blast
  define hdr where "hdr = rect_header x y w h enc"
  have h: "unwire32 (drop 8 hdr) = enc" "unat (unwire16 hdr) = x" "unat (unwire16 (drop 2 hdr)) = y"
    "unat (unwire16 (drop 4 hdr)) = w" "unat (unwire16 (drop 6 hdr)) = h"
    using assms(1-4) by (simp_all add: hdr_def rect_header_def)
  have e: "enc \<noteq> rfbEncodingLastRect \<and> enc \<noteq> rfbEncodingXCursor \<and> enc \<noteq> rfbEncodingRichCursor \<and> enc \<noteq> rfbEncodingPointerPos \<and>
      enc \<noteq> rfbEncodingKeyboardLedState \<and> enc \<noteq> rfbEncodingNewFBSize \<and> enc \<noteq> rfbEncodingSupportedMessages \<and>
      enc \<noteq> rfbEncodingSupportedEncodings \<and> enc \<noteq> rfbEncodingServerIdentity"
    using assms(5) by (auto simp: rfbEncodingRaw_def rfbEncodingCopyRect_def rfbEncodingRRE_def rfbEncodingCoRRE_def rfbEncodingHextile_def rfbEncodingLastRect_def
        rfbEncodingXCursor_def rfbEncodingRichCursor_def rfbEncodingPointerPos_def rfbEncodingKeyboardLedState_def
        rfbEncodingNewFBSize_def rfbEncodingSupportedMessages_def rfbEncodingSupportedEncodings_def rfbEncodingServerIdentity_def)
  have r: "handle_rect d enc x y w h c (body @ rest) = Some (c\<lparr>c_frame := fb\<rparr>, rest)"
    using e fb(1) c by (simp add: handle_rect_def)
  have read: "ReadFromRFBServer sz_rfbFramebufferUpdateRectHeader (hdr @ body @ rest) = Some (hdr, body @ rest)"
    by (rule read_append) (simp add: hdr_def sz_rfbFramebufferUpdateRectHeader_def)
  have "handle_rects d (Suc m) c (hdr @ body @ rest) = handle_rects d m (c\<lparr>c_frame := fb\<rparr>) rest"
    using h e by (simp add: read r)
  then show "\<exists>fb. handle_rects d (1 + m) c ((rect_header x y w h enc @ body) @ rest) = handle_rects d m (c\<lparr>c_frame := fb\<rparr>) rest \<and>
      shows_view W H fb (g view)"
    using fb(2) by (auto simp: hdr_def)
qed


section \<open>Rectangles with pixels\<close>

definition pixel_view :: "'p picture \<Rightarrow> (int \<times> int) set \<Rightarrow> 'p picture \<Rightarrow> 'p picture" where
  "pixel_view pic D view x y = (if (x, y) \<in> D then pic x y else view x y)"

lemma pixel_view_Un: "pixel_view pic B (pixel_view pic A view) = pixel_view pic (A \<union> B) view"
  by (auto simp: pixel_view_def fun_eq_iff)

lemma pixel_view_empty: "pixel_view pic {} view = view"
  by (simp add: pixel_view_def fun_eq_iff)

lemma paints_list:
  assumes "\<And>a. a \<in> set as \<Longrightarrow> paints d W H (k a) (m a) (pixel_view pic (D a))"
  shows "paints d W H (sum_list (map k as)) (concat (map m as)) (pixel_view pic (\<Union>a\<in>set as. D a))"
  using assms
proof (induction as)
  case Nil
  have "pixel_view pic {} = (\<lambda>view. view)" by (simp add: pixel_view_empty fun_eq_iff)
  then show ?case using paints_none by simp
next
  case (Cons a as)
  have "paints d W H (k a + sum_list (map k as)) (m a @ concat (map m as))
      (\<lambda>view. pixel_view pic (\<Union>a\<in>set as. D a) (pixel_view pic (D a) view))"
    using Cons by (intro paints_append) auto
  then show ?case by (simp add: pixel_view_Un)
qed

lemma overlay_view:
  assumes "\<And>px py. px < w \<Longrightarrow> py < h \<Longrightarrow> g px py = pic (int (x + px)) (int (y + py))"
  shows "overlay x y w h g (\<lambda>X Y. view (int X) (int Y)) = (\<lambda>X Y. pixel_view pic (box x y w h) view (int X) (int Y))"
proof (intro ext)
  fix X Y
  have "g (X - x) (Y - y) = pic (int X) (int Y)" if "x \<le> X" "X < x + w" "y \<le> Y" "Y < y + h"
    using that assms[of "X - x" "Y - y"] by simp
  then show "overlay x y w h g (\<lambda>X Y. view (int X) (int Y)) X Y = pixel_view pic (box x y w h) view (int X) (int Y)"
    by (auto simp: overlay_def in_rect_def pixel_view_def box_def)
qed

lemma tile_view:
  assumes "\<And>X Y. fb X Y = pic (int X) (int Y)"
  shows "overlay x y w h (\<lambda>px py. tile fb x y w h ! (py * w + px)) (\<lambda>X Y. view (int X) (int Y)) =
    (\<lambda>X Y. pixel_view pic (box x y w h) view (int X) (int Y))"
  by (rule overlay_view) (simp add: nth_tile assms)

lemma paints_raw:
  fixes fb :: "nat \<Rightarrow> nat \<Rightarrow> 'c::len word"
  assumes "\<And>X Y. fb X Y = pic (int X) (int Y)" and "8 dvd LENGTH('c)" "LENGTH('c) \<le> 32"
    and "0 < w" "x + w \<le> W" "y + h \<le> H" "W < 65536" "H < 65536" "x < 65536" "y < 65536"
  shows "paints d W H 1 (raw_message fb x y w h) (pixel_view pic (box x y w h))"
  unfolding raw_message_def
proof (rule paints_rect)
  fix fb' :: "'c word list" and view rest
  assume v: "shows_view W H fb' view"
  have "0 < LENGTH('c)" by simp
  then have ps: "0 < pixel_size TYPE('c)" "pixel_size TYPE('c) \<le> 4"
    using assms(2,3) by (auto simp: pixel_size_def dest: dvd_imp_le)
  have "w * pixel_size TYPE('c) \<le> 65535 * 4" using assms ps by (intro mult_le_mono) auto
  then have l: "0 < RFB_BUFFER_SIZE div (w * pixel_size TYPE('c))"
    using assms(4) ps by (simp add: RFB_BUFFER_SIZE_def div_greater_zero_iff)
  from raw_lines_shows[OF v[unfolded shows_view_def] assms(5,6) length_tile l assms(2), of fb x y rest]
  obtain fb2 where "raw_lines W (RFB_BUFFER_SIZE div (w * pixel_size TYPE('c))) x y w h fb' (tile_bytes fb x y w h @ rest) = Some (fb2, rest)"
    "shows_view W H fb2 (pixel_view pic (box x y w h) view)"
    by (auto simp: tile_bytes_def tile_view[of fb pic, OF assms(1)] shows_view_def)
  then show "\<exists>fb2. handle_pixels d W H rfbEncodingRaw x y w h fb' (tile_bytes fb x y w h @ rest) = Some (fb2, rest) \<and>
      shows_view W H fb2 (pixel_view pic (box x y w h) view)"
    using assms(4,5,6) ps by (simp add: handle_pixels_def)
qed (use assms in auto)

lemma paints_RRE:
  fixes fb :: "nat \<Rightarrow> nat \<Rightarrow> 'c::len word"
  assumes "\<And>X Y. fb X Y = pic (int X) (int Y)" and "8 dvd LENGTH('c)" "LENGTH('c) \<le> 32" "8 \<le> LENGTH('c)"
    and "0 < w" "0 < h" "x + w \<le> W" "y + h \<le> H" "W < 65536" "H < 65536" "x < 65536" "y < 65536"
  shows "paints d W H 1 (rre_message fb bufSize x y w h) (pixel_view pic (box x y w h))"
proof (cases "rre_subrectEncode bufSize (tile fb x y w h) w h")
  case None
  then show ?thesis using paints_raw[of fb pic w x W y h H d] assms by (simp add: rre_message_def)
next
  case (Some r)
  obtain n after where r: "r = (n, after)" by fastforce
  have "paints d W H 1 (rect_header x y w h rfbEncodingRRE @ (wire32 (word_of_nat n) @ after)) (pixel_view pic (box x y w h))"
  proof (rule paints_rect)
    fix fb' :: "'c word list" and view rest
    assume v: "shows_view W H fb' view"
    have "w < 65536" "h < 65536" using assms by auto
    from HandleRRE_shows[OF Some[unfolded r] length_tile assms(5,6) this _ assms(4) v[unfolded shows_view_def] assms(7,8), of rest]
    obtain fb2 where "HandleRRE W fb' (wire32 (word_of_nat n) @ after @ rest) x y w h = (True, fb2, rest)"
      "shows_view W H fb2 (pixel_view pic (box x y w h) view)"
      using assms(2) by (auto simp: tile_view[of fb pic, OF assms(1)] shows_view_def)
    then show "\<exists>fb2. handle_pixels d W H rfbEncodingRRE x y w h fb' ((wire32 (word_of_nat n) @ after) @ rest) = Some (fb2, rest) \<and>
        shows_view W H fb2 (pixel_view pic (box x y w h) view)"
      using assms by (simp add: handle_pixels_def rfbEncodingRaw_def rfbEncodingCopyRect_def rfbEncodingRRE_def)
  qed (use assms in auto)
  then show ?thesis by (simp add: rre_message_def Some r)
qed

lemma paints_corre:
  fixes fb :: "nat \<Rightarrow> nat \<Rightarrow> 'c::len word"
  assumes "\<And>X Y. fb X Y = pic (int X) (int Y)" and "8 dvd LENGTH('c)" "LENGTH('c) \<le> 32" "8 \<le> LENGTH('c)"
    and "0 < w" "0 < h" "w < 256" "h < 256" "x + w \<le> W" "y + h \<le> H" "W < 65536" "H < 65536" "x < 65536" "y < 65536"
  shows "paints d W H 1 (corre_message fb bufSize x y w h) (pixel_view pic (box x y w h))"
proof (cases "corre_subrectEncode bufSize (tile fb x y w h) w h")
  case None
  then show ?thesis using paints_raw[of fb pic w x W y h H d] assms by (simp add: corre_message_def)
next
  case (Some r)
  obtain n after where r: "r = (n, after)" by fastforce
  have "paints d W H 1 (rect_header x y w h rfbEncodingCoRRE @ (wire32 (word_of_nat n) @ after)) (pixel_view pic (box x y w h))"
  proof (rule paints_rect)
    fix fb' :: "'c word list" and view rest
    assume v: "shows_view W H fb' view"
    from HandleCoRRE_shows[OF Some[unfolded r] length_tile assms(5-8) _ assms(4,3) v[unfolded shows_view_def] assms(9,10), of rest]
    obtain fb2 where "HandleCoRRE W fb' (wire32 (word_of_nat n) @ after @ rest) x y w h = Some (True, fb2, rest)"
      "shows_view W H fb2 (pixel_view pic (box x y w h) view)"
      using assms(2) by (auto simp: tile_view[of fb pic, OF assms(1)] shows_view_def)
    then show "\<exists>fb2. handle_pixels d W H rfbEncodingCoRRE x y w h fb' ((wire32 (word_of_nat n) @ after) @ rest) = Some (fb2, rest) \<and>
        shows_view W H fb2 (pixel_view pic (box x y w h) view)"
      using assms by (simp add: handle_pixels_def rfbEncodingRaw_def rfbEncodingCopyRect_def rfbEncodingRRE_def rfbEncodingCoRRE_def)
  qed (use assms in auto)
  then show ?thesis by (simp add: corre_message_def Some r)
qed


lemma paints_Hextile:
  fixes fb :: "nat \<Rightarrow> nat \<Rightarrow> 'c::len word"
  assumes "\<And>X Y. fb X Y = pic (int X) (int Y)" and "8 dvd LENGTH('c)"
    and "x + w \<le> W" "y + h \<le> H" "W < 65536" "H < 65536" "x < 65536" "y < 65536"
  shows "paints d W H 1 (hextile_message fb x y w h) (pixel_view pic (box x y w h))"
  unfolding hextile_message_def
proof (rule paints_rect)
  fix fb' :: "'c word list" and view rest
  assume v: "shows_view W H fb' view"
  let ?body = "tiles_bytes fb x y w h (tile_corners x y w h) hextile_start"
  from HandleHextile_shows[OF assms(2) v[unfolded shows_view_def] assms(3,4), of "stack_bg d" "stack_fg d" fb rest]
  obtain fb2 where "HandleHextile (stack_bg d) (stack_fg d) W fb' (?body @ rest) x y w h = Some (fb2, rest)"
    "shows_view W H fb2 (pixel_view pic (box x y w h) view)"
    by (auto simp: overlay_view[where g = "\<lambda>px py. fb (x + px) (y + py)" and pic = pic, OF assms(1)] shows_view_def)
  then show "\<exists>fb2. handle_pixels d W H rfbEncodingHextile x y w h fb' (?body @ rest) = Some (fb2, rest) \<and>
      shows_view W H fb2 (pixel_view pic (box x y w h) view)"
    using assms(3,4) by (simp add: handle_pixels_def rfbEncodingRaw_def rfbEncodingCopyRect_def rfbEncodingRRE_def rfbEncodingCoRRE_def
        rfbEncodingHextile_def)
qed (use assms in auto)


section \<open>Rectangles of a region\<close>

definition rect_on :: "nat \<Rightarrow> nat \<Rightarrow> sraRect \<Rightarrow> bool" where
  "rect_on W H r \<longleftrightarrow> 0 \<le> rx1 r \<and> rx1 r < rx2 r \<and> rx2 r \<le> int W \<and> 0 \<le> ry1 r \<and> ry1 r < ry2 r \<and> ry2 r \<le> int H"

lemma rect_box:
  assumes "rect_on W H r"
  shows "box (nat (rx1 r)) (nat (ry1 r)) (nat (rect_w r)) (nat (rect_h r)) = rect_pixels r"
    "nat (rx1 r) + nat (rect_w r) \<le> W" "nat (ry1 r) + nat (rect_h r) \<le> H" "0 < nat (rect_w r)" "0 < nat (rect_h r)"
    "nat (rx1 r) < W" "nat (ry1 r) < H"
  using assms by (auto simp: rect_on_def box_def rect_pixels_def rect_w_def rect_h_def)

lemma int_header_nat:
  assumes "rect_on W H r"
  shows "int_header (rx1 r) (ry1 r) (rect_w r) (rect_h r) e = rect_header (nat (rx1 r)) (nat (ry1 r)) (nat (rect_w r)) (nat (rect_h r)) e"
  using assms by (simp add: int_header_def rect_header_def rect_on_def rect_w_def rect_h_def)

text \<open>How many rectangles of the protocol one of a region becomes.\<close>

definition rect_cost :: "send_client \<Rightarrow> sraRect \<Rightarrow> nat" where
  "rect_cost cl r = (if preferredEncoding cl = ENC_CoRRE then nat (corre_count (correMaxWidth cl) (correMaxHeight cl) r) else 1)"

definition decodable :: "send_client \<Rightarrow> bool" where
  "decodable cl \<longleftrightarrow> preferredEncoding cl \<in> {-1, 0, ENC_RRE, ENC_CoRRE, ENC_Hextile} \<and>
     0 < correMaxWidth cl \<and> correMaxWidth cl < 256 \<and> 0 < correMaxHeight cl \<and> correMaxHeight cl < 256"

lemma encode_rect_paints:
  fixes fb :: "nat \<Rightarrow> nat \<Rightarrow> 'c::len word"
  assumes "\<And>X Y. fb X Y = pic (int X) (int Y)" and "8 dvd LENGTH('c)" "LENGTH('c) \<le> 32" "LENGTH('c) \<in> {8, 16, 32}"
    and "rect_on W H r" and "W < 65536" "H < 65536" and "decodable cl"
  shows "\<exists>msg. delivers (encode_rect other fb sw sh bs cl r) msg \<and>
    paints d W H (rect_cost cl r) msg (pixel_view pic (rect_pixels r))"
proof -
  have eight: "8 \<le> LENGTH('c)" using assms(4) by auto
  define x y w h where xywh: "x = nat (rx1 r)" "y = nat (ry1 r)" "w = nat (rect_w r)" "h = nat (rect_h r)"
  note b = rect_box[OF assms(5), folded xywh]
  consider (raw) "preferredEncoding cl = -1 \<or> preferredEncoding cl = 0" | (rre) "preferredEncoding cl = ENC_RRE"
    | (corre) "preferredEncoding cl = ENC_CoRRE" | (hextile) "preferredEncoding cl = ENC_Hextile" using assms(8) by (auto simp: decodable_def)
  then show ?thesis
  proof cases
    case raw
    then have "encode_rect other fb sw sh bs cl r = rfbSendRectEncodingRaw fb x y w h" "rect_cost cl r = 1"
      by (auto simp: encode_rect_def xywh fun_eq_iff rect_cost_def ENC_CoRRE_def)
    then show ?thesis
      using delivers_raw[of fb x y w h] paints_raw[of fb pic w x W y h H d] assms(1-3,5-8) eight b by (metis order.strict_trans)
  next
    case rre
    then have "encode_rect other fb sw sh bs cl r = rfbSendRectEncodingRRE fb sw sh bs x y w h" "rect_cost cl r = 1"
      by (auto simp: encode_rect_def xywh fun_eq_iff rect_cost_def ENC_CoRRE_def ENC_RRE_def)
    then show ?thesis
      using delivers_RRE[of fb sw sh bs x y w h] paints_RRE[of fb pic w h x W y H d] assms(1-3,5-8) eight b by (metis order.strict_trans)
  next
    case hextile
    then have "encode_rect other fb sw sh bs cl r = rfbSendRectEncodingHextile fb x y w h" "rect_cost cl r = 1"
      by (auto simp: encode_rect_def xywh fun_eq_iff rect_cost_def ENC_CoRRE_def ENC_RRE_def ENC_Hextile_def)
    then show ?thesis
      using delivers_Hextile[OF assms(4)[simplified], of fb x y w h] paints_Hextile[of fb pic x w W y h H d] assms(1-3,5-8) b
      by (metis order.strict_trans)
  next
    case corre
    define mw mh where m: "mw = nat (correMaxWidth cl)" "mh = nat (correMaxHeight cl)"
    have mb: "0 < mw" "0 < mh" "mw < 256" "mh < 256" using assms(8) by (auto simp: decodable_def m)
    define S where "S = max bs (sw * sh * pixel_size TYPE('c))"
    define ps where "ps = corre_pieces mw mh x y w h"
    have "encode_rect other fb sw sh bs cl r = rfbSendRectEncodingCoRRE fb sw sh bs mw mh x y w h"
      using corre by (auto simp: encode_rect_def xywh m fun_eq_iff ENC_CoRRE_def ENC_RRE_def)
    then have del: "delivers (encode_rect other fb sw sh bs cl r) (concat (map (\<lambda>(x, y, w, h). corre_message fb S x y w h) ps))"
      using delivers_CoRRE[of fb sw sh bs mw mh x y w h] by (simp add: S_def ps_def)
    note spec = corre_pieces_spec[OF mb(1,2) b(4,5), of x y, folded ps_def]
    have "paints d W H (sum_list (map (\<lambda>_. 1) ps)) (concat (map (\<lambda>(x, y, w, h). corre_message fb S x y w h) ps))
        (pixel_view pic (\<Union>a\<in>set ps. case a of (px, py, pw, ph) \<Rightarrow> box px py pw ph))"
    proof (rule paints_list)
      fix a assume a: "a \<in> set ps"
      obtain px py pw ph where p: "a = (px, py, pw, ph)" by (metis prod_cases4)
      have "0 < pw \<and> pw \<le> mw \<and> 0 < ph \<and> ph \<le> mh \<and> px + pw \<le> x + w \<and> py + ph \<le> y + h"
        using bspec[OF spec(1) a] by (simp add: p)
      then show "paints d W H 1 (case a of (x, y, w, h) \<Rightarrow> corre_message fb S x y w h)
          (pixel_view pic (case a of (px, py, pw, ph) \<Rightarrow> box px py pw ph))"
        unfolding p prod.case using b mb assms(2,3,6,7) eight by (intro paints_corre assms(1)) auto
    qed
    moreover have "sum_list (map (\<lambda>_. 1) ps) = rect_cost cl r"
    proof -
      have "int (nat (rect_w r) - 1) = rect_w r - 1" "int (nat (rect_h r) - 1) = rect_h r - 1" using b(4,5) xywh by auto
      then have "int (length ps) = corre_count (correMaxWidth cl) (correMaxHeight cl) r"
        unfolding spec(3) corre_count_def xywh m using mb by (simp add: zdiv_int m algebra_simps)
      then show ?thesis using corre by (simp add: rect_cost_def sum_list_triv)
    qed
    ultimately show ?thesis using del spec(2) b(1) by auto
  qed
qed

lemma send_rects_paints:
  assumes "\<And>r. r \<in> set rs \<Longrightarrow> \<exists>msg. delivers (enc r) msg \<and> paints d W H (k r) msg (pixel_view pic (rect_pixels r))"
  shows "\<exists>msg. delivers (send_rects enc rs) msg \<and>
    paints d W H (sum_list (map k rs)) msg (pixel_view pic (\<Union>r\<in>set rs. rect_pixels r))"
  using assms
proof (induction rs)
  case Nil
  have "send_rects enc [] = (\<lambda>out. (True, out))" by (simp add: fun_eq_iff)
  moreover have "pixel_view pic {} = (\<lambda>view. view)" by (simp add: pixel_view_empty fun_eq_iff)
  ultimately show ?case using delivers_nothing paints_none[of d W H] by (intro exI[of _ "[]"]) simp
next
  case (Cons r rs)
  obtain a where a: "delivers (enc r) a" "paints d W H (k r) a (pixel_view pic (rect_pixels r))" using Cons.prems by auto
  obtain b where b: "delivers (send_rects enc rs) b"
    "paints d W H (sum_list (map k rs)) b (pixel_view pic (\<Union>r\<in>set rs. rect_pixels r))"
    using Cons by fastforce
  have "send_rects enc (r # rs) = (\<lambda>out. let (ok, out) = enc r out in if \<not> ok then (False, out) else send_rects enc rs out)"
    by (simp add: fun_eq_iff)
  then have "delivers (send_rects enc (r # rs)) (a @ b)" using delivers_then[OF a(1) b(1)] by simp
  moreover have "paints d W H (sum_list (map k (r # rs))) (a @ b) (pixel_view pic (\<Union>r\<in>set (r # rs). rect_pixels r))"
    using paints_append[OF a(2) b(2)] by (simp add: pixel_view_Un)
  ultimately show ?case by blast
qed

section \<open>Copies\<close>

lemma paints_copy:
  assumes "rect_on W H r" and "0 \<le> rx1 r - dx" "rx2 r - dx \<le> int W" "0 \<le> ry1 r - dy" "ry2 r - dy \<le> int H"
    and "W < 65536" "H < 65536"
  shows "paints d W H 1 (int_header (rx1 r) (ry1 r) (rect_w r) (rect_h r) rfbEncodingCopyRect @
      wire16 (word_of_int (rx1 r - dx)) @ wire16 (word_of_int (ry1 r - dy))) (copy_rect_view dx dy r :: 'c::len word picture \<Rightarrow> _)"
  unfolding int_header_nat[OF assms(1)]
proof (rule paints_rect)
  define x y w h where xywh: "x = nat (rx1 r)" "y = nat (ry1 r)" "w = nat (rect_w r)" "h = nat (rect_h r)"
  define sx sy where sxy: "sx = nat (rx1 r - dx)" "sy = nat (ry1 r - dy)"
  note b = rect_box[OF assms(1), folded xywh]
  have s: "sx + w \<le> W" "sy + h \<le> H" "sx < 65536" "sy < 65536" "rx1 r - dx = int sx" "ry1 r - dy = int sy"
    using assms by (auto simp: sxy xywh rect_on_def rect_w_def rect_h_def)
  fix fb :: "'c word list" and view rest
  assume v: "shows_view W H fb view"
  define cr where "cr = wire16 (word_of_int (rx1 r - dx)) @ wire16 (word_of_int (ry1 r - dy))"
  have "ReadFromRFBServer 4 (cr @ rest) = Some (cr, rest)" by (rule read_append) (simp add: cr_def)
  moreover have "unat (unwire16 cr) = sx" "unat (unwire16 (drop 2 cr)) = sy" using s by (simp_all add: cr_def)
  ultimately have "handle_pixels d W H rfbEncodingCopyRect x y w h fb (cr @ rest) =
      Some (CopyRectangleFromRectangle W fb sx sy w h x y, rest)"
    using b(2,3) by (simp add: handle_pixels_def rfbEncodingRaw_def rfbEncodingCopyRect_def)
  moreover have "overlay x y w h (\<lambda>px py. view (int (sx + px)) (int (sy + py))) (\<lambda>X Y. view (int X) (int Y)) =
      (\<lambda>X Y. copy_rect_view dx dy r view (int X) (int Y))"
    using s(5,6) assms(1)
    by (intro ext) (auto simp: overlay_def in_rect_def copy_rect_view_def rect_pixels_def xywh rect_w_def rect_h_def rect_on_def sxy)
  ultimately show "\<exists>fb'. handle_pixels d W H rfbEncodingCopyRect (nat (rx1 r)) (nat (ry1 r)) (nat (rect_w r)) (nat (rect_h r)) fb
      ((wire16 (word_of_int (rx1 r - dx)) @ wire16 (word_of_int (ry1 r - dy))) @ rest) = Some (fb', rest) \<and>
      shows_view W H fb' (copy_rect_view dx dy r view)"
    using CopyRectangleFromRectangle_shows[OF v[unfolded shows_view_def] b(2,3) s(1,2)]
    unfolding xywh[symmetric] cr_def[symmetric] by (simp add: shows_view_def)
qed (use assms in \<open>auto simp: rect_on_def rect_w_def rect_h_def\<close>)


definition copy_message :: "int \<Rightarrow> int \<Rightarrow> sraRect \<Rightarrow> uint8_t list" where
  "copy_message dx dy r =
     int_header (rx1 r) (ry1 r) (rect_w r) (rect_h r) rfbEncodingCopyRect @
     wire16 (word_of_int (rx1 r - dx)) @ wire16 (word_of_int (ry1 r - dy))"

lemma length_copy_message: "length (copy_message dx dy r) = 16"
  by (simp add: copy_message_def int_header_def)

lemma put_copies: "fold (put_copy dx dy) rs out = put_bytes (concat (map (copy_message dx dy) rs)) out"
  by (induction rs arbitrary: out) (simp_all add: put_copy_def copy_message_def put_bytes_def)

lemma paints_copies:
  assumes "\<And>r. r \<in> set rs \<Longrightarrow> paints d W H 1 (copy_message dx dy r) (copy_rect_view dx dy r)"
  shows "paints d W H (length rs) (concat (map (copy_message dx dy) rs)) (fold (copy_rect_view dx dy) rs)"
  using assms
proof (induction rs)
  case Nil
  have "fold (copy_rect_view dx dy) [] = (\<lambda>view. view)" by (simp add: fun_eq_iff)
  then show ?case using paints_none[of d W H] by simp
next
  case (Cons r rs)
  then show ?case using paints_append[of d W H 1 "copy_message dx dy r" "copy_rect_view dx dy r"] by (simp add: comp_def)
qed

text \<open>The rectangles of a region on the screen.\<close>

lemma region_rect_on:
  assumes "rgn_ok rgn" and "pixels rgn \<subseteq> {0..<int W} \<times> {0..<int H}"
    and "r \<in> set (iterator_rects (sraRgnGetReverseIterator rgn rx ry))"
  shows "rect_on W H r" "rect_pixels r \<subseteq> pixels rgn"
proof -
  show sub: "rect_pixels r \<subseteq> pixels rgn" using iterator_exact[OF assms(1)] assms(3) by blast
  obtain v h where "v \<in> set rgn" "h \<in> set (subspan v)" and r: "r = rect_of v h"
    using assms(3) by (auto simp: reverse_iterator_rects[OF assms(1)] row_rects_def split: if_splits)
  then have "span_start v < span_end v" "span_start h < span_end h" using assms(1) by (auto simp: rgn_ok_iff)
  then have "rx1 r < rx2 r" "ry1 r < ry2 r" by (auto simp: r rect_of_def)
  then have "(rx1 r, ry1 r) \<in> rect_pixels r" "(rx2 r - 1, ry2 r - 1) \<in> rect_pixels r" by (auto simp: rect_pixels_def)
  then have "(rx1 r, ry1 r) \<in> {0..<int W} \<times> {0..<int H}" "(rx2 r - 1, ry2 r - 1) \<in> {0..<int W} \<times> {0..<int H}"
    using sub assms(2) by blast+
  then show "rect_on W H r" using \<open>rx1 r < rx2 r\<close> \<open>ry1 r < ry2 r\<close> by (auto simp: rect_on_def)
qed


section \<open>The pixels of an update\<close>

abbreviation screen_pixels :: "nat \<Rightarrow> nat \<Rightarrow> (int \<times> int) set" where
  "screen_pixels W H \<equiv> {0..<int W} \<times> {0..<int H}"

lemma updated_eq: "updated view pic rgn copyRgn dx dy = pixel_view pic (pixels rgn) (copied view copyRgn dx dy)"
  by (simp add: updated_def pixel_view_def fun_eq_iff)

lemma copies_paint:
  assumes "rgn_ok copyRgn" and "pixels copyRgn \<subseteq> screen_pixels W H"
    and "\<And>x y. (x, y) \<in> pixels copyRgn \<Longrightarrow> (x - dx, y - dy) \<in> screen_pixels W H"
    and "W < 65536" "H < 65536"
    and "rs = iterator_rects (sraRgnGetReverseIterator copyRgn (0 < dx) (0 < dy))"
  shows "paints d W H (sraRgnCountRects copyRgn) (concat (map (copy_message dx dy) rs))
    ((\<lambda>view. copied view copyRgn dx dy) :: 'c::len word picture \<Rightarrow> _)"
proof -
  have "paints d W H (length rs) (concat (map (copy_message dx dy) rs)) (fold (copy_rect_view dx dy) rs :: 'c word picture \<Rightarrow> _)"
  proof (rule paints_copies)
    fix r assume "r \<in> set rs"
    note on = region_rect_on[OF assms(1,2) this[unfolded assms(6)]]
    have "(rx1 r, ry1 r) \<in> rect_pixels r" "(rx2 r - 1, ry2 r - 1) \<in> rect_pixels r"
      using on(1) by (auto simp: rect_on_def rect_pixels_def)
    then have "(rx1 r - dx, ry1 r - dy) \<in> screen_pixels W H" "(rx2 r - 1 - dx, ry2 r - 1 - dy) \<in> screen_pixels W H"
      using on(2) assms(3) by blast+
    then show "paints d W H 1 (copy_message dx dy r) (copy_rect_view dx dy r :: 'c word picture \<Rightarrow> _)"
      unfolding copy_message_def using on(1) assms(4,5) by (intro paints_copy) auto
  qed
  moreover have "length rs = sraRgnCountRects copyRgn" using iterator_exact[OF assms(1)] assms(6) by blast
  moreover have "fold (copy_rect_view dx dy) rs = (\<lambda>view :: 'c word picture. copied view copyRgn dx dy)"
    by (intro ext) (simp add: assms(6) copies_in_order[OF assms(1)])
  ultimately show ?thesis by simp
qed

lemma send_pixels_paints:
  assumes "send_pixels enc copyRgn dx dy rgn False out = (True, out')" and "length (updateBuf out) = 4"
    and "rgn_ok copyRgn" "pixels copyRgn \<subseteq> screen_pixels W H"
    and "\<And>x y. (x, y) \<in> pixels copyRgn \<Longrightarrow> (x - dx, y - dy) \<in> screen_pixels W H"
    and "W < 65536" "H < 65536" and "sraRgnCountRects copyRgn \<le> 1874"
    and "rgn_ok rgn" "pixels rgn \<subseteq> screen_pixels W H"
    and "\<And>r. rect_on W H r \<Longrightarrow> \<exists>msg. delivers (enc r) msg \<and> paints d W H (k r) msg (pixel_view pic (rect_pixels r))"
  shows "\<exists>msg. sent out' = sent out @ updateBuf out @ msg \<and>
    paints d W H (sraRgnCountRects copyRgn + sum_list (map k (region_rects rgn))) msg (\<lambda>view. updated view pic rgn copyRgn dx dy)"
proof -
  define rs where "rs = iterator_rects (sraRgnGetReverseIterator copyRgn (0 < dx) (0 < dy))"
  have count: "length rs = sraRgnCountRects copyRgn" using iterator_exact[OF assms(3)] by (simp add: rs_def)
  define a where "a = concat (map (copy_message dx dy) rs)"
  have la: "length a = 16 * length rs"
    unfolding a_def by (induction rs) (simp_all add: length_copy_message)
  have "sraRgnEmpty copyRgn \<Longrightarrow> rs = []"
    using reverse_iterator_rects[OF assms(3)] rgn_Empty[OF assms(3)] assms(3)
    by (auto simp: rs_def sraRgnEmpty_def sraSpanListEmpty_def split: list.splits)
  then have put: "(if \<not> sraRgnEmpty copyRgn then rfbSendCopyRegion copyRgn dx dy out else out) = put_bytes a out"
    by (auto simp: rfbSendCopyRegion_def put_copies a_def put_bytes_def simp flip: rs_def)
  obtain b where b: "delivers (send_rects enc (region_rects rgn)) b"
    "paints d W H (sum_list (map k (region_rects rgn))) b (pixel_view pic (\<Union>r\<in>set (region_rects rgn). rect_pixels r))"
    using send_rects_paints[of "region_rects rgn" enc d W H k pic] assms(11)
      region_rect_on(1)[OF assms(9,10)] unfolding sraRgnGetIterator_eq by blast
  have un: "(\<Union>r\<in>set (region_rects rgn). rect_pixels r) = pixels rgn"
    using iterator_exact[OF assms(9)] unfolding sraRgnGetIterator_eq by blast
  obtain ok out1 where s: "send_rects enc (region_rects rgn) (put_bytes a out) = (ok, out1)" by fastforce
  have ok and f: "rfbSendUpdateBuf out1 = (True, out')"
    using assms(1) by (auto simp: send_pixels_def Let_def put s split: if_splits)
  then have open1: "sock_open out1" and se: "sent out' = stream out1"
    by (auto simp: rfbSendUpdateBuf_def stream_def split: if_splits)
  have "buf_ok (put_bytes a out)"
    using assms(2,8) la count by (simp add: buf_ok_def put_bytes_def UPDATE_BUF_SIZE_def)
  from delivers_stream[OF b(1) this] s open1 have "stream out1 = stream out @ a @ b"
    by (simp add: put_bytes_stream)
  then have "sent out' = sent out @ updateBuf out @ (a @ b)" by (simp add: se stream_def)
  moreover have "paints d W H (sraRgnCountRects copyRgn + sum_list (map k (region_rects rgn))) (a @ b)
      (\<lambda>view. updated view pic rgn copyRgn dx dy)"
    using paints_append[OF copies_paint[OF assms(3-7) rs_def, folded a_def, of d] b(2)]
    by (simp add: un updated_eq)
  ultimately show ?thesis by blast
qed

section \<open>Limiting the number of rectangles\<close>

lemma int_sum_list: "int (sum_list (map f xs)) = sum_list (map (\<lambda>x. int (f x)) xs)"
  by (induction xs) simp_all

lemma limit_rects_spec:
  assumes "limit_rects m cl rgn = (rgn', n)" and "rgn_ok rgn" "pixels rgn \<subseteq> screen_pixels W H"
    and "W < 65536" "H < 65536" and "decodable cl"
  shows "rgn_ok rgn'" "pixels rgn \<subseteq> pixels rgn'" "pixels rgn' \<subseteq> screen_pixels W H"
    "n = int (sum_list (map (rect_cost cl) (region_rects rgn')))"
proof -
  have ones: "sum_list (map (rect_cost cl) (region_rects r)) = sraRgnCountRects r" if "rgn_ok r" "preferredEncoding cl \<noteq> ENC_CoRRE" for r
  proof -
    have "map (rect_cost cl) (region_rects r) = map (\<lambda>_. 1) (region_rects r)" using that(2) by (simp add: rect_cost_def)
    then have "sum_list (map (rect_cost cl) (region_rects r)) = length (region_rects r)" by (simp only: sum_list_triv) simp
    then show ?thesis using iterator_exact[OF that(1)] by (simp add: sraRgnGetIterator_eq)
  qed
  have enc: "preferredEncoding cl \<noteq> ENC_Ultra" "preferredEncoding cl \<noteq> ENC_Zlib" "preferredEncoding cl \<noteq> ENC_Tight"
    using assms(6) by (auto simp: decodable_def ENC_Ultra_def ENC_Zlib_def ENC_Tight_def ENC_RRE_def ENC_CoRRE_def ENC_Hextile_def)
  have cnt: "count_update cl rgn = int (sum_list (map (rect_cost cl) (region_rects rgn)))"
  proof (cases "preferredEncoding cl = ENC_CoRRE")
    case True
    have "corre_count (correMaxWidth cl) (correMaxHeight cl) r = int (rect_cost cl r)" if "r \<in> set (region_rects rgn)" for r
    proof -
      have "rect_on W H r" using region_rect_on(1)[OF assms(2,3)] that unfolding sraRgnGetIterator_eq .
      then have "0 \<le> rect_w r - 1" "0 \<le> rect_h r - 1" by (auto simp: rect_on_def rect_w_def rect_h_def)
      then have "0 \<le> corre_count (correMaxWidth cl) (correMaxHeight cl) r"
        using assms(6) by (auto simp: corre_count_def decodable_def pos_imp_zdiv_nonneg_iff)
      then show ?thesis using True by (simp add: rect_cost_def)
    qed
    then have "map (corre_count (correMaxWidth cl) (correMaxHeight cl)) (region_rects rgn) = map (\<lambda>r. int (rect_cost cl r)) (region_rects rgn)"
      by simp
    then show ?thesis using True by (simp only: count_update_def if_True simp_thms int_sum_list)
  next
    case False
    then show ?thesis using enc ones[OF assms(2)] by (simp add: count_update_def)
  qed
  show "rgn_ok rgn'" "pixels rgn \<subseteq> pixels rgn'" "pixels rgn' \<subseteq> screen_pixels W H"
    "n = int (sum_list (map (rect_cost cl) (region_rects rgn')))"
  proof (atomize (full), goal_cases)
    case 1
    show ?case
    proof (cases "preferredEncoding cl \<noteq> ENC_CoRRE \<and> rgn' = sraRgnBBox (Some rgn) \<and> n = int (sraRgnCountRects rgn') \<and> rgn \<noteq> []")
      case True
      have "pixels rgn \<subseteq> {1 - INT_MAX..<INT_MAX} \<times> {1 - INT_MAX..<INT_MAX}"
      proof
        fix p assume "p \<in> pixels rgn"
        then have "p \<in> screen_pixels W H" using assms(3) by blast
        then show "p \<in> {1 - INT_MAX..<INT_MAX} \<times> {1 - INT_MAX..<INT_MAX}"
          using assms(4,5) by (auto simp: INT_MAX_def)
      qed
      from bbox_least[OF assms(2) _ this] True obtain a b c e where bx: "sraRgnBBox (Some rgn) = sraRgnCreateRect a b c e"
        "pixels rgn \<subseteq> {a..<c} \<times> {b..<e}"
        "\<And>a' b' c' d'. pixels rgn \<subseteq> {a'..<c'} \<times> {b'..<d'} \<Longrightarrow> a' \<le> a \<and> b' \<le> b \<and> c \<le> c' \<and> e \<le> d'" by metis
      have "0 \<le> a \<and> 0 \<le> b \<and> c \<le> int W \<and> e \<le> int H" using bx(3)[OF assms(3)] .
      moreover have "pixels rgn \<noteq> {}" using True assms(2) by (auto simp: pixels_empty_iff)
      then have "a < c" "b < e" using bx(2) by fastforce+
      ultimately show ?thesis
        using True bx(1,2) ones rgn_ok_rect[of a c b e] by (auto simp: pixels_rect)
    next
      case False
      have "rgn' = rgn \<and> n = count_update cl rgn"
      proof (rule ccontr)
        assume no: "\<not> (rgn' = rgn \<and> n = count_update cl rgn)"
        then have *: "preferredEncoding cl \<noteq> ENC_CoRRE" "rgn' = sraRgnBBox (Some rgn)" "n = int (sraRgnCountRects rgn')" "0 < m" "m < count_update cl rgn"
          using assms(1) by (auto simp: limit_rects_def Let_def split: if_splits)
        then have "0 < sraRgnCountRects rgn" using cnt ones[OF assms(2)] by simp
        then have "rgn \<noteq> []" by (auto simp: count_rects)
        then show False using * False by blast
      qed
      then show ?thesis using assms(2,3) cnt by simp
    qed
  qed
qed


section \<open>An update\<close>

lemma no_flags:
  assumes "flag_count f = 0"
  shows "\<not> sendCursorShape f" "\<not> sendCursorPos f" "\<not> sendKeyboardLedState f" "\<not> sendSupportedMessages f"
    "\<not> sendSupportedEncodings f" "\<not> sendServerIdentity f"
  using assms by (auto simp: flag_count_def of_bool_def split: if_splits)

lemma no_pseudo: "flag_count f = 0 \<Longrightarrow> send_pseudo tr st f s cl = Some (True, s, cl)"
  by (simp add: send_pseudo_def no_flags on_out_def Let_def)

lemma limit_rects_cong:
  "preferredEncoding cl' = preferredEncoding cl \<Longrightarrow> correMaxWidth cl' = correMaxWidth cl \<Longrightarrow>
   correMaxHeight cl' = correMaxHeight cl \<Longrightarrow> decodable cl \<Longrightarrow> limit_rects m cl' rgn = limit_rects m cl rgn"
  by (auto simp: limit_rects_def count_update_def decodable_def ENC_CoRRE_def ENC_RRE_def ENC_Hextile_def ENC_Ultra_def ENC_Zlib_def
      ENC_Tight_def Let_def)

lemma send_split_paints:
  fixes tr :: "'s::len word \<Rightarrow> 'c::len word"
  assumes "send_split tr other st f (rgn, copyRgn, dx, dy, u) s cl = Some (True, s', cl')"
    and "enableCursorShapeUpdates u" and "flag_count f = 0" and "decodable cl"
    and "rgn_ok rgn" "pixels rgn \<subseteq> screen_pixels W H" "rgn_ok copyRgn" "pixels copyRgn \<subseteq> screen_pixels W H"
    and "\<And>x y. (x, y) \<in> pixels copyRgn \<Longrightarrow> (x - dx, y - dy) \<in> screen_pixels W H"
    and "W < 65536" "H < 65536" and "sraRgnCountRects copyRgn \<le> 1874"
    and "int (sraRgnCountRects copyRgn) + snd (limit_rects (maxRectsPerUpdate st) cl rgn) < 0xFFFF"
    and "8 dvd LENGTH('c)" "LENGTH('c) \<le> 32" "LENGTH('c) \<in> {8, 16, 32}"
  shows "\<exists>N rgn' msg. s' = s \<and> regions cl' = u \<and> N < 65536 \<and> pixels rgn \<subseteq> pixels rgn' \<and>
    sent (outb cl') = sent (outb cl) @ update_header (pad st) (word_of_nat N) @ msg \<and>
    paints d W H N msg (\<lambda>view. updated view (\<lambda>x y. tr (frameBuffer s x y)) rgn' copyRgn dx dy)"
proof -
  define c1 where "c1 = cl\<lparr>regions := u\<rparr>"
  have same: "preferredEncoding c1 = preferredEncoding cl" "correMaxWidth c1 = correMaxWidth cl"
    "correMaxHeight c1 = correMaxHeight cl" and ob: "outb c1 = outb cl" by (simp_all add: c1_def)
  obtain rgn' n where lim: "limit_rects (maxRectsPerUpdate st) cl rgn = (rgn', n)" by fastforce
  note L = limit_rects_spec[OF lim assms(5,6,10,11,4)]
  define N where "N = sraRgnCountRects copyRgn + sum_list (map (rect_cost cl) (region_rects rgn'))"
  have N: "int (sraRgnCountRects copyRgn) + n = int N" "N < 65535" using assms(13) L(4) by (simp_all add: lim N_def)
  then have no: "n \<noteq> 0xFFFF" by simp
  define c2 where "c2 = c1\<lparr>outb := (outb c1)\<lparr>updateBuf := update_header (pad st) (word_of_nat N)\<rparr>\<rparr>"
  have lim1: "limit_rects (maxRectsPerUpdate st) c1 rgn = (rgn', n)"
    using limit_rects_cong[OF same assms(4)] lim by simp
  define enc where "enc = encode_rect other (\<lambda>x y. tr (frameBuffer s (int x) (int y))) (nat (ss_width s)) (nat (ss_height s)) (rreAfterBufSize st) c2"
  obtain ok out' where sp: "send_pixels enc copyRgn dx dy rgn' False (outb c2) = (ok, out')" by fastforce
  have "send_split tr other st f (rgn, copyRgn, dx, dy, u) s cl = Some (ok, s, c2\<lparr>outb := out'\<rparr>)"
    using assms(2,3) no sp N(1)
    by (simp add: send_split_def lim1 no_pseudo Let_def flip: c1_def) (simp add: c2_def enc_def ob)
  then have r: "ok" "s' = s" "cl' = c2\<lparr>outb := out'\<rparr>" using assms(1) by auto
  have dec: "decodable c2" and cost: "rect_cost c2 = rect_cost cl"
    using assms(4) same by (auto simp: decodable_def c2_def rect_cost_def fun_eq_iff)
  have "length (updateBuf (outb c2)) = 4" by (simp add: c2_def update_header_def)
  from send_pixels_paints[OF sp[unfolded r(1)[THEN eqTrueI]] this assms(7,8,9,10,11,12) L(1,3), of d "rect_cost c2"]
  have "\<exists>msg. sent out' = sent (outb c2) @ updateBuf (outb c2) @ msg \<and>
      paints d W H N msg (\<lambda>view. updated view (\<lambda>x y. tr (frameBuffer s x y)) rgn' copyRgn dx dy)"
    using encode_rect_paints[OF _ assms(14-16) _ assms(10,11) dec] unfolding enc_def cost N_def by auto
  then obtain msg where msg: "sent out' = sent (outb c2) @ updateBuf (outb c2) @ msg"
    "paints d W H N msg (\<lambda>view. updated view (\<lambda>x y. tr (frameBuffer s x y)) rgn' copyRgn dx dy)" by blast
  have "regions cl' = u" "sent (outb cl') = sent (outb cl) @ update_header (pad st) (word_of_nat N) @ msg"
    using msg(1) r(3) by (simp_all add: c2_def c1_def)
  moreover have "N < 65536" using N(2) by simp
  ultimately show ?thesis using r(2) L(2) msg(2) by blast
qed


text \<open>The client handles the whole message.\<close>

lemma handle_painted:
  fixes c :: "'c::len word rfb_client"
  assumes "paints d W H N msg g" and "N < 65536" and "c_width c = W" "c_height c = H" "shows_view W H (c_frame c) view"
    and "0 < writes c"
  shows "\<exists>c'. HandleFramebufferUpdate d c (p # wire16 (word_of_nat N) @ msg) = Some (c', []) \<and>
    c_width c' = W \<and> c_height c' = H \<and> shows_view W H (c_frame c') (g view)"
proof -
  from assms(1,3,4,5) have "\<exists>fb. handle_rects d (N + 0) c (msg @ []) = handle_rects d 0 (c\<lparr>c_frame := fb\<rparr>) [] \<and>
      shows_view W H fb (g view)" unfolding paints_def by blast
  then obtain fb where fb: "handle_rects d N c msg = Some (c\<lparr>c_frame := fb\<rparr>, [])" "shows_view W H fb (g view)" by auto
  have read: "ReadFromRFBServer 3 ((p # wire16 (word_of_nat N)) @ msg) = Some (p # wire16 (word_of_nat N), msg)"
    by (rule read_append) simp
  obtain x y w h where u: "updateRect c = (x, y, w, h)" by (metis prod_cases4)
  define c' where "c' = snd (SendIncrementalFramebufferUpdateRequest (c\<lparr>c_frame := fb\<rparr>))"
  have s: "SendIncrementalFramebufferUpdateRequest (c\<lparr>c_frame := fb\<rparr>) = (True, c')"
    "c_width c' = W" "c_height c' = H" "c_frame c' = fb"
    using assms(3,4,6) u unfolding c'_def
    by (simp_all add: SendIncrementalFramebufferUpdateRequest_def SendFramebufferUpdateRequest_def WriteToRFBServer_def)
  have "HandleFramebufferUpdate d c (p # wire16 (word_of_nat N) @ msg) = Some (c', [])"
    using read assms(2) by (simp add: HandleFramebufferUpdate_def fb(1) s)
  then show ?thesis using s fb(2) by blast
qed

lemma slice_ok:
  assumes "progressive_slice m w h y rgn = (rgn', y')" and "rgn_ok rgn" "0 < m" "0 < w"
  shows "rgn_ok rgn'"
proof -
  have "rgn_ok (fst (sraRgnAnd rgn (sraRgnCreateRect 0 k w (k + m))))" for k
    using assms(2-4) by (intro rgn_And rgn_ok_rect) auto
  then show ?thesis
    using assms(1,2) by (auto simp: progressive_slice_def Let_def split: option.splits)
qed

lemma update_parts_spec:
  assumes "update_parts st given s cl = (f, cl1, parts)"
  shows "\<exists>rgn idle. parts = split_update idle rgn (forget_modified_copy (regions cl)) \<and>
      regions cl1 = forget_modified_copy (regions cl) \<and> outb cl1 = outb cl \<and> (decodable cl \<longrightarrow> decodable cl1) \<and>
      (idle \<longrightarrow> flag_count f = 0) \<and> (enableCursorShapeUpdates (regions cl) \<longrightarrow> idle = (flag_count f = 0)) \<and>
      (rgn_ok given \<and> 0 < ss_width s \<longrightarrow> rgn_ok rgn) \<and> (progressiveSliceHeight st \<le> 0 \<longrightarrow> rgn = given)"
proof -
  obtain f' c1 where t: "take_flags (ledState st) cl = (f', c1)" by fastforce
  have c1: "regions c1 = regions cl" "outb c1 = outb cl" "decodable cl \<longrightarrow> decodable c1"
    using t by (auto simp: take_flags_def Let_def decodable_def)
  obtain rgn y where r: "(if 0 < progressiveSliceHeight st
      then progressive_slice (progressiveSliceHeight st) (ss_width s) (ss_height s) (progressiveSliceY c1) (sraRgnCreateRgn given)
      else (sraRgnCreateRgn given, progressiveSliceY c1)) = (rgn, y)" by fastforce
  have "rgn_ok given \<and> 0 < ss_width s \<longrightarrow> rgn_ok rgn" "progressiveSliceHeight st \<le> 0 \<longrightarrow> rgn = given"
    using r slice_ok[of _ _ _ _ given rgn y] by (auto simp: region_sets split: if_splits)
  moreover define idle where "idle = ((enableCursorShapeUpdates (regions cl) \<or>
      (uc_cursorX (regions cl) = ss_cursorX s \<and> uc_cursorY (regions cl) = ss_cursorY s)) \<and> flag_count f' = 0)"
  have u: "enableCursorShapeUpdates (forget_modified_copy (regions cl)) = enableCursorShapeUpdates (regions cl)"
    "uc_cursorX (forget_modified_copy (regions cl)) = uc_cursorX (regions cl)"
    "uc_cursorY (forget_modified_copy (regions cl)) = uc_cursorY (regions cl)" by (simp_all add: forget_modified_copy_def)
  have e: "f = f' \<and> cl1 = c1\<lparr>regions := forget_modified_copy (regions c1), progressiveSliceY := y\<rparr> \<and>
      parts = split_update idle rgn (forget_modified_copy (regions c1))"
    using assms unfolding update_parts_def
    by (auto simp: t r Let_def u c1(1) idle_def cong: if_cong)
  ultimately show ?thesis
    using c1 e by (intro exI[of _ rgn] exI[of _ idle]) (auto simp: decodable_def idle_def)
qed


lemma split_update_None:
  assumes "split_update idle rgn cl = None" and "regions_ok cl" "rgn_ok rgn" "rgn_ok (requestedRegion cl)"
  shows "(pixels rgn \<union> pixels (copyRegion cl)) \<inter> pixels (requestedRegion cl) = {}"
proof -
  define u where "u = fst (sraRgnAnd (sraRgnOr rgn (copyRegion cl)) (requestedRegion cl))"
  have "rgn_ok u" "pixels u = (pixels rgn \<union> pixels (copyRegion cl)) \<inter> pixels (requestedRegion cl)"
    using assms(2-4) by (simp_all add: u_def regions_ok_def region_sets)
  moreover have "sraRgnEmpty u"
    using assms(1) by (auto simp: split_update_def Let_def u_def split: prod.splits if_splits)
  ultimately show ?thesis using rgn_Empty by blast
qed

lemma up_to_date_better:
  assumes "up_to_date (updated view pic rgn copyRgn dx dy) pic cl" and "pixels rgn \<subseteq> pixels rgn'" and "pixels (copyRegion cl) = {}"
  shows "up_to_date (updated view pic rgn' copyRgn dx dy) pic cl"
  using assms by (auto simp: up_to_date_def updated_def) (metis subsetD)

text \<open>The room the copies need, and a number of rectangles that fits in the header.\<close>

definition announced :: "'p send_settings \<Rightarrow> send_client \<Rightarrow> (sraRegion \<times> sraRegion \<times> int \<times> int \<times> update_client) option \<Rightarrow> bool" where
  "announced st cl parts =
     (case parts of None \<Rightarrow> True
      | Some (rgn, copyRgn, _) \<Rightarrow>
          sraRgnCountRects copyRgn \<le> 1874 \<and>
          int (sraRgnCountRects copyRgn) + snd (limit_rects (maxRectsPerUpdate st) cl rgn) < 0xFFFF)"

definition demo_line_screen :: "8 word server_screen" where
  "demo_line_screen = \<lparr>ss_width = 3, ss_height = 1, ss_format = rfbInitServerFormat 8 2,
     frameBuffer = (\<lambda>x y. if y \<noteq> 0 then 0 else if x = 0 then 7 else if x = 1 \<or> x = 2 then 5 else 0),
     underCursorBuffer = [], ss_cursor = None, ss_cursorX = 0, ss_cursorY = 0\<rparr>"

definition demo_line_regions :: update_client where
  "demo_line_regions = demo_update_client\<lparr>copyRegion := sraRgnCreateRect 2 0 3 1, copyDX := 1,
     modifiedRegion := sraRgnCreateRect 0 0 1 1, requestedRegion := sraRgnCreateRect 0 0 3 1,
     enableCursorShapeUpdates := True\<rparr>"

definition demo_line_client :: send_client where
  "demo_line_client = \<lparr>regions = demo_line_regions, outb = demo_update_state, cursorWasChanged = False,
     readyForSetColourMapEntries = True, useRichCursorEncoding = True, enableLastRectEncoding = False,
     enableKeyboardLedState = False, lastKeyboardLedState = 0, enableSupportedMessages = False,
     enableSupportedEncodings = False, enableServerIdentity = False, progressiveSliceY = 0,
     preferredEncoding = 0, correMaxWidth = 48, correMaxHeight = 48, tightCompressLevel = 0\<rparr>"

definition demo_send_settings :: "8 word send_settings" where
  "demo_send_settings = \<lparr>progressiveSliceHeight = 0, maxRectsPerUpdate = 50, ledState = None, versionString = None,
     pad = 0, heap = (\<lambda>_. 0), rreAfterBufSize = 0\<rparr>"

definition demo_line_frame :: "8 word rfb_client" where
  "demo_line_frame = \<lparr>c_width = 3, c_height = 1, c_frame = [0, 5, 0], c_format = rfbInitServerFormat 8 2,
     updateRect = (0, 0, 3, 1), rc_source = None, rc_mask = [], CurrentKeyboardLedState = 0, requests = [],
     writes = 1, frame_memory = (\<lambda>_. 0), supportedMessages = \<lparr>client2server = [8], server2client = []\<rparr>\<rparr>"

lemma demo_line_parts: "case update_parts demo_send_settings (sraRgnCreateRect 0 0 1 1) demo_line_screen demo_line_client of
   (f, cl1, parts) \<Rightarrow> flag_count f = 0 \<and> announced demo_send_settings cl1 parts \<and>
     parts = Some (sraRgnCreateRect 0 0 1 1, sraRgnCreateRect 2 0 3 1, 1, 0,
        demo_line_regions\<lparr>modifiedRegion := [], copyRegion := [], requestedRegion := [], copyDX := 0\<rparr>) \<and>
     cl1 = demo_line_client"
  by code_simp

lemma demo_line_rects:
  "\<not> sraRgnEmpty (sraRgnCreateRect 2 0 3 1)"
  "sraRgnCountRects (sraRgnCreateRect 2 0 3 1) = 1" "sraRgnCountRects (sraRgnCreateRect 0 0 1 1) = 1" 
  "region_rects (sraRgnCreateRect 0 0 1 1) = [\<lparr>rx1 = 0, ry1 = 0, rx2 = 1, ry2 = 1\<rparr>]"
  "iterator_rects (sraRgnGetReverseIterator (sraRgnCreateRect 2 0 3 1) True False) = [\<lparr>rx1 = 2, ry1 = 0, rx2 = 3, ry2 = 1\<rparr>]"
  unfolding sraRgnGetIterator_eq
  by (simp_all add: count_rects reverse_iterator_rects rgn_ok_rect) (simp_all add: sraRgnEmpty_def sraSpanListEmpty_def sraRgnCreateRect_def row_rects_def rect_of_def)
lemma demo_line_limit: "limit_rects 50 demo_line_client (sraRgnCreateRect 0 0 1 1) = (sraRgnCreateRect 0 0 1 1, 1)" 
  by (simp add: limit_rects_def count_update_def demo_line_client_def ENC_CoRRE_def ENC_Ultra_def ENC_Zlib_def ENC_Tight_def demo_line_rects)


lemma raw_sends:
  fixes fb :: "nat \<Rightarrow> nat \<Rightarrow> 8 word"
  assumes "sock_open cl" "2 \<le> writes_left cl"
  shows "fst (rfbSendRectEncodingRaw fb x y 1 1 cl)" "sock_open (snd (rfbSendRectEncodingRaw fb x y 1 1 cl))"
    "0 < writes_left (snd (rfbSendRectEncodingRaw fb x y 1 1 cl))"
  using assms
  by (auto simp: rfbSendRectEncodingRaw_def raw_loop.simps[of fb _ _ _ _ "Suc 0"] Let_def pixel_size_def put_bytes_def
      rfbSendUpdateBuf_def UPDATE_BUF_SIZE_def)

lemma demo_line_sent: "\<exists>s' cl'. rfbSendFramebufferUpdate (\<lambda>p. p) (\<lambda>enc x y w h out. (False, out)) demo_send_settings (sraRgnCreateRect 0 0 1 1) demo_line_screen demo_line_client = Some (True, s', cl')"
proof -
  obtain f where p: "update_parts demo_send_settings (sraRgnCreateRect 0 0 1 1) demo_line_screen demo_line_client =
     (f, demo_line_client, Some (sraRgnCreateRect 0 0 1 1, sraRgnCreateRect 2 0 3 1, 1, 0,
        demo_line_regions\<lparr>modifiedRegion := [], copyRegion := [], requestedRegion := [], copyDX := 0\<rparr>))" "flag_count f = 0"
    using demo_line_parts by (auto split: prod.splits)
  let ?u = "demo_line_regions\<lparr>modifiedRegion := [], copyRegion := [], requestedRegion := [], copyDX := 0\<rparr>"
  define c1 where "c1 = demo_line_client\<lparr>regions := ?u\<rparr>"
  have c1: "limit_rects 50 c1 (sraRgnCreateRect 0 0 1 1) = (sraRgnCreateRect 0 0 1 1, 1)"
    using demo_line_limit by (subst limit_rects_cong[of _ demo_line_client]) (simp_all add: c1_def decodable_def demo_line_client_def)
  have f: "\<not> newFBSizePending demo_line_regions" "enableCursorShapeUpdates ?u" "regions demo_line_client = demo_line_regions"
    "maxRectsPerUpdate demo_send_settings = 50" "preferredEncoding c1 = 0" "sock_open (outb demo_line_client)" "writes_left (outb demo_line_client) = 10"
    by (simp_all add: demo_line_regions_def demo_update_client_def demo_line_client_def demo_send_settings_def c1_def demo_update_state_def)
  have g: "ss_width demo_line_screen = 3" "ss_height demo_line_screen = 1" "rreAfterBufSize demo_send_settings = 0"
    by (simp_all add: demo_line_screen_def demo_send_settings_def)
  have "fst (send_pixels (encode_rect other fb 3 1 0 (c1\<lparr>outb := out\<rparr>)) (sraRgnCreateRect 2 0 3 1) 1 0 (sraRgnCreateRect 0 0 1 1) False
     out)" if "sock_open out" "writes_left out = 10" for out other and fb :: "nat \<Rightarrow> nat \<Rightarrow> 8 word"
  proof -
    have *: "sock_open (put_copy 1 0 r out)" "2 \<le> writes_left (put_copy 1 0 r out)" for r
      using that by (simp_all add: put_copy_def put_bytes_def)
    show ?thesis
      using raw_sends[OF *]
      by (simp add: send_pixels_def rfbSendCopyRegion_def demo_line_rects encode_rect_def f rect_w_def rect_h_def Let_def
          rfbSendUpdateBuf_def case_prod_unfold)
  qed
  then show ?thesis
    using f g by (simp add: rfbSendFramebufferUpdate_def p send_split_def Let_def c1 no_pseudo case_prod_unfold flip: c1_def)
qed

lemma update_roundtrip:
  fixes tr :: "'s::len word \<Rightarrow> 'c::len word" and c :: "'c word rfb_client"
  defines "pic s \<equiv> (\<lambda>x y. tr (frameBuffer s x y))"
  assumes "rfbSendFramebufferUpdate tr other st given s cl = Some (True, s', cl')"
    and "update_parts st given s cl = (f, cl1, parts)" and "announced st cl1 parts"
    and "\<not> (useNewFBSize (regions cl) \<and> newFBSizePending (regions cl))"
    and "enableCursorShapeUpdates (regions cl)" "flag_count f = 0" "decodable cl"
    and "ss_width s = int W" "0 < W" "W < 65536" "H < 65536"
    and "regions_ok (regions cl)" "rgn_ok given" "rgn_ok (requestedRegion (regions cl))"
    and "pixels (requestedRegion (regions cl)) \<subseteq> {0..<int W} \<times> {0..<int H}"
    and "LENGTH('c) \<in> {8, 16, 32}"
    and "c_width c = W" "c_height c = H" "shows_view W H (c_frame c) view" "0 < writes c"
    and "up_to_date view (pic s) (regions cl)"
  shows "s' = s \<and> (\<exists>view'. up_to_date view' (pic s) (regions cl') \<and>
    (progressiveSliceHeight st \<le> 0 \<and> pixels (modifiedRegion (regions cl)) \<subseteq> pixels given \<longrightarrow>
       (\<forall>x y. (x, y) \<in> pixels (requestedRegion (regions cl)) \<longrightarrow> view' x y = pic s x y)) \<and>
    (sent (outb cl') = sent (outb cl) \<and> view' = view \<or>
     (\<exists>msg c'. sent (outb cl') = sent (outb cl) @ 0 # msg \<and> HandleFramebufferUpdate d c msg = Some (c', []) \<and>
        shows_view W H (c_frame c') view')))"
proof -
  have len: "8 dvd LENGTH('c)" "LENGTH('c) \<le> 32" "LENGTH('c) \<in> {8, 16, 32}" using assms(17) by auto
  let ?u = "regions cl" and ?v = "forget_modified_copy (regions cl)"
  obtain rgn0 idle where P: "parts = split_update idle rgn0 ?v" "regions cl1 = ?v" "outb cl1 = outb cl" "decodable cl1"
    "rgn_ok rgn0" "progressiveSliceHeight st \<le> 0 \<longrightarrow> rgn0 = given"
    using update_parts_spec[OF assms(3)] assms(8,9,10,14) by auto
  have run: "(case parts of None \<Rightarrow> Some (True, s, cl1) | Some parts \<Rightarrow> send_split tr other st f parts s cl1) = Some (True, s', cl')"
    using assms(2,3,5) by (simp add: rfbSendFramebufferUpdate_def)
  note F = forget_modified_copy_spec[OF assms(22) assms(13)]
  have rq: "requestedRegion ?v = requestedRegion ?u" "modifiedRegion ?v = modifiedRegion ?u"
    "copyDX ?v = copyDX ?u" "copyDY ?v = copyDY ?u" by (simp_all add: forget_modified_copy_def)
  have rok: "rgn_ok (requestedRegion ?v)" using assms(15) rq by simp
  show ?thesis
  proof (cases parts)
    case None
    then have r: "s' = s" "cl' = cl1" using run by auto
    have empty: "(pixels rgn0 \<union> pixels (copyRegion ?v)) \<inter> pixels (requestedRegion ?u) = {}"
      using split_update_None[OF P(1)[symmetric, unfolded None] F(2) P(5) rok] rq by simp
    have "view x y = pic s x y" if "progressiveSliceHeight st \<le> 0" "pixels (modifiedRegion ?u) \<subseteq> pixels given"
      "(x, y) \<in> pixels (requestedRegion ?u)" for x y
    proof -
      have "(x, y) \<notin> pixels (modifiedRegion ?v)" "(x, y) \<notin> pixels (copyRegion ?v)"
        using that empty P(6) rq by auto
      then show ?thesis using F(1) by (simp add: up_to_date_def)
    qed
    then show ?thesis using r P(2,3) F(1) by (intro conjI exI[of _ view]) auto
  next
    case (Some p)
    obtain rgn copyRgn dx dy u where p: "p = (rgn, copyRgn, dx, dy, u)" by (metis prod_cases5)
    have sp: "split_update idle rgn0 ?v = Some (rgn, copyRgn, dx, dy, u)" using Some p P(1) by simp
    note S = split_update_sets[OF sp F(2) P(5) rok]
    have cok: "rgn_ok (copyRegion ?v)" using F(2) by (simp add: regions_ok_def)
    have sub: "pixels rgn \<subseteq> screen_pixels W H" "pixels copyRgn \<subseteq> screen_pixels W H"
      using S(4,7) copy_now_spec(2)[OF cok rok] assms(16) rq by auto
    have src: "(x - dx, y - dy) \<in> screen_pixels W H" if "(x, y) \<in> pixels copyRgn" for x y
      using that S(4-6) copy_now_spec(2)[OF cok rok] assms(16) rq by auto
    have "enableCursorShapeUpdates u"
      using sp assms(6) by (auto simp: split_update_def Let_def forget_modified_copy_def split: prod.splits if_splits)
    moreover have "send_split tr other st f (rgn, copyRgn, dx, dy, u) s cl1 = Some (True, s', cl')" using run Some p by simp
    moreover have "sraRgnCountRects copyRgn \<le> 1874"
      "int (sraRgnCountRects copyRgn) + snd (limit_rects (maxRectsPerUpdate st) cl1 rgn) < 0xFFFF"
      using assms(4) Some p by (simp_all add: announced_def)
    ultimately obtain N rgn' body where m: "s' = s" "regions cl' = u" "N < 65536" "pixels rgn \<subseteq> pixels rgn'"
      "sent (outb cl') = sent (outb cl1) @ update_header (pad st) (word_of_nat N) @ body"
      "paints d W H N body (\<lambda>view. updated view (pic s) rgn' copyRgn dx dy)"
      using send_split_paints[OF _ _ assms(7) P(4) S(1) sub(1) S(2) sub(2) src assms(11,12) _ _ len]
      unfolding pic_def by blast
    define view' where "view' = updated view (pic s) rgn' copyRgn dx dy"
    obtain c' where c': "HandleFramebufferUpdate d c (pad st # wire16 (word_of_nat N) @ body) = Some (c', [])"
      "shows_view W H (c_frame c') view'"
      using handle_painted[OF m(6,3) assms(18-21), of "pad st"] unfolding view'_def by blast
    have up: "up_to_date view' (pic s) (regions cl')"
      using up_to_date_better[OF split_update_up_to_date[OF sp assms(22,13) P(5) assms(15)] m(4) S(9)] m(2)
      by (simp add: view'_def)
    have "view' x y = pic s x y" if "progressiveSliceHeight st \<le> 0" "pixels (modifiedRegion ?u) \<subseteq> pixels given"
      "(x, y) \<in> pixels (requestedRegion ?u)" for x y
    proof -
      have "(x, y) \<notin> pixels (modifiedRegion u)" using that S(7,8) P(6) rq by auto
      then show ?thesis using up S(9) m(2) by (simp add: up_to_date_def)
    qed
    moreover have "sent (outb cl') = sent (outb cl) @ 0 # (pad st # wire16 (word_of_nat N) @ body)"
      using m(5) P(3) by (simp add: update_header_def)
    ultimately show ?thesis using m(1) up c' by blast
  qed
qed

text \<open>
  C10: An update from end to end. When \<open>rfbSendFramebufferUpdate\<close> returns \<open>TRUE\<close> for a client that draws
  the cursor itself, either nothing was due, or the client that handles the message shows a new
  picture; in both cases the regions the server keeps for the client are right about that picture,
  and without slices it agrees with the screen wherever the client asked for it. This covers copied
  rectangles and the encodings Raw, RRE and CoRRE, for any number of flushes of the update buffer.
\<close>

theorem rfbSendFramebufferUpdate_roundtrip:
  fixes tr :: "'s::len word \<Rightarrow> 'c::len word" and c :: "'c word rfb_client"
  defines "pic s \<equiv> (\<lambda>x y. tr (frameBuffer s x y))"
  assumes "rfbSendFramebufferUpdate tr other st given s cl = Some (True, s', cl')"
    and "update_parts st given s cl = (f, cl1, parts)" and "announced st cl1 parts"
    and "\<not> (useNewFBSize (regions cl) \<and> newFBSizePending (regions cl))"
    and "enableCursorShapeUpdates (regions cl)" "flag_count f = 0" "decodable cl"
    and "ss_width s = int W" "0 < W" "W < 65536" "H < 65536"
    and "regions_ok (regions cl)" "rgn_ok given" "rgn_ok (requestedRegion (regions cl))"
    and "pixels (requestedRegion (regions cl)) \<subseteq> {0..<int W} \<times> {0..<int H}"
    and "LENGTH('c) \<in> {8, 16, 32}"
    and "c_width c = W" "c_height c = H" "shows_view W H (c_frame c) view" "0 < writes c"
    and "up_to_date view (pic s) (regions cl)"
  shows "s' = s \<and> (\<exists>view'. up_to_date view' (pic s) (regions cl') \<and>
    (progressiveSliceHeight st \<le> 0 \<and> pixels (modifiedRegion (regions cl)) \<subseteq> pixels given \<longrightarrow>
       (\<forall>x y. (x, y) \<in> pixels (requestedRegion (regions cl)) \<longrightarrow> view' x y = pic s x y)) \<and>
    (sent (outb cl') = sent (outb cl) \<and> view' = view \<or>
     (\<exists>msg c'. sent (outb cl') = sent (outb cl) @ 0 # msg \<and> HandleFramebufferUpdate d c msg = Some (c', []) \<and>
        shows_view W H (c_frame c') view')))"
  using assms(2-) unfolding pic_def by (rule update_roundtrip)

definition demo_decoders :: "uint8_t decoders" where
  "demo_decoders = \<lparr>dec_other = \<lambda>enc x y w h fb bs. None, stack_bg = 0, stack_fg = 0\<rparr>"

theorem rfbSendFramebufferUpdate_roundtrip_witness:
  "\<exists>cl' view'. rfbSendFramebufferUpdate (\<lambda>p. p) (\<lambda>enc x y w h out. (False, out)) demo_send_settings
       (sraRgnCreateRect 0 0 1 1) demo_line_screen demo_line_client = Some (True, demo_line_screen, cl') \<and>
     view' 0 0 = 7 \<and> view' 1 0 = 5 \<and> view' 2 0 = 5 \<and>
     (\<exists>msg c'. sent (outb cl') = 0 # msg \<and>
        HandleFramebufferUpdate demo_decoders demo_line_frame msg = Some (c', []) \<and>
        shows_view 3 1 (c_frame c') view')"
proof -
  define view :: "8 word picture" where "view = (\<lambda>x y. if x = 1 \<and> y = 0 then 5 else 0)"
  obtain s' cl' where r: "rfbSendFramebufferUpdate (\<lambda>p. p) (\<lambda>enc x y w h out. (False, out)) demo_send_settings
      (sraRgnCreateRect 0 0 1 1) demo_line_screen demo_line_client = Some (True, s', cl')" using demo_line_sent by blast
  obtain f cl1 parts where p: "update_parts demo_send_settings (sraRgnCreateRect 0 0 1 1) demo_line_screen demo_line_client = (f, cl1, parts)"
    "flag_count f = 0" "announced demo_send_settings cl1 parts"
    using demo_line_parts by (auto split: prod.splits)
  have u: "regions demo_line_client = demo_line_regions" "outb demo_line_client = demo_update_state"
    "pixels (copyRegion demo_line_regions) = {2..<3} \<times> {0..<1}" "pixels (modifiedRegion demo_line_regions) = {0..<1} \<times> {0..<1}"
    "pixels (requestedRegion demo_line_regions) = {0..<3} \<times> {0..<1}" "copyDX demo_line_regions = 1" "copyDY demo_line_regions = 0"
    "regions_ok demo_line_regions" "rgn_ok (requestedRegion demo_line_regions)"
    by (simp_all add: demo_line_client_def demo_line_regions_def demo_update_client_def pixels_rect regions_ok_def rgn_ok_rect)
  have up: "up_to_date view (\<lambda>x y. frameBuffer demo_line_screen x y) demo_line_regions"
    by (auto simp: up_to_date_def u view_def demo_line_screen_def)
  have shown: "shows_view 3 1 (c_frame demo_line_frame) view"
    by (auto simp: shows_view_def shows_pixels_def demo_line_frame_def view_def less_Suc_eq numeral_eq_Suc)
  have g: "ss_width demo_line_screen = int 3" "\<not> newFBSizePending demo_line_regions" "enableCursorShapeUpdates demo_line_regions"
    "decodable demo_line_client" "c_width demo_line_frame = 3" "c_height demo_line_frame = 1" "0 < writes demo_line_frame"
    "progressiveSliceHeight demo_send_settings \<le> 0" "sent demo_update_state = []"
    by (simp_all add: demo_line_screen_def demo_line_regions_def demo_update_client_def decodable_def demo_line_client_def
        demo_line_frame_def demo_send_settings_def demo_update_state_def)
  have *: "s' = demo_line_screen \<and> (\<exists>view'. up_to_date view' (\<lambda>x y. frameBuffer demo_line_screen x y) (regions cl') \<and>
    (\<forall>x y. (x, y) \<in> {0..<3} \<times> {0..<1} \<longrightarrow> view' x y = frameBuffer demo_line_screen x y) \<and>
    (sent (outb cl') = [] \<and> view' = view \<or>
     (\<exists>msg c'. sent (outb cl') = 0 # msg \<and>
        HandleFramebufferUpdate demo_decoders demo_line_frame msg = Some (c', []) \<and>
        shows_view 3 1 (c_frame c') view')))"
    using rfbSendFramebufferUpdate_roundtrip[OF r p(1,3) _ _ p(2), of 3 1 demo_line_frame view demo_decoders]
      up shown g u by (simp add: pixels_rect rgn_ok_rect)
  then obtain view' where v: "\<forall>x y. (x, y) \<in> {0..<3} \<times> {0..<1} \<longrightarrow> view' x y = frameBuffer demo_line_screen x y"
    "sent (outb cl') = [] \<and> view' = view \<or>
     (\<exists>msg c'. sent (outb cl') = 0 # msg \<and>
        HandleFramebufferUpdate demo_decoders demo_line_frame msg = Some (c', []) \<and>
        shows_view 3 1 (c_frame c') view')" by blast
  have px: "view' 0 0 = 7" "view' 1 0 = 5" "view' 2 0 = 5" using v(1) by (simp_all add: demo_line_screen_def)
  then have "view' \<noteq> view" by (auto simp: view_def)
  with v(2) px r * show ?thesis by blast
qed

end
