(* ===== verification/Session.thy ===== *)
theory Session
  imports NormalMessagesCorrect ClientProto UpdateRoundtrip
begin

text \<open>
  The two ends of a session together: what a client sends with the functions of
  \<open>libvncclient/rfbproto.c\<close>, the server handles with \<open>rfbProcessClientNormalMessage\<close>. A message is right
  if it brings about what its sender means and leaves everything after it unread.
\<close>

section \<open>A message in the stream\<close>

definition got :: "uint8_t list \<Rightarrow> normal_client \<Rightarrow> normal_client" where
  "got rest c = set_conn ((conn (nm_trans c))\<lparr>inbuf := rest\<rparr>) c"

lemma got_fields [simp]:
  "nm_id (got r c) = nm_id c" "conn (nm_trans (got r c)) = (conn (nm_trans c))\<lparr>inbuf := r\<rparr>" "nm_send (got r c) = nm_send c"
  "lastPtrButtons (got r c) = lastPtrButtons c" "nm_scaled (got r c) = nm_scaled c" "extensions (got r c) = extensions c"
  "format (nm_trans (got r c)) = format (nm_trans c)" "is_open (got r c) = is_open c" "got a (got r c) = got a c"
  by (simp_all add: got_def is_open_def set_conn_def)

lemma got_update [simp]:
  "on_regions f (got r c) = got r (on_regions f c)" "(got r c)\<lparr>nm_send := n\<rparr> = got r (c\<lparr>nm_send := n\<rparr>)"
  "(got r c)\<lparr>lastPtrButtons := b\<rparr> = got r (c\<lparr>lastPtrButtons := b\<rparr>)"
  by (simp_all add: got_def set_conn_def on_regions_def)

text \<open>The server takes the message from the stream, whatever follows it.\<close>

definition serves ::
    "normal_env \<Rightarrow> (nat \<Rightarrow> uint8_t) \<Rightarrow> uint8_t list \<Rightarrow> 'p session \<Rightarrow> 'p session \<Rightarrow> bool" where
  "serves env junk msg st st' \<longleftrightarrow>
     (\<forall>rest. rfbProcessClientNormalMessage env junk (fst st, got (msg @ rest) (snd st)) = Some (fst st', got rest (snd st')))"

lemma reading_got:
  "is_open c \<Longrightarrow> length bs = n \<Longrightarrow> reading n k (s, got (bs @ rest) c) = k bs (s, got rest c)"
  using reading_bytes[of "got (bs @ rest) c" bs rest n k s] by (simp add: is_open_def) (simp add: got_def set_conn_def)

lemma process_got:
  "is_open c \<Longrightarrow>
   rfbProcessClientNormalMessage env junk (s, got (ty # body) c) = handle_message env junk ty (s, got body c)"
  using reading_got[of c "[ty]" 1 "\<lambda>ty. handle_message env junk (ty ! 0)" s body]
  by (simp add: rfbProcessClientNormalMessage_def)

lemma drop_wire [simp]:
  "drop 2 (wire16 v @ bs) = bs" "drop 4 (wire32 w @ bs) = bs" "drop (Suc (Suc 0)) (wire16 v @ bs) = bs"
  by (simp_all add: wire16_def wire32_def)

section \<open>Input\<close>

lemma serves_key:
  assumes "is_open c" "\<not> viewOnly (conn (nm_trans c))"
  shows "serves env junk ([rfbKeyEvent, down, a, b] @ wire32 key) (s, c) (call_host (kbdAddEvent (nm_id c) down key) s, c)"
proof -
  have "rfbProcessClientNormalMessage env junk (s, got ([rfbKeyEvent, down, a, b] @ wire32 key @ rest) c) =
      handle_KeyEvent ([down, a, b] @ wire32 key) (s, got rest c)" for rest
    using assms(1) reading_got[of c "[down, a, b] @ wire32 key" 7 handle_KeyEvent s rest]
    by (simp add: process_got handle_message_def sz_rfbKeyEventMsg_def)
  then show ?thesis
    using assms(2) by (simp add: serves_def handle_KeyEvent_def)
qed

lemma serves_pointer:
  assumes "is_open c" "\<not> viewOnly (conn (nm_trans c))" "nm_scaled c = None"
    and "pointerClient s = None \<or> pointerClient s = Some (nm_id c)"
    and "buttons \<noteq> lastPtrButtons c \<or> deferPtrUpdateTime s = 0"
  shows "serves env junk (rfbPointerEvent # buttons # wire16 x @ wire16 y) (s, c)
    (call_host (ptrAddEvent (nm_id c) buttons (uint x) (uint y)) (s\<lparr>pointerClient := if buttons = 0 then None else Some (nm_id c)\<rparr>),
     c\<lparr>lastPtrButtons := buttons\<rparr>)"
proof -
  have "rfbProcessClientNormalMessage env junk (s, got ((rfbPointerEvent # buttons # wire16 x @ wire16 y) @ rest) c) =
      handle_PointerEvent env (buttons # wire16 x @ wire16 y) (s, got rest c)" for rest
    using assms(1) reading_got[of c "buttons # wire16 x @ wire16 y" 5 "handle_PointerEvent env" s rest]
    by (simp add: process_got handle_message_def sz_rfbPointerEventMsg_def)
  moreover have "handle_PointerEvent env (buttons # wire16 x @ wire16 y) (s, got rest c) =
      Some (call_host (ptrAddEvent (nm_id c) buttons (uint x) (uint y)) (s\<lparr>pointerClient := if buttons = 0 then None else Some (nm_id c)\<rparr>),
        got rest (c\<lparr>lastPtrButtons := buttons\<rparr>))" for rest
    using assms(2-5) by (auto simp: handle_PointerEvent_def to_screen_def Let_def)
  ultimately show ?thesis by (simp add: serves_def)
qed

lemma serves_cut_text:
  assumes "is_open c" "\<not> viewOnly (conn (nm_trans c))" "length str < 2 ^ 32" "mallocable env (length str)"
  shows "serves env junk ([rfbClientCutText, a, b, d] @ wire32 (word_of_nat (length str)) @ str) (s, c)
    (call_host (setXCutText (nm_id c) str) s, c)"
proof -
  have n: "unat (word_of_nat (length str) :: uint32_t) = length str"
    using assms(3) by (simp add: unsigned_of_nat take_bit_nat_eq_self_iff)
  have "rfbProcessClientNormalMessage env junk (s, got ([rfbClientCutText, a, b, d] @ wire32 (word_of_nat (length str)) @ str @ rest) c) =
      handle_ClientCutText env ([a, b, d] @ wire32 (word_of_nat (length str))) (s, got (str @ rest) c)" for rest
    using assms(1) reading_got[of c "[a, b, d] @ wire32 (word_of_nat (length str))" 7 "handle_ClientCutText env" s "str @ rest"]
    by (simp add: process_got handle_message_def sz_rfbClientCutTextMsg_def)
  moreover have "handle_ClientCutText env ([a, b, d] @ wire32 (word_of_nat (length str))) (s, got (str @ rest) c) =
      Some (call_host (setXCutText (nm_id c) str) s, got rest c)" for rest
    using assms reading_got[of c str "length str" _ s rest] n
    by (simp add: handle_ClientCutText_def Let_def)
  ultimately show ?thesis by (simp add: serves_def)
qed

section \<open>Requests\<close>

lemma serves_update_request:
  assumes "is_open c"
  shows "serves env junk ([rfbFramebufferUpdateRequest, inc] @ wire16 x @ wire16 y @ wire16 w @ wire16 h) (s, c) (s, c') \<longleftrightarrow>
    (\<forall>rest. handle_FramebufferUpdateRequest env junk (inc # wire16 x @ wire16 y @ wire16 w @ wire16 h) (s, got rest c) = Some (s, got rest c'))"
proof -
  have "rfbProcessClientNormalMessage env junk
        (s, got (([rfbFramebufferUpdateRequest, inc] @ wire16 x @ wire16 y @ wire16 w @ wire16 h) @ rest) c) =
      handle_FramebufferUpdateRequest env junk (inc # wire16 x @ wire16 y @ wire16 w @ wire16 h) (s, got rest c)" for rest
    using assms reading_got[of c "inc # wire16 x @ wire16 y @ wire16 w @ wire16 h" 9 "handle_FramebufferUpdateRequest env junk" s rest]
    by (simp add: process_got handle_message_def sz_rfbFramebufferUpdateRequestMsg_def)
  then show ?thesis by (simp add: serves_def)
qed

lemma msg_rect_wire: "msg_rect (inc # wire16 x @ wire16 y @ wire16 w @ wire16 h) = (uint x, uint y, uint w, uint h)"
proof -
  have "drop 3 (inc # wire16 x @ wire16 y @ wire16 w @ wire16 h) = wire16 y @ wire16 w @ wire16 h"
    "drop 5 (inc # wire16 x @ wire16 y @ wire16 w @ wire16 h) = wire16 w @ wire16 h"
    "drop 7 (inc # wire16 x @ wire16 y @ wire16 w @ wire16 h) = wire16 h"
    by (simp_all add: wire16_def)
  then show ?thesis by (simp add: msg_rect_def)
qed

lemma prepare_colours_true:
  "trueColour (format (nm_trans c)) \<Longrightarrow>
   prepare_colours junk s c = (True, c\<lparr>nm_send := (nm_send c)\<lparr>readyForSetColourMapEntries := True\<rparr>\<rparr>)"
  by (auto simp: prepare_colours_def Let_def)

text \<open>The client after a request for a rectangle that meets the screen.\<close>

definition requested :: "bool \<Rightarrow> sraRegion \<Rightarrow> normal_client \<Rightarrow> normal_client" where
  "requested incremental r c =
     on_regions (\<lambda>u. request_region incremental r (u\<lparr>requestedRegion := sraRgnOr (requestedRegion u) r\<rparr>))
       (c\<lparr>nm_send := (nm_send c)\<lparr>readyForSetColourMapEntries := True\<rparr>\<rparr>)"

lemma requested_fields [simp]:
  "conn (nm_trans (requested i r c)) = conn (nm_trans c)" "nm_id (requested i r c) = nm_id c"
  "nm_scaled (requested i r c) = nm_scaled c" "is_open (requested i r c) = is_open c"
  "outb (nm_send (requested i r c)) = outb (nm_send c)" "preferredEncoding (nm_send (requested i r c)) = preferredEncoding (nm_send c)"
  "regions (nm_send (requested i r c)) =
     request_region i r ((regions (nm_send c))\<lparr>requestedRegion := sraRgnOr (requestedRegion (regions (nm_send c))) r\<rparr>)"
  by (simp_all add: requested_def on_regions_def is_open_def)

definition screen_part :: "'p server_screen \<Rightarrow> nat \<Rightarrow> nat \<Rightarrow> nat \<Rightarrow> nat \<Rightarrow> sraRegion" where
  "screen_part s x y w h =
     sraRgnCreateRect (int x) (int y) (min (int x + int w) (ss_width s)) (min (int y + int h) (ss_height s))"

definition in_screen :: "'p server_screen \<Rightarrow> nat \<Rightarrow> nat \<Rightarrow> nat \<Rightarrow> nat \<Rightarrow> bool" where
  "in_screen s x y w h \<longleftrightarrow> int x < ss_width s \<and> int y < ss_height s \<and> 0 < w \<and> 0 < h \<and> w < 65536 \<and> h < 65536 \<and>
     ss_width s < 65536 \<and> ss_height s < 65536"

lemma screen_part_ok:
  assumes "in_screen s x y w h"
  shows "rgn_ok (screen_part s x y w h)"
    "pixels (screen_part s x y w h) = {int x..<min (int x + int w) (ss_width s)} \<times> {int y..<min (int y + int h) (ss_height s)}"
  using assms by (simp_all add: screen_part_def in_screen_def rgn_ok_rect pixels_rect)

lemma serves_request:
  assumes "is_open c" "nm_scaled c = None" "trueColour (format (nm_trans c))" "in_screen (ns_screen s) x y w h"
  shows "serves env junk ([rfbFramebufferUpdateRequest, if inc then 1 else 0] @ wire16 (word_of_nat x) @
    wire16 (word_of_nat y) @ wire16 (word_of_nat w) @ wire16 (word_of_nat h)) (s, c)
    (s, requested inc (screen_part (ns_screen s) x y w h) c)"
proof -
  have u: "uint (word_of_nat n :: uint16_t) = int n" if "n < 65536" for n
    using that by (simp add: unsigned_of_nat take_bit_nat_eq_self_iff)
  have l: "x < 65536" "y < 65536" "w < 65536" "h < 65536" using assms(4) by (auto simp: in_screen_def)
  have "rectSwapIfLEAndClip env (ns_screen s) (got rest c) (int x, int y, int w, int h) =
      Some (int x, int y, min (int w) (ss_width (ns_screen s) - int x), min (int h) (ss_height (ns_screen s) - int y))" for rest
    by (rule clip_rect) (use assms in \<open>simp_all add: in_screen_def\<close>)
  then show ?thesis
    unfolding serves_update_request[OF assms(1)] update_request_cases msg_rect_wire
    using l assms(3)
    by (simp add: u prepare_colours_true[of "got rest c" for rest c] prepare_colours_true on_regions_def)
      (simp add: got_def set_conn_def requested_def on_regions_def screen_part_def min_add_distrib_right Let_def)
qed

section \<open>A round of updates\<close>

text \<open>What a request sends, and what the server makes of it.\<close>

lemma request_sent:
  assumes "SendFramebufferUpdateRequest x y w h inc c = (True, c1)" "requests c1 = requests c @ msg" "msg \<noteq> []"
  shows "msg = [rfbFramebufferUpdateRequest, if inc then 1 else 0] @ wire16 (word_of_nat x) @ wire16 (word_of_nat y) @
      wire16 (word_of_nat w) @ wire16 (word_of_nat h)"
    "c1 = c\<lparr>requests := requests c @ msg, writes := writes c - 1\<rparr>"
  using assms by (auto simp: SendFramebufferUpdateRequest_def WriteToRFBServer_def split: if_splits)

lemma request_served:
  assumes "SendFramebufferUpdateRequest x y w h inc c = (True, c1)" "requests c1 = requests c @ msg" "msg \<noteq> []"
    and "is_open nc" "nm_scaled nc = None" "trueColour (format (nm_trans nc))" "in_screen (ns_screen s) x y w h"
    and "inbuf (conn (nm_trans nc)) = msg @ rest"
    and "rfbProcessClientNormalMessage env junk (s, nc) = Some (s1, nc1)"
  shows "s1 = s" "nc1 = got rest (requested inc (screen_part (ns_screen s) x y w h) nc)"
proof -
  have "got (msg @ rest) nc = nc" using assms(8) by (simp add: got_def set_conn_def flip: assms(8))
  moreover have "serves env junk msg (s, nc) (s, requested inc (screen_part (ns_screen s) x y w h) nc)"
    unfolding request_sent(1)[OF assms(1-3)] by (rule serves_request[OF assms(4-7)])
  ultimately have "rfbProcessClientNormalMessage env junk (s, nc) = Some (s, got rest (requested inc (screen_part (ns_screen s) x y w h) nc))"
    by (metis fst_conv snd_conv serves_def)
  then show "s1 = s" "nc1 = got rest (requested inc (screen_part (ns_screen s) x y w h) nc)" using assms(9) by simp_all
qed

lemma requested_regions:
  assumes "up_to_date view scr (regions (nm_send nc))" "regions_ok (regions (nm_send nc))"
    "rgn_ok (requestedRegion (regions (nm_send nc)))" "in_screen s x y w h"
    and "u = regions (nm_send (requested inc (screen_part s x y w h) nc))"
  shows "up_to_date view scr u" "regions_ok u" "rgn_ok (requestedRegion u)"
    "pixels (requestedRegion u) = pixels (requestedRegion (regions (nm_send nc))) \<union> pixels (screen_part s x y w h)"
    "\<not> inc \<longrightarrow> pixels (screen_part s x y w h) \<subseteq> pixels (modifiedRegion u)"
    "inc \<longrightarrow> modifiedRegion u = modifiedRegion (regions (nm_send nc)) \<and> copyRegion u = copyRegion (regions (nm_send nc))"
  using request_added[OF assms(1-3) screen_part_ok(1)[OF assms(4)], of u inc] assms(5) by simp_all

text \<open>
  C36: A request for an update arrives as it is meant. The message of \<open>SendFramebufferUpdateRequest\<close> adds
  exactly the part of the rectangle on the screen to the requested region. What the server knows about
  the picture of the client stays right; without \<open>incremental\<close> all of that part counts as modified, with
  it the modified region and the pending copy do not change. Nothing after the message is read.
\<close>

theorem SendFramebufferUpdateRequest_registered:
  assumes "SendFramebufferUpdateRequest x y w h inc c = (True, c1)" "requests c1 = requests c @ msg" "msg \<noteq> []"
    and "is_open nc" "nm_scaled nc = None" "trueColour (format (nm_trans nc))" "in_screen (ns_screen s) x y w h"
    and "inbuf (conn (nm_trans nc)) = msg @ rest"
    and "rfbProcessClientNormalMessage env junk (s, nc) = Some (s1, nc1)"
    and "up_to_date view scr (regions (nm_send nc))" "regions_ok (regions (nm_send nc))"
      "rgn_ok (requestedRegion (regions (nm_send nc)))"
  shows "s1 = s \<and> inbuf (conn (nm_trans nc1)) = rest \<and> up_to_date view scr (regions (nm_send nc1)) \<and>
    pixels (requestedRegion (regions (nm_send nc1))) = pixels (requestedRegion (regions (nm_send nc))) \<union>
      {int x..<min (int x + int w) (ss_width (ns_screen s))} \<times> {int y..<min (int y + int h) (ss_height (ns_screen s))} \<and>
    (if inc then modifiedRegion (regions (nm_send nc1)) = modifiedRegion (regions (nm_send nc)) \<and>
                 copyRegion (regions (nm_send nc1)) = copyRegion (regions (nm_send nc))
     else {int x..<min (int x + int w) (ss_width (ns_screen s))} \<times> {int y..<min (int y + int h) (ss_height (ns_screen s))}
            \<subseteq> pixels (modifiedRegion (regions (nm_send nc1))))"
proof -
  note r = request_served[OF assms(1-9)]
  note q = requested_regions[OF assms(10-12,7) refl, of inc]
  show ?thesis
    using q by (simp add: r screen_part_ok(2)[OF assms(7)] del: requested_fields(7))
qed

lemma update_cycle:
  fixes tr :: "'s::len word \<Rightarrow> 'c::len word" and c :: "'c word rfb_client" and s :: "'s word normal_screen"
  defines "pic \<equiv> (\<lambda>x y. tr (frameBuffer (ns_screen s) x y))"
  assumes "SendFramebufferUpdateRequest x y w h inc c = (True, c1)" "requests c1 = requests c @ msg" "msg \<noteq> []"
    and "inbuf (conn (nm_trans nc)) = msg @ rest"
    and "rfbProcessClientNormalMessage env junk (s, nc) = Some (s1, nc1)"
    and "rfbSendFramebufferUpdate tr other st (modifiedRegion (regions (nm_send nc1))) (ns_screen s1) (nm_send nc1) = Some (True, s2, cl2)"
    and "update_parts st (modifiedRegion (regions (nm_send nc1))) (ns_screen s1) (nm_send nc1) = (f, cl1, parts)" "announced st cl1 parts"
    and "is_open nc" "nm_scaled nc = None" "trueColour (format (nm_trans nc))" "in_screen (ns_screen s) x y w h"
    and "enableCursorShapeUpdates (regions (nm_send nc))" "decodable (nm_send nc)"
      "\<not> (useNewFBSize (regions (nm_send nc)) \<and> newFBSizePending (regions (nm_send nc)))" "flag_count f = 0"
      "progressiveSliceHeight st \<le> 0"
    and "regions_ok (regions (nm_send nc))" "rgn_ok (requestedRegion (regions (nm_send nc)))"
      "pixels (requestedRegion (regions (nm_send nc))) \<subseteq> {0..<int W} \<times> {0..<int H}"
    and "ss_width (ns_screen s) = int W" "ss_height (ns_screen s) = int H" "LENGTH('c) \<in> {8, 16, 32}"
    and "c_width c = W" "c_height c = H" "shows_view W H (c_frame c) view" "1 < writes c"
    and "up_to_date view pic (regions (nm_send nc))"
  shows "s2 = ns_screen s \<and> (\<exists>view'. up_to_date view' pic (regions cl2) \<and>
    (\<forall>px py. int x \<le> px \<and> px < int (x + w) \<and> px < int W \<and> int y \<le> py \<and> py < int (y + h) \<and> py < int H \<longrightarrow>
       view' px py = pic px py) \<and>
    (sent (outb cl2) = sent (outb (nm_send nc)) \<and> view' = view \<or>
     (\<exists>reply c2. sent (outb cl2) = sent (outb (nm_send nc)) @ 0 # reply \<and> HandleFramebufferUpdate d c1 reply = Some (c2, []) \<and>
        shows_view W H (c_frame c2) view')))"
proof -
  let ?r = "screen_part (ns_screen s) x y w h"
  note r = request_served[OF assms(2,3,4,10,11,12,13,5,6)]
  have u: "regions (nm_send nc1) = regions (nm_send (requested inc ?r nc))" "outb (nm_send nc1) = outb (nm_send nc)"
    "preferredEncoding (nm_send nc1) = preferredEncoding (nm_send nc)"
    "correMaxWidth (nm_send nc1) = correMaxWidth (nm_send nc)" "correMaxHeight (nm_send nc1) = correMaxHeight (nm_send nc)"
    by (simp_all add: r(2)) (simp_all add: requested_def on_regions_def)
  have flags: "enableCursorShapeUpdates (regions (nm_send nc1)) = enableCursorShapeUpdates (regions (nm_send nc))"
    "useNewFBSize (regions (nm_send nc1)) = useNewFBSize (regions (nm_send nc))"
    "newFBSizePending (regions (nm_send nc1)) = newFBSizePending (regions (nm_send nc))"
    by (simp_all add: u request_region_def)
  note q = requested_regions[OF assms(29,19,20,13) u(1)]
  have dec: "decodable (nm_send nc1)" using assms(15) u by (simp add: decodable_def)
  have W: "0 < W" "W < 65536" "H < 65536" using assms(13,22,23) by (auto simp: in_screen_def)
  have part: "pixels ?r = {int x..<min (int x + int w) (int W)} \<times> {int y..<min (int y + int h) (int H)}"
    using screen_part_ok(2)[OF assms(13)] assms(22,23) by simp
  have sub: "pixels (requestedRegion (regions (nm_send nc1))) \<subseteq> {0..<int W} \<times> {0..<int H}"
    using q(4) part assms(21) by auto
  have mok: "rgn_ok (modifiedRegion (regions (nm_send nc1)))" using q(2) by (simp add: regions_ok_def)
  have c1: "c_width c1 = W" "c_height c1 = H" "shows_view W H (c_frame c1) view" "0 < writes c1"
    using request_sent(2)[OF assms(2-4)] assms(25-28) by simp_all
  have up: "up_to_date view (\<lambda>x y. tr (frameBuffer (ns_screen s1) x y)) (regions (nm_send nc1))"
    and pend: "\<not> (useNewFBSize (regions (nm_send nc1)) \<and> newFBSizePending (regions (nm_send nc1)))"
    and shape: "enableCursorShapeUpdates (regions (nm_send nc1))" and wd: "ss_width (ns_screen s1) = int W"
    using q(1) flags assms(14,16,22) unfolding pic_def r(1) by simp_all
  note res = update_roundtrip[OF assms(7,8,9) pend shape assms(17) dec wd W q(2) mok q(3) sub assms(24) c1 up, of d]
  have mem: "(px, py) \<in> pixels (requestedRegion (regions (nm_send nc1)))"
    if "int x \<le> px \<and> px < int (x + w) \<and> px < int W \<and> int y \<le> py \<and> py < int (y + h) \<and> py < int H" for px py
    using that part by (simp add: q(4))
  obtain view' where v: "s2 = ns_screen s" "up_to_date view' pic (regions cl2)"
    "\<And>px py. (px, py) \<in> pixels (requestedRegion (regions (nm_send nc1))) \<Longrightarrow> view' px py = pic px py"
    "sent (outb cl2) = sent (outb (nm_send nc)) \<and> view' = view \<or>
     (\<exists>reply c2. sent (outb cl2) = sent (outb (nm_send nc)) @ 0 # reply \<and> HandleFramebufferUpdate d c1 reply = Some (c2, []) \<and>
        shows_view W H (c_frame c2) view')"
    using res assms(18) unfolding pic_def r(1) u(2) by blast
  show ?thesis
    by (intro conjI exI[of _ view'] v(1,2,4) allI impI) (rule v(3)[OF mem])
qed

text \<open>
  C6: A round of updates from end to end. The client asks for a rectangle with
  \<open>SendFramebufferUpdateRequest\<close>; the server handles the message and sends an update; the client handles
  that. If \<open>rfbSendFramebufferUpdate\<close> returns \<open>TRUE\<close>, the picture the client then has agrees with the
  screen everywhere in the rectangle, and the server is right about all of the picture. This holds for
  copied rectangles and the encodings Raw, RRE, CoRRE and Hextile, for every size of the update.
\<close>

theorem rfb_update_cycle:
  fixes tr :: "'s::len word \<Rightarrow> 'c::len word" and c :: "'c word rfb_client" and s :: "'s word normal_screen"
  defines "pic \<equiv> (\<lambda>x y. tr (frameBuffer (ns_screen s) x y))"
  assumes "SendFramebufferUpdateRequest x y w h inc c = (True, c1)" "requests c1 = requests c @ msg" "msg \<noteq> []"
    and "inbuf (conn (nm_trans nc)) = msg @ rest"
    and "rfbProcessClientNormalMessage env junk (s, nc) = Some (s1, nc1)"
    and "rfbSendFramebufferUpdate tr other st (modifiedRegion (regions (nm_send nc1))) (ns_screen s1) (nm_send nc1) = Some (True, s2, cl2)"
    and "update_parts st (modifiedRegion (regions (nm_send nc1))) (ns_screen s1) (nm_send nc1) = (f, cl1, parts)" "announced st cl1 parts"
    and "is_open nc" "nm_scaled nc = None" "trueColour (format (nm_trans nc))" "in_screen (ns_screen s) x y w h"
    and "enableCursorShapeUpdates (regions (nm_send nc))" "decodable (nm_send nc)"
      "\<not> (useNewFBSize (regions (nm_send nc)) \<and> newFBSizePending (regions (nm_send nc)))" "flag_count f = 0"
      "progressiveSliceHeight st \<le> 0"
    and "regions_ok (regions (nm_send nc))" "rgn_ok (requestedRegion (regions (nm_send nc)))"
      "pixels (requestedRegion (regions (nm_send nc))) \<subseteq> {0..<int W} \<times> {0..<int H}"
    and "ss_width (ns_screen s) = int W" "ss_height (ns_screen s) = int H" "LENGTH('c) \<in> {8, 16, 32}"
    and "c_width c = W" "c_height c = H" "shows_view W H (c_frame c) view" "1 < writes c"
    and "up_to_date view pic (regions (nm_send nc))"
  shows "s2 = ns_screen s \<and> (\<exists>view'. up_to_date view' pic (regions cl2) \<and>
    (\<forall>px py. int x \<le> px \<and> px < int (x + w) \<and> px < int W \<and> int y \<le> py \<and> py < int (y + h) \<and> py < int H \<longrightarrow>
       view' px py = pic px py) \<and>
    (sent (outb cl2) = sent (outb (nm_send nc)) \<and> view' = view \<or>
     (\<exists>reply c2. sent (outb cl2) = sent (outb (nm_send nc)) @ 0 # reply \<and> HandleFramebufferUpdate d c1 reply = Some (c2, []) \<and>
        shows_view W H (c_frame c2) view')))"
  using assms(2-) unfolding pic_def by (rule update_cycle)

definition demo_env :: normal_env where
  "demo_env = \<lparr>installed = [], mallocable = (\<lambda>n. True), scale_point = (\<lambda>wh p. p), scale_rect = (\<lambda>wh r. r),
     scale_setup = (\<lambda>w h c. c), file_transfer = (\<lambda>t p sz len c. c)\<rparr>"

definition demo_conn :: "uint8_t list \<Rightarrow> rfbClientRec" where
  "demo_conn inp = \<lparr>sock = 5, client_state = RFB_NORMAL, protocolMajorVersion = 3, protocolMinorVersion = 3,
     reverseConnection = False, viewOnly = False, authChallenge = [], inbuf = inp, outbuf = [], write_ok = True, rands = []\<rparr>"

definition demo_normal_client :: "uint8_t list \<Rightarrow> normal_client" where
  "demo_normal_client inp = \<lparr>nm_id = 1, nm_send = demo_line_client\<lparr>regions := demo_line_regions\<lparr>requestedRegion := []\<rparr>\<rparr>,
     nm_trans = \<lparr>conn = demo_conn inp, format = rfbInitServerFormat 8 2, translateFn = TranslateNone\<rparr>,
     zlibCompressLevel = 5, tightQualityLevel = 5, PalmVNC = False, lastPtrButtons = 0, lastPtrX = -1, lastPtrY = -1,
     nm_scaled = None, extensions = []\<rparr>"

definition demo_normal_screen :: "8 word normal_screen" where
  "demo_normal_screen = \<lparr>ns_screen = demo_line_screen,
     ns_translate = \<lparr>ts_serverFormat = rfbInitServerFormat 8 2, colourMap = \<lparr>cm_count = 0, is16 = False, cm_data = []\<rparr>\<rparr>,
     rfbEconomicTranslate = False, dontConvertRichCursorToXCursor = False, pointerClient = None, deferPtrUpdateTime = 1,
     has_setSingleWindow = False, has_setServerInput = False, has_setTextChat = False, calls = []\<rparr>"

definition demo_requester :: "8 word rfb_client" where
  "demo_requester = demo_line_frame\<lparr>writes := 2\<rparr>"

definition demo_request :: "uint8_t list" where
  "demo_request = [3, 1, 0, 0, 0, 0, 0, 3, 0, 1]"

lemma demo_request_sent:
  "SendFramebufferUpdateRequest 0 0 3 1 True demo_requester = (True, demo_requester\<lparr>requests := demo_request, writes := 1\<rparr>)"
  by (simp add: SendFramebufferUpdateRequest_def WriteToRFBServer_def SupportsClient2Server_def message_bit_def
      demo_requester_def demo_line_frame_def demo_request_def wire16_def bit_simps)

lemma demo_session_facts:
  "is_open (demo_normal_client inp)" "nm_scaled (demo_normal_client inp) = None" "inbuf (conn (nm_trans (demo_normal_client inp))) = inp"
  "trueColour (format (nm_trans (demo_normal_client inp)))" "in_screen (ns_screen demo_normal_screen) 0 0 3 1"
  "nm_send (demo_normal_client inp) = demo_line_client\<lparr>regions := demo_line_regions\<lparr>requestedRegion := []\<rparr>\<rparr>"
  "ns_screen demo_normal_screen = demo_line_screen"
  by (simp_all add: demo_normal_client_def is_open_def demo_conn_def demo_normal_screen_def in_screen_def demo_line_screen_def
      rfbInitServerFormat_def Let_def)

lemma demo_request_region: "sraRgnOr [] (screen_part demo_line_screen 0 0 3 1) = sraRgnCreateRect 0 0 3 1"
proof -
  have "sraRgnOr [] (sraRgnCreateRect 0 0 3 1) = sraRgnCreateRect 0 0 3 1" by code_simp
  then show ?thesis by (simp add: screen_part_def demo_line_screen_def)
qed

lemma demo_requested:
  "nm_send (requested True (screen_part demo_line_screen 0 0 3 1) (demo_normal_client inp)) = demo_line_client"
  by (simp add: requested_def on_regions_def demo_session_facts request_region_def)
    (simp add: demo_line_client_def demo_line_regions_def demo_request_region[simplified])

lemma demo_request_processed:
  "\<exists>nc1. rfbProcessClientNormalMessage demo_env (\<lambda>_. 0) (demo_normal_screen, demo_normal_client demo_request) = Some (demo_normal_screen, nc1) \<and>
     nm_send nc1 = demo_line_client"
proof -
  let ?c = "demo_normal_client demo_request"
  let ?n = "requested True (screen_part demo_line_screen 0 0 3 1) ?c"
  have "serves demo_env (\<lambda>_. 0) demo_request (demo_normal_screen, ?c) (demo_normal_screen, ?n)"
    using serves_request[OF demo_session_facts(1,2,4,5), of demo_env "\<lambda>_. 0" True demo_request]
    by (simp add: demo_request_def wire16_def demo_session_facts(7))
  then have "rfbProcessClientNormalMessage demo_env (\<lambda>_. 0) (demo_normal_screen, got (demo_request @ []) ?c) = Some (demo_normal_screen, got [] ?n)"
    unfolding serves_def by (metis fst_conv snd_conv)
  moreover have "got (demo_request @ []) ?c = ?c"
    by (simp add: got_def set_conn_def demo_normal_client_def demo_conn_def)
  ultimately show ?thesis using demo_requested by (intro exI[of _ "got [] ?n"]) simp
qed

theorem SendFramebufferUpdateRequest_registered_witness:
  "\<exists>s1 nc1. rfbProcessClientNormalMessage demo_env (\<lambda>_. 0) (demo_normal_screen, demo_normal_client demo_request) = Some (s1, nc1) \<and>
     s1 = demo_normal_screen \<and> inbuf (conn (nm_trans nc1)) = [] \<and>
     pixels (requestedRegion (regions (nm_send nc1))) = {0..<3} \<times> {0..<1}"
proof -
  obtain nc1 where r: "rfbProcessClientNormalMessage demo_env (\<lambda>_. 0) (demo_normal_screen, demo_normal_client demo_request) =
      Some (demo_normal_screen, nc1)" using demo_request_processed by blast
  define u where "u = demo_line_regions\<lparr>requestedRegion := []\<rparr>"
  define view :: "8 word picture" where "view = (\<lambda>x y. if x = 1 \<and> y = 0 then 5 else 0)"
  have u: "pixels (copyRegion u) = {2..<3} \<times> {0..<1}" "pixels (modifiedRegion u) = {0..<1} \<times> {0..<1}"
    "requestedRegion u = []" "copyDX u = 1" "copyDY u = 0" "regions_ok u"
    by (simp_all add: u_def demo_line_regions_def demo_update_client_def pixels_rect regions_ok_def rgn_ok_rect)
  have up: "up_to_date view (frameBuffer demo_line_screen) u"
    by (auto simp: up_to_date_def u view_def demo_line_screen_def)
  show ?thesis
    using SendFramebufferUpdateRequest_registered[OF demo_request_sent _ _ demo_session_facts(1,2,4,5) _ r, of demo_request "[]" view
        "frameBuffer demo_line_screen"] r up u
    by (simp add: demo_requester_def demo_line_frame_def demo_request_def demo_session_facts u_def[symmetric] demo_line_screen_def
        rgn_ok_Nil pixels_Nil)
qed

theorem rfb_update_cycle_witness:
  "\<exists>nc1 cl2 view' c2 reply.
     rfbProcessClientNormalMessage demo_env (\<lambda>_. 0) (demo_normal_screen, demo_normal_client demo_request) = Some (demo_normal_screen, nc1) \<and>
     rfbSendFramebufferUpdate (\<lambda>p. p) (\<lambda>enc x y w h out. (False, out)) demo_send_settings
       (modifiedRegion (regions (nm_send nc1))) demo_line_screen (nm_send nc1) = Some (True, demo_line_screen, cl2) \<and>
     view' 0 0 = 7 \<and> view' 1 0 = 5 \<and> view' 2 0 = 5 \<and> sent (outb cl2) = 0 # reply \<and>
     HandleFramebufferUpdate demo_decoders (demo_requester\<lparr>requests := demo_request, writes := 1\<rparr>) reply = Some (c2, []) \<and>
     shows_view 3 1 (c_frame c2) view'"
proof -
  obtain nc1 where r: "rfbProcessClientNormalMessage demo_env (\<lambda>_. 0) (demo_normal_screen, demo_normal_client demo_request) =
      Some (demo_normal_screen, nc1)" and n: "nm_send nc1 = demo_line_client" using demo_request_processed by blast
  have m: "modifiedRegion (regions demo_line_client) = sraRgnCreateRect 0 0 1 1"
    by (simp add: demo_line_client_def demo_line_regions_def)
  obtain s' cl' where e: "rfbSendFramebufferUpdate (\<lambda>p. p) (\<lambda>enc x y w h out. (False, out)) demo_send_settings
      (sraRgnCreateRect 0 0 1 1) demo_line_screen demo_line_client = Some (True, s', cl')" using demo_line_sent by blast
  obtain f cl1 parts where p: "update_parts demo_send_settings (sraRgnCreateRect 0 0 1 1) demo_line_screen demo_line_client = (f, cl1, parts)"
    "flag_count f = 0" "announced demo_send_settings cl1 parts"
    using demo_line_parts by (auto split: prod.splits)
  define u where "u = demo_line_regions\<lparr>requestedRegion := []\<rparr>"
  define view :: "8 word picture" where "view = (\<lambda>x y. if x = 1 \<and> y = 0 then 5 else 0)"
  have u: "pixels (copyRegion u) = {2..<3} \<times> {0..<1}" "pixels (modifiedRegion u) = {0..<1} \<times> {0..<1}"
    "requestedRegion u = []" "copyDX u = 1" "copyDY u = 0" "regions_ok u" "enableCursorShapeUpdates u" "\<not> newFBSizePending u"
    by (simp_all add: u_def demo_line_regions_def demo_update_client_def pixels_rect regions_ok_def rgn_ok_rect)
  have up: "up_to_date view (\<lambda>x y. frameBuffer demo_line_screen x y) u"
    by (auto simp: up_to_date_def u view_def demo_line_screen_def)
  have shown: "shows_view 3 1 (c_frame demo_requester) view"
    by (auto simp: shows_view_def shows_pixels_def demo_requester_def demo_line_frame_def view_def less_Suc_eq numeral_eq_Suc)
  have g: "ss_width demo_line_screen = int 3" "ss_height demo_line_screen = int 1"
    "decodable (demo_line_client\<lparr>regions := u\<rparr>)" "c_width demo_requester = 3" "c_height demo_requester = 1" "1 < writes demo_requester"
    "progressiveSliceHeight demo_send_settings \<le> 0" "sent (outb demo_line_client) = []" "requests demo_requester = []"
    by (simp_all add: demo_line_screen_def decodable_def demo_line_client_def demo_requester_def
        demo_line_frame_def demo_send_settings_def demo_update_state_def)
  have nm: "nm_send (demo_normal_client demo_request) = demo_line_client\<lparr>regions := u\<rparr>" by (simp add: demo_session_facts u_def)
  have "s' = demo_line_screen \<and> (\<exists>view'. up_to_date view' (\<lambda>x y. frameBuffer demo_line_screen x y) (regions cl') \<and>
    (\<forall>px py. int 0 \<le> px \<and> px < int (0 + 3) \<and> px < int 3 \<and> int 0 \<le> py \<and> py < int (0 + 1) \<and> py < int 1 \<longrightarrow>
       view' px py = frameBuffer demo_line_screen px py) \<and>
    (sent (outb cl') = [] \<and> view' = view \<or>
     (\<exists>reply c2. sent (outb cl') = [] @ 0 # reply \<and>
        HandleFramebufferUpdate demo_decoders (demo_requester\<lparr>requests := demo_request, writes := 1\<rparr>) reply = Some (c2, []) \<and>
        shows_view 3 1 (c_frame c2) view')))"
    using rfb_update_cycle[OF demo_request_sent _ _ _ r, of demo_request "[]" "\<lambda>p. p" "\<lambda>enc x y w h out. (False, out)" demo_send_settings
        s' cl' f cl1 parts 3 1 view demo_decoders] e p u up shown g n m nm demo_session_facts(1-5,7)
    by (simp add: demo_request_def rgn_ok_Nil pixels_Nil)
  then obtain view' where v: "s' = demo_line_screen"
    "\<forall>px py. int 0 \<le> px \<and> px < int (0 + 3) \<and> px < int 3 \<and> int 0 \<le> py \<and> py < int (0 + 1) \<and> py < int 1 \<longrightarrow>
       view' px py = frameBuffer demo_line_screen px py"
    "sent (outb cl') = [] \<and> view' = view \<or> (\<exists>reply c2. sent (outb cl') = 0 # reply \<and>
        HandleFramebufferUpdate demo_decoders (demo_requester\<lparr>requests := demo_request, writes := 1\<rparr>) reply = Some (c2, []) \<and>
        shows_view 3 1 (c_frame c2) view')" by (elim conjE exE) simp
  have px: "view' 0 0 = 7" "view' 1 0 = 5" "view' 2 0 = 5" using v(2) by (simp_all add: demo_line_screen_def)
  then have "view' \<noteq> view" by (auto simp: view_def)
  with v(1,3) px r e n m show ?thesis by auto
qed

section \<open>Input and its limits\<close>

text \<open>
  C37: What the user does reaches the application of the server as it was done: a key with its direction
  and symbol, the pointer with its buttons and its place on the screen, a text byte by byte. The pointer
  must not be held by another client, and its buttons must change or pointer events not be deferred.
\<close>

theorem input_delivered:
  assumes "SupportsClient2Server c rfbKeyEvent" "SupportsClient2Server c rfbPointerEvent" "SupportsClient2Server c rfbClientCutText"
    and "1 < writes c" "is_open nc" "\<not> viewOnly (conn (nm_trans nc))"
    and "nm_scaled nc = None" "0 \<le> x" "x < 65536" "0 \<le> y" "y < 65536"
    and "pointerClient s = None \<or> pointerClient s = Some (nm_id nc)" "buttons \<noteq> lastPtrButtons nc \<or> deferPtrUpdateTime s = 0"
    and "length str < 2 ^ 32" "mallocable env (length str)"
  shows "(\<exists>msg c'. SendKeyEvent gap key down c = (True, c') \<and> requests c' = requests c @ msg \<and>
      serves env junk msg (s, nc) (call_host (kbdAddEvent (nm_id nc) (if down then 1 else 0) key) s, nc)) \<and>
    (\<exists>msg c'. SendPointerEvent x y buttons c = (True, c') \<and> requests c' = requests c @ msg \<and>
      serves env junk msg (s, nc)
        (call_host (ptrAddEvent (nm_id nc) buttons x y) (s\<lparr>pointerClient := if buttons = 0 then None else Some (nm_id nc)\<rparr>),
         nc\<lparr>lastPtrButtons := buttons\<rparr>)) \<and>
    (\<exists>msg c'. SendClientCutText gap str c = (True, c') \<and> requests c' = requests c @ msg \<and>
      serves env junk msg (s, nc) (call_host (setXCutText (nm_id nc) str) s, nc))"
proof -
  have u: "uint (word_of_int x :: uint16_t) = x" "uint (word_of_int y :: uint16_t) = y"
    using assms(8-11) by (simp_all add: unsigned_of_int take_bit_int_eq_self)
  have w: "0 < writes c" "0 < writes c - Suc 0" using assms(4) by simp_all
  have k: "SendKeyEvent gap key down c = (True, c\<lparr>requests := requests c @ [rfbKeyEvent, if down then 1 else 0, gap 2, gap 3] @ wire32 key,
      writes := writes c - 1\<rparr>)"
    using assms(1) w by (simp add: SendKeyEvent_def send_message_def WriteToRFBServer_def)
  have p: "SendPointerEvent x y buttons c = (True, c\<lparr>requests := requests c @ (rfbPointerEvent # buttons # wire16 (word_of_int x) @ wire16 (word_of_int y)),
      writes := writes c - 1\<rparr>)"
    using assms(2,8,10) w by (simp add: SendPointerEvent_def send_message_def WriteToRFBServer_def)
  have t: "SendClientCutText gap str c = (True, c\<lparr>requests := requests c @ [rfbClientCutText, gap 1, gap 2, gap 3] @ wire32 (word_of_nat (length str)) @ str,
      writes := writes c - 2\<rparr>)"
    using assms(3) w by (simp add: SendClientCutText_def WriteToRFBServer_def)
  note sk = serves_key[OF assms(5,6), of env junk "if down then 1 else 0" "gap 2" "gap 3" key s]
  note sp = serves_pointer[OF assms(5,6,7,12,13), of env junk "word_of_int x" "word_of_int y", unfolded u]
  note st = serves_cut_text[OF assms(5,6,14,15), of junk "gap 1" "gap 2" "gap 3" s]
  have sent: "\<exists>msg c'. f = (True, c') \<and> requests c' = requests c @ msg \<and> serves env junk msg (s, nc) st'"
    if "f = (True, c\<lparr>requests := requests c @ m, writes := n\<rparr>)" "serves env junk m (s, nc) st'" for f m n st'
    using that by auto
  show ?thesis by (intro conjI sent[OF k sk] sent[OF p sp] sent[OF t st])
qed

text \<open>
  C8: A client that may only view never causes input. Whatever message it sends, the application is
  called at most once, on behalf of this client, and never for a key, the pointer or a cut text.
\<close>

theorem view_only_gives_no_input:
  assumes "viewOnly (conn (nm_trans c))" and "rfbProcessClientNormalMessage env junk (s, c) = Some (s', c')"
  shows "\<exists>hs. calls s' = calls s @ hs \<and> length hs \<le> 1 \<and> (\<forall>h\<in>set hs. caller h = nm_id c \<and> \<not> is_input h)"
  using may_call_rfbProcessClientNormalMessage[of c s env junk] assms by (simp add: may_call_def)

text \<open>
  C8: The loop of \<open>clientInput\<close> comes to an end. Over any bytes a client sends, of any length and content,
  the messages are handled one after the other until the connection is closed, or undefined behaviour is
  reached. No message is handled without taking its first byte from the stream.
\<close>

theorem client_input_ends:
  assumes "polite_env env" and "known_extensions env c"
  shows "\<exists>r. client_input env junk (Some (s, c)) = Some r \<and> (\<forall>s' c'. r = Some (s', c') \<longrightarrow> \<not> is_open c')"
proof -
  obtain r where r: "client_input env junk (Some (s, c)) = Some r" using client_input_Some[OF assms] by blast
  then show ?thesis using while_option_exit[OF r[unfolded client_input_def]] by (auto split: option.splits)
qed

text \<open>
  A client that may only view can keep the pointer from everyone else: it becomes the client of the
  pointer although its events are dropped, and from then on those of any other client are dropped too.
\<close>

theorem view_only_holds_pointer:
  assumes "is_open a" "viewOnly (conn (nm_trans a))" "nm_scaled a = None" "buttons \<noteq> 0"
    and "pointerClient s = None" "nm_id b \<noteq> nm_id a" "is_open b" "nm_scaled b = None"
  shows "serves env junk (rfbPointerEvent # buttons # wire16 x @ wire16 y) (s, a) (s\<lparr>pointerClient := Some (nm_id a)\<rparr>, a) \<and>
    serves env junk' (rfbPointerEvent # buttons' # wire16 x' @ wire16 y') (s\<lparr>pointerClient := Some (nm_id a)\<rparr>, b)
      (s\<lparr>pointerClient := Some (nm_id a)\<rparr>, b)"
proof -
  have p: "rfbProcessClientNormalMessage env junk (s, got ((rfbPointerEvent # m # wire16 x @ wire16 y) @ rest) c) =
      handle_PointerEvent env (m # wire16 x @ wire16 y) (s, got rest c)" if "is_open c" for c m x y rest junk and s :: "'a normal_screen"
    using that reading_got[of c "m # wire16 x @ wire16 y" 5 "handle_PointerEvent env" s rest]
    by (simp add: process_got handle_message_def sz_rfbPointerEventMsg_def)
  show ?thesis
    unfolding serves_def fst_conv snd_conv p[OF assms(1)] p[OF assms(7)]
    using assms by (simp add: handle_PointerEvent_def to_screen_def)
qed

definition demo_speaker :: "8 word rfb_client" where
  "demo_speaker = demo_requester\<lparr>supportedMessages := \<lparr>client2server = [0x7D], server2client = []\<rparr>\<rparr>"

definition demo_viewer :: "nat \<Rightarrow> normal_client" where
  "demo_viewer i = (let c = demo_normal_client [] in set_conn ((conn (nm_trans c))\<lparr>viewOnly := True\<rparr>) (c\<lparr>nm_id := i\<rparr>))"

lemma demo_viewer_fields: "is_open (demo_viewer i)" "viewOnly (conn (nm_trans (demo_viewer i)))" "nm_scaled (demo_viewer i) = None"
  "nm_id (demo_viewer i) = i" "got [] (demo_viewer i) = demo_viewer i"
  by (simp_all add: demo_viewer_def demo_normal_client_def is_open_def demo_conn_def got_def set_conn_def Let_def)

lemma demo_client_fields: "\<not> viewOnly (conn (nm_trans (demo_normal_client inp)))" "nm_id (demo_normal_client inp) = 1"
  "pointerClient demo_normal_screen = None" "lastPtrButtons (demo_normal_client inp) = 0" "extensions (demo_normal_client inp) = []"
  "calls demo_normal_screen = []"
  by (simp_all add: demo_normal_client_def demo_conn_def demo_normal_screen_def)

theorem input_delivered_witness:
  "\<exists>msg c' nc'. SendPointerEvent 2 0 1 demo_speaker = (True, c') \<and> requests c' = msg \<and>
     serves demo_env (\<lambda>_. 0) msg (demo_normal_screen, demo_normal_client [])
       (call_host (ptrAddEvent 1 1 2 0) (demo_normal_screen\<lparr>pointerClient := Some 1\<rparr>), nc')"
proof -
  have b: "bit (0x7D :: 8 word) 4" "bit (0x7D :: 8 word) 5" "bit (0x7D :: 8 word) 6" by simp_all
  have s: "SupportsClient2Server demo_speaker rfbKeyEvent" "SupportsClient2Server demo_speaker rfbPointerEvent"
    "SupportsClient2Server demo_speaker rfbClientCutText" "1 < writes demo_speaker" "requests demo_speaker = []"
    using b by (simp_all add: SupportsClient2Server_def message_bit_def demo_speaker_def demo_requester_def demo_line_frame_def)
  have m: "mallocable demo_env (length [])" by (simp add: demo_env_def)
  show ?thesis
    using input_delivered[OF s(1-4) demo_session_facts(1)[of "[]"] demo_client_fields(1)[of "[]"] demo_session_facts(2)[of "[]"],
        where gap = "\<lambda>_. 0" and key = 97 and down = True and x = 2 and y = 0 and s = demo_normal_screen
        and buttons = 1 and str = "[]" and env = demo_env and junk = "\<lambda>_. 0"] m
    by (auto simp: s demo_client_fields) 
qed

theorem view_only_gives_no_input_witness:
  "\<exists>s' c'. rfbProcessClientNormalMessage demo_env (\<lambda>_. 0) (demo_normal_screen, got [4, 1, 0, 0, 0, 0, 0, 97] (demo_viewer 2)) = Some (s', c') \<and>
     calls s' = []"
proof -
  have "rfbProcessClientNormalMessage demo_env (\<lambda>_. 0) (demo_normal_screen, got ([4, 1, 0, 0, 0, 0, 0, 97] @ []) (demo_viewer 2)) =
      handle_KeyEvent [1, 0, 0, 0, 0, 0, 97] (demo_normal_screen, got [] (demo_viewer 2))"
    using reading_got[OF demo_viewer_fields(1)[of 2], of "[1, 0, 0, 0, 0, 0, 97]" 7 handle_KeyEvent demo_normal_screen "[]"]
    by (simp add: process_got demo_viewer_fields handle_message_def sz_rfbKeyEventMsg_def)
  then obtain s' c' where r: "rfbProcessClientNormalMessage demo_env (\<lambda>_. 0)
      (demo_normal_screen, got [4, 1, 0, 0, 0, 0, 0, 97] (demo_viewer 2)) = Some (s', c')"
    by (simp add: handle_KeyEvent_def)
  have v: "viewOnly (conn (nm_trans (got [4, 1, 0, 0, 0, 0, 0, 97] (demo_viewer 2))))" by (simp add: demo_viewer_fields)
  obtain hs where hs: "calls s' = hs" "length hs \<le> 1" "\<forall>h\<in>set hs. \<not> is_input h"
    using view_only_gives_no_input[OF v r] by (auto simp: demo_client_fields)
  have "s' = demo_normal_screen"
    using r \<open>rfbProcessClientNormalMessage _ _ (_, got (_ @ []) _) = _\<close> by (simp add: handle_KeyEvent_def demo_viewer_fields)
  then show ?thesis using r hs by (auto simp: demo_client_fields)
qed

theorem client_input_ends_witness:
  "\<exists>r. client_input demo_env (\<lambda>_. 0) (Some (demo_normal_screen, demo_normal_client demo_request)) = Some r \<and>
     (\<forall>s' c'. r = Some (s', c') \<longrightarrow> \<not> is_open c')"
  by (rule client_input_ends) (simp_all add: polite_env_def demo_env_def demo_client_fields)

theorem view_only_holds_pointer_witness:
  "rfbProcessClientNormalMessage demo_env (\<lambda>_. 0) (demo_normal_screen, got [5, 1, 0, 2, 0, 0] (demo_viewer 2)) =
     Some (demo_normal_screen\<lparr>pointerClient := Some 2\<rparr>, demo_viewer 2) \<and>
   rfbProcessClientNormalMessage demo_env (\<lambda>_. 0) (demo_normal_screen\<lparr>pointerClient := Some 2\<rparr>, got [5, 1, 0, 1, 0, 0] (demo_normal_client [])) =
     Some (demo_normal_screen\<lparr>pointerClient := Some 2\<rparr>, got [] (demo_normal_client []))"
proof -
  have "serves demo_env (\<lambda>_. 0) (rfbPointerEvent # 1 # wire16 2 @ wire16 0) (demo_normal_screen, demo_viewer 2)
      (demo_normal_screen\<lparr>pointerClient := Some 2\<rparr>, demo_viewer 2) \<and>
    serves demo_env (\<lambda>_. 0) (rfbPointerEvent # 1 # wire16 1 @ wire16 0) (demo_normal_screen\<lparr>pointerClient := Some 2\<rparr>, demo_normal_client [])
      (demo_normal_screen\<lparr>pointerClient := Some 2\<rparr>, demo_normal_client [])"
    using view_only_holds_pointer[OF demo_viewer_fields(1-3), where buttons = 1 and s = demo_normal_screen and b = "demo_normal_client []"
        and env = demo_env and junk = "\<lambda>_. 0" and x = 2 and y = 0 and junk' = "\<lambda>_. 0" and buttons' = 1 and x' = 1 and y' = 0]
    by (simp add: demo_viewer_fields demo_client_fields demo_session_facts)
  then show ?thesis
    unfolding serves_def using demo_viewer_fields(5)[of 2]
    by (auto simp: wire16_def dest!: spec[of _ "[]"])
qed

end
