(* ===== verification/SessionEncodings.thy ===== *)
theory SessionEncodings
  imports Session TranslateCorrect
begin

text \<open>
  How the two ends agree on a pixel format and on encodings: \<open>SetFormatAndEncodings\<close> of the client against
  the handlers of the server.
\<close>

section \<open>One encoding\<close>

lemma redraw_fields [simp]:
  "preferredEncoding (redraw_cursor s n) = preferredEncoding n" "cursorWasChanged (redraw_cursor s n) = cursorWasChanged n"
  "useRichCursorEncoding (redraw_cursor s n) = useRichCursorEncoding n" "enableLastRectEncoding (redraw_cursor s n) = enableLastRectEncoding n"
  "enableKeyboardLedState (redraw_cursor s n) = enableKeyboardLedState n" "enableSupportedMessages (redraw_cursor s n) = enableSupportedMessages n"
  "enableSupportedEncodings (redraw_cursor s n) = enableSupportedEncodings n" "enableServerIdentity (redraw_cursor s n) = enableServerIdentity n"
  "useCopyRect (regions (redraw_cursor s n)) = useCopyRect (regions n)" "useNewFBSize (regions (redraw_cursor s n)) = useNewFBSize (regions n)"
  "enableCursorShapeUpdates (regions (redraw_cursor s n)) = enableCursorShapeUpdates (regions n)"
  "enableCursorPosUpdates (regions (redraw_cursor s n)) = enableCursorPosUpdates (regions n)"
  by (simp_all add: redraw_cursor_def Let_def)

text \<open>What the numbers seen so far have set.\<close>

definition flags_of :: "'p normal_screen \<Rightarrow> uint32_t list \<Rightarrow> normal_client \<Rightarrow> bool" where
  "flags_of s seen c \<longleftrightarrow>
     (let n = nm_send c; u = regions n;
          shape = (rfbEncodingRichCursor \<in> set seen \<or> (rfbEncodingXCursor \<in> set seen \<and> \<not> dontConvertRichCursorToXCursor s))
      in preferredEncoding n = (case find (\<lambda>e. e \<in> set pixel_encodings) seen of None \<Rightarrow> -1 | Some e \<Rightarrow> uint e) \<and>
         useCopyRect u = (rfbEncodingCopyRect \<in> set seen) \<and> useNewFBSize u = (rfbEncodingNewFBSize \<in> set seen) \<and>
         enableCursorShapeUpdates u = shape \<and> cursorWasChanged n = shape \<and>
         useRichCursorEncoding n = (rfbEncodingRichCursor \<in> set seen) \<and>
         enableCursorPosUpdates u = (rfbEncodingPointerPos \<in> set seen) \<and>
         enableLastRectEncoding n = (rfbEncodingLastRect \<in> set seen) \<and>
         enableKeyboardLedState n = (rfbEncodingKeyboardLedState \<in> set seen) \<and>
         enableSupportedMessages n = (rfbEncodingSupportedMessages \<in> set seen) \<and>
         enableSupportedEncodings n = (rfbEncodingSupportedEncodings \<in> set seen) \<and>
         enableServerIdentity n = (rfbEncodingServerIdentity \<in> set seen))"

lemma flags_of_reset: "flags_of s [] (reset_encodings c)"
  by (simp add: flags_of_def reset_encodings_def Let_def)

lemmas pseudo_numbers =
  rfbEncodingXCursor_def rfbEncodingRichCursor_def rfbEncodingPointerPos_def rfbEncodingLastRect_def rfbEncodingNewFBSize_def
  rfbEncodingKeyboardLedState_def rfbEncodingSupportedMessages_def rfbEncodingSupportedEncodings_def rfbEncodingServerIdentity_def
  rfbEncodingCopyRect_def

lemma pseudo_not_pixel:
  "enc \<in> set [rfbEncodingCopyRect, rfbEncodingXCursor, rfbEncodingRichCursor, rfbEncodingPointerPos, rfbEncodingLastRect,
     rfbEncodingNewFBSize, rfbEncodingKeyboardLedState, rfbEncodingSupportedMessages, rfbEncodingSupportedEncodings, rfbEncodingServerIdentity]
   \<Longrightarrow> enc \<notin> set pixel_encodings"
  by (auto simp: pixel_encodings_def pseudo_numbers rfbEncodingRaw_def rfbEncodingRRE_def rfbEncodingCoRRE_def rfbEncodingHextile_def
      rfbEncodingUltra_def rfbEncodingZlib_def rfbEncodingZRLE_def rfbEncodingZYWRLE_def rfbEncodingTight_def)

lemma uint_not_minus_one: "uint (e :: uint32_t) \<noteq> -1"
proof -
  have "0 \<le> uint e" by simp
  then show ?thesis by linarith
qed

lemma find_append: "find P (xs @ ys) = (case find P xs of None \<Rightarrow> find P ys | Some x \<Rightarrow> Some x)"
  by (induction xs) auto

text \<open>A client without extensions, on a server that has none installed.\<close>

lemma apply_encoding_flags:
  assumes "flags_of s seen c" "installed env = []" "extensions c = []"
  shows "\<exists>c'. apply_encoding env s enc c = Some c' \<and> flags_of s (seen @ [enc]) c' \<and> extensions c' = [] \<and>
    nm_trans c' = nm_trans c \<and> nm_id c' = nm_id c \<and> nm_scaled c' = nm_scaled c"
proof (cases "enc \<in> set pixel_encodings")
  case True
  then have n: "enc \<notin> set [rfbEncodingCopyRect, rfbEncodingXCursor, rfbEncodingRichCursor, rfbEncodingPointerPos, rfbEncodingLastRect,
     rfbEncodingNewFBSize, rfbEncodingKeyboardLedState, rfbEncodingSupportedMessages, rfbEncodingSupportedEncodings, rfbEncodingServerIdentity]"
    using pseudo_not_pixel by blast
  have "preferredEncoding (nm_send c) = -1 \<longleftrightarrow> find (\<lambda>e. e \<in> set pixel_encodings) seen = None"
    using assms(1) uint_not_minus_one by (auto simp: flags_of_def Let_def split: option.splits)
  then show ?thesis
    using True n assms by (auto simp: apply_encoding_def Let_def flags_of_def find_append split: option.splits)
next
  case False
  have f: "find (\<lambda>e. e \<in> set pixel_encodings) (seen @ [enc]) = find (\<lambda>e. e \<in> set pixel_encodings) seen"
    using False by (simp add: find_append split: option.split)
  let ?P = "[rfbEncodingCopyRect, rfbEncodingXCursor, rfbEncodingRichCursor, rfbEncodingPointerPos, rfbEncodingLastRect,
     rfbEncodingNewFBSize, rfbEncodingKeyboardLedState, rfbEncodingSupportedMessages, rfbEncodingSupportedEncodings, rfbEncodingServerIdentity]"
  show ?thesis
  proof (cases "enc \<in> set ?P")
    case True
    show ?thesis
      using True False assms f
      by (simp only: list.set insert_iff empty_iff)
        (elim disjE; simp add: apply_encoding_def Let_def flags_of_def shape_updates_def pseudo_numbers)
  next
    case no: False
    have "\<exists>c'. other_encoding (installed env) enc c = Some c' \<and> flags_of s seen c' \<and> extensions c' = [] \<and>
        nm_trans c' = nm_trans c \<and> nm_id c' = nm_id c \<and> nm_scaled c' = nm_scaled c"
      using assms by (auto simp: other_encoding_def flags_of_def Let_def)
    moreover have "e \<in> set (seen @ [enc]) \<longleftrightarrow> e \<in> set seen" if "e \<in> set ?P" for e
      using no that by auto
    then have "flags_of s (seen @ [enc]) c' = flags_of s seen c'" for c'
      using f by (simp add: flags_of_def Let_def del: set_append)
    moreover have "apply_encoding env s enc c = other_encoding (installed env) enc c"
      using no False by (simp add: apply_encoding_def Let_def)
    ultimately show ?thesis by simp
  qed
qed

section \<open>The list of encodings\<close>

lemma got_nm_send: "(got r c)\<lparr>nm_send := n\<rparr> = got r (c\<lparr>nm_send := n\<rparr>)"
  by (simp add: got_def set_conn_def)

lemma flags_of_got [simp]: "flags_of s seen (got r c) = flags_of s seen c"
  by (simp add: flags_of_def)

lemma apply_encoding_got:
  "installed env = [] \<Longrightarrow> extensions c = [] \<Longrightarrow> apply_encoding env s e (got r c) = map_option (got r) (apply_encoding env s e c)"
  by (simp add: apply_encoding_def other_encoding_def shape_updates_def Let_def got_nm_send)
    (simp add: got_def set_conn_def)

lemma read_encodings_stream:
  assumes "installed env = []"
  shows "is_open c \<Longrightarrow> extensions c = [] \<Longrightarrow> flags_of s seen c \<Longrightarrow>
   \<exists>c'. (\<forall>rest. read_encodings env lastPref (length es) (s, got (concat (map wire32 es) @ rest) c) =
          Some (s, got rest (finish_encodings lastPref c'))) \<and>
     flags_of s (seen @ es) c' \<and> nm_trans c' = nm_trans c \<and> nm_id c' = nm_id c \<and> nm_scaled c' = nm_scaled c \<and> extensions c' = []"
proof (induction es arbitrary: c seen)
  case Nil
  then show ?case by (intro exI[of _ c]) (simp add: finish_encodings_def Let_def)
next
  case (Cons e es)
  obtain c1 where a: "apply_encoding env s e c = Some c1" "flags_of s (seen @ [e]) c1" "extensions c1 = []"
    "nm_trans c1 = nm_trans c" "nm_id c1 = nm_id c" "nm_scaled c1 = nm_scaled c"
    using apply_encoding_flags[OF Cons.prems(3) assms Cons.prems(2), of e] by blast
  have "is_open c1" using Cons.prems(1) a(4) by (simp add: is_open_def)
  from Cons.IH[OF this a(3,2)] obtain c' where c': "\<And>rest. read_encodings env lastPref (length es) (s, got (concat (map wire32 es) @ rest) c1) =
        Some (s, got rest (finish_encodings lastPref c'))" "flags_of s ((seen @ [e]) @ es) c'"
      "nm_trans c' = nm_trans c1" "nm_id c' = nm_id c1" "nm_scaled c' = nm_scaled c1" "extensions c' = []" by blast
  have "read_encodings env lastPref (length (e # es)) (s, got (concat (map wire32 (e # es)) @ rest) c) =
      Some (s, got rest (finish_encodings lastPref c'))" for rest
    using reading_got[OF Cons.prems(1), of "wire32 e" 4 _ s "concat (map wire32 es) @ rest"] c'(1)[of rest]
    by (simp add: apply_encoding_got[OF assms Cons.prems(2)] a(1))
  then show ?case using c' a by (intro exI[of _ c']) simp
qed

text \<open>What a client has after its list of encodings.\<close>

definition agreed :: "'p normal_screen \<Rightarrow> uint32_t list \<Rightarrow> normal_client \<Rightarrow> normal_client \<Rightarrow> bool" where
  "agreed s es old c \<longleftrightarrow>
     (let n = nm_send c; u = regions n;
          shape = (rfbEncodingRichCursor \<in> set es \<or> (rfbEncodingXCursor \<in> set es \<and> \<not> dontConvertRichCursorToXCursor s))
      in preferredEncoding n =
           (case find (\<lambda>e. e \<in> set pixel_encodings) es of
              Some e \<Rightarrow> uint e
            | None \<Rightarrow> (if preferredEncoding (nm_send old) = -1 then 0 else preferredEncoding (nm_send old))) \<and>
         useCopyRect u = (rfbEncodingCopyRect \<in> set es) \<and> useNewFBSize u = (rfbEncodingNewFBSize \<in> set es) \<and>
         enableCursorShapeUpdates u = shape \<and> useRichCursorEncoding n = (rfbEncodingRichCursor \<in> set es) \<and>
         enableCursorPosUpdates u = (shape \<and> rfbEncodingPointerPos \<in> set es) \<and>
         enableLastRectEncoding n = (rfbEncodingLastRect \<in> set es) \<and>
         enableKeyboardLedState n = (rfbEncodingKeyboardLedState \<in> set es) \<and>
         enableSupportedMessages n = (rfbEncodingSupportedMessages \<in> set es) \<and>
         enableSupportedEncodings n = (rfbEncodingSupportedEncodings \<in> set es) \<and>
         enableServerIdentity n = (rfbEncodingServerIdentity \<in> set es))"

lemma agreed_finish:
  assumes "flags_of s es c"
  shows "agreed s es old (finish_encodings (preferredEncoding (nm_send old)) c)"
  using assms uint_not_minus_one
  by (auto simp: agreed_def flags_of_def finish_encodings_def Let_def rfbEncodingRaw_def split: option.splits)

lemma serves_encodings:
  assumes "is_open c" "extensions c = []" "installed env = []" "length es < 65536"
  shows "\<exists>c'. serves env junk ([rfbSetEncodings, gap] @ wire16 (word_of_nat (length es)) @ concat (map wire32 es)) (s, c) (s, c') \<and>
    agreed s es c c' \<and> nm_trans c' = nm_trans c \<and> nm_id c' = nm_id c \<and> nm_scaled c' = nm_scaled c"
proof -
  let ?r = "reset_encodings c"
  have r: "is_open ?r" "extensions ?r = []" "nm_trans ?r = nm_trans c" "nm_id ?r = nm_id c" "nm_scaled ?r = nm_scaled c"
    "\<And>x. reset_encodings (got x c) = got x ?r"
    using assms(1,2) by (simp_all add: reset_encodings_def Let_def is_open_def got_nm_send)
  have n: "unat (word_of_nat (length es) :: uint16_t) = length es"
    using assms(4) by (simp add: unsigned_of_nat take_bit_nat_eq_self_iff)
  have p: "rfbProcessClientNormalMessage env junk
      (s, got (([rfbSetEncodings, gap] @ wire16 (word_of_nat (length es)) @ concat (map wire32 es)) @ rest) c) =
      read_encodings env (preferredEncoding (nm_send c)) (length es) (s, got (concat (map wire32 es) @ rest) ?r)" for rest
    using assms(1) reading_got[of c "gap # wire16 (word_of_nat (length es))" 3 "handle_SetEncodings env" s "concat (map wire32 es) @ rest"]
    by (simp add: process_got handle_message_def sz_rfbSetEncodingsMsg_def handle_SetEncodings_def n r(6))
  obtain c' where c': "\<And>rest. read_encodings env (preferredEncoding (nm_send c)) (length es) (s, got (concat (map wire32 es) @ rest) ?r) =
      Some (s, got rest (finish_encodings (preferredEncoding (nm_send c)) c'))" "flags_of s es c'"
      "nm_trans c' = nm_trans c" "nm_id c' = nm_id c" "nm_scaled c' = nm_scaled c"
    using read_encodings_stream[OF assms(3) r(1,2) flags_of_reset, of "preferredEncoding (nm_send c)" es] r(3-5) by auto
  show ?thesis
    using p c' agreed_finish[OF c'(2), of c]
    by (intro exI[of _ "finish_encodings (preferredEncoding (nm_send c)) c'"]) (simp add: serves_def finish_encodings_def Let_def)
qed

section \<open>The pixel format\<close>

definition colours_ok :: "rfbPixelFormat \<Rightarrow> bool" where
  "colours_ok f \<longleftrightarrow> trueColour f \<and> valid_bpp (bitsPerPixel f) \<and> has_colours f"

lemma serves_format:
  assumes "is_open c" "colours_ok (ts_serverFormat (ns_translate s))" "trueColour f" "valid_bpp (bitsPerPixel f)"
    and "table_fits (ts_serverFormat (ns_translate s)) f"
  shows "\<exists>fn. chosen_translation (rfbEconomicTranslate s) (ts_serverFormat (ns_translate s)) f = Some fn \<and>
    serves env junk ([rfbSetPixelFormat, g1, g2, g3] @ wire_format f) (s, c)
    (s, c\<lparr>nm_trans := (nm_trans c)\<lparr>format := f, translateFn := fn\<rparr>, nm_send := (nm_send c)\<lparr>readyForSetColourMapEntries := True\<rparr>\<rparr>)"
proof -
  have fmt: "unwire_format (drop 3 ([g1, g2, g3] @ wire_format f)) = f"
    using unwire_wire_format[of f "[]"] by simp
  obtain fn where ch: "chosen_translation (rfbEconomicTranslate s) (ts_serverFormat (ns_translate s)) f = Some fn"
    and fn: "\<And>k. rfbSetTranslateFunction (rfbEconomicTranslate s) (ns_translate s) ((nm_trans c)\<lparr>format := f, conn := k\<rparr>) =
      Some (True, (nm_trans c)\<lparr>format := f, conn := k, translateFn := fn\<rparr>)"
    using rfbSetTranslateFunction_true[of "ns_translate s" "(nm_trans c)\<lparr>format := f\<rparr>" "rfbEconomicTranslate s"] assms(2-5)
    by (auto simp: colours_ok_def)
  have sw: "(nm_trans c)\<lparr>conn := k, format := f\<rparr> = (nm_trans c)\<lparr>format := f, conn := k\<rparr>" for k by simp
  have "rfbProcessClientNormalMessage env junk (s, got (([rfbSetPixelFormat, g1, g2, g3] @ wire_format f) @ rest) c) =
      handle_SetPixelFormat ([g1, g2, g3] @ wire_format f) (s, got rest c)" for rest
    using assms(1) reading_got[of c "[g1, g2, g3] @ wire_format f" 19 handle_SetPixelFormat s rest]
    by (simp add: process_got handle_message_def sz_rfbSetPixelFormatMsg_def sz_rfbPixelFormat_def)
  moreover have "handle_SetPixelFormat ([g1, g2, g3] @ wire_format f) (s, got rest c) =
      Some (s, got rest (c\<lparr>nm_trans := (nm_trans c)\<lparr>format := f, translateFn := fn\<rparr>, nm_send := (nm_send c)\<lparr>readyForSetColourMapEntries := True\<rparr>\<rparr>))" for rest
    unfolding handle_SetPixelFormat_def Let_def fmt prod.case
    using fn[of "(conn (nm_trans c))\<lparr>inbuf := rest\<rparr>"] assms(1)
    by (simp add: sw set_translation_def Let_def got_def set_conn_def is_open_def)
  ultimately show ?thesis using ch by (auto simp: serves_def)
qed

lemma serves_step:
  "serves env junk m (s, c) (s', c') \<Longrightarrow>
   rfbProcessClientNormalMessage env junk (s, got (m @ rest) c) = Some (s', got rest c')"
  by (simp add: serves_def)

section \<open>The two ends\<close>

definition wanted :: "app_data \<Rightarrow> uint32_t list" where
  "wanted app = (let (r, app) = wanted_encodings app in encs (pseudo_encodings app r))"

text \<open>
  C7: The client and the server agree on how pixels are sent. After the two messages of
  \<open>SetFormatAndEncodings\<close>, whatever the settings of the application, the server has the tables that translate its
  pixels into the format of the client, or none if the formats are equal; it uses the first encoding of the list it knows, or stays with the old one; and it has
  turned on exactly the other features that are listed, with the position of the cursor only for a
  client that draws it. Nothing after the messages is read.
\<close>

theorem SetFormatAndEncodings_agreed:
  assumes "SetFormatAndEncodings gap app c = Some (True, app', c1)"
    and "SupportsClient2Server c rfbSetPixelFormat" "SupportsClient2Server c rfbSetEncodings"
    and "is_open nc" "extensions nc = []" "installed env = []"
    and "colours_ok (ts_serverFormat (ns_translate s))" "trueColour (c_format c)" "valid_bpp (bitsPerPixel (c_format c))"
    and "table_fits (ts_serverFormat (ns_translate s)) (c_format c)"
  shows "\<exists>m1 m2 nc1 nc2. requests c1 = requests c @ m1 @ m2 \<and>
    serves env junk m1 (s, nc) (s, nc1) \<and> serves env junk m2 (s, nc1) (s, nc2) \<and>
    format (nm_trans nc2) = c_format c \<and> conn (nm_trans nc2) = conn (nm_trans nc) \<and>
    chosen_translation (rfbEconomicTranslate s) (ts_serverFormat (ns_translate s)) (c_format c) = Some (translateFn (nm_trans nc2)) \<and>
    length (wanted app) \<le> MAX_ENCODINGS \<and> agreed s (wanted app) nc nc2"
proof -
  define w where "w = writes c"
  let ?m1 = "[rfbSetPixelFormat, gap 1, gap 2, gap 3] @ wire_format (c_format c)"
  let ?m2 = "[rfbSetEncodings, gap 1] @ wire16 (word_of_nat (length (wanted app))) @ concat (map wire32 (wanted app))"
  have sup: "SupportsClient2Server (c\<lparr>requests := q, writes := k\<rparr>) ty = SupportsClient2Server c ty" for q k ty
    by (simp add: SupportsClient2Server_def)
  have r: "requests c1 = requests c @ ?m1 @ ?m2" "length (wanted app) \<le> MAX_ENCODINGS"
    using assms(1) unfolding SetFormatAndEncodings_def
    by (auto simp: assms(2,3) sup WriteToRFBServer_def wanted_def Let_def split: if_splits prod.splits)
  obtain fn where ch: "chosen_translation (rfbEconomicTranslate s) (ts_serverFormat (ns_translate s)) (c_format c) = Some fn"
    and f: "serves env junk ?m1 (s, nc)
      (s, nc\<lparr>nm_trans := (nm_trans nc)\<lparr>format := c_format c, translateFn := fn\<rparr>, nm_send := (nm_send nc)\<lparr>readyForSetColourMapEntries := True\<rparr>\<rparr>)"
    using serves_format[OF assms(4,7-10)] by blast
  let ?n = "nc\<lparr>nm_trans := (nm_trans nc)\<lparr>format := c_format c, translateFn := fn\<rparr>, nm_send := (nm_send nc)\<lparr>readyForSetColourMapEntries := True\<rparr>\<rparr>"
  have n: "is_open ?n" "extensions ?n = []" "length (wanted app) < 65536"
    using assms(4,5) r(2) by (simp_all add: is_open_def MAX_ENCODINGS_def)
  obtain n2 where e: "serves env junk ?m2 (s, ?n) (s, n2)" "agreed s (wanted app) ?n n2" "nm_trans n2 = nm_trans ?n"
    using serves_encodings[OF n(1,2) assms(6) n(3), of junk "gap 1" s] by blast
  have pe: "preferredEncoding (nm_send ?n) = preferredEncoding (nm_send nc)" by simp
  have "agreed s (wanted app) nc n2" using e(2) unfolding agreed_def pe .
  then show ?thesis using r f e ch by (intro exI[of _ ?m1] exI[of _ ?m2] exI[of _ ?n] exI[of _ n2]) simp
qed

section \<open>The number of encodings\<close>

lemma default_encodings:
  "wanted initAppData = [rfbEncodingTight, rfbEncodingZRLE, rfbEncodingUltra, rfbEncodingUltraZip, rfbEncodingCopyRect,
     rfbEncodingHextile, rfbEncodingZlib, rfbEncodingCoRRE, rfbEncodingRRE, rfbEncodingRaw, 0xFFFFFF03, 0xFFFFFFE5,
     rfbEncodingKeyboardLedState, rfbEncodingLastRect, rfbEncodingSupportedMessages, rfbEncodingSupportedEncodings,
     rfbEncodingServerIdentity]"
  by code_simp

lemma too_many_encodings:
  "length (wanted (initAppData\<lparr>encodingsString := Some ''raw rre corre hextile raw rre corre hextile raw rre corre hextile raw rre corre hextile raw rre corre ultra''\<rparr>)) = 21"
  by code_simp

abbreviation asked :: "enc_request \<Rightarrow> nat" where "asked r \<equiv> length (encs r)"

lemma asked_ask [simp]: "asked (ask e r) = Suc (asked r)"
  by (simp add: ask_def)

lemma asked_if_room: "asked r \<le> n \<Longrightarrow> MAX_ENCODINGS \<le> n \<Longrightarrow> asked (ask_if_room d e r) \<le> n"
  by (auto simp: ask_if_room_def)

lemma asked_for_name: "asked (ask_for_name app w r) \<le> asked r + 2"
  by (simp add: ask_for_name_def Let_def)

lemma asked_for_names: "asked r < MAX_ENCODINGS \<Longrightarrow> asked (ask_for_names app ws r) \<le> MAX_ENCODINGS + 1"
proof (induction ws arbitrary: r)
  case (Cons w ws)
  then show ?case using asked_for_name[of app w r] by (auto simp: Let_def)
qed simp

lemma asked_pseudo:
  assumes "asked r \<le> n" "MAX_ENCODINGS \<le> n"
  shows "asked (pseudo_encodings app r) \<le> n + length (extensionEncodings app)"
proof -
  have room: "asked (fold (ask_if_room d) es q) \<le> n" if "asked q \<le> n" for d es q
    using that by (induction es arbitrary: q) (simp_all add: asked_if_room assms(2))
  have ext: "asked (fold ask es q) = asked q + length es" for es q
    by (induction es arbitrary: q) simp_all
  show ?thesis
    unfolding pseudo_encodings_def Let_def ext
    by (intro add_right_mono room asked_if_room assms)
qed

lemma wanted_bound:
  "length (wanted app) \<le> (if encodingsString app = None then MAX_ENCODINGS else MAX_ENCODINGS + 1) + length (extensionEncodings app)"
proof -
  obtain r app' where w: "wanted_encodings app = (r, app')" by fastforce
  have "asked r \<le> (if encodingsString app = None then MAX_ENCODINGS else MAX_ENCODINGS + 1)"
  proof (cases "encodingsString app")
    case None
    then show ?thesis using w by (auto simp: wanted_encodings_def Let_def MAX_ENCODINGS_def split: if_splits)
  next
    case (Some str)
    have "asked (ask_for_names app (split_words str) \<lparr>encs = [], requestCompressLevel = False, requestQualityLevel = False, requestLastRectEncoding = False\<rparr>) \<le> MAX_ENCODINGS + 1"
      by (rule asked_for_names) (simp add: MAX_ENCODINGS_def)
    then show ?thesis using w Some by (auto simp: wanted_encodings_def Let_def intro!: asked_if_room)
  qed
  moreover have "extensionEncodings app' = extensionEncodings app"
    using w by (auto simp: wanted_encodings_def Let_def fix_quality_def split: option.splits if_splits)
  ultimately show ?thesis using asked_pseudo[of r _ app'] by (simp add: wanted_def w)
qed

lemma SetFormatAndEncodings_None:
  assumes "SupportsClient2Server c rfbSetPixelFormat" "SupportsClient2Server c rfbSetEncodings" "0 < writes c"
  shows "SetFormatAndEncodings gap app c = None \<longleftrightarrow> MAX_ENCODINGS < length (wanted app)"
proof -
  have sup: "SupportsClient2Server (c\<lparr>requests := q, writes := k\<rparr>) ty = SupportsClient2Server c ty" for q k ty
    by (simp add: SupportsClient2Server_def)
  show ?thesis using assms
    by (auto simp: SetFormatAndEncodings_def sup WriteToRFBServer_def wanted_def Let_def split: prod.splits)
qed

text \<open>
  C38: How many encodings the client writes into its buffer, which has room for \<open>MAX_ENCODINGS\<close>. Without a
  string of encodings it always has room for its own; with one it writes up to one more than there is
  room for, because \<open>ultra\<close> adds two numbers after one check, and the string of 19 names and \<open>ultra\<close> makes
  it write over the end. The encodings of the extensions are not checked at all.
\<close>

theorem SetFormatAndEncodings_room:
  assumes "SupportsClient2Server c rfbSetPixelFormat" "SupportsClient2Server c rfbSetEncodings" "0 < writes c"
  shows "(encodingsString app = None \<and> extensionEncodings app = [] \<longrightarrow> SetFormatAndEncodings gap app c \<noteq> None) \<and>
    length (wanted app) \<le> MAX_ENCODINGS + 1 + length (extensionEncodings app) \<and>
    SetFormatAndEncodings gap (initAppData\<lparr>encodingsString :=
      Some ''raw rre corre hextile raw rre corre hextile raw rre corre hextile raw rre corre hextile raw rre corre ultra''\<rparr>) c = None"
  using wanted_bound[of app]
  by (cases "encodingsString app = None") (auto simp: SetFormatAndEncodings_None[OF assms] too_many_encodings MAX_ENCODINGS_def)

definition demo_newcomer :: "8 word rfb_client" where
  "demo_newcomer = demo_requester\<lparr>supportedMessages := \<lparr>client2server = [0x7D], server2client = []\<rparr>\<rparr>"

lemma demo_newcomer_fields:
  "SupportsClient2Server demo_newcomer rfbSetPixelFormat" "SupportsClient2Server demo_newcomer rfbSetEncodings"
  "0 < writes demo_newcomer" "writes demo_newcomer = 2" "trueColour (c_format demo_newcomer)" "valid_bpp (bitsPerPixel (c_format demo_newcomer))"
proof -
  have "bit (0x7D :: 8 word) 0" "bit (0x7D :: 8 word) 2" by simp_all
  then show "SupportsClient2Server demo_newcomer rfbSetPixelFormat" "SupportsClient2Server demo_newcomer rfbSetEncodings"
    by (simp_all add: demo_newcomer_def SupportsClient2Server_def message_bit_def)
qed (simp_all add: demo_newcomer_def demo_requester_def demo_line_frame_def rfbInitServerFormat_def Let_def valid_bpp_def)

theorem SetFormatAndEncodings_room_witness:
  "SetFormatAndEncodings (\<lambda>_. 0) (initAppData\<lparr>encodingsString := None\<rparr>) demo_newcomer \<noteq> None"
  using SetFormatAndEncodings_room[OF demo_newcomer_fields(1-3), of "initAppData\<lparr>encodingsString := None\<rparr>" "\<lambda>_. 0"]
  by (simp add: initAppData_def)

theorem SetFormatAndEncodings_agreed_witness:
  "\<exists>app c1 m1 m2 nc1 nc2. SetFormatAndEncodings (\<lambda>_. 0) initAppData demo_newcomer = Some (True, app, c1) \<and>
     requests c1 = requests demo_newcomer @ m1 @ m2 \<and>
     serves demo_env (\<lambda>_. 0) m1 (demo_normal_screen, demo_normal_client []) (demo_normal_screen, nc1) \<and>
     serves demo_env (\<lambda>_. 0) m2 (demo_normal_screen, nc1) (demo_normal_screen, nc2) \<and>
     preferredEncoding (nm_send nc2) = 7 \<and> useCopyRect (regions (nm_send nc2)) \<and> \<not> enableCursorPosUpdates (regions (nm_send nc2))"
proof -
  have sup: "SupportsClient2Server (demo_newcomer\<lparr>requests := q, writes := k\<rparr>) ty = SupportsClient2Server demo_newcomer ty" for q k ty
    by (simp add: SupportsClient2Server_def)
  have "SetFormatAndEncodings (\<lambda>_. 0) initAppData demo_newcomer \<noteq> None"
    by (simp add: SetFormatAndEncodings_None[OF demo_newcomer_fields(1-3)] default_encodings MAX_ENCODINGS_def)
  then obtain app c1 where c1: "SetFormatAndEncodings (\<lambda>_. 0) initAppData demo_newcomer = Some (True, app, c1)"
    by (auto simp: SetFormatAndEncodings_def demo_newcomer_fields sup WriteToRFBServer_def Let_def split: prod.splits if_splits)
  have col: "colours_ok (ts_serverFormat (ns_translate demo_normal_screen))"
    by (simp add: colours_ok_def has_colours_def demo_normal_screen_def rfbInitServerFormat_def Let_def valid_bpp_def)
  have fits: "table_fits (ts_serverFormat (ns_translate demo_normal_screen)) (c_format demo_newcomer)"
    by (simp add: table_fits_def channel_fits_def demo_normal_screen_def demo_newcomer_def demo_requester_def demo_line_frame_def rfbInitServerFormat_def Let_def)
  have env: "installed demo_env = []" by (simp add: demo_env_def)
  from SetFormatAndEncodings_agreed[OF c1 demo_newcomer_fields(1,2) demo_session_facts(1)[of "[]"] demo_client_fields(5) env col demo_newcomer_fields(5,6) fits]
  obtain m1 m2 nc1 nc2 where m: "requests c1 = requests demo_newcomer @ m1 @ m2"
    "serves demo_env (\<lambda>_. 0) m1 (demo_normal_screen, demo_normal_client []) (demo_normal_screen, nc1)"
    "serves demo_env (\<lambda>_. 0) m2 (demo_normal_screen, nc1) (demo_normal_screen, nc2)"
    "agreed demo_normal_screen (wanted initAppData) (demo_normal_client []) nc2" by blast
  have "rfbEncodingTight \<in> set pixel_encodings" by (simp add: pixel_encodings_def)
  then have "find (\<lambda>e. e \<in> set pixel_encodings) (wanted initAppData) = Some rfbEncodingTight"
    by (simp add: default_encodings)
  moreover have "rfbEncodingCopyRect \<in> set (wanted initAppData)" "rfbEncodingPointerPos \<notin> set (wanted initAppData)"
    by (simp_all add: default_encodings rfbEncodingCopyRect_def rfbEncodingPointerPos_def rfbEncodingTight_def rfbEncodingZRLE_def
        rfbEncodingUltra_def rfbEncodingUltraZip_def rfbEncodingHextile_def rfbEncodingZlib_def rfbEncodingCoRRE_def rfbEncodingRRE_def
        rfbEncodingRaw_def rfbEncodingKeyboardLedState_def rfbEncodingLastRect_def rfbEncodingSupportedMessages_def
        rfbEncodingSupportedEncodings_def rfbEncodingServerIdentity_def)
  ultimately show ?thesis
    using c1 m by (auto simp: agreed_def Let_def rfbEncodingTight_def)
qed

section \<open>Taking a message out of the set\<close>

text \<open>Clearing one message clears the other seven of its byte as well.\<close>

lemma ClearClient2Server_clears:
  assumes "length (client2server (supportedMessages c)) = 32"
  shows "SupportsClient2Server (ClearClient2Server ty c) ty' \<longleftrightarrow> unat ty' div 8 \<noteq> unat ty div 8 \<and> SupportsClient2Server c ty'"
proof -
  have "unat ty < 2 ^ LENGTH(8)" by (rule unsigned_less)
  then have "unat ty div 8 < 32" by simp
  moreover have "push_bit n (1 :: nat) \<noteq> 0" for n by (simp add: push_bit_eq_mult)
  ultimately show ?thesis
    using assms by (auto simp: SupportsClient2Server_def ClearClient2Server_def on_c2s_def clear_message_bit_def message_bit_def
        Let_def nth_list_update)
qed

end
