(* ===== verification/AuthSafety.thy ===== *)
theory AuthSafety
  imports Auth
begin

text \<open>
  What the connection set-up guarantees, over all runs of a server with any number of clients:
  connections come and go, the peers send what they like, the links break, and the server serves
  any client that has data, in any order.
\<close>

section \<open>Runs\<close>

datatype event = Connected nat | ReverseConnected nat | PasswordOK nat

definition password_accepted :: "rfbScreenAuth \<Rightarrow> rfbClientRec \<Rightarrow> bool" where
  "password_accepted scr cl \<longleftrightarrow>
     client_state cl = RFB_AUTHENTICATION \<and>
     (case rfbReadExact cl CHALLENGESIZE of
        None \<Rightarrow> False
      | Some (response, cl) \<Rightarrow> fst (passwordCheck scr cl response CHALLENGESIZE))"

inductive server_run ::
    "(nat \<Rightarrow> rfbClientRec \<Rightarrow> rfbClientRec) \<Rightarrow> (rfbClientRec \<Rightarrow> rfbClientRec) \<Rightarrow>
     rfbServer \<Rightarrow> rfbServer \<Rightarrow> event list \<Rightarrow> bool"
  for app normal srv0
where
  start: "server_run app normal srv0 srv0 []"
| connect: "server_run app normal srv0 srv es \<Longrightarrow>
    Connected i \<notin> set es \<Longrightarrow> ReverseConnected i \<notin> set es \<Longrightarrow> 0 \<le> fd \<Longrightarrow>
    server_run app normal srv0 (rfbNewClient srv i fd can_write False) (Connected i # es)"
| reverse: "server_run app normal srv0 srv es \<Longrightarrow>
    Connected i \<notin> set es \<Longrightarrow> ReverseConnected i \<notin> set es \<Longrightarrow> 0 \<le> fd \<Longrightarrow>
    server_run app normal srv0 (rfbNewClient srv i fd can_write True) (ReverseConnected i # es)"
| network: "server_run app normal srv0 srv es \<Longrightarrow> (i, cl) \<in> set (clients srv) \<Longrightarrow>
    server_run app normal srv0
      (srv\<lparr>clients := update_client i (cl\<lparr>inbuf := inbuf cl @ bs, write_ok := can_write, rands := rs\<rparr>)
             (clients srv)\<rparr>) es"
| serve: "server_run app normal srv0 srv es \<Longrightarrow> (i, cl) \<in> set (clients srv) \<Longrightarrow> 0 \<le> sock cl \<Longrightarrow>
    rfbProcessClientMessage app normal srv i cl = Some srv' \<Longrightarrow>
    server_run app normal srv0 srv' (if password_accepted (screen srv) cl then PasswordOK i # es else es)"
| gone: "server_run app normal srv0 srv es \<Longrightarrow> (i, cl) \<in> set (clients srv) \<Longrightarrow> sock cl = -1 \<Longrightarrow>
    server_run app normal srv0 (srv\<lparr>clients := filter (\<lambda>jc. fst jc \<noteq> i) (clients srv)\<rparr>) es"

section \<open>What the single handlers leave alone\<close>

named_theorems handshake \<open>the effect of the handshake's operations on the fields of the client\<close>

lemma write_fields [handshake, simp]:
  "client_state (snd (rfbWriteExact cl b)) = client_state cl"
  "reverseConnection (snd (rfbWriteExact cl b)) = reverseConnection cl"
  "sock (snd (rfbWriteExact cl b)) = sock cl"
  "protocolMinorVersion (snd (rfbWriteExact cl b)) = protocolMinorVersion cl"
  by (simp_all add: rfbWriteExact_def)

lemma close_fields [handshake, simp]:
  "client_state (rfbCloseClient cl) = client_state cl"
  "reverseConnection (rfbCloseClient cl) = reverseConnection cl"
  "sock (rfbCloseClient cl) = -1"
  by (simp_all add: rfbCloseClient_def)

lemma read_fields [handshake]:
  "rfbReadExact cl n = Some (b, cl') \<Longrightarrow> client_state cl' = client_state cl \<and>
     reverseConnection cl' = reverseConnection cl \<and> sock cl' = sock cl \<and> length b = n"
  by (auto simp: rfbReadExact_def split: if_splits)

lemma send_string_fields [handshake, simp]:
  "client_state (rfbClientSendString cl r) = client_state cl"
  "reverseConnection (rfbClientSendString cl r) = reverseConnection cl"
  "sock (rfbClientSendString cl r) = -1"
  by (simp_all add: rfbClientSendString_def Let_def split_beta)

lemma conn_failed_fields [simp]:
  "client_state (rfbClientConnFailed cl r) = client_state cl"
  "reverseConnection (rfbClientConnFailed cl r) = reverseConnection cl"
  "sock (rfbClientConnFailed cl r) = -1"
  by (simp_all add: rfbClientConnFailed_def Let_def split_beta)

lemma challenge_fields:
  "client_state (rfbVncAuthSendChallenge cl) \<in> {client_state cl, RFB_AUTHENTICATION}"
  "reverseConnection (rfbVncAuthSendChallenge cl) = reverseConnection cl"
  "sock (rfbVncAuthSendChallenge cl) \<in> {sock cl, -1}"
  by (simp_all add: rfbVncAuthSendChallenge_def Let_def split_beta)

lemma none_fields:
  "client_state (rfbVncAuthNone cl) \<in> {client_state cl, RFB_INITIALISATION}"
  "reverseConnection (rfbVncAuthNone cl) = reverseConnection cl"
  "sock (rfbVncAuthNone cl) \<in> {sock cl, -1}"
  by (simp_all add: rfbVncAuthNone_def Let_def split_beta)

section \<open>The handler list over a run\<close>

text \<open>The static handlers that are not in the list have a null \<open>next\<close>.\<close>

definition sec_ok :: "sec_list \<Rightarrow> handler list \<Rightarrow> bool" where
  "sec_ok s xs \<longleftrightarrow> registered s xs \<and>
     (\<forall>h. h = VncSecurityHandlerVncAuth \<or> h = VncSecurityHandlerNone \<longrightarrow> h \<in> set xs \<or> handler_next s h = None)"

lemma sec_ok_init: "sec_ok sec_list_init []"
  by (simp add: sec_ok_def registered_init) (simp add: sec_list_init_def)

lemma sec_ok_register:
  assumes "sec_ok s xs" and "h = VncSecurityHandlerVncAuth \<or> h = VncSecurityHandlerNone"
  shows "\<exists>s'. rfbRegisterSecurityHandler s (Some h) = Some s' \<and> sec_ok s' (if h \<in> set xs then xs else h # xs)"
proof -
  have "registered s xs" "h \<in> set xs \<or> handler_next s h = None"
    using assms by (auto simp: sec_ok_def)
  from register_one[OF this] show ?thesis
    using assms by (auto simp: sec_ok_def split: if_splits)
qed

lemma send_list_fields:
  assumes "sec_ok s xs" and "t = rfbSecTypeNone \<or> t = rfbSecTypeVncAuth"
  shows "\<exists>s' cl'. rfbSendSecurityTypeList s cl t = Some (s', cl') \<and>
    sec_ok s' (let h = (if t = rfbSecTypeNone then VncSecurityHandlerNone else VncSecurityHandlerVncAuth)
               in if h \<in> set xs then xs else h # xs) \<and>
    client_state cl' \<in> {client_state cl, RFB_SECURITY_TYPE} \<and>
    reverseConnection cl' = reverseConnection cl \<and> sock cl' \<in> {sock cl, -1}"
proof -
  define h where "h = (if t = rfbSecTypeNone then VncSecurityHandlerNone else VncSecurityHandlerVncAuth)"
  have "h = VncSecurityHandlerVncAuth \<or> h = VncSecurityHandlerNone" by (simp add: h_def)
  from sec_ok_register[OF assms(1) this] obtain s' where s':
      "rfbRegisterSecurityHandler s (Some h) = Some s'"
      "sec_ok s' (if h \<in> set xs then xs else h # xs)" by blast
  have "(if t = rfbSecTypeNone then rfbRegisterSecurityHandler s (Some VncSecurityHandlerNone)
      else if t = rfbSecTypeVncAuth then rfbRegisterSecurityHandler s (Some VncSecurityHandlerVncAuth)
      else Some s) = Some s'"
    using s'(1) assms(2) by (auto simp: h_def rfbSecTypeNone_def rfbSecTypeVncAuth_def split: if_splits)
  then show ?thesis
    using s'(2) unfolding h_def[symmetric]
    by (simp add: rfbSendSecurityTypeList_def Let_def split_beta)
qed

lemma send_type_fields:
  "t = rfbSecTypeVncAuth \<Longrightarrow>
     client_state (rfbSendSecurityType cl t) \<in> {client_state cl, RFB_AUTHENTICATION} \<and>
     reverseConnection (rfbSendSecurityType cl t) = reverseConnection cl \<and>
     sock (rfbSendSecurityType cl t) \<in> {sock cl, -1}"
  "t = rfbSecTypeNone \<Longrightarrow>
     client_state (rfbSendSecurityType cl t) \<in> {client_state cl, RFB_INITIALISATION} \<and>
     reverseConnection (rfbSendSecurityType cl t) = reverseConnection cl \<and>
     sock (rfbSendSecurityType cl t) \<in> {sock cl, -1}"
  using challenge_fields[of "snd (rfbWriteExact cl (wire32 (word_of_int t)))"]
  by (simp_all add: rfbSendSecurityType_def Let_def split_beta rfbSecTypeNone_def rfbSecTypeVncAuth_def)

lemma auth_new_client_fields:
  assumes "sec_ok s xs"
  shows "\<exists>s' cl' ys. rfbAuthNewClient scr s cl = Some (s', cl') \<and> sec_ok s' ys \<and> set xs \<subseteq> set ys \<and>
    set ys \<subseteq> set xs \<union> {VncSecurityHandlerVncAuth, VncSecurityHandlerNone} \<and>
    (has_authPasswdData scr \<and> \<not> reverseConnection cl \<longrightarrow>
       set ys \<subseteq> insert VncSecurityHandlerVncAuth (set xs) \<and>
       client_state cl' \<in> {client_state cl, RFB_SECURITY_TYPE, RFB_AUTHENTICATION}) \<and>
    (client_state cl' = client_state cl \<or> client_state cl' \<noteq> RFB_NORMAL) \<and>
    reverseConnection cl' = reverseConnection cl \<and> sock cl' \<in> {sock cl, -1}"
proof -
  define t where "t = (if \<not> has_authPasswdData scr \<or> reverseConnection cl then rfbSecTypeNone else rfbSecTypeVncAuth)"
  have t: "t = rfbSecTypeNone \<or> t = rfbSecTypeVncAuth" by (simp add: t_def)
  have tn: "rfbSecTypeNone \<noteq> rfbSecTypeVncAuth" "t \<noteq> rfbSecTypeInvalid"
    by (simp_all add: t_def rfbSecTypeNone_def rfbSecTypeVncAuth_def rfbSecTypeInvalid_def)
  have eq: "rfbAuthNewClient scr s cl =
      (if protocolMajorVersion cl = 3 \<and> protocolMinorVersion cl < 7
       then Some (s, rfbSendSecurityType cl t) else rfbSendSecurityTypeList s cl t)"
    using tn(2) by (auto simp: rfbAuthNewClient_def t_def Let_def)
  show ?thesis
  proof (cases "protocolMajorVersion cl = 3 \<and> protocolMinorVersion cl < 7")
    case True
    then show ?thesis
      using send_type_fields[of t cl] t assms eq
      by (intro exI[of _ s] exI[of _ "rfbSendSecurityType cl t"] exI[of _ xs])
        (auto simp: t_def tn split: if_splits)
  next
    case False
    define h where "h = (if t = rfbSecTypeNone then VncSecurityHandlerNone else VncSecurityHandlerVncAuth)"
    from send_list_fields[OF assms t, of cl] obtain s' cl' where *:
      "rfbSendSecurityTypeList s cl t = Some (s', cl')"
      "sec_ok s' (if h \<in> set xs then xs else h # xs)"
      "client_state cl' \<in> {client_state cl, RFB_SECURITY_TYPE}"
      "reverseConnection cl' = reverseConnection cl \<and> sock cl' \<in> {sock cl, -1}"
      unfolding h_def[symmetric] Let_def by blast
    define ys where "ys = (if h \<in> set xs then xs else h # xs)"
    have "set ys = insert h (set xs)" by (auto simp: ys_def)
    moreover have "has_authPasswdData scr \<and> \<not> reverseConnection cl \<longrightarrow> h = VncSecurityHandlerVncAuth"
      "h \<in> {VncSecurityHandlerVncAuth, VncSecurityHandlerNone}"
      by (simp_all add: h_def t_def tn(1)[symmetric])
    moreover have "rfbAuthNewClient scr s cl = Some (s', cl')" using * eq False by simp
    ultimately show ?thesis
      using *(2,3,4) unfolding ys_def[symmetric]
      by (intro exI[of _ s'] exI[of _ cl'] exI[of _ ys]) auto
  qed
qed

lemma protocol_version_cases:
  "\<exists>cl1. client_state cl1 = client_state cl \<and> reverseConnection cl1 = reverseConnection cl \<and>
     sock cl1 = sock cl \<and>
     (rfbProcessClientProtocolVersion scr s cl = Some (s, rfbCloseClient cl1) \<or>
      (\<exists>major minor. rfbProcessClientProtocolVersion scr s cl =
         rfbAuthNewClient scr s (cl1\<lparr>protocolMajorVersion := major, protocolMinorVersion := minor\<rparr>)))"
proof (cases "rfbReadExact cl sz_rfbProtocolVersionMsg")
  case None
  then show ?thesis by (auto simp: rfbProcessClientProtocolVersion_def)
next
  case (Some r)
  obtain pv cl1 where r: "r = (pv, cl1)" by fastforce
  then have "client_state cl1 = client_state cl" "reverseConnection cl1 = reverseConnection cl" "sock cl1 = sock cl"
    using Some read_fields by blast+
  moreover have "rfbProcessClientProtocolVersion scr s cl = Some (s, rfbCloseClient cl1) \<or>
      (\<exists>major minor. rfbProcessClientProtocolVersion scr s cl =
         rfbAuthNewClient scr s (cl1\<lparr>protocolMajorVersion := major, protocolMinorVersion := minor\<rparr>))"
    using Some r by (auto simp: rfbProcessClientProtocolVersion_def Let_def split: option.split)
  ultimately show ?thesis by blast
qed

lemma protocol_version_fields:
  assumes "sec_ok s xs"
  shows "\<exists>s' cl' ys. rfbProcessClientProtocolVersion scr s cl = Some (s', cl') \<and> sec_ok s' ys \<and>
    set ys \<subseteq> set xs \<union> {VncSecurityHandlerVncAuth, VncSecurityHandlerNone} \<and>
    (has_authPasswdData scr \<and> \<not> reverseConnection cl \<longrightarrow>
       set ys \<subseteq> insert VncSecurityHandlerVncAuth (set xs) \<and>
       client_state cl' \<in> {client_state cl, RFB_SECURITY_TYPE, RFB_AUTHENTICATION}) \<and>
    (client_state cl' = client_state cl \<or> client_state cl' \<noteq> RFB_NORMAL) \<and>
    reverseConnection cl' = reverseConnection cl \<and> sock cl' \<in> {sock cl, -1}"
proof -
  obtain cl1 where f: "client_state cl1 = client_state cl" "reverseConnection cl1 = reverseConnection cl"
    "sock cl1 = sock cl" and
    "rfbProcessClientProtocolVersion scr s cl = Some (s, rfbCloseClient cl1) \<or>
      (\<exists>major minor. rfbProcessClientProtocolVersion scr s cl =
         rfbAuthNewClient scr s (cl1\<lparr>protocolMajorVersion := major, protocolMinorVersion := minor\<rparr>))"
    using protocol_version_cases by blast
  then show ?thesis
  proof (elim disjE exE)
    assume "rfbProcessClientProtocolVersion scr s cl = Some (s, rfbCloseClient cl1)"
    then show ?thesis using assms f by (intro exI[of _ s] exI[of _ "rfbCloseClient cl1"] exI[of _ xs]) auto
  next
    fix major minor
    assume e: "rfbProcessClientProtocolVersion scr s cl =
      rfbAuthNewClient scr s (cl1\<lparr>protocolMajorVersion := major, protocolMinorVersion := minor\<rparr>)"
    show ?thesis
      using auth_new_client_fields[OF assms, of scr "cl1\<lparr>protocolMajorVersion := major, protocolMinorVersion := minor\<rparr>"]
      unfolding e by (simp add: f) blast
  qed
qed

lemma security_type_fields:
  assumes "sec_ok s xs" and "set xs \<subseteq> {VncSecurityHandlerVncAuth, VncSecurityHandlerNone}"
  shows "\<exists>cl'. rfbProcessClientSecurityType app s cl = Some cl' \<and>
    client_state cl' \<in> {client_state cl, RFB_AUTHENTICATION, RFB_INITIALISATION} \<and>
    (VncSecurityHandlerNone \<notin> set xs \<longrightarrow> client_state cl' \<in> {client_state cl, RFB_AUTHENTICATION}) \<and>
    reverseConnection cl' = reverseConnection cl \<and> sock cl' \<in> {sock cl, -1}"
proof (cases "rfbReadExact cl 1")
  case None
  then show ?thesis by (simp add: rfbProcessClientSecurityType_def)
next
  case (Some r)
  obtain buf cl1 where r: "r = (buf, cl1)" by fastforce
  then have f: "client_state cl1 = client_state cl" "reverseConnection cl1 = reverseConnection cl" "sock cl1 = sock cl"
    using Some read_fields by blast+
  define found where "found = find (\<lambda>h. buf ! 0 = handler_type h) xs"
  have "find_type (handler_next s) (securityHandlers s) (buf ! 0) = Some found"
    using assms(1) by (simp add: find_type_chain sec_ok_def registered_def found_def)
  then have e: "rfbProcessClientSecurityType app s cl =
      Some (case found of Some handler \<Rightarrow> run_handler app handler cl1 | None \<Rightarrow> rfbCloseClient cl1)"
    using Some r by (simp add: rfbProcessClientSecurityType_def split: option.split)
  show ?thesis
  proof (cases found)
    case None
    then show ?thesis by (simp add: e f)
  next
    case (Some h)
    then have "h \<in> set xs" by (auto simp: found_def find_Some_iff)
    then consider "h = VncSecurityHandlerVncAuth" | "h = VncSecurityHandlerNone" "VncSecurityHandlerNone \<in> set xs"
      using assms(2) by blast
    then show ?thesis
      using challenge_fields[of cl1] none_fields[of cl1] by cases (auto simp: e f Some)
  qed
qed

section \<open>Password checks\<close>

text \<open>What a password check must not do to the client: move its session on by itself.\<close>

locale password_check =
  fixes check :: "rfbClientRec \<Rightarrow> uint8_t list \<Rightarrow> nat \<Rightarrow> bool \<times> rfbClientRec"
  assumes check_fields: "client_state (snd (check cl response len)) = client_state cl"
      "reverseConnection (snd (check cl response len)) = reverseConnection cl"
      "sock (snd (check cl response len)) = sock cl"
begin

lemma auth_message_fields:
  assumes "passwordCheck scr = check" and "client_state cl = RFB_AUTHENTICATION"
  shows "client_state (rfbAuthProcessClientMessage scr cl) \<in> {RFB_AUTHENTICATION, RFB_INITIALISATION}"
    "client_state (rfbAuthProcessClientMessage scr cl) = RFB_INITIALISATION \<Longrightarrow> password_accepted scr cl"
    "reverseConnection (rfbAuthProcessClientMessage scr cl) = reverseConnection cl"
    "sock (rfbAuthProcessClientMessage scr cl) \<in> {sock cl, -1}"
proof -
  note defs = rfbAuthProcessClientMessage_def password_accepted_def Let_def split_beta assms check_fields
  have "client_state (rfbAuthProcessClientMessage scr cl) \<in> {RFB_AUTHENTICATION, RFB_INITIALISATION} \<and>
    (client_state (rfbAuthProcessClientMessage scr cl) = RFB_INITIALISATION \<longrightarrow> password_accepted scr cl) \<and>
    reverseConnection (rfbAuthProcessClientMessage scr cl) = reverseConnection cl \<and>
    sock (rfbAuthProcessClientMessage scr cl) \<in> {sock cl, -1}"
  proof (cases "rfbReadExact cl CHALLENGESIZE")
    case None
    then show ?thesis by (simp add: defs)
  next
    case (Some r)
    obtain response cl1 where r: "r = (response, cl1)" by fastforce
    then have "client_state cl1 = client_state cl" "reverseConnection cl1 = reverseConnection cl" "sock cl1 = sock cl"
      using Some read_fields by blast+
    with Some r show ?thesis by (simp add: defs)
  qed
  then show "client_state (rfbAuthProcessClientMessage scr cl) \<in> {RFB_AUTHENTICATION, RFB_INITIALISATION}"
    "client_state (rfbAuthProcessClientMessage scr cl) = RFB_INITIALISATION \<Longrightarrow> password_accepted scr cl"
    "reverseConnection (rfbAuthProcessClientMessage scr cl) = reverseConnection cl"
    "sock (rfbAuthProcessClientMessage scr cl) \<in> {sock cl, -1}"
    by simp_all
qed

end

interpretation default_check: password_check "rfbDefaultPasswordCheck fs fname"
  by unfold_locales (simp_all add: rfbDefaultPasswordCheck_def Let_def split: option.split)

interpretation list_check: password_check "rfbCheckPasswordByList firstViewOnly passwds"
proof unfold_locales
  fix cl response len
  have "snd (rfbCheckPasswordByList firstViewOnly passwds cl response len) = cl \<or>
      snd (rfbCheckPasswordByList firstViewOnly passwds cl response len) = cl\<lparr>viewOnly := True\<rparr>"
    unfolding rfbCheckPasswordByList_def by (rule check_list_loop_client)
  then show "client_state (snd (rfbCheckPasswordByList firstViewOnly passwds cl response len)) = client_state cl"
    "reverseConnection (snd (rfbCheckPasswordByList firstViewOnly passwds cl response len)) = reverseConnection cl"
    "sock (snd (rfbCheckPasswordByList firstViewOnly passwds cl response len)) = sock cl"
    by auto
qed


section \<open>Serving one client\<close>

text \<open>\<open>normal\<close> serves an open session and ends it at most by closing the socket.\<close>

definition serves_session :: "(rfbClientRec \<Rightarrow> rfbClientRec) \<Rightarrow> bool" where
  "serves_session normal \<longleftrightarrow>
     (\<forall>cl. client_state (normal cl) = client_state cl \<and> reverseConnection (normal cl) = reverseConnection cl \<and>
        sock (normal cl) \<in> {sock cl, -1})"

definition static_handlers :: "handler set" where
  "static_handlers = {VncSecurityHandlerVncAuth, VncSecurityHandlerNone}"

lemma map_fst_update_client [simp]: "map fst (update_client i cl cls) = map fst cls"
  by (induction cls) (auto simp: update_client_def)

lemma in_update_client:
  "(j, c) \<in> set (update_client i cl cls) \<longleftrightarrow>
     (j = i \<and> c = cl \<and> i \<in> fst ` set cls) \<or> (j \<noteq> i \<and> (j, c) \<in> set cls)"
  by (induction cls) (auto simp: update_client_def split: if_splits)

lemma update_client_twice: "update_client i a (update_client i b cls) = update_client i a cls"
  by (induction cls) (auto simp: update_client_def)

lemma init_message_server:
  "sec (rfbProcessClientInitMessage srv i cl) = sec srv"
  "screen (rfbProcessClientInitMessage srv i cl) = screen srv"
  "map fst (clients (rfbProcessClientInitMessage srv i cl)) = map fst (clients srv)"
proof -
  have m: "map fst (map (\<lambda>jc. if other_session i jc then (fst jc, rfbCloseClient (snd jc)) else jc) cls) = map fst cls"
    for cls by (induction cls) auto
  show "sec (rfbProcessClientInitMessage srv i cl) = sec srv"
    "screen (rfbProcessClientInitMessage srv i cl) = screen srv"
    "map fst (clients (rfbProcessClientInitMessage srv i cl)) = map fst (clients srv)"
    by (simp_all add: rfbProcessClientInitMessage_def Let_def split_beta m del: map_map split: option.split)
qed

lemma init_message_clients:
  assumes "(j, c') \<in> set (clients (rfbProcessClientInitMessage srv i cl))"
  shows "if j = i then client_state c' \<in> {client_state cl, RFB_NORMAL} \<and> reverseConnection c' = reverseConnection cl
    else \<exists>c. (j, c) \<in> set (clients srv) \<and> (c' = c \<or> c' = rfbCloseClient c)"
proof (cases "rfbReadExact cl sz_rfbClientInitMsg")
  case None
  then show ?thesis using assms by (auto simp: rfbProcessClientInitMessage_def in_update_client)
next
  case (Some r)
  obtain buf cl1 where r: "r = (buf, cl1)" by fastforce
  then have f: "client_state cl1 = client_state cl" "reverseConnection cl1 = reverseConnection cl"
    using Some read_fields by blast+
  have m: "(j, c') \<in> (\<lambda>jc. if other_session i jc then (fst jc, rfbCloseClient (snd jc)) else jc) ` X \<Longrightarrow>
      \<exists>c. (j, c) \<in> X \<and> (c' = c \<or> (c' = rfbCloseClient c \<and> j \<noteq> i))" for X
    by (auto simp: other_session_def split: if_splits)
  show ?thesis
    using assms Some r f
    by (auto simp: rfbProcessClientInitMessage_def Let_def split_beta in_update_client
        split: if_splits dest!: m)
qed

context password_check
begin

lemma serve_cases:
  assumes "sec_ok (sec srv) xs" and "set xs \<subseteq> static_handlers" and "serves_session normal"
    and "passwordCheck (screen srv) = check"
    and "rfbProcessClientMessage app normal srv i cl = Some srv'"
  obtains (init) "client_state cl = RFB_INITIALISATION" "srv' = rfbProcessClientInitMessage srv i cl"
  | (other) cl' s' ys where "srv' = set_client srv i (s', cl')" "sec_ok s' ys" "set ys \<subseteq> static_handlers"
      "client_state cl' = client_state cl \<or> client_state cl' \<noteq> RFB_NORMAL"
      "reverseConnection cl' = reverseConnection cl" "sock cl' \<in> {sock cl, -1}"
      "has_authPasswdData (screen srv) \<and> \<not> reverseConnection cl \<and> set xs \<subseteq> {VncSecurityHandlerVncAuth} \<Longrightarrow>
         set ys \<subseteq> {VncSecurityHandlerVncAuth} \<and>
         (client_state cl' = client_state cl \<or> client_state cl' \<in> {RFB_SECURITY_TYPE, RFB_AUTHENTICATION} \<or>
          password_accepted (screen srv) cl)"
proof (cases "client_state cl")
  case RFB_PROTOCOL_VERSION
  from protocol_version_fields[OF assms(1), of "screen srv" cl] obtain s' cl' ys where
    "rfbProcessClientProtocolVersion (screen srv) (sec srv) cl = Some (s', cl')" "sec_ok s' ys"
    "set ys \<subseteq> set xs \<union> {VncSecurityHandlerVncAuth, VncSecurityHandlerNone}"
    "has_authPasswdData (screen srv) \<and> \<not> reverseConnection cl \<longrightarrow>
       set ys \<subseteq> insert VncSecurityHandlerVncAuth (set xs) \<and>
       client_state cl' \<in> {client_state cl, RFB_SECURITY_TYPE, RFB_AUTHENTICATION}"
    "client_state cl' = client_state cl \<or> client_state cl' \<noteq> RFB_NORMAL"
    "reverseConnection cl' = reverseConnection cl" "sock cl' \<in> {sock cl, -1}" by blast
  with RFB_PROTOCOL_VERSION assms show ?thesis
    by (intro other[of s' cl' ys]) (auto simp: rfbProcessClientMessage_def static_handlers_def)
next
  case RFB_SECURITY_TYPE
  from security_type_fields[OF assms(1), of app cl] assms(2) obtain cl' where
    "rfbProcessClientSecurityType app (sec srv) cl = Some cl'"
    "client_state cl' \<in> {client_state cl, RFB_AUTHENTICATION, RFB_INITIALISATION}"
    "VncSecurityHandlerNone \<notin> set xs \<longrightarrow> client_state cl' \<in> {client_state cl, RFB_AUTHENTICATION}"
    "reverseConnection cl' = reverseConnection cl" "sock cl' \<in> {sock cl, -1}"
    unfolding static_handlers_def by blast
  with RFB_SECURITY_TYPE assms show ?thesis
    by (intro other[of "sec srv" cl' xs]) (auto simp: rfbProcessClientMessage_def)
next
  case RFB_AUTHENTICATION
  note f = auth_message_fields[OF assms(4) RFB_AUTHENTICATION]
  from RFB_AUTHENTICATION assms(1,2,5) f show ?thesis
    by (intro other[of "sec srv" "rfbAuthProcessClientMessage (screen srv) cl" xs])
      (auto simp: rfbProcessClientMessage_def)
next
  case RFB_INITIALISATION
  then show ?thesis using assms(5) by (intro init) (simp_all add: rfbProcessClientMessage_def)
next
  case RFB_NORMAL
  then show ?thesis
    using assms by (intro other[of "sec srv" "normal cl" xs])
      (auto simp: rfbProcessClientMessage_def serves_session_def)
qed


text \<open>The state of every client of a server that asks for a password.\<close>

lemma authenticated_run:
  assumes "server_run app normal srv0 srv es" and "serves_session normal"
    and "passwordCheck (screen srv0) = check" and "has_authPasswdData (screen srv0)"
    and "clients srv0 = []" and "sec_ok (sec srv0) xs0" and "set xs0 \<subseteq> {VncSecurityHandlerVncAuth}"
    and "\<forall>i. ReverseConnected i \<notin> set es"
  shows "screen srv = screen srv0 \<and>
    (\<exists>xs. sec_ok (sec srv) xs \<and> set xs \<subseteq> {VncSecurityHandlerVncAuth}) \<and>
    (\<forall>(i, c)\<in>set (clients srv). \<not> reverseConnection c \<and>
       (client_state c \<in> {RFB_INITIALISATION, RFB_NORMAL} \<longrightarrow> PasswordOK i \<in> set es))"
  using assms(1,8)
proof (induction rule: server_run.induct)
  case start
  then show ?case using assms(5-7) by auto
next
  case (connect srv es i fd can_write)
  then show ?case by (auto simp: rfbNewClient_def Let_def split_beta)
next
  case (reverse srv es i fd can_write)
  then show ?case by auto
next
  case (network srv es i cl rs can_write bs)
  then have "\<And>j c. (j, c) \<in> set (clients srv) \<Longrightarrow> \<not> reverseConnection c \<and>
      (client_state c \<in> {RFB_INITIALISATION, RFB_NORMAL} \<longrightarrow> PasswordOK j \<in> set es)"
    by blast
  then have "\<not> reverseConnection c \<and> (client_state c \<in> {RFB_INITIALISATION, RFB_NORMAL} \<longrightarrow> PasswordOK j \<in> set es)"
    if "(j, c) \<in> set (update_client i (cl\<lparr>inbuf := inbuf cl @ bs, write_ok := can_write, rands := rs\<rparr>) (clients srv))"
    for j c using that network.hyps(2) by (auto simp: in_update_client)
  then show ?case using network by auto
next
  case (serve srv es i cl srv')
  have "\<forall>i. ReverseConnected i \<notin> set es" using serve.prems by (auto split: if_splits)
  then obtain xs where IH: "screen srv = screen srv0" "sec_ok (sec srv) xs" "set xs \<subseteq> {VncSecurityHandlerVncAuth}"
    "\<And>j c. (j, c) \<in> set (clients srv) \<Longrightarrow> \<not> reverseConnection c \<and>
       (client_state c \<in> {RFB_INITIALISATION, RFB_NORMAL} \<longrightarrow> PasswordOK j \<in> set es)"
    using serve.IH by blast
  have xs: "set xs \<subseteq> static_handlers" using IH(3) by (auto simp: static_handlers_def)
  have check: "passwordCheck (screen srv) = check" using assms(3) IH(1) by simp
  let ?es = "if password_accepted (screen srv) cl then PasswordOK i # es else es"
  show ?case
  proof (rule serve_cases[OF IH(2) xs assms(2) check serve.hyps(4)])
    assume init: "client_state cl = RFB_INITIALISATION" "srv' = rfbProcessClientInitMessage srv i cl"
    have *: "\<not> reverseConnection c \<and> (client_state c \<in> {RFB_INITIALISATION, RFB_NORMAL} \<longrightarrow> PasswordOK j \<in> set ?es)"
      if "(j, c) \<in> set (clients srv')" for j c
      using init_message_clients[OF that[unfolded init(2)]] IH(4)[of j] IH(4)[OF serve.hyps(2)] init(1)
      by (auto split: if_splits)
    have "\<forall>(j, c)\<in>set (clients srv'). \<not> reverseConnection c \<and>
        (client_state c \<in> {RFB_INITIALISATION, RFB_NORMAL} \<longrightarrow> PasswordOK j \<in> set ?es)"
    proof
      fix jc assume "jc \<in> set (clients srv')"
      then show "case jc of (j, c) \<Rightarrow> \<not> reverseConnection c \<and>
          (client_state c \<in> {RFB_INITIALISATION, RFB_NORMAL} \<longrightarrow> PasswordOK j \<in> set ?es)"
        using *[of "fst jc" "snd jc"] by (simp add: split_beta)
    qed
    moreover have "screen srv' = screen srv0" "sec srv' = sec srv"
      using init(2) IH(1) by (simp_all add: init_message_server)
    ultimately show ?thesis using IH(2,3) by (intro conjI exI[of _ xs]) simp_all
  next
    fix cl' s' ys
    assume new: "srv' = set_client srv i (s', cl')" "sec_ok s' ys"
      "client_state cl' = client_state cl \<or> client_state cl' \<noteq> RFB_NORMAL"
      "reverseConnection cl' = reverseConnection cl"
      "has_authPasswdData (screen srv) \<and> \<not> reverseConnection cl \<and> set xs \<subseteq> {VncSecurityHandlerVncAuth} \<Longrightarrow>
         set ys \<subseteq> {VncSecurityHandlerVncAuth} \<and>
         (client_state cl' = client_state cl \<or> client_state cl' \<in> {RFB_SECURITY_TYPE, RFB_AUTHENTICATION} \<or>
          password_accepted (screen srv) cl)"
    have "set ys \<subseteq> {VncSecurityHandlerVncAuth}"
      "client_state cl' = client_state cl \<or> client_state cl' \<in> {RFB_SECURITY_TYPE, RFB_AUTHENTICATION} \<or>
          password_accepted (screen srv) cl"
      using new(5) IH(1,3) IH(4)[OF serve.hyps(2)] assms(4) by simp_all
    then show ?thesis
      using new IH(1) IH(4)[OF serve.hyps(2)] IH(4)
      by (auto simp: set_client_def in_update_client)
  qed
next
  case (gone srv es i cl)
  then show ?case by auto
qed

end

section \<open>Exclusive sessions\<close>

definition open_session :: "rfbClientRec \<Rightarrow> bool" where
  "open_session c \<longleftrightarrow> client_state c = RFB_NORMAL \<and> 0 \<le> sock c"

definition one_session :: "(nat \<times> rfbClientRec) list \<Rightarrow> bool" where
  "one_session cls \<longleftrightarrow>
     (\<forall>(i, c)\<in>set cls. \<forall>(j, d)\<in>set cls. open_session c \<and> open_session d \<longrightarrow> i = j)"

lemma one_sessionD:
  "one_session cls \<Longrightarrow> (i, c) \<in> set cls \<Longrightarrow> (j, d) \<in> set cls \<Longrightarrow> open_session c \<Longrightarrow> open_session d \<Longrightarrow> i = j"
  by (auto simp: one_session_def)

lemma one_session_update:
  assumes "one_session cls" and "(i, c) \<in> set cls" and "open_session cl \<Longrightarrow> open_session c"
  shows "one_session (update_client i cl cls)"
  using assms unfolding one_session_def by (simp add: in_update_client Ball_def) blast

lemma one_session_Cons: "\<not> open_session c \<Longrightarrow> one_session ((i, c) # cls) = one_session cls"
  by (auto simp: one_session_def)

lemma init_message_one_session:
  assumes "one_session (clients srv)" and "(i, cl) \<in> set (clients srv)"
    and "neverShared (screen srv)" and "\<not> reverseConnection cl"
  shows "one_session (clients (rfbProcessClientInitMessage srv i cl))"
proof -
  have closed: "one_session (update_client i (rfbCloseClient c) cls)" if "one_session cls" for c cls
    using that unfolding one_session_def open_session_def by (simp add: in_update_client Ball_def) blast
  show ?thesis
  proof (cases "rfbReadExact cl sz_rfbClientInitMsg")
    case None
    then show ?thesis using closed[OF assms(1)] by (simp add: rfbProcessClientInitMessage_def)
  next
    case (Some r)
    obtain buf cl1 where r: "r = (buf, cl1)" by fastforce
    then have f: "\<not> reverseConnection cl1" using Some read_fields assms(4) by blast
    obtain ok cl2 where w: "rfbWriteExact cl1 (serverInit_bytes (screen srv)) = (ok, cl2)" by fastforce
    then have f2: "\<not> reverseConnection cl2" using f write_fields(2)[of cl1] by (metis snd_conv)
    define cls where "cls = update_client i (cl2\<lparr>client_state := RFB_NORMAL\<rparr>) (clients srv)"
    have none: "one_session cls" if none: "\<not> (\<exists>jc\<in>set cls. other_session i jc)"
    proof -
      have "j = i" if "(j, c) \<in> set cls" "open_session c" for j c
        using that none by (force simp: other_session_def open_session_def)
      then show ?thesis by (auto simp: one_session_def)
    qed
    have "one_session (update_client i (rfbCloseClient (cl2\<lparr>client_state := RFB_NORMAL\<rparr>)) cls)"
      using closed[OF assms(1), of "cl2\<lparr>client_state := RFB_NORMAL\<rparr>"]
      by (simp add: cls_def update_client_twice)
    moreover have "one_session (map (\<lambda>jc. if other_session i jc then (fst jc, rfbCloseClient (snd jc)) else jc) cls)"
      unfolding one_session_def open_session_def by (auto simp: other_session_def split: if_splits)
    moreover have "one_session (update_client i (rfbCloseClient cl2) (clients srv))"
      by (rule closed[OF assms(1)])
    ultimately show ?thesis
      using Some r w f2 assms(3) none
      by (simp add: rfbProcessClientInitMessage_def Let_def cls_def)
  qed
qed

context password_check
begin

lemma one_session_run:
  assumes "server_run app normal srv0 srv es" and "serves_session normal"
    and "passwordCheck (screen srv0) = check" and "neverShared (screen srv0)"
    and "clients srv0 = []" and "sec_ok (sec srv0) xs0" and "set xs0 \<subseteq> static_handlers"
    and "\<forall>i. ReverseConnected i \<notin> set es"
  shows "screen srv = screen srv0 \<and> (\<exists>xs. sec_ok (sec srv) xs \<and> set xs \<subseteq> static_handlers) \<and>
    (\<forall>(i, c)\<in>set (clients srv). \<not> reverseConnection c) \<and> one_session (clients srv)"
  using assms(1,8)
proof (induction rule: server_run.induct)
  case start
  then show ?case using assms(5-7) by (auto simp: one_session_def)
next
  case (connect srv es i fd can_write)
  then have IH: "one_session (clients srv)" "\<And>j c. (j, c) \<in> set (clients srv) \<Longrightarrow> \<not> reverseConnection c" by auto
  have "\<not> open_session (snd (rfbWriteExact c b)\<lparr>reverseConnection := False\<rparr>)"
    if "client_state c = RFB_PROTOCOL_VERSION" for c b
    using that by (simp add: open_session_def)
  then have "one_session (clients (rfbNewClient srv i fd can_write False))"
    using IH(1) by (simp add: rfbNewClient_def Let_def split_beta one_session_Cons)
  then show ?case using connect by (auto simp: rfbNewClient_def Let_def split_beta)
next
  case (reverse srv es i fd can_write)
  then show ?case by auto
next
  case (network srv es i cl rs can_write bs)
  let ?cls = "update_client i (cl\<lparr>inbuf := inbuf cl @ bs, write_ok := can_write, rands := rs\<rparr>) (clients srv)"
  have IH: "one_session (clients srv)" "\<And>j c. (j, c) \<in> set (clients srv) \<Longrightarrow> \<not> reverseConnection c"
    using network by auto
  have "\<not> reverseConnection c" if "(j, c) \<in> set ?cls" for j c
    using that IH(2) network.hyps(2) by (auto simp: in_update_client)
  moreover have "one_session ?cls"
    by (rule one_session_update[OF IH(1) network.hyps(2)]) (simp add: open_session_def)
  ultimately show ?case using network by auto
next
  case (serve srv es i cl srv')
  have "\<forall>i. ReverseConnected i \<notin> set es" using serve.prems by (auto split: if_splits)
  then obtain xs where IH: "screen srv = screen srv0" "sec_ok (sec srv) xs" "set xs \<subseteq> static_handlers"
    "\<And>j c. (j, c) \<in> set (clients srv) \<Longrightarrow> \<not> reverseConnection c" "one_session (clients srv)"
    using serve.IH by blast
  have check: "passwordCheck (screen srv) = check" using assms(3) IH(1) by simp
  show ?case
  proof (rule serve_cases[OF IH(2,3) assms(2) check serve.hyps(4)])
    assume init: "client_state cl = RFB_INITIALISATION" "srv' = rfbProcessClientInitMessage srv i cl"
    have "\<not> reverseConnection c" if "(j, c) \<in> set (clients srv')" for j c
      using init_message_clients[OF that[unfolded init(2)]] IH(4)[of j] IH(4)[OF serve.hyps(2)]
      by (auto split: if_splits)
    moreover have "one_session (clients srv')"
      unfolding init(2)
      using IH(4)[OF serve.hyps(2)] IH(1) assms(4)
      by (intro init_message_one_session[OF IH(5) serve.hyps(2)]) simp_all
    ultimately show ?thesis using init IH(1,2,3) by (auto simp: init_message_server)
  next
    fix cl' s' ys
    assume new: "srv' = set_client srv i (s', cl')" "sec_ok s' ys" "set ys \<subseteq> static_handlers"
      "client_state cl' = client_state cl \<or> client_state cl' \<noteq> RFB_NORMAL"
      "reverseConnection cl' = reverseConnection cl" "sock cl' \<in> {sock cl, -1}"
    have "one_session (update_client i cl' (clients srv))"
      using new(4,6) by (intro one_session_update[OF IH(5) serve.hyps(2)]) (auto simp: open_session_def)
    moreover have "\<not> reverseConnection c" if "(j, c) \<in> set (update_client i cl' (clients srv))" for j c
      using that IH(4)[of j] IH(4)[OF serve.hyps(2)] new(5) by (auto simp: in_update_client)
    ultimately show ?thesis
      using new(1-3) IH(1) by (auto simp: set_client_def)
  qed
next
  case (gone srv es i cl)
  then show ?case by (auto simp: one_session_def)
qed

end

section \<open>Every message is served\<close>

context password_check
begin

lemma serve_total:
  assumes "sec_ok (sec srv) xs" and "set xs \<subseteq> static_handlers"
  shows "\<exists>srv'. rfbProcessClientMessage app normal srv i cl = Some srv'"
proof -
  obtain a where "rfbProcessClientProtocolVersion (screen srv) (sec srv) cl = Some a"
    using protocol_version_fields[OF assms(1), of "screen srv" cl] by blast
  moreover obtain b where "rfbProcessClientSecurityType app (sec srv) cl = Some b"
    using security_type_fields[OF assms(1) assms(2)[unfolded static_handlers_def], of app cl] by blast
  ultimately show ?thesis by (cases "client_state cl") (simp_all add: rfbProcessClientMessage_def)
qed

lemma handlers_run:
  assumes "server_run app normal srv0 srv es" and "serves_session normal"
    and "passwordCheck (screen srv0) = check"
    and "sec_ok (sec srv0) xs0" and "set xs0 \<subseteq> static_handlers"
  shows "screen srv = screen srv0 \<and> (\<exists>xs. sec_ok (sec srv) xs \<and> set xs \<subseteq> static_handlers)"
  using assms(1)
proof (induction rule: server_run.induct)
  case start
  then show ?case using assms(4,5) by auto
next
  case (serve srv es i cl srv')
  then obtain xs where IH: "screen srv = screen srv0" "sec_ok (sec srv) xs" "set xs \<subseteq> static_handlers"
    by blast
  have check: "passwordCheck (screen srv) = check" using assms(3) IH(1) by simp
  show ?case
    by (rule serve_cases[OF IH(2,3) assms(2) check serve.hyps(4)])
      (use IH in \<open>auto simp: init_message_server set_client_def\<close>)
qed (auto simp: rfbNewClient_def Let_def split_beta)

end

section \<open>Properties\<close>

text \<open>The two checks the library brings, and a small server to try the properties on.\<close>

definition library_check :: "rfbScreenAuth \<Rightarrow> bool" where
  "library_check scr \<longleftrightarrow>
     (\<exists>fs fname. passwordCheck scr = rfbDefaultPasswordCheck fs fname) \<or>
     (\<exists>v ps. passwordCheck scr = rfbCheckPasswordByList v ps)"

definition demo_format :: rfbPixelFormat where
  "demo_format = \<lparr>bitsPerPixel = 16, depth = 16, bigEndian = False, trueColour = True,
     redMax = 31, greenMax = 63, blueMax = 31, redShift = 11, greenShift = 5, blueShift = 0\<rparr>"

definition demo_server :: rfbServer where
  "demo_server = \<lparr>sec = sec_list_init,
     screen = \<lparr>has_authPasswdData = True, passwordCheck = rfbCheckPasswordByList 1 [[97]],
       neverShared = True, alwaysShared = False, dontDisconnect = False, width = 320, height = 480,
       serverFormat = demo_format, desktopName = ascii ''phone'', screen_major = 3, screen_minor = 8\<rparr>,
     clients = []\<rparr>"

definition demo_client :: "int \<Rightarrow> client_state \<Rightarrow> uint8_t list \<Rightarrow> uint8_t list \<Rightarrow> uint8_t list \<Rightarrow> rfbClientRec" where
  "demo_client minor st chal inb outb = \<lparr>sock = 5, client_state = st,
     protocolMajorVersion = 3, protocolMinorVersion = minor, reverseConnection = False, viewOnly = False,
     authChallenge = chal, inbuf = inb, outbuf = outb, write_ok = True, rands = []\<rparr>"

lemma demo_fields [simp]:
  "has_authPasswdData (screen demo_server)" "sec demo_server = sec_list_init" "clients demo_server = []"
  "neverShared (screen demo_server)" "library_check (screen demo_server)"
  by (auto simp: demo_server_def library_check_def)

lemma serves_session_id: "serves_session (\<lambda>cl. cl)"
  by (simp add: serves_session_def)

text \<open>The handshake of a 3.3 client that knows the password.\<close>

lemma demo_version: "scan_version (ascii ''RFB 003.003'' @ [10, 0]) = Some (3, 3, [10, 0])"
  by code_simp

text \<open>
  C4: On a server that asks for a password, a client gets to the initialisation or into a session only
  after the password check accepted its response, in every run without reverse connections and with
  any number of clients.
\<close>

theorem session_needs_password:
  assumes "server_run app normal srv0 srv es" and "serves_session normal"
    and "library_check (screen srv0)" and "has_authPasswdData (screen srv0)"
    and "clients srv0 = []" and "sec srv0 = sec_list_init"
    and "\<forall>j. ReverseConnected j \<notin> set es"
    and "(i, cl) \<in> set (clients srv)" and "client_state cl \<in> {RFB_INITIALISATION, RFB_NORMAL}"
  shows "PasswordOK i \<in> set es"
proof -
  have s: "sec_ok (sec srv0) []" "set [] \<subseteq> {VncSecurityHandlerVncAuth}"
    by (simp_all add: assms(6) sec_ok_init)
  from assms(3) show ?thesis
    unfolding library_check_def
  proof (elim disjE exE)
    fix fs fname assume "passwordCheck (screen srv0) = rfbDefaultPasswordCheck fs fname"
    from default_check.authenticated_run[OF assms(1,2) this assms(4,5) s assms(7)] assms(8,9)
    show ?thesis by auto
  next
    fix v ps assume "passwordCheck (screen srv0) = rfbCheckPasswordByList v ps"
    from list_check.authenticated_run[OF assms(1,2) this assms(4,5) s assms(7)] assms(8,9)
    show ?thesis by auto
  qed
qed

theorem session_needs_password_witness:
  "\<exists>srv cl chal out1 out2.
     server_run (\<lambda>_ c. c) (\<lambda>c. c) demo_server srv [PasswordOK 0, Connected 0] \<and>
     clients srv = [(0, cl)] \<and> cl = demo_client 3 RFB_INITIALISATION chal [] (out1 @ out2) \<and>
     PasswordOK 0 \<in> set [PasswordOK 0, Connected 0]"
proof -
  let ?scr = "screen demo_server" and ?run = "server_run (\<lambda>_ c. c) (\<lambda>c. c) demo_server"
  define upd where "upd c = demo_server\<lparr>clients := [(0, c)]\<rparr>" for c
  define z where "z = replicate 16 (0 :: nat)"
  define hello where "hello = ascii ''RFB 003.003'' @ [10]"
  define chal where "chal = rfbRandomBytes z"
  define resp where "resp = rfbEncryptBytes chal [97]"
  define c0 where "c0 = (demo_client 0 RFB_PROTOCOL_VERSION (replicate 16 0) [] (banner ?scr))\<lparr>protocolMajorVersion := 0\<rparr>"
  define c1 where "c1 = c0\<lparr>inbuf := hello, rands := z\<rparr>"
  define out1 where "out1 = banner ?scr @ wire32 (word_of_int 2) @ chal"
  define c2 where "c2 = demo_client 3 RFB_AUTHENTICATION chal [] out1"
  define c3 where "c3 = demo_client 3 RFB_AUTHENTICATION chal resp out1"
  define c4 where "c4 = demo_client 3 RFB_INITIALISATION chal [] (out1 @ wire32 rfbVncAuthOK)"
  have len: "length chal = 16" "length resp = 16" "length hello = 12"
    by (simp_all add: chal_def resp_def rfbRandomBytes_def CHALLENGESIZE_def length_rfbEncryptBytes hello_def ascii_def)
  have up: "update_client 0 d [(0, c)] = [(0, d)]" for c d by (simp add: update_client_def)
  have r0: "?run (rfbNewClient demo_server 0 5 True False) [Connected 0]"
    using server_run.connect[OF server_run.start, of 0 5] by simp
  have "rfbNewClient demo_server 0 5 True False = upd c0"
    by (simp add: rfbNewClient_def rfbWriteExact_def upd_def c0_def demo_client_def CHALLENGESIZE_def)
  with r0 have "?run (upd c0) [Connected 0]" by simp
  from server_run.network[OF this, of 0 c0 z True hello]
  have r1: "?run (upd c1) [Connected 0]" by (simp add: upd_def up c1_def c0_def demo_client_def)
  have "rfbReadExact c1 12 = Some (hello, c0\<lparr>rands := z\<rparr>)"
    by (simp add: rfbReadExact_def c1_def c0_def demo_client_def len)
  moreover have "scan_version (hello @ [0]) = Some (3, 3, [10, 0])"
    using demo_version by (simp add: hello_def)
  moreover have "rfbAuthNewClient ?scr sec_list_init
      (c0\<lparr>rands := z, protocolMajorVersion := 3, protocolMinorVersion := 3\<rparr>) = Some (sec_list_init, c2)"
    by (simp add: rfbAuthNewClient_def rfbSendSecurityType_def rfbVncAuthSendChallenge_def rfbWriteExact_def
        c0_def demo_client_def c2_def out1_def rfbSecTypeNone_def rfbSecTypeVncAuth_def rfbSecTypeInvalid_def
        chal_def z_def CHALLENGESIZE_def)
  ultimately have "rfbProcessClientProtocolVersion ?scr sec_list_init c1 = Some (sec_list_init, c2)"
    by (simp add: rfbProcessClientProtocolVersion_def sz_rfbProtocolVersionMsg_def rfbProtocolMajorVersion_def)
  then have "rfbProcessClientMessage (\<lambda>_ c. c) (\<lambda>c. c) (upd c1) 0 c1 = Some (upd c2)"
    by (simp add: rfbProcessClientMessage_def c1_def c0_def demo_client_def upd_def set_client_def up)
  from server_run.serve[OF r1 _ _ this] have r2: "?run (upd c2) [Connected 0]"
    by (simp add: upd_def c1_def c0_def demo_client_def password_accepted_def)
  from server_run.network[OF r2, of 0 c2 "[]" True resp] have r3: "?run (upd c3) [Connected 0]"
    by (simp add: upd_def up c2_def c3_def demo_client_def)
  have read: "rfbReadExact c3 16 = Some (resp, c2)"
    by (simp add: rfbReadExact_def c3_def c2_def demo_client_def len)
  have check: "passwordCheck ?scr c2 resp 16 = (True, c2)"
    by (simp add: demo_server_def rfbCheckPasswordByList_def c2_def demo_client_def memcmp_eq_def
        CHALLENGESIZE_def len resp_def)
  have am: "rfbAuthProcessClientMessage ?scr c3 = c4"
    by (simp add: rfbAuthProcessClientMessage_def CHALLENGESIZE_def read check)
      (simp add: c2_def c4_def demo_client_def rfbWriteExact_def)
  have "rfbProcessClientMessage (\<lambda>_ c. c) (\<lambda>c. c) (upd c3) 0 c3 = Some (upd c4)"
    using am by (simp add: rfbProcessClientMessage_def c3_def demo_client_def set_client_def up upd_def demo_server_def)
  from server_run.serve[OF r3 _ _ this] have "?run (upd c4) [PasswordOK 0, Connected 0]"
    by (simp add: upd_def password_accepted_def CHALLENGESIZE_def read check)
      (simp add: c3_def demo_client_def)
  moreover from session_needs_password[OF this serves_session_id, of 0 c4]
  have "PasswordOK 0 \<in> set [PasswordOK 0, Connected 0]"
    by (simp add: upd_def c4_def demo_client_def)
  ultimately show ?thesis
    by (intro exI[of _ "upd c4"] exI[of _ c4] exI[of _ chal] exI[of _ out1] exI[of _ "wire32 rfbVncAuthOK"])
      (simp add: upd_def c4_def)
qed

text \<open>
  C25: A server that never shares and makes no reverse connections has at most one open session at any
  time, whether it turns new clients away or closes the sessions that are open. (A client the server
  itself connects to is let in without this check.)
\<close>

theorem never_shared_one_session:
  assumes "server_run app normal srv0 srv es" and "serves_session normal"
    and "library_check (screen srv0)" and "neverShared (screen srv0)"
    and "clients srv0 = []" and "sec srv0 = sec_list_init"
    and "\<forall>j. ReverseConnected j \<notin> set es"
  shows "one_session (clients srv)"
proof -
  have s: "sec_ok (sec srv0) []" "set [] \<subseteq> static_handlers"
    by (simp_all add: assms(6) sec_ok_init)
  from assms(3) show ?thesis
    unfolding library_check_def
  proof (elim disjE exE)
    fix fs fname assume "passwordCheck (screen srv0) = rfbDefaultPasswordCheck fs fname"
    from default_check.one_session_run[OF assms(1,2) this assms(4,5) s assms(7)] show ?thesis by blast
  next
    fix v ps assume "passwordCheck (screen srv0) = rfbCheckPasswordByList v ps"
    from list_check.one_session_run[OF assms(1,2) this assms(4,5) s assms(7)] show ?thesis by blast
  qed
qed

text \<open>A server without a password that never shares, and a 3.3 client that gets its session there.\<close>

definition open_server :: rfbServer where
  "open_server = demo_server\<lparr>screen := (screen demo_server)\<lparr>has_authPasswdData := False\<rparr>\<rparr>"

lemma open_fields [simp]:
  "\<not> has_authPasswdData (screen open_server)" "sec open_server = sec_list_init" "clients open_server = []"
  "neverShared (screen open_server)" "\<not> dontDisconnect (screen open_server)" "library_check (screen open_server)"
  by (auto simp: open_server_def library_check_def demo_server_def)

definition open_output :: "uint8_t list" where
  "open_output = (banner (screen open_server) @ wire32 (word_of_int rfbSecTypeNone)) @ serverInit_bytes (screen open_server)"

abbreviation opened :: rfbClientRec where
  "opened \<equiv> demo_client 3 RFB_NORMAL (replicate 16 0) [] open_output"

abbreviation close_others :: "nat \<Rightarrow> (nat \<times> rfbClientRec) list \<Rightarrow> (nat \<times> rfbClientRec) list" where
  "close_others i \<equiv> map (\<lambda>jc. if other_session i jc then (fst jc, rfbCloseClient (snd jc)) else jc)"

lemma open_run:
  assumes run: "server_run app normal open_server (open_server\<lparr>clients := cls\<rparr>) es"
    and new: "Connected i \<notin> set es" "ReverseConnected i \<notin> set es" "i \<notin> fst ` set cls"
  shows "server_run app normal open_server (open_server\<lparr>clients := (i, opened) # close_others i cls\<rparr>) (Connected i # es)"
proof -
  let ?scr = "screen open_server" and ?run = "server_run app normal open_server"
  define upd where "upd c = open_server\<lparr>clients := (i, c) # cls\<rparr>" for c
  define hello where "hello = ascii ''RFB 003.003'' @ [10]"
  define c0 where "c0 = (demo_client 0 RFB_PROTOCOL_VERSION (replicate 16 0) [] (banner ?scr))\<lparr>protocolMajorVersion := 0\<rparr>"
  define c1 where "c1 = c0\<lparr>inbuf := hello\<rparr>"
  define out2 where "out2 = banner ?scr @ wire32 (word_of_int rfbSecTypeNone)"
  define c2 where "c2 = demo_client 3 RFB_INITIALISATION (replicate 16 0) [] out2"
  define c3 where "c3 = demo_client 3 RFB_INITIALISATION (replicate 16 0) [0] out2"
  have others: "update_client i d cls = cls" for d
    using new(3) by (force simp: update_client_def intro: map_idI)
  have up: "update_client i d ((i, c) # cls) = (i, d) # cls" for c d
    using others[of d] by (simp add: update_client_def)
  have r0: "?run (rfbNewClient (open_server\<lparr>clients := cls\<rparr>) i 5 True False) (Connected i # es)"
    by (rule server_run.connect[OF run new(1,2)]) simp
  have "rfbNewClient (open_server\<lparr>clients := cls\<rparr>) i 5 True False = upd c0"
    by (simp add: rfbNewClient_def rfbWriteExact_def upd_def c0_def demo_client_def CHALLENGESIZE_def)
  with r0 have "?run (upd c0) (Connected i # es)" by simp
  from server_run.network[OF this, of i c0 "[]" True hello]
  have r1: "?run (upd c1) (Connected i # es)" by (simp add: upd_def up c1_def c0_def demo_client_def)
  have "rfbReadExact c1 12 = Some (hello, c0)"
    by (simp add: rfbReadExact_def c1_def c0_def demo_client_def hello_def ascii_def)
  moreover have "scan_version (hello @ [0]) = Some (3, 3, [10, 0])"
    using demo_version by (simp add: hello_def)
  moreover have "rfbAuthNewClient ?scr sec_list_init
      (c0\<lparr>protocolMajorVersion := 3, protocolMinorVersion := 3\<rparr>) = Some (sec_list_init, c2)"
    by (simp add: rfbAuthNewClient_def rfbSendSecurityType_def rfbWriteExact_def
        c0_def demo_client_def c2_def out2_def rfbSecTypeNone_def rfbSecTypeInvalid_def)
  ultimately have "rfbProcessClientProtocolVersion ?scr sec_list_init c1 = Some (sec_list_init, c2)"
    by (simp add: rfbProcessClientProtocolVersion_def sz_rfbProtocolVersionMsg_def rfbProtocolMajorVersion_def)
  then have "rfbProcessClientMessage app normal (upd c1) i c1 = Some (upd c2)"
    by (simp add: rfbProcessClientMessage_def c1_def c0_def demo_client_def upd_def set_client_def up)
  from server_run.serve[OF r1 _ _ this] have r2: "?run (upd c2) (Connected i # es)"
    by (simp add: upd_def c1_def c0_def demo_client_def password_accepted_def)
  from server_run.network[OF r2, of i c2 "[]" True "[0]"] have r3: "?run (upd c3) (Connected i # es)"
    by (simp add: upd_def up c2_def c3_def demo_client_def)
  have "rfbProcessClientInitMessage (upd c3) i c3 = open_server\<lparr>clients := (i, opened) # close_others i cls\<rparr>"
    by (simp add: rfbProcessClientInitMessage_def rfbReadExact_def rfbWriteExact_def sz_rfbClientInitMsg_def
        c3_def out2_def open_output_def demo_client_def upd_def up other_session_def Let_def)
  then have "rfbProcessClientMessage app normal (upd c3) i c3 = Some (open_server\<lparr>clients := (i, opened) # close_others i cls\<rparr>)"
    by (simp add: rfbProcessClientMessage_def c3_def demo_client_def)
  from server_run.serve[OF r3 _ _ this] show ?thesis
    by (simp add: upd_def c3_def demo_client_def password_accepted_def)
qed

text \<open>Two clients get a session there, one after the other: the second session ends the first.\<close>

theorem never_shared_one_session_witness:
  "\<exists>c. server_run (\<lambda>_ c. c) (\<lambda>c. c) open_server (open_server\<lparr>clients := [(1, opened), (0, c)]\<rparr>) [Connected 1, Connected 0] \<and>
     client_state c = RFB_NORMAL \<and> open_session opened \<and> \<not> open_session c \<and> one_session [(1, opened), (0, c)] \<and>
     \<not> one_session [(1, opened), (0, opened)]"
proof -
  let ?run = "server_run (\<lambda>_ c. c) (\<lambda>c. c) open_server"
  have "open_server\<lparr>clients := []\<rparr> = open_server" by (simp add: open_server_def demo_server_def)
  then have "?run (open_server\<lparr>clients := []\<rparr>) []" using server_run.start by metis
  from open_run[OF this, of 0] have "?run (open_server\<lparr>clients := [(0, opened)]\<rparr>) [Connected 0]" by simp
  from open_run[OF this, of 1]
  have r: "?run (open_server\<lparr>clients := [(1, opened), (0, rfbCloseClient opened)]\<rparr>) [Connected 1, Connected 0]"
    by (simp add: other_session_def demo_client_def)
  from never_shared_one_session[OF this serves_session_id]
  have one: "one_session [(1, opened), (0, rfbCloseClient opened)]" by simp
  have o: "open_session opened" by (simp add: open_session_def demo_client_def)
  then have "\<not> one_session [(1, opened), (0, opened)]" by (auto simp: one_session_def)
  then show ?thesis using r one o
    by (intro exI[of _ "rfbCloseClient opened"]) (simp add: open_session_def demo_client_def)
qed

text \<open>
  C26: In every run, reverse connections included, every message of every client is served: the
  walks over the linked list of security handlers always end.
\<close>

theorem handshake_always_served:
  assumes "server_run app normal srv0 srv es" and "serves_session normal"
    and "library_check (screen srv0)" and "sec srv0 = sec_list_init"
  shows "\<exists>srv'. rfbProcessClientMessage app normal srv i cl = Some srv'"
proof -
  have s: "sec_ok (sec srv0) []" "set [] \<subseteq> static_handlers"
    by (simp_all add: assms(4) sec_ok_init)
  from assms(3) have "\<exists>xs. sec_ok (sec srv) xs \<and> set xs \<subseteq> static_handlers"
    unfolding library_check_def
  proof (elim disjE exE)
    fix fs fname assume "passwordCheck (screen srv0) = rfbDefaultPasswordCheck fs fname"
    from default_check.handlers_run[OF assms(1,2) this s] show ?thesis by blast
  next
    fix v ps assume "passwordCheck (screen srv0) = rfbCheckPasswordByList v ps"
    from list_check.handlers_run[OF assms(1,2) this s] show ?thesis by blast
  qed
  then show ?thesis using default_check.serve_total by blast
qed

theorem handshake_always_served_witness:
  "\<exists>srv'. rfbProcessClientMessage (\<lambda>_ c. c) (\<lambda>c. c) demo_server 0
     (demo_client 8 RFB_SECURITY_TYPE [] [2] []) = Some srv'"
  using handshake_always_served[OF server_run.start serves_session_id, of demo_server] by simp

text \<open>
  C27: The list of security handlers is shared by all clients and never shrinks, so once the
  server has dealt with a reverse connection of protocol 3.7 or later, any later client of that
  protocol may choose \<open>no authentication\<close> and gets in, though the screen has a password.
\<close>

theorem reverse_connection_opens_server:
  assumes "sec_ok s xs" and "set xs \<subseteq> static_handlers"
    and "has_authPasswdData scr" and "reverseConnection cl1" and "7 \<le> protocolMinorVersion cl1"
    and "rfbAuthNewClient scr s cl1 = Some (s1, cl1')"
    and "\<not> reverseConnection cl2" and "7 \<le> protocolMinorVersion cl2"
    and "rfbAuthNewClient scr s1 cl2 = Some (s2, cl2')"
    and "write_ok cl2" and "0 \<le> sock cl2" and "inbuf cl2 = 1 # rest"
  shows "\<exists>cl3. client_state cl2' = RFB_SECURITY_TYPE \<and>
    rfbProcessClientSecurityType app s2 cl2' = Some cl3 \<and> client_state cl3 = RFB_INITIALISATION"
proof -
  have t: "rfbSecTypeNone \<noteq> rfbSecTypeVncAuth" by (simp add: rfbSecTypeNone_def rfbSecTypeVncAuth_def)
  have "rfbSendSecurityTypeList s cl1 rfbSecTypeNone = Some (s1, cl1')"
    using assms(4-6) by (simp add: rfbAuthNewClient_def)
  moreover define ys where "ys = (if VncSecurityHandlerNone \<in> set xs then xs else VncSecurityHandlerNone # xs)"
  ultimately have s1: "sec_ok s1 ys" using send_list_fields[OF assms(1), of rfbSecTypeNone cl1] by (auto simp: Let_def)
  have ys: "set ys \<subseteq> static_handlers" "VncSecurityHandlerNone \<in> set ys"
    using assms(2) by (auto simp: ys_def static_handlers_def)
  have e2: "rfbSendSecurityTypeList s1 cl2 rfbSecTypeVncAuth = Some (s2, cl2')"
    using assms(3,7-9) by (simp add: rfbAuthNewClient_def)
  define zs where "zs = (if VncSecurityHandlerVncAuth \<in> set ys then ys else VncSecurityHandlerVncAuth # ys)"
  have s2: "sec_ok s2 zs" "registered s2 zs"
    using send_list_fields[OF s1, of rfbSecTypeVncAuth cl2] e2 t
    by (auto simp: Let_def zs_def sec_ok_def)
  have zs: "set zs \<subseteq> static_handlers" "VncSecurityHandlerNone \<in> set zs" "VncSecurityHandlerVncAuth \<in> set zs"
    using ys by (auto simp: zs_def static_handlers_def)
  obtain s' where "rfbRegisterSecurityHandler s1 (Some VncSecurityHandlerVncAuth) = Some s'"
    using sec_ok_register[OF s1] by blast
  moreover have "offered_types 254 (handler_next s2) (securityHandlers s2) \<noteq> []"
    using s2(2) zs(2) by (auto simp: registered_def offered_types_chain)
  ultimately have cl2': "client_state cl2' = RFB_SECURITY_TYPE" "inbuf cl2' = 1 # rest" "0 \<le> sock cl2'" "write_ok cl2'"
    using e2 t assms(10-12)
    by (auto simp: rfbSendSecurityTypeList_def Let_def rfbWriteExact_def MAX_SECURITY_TYPES_def split: if_splits)
  obtain h where h: "find (\<lambda>h. (1 :: uint8_t) = handler_type h) zs = Some h"
    using zs(2) by (cases "find (\<lambda>h. (1 :: uint8_t) = handler_type h) zs") (auto simp: find_None_iff)
  then have "h = VncSecurityHandlerNone"
    using zs(1) by (auto simp: find_Some_iff static_handlers_def dest!: nth_mem)
  moreover have "find_type (handler_next s2) (securityHandlers s2) 1 = Some (Some h)"
    using s2(2) h by (simp add: registered_def find_type_chain)
  ultimately show ?thesis
    using cl2' by (auto simp: rfbProcessClientSecurityType_def rfbReadExact_def rfbVncAuthNone_def
        rfbWriteExact_def)
qed

theorem reverse_connection_opens_server_witness:
  "\<exists>s1 c1 s2 c2 c3. has_authPasswdData (screen demo_server) \<and>
     rfbAuthNewClient (screen demo_server) sec_list_init
       ((demo_client 8 RFB_PROTOCOL_VERSION [] [] [])\<lparr>reverseConnection := True\<rparr>) = Some (s1, c1) \<and>
     rfbAuthNewClient (screen demo_server) s1 (demo_client 8 RFB_PROTOCOL_VERSION [] [1] []) = Some (s2, c2) \<and>
     rfbProcessClientSecurityType (\<lambda>_ c. c) s2 c2 = Some c3 \<and> client_state c3 = RFB_INITIALISATION"
proof -
  let ?c = "(demo_client 8 RFB_PROTOCOL_VERSION [] [] [])\<lparr>reverseConnection := True\<rparr>"
  let ?d = "demo_client 8 RFB_PROTOCOL_VERSION [] [1] []"
  obtain s1 c1 ys where a: "rfbAuthNewClient (screen demo_server) sec_list_init ?c = Some (s1, c1)" "sec_ok s1 ys"
    using auth_new_client_fields[OF sec_ok_init, of "screen demo_server" ?c] by blast
  obtain s2 c2 where b: "rfbAuthNewClient (screen demo_server) s1 ?d = Some (s2, c2)"
    using auth_new_client_fields[OF a(2), of "screen demo_server" ?d] by blast
  show ?thesis
    using reverse_connection_opens_server[OF sec_ok_init _ _ _ _ a(1) _ _ b, of "[]" "\<lambda>_ c. c"] a(1) b
    by (auto simp: demo_client_def)
qed

end
