(* ===== verification/Handshake.thy ===== *)
theory Handshake
  imports ClientProto AuthSafety
begin

text \<open>
  The two ends of the connection set-up together: \<open>InitialiseRFBConnection\<close> of the client against the
  handlers of the server.
\<close>

section \<open>The server\<close>

lemma read_step:
  "0 \<le> sock cl \<Longrightarrow> inbuf cl = bs @ rest \<Longrightarrow> length bs = n \<Longrightarrow> rfbReadExact cl n = Some (bs, cl\<lparr>inbuf := rest\<rparr>)"
  by (simp add: rfbReadExact_def)

lemma write_step: "write_ok cl \<Longrightarrow> 0 \<le> sock cl \<Longrightarrow> rfbWriteExact cl bs = (True, cl\<lparr>outbuf := outbuf cl @ bs\<rparr>)"
  by (simp add: rfbWriteExact_def)

text \<open>A version message as both ends write it, for the minor versions a server can have.\<close>

definition minor_ok :: "int \<Rightarrow> bool" where
  "minor_ok m \<longleftrightarrow> 3 \<le> m \<and> m \<le> 8"

lemma minor_cases: "minor_ok m \<Longrightarrow> m \<in> {3, 4, 5, 6, 7, 8}"
  by (auto simp: minor_ok_def)

lemma scan_version_msg:
  assumes "minor_ok m"
  shows "scan_version (version_msg 3 m @ [0]) = Some (3, m, [10, 0])"
proof -
  have "scan_version (version_msg 3 3 @ [0]) = Some (3, 3, [10, 0])" "scan_version (version_msg 3 4 @ [0]) = Some (3, 4, [10, 0])"
    "scan_version (version_msg 3 5 @ [0]) = Some (3, 5, [10, 0])" "scan_version (version_msg 3 6 @ [0]) = Some (3, 6, [10, 0])"
    "scan_version (version_msg 3 7 @ [0]) = Some (3, 7, [10, 0])" "scan_version (version_msg 3 8 @ [0]) = Some (3, 8, [10, 0])"
    by code_simp+
  then show ?thesis using minor_cases[OF assms] by auto
qed

lemma banner_version:
  assumes "minor_ok (screen_minor scr)" "screen_major scr = 3"
  shows "banner scr = version_msg 3 (screen_minor scr)"
  using minor_cases[OF assms(1)] assms(2) by (auto simp: banner_def version_msg_def fmt03_def Let_def)

lemma length_version_msg: "minor_ok m \<Longrightarrow> length (version_msg 3 m) = 12"
  by (simp add: version_msg_def fmt03_def Let_def ascii_def minor_ok_def)

text \<open>The client after the challenge has gone out.\<close>

definition challenged :: "uint8_t list \<Rightarrow> rfbClientRec \<Rightarrow> rfbClientRec" where
  "challenged pre cl =
     cl\<lparr>outbuf := outbuf cl @ pre @ rfbRandomBytes (rands cl), authChallenge := rfbRandomBytes (rands cl),
        rands := drop CHALLENGESIZE (rands cl), client_state := RFB_AUTHENTICATION\<rparr>"

lemma send_challenge:
  "write_ok cl \<Longrightarrow> 0 \<le> sock cl \<Longrightarrow> rfbVncAuthSendChallenge cl = challenged [] cl"
  by (simp add: rfbVncAuthSendChallenge_def write_step challenged_def Let_def)

definition versioned :: "int \<Rightarrow> uint8_t list \<Rightarrow> rfbClientRec \<Rightarrow> rfbClientRec" where
  "versioned m rest cl = cl\<lparr>inbuf := rest, protocolMajorVersion := 3, protocolMinorVersion := m\<rparr>"

lemma server_version_old:
  assumes "minor_ok m" "m < 7" "0 \<le> sock cl" "write_ok cl" "\<not> reverseConnection cl" "has_authPasswdData scr"
    and "inbuf cl = version_msg 3 m @ rest"
  shows "rfbProcessClientProtocolVersion scr s cl = Some (s, challenged (wire32 2) (versioned m rest cl))"
proof -
  have r: "rfbReadExact cl sz_rfbProtocolVersionMsg = Some (version_msg 3 m, cl\<lparr>inbuf := rest\<rparr>)"
    using assms(1,3,7) by (intro read_step) (simp_all add: length_version_msg sz_rfbProtocolVersionMsg_def)
  show ?thesis
    using assms
    by (simp add: rfbProcessClientProtocolVersion_def r scan_version_msg rfbProtocolMajorVersion_def rfbAuthNewClient_def Let_def
        rfbSendSecurityType_def write_step send_challenge rfbSecTypeVncAuth_def rfbSecTypeNone_def rfbSecTypeInvalid_def)
      (simp add: challenged_def versioned_def)
qed

definition offered :: "rfbClientRec \<Rightarrow> rfbClientRec" where
  "offered cl = cl\<lparr>outbuf := outbuf cl @ [1, 2], client_state := RFB_SECURITY_TYPE\<rparr>"

lemma register_VncAuth:
  assumes "sec_ok s xs" "set xs \<subseteq> {VncSecurityHandlerVncAuth}"
  obtains s' where "rfbRegisterSecurityHandler s (Some VncSecurityHandlerVncAuth) = Some s'" "registered s' [VncSecurityHandlerVncAuth]"
proof -
  obtain s' where s': "rfbRegisterSecurityHandler s (Some VncSecurityHandlerVncAuth) = Some s'"
    "sec_ok s' (if VncSecurityHandlerVncAuth \<in> set xs then xs else VncSecurityHandlerVncAuth # xs)"
    using sec_ok_register[OF assms(1)] by blast
  have "xs = [] \<or> xs = [VncSecurityHandlerVncAuth]"
  proof -
    have "distinct xs" using assms(1) chain_distinct by (auto simp: sec_ok_def registered_def)
    then show ?thesis using assms(2) by (cases xs; cases "tl xs") auto
  qed
  then have "registered s' [VncSecurityHandlerVncAuth]" using s'(2) by (auto simp: sec_ok_def)
  then show ?thesis using that s'(1) by blast
qed

lemma server_version_new:
  assumes "minor_ok m" "7 \<le> m" "0 \<le> sock cl" "write_ok cl" "\<not> reverseConnection cl" "has_authPasswdData scr"
    and "inbuf cl = version_msg 3 m @ rest" "sec_ok s xs" "set xs \<subseteq> {VncSecurityHandlerVncAuth}"
  shows "\<exists>s'. rfbProcessClientProtocolVersion scr s cl = Some (s', offered (versioned m rest cl)) \<and> registered s' [VncSecurityHandlerVncAuth]"
proof -
  have r: "rfbReadExact cl sz_rfbProtocolVersionMsg = Some (version_msg 3 m, cl\<lparr>inbuf := rest\<rparr>)"
    using assms(1,3,7) by (intro read_step) (simp_all add: length_version_msg sz_rfbProtocolVersionMsg_def)
  obtain s' where s': "rfbRegisterSecurityHandler s (Some VncSecurityHandlerVncAuth) = Some s'" "registered s' [VncSecurityHandlerVncAuth]"
    using register_VncAuth[OF assms(8,9)] by blast
  have o: "offered_types n (handler_next s') (securityHandlers s') = map handler_type (take n [VncSecurityHandlerVncAuth])" for n
    using s'(2) by (simp add: registered_def offered_types_chain)
  show ?thesis
    using assms(1-6) s'
    by (simp add: rfbProcessClientProtocolVersion_def r scan_version_msg rfbProtocolMajorVersion_def rfbAuthNewClient_def Let_def
        rfbSendSecurityTypeList_def o MAX_SECURITY_TYPES_def write_step rfbSecTypeVncAuth_def rfbSecTypeNone_def)
      (simp add: offered_def versioned_def)
qed

lemma server_type:
  assumes "0 \<le> sock cl" "write_ok cl" "inbuf cl = 2 # rest" "registered s [VncSecurityHandlerVncAuth]"
  shows "rfbProcessClientSecurityType app s cl = Some (challenged [] (cl\<lparr>inbuf := rest\<rparr>))"
proof -
  have "rfbReadExact cl 1 = Some ([2], cl\<lparr>inbuf := rest\<rparr>)" using assms(1,3) by (intro read_step) simp_all
  moreover have "find_type (handler_next s) (securityHandlers s) 2 = Some (Some VncSecurityHandlerVncAuth)"
    using find_type_chain[OF assms(4)[unfolded registered_def], of 2] by simp
  ultimately show ?thesis using assms by (simp add: rfbProcessClientSecurityType_def send_challenge)
qed

text \<open>The right response, for a password that begins with the same eight characters as the stored one.\<close>

lemma default_check_accepts:
  assumes "writable fname" "rfbEncryptAndStorePasswd writable fs0 stored fname = (rc, fs)"
    and "pad_password p = pad_password stored"
  shows "\<exists>ch. rfbDefaultPasswordCheck fs fname cl (rfbEncryptBytes (authChallenge cl) p) n = (True, cl\<lparr>authChallenge := ch\<rparr>)"
proof -
  have "rfbDecryptPasswdFromFile fs fname = Some (pad_password stored @ [0])"
    using assms(1,2) by (auto simp: rfbEncryptAndStorePasswd_def rfbDecryptPasswdFromFile_def Let_def des_cipher.dec_enc)
  moreover have "rfbEncryptBytes (authChallenge cl) (pad_password stored @ [0]) = rfbEncryptBytes (authChallenge cl) p"
    by (rule rfbEncryptBytes_pad) (simp add: assms(3))
  ultimately show ?thesis by (auto simp: rfbDefaultPasswordCheck_def memcmp_eq_def Let_def)
qed

lemma server_response:
  assumes "0 \<le> sock cl" "write_ok cl" "inbuf cl = resp @ rest" "length resp = 16"
    and "\<exists>ch. passwordCheck scr (cl\<lparr>inbuf := rest\<rparr>) resp 16 = (True, cl\<lparr>inbuf := rest, authChallenge := ch\<rparr>)"
  shows "\<exists>ch. rfbAuthProcessClientMessage scr cl =
    cl\<lparr>inbuf := rest, authChallenge := ch, outbuf := outbuf cl @ wire32 0, client_state := RFB_INITIALISATION\<rparr>"
proof -
  have "rfbReadExact cl CHALLENGESIZE = Some (resp, cl\<lparr>inbuf := rest\<rparr>)"
    using assms(1,3,4) by (intro read_step) (simp_all add: CHALLENGESIZE_def)
  then show ?thesis
    using assms by (auto simp: rfbAuthProcessClientMessage_def CHALLENGESIZE_def write_step rfbVncAuthOK_def)
qed

lemma server_init:
  assumes "0 \<le> sock cl" "write_ok cl" "inbuf cl = b # rest" "\<forall>jc\<in>set (clients srv). \<not> other_session i jc"
  shows "clients (rfbProcessClientInitMessage srv i cl) = update_client i
    (cl\<lparr>inbuf := rest, outbuf := outbuf cl @ serverInit_bytes (screen srv), client_state := RFB_NORMAL\<rparr>) (clients srv)"
proof -
  have r: "rfbReadExact cl sz_rfbClientInitMsg = Some ([b], cl\<lparr>inbuf := rest\<rparr>)"
    using assms(1,3) by (intro read_step) (simp_all add: sz_rfbClientInitMsg_def)
  have none: "\<not> other_session i jc" if "jc \<in> set (update_client i c (clients srv))" for jc c
    using that assms(4) by (auto simp: update_client_def other_session_def split: if_splits)
  then have m: "map (\<lambda>jc. if other_session i jc then f jc else jc) (update_client i c (clients srv)) = update_client i c (clients srv)" for c f
    by (intro map_idI) simp
  show ?thesis
    using assms(1,2) none by (auto simp: rfbProcessClientInitMessage_def r write_step Let_def m)
qed

section \<open>A run of the server\<close>

text \<open>
  The client \<open>i\<close> is in the state \<open>cl\<close> and no other client is in a session.
\<close>

definition stands :: "rfbServer \<Rightarrow> nat \<Rightarrow> rfbClientRec \<Rightarrow> bool" where
  "stands srv i cl \<longleftrightarrow> (i, cl) \<in> set (clients srv) \<and> (\<forall>jc\<in>set (clients srv). \<not> other_session i jc)"

lemma stands_set:
  "stands srv i cl \<Longrightarrow> stands (set_client srv i (s, cl')) i cl'"
  by (auto simp: stands_def set_client_def in_update_client update_client_def other_session_def image_iff split: if_splits)
    force

lemma set_client_fields [simp]: "screen (set_client srv i scl) = screen srv" "sec (set_client srv i scl) = fst scl"
  by (simp_all add: set_client_def)

lemma run_step:
  assumes "server_run app normal srv0 srv es" "stands srv i cl" "0 \<le> sock cl"
    and "rfbProcessClientMessage app normal srv i cl = Some srv'"
  shows "\<exists>es'. server_run app normal srv0 srv' es'"
  using server_run.serve[OF assms(1) _ assms(3,4)] assms(2) by (auto simp: stands_def)

lemma server_finish:
  assumes "server_run app normal srv0 srv es" "stands srv i cl" "0 \<le> sock cl" "write_ok cl" "client_state cl = RFB_AUTHENTICATION"
    and "inbuf cl = rfbEncryptBytes (authChallenge cl) p @ [b]" "length (authChallenge cl) = 16"
    and "passwordCheck (screen srv) = rfbDefaultPasswordCheck fs fname"
    and "writable fname" "rfbEncryptAndStorePasswd writable fs0 stored fname = (rc, fs)" "pad_password p = pad_password stored"
  shows "\<exists>srv' es' cl'. server_run app normal srv0 srv' es' \<and> (i, cl') \<in> set (clients srv') \<and> client_state cl' = RFB_NORMAL \<and>
    sock cl' = sock cl \<and> inbuf cl' = [] \<and> outbuf cl' = outbuf cl @ wire32 0 @ serverInit_bytes (screen srv)"
proof -
  have "\<exists>ch. passwordCheck (screen srv) (cl\<lparr>inbuf := [b]\<rparr>) (rfbEncryptBytes (authChallenge cl) p) 16 =
      (True, cl\<lparr>inbuf := [b], authChallenge := ch\<rparr>)"
    using default_check_accepts[OF assms(9-11), of "cl\<lparr>inbuf := [b]\<rparr>" 16] assms(8) by simp
  from server_response[OF assms(3,4,6) _ this] obtain ch where ch: "rfbAuthProcessClientMessage (screen srv) cl =
      cl\<lparr>inbuf := [b], authChallenge := ch, outbuf := outbuf cl @ wire32 0, client_state := RFB_INITIALISATION\<rparr>"
    using assms(7) by (auto simp: length_rfbEncryptBytes)
  let ?c1 = "cl\<lparr>inbuf := [b], authChallenge := ch, outbuf := outbuf cl @ wire32 0, client_state := RFB_INITIALISATION\<rparr>"
  let ?srv1 = "set_client srv i (sec srv, ?c1)"
  have "rfbProcessClientMessage app normal srv i cl = Some ?srv1" using assms(5) ch by (simp add: rfbProcessClientMessage_def)
  from run_step[OF assms(1,2,3) this] obtain es1 where run1: "server_run app normal srv0 ?srv1 es1" by blast
  have st1: "stands ?srv1 i ?c1" by (rule stands_set[OF assms(2)])
  let ?srv2 = "rfbProcessClientInitMessage ?srv1 i ?c1"
  have "rfbProcessClientMessage app normal ?srv1 i ?c1 = Some ?srv2" by (simp add: rfbProcessClientMessage_def)
  with run_step[OF run1 st1] assms(3) obtain es2 where run2: "server_run app normal srv0 ?srv2 es2" by auto
  have c: "clients ?srv2 = update_client i
      (?c1\<lparr>inbuf := [], outbuf := outbuf ?c1 @ serverInit_bytes (screen ?srv1), client_state := RFB_NORMAL\<rparr>) (clients ?srv1)"
    by (rule server_init) (use assms(3,4) st1 in \<open>simp_all add: stands_def\<close>)
  have "i \<in> fst ` set (clients ?srv1)" using st1 unfolding stands_def by force
  then have "(i, ?c1\<lparr>inbuf := [], outbuf := outbuf ?c1 @ serverInit_bytes (screen ?srv1), client_state := RFB_NORMAL\<rparr>) \<in> set (clients ?srv2)"
    unfolding c in_update_client by blast
  with run2 show ?thesis by (intro exI conjI) (assumption, assumption, simp_all)
qed

lemma server_session:
  assumes "stands srv i cl" "client_state cl = RFB_PROTOCOL_VERSION" "0 \<le> sock cl" "write_ok cl" "\<not> reverseConnection cl"
    and "has_authPasswdData (screen srv)" "sec_ok (sec srv) xs" "set xs \<subseteq> {VncSecurityHandlerVncAuth}" "minor_ok m"
    and "passwordCheck (screen srv) = rfbDefaultPasswordCheck fs fname"
    and "writable fname" "rfbEncryptAndStorePasswd writable fs0 stored fname = (rc, fs)" "pad_password p = pad_password stored"
    and "inbuf cl = version_msg 3 m @ (if m < 7 then [] else [2]) @ rfbEncryptBytes (rfbRandomBytes (rands cl)) p @ [b]"
  shows "\<exists>srv' es' cl'. server_run app normal srv srv' es' \<and> (i, cl') \<in> set (clients srv') \<and> client_state cl' = RFB_NORMAL \<and>
    sock cl' = sock cl \<and> inbuf cl' = [] \<and>
    outbuf cl' = outbuf cl @ (if m < 7 then wire32 2 else [1, 2]) @ rfbRandomBytes (rands cl) @ wire32 0 @ serverInit_bytes (screen srv)"
proof (cases "m < 7")
  case True
  let ?r = "rfbEncryptBytes (rfbRandomBytes (rands cl)) p @ [b]"
  let ?c = "challenged (wire32 2) (versioned m ?r cl)"
  have "rfbProcessClientProtocolVersion (screen srv) (sec srv) cl = Some (sec srv, ?c)"
    by (rule server_version_old) (use assms True in simp_all)
  then have "rfbProcessClientMessage app normal srv i cl = Some (set_client srv i (sec srv, ?c))"
    using assms(2) by (simp add: rfbProcessClientMessage_def)
  from run_step[OF server_run.start assms(1,3) this] obtain es1 where run1: "server_run app normal srv (set_client srv i (sec srv, ?c)) es1" by blast
  show ?thesis
    using server_finish[OF run1 stands_set[OF assms(1)], of p b fs fname writable fs0 stored rc] assms True
    by (simp add: challenged_def versioned_def rfbRandomBytes_def CHALLENGESIZE_def)
next
  case False
  let ?r = "rfbEncryptBytes (rfbRandomBytes (rands cl)) p @ [b]"
  let ?c = "offered (versioned m (2 # ?r) cl)"
  obtain s' where s': "rfbProcessClientProtocolVersion (screen srv) (sec srv) cl = Some (s', ?c)" "registered s' [VncSecurityHandlerVncAuth]"
    using server_version_new[of m cl "screen srv" "2 # ?r" "sec srv" xs] assms False by auto
  let ?srv1 = "set_client srv i (s', ?c)"
  have "rfbProcessClientMessage app normal srv i cl = Some ?srv1"
    using assms(2) s'(1) by (simp add: rfbProcessClientMessage_def)
  from run_step[OF server_run.start assms(1,3) this] obtain es1 where run1: "server_run app normal srv ?srv1 es1" by blast
  let ?c2 = "challenged [] (?c\<lparr>inbuf := ?r\<rparr>)"
  have "rfbProcessClientSecurityType app s' ?c = Some ?c2"
    by (rule server_type) (use assms(3,4) s'(2) in \<open>simp_all add: offered_def versioned_def\<close>)
  then have "rfbProcessClientMessage app normal ?srv1 i ?c = Some (set_client ?srv1 i (s', ?c2))"
    by (simp add: rfbProcessClientMessage_def offered_def)
  with run_step[OF run1 stands_set[OF assms(1)]] assms(3)
  obtain es2 where run2: "server_run app normal srv (set_client ?srv1 i (s', ?c2)) es2" by (auto simp: offered_def versioned_def)
  show ?thesis
    using server_finish[OF run2 stands_set[OF stands_set[OF assms(1)]], of p b fs fname writable fs0 stored rc] assms False
    by (simp add: challenged_def offered_def versioned_def rfbRandomBytes_def CHALLENGESIZE_def)
qed

section \<open>The client\<close>

lemma reads_step: "length bs = n \<Longrightarrow> reads n k (se, c, bs @ inp) = k bs (se, c, inp)"
  by (simp add: reads_def)

text \<open>A client that has sent \<open>bs\<close> with \<open>n\<close> calls.\<close>

definition said :: "uint8_t list \<Rightarrow> nat \<Rightarrow> 'c rfb_client \<Rightarrow> 'c rfb_client" where
  "said bs n c = c\<lparr>requests := requests c @ bs, writes := writes c - n\<rparr>"

lemma said_said [simp]: "said b k (said a n c) = said (a @ b) (n + k) c"
  by (simp add: said_def)

lemma said_fields [simp]: "requests (said bs n c) = requests c @ bs" "writes (said bs n c) = writes c - n"
  by (simp_all add: said_def)

lemma writing_step: "0 < writes c \<Longrightarrow> writing bs k (se, c, inp) = k (se, said bs 1 c, inp)"
  by (simp add: writing_def WriteToRFBServer_def said_def)

lemma auth_result_ok: "rfbHandleAuthResult k (se, c, wire32 0 @ inp) = k (se, c, inp)"
  by (simp add: rfbHandleAuthResult_def reads_step rfbVncAuthOK_def)

lemma client_auth:
  assumes "length ch = 16" "0 < strlen p" "0 < writes c"
  shows "authenticate (Some p) k 2 (se, c, ch @ wire32 0 @ inp) = k (se, said (rfbEncryptBytes ch (take 8 (take (strlen p) p))) 1 c, inp)"
  using assms by (simp add: authenticate_def CHALLENGESIZE_def reads_step writing_step auth_result_ok)

definition server_name :: "rfbScreenAuth \<Rightarrow> uint8_t list" where
  "server_name scr = take 127 (take (strlen (desktopName scr)) (desktopName scr))"

definition told :: "rfbScreenAuth \<Rightarrow> rfb_session \<Rightarrow> rfb_session" where
  "told scr se = se\<lparr>si_width := nat (width scr), si_height := nat (height scr), si_format := serverFormat scr, s_desktopName := server_name scr\<rparr>"

lemma client_initialised:
  assumes "0 < writes c" "0 \<le> width scr" "width scr < 65536" "0 \<le> height scr" "height scr < 65536"
  shows "client_init app (se, c, serverInit_bytes scr @ inp) =
    Some (True, told scr se, said [if shareDesktop app then 1 else 0] 1 c, inp)"
proof -
  let ?n = "server_name scr"
  let ?si = "wire16 (word_of_int (width scr)) @ wire16 (word_of_int (height scr)) @ wire_format (serverFormat scr) @ wire32 (word_of_nat (length ?n))"
  have len: "length ?n < 128" by (simp add: server_name_def)
  have u: "unat (word_of_nat (length ?n) :: uint32_t) = length ?n"
    using len by (simp add: unsigned_of_nat take_bit_nat_eq_self_iff)
  have nz: "word_of_nat (length ?n) + 1 \<noteq> (0 :: uint32_t)"
  proof
    assume "word_of_nat (length ?n) + 1 = (0 :: uint32_t)"
    then have "(word_of_nat (length ?n) :: uint32_t) = - 1" by (simp add: eq_neg_iff_add_eq_0)
    then have "unat (word_of_nat (length ?n) :: uint32_t) = unat (- 1 :: uint32_t)" by simp
    then have "length ?n = 4294967295" by (simp add: u unsigned_minus_1_eq_mask mask_eq_exp_minus_1)
    then show False using len by simp
  qed
  define si where "si = ?si"
  have si: "length si = 24" "unwire16 si = word_of_int (width scr)" "unwire16 (drop 2 si) = word_of_int (height scr)"
    "unwire_format (drop 4 si) = serverFormat scr" "unwire32 (drop 20 si) = word_of_nat (length ?n)"
    by (simp_all add: si_def)
  have w: "unat (word_of_int (width scr) :: uint16_t) = nat (width scr)" "unat (word_of_int (height scr) :: uint16_t) = nat (height scr)"
    using assms by (simp_all add: unsigned_of_int take_bit_int_eq_self)
  have "serverInit_bytes scr @ inp = si @ ?n @ inp" by (simp add: serverInit_bytes_def server_name_def Let_def si_def)
  then show ?thesis
    unfolding client_init_def writing_step[OF assms(1)]
    using nz by (simp add: sz_rfbServerInitMsg_def sz_rfbPixelFormat_def reads_step si reads_string_def u w told_def)
qed

lemma agree_version_fields:
  assumes "minor_ok m" "agree_version 3 m (se, c, inp) = (se1, c1, inp1)"
  shows "inp1 = inp" "s_major se1 = 3" "s_minor se1 = m" "requests c1 = requests c" "writes c1 = writes c"
    "si_width se1 = si_width se"
  using assms by (auto simp: agree_version_def minor_ok_def rfbProtocolMajorVersion_def Let_def
      DefaultSupportedMessages_def DefaultSupportedMessagesUltraVNC_def DefaultSupportedMessagesTightVNC_def
      default_c2s_def default_s2c_def SetClient2Server_def SetServer2Client_def on_c2s_def on_s2c_def)

lemma client_security:
  assumes "s_major se = 3" "s_minor se = m" "0 < writes c"
  shows "choose_security k (se, c, (if m < 7 then wire32 2 else [1, 2]) @ inp) = k 2 (se, said (if m < 7 then [] else [2]) (if m < 7 then 0 else 1) c, inp)"
proof (cases "m < 7")
  case True
  then show ?thesis using assms by (simp add: choose_security_def reads_step said_def)
next
  case False
  have r: "reads (Suc 0) k' (se, c, b # x) = k' [b] (se, c, x)" for k' :: "uint8_t list \<Rightarrow> 'a set_up \<Rightarrow> (bool \<times> 'a set_up) option" and b x
    using reads_step[of "[b]" "Suc 0" k' se c x] by simp
  have "choose_security k (se, c, 1 # 2 # inp) = read_security_types (Suc 0) None
      (\<lambda>chosen st. case chosen of None \<Rightarrow> None | Some t \<Rightarrow> k (ucast t) st) (se, c, 2 # inp)"
    using assms(1,2) False by (simp add: choose_security_def r del: read_security_types.simps)
  also have "\<dots> = k 2 (se, said [2] 1 c, inp)"
    by (simp add: r writing_step[OF assms(3)])
  finally show ?thesis using False by simp
qed

lemma client_connects:
  assumes "minor_ok m" "length ch = 16" "0 < strlen p" "3 < writes c"
    and "0 \<le> width scr" "width scr < 65536" "0 \<le> height scr" "height scr < 65536"
  shows "\<exists>se1 c1. agree_version 3 m (se, c, []) = (se1, c1, []) \<and>
    InitialiseRFBConnection (Some p) app (se, c, version_msg 3 m @ (if m < 7 then wire32 2 else [1, 2]) @ ch @ wire32 0 @ serverInit_bytes scr @ inp) =
    Some (True, told scr se1, said (version_msg 3 m @ (if m < 7 then [] else [2]) @ rfbEncryptBytes ch (take 8 (take (strlen p) p)) @
      [if shareDesktop app then 1 else 0]) (if m < 7 then 3 else 4) c1, inp)"
proof -
  let ?rest = "(if m < 7 then wire32 2 else [1, 2]) @ ch @ wire32 0 @ serverInit_bytes scr @ inp"
  obtain se1 c1 where a: "agree_version 3 m (se, c, []) = (se1, c1, [])"
    using agree_version_fields(1)[OF assms(1)] by (metis prod_cases3)
  have a2: "agree_version 3 m (se, c, x) = (se1, c1, x)" for x
    using a by (simp add: agree_version_def Let_def)
  note f = agree_version_fields[OF assms(1) a]
  let ?k = "authenticate (Some p) (client_init app)"
  have "InitialiseRFBConnection (Some p) app (se, c, version_msg 3 m @ ?rest) =
      writing (version_msg 3 m) (choose_security ?k) (se1, c1, ?rest)"
    unfolding InitialiseRFBConnection_def
    by (subst reads_step) (simp_all add: sz_rfbProtocolVersionMsg_def length_version_msg[OF assms(1)] scan_version_msg[OF assms(1)] a2 Let_def f(2,3))
  also have "\<dots> = choose_security ?k (se1, said (version_msg 3 m) 1 c1, ?rest)"
    by (rule writing_step) (use assms(4) f(5) in simp)
  also have "\<dots> = ?k 2 (se1, said (if m < 7 then [] else [2]) (if m < 7 then 0 else 1) (said (version_msg 3 m) 1 c1), ch @ wire32 0 @ serverInit_bytes scr @ inp)"
    by (rule client_security) (use assms(4) f in simp_all)
  also have "\<dots> = client_init app (se1, said (rfbEncryptBytes ch (take 8 (take (strlen p) p))) 1
      (said (if m < 7 then [] else [2]) (if m < 7 then 0 else 1) (said (version_msg 3 m) 1 c1)), serverInit_bytes scr @ inp)"
    by (rule client_auth) (use assms f in simp_all)
  also have "\<dots> = Some (True, told scr se1, said [if shareDesktop app then 1 else 0] 1 (said (rfbEncryptBytes ch (take 8 (take (strlen p) p))) 1
      (said (if m < 7 then [] else [2]) (if m < 7 then 0 else 1) (said (version_msg 3 m) 1 c1))), inp)"
    by (rule client_initialised) (use assms f in simp_all)
  finally show ?thesis using a by (simp add: eval_nat_numeral)
qed

text \<open>The client keeps the first eight characters, which is all that counts.\<close>

lemma pad_password_first_eight: "pad_password (take 8 (take (strlen p) p)) = pad_password p"
proof -
  have t: "take (strlen p) p = takeWhile (\<lambda>c. c \<noteq> 0) p"
    unfolding strlen_def by (rule takeWhile_eq_take[symmetric])
  have "takeWhile (\<lambda>c. c \<noteq> 0) (take 8 (takeWhile (\<lambda>c. c \<noteq> 0) p)) = take 8 (takeWhile (\<lambda>c. c \<noteq> 0) p)"
    by (rule takeWhile_eq_all_conv[THEN iffD2]) (auto dest: in_set_takeD set_takeWhileD)
  then have n: "strlen (take 8 (take (strlen p) p)) = length (take 8 (take (strlen p) p))"
    unfolding t unfolding strlen_def by (simp only:)
  have "take 8 (take n (take 8 xs)) = take 8 xs" if "n = length (take 8 xs)" for n and xs :: "uint8_t list"
    unfolding that by simp (metis length_take take_all_iff take_take min.cobounded1 order_refl)
  from this[OF n] show ?thesis unfolding pad_password_eq_iff .
qed

text \<open>
  C5: A client that knows the password gets a session, and both ends agree on it. For every version the
  server can be set to there are bytes \<open>S\<close> and \<open>C\<close> such that \<open>InitialiseRFBConnection\<close>, reading \<open>S\<close>, writes \<open>C\<close>
  and returns \<open>TRUE\<close> with the size, the pixel format and the name of the server; and the server, reading
  \<open>C\<close>, comes in a run to the state \<open>RFB_NORMAL\<close> for this client, has written exactly \<open>S\<close> and has read all
  of \<open>C\<close>. The password need only agree with the stored one in its first eight characters.
\<close>

theorem session_established:
  assumes "stands srv i cl" "client_state cl = RFB_PROTOCOL_VERSION" "0 \<le> sock cl" "write_ok cl" "\<not> reverseConnection cl"
    and "inbuf cl = []" "outbuf cl = banner (screen srv)"
    and "has_authPasswdData (screen srv)" "sec_ok (sec srv) xs" "set xs \<subseteq> {VncSecurityHandlerVncAuth}"
    and "screen_major (screen srv) = 3" "minor_ok (screen_minor (screen srv))"
    and "0 \<le> width (screen srv)" "width (screen srv) < 65536" "0 \<le> height (screen srv)" "height (screen srv) < 65536"
    and "passwordCheck (screen srv) = rfbDefaultPasswordCheck fs fname"
    and "writable fname" "rfbEncryptAndStorePasswd writable fs0 stored fname = (rc, fs)"
    and "pad_password p = pad_password stored" "0 < strlen p" "3 < writes c"
  shows "\<exists>S C se' c' srv' es cl'.
    InitialiseRFBConnection (Some p) app (se, c, S) = Some (True, se', c', []) \<and> requests c' = requests c @ C \<and>
    si_width se' = nat (width (screen srv)) \<and> si_height se' = nat (height (screen srv)) \<and>
    si_format se' = serverFormat (screen srv) \<and> s_desktopName se' = server_name (screen srv) \<and>
    server_run app_handler normal (srv\<lparr>clients := update_client i (cl\<lparr>inbuf := C\<rparr>) (clients srv)\<rparr>) srv' es \<and>
    (i, cl') \<in> set (clients srv') \<and> client_state cl' = RFB_NORMAL \<and> sock cl' = sock cl \<and> inbuf cl' = [] \<and> outbuf cl' = S"
proof -
  let ?m = "screen_minor (screen srv)" and ?p = "take 8 (take (strlen p) p)" and ?ch = "rfbRandomBytes (rands cl)"
  let ?b = "if shareDesktop app then 1 else 0 :: uint8_t"
  let ?C = "version_msg 3 ?m @ (if ?m < 7 then [] else [2]) @ rfbEncryptBytes ?ch ?p @ [?b]"
  let ?S = "version_msg 3 ?m @ (if ?m < 7 then wire32 2 else [1, 2]) @ ?ch @ wire32 0 @ serverInit_bytes (screen srv)"
  let ?srv = "srv\<lparr>clients := update_client i (cl\<lparr>inbuf := ?C\<rparr>) (clients srv)\<rparr>"
  have "length ?ch = 16" by (simp add: rfbRandomBytes_def CHALLENGESIZE_def)
  from client_connects[OF assms(12) this assms(21,22,13-16), of se app "[]"]
  obtain se1 c1 where a: "agree_version 3 ?m (se, c, []) = (se1, c1, [])"
    and i: "InitialiseRFBConnection (Some p) app (se, c, ?S) = Some (True, told (screen srv) se1, said ?C (if ?m < 7 then 3 else 4) c1, [])"
    by auto
  have st: "stands ?srv i (cl\<lparr>inbuf := ?C\<rparr>)"
    using stands_set[OF assms(1), of "sec srv" "cl\<lparr>inbuf := ?C\<rparr>"] by (simp add: stands_def set_client_def)
  have pad: "pad_password ?p = pad_password stored" using assms(20) pad_password_first_eight by simp
  obtain srv' es cl' where s: "server_run app_handler normal ?srv srv' es" "(i, cl') \<in> set (clients srv')" "client_state cl' = RFB_NORMAL"
    "sock cl' = sock cl" "inbuf cl' = []" "outbuf cl' = outbuf cl @ (if ?m < 7 then wire32 2 else [1, 2]) @ ?ch @ wire32 0 @ serverInit_bytes (screen srv)"
    using server_session[OF st, of xs ?m fs fname writable fs0 stored rc ?p ?b app_handler normal] assms pad by auto
  have "outbuf cl' = ?S" using s(6) assms(7) banner_version[OF assms(12,11)] by simp
  moreover have "requests (said ?C (if ?m < 7 then 3 else 4) c1) = requests c @ ?C"
    using agree_version_fields(4)[OF assms(12) a] by simp
  ultimately show ?thesis
    using i s(1-5) by (intro exI[of _ ?S] exI[of _ ?C] exI conjI) (assumption | simp add: told_def)+
qed

definition demo_visitor :: "8 word rfb_client" where
  "demo_visitor = \<lparr>c_width = 0, c_height = 0, c_frame = [], c_format = demo_format, updateRect = (0, 0, 0, 0), rc_source = None,
     rc_mask = [], CurrentKeyboardLedState = 0, requests = [], writes = 4, frame_memory = (\<lambda>_. 0),
     supportedMessages = \<lparr>client2server = [], server2client = []\<rparr>\<rparr>"

definition demo_session :: rfb_session where
  "demo_session = \<lparr>s_major = 0, s_minor = 0, si_width = 0, si_height = 0, si_format = demo_format, s_desktopName = []\<rparr>"

definition demo_fresh :: rfbClientRec where
  "demo_fresh = (demo_client 0 RFB_PROTOCOL_VERSION (replicate 16 0) [] (banner (screen demo_server)))\<lparr>rands := [0..<16]\<rparr>"

theorem session_established_witness:
  "\<exists>fs srv S se' c' srv' es cl'.
     rfbEncryptAndStorePasswd (\<lambda>_. True) (\<lambda>_. None) [115, 101, 99, 114, 101, 116, 111, 102, 109, 101] ''passwd'' = (0, fs) \<and>
     passwordCheck (screen srv) = rfbDefaultPasswordCheck fs ''passwd'' \<and>
     InitialiseRFBConnection (Some [115, 101, 99, 114, 101, 116, 111, 102]) initAppData (demo_session, demo_visitor, S) = Some (True, se', c', []) \<and>
     si_width se' = 320 \<and> si_height se' = 480 \<and>
     server_run (\<lambda>_ c. c) (\<lambda>c. c) (srv\<lparr>clients := [(7, demo_fresh\<lparr>inbuf := requests c'\<rparr>)]\<rparr>) srv' es \<and>
     (7, cl') \<in> set (clients srv') \<and> client_state cl' = RFB_NORMAL \<and> outbuf cl' = S"
proof -
  let ?long = "[115, 101, 99, 114, 101, 116, 111, 102, 109, 101] :: uint8_t list" and ?p = "[115, 101, 99, 114, 101, 116, 111, 102] :: uint8_t list"
  obtain rc fs where r: "rfbEncryptAndStorePasswd (\<lambda>_. True) (\<lambda>_. None) ?long ''passwd'' = (rc, fs)" by fastforce
  have rc: "rc = 0" using r by (simp add: rfbEncryptAndStorePasswd_def Let_def)
  define srv where "srv = demo_server\<lparr>screen := (screen demo_server)\<lparr>passwordCheck := rfbDefaultPasswordCheck fs ''passwd''\<rparr>, clients := [(7, demo_fresh)]\<rparr>"
  have pad: "pad_password ?p = pad_password ?long" "0 < strlen ?p" by (code_simp, simp add: strlen_def)
  have st: "stands srv 7 demo_fresh" by (simp add: stands_def srv_def other_session_def)
  have b: "banner (screen srv) = banner (screen demo_server)" by (simp add: srv_def banner_def demo_server_def)
  have f: "client_state demo_fresh = RFB_PROTOCOL_VERSION" "0 \<le> sock demo_fresh" "write_ok demo_fresh" "\<not> reverseConnection demo_fresh"
    "inbuf demo_fresh = []" "outbuf demo_fresh = banner (screen srv)"
    by (simp_all add: demo_fresh_def demo_client_def b)
  have s: "has_authPasswdData (screen srv)" "sec_ok (sec srv) []" "screen_major (screen srv) = 3" "minor_ok (screen_minor (screen srv))"
    "0 \<le> width (screen srv)" "width (screen srv) < 65536" "0 \<le> height (screen srv)" "height (screen srv) < 65536"
    "passwordCheck (screen srv) = rfbDefaultPasswordCheck fs ''passwd''" "width (screen srv) = 320" "height (screen srv) = 480"
    by (simp_all add: srv_def demo_server_def sec_ok_init minor_ok_def)
  have w: "3 < writes demo_visitor" "requests demo_visitor = []" by (simp_all add: demo_visitor_def)
  obtain S C se' c' srv' es cl' where
    e: "InitialiseRFBConnection (Some ?p) initAppData (demo_session, demo_visitor, S) = Some (True, se', c', [])" "requests c' = C"
    "si_width se' = 320" "si_height se' = 480"
    "server_run (\<lambda>_ c. c) (\<lambda>c. c) (srv\<lparr>clients := update_client 7 (demo_fresh\<lparr>inbuf := C\<rparr>) (clients srv)\<rparr>) srv' es"
    "(7, cl') \<in> set (clients srv')" "client_state cl' = RFB_NORMAL" "outbuf cl' = S"
    using session_established[OF st f s(1,2) _ s(3-9) _ r pad w(1), where se = demo_session and app = initAppData
        and app_handler = "\<lambda>_ c. c" and normal = "\<lambda>c. c"] s(10,11) w(2) by auto
  have "srv\<lparr>clients := update_client 7 (demo_fresh\<lparr>inbuf := C\<rparr>) (clients srv)\<rparr> = srv\<lparr>clients := [(7, demo_fresh\<lparr>inbuf := requests c'\<rparr>)]\<rparr>"
    by (simp add: srv_def update_client_def e(2))
  then show ?thesis using e r rc s(9) by metis
qed

end
