(* ===== verification/SocketsCorrect.thy ===== *)
theory SocketsCorrect
  imports Sockets "HOL-Library.Sublist"
begin

text \<open>
  Reading an exact number of bytes takes them from the stream of the bytes that arrive, whatever pieces
  they come in. This is stated once as a locale of exact readers, which the loops of both libraries
  interpret. Writing sends a prefix of the bytes, and all of them exactly when it says so.
\<close>

section \<open>Exact readers\<close>

text \<open>A sequence of reads; it stops with the first that fails.\<close>

fun read_seq :: "(nat \<Rightarrow> 's \<Rightarrow> uint8_t list option \<times> 's) \<Rightarrow> nat list \<Rightarrow> 's \<Rightarrow> uint8_t list list \<times> bool" where
  "read_seq rd [] s = ([], True)"
| "read_seq rd (n # ns) s =
     (case rd n s of
        (None, s) \<Rightarrow> ([], False)
      | (Some bs, s) \<Rightarrow> (let (bss, ok) = read_seq rd ns s in (bs # bss, ok)))"

fun slices :: "nat list \<Rightarrow> uint8_t list \<Rightarrow> uint8_t list list \<times> bool" where
  "slices [] inp = ([], True)"
| "slices (n # ns) inp =
     (if length inp < n then ([], False) else (let (bss, ok) = slices ns (drop n inp) in (take n inp # bss, ok)))"

locale exact_reader =
  fixes rd :: "nat \<Rightarrow> 's \<Rightarrow> uint8_t list option \<times> 's"
    and stream :: "'s \<Rightarrow> uint8_t list"
    and ok :: "'s \<Rightarrow> bool"
  assumes enough: "ok s \<Longrightarrow> n \<le> length (stream s) \<Longrightarrow>
      \<exists>s'. rd n s = (Some (take n (stream s)), s') \<and> stream s' = drop n (stream s) \<and> ok s'"
    and short: "ok s \<Longrightarrow> length (stream s) < n \<Longrightarrow> fst (rd n s) = None"
begin

lemma read_seq_slices: "ok s \<Longrightarrow> read_seq rd ns s = slices ns (stream s)"
proof (induction ns arbitrary: s)
  case (Cons n ns)
  show ?case
  proof (cases "n \<le> length (stream s)")
    case True
    from enough[OF Cons.prems True] obtain s' where "rd n s = (Some (take n (stream s)), s')" "stream s' = drop n (stream s)" "ok s'"
      by blast
    then show ?thesis using Cons.IH[of s'] True by simp
  next
    case False
    then obtain s' where "rd n s = (None, s')" using short[OF Cons.prems, of n] by (cases "rd n s") auto
    then show ?thesis using False by simp
  qed
qed simp

end

lemma slices_concat: "slices ns inp = (bss, True) \<Longrightarrow> concat bss = take (sum_list ns) inp \<and> map length bss = ns"
proof (induction ns arbitrary: inp bss)
  case (Cons n ns)
  then obtain bss' where "slices ns (drop n inp) = (bss', True)" "bss = take n inp # bss'" "n \<le> length inp"
    by (auto split: if_splits prod.splits)
  then show ?case using Cons.IH by (simp add: take_add)
qed simp

section \<open>What arrives\<close>

text \<open>The bytes up to the first event a loop does not go on after.\<close>

fun arriving :: "(read_event \<Rightarrow> bool) \<Rightarrow> read_event list \<Rightarrow> uint8_t list" where
  "arriving passes [] = []"
| "arriving passes (Data bs # ks) = (if bs = [] then [] else bs @ arriving passes ks)"
| "arriving passes (k # ks) = (if passes k then arriving passes ks else [])"

definition server_passes :: "read_event \<Rightarrow> bool" where
  "server_passes k \<longleftrightarrow> k = ReadInterrupted \<or> k = ReadBlocks SelectReady"

definition client_passes :: "read_event \<Rightarrow> bool" where
  "client_passes k \<longleftrightarrow> (\<exists>s. k = ReadBlocks s)"

lemma passes_simps [simp]:
  "server_passes ReadInterrupted" "server_passes (ReadBlocks s) \<longleftrightarrow> s = SelectReady" "\<not> server_passes ReadError"
  "client_passes (ReadBlocks s)" "\<not> client_passes ReadInterrupted" "\<not> client_passes ReadError"
  by (simp_all add: server_passes_def client_passes_def)

lemma arriving_read:
  assumes "sys_read room bs ks = (got, ks')" "bs \<noteq> []" "0 < room"
  shows "got = take room bs" "got \<noteq> []" "arriving passes (Data bs # ks) = got @ arriving passes ks'"
  using assms by (auto simp: sys_read_def split: if_splits)

section \<open>The server\<close>

lemma read_exact_steps:
  "rfbReadExactTimeout 0 ks = (1, [], ks)"
  "0 < len \<Longrightarrow> rfbReadExactTimeout len [] = (0, [], [])"
  "0 < len \<Longrightarrow> rfbReadExactTimeout len (Data [] # ks) = (0, [], ks)"
  "0 < len \<Longrightarrow> rfbReadExactTimeout len (ReadInterrupted # ks) = rfbReadExactTimeout len ks"
  "0 < len \<Longrightarrow> rfbReadExactTimeout len (ReadError # ks) = (-1, [], ks)"
  "0 < len \<Longrightarrow> rfbReadExactTimeout len (ReadBlocks s # ks) =
     (if s = SelectReady then rfbReadExactTimeout len ks else (-1, [], ks))"
  by (subst rfbReadExactTimeout.simps, simp split: select_result.split)+

lemma read_exact_data:
  assumes "0 < len" "bs \<noteq> []" "sys_read len bs ks = (b, ks2)" "rfbReadExactTimeout (len - length b) ks2 = (r, g, ks3)"
  shows "rfbReadExactTimeout len (Data bs # ks) = (r, b @ g, ks3)"
  by (subst rfbReadExactTimeout.simps) (use assms in simp)

lemma read_exact_timeout:
  "rfbReadExactTimeout len ks = (r, got, ks') \<Longrightarrow>
   (if len \<le> length (arriving server_passes ks)
    then r = 1 \<and> got = take len (arriving server_passes ks) \<and> arriving server_passes ks' = drop len (arriving server_passes ks)
    else r \<le> 0)"
proof (induction len ks arbitrary: r got ks' rule: rfbReadExactTimeout.induct)
  case (1 len ks)
  show ?case
  proof (cases "len = 0")
    case True
    then show ?thesis using "1.prems" by (simp add: read_exact_steps)
  next
    case False
    show ?thesis
    proof (cases ks)
      case Nil
      then show ?thesis using "1.prems" False by (auto simp: read_exact_steps)
    next
      case (Cons k ks1)
      show ?thesis
      proof (cases k)
        case (Data bs)
        show ?thesis
        proof (cases "bs = []")
          case True
          then show ?thesis using "1.prems" False Cons Data by (auto simp: read_exact_steps)
        next
          case nonempty: False
          obtain b ks2 where s: "sys_read len bs ks1 = (b, ks2)" by fastforce
          obtain r2 g2 ks3 where rec: "rfbReadExactTimeout (len - length b) ks2 = (r2, g2, ks3)" by (metis prod_cases3)
          have e: "r = r2" "got = b @ g2" "ks' = ks3"
            using read_exact_data[OF _ nonempty s rec] "1.prems" False Cons Data by simp_all
          note a = arriving_read[OF s nonempty]
          have "length b \<le> len" using a(1) False by simp
          moreover have "arriving server_passes ks = b @ arriving server_passes ks2" using a(3) False Cons Data by simp
          ultimately show ?thesis
            using "1.IH"(1)[OF False Cons Data nonempty s[symmetric] refl rec] e by (auto split: if_splits)
        qed
      next
        case ReadInterrupted
        then have "rfbReadExactTimeout len ks1 = (r, got, ks')" using "1.prems" False Cons by (simp add: read_exact_steps)
        from "1.IH"(2)[OF False Cons ReadInterrupted this] show ?thesis using Cons ReadInterrupted by simp
      next
        case ReadError
        then show ?thesis using "1.prems" False Cons by (auto simp: read_exact_steps)
      next
        case (ReadBlocks s)
        show ?thesis
        proof (cases s)
          case SelectReady
          then have "rfbReadExactTimeout len ks1 = (r, got, ks')" using "1.prems" False Cons ReadBlocks
            by (simp add: read_exact_steps)
          from "1.IH"(3)[OF False Cons ReadBlocks SelectReady this] show ?thesis
            using Cons ReadBlocks SelectReady by simp
        qed (use "1.prems" False Cons ReadBlocks in \<open>auto simp: read_exact_steps\<close>)
      qed
    qed
  qed
qed

lemma read_exact_arriving:
  "n \<le> length (arriving server_passes ks) \<Longrightarrow>
   \<exists>ks'. rfbReadExactTimeout n ks = (1, take n (arriving server_passes ks), ks') \<and>
     arriving server_passes ks' = drop n (arriving server_passes ks)"
  using read_exact_timeout[of n ks] by (cases "rfbReadExactTimeout n ks") auto

text \<open>The reader the other theories use: the bytes, unless the result is not 1.\<close>

definition server_read :: "nat \<Rightarrow> read_event list \<Rightarrow> uint8_t list option \<times> read_event list" where
  "server_read n ks = (let (r, got, ks) = rfbReadExactTimeout n ks in (if 0 < r then Some got else None, ks))"

interpretation server: exact_reader server_read "arriving server_passes" "\<lambda>_. True"
proof
  fix n ks assume "n \<le> length (arriving server_passes ks)"
  from read_exact_arriving[OF this]
  show "\<exists>ks'. server_read n ks = (Some (take n (arriving server_passes ks)), ks') \<and>
      arriving server_passes ks' = drop n (arriving server_passes ks) \<and> True"
    by (auto simp: server_read_def)
next
  fix n ks assume "length (arriving server_passes ks) < n"
  then show "fst (server_read n ks) = None"
    using read_exact_timeout[of n ks] by (cases "rfbReadExactTimeout n ks") (auto simp: server_read_def)
qed

section \<open>The client\<close>

lemma read_direct_steps:
  "read_direct 0 ks = (True, [], ks)"
  "0 < n \<Longrightarrow> read_direct n [] = (False, [], [])"
  "0 < n \<Longrightarrow> read_direct n (Data [] # ks) = (False, [], ks)"
  "0 < n \<Longrightarrow> read_direct n (ReadInterrupted # ks) = (False, [], ks)"
  "0 < n \<Longrightarrow> read_direct n (ReadError # ks) = (False, [], ks)"
  "0 < n \<Longrightarrow> read_direct n (ReadBlocks s # ks) = read_direct n ks"
  by (subst read_direct.simps, simp)+

lemma read_direct_data:
  assumes "0 < n" "bs \<noteq> []" "sys_read n bs ks = (b, ks2)" "read_direct (n - length b) ks2 = (r, g, ks3)"
  shows "read_direct n (Data bs # ks) = (r, b @ g, ks3)"
  by (subst read_direct.simps) (use assms in simp)

lemma read_direct_stream:
  "read_direct n ks = (ok, got, ks') \<Longrightarrow>
   (if n \<le> length (arriving client_passes ks)
    then ok \<and> got = take n (arriving client_passes ks) \<and> arriving client_passes ks' = drop n (arriving client_passes ks)
    else \<not> ok)"
proof (induction n ks arbitrary: ok got ks' rule: read_direct.induct)
  case (1 n ks)
  show ?case
  proof (cases "n = 0")
    case True
    then show ?thesis using "1.prems" by (simp add: read_direct_steps)
  next
    case False
    show ?thesis
    proof (cases ks)
      case Nil
      then show ?thesis using "1.prems" False by (auto simp: read_direct_steps)
    next
      case (Cons k ks1)
      show ?thesis
      proof (cases k)
        case (Data bs)
        show ?thesis
        proof (cases "bs = []")
          case True
          then show ?thesis using "1.prems" False Cons Data by (auto simp: read_direct_steps)
        next
          case nonempty: False
          obtain b ks2 where s: "sys_read n bs ks1 = (b, ks2)" by fastforce
          obtain ok2 g2 ks3 where rec: "read_direct (n - length b) ks2 = (ok2, g2, ks3)" by (metis prod_cases3)
          have e: "ok = ok2" "got = b @ g2" "ks' = ks3"
            using read_direct_data[OF _ nonempty s rec] "1.prems" False Cons Data by simp_all
          note a = arriving_read[OF s nonempty]
          have b: "length b \<le> n" using a(1) False by simp
          have "arriving client_passes ks = b @ arriving client_passes ks2" using a(3) False Cons Data by simp
          then show ?thesis using "1.IH"(1)[OF False Cons Data nonempty s[symmetric] refl rec] e b by (auto split: if_splits)
        qed
      next
        case (ReadBlocks s)
        then have "read_direct n ks1 = (ok, got, ks')" using "1.prems" False Cons by (simp add: read_direct_steps)
        from "1.IH"(2)[OF False Cons ReadBlocks this] show ?thesis using Cons ReadBlocks by simp
      qed (use "1.prems" False Cons in \<open>auto simp: read_direct_steps\<close>)
    qed
  qed
qed

lemma fill_buffer_steps:
  "n \<le> length held \<Longrightarrow> fill_buffer n held ks = (True, held, ks)"
  "length held < n \<Longrightarrow> fill_buffer n held [] = (False, held, [])"
  "length held < n \<Longrightarrow> bs = [] \<or> RFB_BUF_SIZE \<le> length held \<Longrightarrow> fill_buffer n held (Data bs # ks) = (False, held, ks)"
  "length held < n \<Longrightarrow> fill_buffer n held (ReadInterrupted # ks) = (False, held, ks)"
  "length held < n \<Longrightarrow> fill_buffer n held (ReadError # ks) = (False, held, ks)"
  "length held < n \<Longrightarrow> fill_buffer n held (ReadBlocks s # ks) = fill_buffer n held ks"
  by (subst fill_buffer.simps, auto)+

lemma fill_buffer_data:
  assumes "length held < n" "bs \<noteq> []" "length held < RFB_BUF_SIZE" "sys_read (RFB_BUF_SIZE - length held) bs ks = (b, ks2)"
  shows "fill_buffer n held (Data bs # ks) = fill_buffer n (held @ b) ks2"
  by (subst fill_buffer.simps) (use assms in simp)

lemma fill_buffer_stream:
  "fill_buffer n held ks = (ok, held', ks') \<Longrightarrow> n \<le> RFB_BUF_SIZE \<Longrightarrow>
   (if n \<le> length (held @ arriving client_passes ks)
    then ok \<and> n \<le> length held' \<and> held' @ arriving client_passes ks' = held @ arriving client_passes ks
    else \<not> ok)"
proof (induction n held ks arbitrary: ok held' ks' rule: fill_buffer.induct)
  case (1 n held ks)
  show ?case
  proof (cases "n \<le> length held")
    case True
    then show ?thesis using "1.prems" by (auto simp: fill_buffer_steps)
  next
    case False
    show ?thesis
    proof (cases ks)
      case Nil
      then show ?thesis using "1.prems" False by (auto simp: fill_buffer_steps)
    next
      case (Cons k ks1)
      show ?thesis
      proof (cases k)
        case (Data bs)
        show ?thesis
        proof (cases "bs = []")
          case True
          then show ?thesis using "1.prems" False Cons Data by (auto simp: fill_buffer_steps)
        next
          case nonempty: False
          have room: "length held < RFB_BUF_SIZE" using False "1.prems"(2) by simp
          obtain b ks2 where s: "sys_read (RFB_BUF_SIZE - length held) bs ks1 = (b, ks2)" by fastforce
          have st: "fill_buffer n held ks = fill_buffer n (held @ b) ks2"
            using False Cons Data by (simp add: fill_buffer_data[OF _ nonempty room s])
          have "arriving client_passes ks = b @ arriving client_passes ks2"
            using arriving_read(3)[OF s nonempty, where passes = client_passes] room Cons Data by simp
          moreover have "\<not> (bs = [] \<or> RFB_BUF_SIZE \<le> length held)" using nonempty room by simp
          ultimately show ?thesis
            using "1.IH"(1)[OF False Cons Data _ s[symmetric] refl _ "1.prems"(2)] "1.prems"(1) unfolding st by simp
        qed
      next
        case (ReadBlocks s)
        then have "fill_buffer n held ks1 = (ok, held', ks')" using "1.prems" False Cons by (simp add: fill_buffer_steps)
        from "1.IH"(2)[OF False Cons ReadBlocks this "1.prems"(2)] show ?thesis using Cons ReadBlocks by simp
      qed (use "1.prems" False Cons in \<open>auto simp: fill_buffer_steps\<close>)
    qed
  qed
qed


lemma fill_buffer_size:
  "length held \<le> RFB_BUF_SIZE \<Longrightarrow> length (fst (snd (fill_buffer n held ks))) \<le> RFB_BUF_SIZE"
proof (induction n held ks rule: fill_buffer.induct)
  case (1 n held ks)
  show ?case
  proof (cases ks)
    case Nil
    then show ?thesis using "1.prems" by (cases "n \<le> length held") (simp_all add: fill_buffer_steps)
  next
    case (Cons k ks1)
    show ?thesis
    proof (cases "n \<le> length held")
      case True
      then show ?thesis using "1.prems" by (simp add: fill_buffer_steps)
    next
      case small: False
      show ?thesis
      proof (cases k)
        case (Data bs)
        show ?thesis
        proof (cases "bs = [] \<or> RFB_BUF_SIZE \<le> length held")
          case True
          then show ?thesis using "1.prems" small Cons Data by (auto simp: fill_buffer_steps)
        next
          case False
          obtain b ks2 where s: "sys_read (RFB_BUF_SIZE - length held) bs ks1 = (b, ks2)" by fastforce
          then have "length (held @ b) \<le> RFB_BUF_SIZE" using "1.prems" by (auto simp: sys_read_def)
          from "1.IH"(1)[OF small Cons Data False s[symmetric] refl this] show ?thesis
            using False Cons Data small by (simp add: fill_buffer_data[OF _ _ _ s])
        qed
      next
        case (ReadBlocks s)
        from "1.IH"(2)[OF small Cons ReadBlocks "1.prems"] show ?thesis
          using Cons ReadBlocks small by (simp add: fill_buffer_steps)
      qed (use "1.prems" Cons small in \<open>auto simp: fill_buffer_steps\<close>)
    qed
  qed
qed

definition client_stream :: "client_sock \<Rightarrow> uint8_t list" where
  "client_stream c = buffered c @ arriving client_passes (events c)"

text \<open>\<open>bufoutptr\<close> and \<open>buffered\<close> lie within \<open>buf\<close>.\<close>

definition in_buffer :: "client_sock \<Rightarrow> bool" where
  "in_buffer c \<longleftrightarrow> bufoutptr c + length (buffered c) \<le> RFB_BUF_SIZE"

lemma read_buffered_enough:
  assumes "n \<le> length (client_stream c)"
  shows "\<exists>c'. read_buffered n c = (Some (take n (client_stream c)), c') \<and> client_stream c' = drop n (client_stream c)"
proof (cases "n \<le> length (buffered c)")
  case True
  then show ?thesis by (simp add: read_buffered_def client_stream_def)
next
  case False
  let ?m = "n - length (buffered c)"
  let ?a = "arriving client_passes (events c)"
  have len: "?m \<le> length ?a" using assms by (simp add: client_stream_def)
  show ?thesis
  proof (cases "?m \<le> RFB_BUF_SIZE")
    case True
    obtain ok held ks where f: "fill_buffer ?m [] (events c) = (ok, held, ks)" by (metis prod_cases3)
    from fill_buffer_stream[OF f True] len have "ok" "?m \<le> length held" "held @ arriving client_passes ks = ?a" by simp_all
    then have "take ?m held = take ?m ?a" "drop ?m held @ arriving client_passes ks = drop ?m ?a"
      by (metis append_eq_conv_conj diff_is_0_eq drop_append take_all_iff take_append append_Nil2 drop0 take0)+
    with \<open>ok\<close> False True f show ?thesis by (simp add: read_buffered_def client_stream_def Let_def)
  next
    case big: False
    obtain ok got ks where f: "read_direct ?m (events c) = (ok, got, ks)" by (metis prod_cases3)
    from read_direct_stream[OF f] len False big f show ?thesis by (simp add: read_buffered_def client_stream_def)
  qed
qed

lemma read_buffered_short:
  assumes "length (client_stream c) < n"
  shows "fst (read_buffered n c) = None"
proof -
  let ?m = "n - length (buffered c)"
  have len: "length (buffered c) < n" "length (arriving client_passes (events c)) < ?m" using assms by (auto simp: client_stream_def)
  obtain ok held ks where f: "fill_buffer ?m [] (events c) = (ok, held, ks)" by (metis prod_cases3)
  obtain ok2 got ks2 where d: "read_direct ?m (events c) = (ok2, got, ks2)" by (metis prod_cases3)
  have "\<not> ok2" using read_direct_stream[OF d] len by simp
  moreover have "?m \<le> RFB_BUF_SIZE \<Longrightarrow> \<not> ok" using fill_buffer_stream[OF f] len by simp
  ultimately show ?thesis using len f d by (simp add: read_buffered_def Let_def)
qed

lemma read_buffered_in_buffer:
  assumes "in_buffer c"
  shows "in_buffer (snd (read_buffered n c))"
proof -
  obtain ok held ks where f: "fill_buffer (n - length (buffered c)) [] (events c) = (ok, held, ks)" by (metis prod_cases3)
  have h: "length held \<le> RFB_BUF_SIZE" using fill_buffer_size[of "[]" "n - length (buffered c)" "events c"] f by simp
  show ?thesis using assms f h by (auto simp: in_buffer_def read_buffered_def Let_def split: prod.splits)
qed

interpretation client: exact_reader read_buffered client_stream in_buffer
proof
  fix c n assume "in_buffer c" "n \<le> length (client_stream c)"
  then show "\<exists>c'. read_buffered n c = (Some (take n (client_stream c)), c') \<and>
      client_stream c' = drop n (client_stream c) \<and> in_buffer c'"
    using read_buffered_enough[of n c] read_buffered_in_buffer[of c n] by force
qed (rule read_buffered_short)


section \<open>Writing\<close>

lemma write_loop_prefix:
  "write_loop w buf ks = (r, out, ks') \<Longrightarrow>
   prefix out buf \<and> r \<le> 1 \<and> (r = 1 \<longleftrightarrow> out = buf)"
proof (induction w buf ks arbitrary: r out ks' rule: write_loop.induct)
  case (3 w b buf k ks)
  show ?case
  proof (cases k)
    case (Accepts n)
    show ?thesis
    proof (cases "n = 0")
      case False
      obtain r2 o2 k2 where rec: "write_loop w (drop n (b # buf)) ks = (r2, o2, k2)" by (metis prod_cases3)
      have e: "r = r2" "out = take n (b # buf) @ o2" using "3.prems" Accepts False rec by simp_all
      from "3.IH"(1)[OF Accepts False rec] have ih: "prefix o2 (drop n (b # buf))" "r2 \<le> 1"
        "r2 = 1 \<longleftrightarrow> o2 = drop n (b # buf)" by auto
      have "take n (b # buf) @ o2 = b # buf \<longleftrightarrow> o2 = drop n (b # buf)"
        by (metis append_take_drop_id same_append_eq)
      moreover have "prefix (take n (b # buf) @ o2) (b # buf) \<longleftrightarrow> prefix o2 (drop n (b # buf))"
        by (metis append_take_drop_id same_prefix_prefix)
      ultimately show ?thesis using e ih by simp
    qed (use "3.prems" Accepts in auto)
  next
    case (WriteBlocks s)
    then show ?thesis using "3.prems" "3.IH"(3-5)[OF WriteBlocks] by (cases s) (auto split: if_splits)
  qed (use "3.prems" "3.IH"(2) in auto)
qed auto

lemma write_to_server_prefix:
  "write_to_server buf ks = (ok, out, ks') \<Longrightarrow> prefix out buf \<and> (ok \<longleftrightarrow> out = buf)"
proof (induction buf ks arbitrary: ok out ks' rule: write_to_server.induct)
  case (3 b buf k ks)
  show ?case
  proof (cases k)
    case (Accepts n)
    show ?thesis
    proof (cases "n = 0")
      case False
      obtain r2 o2 k2 where rec: "write_to_server (drop n (b # buf)) ks = (r2, o2, k2)" by (metis prod_cases3)
      have e: "ok = r2" "out = take n (b # buf) @ o2" using "3.prems" Accepts False rec by simp_all
      from "3.IH"(1)[OF Accepts False rec] have ih: "prefix o2 (drop n (b # buf))"
        "r2 \<longleftrightarrow> o2 = drop n (b # buf)" by auto
      have "take n (b # buf) @ o2 = b # buf \<longleftrightarrow> o2 = drop n (b # buf)"
        by (metis append_take_drop_id same_append_eq)
      moreover have "prefix (take n (b # buf) @ o2) (b # buf) \<longleftrightarrow> prefix o2 (drop n (b # buf))"
        by (metis append_take_drop_id same_prefix_prefix)
      ultimately show ?thesis using e ih by simp
    qed (use "3.prems" Accepts in auto)
  next
    case (WriteBlocks s)
    then show ?thesis using "3.prems" "3.IH"(2)[OF WriteBlocks] by (auto split: if_splits)
  qed (use "3.prems" in auto)
qed auto


section \<open>Properties\<close>

text \<open>C39: Whatever pieces the bytes from the server come in, and however the kernel makes the client wait, a
  sequence of calls of \<open>ReadFromRFBServer\<close> returns the consecutive pieces of the stream with the lengths
  asked for, up to the first the stream is too short for. The bytes kept between two calls
  are always inside \<open>buf\<close>.\<close>

theorem ReadFromRFBServer_stream:
  assumes "in_buffer c"
  shows "read_seq read_buffered ns c = slices ns (client_stream c) \<and> in_buffer (snd (read_buffered n c))"
  using client.read_seq_slices[OF assms] read_buffered_in_buffer[OF assms] by simp

theorem ReadFromRFBServer_stream_witness:
  "read_seq read_buffered [1, 4]
     \<lparr>bufoutptr = 3, buffered = [1, 2, 3], events = [Data [4], ReadBlocks SelectTimeout, Data [5, 6]]\<rparr> = ([[1], [2, 3, 4, 5]], True)"
  using ReadFromRFBServer_stream[of "\<lparr>bufoutptr = 3, buffered = [1, 2, 3], events = [Data [4], ReadBlocks SelectTimeout, Data [5, 6]]\<rparr>" "[1, 4]"]
  by (simp add: in_buffer_def RFB_BUF_SIZE_def client_stream_def del: read_seq.simps)

text \<open>C39: The server's \<open>rfbReadExact\<close> does the same: the calls return consecutive pieces of what arrives,
  signals and waits apart, until the peer closes, a wait times out or \<open>read\<close> fails.\<close>

theorem rfbReadExact_stream:
  "read_seq server_read ns ks = slices ns (arriving server_passes ks)"
  by (rule server.read_seq_slices) simp

text \<open>C40: \<open>rfbWriteExact\<close> and \<open>WriteToRFBServer\<close> send a prefix of the bytes they are given, and they report success exactly
  when they have sent all of them. The server gives up on a client that takes nothing in four
  waits of five seconds.\<close>

theorem rfbWriteExact_complete:
  assumes "write_exact buf ks = (r, out, ks')" "write_to_server buf ls = (ok, out2, ls')"
  shows "prefix out buf \<and> (r = 1 \<longleftrightarrow> out = buf) \<and> prefix out2 buf \<and> (ok \<longleftrightarrow> out2 = buf) \<and>
    (buf = [] \<or> write_exact buf (replicate 4 (WriteBlocks SelectTimeout) @ ks) = (-1, [], ks))"
proof -
  have four: "replicate 4 k = [k, k, k, k]" for k :: write_event by (simp add: numeral_eq_Suc)
  have "buf = [] \<or> write_exact buf (replicate 4 (WriteBlocks SelectTimeout) @ ks) = (-1, [], ks)"
    by (cases buf) (simp_all add: write_exact_def rfbMaxClientWait_def four)
  then show ?thesis
    using write_loop_prefix[OF assms(1)[unfolded write_exact_def]] write_to_server_prefix[OF assms(2)] by simp
qed

theorem rfbWriteExact_complete_witness:
  "prefix [1, 2, 3] [1, 2, 3 :: uint8_t] \<and>
   write_exact [1, 2, 3] [Accepts 2, WriteBlocks SelectTimeout, Accepts 1] = (1, [1, 2, 3], [])"
  using rfbWriteExact_complete[of "[1, 2, 3]" "[Accepts 2, WriteBlocks SelectTimeout, Accepts 1]" 1 "[1, 2, 3]" "[]"
    "[Accepts 3]" True "[1, 2, 3]" "[]"]
  by (simp add: write_exact_def rfbMaxClientWait_def)

end
