(* ===== verification/ZrlePalette.thy ===== *)
theory ZrlePalette
  imports Prelude
begin

text \<open>
  The palette of a ZRLE tile (\<open>libvncserver/zrlepalettehelper.c\<close>): the colours in the order of their
  first use, with a hash table from a colour to its number. Collisions go to the next slot; there is
  no wrap-around, the arrays are longer than the range of the hash instead.
\<close>

section \<open>The helper\<close>

definition ZRLE_PALETTE_MAX_SIZE :: nat where "ZRLE_PALETTE_MAX_SIZE = 127"

record palette_helper =
  ph_palette :: "uint32_t list"
  ph_index :: "uint8_t list"
  ph_key :: "uint32_t list"
  ph_size :: nat

definition ZRLE_HASH :: "uint32_t \<Rightarrow> nat" where
  "ZRLE_HASH pix = unat ((pix XOR drop_bit 17 pix) AND 4095)"

definition zrlePaletteHelperInit :: palette_helper where
  "zrlePaletteHelperInit =
     \<lparr>ph_palette = replicate ZRLE_PALETTE_MAX_SIZE 0, ph_index = replicate (ZRLE_PALETTE_MAX_SIZE + 4096) 255,
      ph_key = replicate (ZRLE_PALETTE_MAX_SIZE + 4096) 0, ph_size = 0\<rparr>"

text \<open>\<open>while (helper->index[i] != 255 && helper->key[i] != pix) i++;\<close> or \<open>None\<close> when it runs off the array.\<close>

function probe :: "palette_helper \<Rightarrow> uint32_t \<Rightarrow> nat \<Rightarrow> nat option" where
  "probe ph pix i =
     (if length (ph_index ph) \<le> i then None
      else if ph_index ph ! i \<noteq> 255 \<and> ph_key ph ! i \<noteq> pix then probe ph pix (i + 1)
      else Some i)"
  by pat_completeness auto
termination
  by (relation "measure (\<lambda>(ph, pix, i). length (ph_index ph) - i)") auto

declare probe.simps [simp del]

definition zrlePaletteHelperInsert :: "palette_helper \<Rightarrow> uint32_t \<Rightarrow> palette_helper option" where
  "zrlePaletteHelperInsert ph pix =
     (if ph_size ph < ZRLE_PALETTE_MAX_SIZE
      then (case probe ph pix (ZRLE_HASH pix) of
              None \<Rightarrow> None
            | Some i \<Rightarrow>
                (if ph_index ph ! i \<noteq> 255 then Some ph
                 else Some (ph\<lparr>ph_index := (ph_index ph)[i := word_of_nat (ph_size ph)],
                               ph_key := (ph_key ph)[i := pix],
                               ph_palette := (ph_palette ph)[ph_size ph := pix],
                               ph_size := ph_size ph + 1\<rparr>)))
      else Some (ph\<lparr>ph_size := ph_size ph + 1\<rparr>))"

text \<open>\<open>None\<close> also stands for the failed assertion.\<close>

definition zrlePaletteHelperLookup :: "palette_helper \<Rightarrow> uint32_t \<Rightarrow> int option" where
  "zrlePaletteHelperLookup ph pix =
     (if ZRLE_PALETTE_MAX_SIZE < ph_size ph then None
      else (case probe ph pix (ZRLE_HASH pix) of
              None \<Rightarrow> None
            | Some i \<Rightarrow> Some (if ph_index ph ! i \<noteq> 255 then uint (ph_index ph ! i) else -1)))"

section \<open>Numbering colours\<close>

text \<open>
  What a tile encoder asks of a palette: a list of different colours that grows at its end until it is
  full, in which the place of a colour can be found. Once full, it only counts.
\<close>

fun position :: "'c \<Rightarrow> 'c list \<Rightarrow> nat" where
  "position c [] = 0"
| "position c (d # ds) = (if c = d then 0 else Suc (position c ds))"

lemma position_less: "c \<in> set cs \<Longrightarrow> position c cs < length cs \<and> cs ! position c cs = c"
  by (induction cs) auto

lemma position_nth: "distinct cs \<Longrightarrow> k < length cs \<Longrightarrow> position (cs ! k) cs = k"
proof (induction cs arbitrary: k)
  case (Cons c cs)
  then show ?case by (cases k) auto
qed simp

fun insert_all :: "('s \<Rightarrow> 'c \<Rightarrow> 's option) \<Rightarrow> 'c list \<Rightarrow> 's \<Rightarrow> 's option" where
  "insert_all ins [] s = Some s"
| "insert_all ins (c # cs) s = (case ins s c of None \<Rightarrow> None | Some s \<Rightarrow> insert_all ins cs s)"

text \<open>Appending every colour that is new keeps the first occurrence of each, in order.\<close>

abbreviation first_uses :: "'c list \<Rightarrow> 'c list" where
  "first_uses cs \<equiv> rev (remdups (rev cs))"

definition note_colour :: "'c \<Rightarrow> 'c list \<Rightarrow> 'c list" where
  "note_colour c cs = (if c \<in> set cs then cs else cs @ [c])"

lemma fold_note_colour: "fold note_colour cs [] = first_uses cs"
  by (induction cs rule: rev_induct) (auto simp: note_colour_def)

locale colour_table =
  fixes empty :: 's
    and insert :: "'s \<Rightarrow> 'c \<Rightarrow> 's option"
    and lookup :: "'s \<Rightarrow> 'c \<Rightarrow> int option"
    and colours :: "'s \<Rightarrow> 'c list"
    and count :: "'s \<Rightarrow> nat"
    and limit :: nat
    and valid :: "'s \<Rightarrow> bool"
  assumes valid_empty: "valid empty" "colours empty = []" "count empty = 0"
    and valid_bounds: "valid s \<Longrightarrow> distinct (colours s) \<and> length (colours s) = min limit (count s)"
    and insert_valid: "valid s \<Longrightarrow> \<exists>s'. insert s c = Some s' \<and> valid s' \<and>
      (if limit \<le> count s then count s' = count s + 1
       else colours s' = (if c \<in> set (colours s) then colours s else colours s @ [c]) \<and>
            count s' = (if c \<in> set (colours s) then count s else count s + 1))"
    and lookup_valid: "valid s \<Longrightarrow> count s \<le> limit \<Longrightarrow>
      lookup s c = Some (if c \<in> set (colours s) then int (position c (colours s)) else -1)"
begin

lemma count_colours: "valid s \<Longrightarrow> count s \<le> limit \<Longrightarrow> count s = length (colours s)"
  using valid_bounds[of s] by simp

lemma insert_all_valid:
  "valid s \<Longrightarrow> \<exists>s'. insert_all insert cs s = Some s' \<and> valid s' \<and> count s \<le> count s' \<and>
     (count s' \<le> limit \<longrightarrow> set (colours s') = set (colours s) \<union> set cs)"
proof (induction cs arbitrary: s)
  case (Cons c cs)
  from insert_valid[OF Cons.prems, of c] obtain s1 where s1: "insert s c = Some s1" "valid s1"
    "if limit \<le> count s then count s1 = count s + 1
     else colours s1 = (if c \<in> set (colours s) then colours s else colours s @ [c]) \<and>
          count s1 = (if c \<in> set (colours s) then count s else count s + 1)" by blast
  from Cons.IH[OF s1(2)] obtain s2 where s2: "insert_all insert cs s1 = Some s2" "valid s2" "count s1 \<le> count s2"
    "count s2 \<le> limit \<longrightarrow> set (colours s2) = set (colours s1) \<union> set cs" by blast
  have "count s \<le> count s1" using s1(3) by (auto split: if_splits)
  moreover have "count s2 \<le> limit \<longrightarrow> set (colours s1) = Set.insert c (set (colours s))"
    using s1(3) s2(3) by (auto split: if_splits)
  ultimately show ?case using s1(1) s2 by auto
qed simp

lemma insert_all_room:
  "valid s \<Longrightarrow> count s \<le> limit \<Longrightarrow> card (set (colours s) \<union> set cs) < limit \<Longrightarrow> insert_all insert cs s = Some s' \<Longrightarrow> count s' \<le> limit"
proof (induction cs arbitrary: s)
  case (Cons c cs)
  from insert_valid[OF Cons.prems(1), of c] obtain s1 where s1: "insert s c = Some s1" "valid s1"
    "if limit \<le> count s then count s1 = count s + 1
     else colours s1 = (if c \<in> set (colours s) then colours s else colours s @ [c]) \<and>
          count s1 = (if c \<in> set (colours s) then count s else count s + 1)" by blast
  have "count s = card (set (colours s))"
    using valid_bounds[OF Cons.prems(1)] count_colours[OF Cons.prems(1,2)] by (simp add: distinct_card)
  also have "\<dots> \<le> card (set (colours s) \<union> set (c # cs))" by (intro card_mono) auto
  finally have few: "count s < limit" using Cons.prems(3) by linarith
  then have same: "set (colours s1) \<union> set cs = set (colours s) \<union> set (c # cs)" "count s1 \<le> limit"
    using s1(3) by (auto split: if_splits)
  show ?case
    by (rule Cons.IH[OF s1(2) same(2)]) (use Cons.prems(3,4) s1(1) same(1) in simp_all)
qed simp

lemma insert_all_order:
  "valid s \<Longrightarrow> insert_all insert cs s = Some s' \<Longrightarrow> count s' \<le> limit \<Longrightarrow>
     colours s' = fold note_colour cs (colours s)"
proof (induction cs arbitrary: s)
  case (Cons c cs)
  from insert_valid[OF Cons.prems(1), of c] obtain s1 where s1: "insert s c = Some s1" "valid s1"
    "if limit \<le> count s then count s1 = count s + 1
     else colours s1 = (if c \<in> set (colours s) then colours s else colours s @ [c]) \<and>
          count s1 = (if c \<in> set (colours s) then count s else count s + 1)" by blast
  have rest: "insert_all insert cs s1 = Some s'" using Cons.prems(2) s1(1) by simp
  then have "count s1 \<le> limit" using insert_all_valid[OF s1(2), of cs] Cons.prems(3) by auto
  then have "colours s1 = note_colour c (colours s)" using s1(3) by (auto simp: note_colour_def split: if_splits)
  with Cons.IH[OF s1(2) rest Cons.prems(3)] show ?case by simp
qed simp

text \<open>Few enough colours are all numbered, in the order of their first use.\<close>

lemma insert_all_exact:
  assumes "card (set cs) < limit"
  shows "\<exists>s. insert_all insert cs empty = Some s \<and> colours s = first_uses cs \<and> count s = card (set cs) \<and>
    (\<forall>c. lookup s c = Some (if c \<in> set cs then int (position c (first_uses cs)) else -1))"
proof -
  from insert_all_valid[OF valid_empty(1), of cs] obtain s where s: "insert_all insert cs empty = Some s" "valid s" by auto
  have few: "count s \<le> limit" by (rule insert_all_room[OF valid_empty(1) _ _ s(1)]) (use assms valid_empty in simp_all)
  have c: "colours s = first_uses cs"
    using insert_all_order[OF valid_empty(1) s(1) few] by (simp add: valid_empty fold_note_colour)
  then have "count s = card (set cs)" using count_colours[OF s(2) few] by (simp add: length_remdups_card_conv)
  then show ?thesis using s(1) c lookup_valid[OF s(2) few] by auto
qed

end


section \<open>The hash table\<close>

abbreviation slots :: nat where "slots \<equiv> ZRLE_PALETTE_MAX_SIZE + 4096"

definition ph_colours :: "palette_helper \<Rightarrow> uint32_t list" where
  "ph_colours ph = take (ph_size ph) (ph_palette ph)"

definition occupied :: "palette_helper \<Rightarrow> nat set" where
  "occupied ph = {i. i < slots \<and> ph_index ph ! i \<noteq> 255}"

text \<open>Every colour is reached from its hash over occupied slots, in the one slot with its number.\<close>

definition ph_valid :: "palette_helper \<Rightarrow> bool" where
  "ph_valid ph \<longleftrightarrow> length (ph_palette ph) = ZRLE_PALETTE_MAX_SIZE \<and> length (ph_index ph) = slots \<and> length (ph_key ph) = slots \<and>
     distinct (ph_colours ph) \<and>
     (\<forall>i\<in>occupied ph. unat (ph_index ph ! i) < length (ph_colours ph) \<and> ph_key ph ! i = ph_colours ph ! unat (ph_index ph ! i)) \<and>
     inj_on (\<lambda>i. ph_index ph ! i) (occupied ph) \<and>
     (\<forall>k<length (ph_colours ph). \<exists>i\<in>occupied ph. ZRLE_HASH (ph_colours ph ! k) \<le> i \<and> unat (ph_index ph ! i) = k \<and>
        {ZRLE_HASH (ph_colours ph ! k)..<i} \<subseteq> occupied ph)"

lemma ZRLE_HASH_le: "ZRLE_HASH pix \<le> 4095"
proof -
  have "(pix XOR drop_bit 17 pix) AND 4095 \<le> 4095" by (rule word_and_le1)
  then show ?thesis by (simp add: ZRLE_HASH_def word_le_nat_alt)
qed

lemma probe_found:
  "probe ph pix i = Some j \<Longrightarrow> i \<le> j \<and> j < length (ph_index ph) \<and> (ph_index ph ! j = 255 \<or> ph_key ph ! j = pix) \<and>
     (\<forall>l\<in>{i..<j}. ph_index ph ! l \<noteq> 255 \<and> ph_key ph ! l \<noteq> pix)"
proof (induction ph pix i rule: probe.induct)
  case (1 ph pix i)
  show ?case
  proof (cases "length (ph_index ph) \<le> i \<or> \<not> (ph_index ph ! i \<noteq> 255 \<and> ph_key ph ! i \<noteq> pix)")
    case True
    then show ?thesis using "1.prems" by (subst (asm) probe.simps) (auto split: if_splits)
  next
    case False
    then have "probe ph pix (i + 1) = Some j" using "1.prems" by (subst (asm) probe.simps) simp
    then have "i + 1 \<le> j \<and> j < length (ph_index ph) \<and> (ph_index ph ! j = 255 \<or> ph_key ph ! j = pix) \<and>
        (\<forall>l\<in>{i + 1..<j}. ph_index ph ! l \<noteq> 255 \<and> ph_key ph ! l \<noteq> pix)" using "1.IH" False by simp
    moreover have "{i..<j} = Set.insert i {i + 1..<j}" if "i + 1 \<le> j" using that by auto
    ultimately show ?thesis using False by auto
  qed
qed

lemma probe_None:
  "probe ph pix i = None \<Longrightarrow> \<forall>l\<in>{i..<length (ph_index ph)}. ph_index ph ! l \<noteq> 255"
proof (induction ph pix i rule: probe.induct)
  case (1 ph pix i)
  show ?case
  proof (cases "length (ph_index ph) \<le> i")
    case False
    then have go: "ph_index ph ! i \<noteq> 255 \<and> ph_key ph ! i \<noteq> pix" "probe ph pix (i + 1) = None"
      using "1.prems" by (subst (asm) probe.simps; auto split: if_splits)+
    then have "\<forall>l\<in>{i + 1..<length (ph_index ph)}. ph_index ph ! l \<noteq> 255" using "1.IH" False by simp
    moreover have "{i..<length (ph_index ph)} = Set.insert i {i + 1..<length (ph_index ph)}" using False by auto
    ultimately show ?thesis using go by simp
  qed simp
qed

lemma finite_occupied: "finite (occupied ph)" by (simp add: occupied_def)

lemma card_occupied: "ph_valid ph \<Longrightarrow> card (occupied ph) \<le> ZRLE_PALETTE_MAX_SIZE"
proof -
  assume v: "ph_valid ph"
  have "inj_on (\<lambda>i. unat (ph_index ph ! i)) (occupied ph)"
    using v unfolding ph_valid_def inj_on_def by (metis word_unat_eq_iff)
  moreover have "(\<lambda>i. unat (ph_index ph ! i)) ` occupied ph \<subseteq> {..<length (ph_colours ph)}" using v by (auto simp: ph_valid_def)
  ultimately have "card (occupied ph) \<le> card {..<length (ph_colours ph)}"
    by (metis card_inj_on_le finite_lessThan)
  also have "\<dots> \<le> ZRLE_PALETTE_MAX_SIZE" using v by (simp add: ph_valid_def ph_colours_def)
  finally show ?thesis .
qed

text \<open>The search ends at a free slot or at the slot of the colour.\<close>

lemma probe_spec:
  assumes "ph_valid ph"
  shows "\<exists>i. probe ph pix (ZRLE_HASH pix) = Some i \<and> i < slots \<and> ZRLE_HASH pix \<le> i \<and> {ZRLE_HASH pix..<i} \<subseteq> occupied ph \<and>
    (if pix \<in> set (ph_colours ph) then i \<in> occupied ph \<and> unat (ph_index ph ! i) = position pix (ph_colours ph)
     else i \<notin> occupied ph)"
proof -
  have len: "length (ph_index ph) = slots" using assms by (simp add: ph_valid_def)
  have "probe ph pix (ZRLE_HASH pix) \<noteq> None"
  proof
    assume "probe ph pix (ZRLE_HASH pix) = None"
    from probe_None[OF this] have "{4095..<slots} \<subseteq> occupied ph" using ZRLE_HASH_le[of pix] len by (auto simp: occupied_def)
    from card_mono[OF finite_occupied this] card_occupied[OF assms] show False by (simp add: ZRLE_PALETTE_MAX_SIZE_def)
  qed
  then obtain i where i: "probe ph pix (ZRLE_HASH pix) = Some i" by blast
  note f = probe_found[OF i]
  have path: "{ZRLE_HASH pix..<i} \<subseteq> occupied ph" using f len by (auto simp: occupied_def)
  have keys: "\<And>j. j \<in> occupied ph \<Longrightarrow> unat (ph_index ph ! j) < length (ph_colours ph) \<and> ph_key ph ! j = ph_colours ph ! unat (ph_index ph ! j)"
    using assms by (auto simp: ph_valid_def)
  show ?thesis
  proof (cases "pix \<in> set (ph_colours ph)")
    case True
    define k where "k = position pix (ph_colours ph)"
    have k: "k < length (ph_colours ph)" "ph_colours ph ! k = pix" using position_less[OF True] by (simp_all add: k_def)
    have "\<forall>k<length (ph_colours ph). \<exists>i\<in>occupied ph. ZRLE_HASH (ph_colours ph ! k) \<le> i \<and> unat (ph_index ph ! i) = k \<and>
        {ZRLE_HASH (ph_colours ph ! k)..<i} \<subseteq> occupied ph" using assms unfolding ph_valid_def by blast
    then obtain s where s: "s \<in> occupied ph" "ZRLE_HASH pix \<le> s" "unat (ph_index ph ! s) = k" "{ZRLE_HASH pix..<s} \<subseteq> occupied ph"
      using k by fastforce
    have sk: "ph_key ph ! s = pix" using keys[OF s(1)] s(3) k(2) by simp
    have "i \<le> s"
    proof (rule ccontr)
      assume "\<not> i \<le> s" then show False using f s(2) sk by auto
    qed
    moreover have "s \<le> i"
    proof (rule ccontr)
      assume n: "\<not> s \<le> i"
      then have o: "i \<in> occupied ph" using s(2,4) f by auto
      then have "ph_key ph ! i = pix" using f by (auto simp: occupied_def)
      then have "ph_colours ph ! unat (ph_index ph ! i) = ph_colours ph ! k" using keys[OF o] k(2) by simp
      then have "unat (ph_index ph ! i) = k" using keys[OF o] k(1) assms by (simp add: ph_valid_def nth_eq_iff_index_eq)
      then have "ph_index ph ! i = ph_index ph ! s" using s(3) by (metis word_unat_eq_iff)
      moreover have "inj_on (\<lambda>i. ph_index ph ! i) (occupied ph)" using assms by (simp add: ph_valid_def)
      ultimately show False using n o s(1) by (auto simp: inj_on_def)
    qed
    ultimately have "i = s" by simp
    then show ?thesis using i f s True len path by (auto simp: k_def)
  next
    case False
    have "i \<notin> occupied ph"
    proof
      assume o: "i \<in> occupied ph"
      then have "ph_key ph ! i = pix" using f by (auto simp: occupied_def)
      then show False using keys[OF o] False by (metis nth_mem)
    qed
    then show ?thesis using i f False len path by auto
  qed
qed

lemma insert_new:
  assumes "ph_valid ph" "ph_size ph < ZRLE_PALETTE_MAX_SIZE" "pix \<notin> set (ph_colours ph)"
    and "probe ph pix (ZRLE_HASH pix) = Some i"
  defines "ph' \<equiv> ph\<lparr>ph_index := (ph_index ph)[i := word_of_nat (ph_size ph)], ph_key := (ph_key ph)[i := pix],
      ph_palette := (ph_palette ph)[ph_size ph := pix], ph_size := ph_size ph + 1\<rparr>"
  shows "ph_valid ph' \<and> ph_colours ph' = ph_colours ph @ [pix]"
proof -
  have v: "length (ph_palette ph) = ZRLE_PALETTE_MAX_SIZE" "length (ph_index ph) = slots" "length (ph_key ph) = slots"
    "distinct (ph_colours ph)" "inj_on (\<lambda>i. ph_index ph ! i) (occupied ph)"
    and keys: "\<And>j. j \<in> occupied ph \<Longrightarrow> unat (ph_index ph ! j) < length (ph_colours ph) \<and> ph_key ph ! j = ph_colours ph ! unat (ph_index ph ! j)"
    and paths: "\<And>k. k < length (ph_colours ph) \<Longrightarrow> \<exists>i\<in>occupied ph. ZRLE_HASH (ph_colours ph ! k) \<le> i \<and> unat (ph_index ph ! i) = k \<and>
        {ZRLE_HASH (ph_colours ph ! k)..<i} \<subseteq> occupied ph"
    using assms(1) unfolding ph_valid_def by blast+
  have i: "i < slots" "ZRLE_HASH pix \<le> i" "{ZRLE_HASH pix..<i} \<subseteq> occupied ph" "i \<notin> occupied ph"
    using probe_spec[OF assms(1), of pix] assms(3,4) by auto
  have n: "length (ph_colours ph) = ph_size ph" using assms(2) v(1) by (simp add: ph_colours_def)
  have c: "ph_colours ph' = ph_colours ph @ [pix]"
    using assms(2) v(1) by (simp add: ph'_def ph_colours_def take_Suc_conv_app_nth)
  have u: "unat (word_of_nat (ph_size ph) :: uint8_t) = ph_size ph"
    using assms(2) by (simp add: ZRLE_PALETTE_MAX_SIZE_def unat_of_nat take_bit_nat_eq_self_iff)
  then have ne: "(word_of_nat (ph_size ph) :: uint8_t) \<noteq> 255" using assms(2) by (auto simp: ZRLE_PALETTE_MAX_SIZE_def)
  have o: "occupied ph' = Set.insert i (occupied ph)"
    using i(1) v(2) ne by (auto simp: occupied_def ph'_def nth_list_update)
  have at: "ph_index ph' ! j = ph_index ph ! j" "ph_key ph' ! j = ph_key ph ! j" if "j \<in> occupied ph" for j
    using that i(4) by (cases "i = j"; simp add: ph'_def)+
  have ati: "ph_index ph' ! i = word_of_nat (ph_size ph)" "ph_key ph' ! i = pix" using i(1) v by (simp_all add: ph'_def)
  have "\<forall>j\<in>occupied ph'. unat (ph_index ph' ! j) < length (ph_colours ph') \<and> ph_key ph' ! j = ph_colours ph' ! unat (ph_index ph' ! j)"
    using keys at ati u n by (fastforce simp: o c nth_append)
  moreover have "inj_on (\<lambda>j. ph_index ph' ! j) (occupied ph')"
  proof -
    have "ph_index ph' ! i \<noteq> ph_index ph' ! j" if "j \<in> occupied ph" for j
      using keys[OF that] at[OF that] ati u n by auto
    then show ?thesis using v(5) at unfolding o inj_on_def by (metis insert_iff)
  qed
  moreover have "\<exists>j\<in>occupied ph'. ZRLE_HASH (ph_colours ph' ! k) \<le> j \<and> unat (ph_index ph' ! j) = k \<and>
      {ZRLE_HASH (ph_colours ph' ! k)..<j} \<subseteq> occupied ph'" if "k < length (ph_colours ph')" for k
  proof (cases "k < length (ph_colours ph)")
    case True
    from paths[OF this] obtain j where j: "j \<in> occupied ph" "ZRLE_HASH (ph_colours ph ! k) \<le> j" "unat (ph_index ph ! j) = k"
      "{ZRLE_HASH (ph_colours ph ! k)..<j} \<subseteq> occupied ph" by blast
    then show ?thesis using True at by (intro bexI[of _ j]) (auto simp: o c nth_append)
  next
    case False
    then have "k = ph_size ph" using that n by (simp add: c)
    then show ?thesis using i ati u n by (intro bexI[of _ i]) (auto simp: o c nth_append)
  qed
  moreover have "distinct (ph_colours ph')" using v(4) assms(3) by (simp add: c)
  ultimately show ?thesis using v c by (simp add: ph_valid_def) (simp add: ph'_def)
qed

interpretation palette: colour_table zrlePaletteHelperInit zrlePaletteHelperInsert zrlePaletteHelperLookup
  ph_colours ph_size ZRLE_PALETTE_MAX_SIZE ph_valid
proof
  show "ph_valid zrlePaletteHelperInit"
    by (auto simp: ph_valid_def zrlePaletteHelperInit_def ph_colours_def occupied_def inj_on_def simp del: replicate_Suc)
  show "ph_colours zrlePaletteHelperInit = []" by (simp add: ph_colours_def zrlePaletteHelperInit_def)
  show "ph_size zrlePaletteHelperInit = 0" by (simp add: zrlePaletteHelperInit_def)
next
  fix s assume "ph_valid s"
  then show "distinct (ph_colours s) \<and> length (ph_colours s) = min ZRLE_PALETTE_MAX_SIZE (ph_size s)"
    by (simp add: ph_valid_def ph_colours_def)
next
  fix s c assume v: "ph_valid s"
  show "\<exists>s'. zrlePaletteHelperInsert s c = Some s' \<and> ph_valid s' \<and>
      (if ZRLE_PALETTE_MAX_SIZE \<le> ph_size s then ph_size s' = ph_size s + 1
       else ph_colours s' = (if c \<in> set (ph_colours s) then ph_colours s else ph_colours s @ [c]) \<and>
            ph_size s' = (if c \<in> set (ph_colours s) then ph_size s else ph_size s + 1))"
  proof (cases "ZRLE_PALETTE_MAX_SIZE \<le> ph_size s")
    case True
    have "ph_colours (s\<lparr>ph_size := ph_size s + 1\<rparr>) = ph_colours s" using v True by (simp add: ph_valid_def ph_colours_def)
    then have "ph_valid (s\<lparr>ph_size := ph_size s + 1\<rparr>)" using v by (simp add: ph_valid_def occupied_def)
    then show ?thesis using True by (simp add: zrlePaletteHelperInsert_def)
  next
    case False
    obtain i where i: "probe s c (ZRLE_HASH c) = Some i" "i < slots"
      "if c \<in> set (ph_colours s) then i \<in> occupied s else i \<notin> occupied s"
      using probe_spec[OF v, of c] by (auto split: if_splits)
    show ?thesis
    proof (cases "c \<in> set (ph_colours s)")
      case True
      then show ?thesis using i False v by (simp add: zrlePaletteHelperInsert_def occupied_def)
    next
      case new: False
      then have "zrlePaletteHelperInsert s c = Some (s\<lparr>ph_index := (ph_index s)[i := word_of_nat (ph_size s)],
          ph_key := (ph_key s)[i := c], ph_palette := (ph_palette s)[ph_size s := c], ph_size := ph_size s + 1\<rparr>)"
        using i False by (simp add: zrlePaletteHelperInsert_def occupied_def)
      then show ?thesis using insert_new[OF v _ new i(1)] False new by simp
    qed
  qed
next
  fix s c assume v: "ph_valid s" and "ph_size s \<le> ZRLE_PALETTE_MAX_SIZE"
  then show "zrlePaletteHelperLookup s c = Some (if c \<in> set (ph_colours s) then int (position c (ph_colours s)) else -1)"
    using probe_spec[OF v, of c] by (auto simp: zrlePaletteHelperLookup_def occupied_def uint_nat)
qed


text \<open>
  C19: The hash table of colours. Fewer than 127 different colours, in any sequence and with any collisions, are
  all stored without running off the arrays: the palette is the list of the colours in the order of their first use,
  each once, its size is their number, and looking a colour up gives its place in that list; any other colour gives -1.
\<close>

theorem zrlePaletteHelper_exact:
  assumes "card (set cs) < ZRLE_PALETTE_MAX_SIZE"
  shows "\<exists>ph. insert_all zrlePaletteHelperInsert cs zrlePaletteHelperInit = Some ph \<and>
    ph_colours ph = first_uses cs \<and> ph_size ph = card (set cs) \<and>
    (\<forall>c. zrlePaletteHelperLookup ph c = Some (if c \<in> set cs then int (position c (first_uses cs)) else -1))"
  using assms by (rule palette.insert_all_exact)

text \<open>Two colours with the same hash, and a third.\<close>

theorem zrlePaletteHelper_exact_witness:
  "ZRLE_HASH 1 = ZRLE_HASH 0x20000 \<and>
   (\<exists>ph. insert_all zrlePaletteHelperInsert [0x20000, 1, 0x20000, 7, 1] zrlePaletteHelperInit = Some ph \<and>
      ph_colours ph = [0x20000, 1, 7] \<and> ph_size ph = 3 \<and>
      zrlePaletteHelperLookup ph 1 = Some 1 \<and> zrlePaletteHelperLookup ph 9 = Some (-1))"
proof -
  let ?cs = "[0x20000, 1, 0x20000, 7, 1 :: uint32_t]"
  have n: "card (set ?cs) = 3" by code_simp
  then have "card (set ?cs) < ZRLE_PALETTE_MAX_SIZE" by (simp add: ZRLE_PALETTE_MAX_SIZE_def)
  from zrlePaletteHelper_exact[OF this] obtain ph where
    "insert_all zrlePaletteHelperInsert ?cs zrlePaletteHelperInit = Some ph" "ph_colours ph = first_uses ?cs"
    "ph_size ph = card (set ?cs)"
    "\<forall>c. zrlePaletteHelperLookup ph c = Some (if c \<in> set ?cs then int (position c (first_uses ?cs)) else -1)" by blast
  moreover have "first_uses ?cs = [0x20000, 1, 7]" by code_simp
  moreover have "ZRLE_HASH 1 = ZRLE_HASH 0x20000" by code_simp
  ultimately show ?thesis using n by simp
qed

end
