(* ===== verification/Zrle.thy ===== *)
theory Zrle
  imports ZrlePalette ClientFrame
begin

text \<open>
  A tile in the ZRLE encoding: \<open>libvncserver/zrleencodetemplate.c\<close> and \<open>libvncclient/zrle.c\<close>. A tile of at
  most 64 by 64 pixels is sent as one colour, as pixels, as runs, or with a palette of its colours as
  packed numbers or runs of them, whichever is estimated to be the shortest. The definitions are
  polymorphic in the type of a pixel where the C code is a template. The lossy variant ZYWRLE
  transforms the pixels first; its transforms are arguments here.
\<close>

section \<open>Pixels on the wire\<close>

text \<open>How many bytes of a pixel are sent: all (8, 15, 16, 32), or three of four (\<open>24A\<close>, \<open>24B\<close>).\<close>

datatype cpixel = Whole | Low24 | High24

definition cpixel_bytes :: "cpixel \<Rightarrow> 'a::len word \<Rightarrow> uint8_t list" where
  "cpixel_bytes c p =
     (case c of Whole \<Rightarrow> pixel_bytes p | Low24 \<Rightarrow> take 3 (pixel_bytes p) | High24 \<Rightarrow> take 3 (drop 1 (pixel_bytes p)))"

definition cpixel_size :: "cpixel \<Rightarrow> 'a::len itself \<Rightarrow> nat" where
  "cpixel_size c T = (case c of Whole \<Rightarrow> pixel_size T | Low24 \<Rightarrow> 3 | High24 \<Rightarrow> 3)"

text \<open>What is written to the out stream: a few bytes at once, or a longer piece.\<close>

datatype zwrite = Opaque "uint8_t list" | Bytes "uint8_t list"

primrec written :: "zwrite \<Rightarrow> uint8_t list" where
  "written (Opaque bs) = bs"
| "written (Bytes bs) = bs"

section \<open>Encoding a tile\<close>

text \<open>The palette, the number of runs and of single pixels.\<close>

function scan_tile :: "'a::len word list \<Rightarrow> palette_helper \<Rightarrow> nat \<Rightarrow> nat \<Rightarrow> (palette_helper \<times> nat \<times> nat) option" where
  "scan_tile [] ph runs singlePixels = Some (ph, runs, singlePixels)"
| "scan_tile (pix # ps) ph runs singlePixels =
     (let rest = dropWhile (\<lambda>q. q = pix) ps
      in case zrlePaletteHelperInsert ph (ucast pix) of
           None \<Rightarrow> None
         | Some ph \<Rightarrow>
             (if length rest = length ps then scan_tile rest ph runs (singlePixels + 1)
              else scan_tile rest ph (runs + 1) singlePixels))"
  by pat_completeness auto
termination
  by (relation "measure (\<lambda>(ps, ph, r, s). length ps)") (auto simp: less_Suc_eq_le length_dropWhile_le)

definition bitsPerPackedPixel :: "nat list" where
  "bitsPerPackedPixel = [0, 1, 2, 2, 4, 4, 4, 4, 4, 4, 4, 4, 4, 4, 4, 4]"

text \<open>\<open>useRle\<close> and \<open>usePalette\<close>; \<open>psize\<close> counts the colours.\<close>

definition zrle_method :: "nat \<Rightarrow> nat \<Rightarrow> nat \<Rightarrow> nat \<Rightarrow> nat \<Rightarrow> nat \<Rightarrow> bool \<times> bool" where
  "zrle_method b pixels level runs singlePixels psize =
     (let estimated = pixels * b;
          estimated = (if 0 < level \<and> \<not> bit level 7 then drop_bit level estimated else estimated);
          plainRleBytes = (b + 1) * (runs + singlePixels);
          (useRle, estimated) = (if plainRleBytes < estimated then (True, plainRleBytes) else (False, estimated))
      in if psize < 128
         then (let paletteRleBytes = b * psize + 2 * runs + singlePixels;
                   (useRle, usePalette, estimated) =
                     (if paletteRleBytes < estimated then (True, True, paletteRleBytes) else (useRle, False, estimated))
               in if psize < 17
                  then (let packedBytes = b * psize + pixels * bitsPerPackedPixel ! (psize - 1) div 8
                        in if packedBytes < estimated then (False, True) else (useRle, usePalette))
                  else (useRle, usePalette))
         else (useRle, False))"

function run_length_writes :: "nat \<Rightarrow> zwrite list" where
  "run_length_writes len =
     (if 255 \<le> len then Opaque [255] # run_length_writes (len - 255) else [Opaque [word_of_nat len]])"
  by pat_completeness auto
termination
  by (relation "measure id") auto

declare run_length_writes.simps [simp del]

text \<open>The number of a colour as a byte.\<close>

definition colour_number :: "palette_helper \<Rightarrow> 'a::len word \<Rightarrow> uint8_t option" where
  "colour_number ph pix = map_option word_of_int (zrlePaletteHelperLookup ph (ucast pix))"

function rle_writes :: "cpixel \<Rightarrow> bool \<Rightarrow> palette_helper \<Rightarrow> 'a::len word list \<Rightarrow> zwrite list option" where
  "rle_writes c usePalette ph [] = Some []"
| "rle_writes c usePalette ph (pix # ps) =
     (let rest = dropWhile (\<lambda>q. q = pix) ps;
          len = 1 + (length ps - length rest)
      in case (if usePalette then map_option Some (colour_number ph pix) else Some None) of
           None \<Rightarrow> None
         | Some number \<Rightarrow>
            (let ws = (case number of
                         None \<Rightarrow> Opaque (cpixel_bytes c pix) # run_length_writes (len - 1)
                       | Some index \<Rightarrow>
                           (if len \<le> 2 then replicate len (Opaque [index])
                            else Opaque [index OR 128] # run_length_writes (len - 1)))
             in map_option ((@) ws) (rle_writes c usePalette ph rest)))"
  by pat_completeness auto
termination
  by (relation "measure (\<lambda>(c, u, ph, ps). length ps)") (auto simp: less_Suc_eq_le length_dropWhile_le)

text \<open>One row of packed numbers; bits that were already written are shifted out of \<open>byte\<close>.\<close>

fun pack_row :: "nat \<Rightarrow> palette_helper \<Rightarrow> 'a::len word list \<Rightarrow> nat \<Rightarrow> uint8_t \<Rightarrow> zwrite list option" where
  "pack_row bppp ph [] nbits byte = Some (if 0 < nbits then [Opaque [push_bit (8 - nbits) byte]] else [])"
| "pack_row bppp ph (pix # ps) nbits byte =
     (case colour_number ph pix of
        None \<Rightarrow> None
      | Some index \<Rightarrow>
         (let byte = push_bit bppp byte OR index; nbits = nbits + bppp
          in if 8 \<le> nbits then map_option ((#) (Opaque [byte])) (pack_row bppp ph ps 0 byte)
             else pack_row bppp ph ps nbits byte))"

fun pack_rows :: "nat \<Rightarrow> palette_helper \<Rightarrow> nat \<Rightarrow> nat \<Rightarrow> 'a::len word list \<Rightarrow> zwrite list option" where
  "pack_rows bppp ph w 0 ps = Some []"
| "pack_rows bppp ph w (Suc h) ps =
     (case pack_row bppp ph (take w ps) 0 0 of
        None \<Rightarrow> None
      | Some ws \<Rightarrow> map_option ((@) ws) (pack_rows bppp ph w h (drop w ps)))"

definition raw_writes :: "cpixel \<Rightarrow> 'a::len word list \<Rightarrow> zwrite list" where
  "raw_writes c ps =
     (if c = Whole then [Bytes (concat (map pixel_bytes ps))] else map (\<lambda>p. Opaque (cpixel_bytes c p)) ps)"

text \<open>
  \<open>again\<close> is what the recursive call for the transformed pixels writes. \<open>None\<close>: a failed assertion or an
  access outside the arrays of the palette.
\<close>

definition encode_tile :: "cpixel \<Rightarrow> 'a::len word list \<Rightarrow> nat \<Rightarrow> nat \<Rightarrow> nat \<Rightarrow> zwrite list option \<Rightarrow> zwrite list option" where
  "encode_tile c data w h level again =
     (case scan_tile data zrlePaletteHelperInit 0 0 of
        None \<Rightarrow> None
      | Some (ph, runs, singlePixels) \<Rightarrow>
         (if ph_size ph = 1
          then Some [Opaque [1], Opaque (cpixel_bytes c (ucast (ph_palette ph ! 0) :: 'a word))]
          else
           (let level = (if LENGTH('a) = 8 then 0 else level);
                (useRle, usePalette) = zrle_method (cpixel_size c TYPE('a)) (w * h) level runs singlePixels (ph_size ph);
                psize = (if usePalette then ph_size ph else 0);
                header = Opaque [(if useRle then 128 else 0) OR word_of_nat psize] #
                  map (\<lambda>i. Opaque (cpixel_bytes c (ucast (ph_palette ph ! i) :: 'a word))) [0..<psize]
            in map_option ((@) header)
                 (if useRle then rle_writes c usePalette ph data
                  else if usePalette
                  then (if 17 \<le> psize then None else pack_rows (bitsPerPackedPixel ! (psize - 1)) ph w h data)
                  else if 0 < level \<and> \<not> bit level 7 then again
                  else Some (raw_writes c data)))))"

definition ZRLE_ENCODE_TILE ::
    "('a::len word list \<Rightarrow> nat \<Rightarrow> nat \<Rightarrow> nat \<Rightarrow> 'a word list) \<Rightarrow> cpixel \<Rightarrow> 'a word list \<Rightarrow> nat \<Rightarrow> nat \<Rightarrow> nat \<Rightarrow>
     zwrite list option" where
  "ZRLE_ENCODE_TILE analyze c data w h level =
     encode_tile c data w h level (encode_tile c (analyze data w h level) w h (level OR 128) None)"

section \<open>Decoding a tile\<close>

text \<open>\<open>REALBPP\<close> and \<open>UNCOMP\<close> of the variants of \<open>HandleZRLE\<close>.\<close>

datatype uncomp = AsIs | Down | Up

record zrle_variant =
  realbpp :: nat
  uncomp :: uncomp

definition real_bytes :: "zrle_variant \<Rightarrow> nat" where
  "real_bytes v = realbpp v div 8"

text \<open>
  The memory \<open>mem\<close> is the raw buffer; a tile starts at \<open>p\<close> and its data ends at \<open>e\<close>. \<open>None\<close> stands for a read
  outside the raw buffer, of a colour the palette does not have, or a write outside the palette.
\<close>

definition mem_at :: "uint8_t list \<Rightarrow> nat \<Rightarrow> uint8_t option" where
  "mem_at mem p = (if p < length mem then Some (mem ! p) else None)"

definition UncompressCPixel :: "zrle_variant \<Rightarrow> uint8_t list \<Rightarrow> nat \<Rightarrow> 'a::len word option" where
  "UncompressCPixel v mem p =
     (if p + pixel_size TYPE('a) \<le> length mem
      then Some (let pix = pixel_of (take (pixel_size TYPE('a)) (drop p mem))
                 in case uncomp v of AsIs \<Rightarrow> pix | Down \<Rightarrow> drop_bit 8 pix | Up \<Rightarrow> push_bit 8 pix)
      else None)"

fun read_pixels :: "zrle_variant \<Rightarrow> uint8_t list \<Rightarrow> nat \<Rightarrow> nat \<Rightarrow> 'a::len word list option" where
  "read_pixels v mem p 0 = Some []"
| "read_pixels v mem p (Suc n) =
     (case UncompressCPixel v mem p of
        None \<Rightarrow> None
      | Some pix \<Rightarrow> map_option ((#) pix) (read_pixels v mem (p + real_bytes v) n))"

definition palette_at :: "'p list \<Rightarrow> nat \<Rightarrow> 'p option" where
  "palette_at pal i = (if i < length pal then Some (pal ! i) else None)"

text \<open>A row of packed numbers: the pixels and the next position.\<close>

fun unpack_row :: "uint8_t list \<Rightarrow> nat \<Rightarrow> 'p list \<Rightarrow> nat \<Rightarrow> int \<Rightarrow> nat \<Rightarrow> ('p list \<times> nat) option" where
  "unpack_row mem bpp pal 0 shift p = Some ([], if shift < 8 - int bpp then p + 1 else p)"
| "unpack_row mem bpp pal (Suc n) shift p =
     (case mem_at mem p of
        None \<Rightarrow> None
      | Some b \<Rightarrow>
         (case palette_at pal (unat (drop_bit (nat shift) b AND mask bpp)) of
            None \<Rightarrow> None
          | Some pix \<Rightarrow>
             (let (shift, p) = (if shift - int bpp < 0 then (8 - int bpp, p + 1) else (shift - int bpp, p))
              in map_option (\<lambda>(ps, p). (pix # ps, p)) (unpack_row mem bpp pal n shift p))))"

fun unpack_rows :: "uint8_t list \<Rightarrow> nat \<Rightarrow> 'p list \<Rightarrow> nat \<Rightarrow> nat \<Rightarrow> nat \<Rightarrow> ('p list \<times> nat) option" where
  "unpack_rows mem bpp pal w 0 p = Some ([], p)"
| "unpack_rows mem bpp pal w (Suc h) p =
     (case unpack_row mem bpp pal w (8 - int bpp) p of
        None \<Rightarrow> None
      | Some (row, p) \<Rightarrow> map_option (\<lambda>(ps, p). (row @ ps, p)) (unpack_rows mem bpp pal w h p))"

text \<open>The length of a run that starts with \<open>len\<close>, and the next position, or the error code.\<close>

function read_run_length :: "uint8_t list \<Rightarrow> nat \<Rightarrow> nat \<Rightarrow> nat \<Rightarrow> (int + nat \<times> nat) option" where
  "read_run_length mem e p len =
     (case mem_at mem p of
        None \<Rightarrow> None
      | Some b \<Rightarrow>
         (if b = 255
          then (if e \<le> p + 1 then Some (Inl (-8)) else read_run_length mem e (p + 1) (len + 255))
          else Some (Inr (len + unat b, p + 1))))"
  by pat_completeness auto
termination
  by (relation "measure (\<lambda>(mem, e, p, len). e - p)") auto

declare read_run_length.simps [simp del]

lemma read_run_length_advances: "read_run_length mem e p len = Some (Inr (n, q)) \<Longrightarrow> p < q"
proof (induction mem e p len rule: read_run_length.induct)
  case (1 mem e p len)
  show ?case
  proof (cases "mem_at mem p")
    case None
    then show ?thesis using "1.prems" by (simp add: read_run_length.simps)
  next
    case (Some b)
    then show ?thesis using "1.prems" "1.IH"[OF Some] by (subst (asm) read_run_length.simps) (auto split: if_splits)
  qed
qed

text \<open>\<open>while (j < h && length > 0)\<close>: the run goes on at the start of the next row.\<close>

fun put_run :: "nat \<Rightarrow> nat \<Rightarrow> nat \<Rightarrow> nat \<Rightarrow> nat \<Rightarrow> 'p \<Rightarrow> nat \<Rightarrow> 'p list \<Rightarrow> nat \<Rightarrow> nat \<Rightarrow> 'p list \<times> nat \<times> nat" where
  "put_run width x y w h c 0 fb i j = (fb, i, j)"
| "put_run width x y w h c (Suc n) fb i j =
     (if j < h
      then (let fb = fb[(y + j) * width + x + i := c]
            in if w \<le> i + 1 then put_run width x y w h c n fb 0 (j + 1) else put_run width x y w h c n fb (i + 1) j)
      else (fb, i, j))"

text \<open>The loops over the runs. The frame buffer keeps what was drawn before an error.\<close>

function plain_runs ::
    "zrle_variant \<Rightarrow> nat \<Rightarrow> nat \<Rightarrow> nat \<Rightarrow> nat \<Rightarrow> nat \<Rightarrow> uint8_t list \<Rightarrow> nat \<Rightarrow> nat \<Rightarrow> 'a::len word list \<Rightarrow> nat \<Rightarrow> nat \<Rightarrow>
     ('a word list \<times> (int + nat)) option" where
  "plain_runs v width x y w h mem e p fb i j =
     (if \<not> j < h then Some (fb, Inr p)
      else if e < p + real_bytes v + 1 then Some (fb, Inl (-7))
      else (case UncompressCPixel v mem p of
              None \<Rightarrow> None
            | Some c \<Rightarrow>
               (case read_run_length mem e (p + real_bytes v) 1 of
                  None \<Rightarrow> None
                | Some (Inl err) \<Rightarrow> Some (fb, Inl err)
                | Some (Inr (n, q)) \<Rightarrow>
                   (let (fb, i, j) = put_run width x y w h c n fb i j
                    in plain_runs v width x y w h mem e q fb i j))))"
  by pat_completeness auto
termination
  by (relation "measure (\<lambda>(v, width, x, y, w, h, mem, e, p, fb, i, j). e - p)") (auto dest: read_run_length_advances)

declare plain_runs.simps [simp del]

definition read_palette_run :: "uint8_t list \<Rightarrow> nat \<Rightarrow> nat \<Rightarrow> uint8_t \<Rightarrow> (int + nat \<times> nat) option" where
  "read_palette_run mem e p b =
     (if bit b 7
      then (if e \<le> p + 1 then Some (Inl (-11)) else read_run_length mem e (p + 1) 1)
      else Some (Inr (1, p + 1)))"

lemma read_palette_run_advances: "read_palette_run mem e p b = Some (Inr (n, q)) \<Longrightarrow> p < q"
  by (auto simp: read_palette_run_def split: if_splits dest: read_run_length_advances)

function palette_runs ::
    "'p list \<Rightarrow> nat \<Rightarrow> nat \<Rightarrow> nat \<Rightarrow> nat \<Rightarrow> nat \<Rightarrow> uint8_t list \<Rightarrow> nat \<Rightarrow> nat \<Rightarrow> 'p list \<Rightarrow> nat \<Rightarrow> nat \<Rightarrow>
     ('p list \<times> (int + nat)) option" where
  "palette_runs pal width x y w h mem e p fb i j =
     (if \<not> j < h then Some (fb, Inr p)
      else if e \<le> p then Some (fb, Inl (-10))
      else (case mem_at mem p of
              None \<Rightarrow> None
            | Some b \<Rightarrow>
               (case palette_at pal (unat (b AND 127)) of
                  None \<Rightarrow> None
                | Some c \<Rightarrow>
                   (case read_palette_run mem e p b of
                      None \<Rightarrow> None
                    | Some (Inl err) \<Rightarrow> Some (fb, Inl err)
                    | Some (Inr (n, q)) \<Rightarrow>
                       (let (fb, i, j) = put_run width x y w h c n fb i j
                        in palette_runs pal width x y w h mem e q fb i j)))))"
  by pat_completeness auto
termination
  by (relation "measure (\<lambda>(pal, width, x, y, w, h, mem, e, p, fb, i, j). e - p)") (auto dest: read_palette_run_advances)

declare palette_runs.simps [simp del]

text \<open>
  \<open>buffer_length\<close> is unsigned: behind the end of the data it is huge, so no data is missing there.
\<close>

definition shorter :: "nat \<Rightarrow> nat \<Rightarrow> nat \<Rightarrow> bool" where
  "shorter p e n \<longleftrightarrow> p \<le> e \<and> e - p < n"

text \<open>\<open>REALBPP\<close> is not \<open>BPP\<close> where pixels are not sent as they are in memory.\<close>

definition decode_tile ::
    "zrle_variant \<Rightarrow> nat \<Rightarrow> 'a::len word list \<Rightarrow> uint8_t list \<Rightarrow> nat \<Rightarrow> nat \<Rightarrow> nat \<Rightarrow> nat \<Rightarrow> nat \<Rightarrow> nat \<Rightarrow> bool \<Rightarrow>
     ('a word list \<times> (int + nat)) option \<Rightarrow> ('a word list \<times> (int + nat)) option" where
  "decode_tile v width fb mem p e x y w h transformed again =
     (if shorter p e 1 then Some (fb, Inl (-2))
      else case mem_at mem p of
        None \<Rightarrow> None
      | Some ty \<Rightarrow>
         (let type = unat ty; q = p + 1
          in if type = 0
             then (if transformed then again
                   else if realbpp v \<noteq> LENGTH('a) \<and> shorter p e (1 + w * h * realbpp v div 8) then Some (fb, Inl (-3))
                   else map_option (\<lambda>ps. (CopyRectangle width fb ps x y w h, Inr (q + w * h * real_bytes v)))
                          (read_pixels v mem q (w * h)))
             else if type = 1
             then (case UncompressCPixel v mem q of
                     None \<Rightarrow> None
                   | Some c \<Rightarrow>
                      (if shorter p e (1 + real_bytes v) then Some (fb, Inl (-4))
                       else Some (FillRectangle width fb x y w h c, Inr (q + real_bytes v))))
             else if type \<le> 127
             then (let bpp = (if 4 < type then (if 16 < type then 8 else 4) else if 2 < type then 2 else 1);
                       divider = 8 div bpp
                   in if shorter p e (1 + type * realbpp v div 8 + (w + divider - 1) div divider * h) then Some (fb, Inl (-5))
                      else if 16 < type then None
                      else (case read_pixels v mem q type of
                              None \<Rightarrow> None
                            | Some pal \<Rightarrow>
                                map_option (\<lambda>(ps, r). (CopyRectangle width fb ps x y w h, Inr r))
                                  (unpack_rows mem bpp pal w h (q + type * real_bytes v))))
             else if type = 128 then plain_runs v width x y w h mem e q fb 0 0
             else if type = 129 then Some (fb, Inl (-8))
             else if shorter p e (2 + (type - 128) * realbpp v div 8) then Some (fb, Inl (-9))
             else (case read_pixels v mem q (type - 128) of
                     None \<Rightarrow> None
                   | Some pal \<Rightarrow> palette_runs pal width x y w h mem e (q + (type - 128) * real_bytes v) fb 0 0)))"

text \<open>
  A transformed raw tile holds a tile of its own after the byte of its type; \<open>synthesize\<close> undoes the transform
  in the frame buffer.
\<close>

definition HandleZRLETile ::
    "('a::len word list \<Rightarrow> nat \<Rightarrow> nat \<Rightarrow> nat \<Rightarrow> nat \<Rightarrow> nat \<Rightarrow> 'a word list) \<Rightarrow> nat \<Rightarrow> zrle_variant \<Rightarrow> nat \<Rightarrow> 'a word list \<Rightarrow>
     uint8_t list \<Rightarrow> nat \<Rightarrow> nat \<Rightarrow> nat \<Rightarrow> nat \<Rightarrow> nat \<Rightarrow> nat \<Rightarrow> ('a word list \<times> (int + nat)) option" where
  "HandleZRLETile synthesize level v width fb mem p e x y w h =
     decode_tile v width fb mem p e x y w h (LENGTH('a) \<noteq> 8 \<and> 0 < level)
       (case decode_tile v width fb mem (p + 1) e x y w h False None of
          None \<Rightarrow> None
        | Some (fb, Inl err) \<Rightarrow> Some (fb, Inl err)
        | Some (fb, Inr q) \<Rightarrow> Some (synthesize fb x y w h level, Inr q))"

end
