(* ===== verification/Minilzo.thy ===== *)
theory Minilzo
  imports Prelude "HOL-Library.Monad_Syntax"
begin

unbundle bit_operations_syntax

text \<open>
  LZO1X-1 (\<open>minilzo.c\<close>, the same file in both libraries): \<open>lzo1x_1_compress\<close> and the decompressor the
  client calls, \<open>lzo1x_decompress\<close>, which checks neither the end of its input nor of its output. Positions in a
  buffer are numbers, a pointer into the input is its distance from the start of the input. \<open>None\<close> stands for an
  access outside a buffer. Where the code copies four bytes at once this is the same as byte by byte. Pointers are
  as wide as \<open>lzo_uint\<close> and no buffer starts in the first 48 kilobytes, so differences of pointers do not wrap around.
\<close>

definition LZO_E_OK :: int where "LZO_E_OK = 0"
definition LZO_E_INPUT_OVERRUN :: int where "LZO_E_INPUT_OVERRUN = -4"
definition LZO_E_INPUT_NOT_CONSUMED :: int where "LZO_E_INPUT_NOT_CONSUMED = -8"

definition M2_MAX_OFFSET :: nat where "M2_MAX_OFFSET = 0x0800"
definition M3_MAX_OFFSET :: nat where "M3_MAX_OFFSET = 0x4000"
definition M4_MAX_OFFSET :: nat where "M4_MAX_OFFSET = 0xBFFF"
definition M2_MAX_LEN :: nat where "M2_MAX_LEN = 8"
definition M3_MAX_LEN :: nat where "M3_MAX_LEN = 33"
definition M4_MAX_LEN :: nat where "M4_MAX_LEN = 9"
definition M3_MARKER :: nat where "M3_MARKER = 32"
definition M4_MARKER :: nat where "M4_MARKER = 16"

definition LZO_BYTE :: "nat \<Rightarrow> uint8_t" where "LZO_BYTE x = word_of_nat (x AND 0xFF)"

definition byte_at :: "uint8_t list \<Rightarrow> nat \<Rightarrow> uint8_t option" where
  "byte_at bs i = (if i < length bs then Some (bs ! i) else None)"

section \<open>Finding a match\<close>

text \<open>The places of the dictionary, of \<open>D_BITS = 14\<close> bits, that four bytes are hashed to: \<open>DX3(p,5,5,6)\<close> and its other place.\<close>

definition DINDEX1 :: "uint8_t list \<Rightarrow> nat \<Rightarrow> nat option" where
  "DINDEX1 src ip =
     do { p0 \<leftarrow> byte_at src ip;
          p1 \<leftarrow> byte_at src (ip + 1);
          p2 \<leftarrow> byte_at src (ip + 2);
          p3 \<leftarrow> byte_at src (ip + 3);
          (let dx = push_bit 5 (push_bit 5 (push_bit 6 (ucast p3) XOR ucast p2) XOR ucast p1) XOR ucast p0 :: uint32_t
           in Some (unat (drop_bit 5 (0x21 * dx) AND 0x3FFF))) }"

definition DINDEX2 :: "nat \<Rightarrow> nat" where
  "DINDEX2 d = (d AND 0x7FF) XOR (0x2000 OR 0x1F)"

text \<open>
  The dictionary is the work memory, which nobody initialises: any pointer may stand there, before, in or
  behind the input. \<open>LZO_CHECK_MPOS_NON_DET\<close>, negated:
\<close>

type_synonym lzo_dict = "nat \<Rightarrow> int"

definition usable :: "int \<Rightarrow> nat \<Rightarrow> bool" where
  "usable m_pos ip \<longleftrightarrow> \<not> (m_pos < 0 \<or> int ip - m_pos \<le> 0 \<or> int M4_MAX_OFFSET < int ip - m_pos)"

definition same_byte :: "uint8_t list \<Rightarrow> nat \<Rightarrow> nat \<Rightarrow> bool option" where
  "same_byte src a b = do { x \<leftarrow> byte_at src a; y \<leftarrow> byte_at src b; Some (x = y) }"

definition try_match :: "uint8_t list \<Rightarrow> nat \<Rightarrow> nat \<Rightarrow> bool option" where
  "try_match src m_pos ip =
     do { s0 \<leftarrow> same_byte src m_pos ip;
          if \<not> s0 then Some False
          else do { s1 \<leftarrow> same_byte src (m_pos + 1) (ip + 1);
                    if \<not> s1 then Some False else same_byte src (m_pos + 2) (ip + 2) } }"

definition near_or_longer :: "uint8_t list \<Rightarrow> nat \<Rightarrow> nat \<Rightarrow> bool option" where
  "near_or_longer src m_pos ip =
     (if ip - m_pos \<le> M2_MAX_OFFSET then Some True else same_byte src (m_pos + 3) (ip + 3))"

definition found :: "uint8_t list \<Rightarrow> nat \<Rightarrow> nat \<Rightarrow> nat \<Rightarrow> (nat \<times> nat option) option" where
  "found src dindex m_pos ip =
     do { ok \<leftarrow> try_match src m_pos ip; Some (dindex, if ok then Some m_pos else None) }"

text \<open>The place of the dictionary that is to be updated, and the match if there is one.\<close>

definition find_match :: "uint8_t list \<Rightarrow> lzo_dict \<Rightarrow> nat \<Rightarrow> (nat \<times> nat option) option" where
  "find_match src dict ip =
     do { dindex \<leftarrow> DINDEX1 src ip;
          if \<not> usable (dict dindex) ip then Some (dindex, None)
          else
            do { near \<leftarrow> near_or_longer src (nat (dict dindex)) ip;
                 if near then found src dindex (nat (dict dindex)) ip
                 else
                   (let dindex = DINDEX2 dindex
                    in if \<not> usable (dict dindex) ip then Some (dindex, None)
                       else do { near \<leftarrow> near_or_longer src (nat (dict dindex)) ip;
                                 if near then found src dindex (nat (dict dindex)) ip else Some (dindex, None) }) } }"

section \<open>What the compressor writes\<close>

text \<open>The loop \<open>while (tt > 255)\<close> that writes a zero for every 255, and the last byte.\<close>

function long_length :: "nat \<Rightarrow> uint8_t list" where
  "long_length tt = (if 255 < tt then 0 # long_length (tt - 255) else [LZO_BYTE tt])"
  by pat_completeness auto
termination by (relation "measure id") auto

declare long_length.simps [simp del]

text \<open>\<open>op[-2] |= t\<close>\<close>

definition or_into :: "uint8_t list \<Rightarrow> nat \<Rightarrow> uint8_t list" where
  "or_into op t = op[length op - 2 := op ! (length op - 2) OR LZO_BYTE t]"

definition literal_header :: "uint8_t list \<Rightarrow> nat \<Rightarrow> uint8_t list option" where
  "literal_header op t =
     (if t \<le> 3 then (if length op < 2 then None else Some (or_into op t))
      else if t \<le> 18 then Some (op @ [LZO_BYTE (t - 3)])
      else Some (op @ 0 # long_length (t - 18)))"

definition copy_literals :: "uint8_t list \<Rightarrow> nat \<Rightarrow> nat \<Rightarrow> uint8_t list \<Rightarrow> uint8_t list option" where
  "copy_literals src ii t op = (if ii + t \<le> length src then Some (op @ take t (drop ii src)) else None)"

definition put_literals :: "uint8_t list \<Rightarrow> nat \<Rightarrow> nat \<Rightarrow> uint8_t list \<Rightarrow> uint8_t list option" where
  "put_literals src ii t op =
     (if 0 < t then do { op \<leftarrow> literal_header op t; copy_literals src ii t op } else Some op)"

text \<open>From where on two places of the input differ, looking at most up to \<open>stop\<close>.\<close>

function differ_from :: "uint8_t list \<Rightarrow> nat \<Rightarrow> nat \<Rightarrow> nat \<Rightarrow> nat option" where
  "differ_from src m ip stop =
     (if ip < stop
      then (case same_byte src m ip of
              None \<Rightarrow> None
            | Some same \<Rightarrow> if same then differ_from src (m + 1) (ip + 1) stop else Some ip)
      else Some ip)"
  by pat_completeness auto
termination by (relation "measure (\<lambda>(src, m, ip, stop). stop - ip)") auto

declare differ_from.simps [simp del]

text \<open>The end of a match: six bytes are compared one after the other, then those up to the end of the input.\<close>

definition match_end :: "uint8_t list \<Rightarrow> nat \<Rightarrow> nat \<Rightarrow> nat option" where
  "match_end src m_pos ip =
     do { p \<leftarrow> differ_from src (m_pos + 3) (ip + 3) (ip + 9);
          if p < ip + 9 then Some p
          else differ_from src (m_pos + M2_MAX_LEN + 1) p (length src) }"

definition offset_bytes :: "nat \<Rightarrow> uint8_t list" where
  "offset_bytes m_off = [LZO_BYTE (push_bit 2 (m_off AND 63)), LZO_BYTE (drop_bit 6 m_off)]"

definition match_code :: "nat \<Rightarrow> nat \<Rightarrow> uint8_t list" where
  "match_code m_off m_len =
     (if m_len \<le> M2_MAX_LEN then
        (if m_off \<le> M2_MAX_OFFSET
         then (let m_off = m_off - 1
               in [LZO_BYTE (push_bit 5 (m_len - 1) OR push_bit 2 (m_off AND 7)), LZO_BYTE (drop_bit 3 m_off)])
         else if m_off \<le> M3_MAX_OFFSET
         then LZO_BYTE (M3_MARKER OR (m_len - 2)) # offset_bytes (m_off - 1)
         else (let m_off = m_off - 0x4000
               in LZO_BYTE (M4_MARKER OR drop_bit 11 (m_off AND 0x4000) OR (m_len - 2)) # offset_bytes m_off))
      else if m_off \<le> M3_MAX_OFFSET then
        (if m_len \<le> M3_MAX_LEN then LZO_BYTE (M3_MARKER OR (m_len - 2)) # offset_bytes (m_off - 1)
         else LZO_BYTE (M3_MARKER OR 0) # long_length (m_len - M3_MAX_LEN) @ offset_bytes (m_off - 1))
      else
        (let m_off = m_off - 0x4000
         in if m_len \<le> M4_MAX_LEN
            then LZO_BYTE (M4_MARKER OR drop_bit 11 (m_off AND 0x4000) OR (m_len - 2)) # offset_bytes m_off
            else LZO_BYTE (M4_MARKER OR drop_bit 11 (m_off AND 0x4000)) # long_length (m_len - M4_MAX_LEN) @ offset_bytes m_off))"

lemma differ_from_ge: "differ_from src m ip stop = Some p \<Longrightarrow> ip \<le> p"
proof (induction src m ip stop rule: differ_from.induct)
  case (1 src m ip stop)
  then show ?case
    by (subst (asm) differ_from.simps[of src m ip stop]) (fastforce split: if_splits option.splits)
qed

lemma match_end_ge: "match_end src m ip = Some p \<Longrightarrow> ip + 3 \<le> p"
  by (auto simp: match_end_def bind_eq_Some_conv split: if_splits dest!: differ_from_ge)

section \<open>The compressor\<close>

text \<open>The loop of \<open>do_compress\<close>: what was written and the first byte that was not yet encoded.\<close>

function do_compress :: "uint8_t list \<Rightarrow> lzo_dict \<Rightarrow> nat \<Rightarrow> nat \<Rightarrow> uint8_t list \<Rightarrow> (uint8_t list \<times> nat) option" where
  "do_compress src dict ip ii op =
     (let ip_end = length src - M2_MAX_LEN - 5
      in case find_match src dict ip of
           None \<Rightarrow> None
         | Some (dindex, None) \<Rightarrow>
             (if ip_end \<le> ip + 1 then Some (op, ii) else do_compress src (dict(dindex := int ip)) (ip + 1) ii op)
         | Some (dindex, Some m_pos) \<Rightarrow>
             (case put_literals src ii (ip - ii) op of
                None \<Rightarrow> None
              | Some op \<Rightarrow>
                  (case match_end src m_pos ip of
                     None \<Rightarrow> None
                   | Some p \<Rightarrow>
                       (let op = op @ match_code (ip - m_pos) (p - ip)
                        in if ip_end \<le> p then Some (op, p) else do_compress src (dict(dindex := int ip)) p p op))))"
  by pat_completeness auto
termination
  by (relation "measure (\<lambda>(src, dict, ip, ii, op). length src - ip)") (auto dest: match_end_ge)

declare do_compress.simps [simp del]

definition last_header :: "uint8_t list \<Rightarrow> nat \<Rightarrow> uint8_t list option" where
  "last_header op t = (if op = [] \<and> t \<le> 238 then Some [LZO_BYTE (17 + t)] else literal_header op t)"

definition lzo1x_1_compress :: "uint8_t list \<Rightarrow> lzo_dict \<Rightarrow> (int \<times> uint8_t list) option" where
  "lzo1x_1_compress src wrkmem =
     do { (op, t) \<leftarrow> (if length src \<le> M2_MAX_LEN + 5 then Some ([], length src)
                      else do { (op, ii) \<leftarrow> do_compress src wrkmem 4 0 []; Some (op, length src - ii) });
          op \<leftarrow> (if 0 < t then do { op \<leftarrow> last_header op t; copy_literals src (length src - t) t op } else Some op);
          Some (LZO_E_OK, op @ [LZO_BYTE (M4_MARKER OR 1), 0, 0]) }"

section \<open>The decompressor\<close>

definition copy_input :: "uint8_t list \<Rightarrow> nat \<Rightarrow> nat \<Rightarrow> nat \<Rightarrow> uint8_t list \<Rightarrow> uint8_t list option" where
  "copy_input src room ip t out =
     (if ip + t \<le> length src \<and> length out + t \<le> room then Some (out @ take t (drop ip src)) else None)"

text \<open>\<open>*op++ = *m_pos++\<close>, \<open>n\<close> times: the bytes may be those just written.\<close>

fun copy_bytes :: "nat \<Rightarrow> nat \<Rightarrow> nat \<Rightarrow> uint8_t list \<Rightarrow> uint8_t list option" where
  "copy_bytes room m_pos 0 out = Some out"
| "copy_bytes room m_pos (Suc n) out =
     (if m_pos < length out \<and> length out < room then copy_bytes room (m_pos + 1) n (out @ [out ! m_pos]) else None)"

definition copy_match :: "nat \<Rightarrow> nat \<Rightarrow> nat \<Rightarrow> uint8_t list \<Rightarrow> uint8_t list option" where
  "copy_match room m_off n out = (if m_off \<le> length out then copy_bytes room (length out - m_off) n out else None)"

text \<open>\<open>while (*ip == 0) { t += 255; ip++; } t += base + *ip++;\<close>\<close>

function read_long :: "uint8_t list \<Rightarrow> nat \<Rightarrow> nat \<Rightarrow> nat \<Rightarrow> (nat \<times> nat) option" where
  "read_long src base t ip =
     (if ip < length src
      then (if src ! ip = 0 then read_long src base (t + 255) (ip + 1) else Some (t + base + unat (src ! ip), ip + 1))
      else None)"
  by pat_completeness auto
termination by (relation "measure (\<lambda>(src, base, t, ip). length src - ip)") auto

declare read_long.simps [simp del]

definition length_or_long :: "uint8_t list \<Rightarrow> nat \<Rightarrow> nat \<Rightarrow> nat \<Rightarrow> (nat \<times> nat) option" where
  "length_or_long src base t ip = (if t = 0 then read_long src base t ip else Some (t, ip))"

definition read_offset :: "uint8_t list \<Rightarrow> nat \<Rightarrow> nat option" where
  "read_offset src ip =
     do { b0 \<leftarrow> byte_at src ip; b1 \<leftarrow> byte_at src (ip + 1); Some (drop_bit 2 (unat b0) + push_bit 6 (unat b1)) }"

text \<open>The labels the code jumps to: the top of the outer loop, \<open>first_literal_run\<close> and \<open>match\<close> with its \<open>t\<close>.\<close>

datatype lzo_label = Top | First_Literal_Run | Match nat

type_synonym lzo_state = "lzo_label \<times> nat \<times> uint8_t list"

text \<open>From \<open>match_next\<close> and from \<open>match_done\<close> to the next label.\<close>

definition match_next :: "uint8_t list \<Rightarrow> nat \<Rightarrow> nat \<Rightarrow> nat \<Rightarrow> uint8_t list \<Rightarrow> lzo_state option" where
  "match_next src room t ip out =
     do { out \<leftarrow> copy_input src room ip t out;
          b \<leftarrow> byte_at src (ip + t);
          Some (Match (unat b), ip + t + 1, out) }"

definition match_done :: "uint8_t list \<Rightarrow> nat \<Rightarrow> nat \<Rightarrow> uint8_t list \<Rightarrow> lzo_state option" where
  "match_done src room ip out =
     do { b \<leftarrow> byte_at src (ip - 2);
          (let t = unat b AND 3
           in if t = 0 then Some (Top, ip, out) else match_next src room t ip out) }"

definition eof_found :: "uint8_t list \<Rightarrow> nat \<Rightarrow> int" where
  "eof_found src ip =
     (if ip = length src then LZO_E_OK else if ip < length src then LZO_E_INPUT_NOT_CONSUMED else LZO_E_INPUT_OVERRUN)"

definition at_top :: "uint8_t list \<Rightarrow> nat \<Rightarrow> nat \<Rightarrow> uint8_t list \<Rightarrow> lzo_state option" where
  "at_top src room ip out =
     do { b \<leftarrow> byte_at src ip;
          if 16 \<le> unat b then Some (Match (unat b), ip + 1, out)
          else do { (t, ip) \<leftarrow> length_or_long src 15 (unat b) (ip + 1);
                    out \<leftarrow> copy_input src room ip (t + 3) out;
                    Some (First_Literal_Run, ip + (t + 3), out) } }"

definition at_first_literal_run :: "uint8_t list \<Rightarrow> nat \<Rightarrow> nat \<Rightarrow> uint8_t list \<Rightarrow> lzo_state option" where
  "at_first_literal_run src room ip out =
     do { b \<leftarrow> byte_at src ip;
          if 16 \<le> unat b then Some (Match (unat b), ip + 1, out)
          else do { b1 \<leftarrow> byte_at src (ip + 1);
                    out \<leftarrow> copy_match room (1 + M2_MAX_OFFSET + drop_bit 2 (unat b) + push_bit 2 (unat b1)) 3 out;
                    match_done src room (ip + 2) out } }"

definition at_match :: "uint8_t list \<Rightarrow> nat \<Rightarrow> nat \<Rightarrow> nat \<Rightarrow> uint8_t list \<Rightarrow> (lzo_state + int \<times> uint8_t list) option" where
  "at_match src room t ip out =
     (if 64 \<le> t then
        do { b \<leftarrow> byte_at src ip;
             out \<leftarrow> copy_match room (1 + (drop_bit 2 t AND 7) + push_bit 3 (unat b)) (drop_bit 5 t - 1 + 2) out;
             map_option Inl (match_done src room (ip + 1) out) }
      else if 32 \<le> t then
        do { (t, ip) \<leftarrow> length_or_long src 31 (t AND 31) ip;
             off \<leftarrow> read_offset src ip;
             out \<leftarrow> copy_match room (1 + off) (t + 2) out;
             map_option Inl (match_done src room (ip + 2) out) }
      else if 16 \<le> t then
        (let high = push_bit 11 (t AND 8)
         in do { (t, ip) \<leftarrow> length_or_long src 7 (t AND 7) ip;
                 off \<leftarrow> read_offset src ip;
                 if high + off = 0 then Some (Inr (eof_found src (ip + 2), out))
                 else do { out \<leftarrow> copy_match room (high + off + 0x4000) (t + 2) out;
                           map_option Inl (match_done src room (ip + 2) out) } })
      else
        do { b \<leftarrow> byte_at src ip;
             out \<leftarrow> copy_match room (1 + drop_bit 2 t + push_bit 2 (unat b)) 2 out;
             map_option Inl (match_done src room (ip + 1) out) })"

fun lzo_step :: "uint8_t list \<Rightarrow> nat \<Rightarrow> lzo_state \<Rightarrow> (lzo_state + int \<times> uint8_t list) option" where
  "lzo_step src room (Top, ip, out) = map_option Inl (at_top src room ip out)"
| "lzo_step src room (First_Literal_Run, ip, out) = map_option Inl (at_first_literal_run src room ip out)"
| "lzo_step src room (Match t, ip, out) = at_match src room t ip out"

lemma read_long_ge: "read_long src base t ip = Some (t', ip') \<Longrightarrow> ip < ip'"
proof (induction src base t ip rule: read_long.induct)
  case (1 src base t ip)
  then show ?case
    by (subst (asm) read_long.simps[of src base t ip]) (auto split: if_splits dest: Suc_lessD)
qed

lemma length_or_long_ge: "length_or_long src base t ip = Some (t', ip') \<Longrightarrow> ip \<le> ip'"
  by (auto simp: length_or_long_def split: if_splits dest: read_long_ge)

lemma match_next_ip: "match_next src room t ip out = Some (l, ip', out') \<Longrightarrow> ip < ip' \<and> ip < length src"
  by (auto simp: match_next_def byte_at_def bind_eq_Some_conv split: if_splits)

lemma match_done_ip: "match_done src room ip out = Some (l, ip', out') \<Longrightarrow> ip \<le> ip'"
  by (auto simp: match_done_def bind_eq_Some_conv Let_def split: if_splits dest: match_next_ip)

text \<open>Every step reads on.\<close>

lemma at_top_ip: "at_top src room ip out = Some (l, ip', out') \<Longrightarrow> ip < ip' \<and> ip < length src"
  by (auto simp: at_top_def byte_at_def bind_eq_Some_conv split: if_splits dest!: length_or_long_ge)

lemma at_first_literal_run_ip:
  "at_first_literal_run src room ip out = Some (l, ip', out') \<Longrightarrow> ip < ip' \<and> ip < length src"
  by (auto simp: at_first_literal_run_def byte_at_def bind_eq_Some_conv split: if_splits dest!: match_done_ip)

lemma read_offset_ip: "read_offset src ip = Some off \<Longrightarrow> ip + 1 < length src"
  by (auto simp: read_offset_def byte_at_def bind_eq_Some_conv split: if_splits)

lemma at_match_ip:
  assumes "at_match src room t ip out = Some (Inl (l, ip', out'))"
  shows "ip < ip' \<and> ip < length src"
proof -
  consider "64 \<le> t" | "32 \<le> t" "t < 64" | "16 \<le> t" "t < 32" | "t < 16" by linarith
  then show ?thesis
  proof cases
    case 1
    then show ?thesis using assms
      by (auto simp: at_match_def byte_at_def bind_eq_Some_conv split: if_splits dest!: match_done_ip)
  next
    case 2
    then show ?thesis using assms
      by (fastforce simp: at_match_def bind_eq_Some_conv dest: match_done_ip length_or_long_ge read_offset_ip)
  next
    case 3
    then show ?thesis using assms
      by (fastforce simp: at_match_def bind_eq_Some_conv Let_def split: if_splits dest: match_done_ip length_or_long_ge read_offset_ip)
  next
    case 4
    then show ?thesis using assms
      by (auto simp: at_match_def byte_at_def bind_eq_Some_conv split: if_splits dest!: match_done_ip)
  qed
qed

lemma lzo_step_ip: "lzo_step src room (l, ip, out) = Some (Inl (l', ip', out')) \<Longrightarrow> ip < ip' \<and> ip < length src"
  by (cases l) (auto dest: at_top_ip at_first_literal_run_ip at_match_ip)

function decompress_loop :: "uint8_t list \<Rightarrow> nat \<Rightarrow> lzo_state \<Rightarrow> (int \<times> uint8_t list) option" where
  "decompress_loop src room st =
     (case lzo_step src room st of
        None \<Rightarrow> None
      | Some (Inl st) \<Rightarrow> decompress_loop src room st
      | Some (Inr r) \<Rightarrow> Some r)"
  by pat_completeness auto
termination
proof (relation "measure (\<lambda>(src, room, st). length src - fst (snd st))")
  fix src :: "uint8_t list" and room and st st' :: lzo_state and r
  assume "lzo_step src room st = Some r" "r = Inl st'"
  then show "((src, room, st'), (src, room, st)) \<in> measure (\<lambda>(src, room, st). length src - fst (snd st))"
    using lzo_step_ip by (cases st; cases st') fastforce
qed simp

declare decompress_loop.simps [simp del]

definition lzo1x_decompress :: "uint8_t list \<Rightarrow> nat \<Rightarrow> (int \<times> uint8_t list) option" where
  "lzo1x_decompress src room =
     do { b \<leftarrow> byte_at src 0;
          if 17 < unat b
          then (let t = unat b - 17
                in if t < 4 then do { st \<leftarrow> match_next src room t 1 []; decompress_loop src room st }
                   else do { out \<leftarrow> copy_input src room 1 t [];
                             decompress_loop src room (First_Literal_Run, 1 + t, out) })
          else decompress_loop src room (Top, 0, []) }"

end
