(* ===== verification/Deflate.thy ===== *)
theory Deflate
  imports SendStream Zrle Minilzo
begin

text \<open>
  The encodings that compress: Zlib and Ultra (\<open>zlib.c\<close>, \<open>ultra.c\<close> of both libraries), and the out stream
  through which ZRLE writes its tiles (\<open>libvncserver/zrleoutstream.c\<close>, \<open>zrle.c\<close>). zlib is not
  part of the repository and an argument: its \<open>deflate\<close> and \<open>inflate\<close> work on a state of their own and on what
  there is to read and room to write. minilzo is the theory \<open>Minilzo\<close>.
\<close>

section \<open>zlib\<close>

text \<open>
  A call returns the result, the number of bytes it has taken, those it has written, and the new state.
  The first argument of \<open>deflate\<close> after the state says whether to flush (\<open>Z_SYNC_FLUSH\<close>).
\<close>

record ('d, 'i) zlib =
  deflate :: "'d \<Rightarrow> bool \<Rightarrow> uint8_t list \<Rightarrow> nat \<Rightarrow> int \<times> nat \<times> uint8_t list \<times> 'd"
  inflate :: "'i \<Rightarrow> uint8_t list \<Rightarrow> nat \<Rightarrow> int \<times> nat \<times> uint8_t list \<times> 'i"
  deflateInit :: 'd
  inflateInit :: 'i

definition Z_OK :: int where "Z_OK = 0"
definition Z_NEED_DICT :: int where "Z_NEED_DICT = 2"

section \<open>The out stream of ZRLE\<close>

definition ZRLE_IN_BUFFER_SIZE :: nat where "ZRLE_IN_BUFFER_SIZE = 16384"
definition ZRLE_OUT_BUFFER_SIZE :: nat where "ZRLE_OUT_BUFFER_SIZE = 1024"

text \<open>The bytes between \<open>start\<close> and \<open>ptr\<close> of the two buffers; the second one grows.\<close>

record 'd zrleOutStream =
  zs_in :: "uint8_t list"
  zs_out :: "uint8_t list"
  zs_out_size :: nat
  zs_state :: 'd

definition zrleOutStreamNew :: "('d, 'i) zlib \<Rightarrow> 'd zrleOutStream" where
  "zrleOutStreamNew z = \<lparr>zs_in = [], zs_out = [], zs_out_size = ZRLE_OUT_BUFFER_SIZE, zs_state = deflateInit z\<rparr>"

definition zrleBufferGrow :: "'d zrleOutStream \<Rightarrow> 'd zrleOutStream" where
  "zrleBufferGrow os =
     (if zs_out_size os \<le> length (zs_out os) then os\<lparr>zs_out_size := zs_out_size os + zs_out_size os\<rparr> else os)"

text \<open>
  \<open>do ... while (os->zs.avail_out == 0)\<close> for the input \<open>inp\<close>: whether it succeeded, and the input left. After an
  error \<open>ptr\<close> is not moved over what was written.
\<close>

partial_function (option) deflate_loop ::
    "('d, 'i) zlib \<Rightarrow> bool \<Rightarrow> uint8_t list \<Rightarrow> 'd zrleOutStream \<Rightarrow> (bool \<times> uint8_t list \<times> 'd zrleOutStream) option" where
  "deflate_loop z flush inp os =
     (let os = zrleBufferGrow os; room = zs_out_size os - length (zs_out os);
          (ret, n, out, st) = deflate z (zs_state os) flush inp room
      in if ret \<noteq> Z_OK then Some (False, inp, os\<lparr>zs_state := st\<rparr>)
         else (let os = os\<lparr>zs_out := zs_out os @ out, zs_state := st\<rparr>
               in if length out = room then deflate_loop z flush (drop n inp) os else Some (True, drop n inp, os)))"

text \<open>\<open>while (os->zs.avail_in != 0)\<close>\<close>

partial_function (option) flush_loop ::
    "('d, 'i) zlib \<Rightarrow> uint8_t list \<Rightarrow> 'd zrleOutStream \<Rightarrow> (bool \<times> 'd zrleOutStream) option" where
  "flush_loop z inp os =
     (if inp = [] then Some (True, os)
      else (case deflate_loop z True inp os of
              None \<Rightarrow> None
            | Some (ok, inp, os) \<Rightarrow> (if ok then flush_loop z inp os else Some (False, os))))"

definition zrleOutStreamFlush :: "('d, 'i) zlib \<Rightarrow> 'd zrleOutStream \<Rightarrow> (bool \<times> 'd zrleOutStream) option" where
  "zrleOutStreamFlush z os =
     map_option (\<lambda>(ok, os). if ok then (True, os\<lparr>zs_in := []\<rparr>) else (False, os)) (flush_loop z (zs_in os) os)"

text \<open>\<open>while (end - ptr < size && ptr > start)\<close>: what was not taken moves to the start. The result is the room there is.\<close>

partial_function (option) overrun_loop ::
    "('d, 'i) zlib \<Rightarrow> nat \<Rightarrow> 'd zrleOutStream \<Rightarrow> (bool \<times> 'd zrleOutStream) option" where
  "overrun_loop z n os =
     (if ZRLE_IN_BUFFER_SIZE < length (zs_in os) + n \<and> zs_in os \<noteq> []
      then (case deflate_loop z False (zs_in os) os of
              None \<Rightarrow> None
            | Some (ok, inp, os) \<Rightarrow> (if ok then overrun_loop z n (os\<lparr>zs_in := inp\<rparr>) else Some (False, os)))
      else Some (True, os))"

definition zrleOutStreamOverrun :: "('d, 'i) zlib \<Rightarrow> nat \<Rightarrow> 'd zrleOutStream \<Rightarrow> (nat \<times> 'd zrleOutStream) option" where
  "zrleOutStreamOverrun z n os =
     map_option (\<lambda>(ok, os).
        let room = ZRLE_IN_BUFFER_SIZE - length (zs_in os) in (if \<not> ok then 0 else if room < n then room else n, os))
       (overrun_loop z n os)"

definition zrleOutStreamCheck :: "('d, 'i) zlib \<Rightarrow> nat \<Rightarrow> 'd zrleOutStream \<Rightarrow> (nat \<times> 'd zrleOutStream) option" where
  "zrleOutStreamCheck z n os =
     (if ZRLE_IN_BUFFER_SIZE < length (zs_in os) + n then zrleOutStreamOverrun z n os else Some (n, os))"

text \<open>When no room is made the loop does not end.\<close>

partial_function (option) zrleOutStreamWriteBytes ::
    "('d, 'i) zlib \<Rightarrow> uint8_t list \<Rightarrow> 'd zrleOutStream \<Rightarrow> 'd zrleOutStream option" where
  "zrleOutStreamWriteBytes z data os =
     (if data = [] then Some os
      else (case zrleOutStreamCheck z (length data) os of
              None \<Rightarrow> None
            | Some (n, os) \<Rightarrow> zrleOutStreamWriteBytes z (drop n data) (os\<lparr>zs_in := zs_in os @ take n data\<rparr>)))"

text \<open>The result of \<open>zrleOutStreamCheck\<close> is not looked at: \<open>None\<close> when the bytes go over the end of the buffer.\<close>

definition zrleOutStreamWriteOpaque :: "('d, 'i) zlib \<Rightarrow> uint8_t list \<Rightarrow> 'd zrleOutStream \<Rightarrow> 'd zrleOutStream option" where
  "zrleOutStreamWriteOpaque z bs os =
     (case zrleOutStreamCheck z (length bs) os of
        None \<Rightarrow> None
      | Some (n, os) \<Rightarrow>
          (if ZRLE_IN_BUFFER_SIZE < length (zs_in os) + length bs then None else Some (os\<lparr>zs_in := zs_in os @ bs\<rparr>)))"

fun write_all :: "('d, 'i) zlib \<Rightarrow> zwrite list \<Rightarrow> 'd zrleOutStream \<Rightarrow> 'd zrleOutStream option" where
  "write_all z [] os = Some os"
| "write_all z (Opaque bs # ws) os =
     (case zrleOutStreamWriteOpaque z bs os of None \<Rightarrow> None | Some os \<Rightarrow> write_all z ws os)"
| "write_all z (Bytes bs # ws) os =
     (case zrleOutStreamWriteBytes z bs os of None \<Rightarrow> None | Some os \<Rightarrow> write_all z ws os)"

section \<open>Rectangles that are compressed\<close>

definition sz_rfbZlibHeader :: nat where "sz_rfbZlibHeader = 4"

text \<open>The header, the length and the bytes, which may take several update buffers.\<close>

definition send_compressed ::
    "uint32_t \<Rightarrow> nat \<Rightarrow> nat \<Rightarrow> nat \<Rightarrow> nat \<Rightarrow> uint8_t list \<Rightarrow> update_state \<Rightarrow> bool \<times> update_state" where
  "send_compressed enc x y w h after cl =
     (let (ok, cl) = make_room (sz_rfbFramebufferUpdateRectHeader + sz_rfbZlibHeader) cl
      in if \<not> ok then (False, cl)
         else (let cl = put_bytes (rect_header x y w h enc) cl;
                   cl = put_bytes (wire32 (word_of_nat (length after))) cl
               in copy_loop after cl))"

subsection \<open>Zlib\<close>

definition VNC_ENCODE_ZLIB_MIN_COMP_SIZE :: nat where "VNC_ENCODE_ZLIB_MIN_COMP_SIZE = 17"

definition ZLIB_MAX_SIZE :: "nat \<Rightarrow> nat" where
  "ZLIB_MAX_SIZE w = (if 128 * 256 < w * 2 then w * 2 else 128 * 256)"

text \<open>What zlib may need at most, as far as the code allows for it.\<close>

definition ZLIB_MAX_COMP_SIZE :: "nat \<Rightarrow> nat" where
  "ZLIB_MAX_COMP_SIZE maxRawSize = maxRawSize + (maxRawSize + 99) div 100 + 12"

text \<open>
  \<open>sw\<close>, \<open>sh\<close> are the size of the scaled screen, \<open>bytes\<close> how many bytes its pixels have. \<open>compStream\<close> is
  \<open>None\<close> before its first use.
\<close>

definition rfbSendOneRectEncodingZlib ::
    "('d, 'i) zlib \<Rightarrow> (nat \<Rightarrow> nat \<Rightarrow> 'a::len word) \<Rightarrow> nat \<Rightarrow> nat \<Rightarrow> nat \<Rightarrow> nat \<Rightarrow> nat \<Rightarrow> nat \<Rightarrow> nat \<Rightarrow>
     'd option \<times> update_state \<Rightarrow> bool \<times> 'd option \<times> update_state" where
  "rfbSendOneRectEncodingZlib z fb sw sh bytes x y w h st =
     (let (compStream, cl) = st; maxRawSize = sw * sh * pixel_size TYPE('a)
      in if w * h * bytes < VNC_ENCODE_ZLIB_MIN_COMP_SIZE
         then (let (ok, cl) = (if 8 < LENGTH('a) \<and> length (updateBuf cl) mod pixel_size TYPE('a) \<noteq> 0
                               then rfbSendUpdateBuf cl else (True, cl))
               in if \<not> ok then (False, compStream, cl)
                  else (let (ok, cl) = rfbSendRectEncodingRaw fb x y w h cl in (ok, compStream, cl)))
         else
          (let maxCompSize = ZLIB_MAX_COMP_SIZE maxRawSize;
               s = (case compStream of None \<Rightarrow> deflateInit z | Some s \<Rightarrow> s);
               (ret, n, out, s) = deflate z s True (tile_bytes fb x y w h) maxCompSize
           in if ret \<noteq> Z_OK then (False, Some s, cl)
              else (let (ok, cl) = send_compressed rfbEncodingZlib x y w h out cl in (ok, Some s, cl))))"

text \<open>Pieces of \<open>maxLines\<close> rows, of which the full ones are sent at once; \<open>s\<close> is the state of the compressor.\<close>

function send_pieces ::
    "(nat \<Rightarrow> nat \<Rightarrow> nat \<Rightarrow> nat \<Rightarrow> 's \<times> update_state \<Rightarrow> (bool \<times> 's \<times> update_state) option) \<Rightarrow> nat \<Rightarrow> nat \<Rightarrow> nat \<Rightarrow> nat \<Rightarrow> nat \<Rightarrow>
     's \<times> update_state \<Rightarrow> (bool \<times> 's \<times> update_state) option" where
  "send_pieces one maxLines x y w h st =
     (if h = 0 \<or> maxLines = 0 then Some (True, st)
      else (let linesToComp = (if maxLines < h then maxLines else h)
            in case one x y w linesToComp st of
                 None \<Rightarrow> None
               | Some (ok, s, cl) \<Rightarrow>
                  (if \<not> ok then Some (False, s, cl)
                   else (let (ok, cl) = (if 0 < length (updateBuf cl) \<and> linesToComp = maxLines
                                         then rfbSendUpdateBuf cl else (True, cl))
                         in if \<not> ok then Some (False, s, cl)
                            else send_pieces one maxLines x (y + linesToComp) w (h - linesToComp) (s, cl)))))"
  by pat_completeness auto
termination
  by (relation "measure (\<lambda>(one, m, x, y, w, h, st). h)") (auto split: if_splits)

declare send_pieces.simps [simp del]

text \<open>A rectangle without columns divides by zero.\<close>

definition rfbSendRectEncodingZlib ::
    "('d, 'i) zlib \<Rightarrow> (nat \<Rightarrow> nat \<Rightarrow> 'a::len word) \<Rightarrow> nat \<Rightarrow> nat \<Rightarrow> nat \<Rightarrow> nat \<Rightarrow> nat \<Rightarrow> nat \<Rightarrow> nat \<Rightarrow>
     'd option \<times> update_state \<Rightarrow> (bool \<times> 'd option \<times> update_state) option" where
  "rfbSendRectEncodingZlib z fb sw sh bytes x y w h st =
     (if w = 0 then None
      else send_pieces (\<lambda>x y w h st. Some (rfbSendOneRectEncodingZlib z fb sw sh bytes x y w h st)) (ZLIB_MAX_SIZE w div w) x y w h st)"

subsection \<open>Ultra\<close>

text \<open>
  \<open>lzoAfterBuf\<close> has \<open>maxCompSize\<close> bytes, which the compressor is not told: \<open>None\<close> when it writes more (or
  accesses its input out of bounds). \<open>wrkmem\<close> is what \<open>cl->lzoWrkMem\<close> holds, from \<open>malloc\<close> or from an earlier rectangle.
\<close>

definition rfbSendOneRectEncodingUltra ::
    "lzo_dict \<Rightarrow> (nat \<Rightarrow> nat \<Rightarrow> 'a::len word) \<Rightarrow> nat \<Rightarrow> nat \<Rightarrow> nat \<Rightarrow> nat \<Rightarrow> update_state \<Rightarrow> (bool \<times> update_state) option" where
  "rfbSendOneRectEncodingUltra wrkmem fb x y w h cl =
     (let maxRawSize = w * h * pixel_size TYPE('a);
          maxCompSize = maxRawSize + maxRawSize div 16 + 64 + 3
      in case lzo1x_1_compress (tile_bytes fb x y w h) wrkmem of
           None \<Rightarrow> None
         | Some (ret, out) \<Rightarrow>
             if maxCompSize < length out then None
             else if ret \<noteq> LZO_E_OK then Some (False, cl)
             else Some (send_compressed rfbEncodingUltra x y w h out cl))"

definition ULTRA_MAX_SIZE :: "nat \<Rightarrow> nat" where
  "ULTRA_MAX_SIZE w = (if 128 * 256 < w * 2 then w * 2 else 128 * 256)"

text \<open>\<open>wrkmem n\<close> is the work memory at the \<open>n\<close>-th piece.\<close>

definition rfbSendRectEncodingUltra ::
    "(nat \<Rightarrow> lzo_dict) \<Rightarrow> (nat \<Rightarrow> nat \<Rightarrow> 'a::len word) \<Rightarrow> nat \<Rightarrow> nat \<Rightarrow> nat \<Rightarrow> nat \<Rightarrow> update_state \<Rightarrow> (bool \<times> update_state) option" where
  "rfbSendRectEncodingUltra wrkmem fb x y w h cl =
     (if w = 0 then None
      else map_option (\<lambda>(ok, _, cl). (ok, cl))
        (send_pieces (\<lambda>x y w h (n, cl). map_option (\<lambda>(ok, cl). (ok, n + 1, cl)) (rfbSendOneRectEncodingUltra (wrkmem n) fb x y w h cl))
          (ULTRA_MAX_SIZE w div w) x y w h (0, cl)))"

section \<open>The client\<close>

text \<open>
  The buffer for what is decompressed, with whatever it holds from before, and \<open>decompStream\<close>, which is
  \<open>None\<close> before its first use. \<open>fresh\<close> is what \<open>malloc\<close> returns.
\<close>

record 'i unpacker =
  raw_buffer :: "uint8_t list"
  decompStream :: "'i option"

definition need_raw :: "(nat \<Rightarrow> uint8_t list) \<Rightarrow> nat \<Rightarrow> nat \<Rightarrow> 'i unpacker \<Rightarrow> 'i unpacker" where
  "need_raw fresh need n u = (if length (raw_buffer u) < need then u\<lparr>raw_buffer := take n (fresh n)\<rparr> else u)"

text \<open>
  The loop that both \<open>HandleZlib\<close> and \<open>HandleZRLE\<close> have: the last result, what was written to the raw buffer,
  the state and the bytes left to read, or \<open>None\<close> for \<open>return FALSE\<close>.
\<close>

function inflate_loop ::
    "('d, 'i) zlib \<Rightarrow> nat \<Rightarrow> int \<Rightarrow> uint8_t list \<Rightarrow> 'i \<Rightarrow> uint8_t list \<Rightarrow> nat \<Rightarrow> (int \<times> uint8_t list \<times> 'i \<times> uint8_t list) option" where
  "inflate_loop z remaining res out s inp room =
     (if 0 < remaining \<and> res = Z_OK
      then (let toRead = (if RFB_BUFFER_SIZE < remaining then RFB_BUFFER_SIZE else remaining)
            in case ReadFromRFBServer toRead inp of
                 None \<Rightarrow> None
               | Some (buffer, inp) \<Rightarrow>
                  (let (res, n, new, s) = inflate z s buffer (room - length out)
                   in if res = Z_NEED_DICT \<or> res < 0 \<or> (n < toRead \<and> room \<le> length (out @ new)) then None
                      else inflate_loop z (remaining - toRead) res (out @ new) s inp room))
      else Some (res, out, s, inp))"
  by pat_completeness auto
termination
  by (relation "measure (\<lambda>(z, remaining, res, out, s, inp, room). remaining)") (auto simp: RFB_BUFFER_SIZE_def split: if_splits)

declare inflate_loop.simps [simp del]

text \<open>
  The head of both: what was decompressed, the rest of the client, and the bytes left. The length is an \<open>int\<close>: nothing
  is read when it is negative.
\<close>

definition inflate_rect ::
    "('d, 'i) zlib \<Rightarrow> 'i unpacker \<Rightarrow> uint8_t list \<Rightarrow> (uint8_t list \<times> 'i unpacker \<times> uint8_t list) option" where
  "inflate_rect z u inp =
     (case ReadFromRFBServer sz_rfbZlibHeader inp of
        None \<Rightarrow> None
      | Some (hdr, inp) \<Rightarrow>
         (case inflate_loop z (nat (sint (unwire32 hdr))) Z_OK [] (case decompStream u of None \<Rightarrow> inflateInit z | Some s \<Rightarrow> s) inp
                 (length (raw_buffer u)) of
            None \<Rightarrow> None
          | Some (res, out, s, inp) \<Rightarrow>
             (if res \<noteq> Z_OK then None
              else Some (out, u\<lparr>raw_buffer := out @ drop (length out) (raw_buffer u), decompStream := Some s\<rparr>, inp))))"

definition pixels_of :: "nat \<Rightarrow> uint8_t list \<Rightarrow> 'a::len word list" where
  "pixels_of n bs = map (\<lambda>i. pixel_of (take (pixel_size TYPE('a)) (drop (i * pixel_size TYPE('a)) bs))) [0..<n]"

definition HandleZlib ::
    "('d, 'i) zlib \<Rightarrow> (nat \<Rightarrow> uint8_t list) \<Rightarrow> nat \<Rightarrow> 'a::len word list \<Rightarrow> 'i unpacker \<Rightarrow> uint8_t list \<Rightarrow> nat \<Rightarrow> nat \<Rightarrow> nat \<Rightarrow> nat \<Rightarrow>
     ('a word list \<times> 'i unpacker \<times> uint8_t list) option" where
  "HandleZlib z fresh width fb u inp rx ry rw rh =
     (let need = rw * rh * pixel_size TYPE('a); u = need_raw fresh need need u
      in case inflate_rect z u inp of
           None \<Rightarrow> None
         | Some (_, u, inp) \<Rightarrow> Some (CopyRectangle width fb (pixels_of (rw * rh) (raw_buffer u)) rx ry rw rh, u, inp))"

text \<open>\<open>align4\<close>: the sizes of the buffers of Ultra are multiples of four.\<close>

definition align4 :: "nat \<Rightarrow> nat" where
  "align4 n = (if n mod 4 \<noteq> 0 then n + (4 - n mod 4) else n)"

text \<open>
  The decompressor is not told the size of the raw buffer (\<open>None\<close> when it writes over its end, and when more is to
  be read than the buffer for it can have). A length that
  differs from the expected one is only logged.
\<close>

definition HandleUltra ::
    "(nat \<Rightarrow> uint8_t list) \<Rightarrow> nat \<Rightarrow> 'a::len word list \<Rightarrow> 'i unpacker \<Rightarrow> uint8_t list \<Rightarrow> nat \<Rightarrow> nat \<Rightarrow> nat \<Rightarrow> nat \<Rightarrow>
     ('a word list \<times> 'i unpacker \<times> uint8_t list) option" where
  "HandleUltra fresh width fb u inp rx ry rw rh =
     (let need = rw * rh * pixel_size TYPE('a)
      in case ReadFromRFBServer sz_rfbZlibHeader inp of
           None \<Rightarrow> None
         | Some (hdr, inp) \<Rightarrow>
            (let toRead = sint (unwire32 hdr)
             in if toRead = 0 then Some (fb, u, inp)
                else if need = 0 \<or> toRead < 0 then None
                else
                 (let u = need_raw fresh need (align4 need) u
                  in case ReadFromRFBServer (nat toRead) inp of
                       None \<Rightarrow> None
                     | Some (buffer, inp) \<Rightarrow>
                        (case lzo1x_decompress buffer (length (raw_buffer u)) of
                           None \<Rightarrow> None
                         | Some (res, out) \<Rightarrow>
                            (let u = u\<lparr>raw_buffer := out @ drop (length out) (raw_buffer u)\<rparr>
                             in if res = LZO_E_OK
                                then Some (CopyRectangle width fb (pixels_of (rw * rh) (raw_buffer u)) rx ry rw rh, u, inp)
                                else None)))))"

end
