(* ===== verification/ZrleTile.thy ===== *)
theory ZrleTile
  imports Zrle
begin

text \<open>
  A ZRLE tile decodes to the pixels it was made of, up to the byte of a pixel that is not sent. Each of
  the four kinds of tile has its lemma: pixels, packed numbers of a palette, runs, runs of numbers.
\<close>

section \<open>Bytes in memory\<close>

definition holds :: "uint8_t list \<Rightarrow> nat \<Rightarrow> uint8_t list \<Rightarrow> bool" where
  "holds mem p bs \<longleftrightarrow> p \<le> length mem \<and> take (length bs) (drop p mem) = bs"

lemma holds_Nil [simp]: "holds mem p [] \<longleftrightarrow> p \<le> length mem"
  by (simp add: holds_def)

lemma holds_length: "holds mem p bs \<Longrightarrow> p + length bs \<le> length mem"
  unfolding holds_def by (metis add_leE add_le_cancel_left diff_diff_cancel drop_eq_Nil le_add_diff_inverse length_drop length_take min.absorb_iff2 min_def nat_le_linear take_all_iff)

lemma holds_append: "holds mem p (as @ bs) \<longleftrightarrow> holds mem p as \<and> holds mem (p + length as) bs"
proof
  assume l: "holds mem p (as @ bs)"
  then have len: "p + length as + length bs \<le> length mem" using holds_length by fastforce
  have "take (length as + length bs) (drop p mem) = as @ bs" using l by (simp add: holds_def)
  then have "take (length as) (drop p mem) @ take (length bs) (drop (p + length as) mem) = as @ bs"
    by (simp add: take_add add.commute)
  moreover have "length (take (length as) (drop p mem)) = length as" using len by simp
  ultimately show "holds mem p as \<and> holds mem (p + length as) bs" using len by (simp add: holds_def)
next
  assume "holds mem p as \<and> holds mem (p + length as) bs"
  then show "holds mem p (as @ bs)" by (simp add: holds_def take_add add.commute)
qed

lemma holds_Cons: "holds mem p (b # bs) \<longleftrightarrow> mem_at mem p = Some b \<and> holds mem (p + 1) bs"
proof -
  have "holds mem p [b] \<longleftrightarrow> mem_at mem p = Some b"
    by (cases "p < length mem") (auto simp: holds_def mem_at_def take_Suc_conv_app_nth Cons_nth_drop_Suc[symmetric])
  then show ?thesis using holds_append[of mem p "[b]" bs] by simp
qed

abbreviation all_written :: "zwrite list \<Rightarrow> uint8_t list" where
  "all_written ws \<equiv> concat (map written ws)"

section \<open>Pixels\<close>

text \<open>The variant of the decoder for pixels that are sent in some way.\<close>

definition decodes_with :: "'a::len itself \<Rightarrow> cpixel \<Rightarrow> zrle_variant \<Rightarrow> bool" where
  "decodes_with T c v \<longleftrightarrow>
     (case c of Whole \<Rightarrow> 8 dvd LENGTH('a) \<and> v = \<lparr>realbpp = LENGTH('a), uncomp = AsIs\<rparr>
      | Low24 \<Rightarrow> LENGTH('a) = 32 \<and> v = \<lparr>realbpp = 24, uncomp = AsIs\<rparr>
      | High24 \<Rightarrow> LENGTH('a) = 32 \<and> v = \<lparr>realbpp = 24, uncomp = Up\<rparr>)"

text \<open>Equal in what is sent of them.\<close>

definition same_sent :: "cpixel \<Rightarrow> 'a::len word \<Rightarrow> 'a word \<Rightarrow> bool" where
  "same_sent c p q \<longleftrightarrow>
     (case c of Whole \<Rightarrow> q = p | Low24 \<Rightarrow> take_bit 24 q = take_bit 24 p | High24 \<Rightarrow> drop_bit 8 q = drop_bit 8 p)"

text \<open>Three bytes are read as four, so another byte has to follow.\<close>

definition slack :: "cpixel \<Rightarrow> uint8_t list \<Rightarrow> nat \<Rightarrow> bool" where
  "slack c mem e \<longleftrightarrow> c = Whole \<or> e < length mem"

lemma slack_mono: "slack c mem e \<Longrightarrow> e' \<le> e \<Longrightarrow> slack c mem e'"
  by (auto simp: slack_def)

lemma real_bytes_size: "decodes_with TYPE('a::len) c v \<Longrightarrow> real_bytes v = cpixel_size c TYPE('a) \<and> realbpp v = 8 * real_bytes v"
  by (auto simp: decodes_with_def real_bytes_def cpixel_size_def pixel_size_def split: cpixel.splits)

lemma length_cpixel_bytes:
  "decodes_with TYPE('a) c v \<Longrightarrow> length (cpixel_bytes c (p :: 'a::len word)) = cpixel_size c TYPE('a)"
  by (auto simp: decodes_with_def cpixel_bytes_def cpixel_size_def pixel_size_def split: cpixel.splits)

lemma pixel_size_positive: "decodes_with TYPE('a::len) c v \<Longrightarrow> 0 < cpixel_size c TYPE('a)"
  using len_gt_0[where 'a = 'a] by (auto simp: decodes_with_def cpixel_size_def pixel_size_def elim!: dvdE simp del: len_gt_0 split: cpixel.splits)

lemma UncompressCPixel_bytes:
  fixes pix :: "'a::len word"
  assumes "decodes_with TYPE('a) c v" "holds mem p (cpixel_bytes c pix)" "slack c mem (p + cpixel_size c TYPE('a))"
  shows "\<exists>q. UncompressCPixel v mem p = Some q \<and> same_sent c pix q"
proof (cases c)
  case Whole
  then have v: "v = \<lparr>realbpp = LENGTH('a), uncomp = AsIs\<rparr>" "8 dvd LENGTH('a)" using assms(1) by (simp_all add: decodes_with_def)
  have h: "holds mem p (pixel_bytes pix)" using assms(2) Whole by (simp add: cpixel_bytes_def)
  then have "take (pixel_size TYPE('a)) (drop p mem) = pixel_bytes pix" by (simp add: holds_def)
  then show ?thesis using holds_length[OF h] v Whole by (simp add: UncompressCPixel_def same_sent_def)
next
  case Low24
  then have v: "v = \<lparr>realbpp = 24, uncomp = AsIs\<rparr>" "LENGTH('a) = 32" using assms(1) by (simp_all add: decodes_with_def)
  have s: "pixel_size TYPE('a) = 4" using v(2) by (simp add: pixel_size_def)
  define q where "q = (pixel_of (take 4 (drop p mem)) :: 'a word)"
  have len: "p + 4 \<le> length mem" using assms(3) Low24 by (simp add: slack_def cpixel_size_def)
  have "take 3 (drop p mem) = take 3 (pixel_bytes pix)" using assms(2) Low24 s by (simp add: holds_def cpixel_bytes_def)
  then have b: "mem ! (p + k) = pixel_bytes pix ! k" if "k < 3" for k
    using that len by (metis add_leE nth_drop nth_take)
  have "take_bit 24 q = take_bit 24 pix"
  proof (rule bit_word_eqI)
    fix n assume "n < LENGTH('a)"
    show "bit (take_bit 24 q) n = bit (take_bit 24 pix) n"
    proof (cases "n < 24")
      case True
      then have "n div 8 < 3" by auto
      with b[of "n div 8"] len True show ?thesis
        using v(2) s by (simp add: q_def bit_simps bit_pixel_of pixel_bytes_def)
    qed (simp add: bit_simps)
  qed
  then show ?thesis using len v Low24 s by (simp add: UncompressCPixel_def same_sent_def q_def)
next
  case High24
  then have v: "v = \<lparr>realbpp = 24, uncomp = Up\<rparr>" "LENGTH('a) = 32" using assms(1) by (simp_all add: decodes_with_def)
  have s: "pixel_size TYPE('a) = 4" using v(2) by (simp add: pixel_size_def)
  define q where "q = (push_bit 8 (pixel_of (take 4 (drop p mem))) :: 'a word)"
  have len: "p + 4 \<le> length mem" using assms(3) High24 by (simp add: slack_def cpixel_size_def)
  have "take 3 (drop p mem) = take 3 (drop 1 (pixel_bytes pix))" using assms(2) High24 s by (simp add: holds_def cpixel_bytes_def)
  then have "take 3 (drop p mem) ! k = take 3 (drop 1 (pixel_bytes pix)) ! k" for k by simp
  then have b: "mem ! (p + k) = pixel_bytes pix ! (k + 1)" if "k < 3" for k
    using that len s by (metis One_nat_def add.commute add_leE length_pixel_bytes nth_drop nth_take numeral_le_iff one_le_numeral semiring_norm(69) semiring_norm(72))
  have "drop_bit 8 q = drop_bit 8 pix"
  proof (rule bit_word_eqI)
    fix n assume n: "n < LENGTH('a)"
    show "bit (drop_bit 8 q) n = bit (drop_bit 8 pix) n"
    proof (cases "n < 24")
      case True
      then have "n div 8 < 3" by auto
      with b[of "n div 8"] len True show ?thesis
        using v(2) s by (simp add: q_def bit_simps bit_pixel_of pixel_bytes_def) (simp add: add.commute)
    next
      case False
      then show ?thesis using v(2) by (auto simp: bit_simps dest: bit_imp_le_length)
    qed
  qed
  then show ?thesis using len v High24 s by (simp add: UncompressCPixel_def same_sent_def q_def)
qed

lemma length_cpixels:
  "decodes_with TYPE('a) c v \<Longrightarrow> length (concat (map (cpixel_bytes c) (ps :: 'a::len word list))) = length ps * cpixel_size c TYPE('a)"
  by (induction ps) (simp_all add: length_cpixel_bytes)

lemma read_pixels_bytes:
  fixes ps :: "'a::len word list"
  assumes "decodes_with TYPE('a) c v" "holds mem p (concat (map (cpixel_bytes c) ps))"
    "slack c mem (p + length ps * cpixel_size c TYPE('a))"
  shows "\<exists>qs. read_pixels v mem p (length ps) = Some qs \<and> list_all2 (same_sent c) ps qs"
  using assms(2,3)
proof (induction ps arbitrary: p)
  case (Cons pix ps)
  let ?s = "cpixel_size c TYPE('a)"
  have h: "holds mem p (cpixel_bytes c pix)" "holds mem (p + ?s) (concat (map (cpixel_bytes c) ps))"
    using Cons.prems(1) length_cpixel_bytes[OF assms(1)] by (simp_all add: holds_append)
  obtain q where q: "UncompressCPixel v mem p = Some q" "same_sent c pix q"
    using UncompressCPixel_bytes[OF assms(1) h(1)] slack_mono[OF Cons.prems(2)] by auto
  obtain qs where "read_pixels v mem (p + ?s) (length ps) = Some qs" "list_all2 (same_sent c) ps qs"
    using Cons.IH[OF h(2)] Cons.prems(2) by (auto simp: add.assoc)
  then show ?case using q real_bytes_size[OF assms(1)] by simp
qed simp


section \<open>The palette of a tile\<close>

lemma set_runs: "set (pix # ps) = insert pix (set (dropWhile (\<lambda>q. q = pix) ps))"
  by (induction ps) auto

lemma scan_tile_palette:
  fixes ps :: "'a::len word list"
  assumes "ph_valid ph"
  shows "\<exists>ph' r s. scan_tile ps ph runs singles = Some (ph', r, s) \<and> ph_valid ph' \<and> ph_size ph \<le> ph_size ph' \<and>
    (ph_size ph' \<le> ZRLE_PALETTE_MAX_SIZE \<longrightarrow> set (ph_colours ph') = set (ph_colours ph) \<union> ucast ` set ps)"
  using assms
proof (induction ps ph runs singles rule: scan_tile.induct)
  case (2 pix ps ph runs singles)
  define rest where "rest = dropWhile (\<lambda>q. q = pix) ps"
  from palette.insert_all_valid[OF "2.prems", of "[ucast pix]"]
  obtain ph1 where ph1: "zrlePaletteHelperInsert ph (ucast pix) = Some ph1" "ph_valid ph1" "ph_size ph \<le> ph_size ph1"
    "ph_size ph1 \<le> ZRLE_PALETTE_MAX_SIZE \<longrightarrow> set (ph_colours ph1) = set (ph_colours ph) \<union> {ucast pix}"
    by (auto split: option.splits)
  have go: "scan_tile (pix # ps) ph runs singles = (if length rest = length ps then scan_tile rest ph1 runs (singles + 1) else scan_tile rest ph1 (runs + 1) singles)"
    using ph1(1) by (simp add: rest_def)
  have "\<exists>ph' r s. scan_tile (pix # ps) ph runs singles = Some (ph', r, s) \<and> ph_valid ph' \<and> ph_size ph1 \<le> ph_size ph' \<and>
      (ph_size ph' \<le> ZRLE_PALETTE_MAX_SIZE \<longrightarrow> set (ph_colours ph') = set (ph_colours ph1) \<union> ucast ` set rest)"
    using "2.IH"[OF rest_def ph1(1) _ ph1(2)] unfolding go by (cases "length rest = length ps") simp_all
  then obtain ph2 r s where ph2: "scan_tile (pix # ps) ph runs singles = Some (ph2, r, s)" "ph_valid ph2" "ph_size ph1 \<le> ph_size ph2"
    "ph_size ph2 \<le> ZRLE_PALETTE_MAX_SIZE \<longrightarrow> set (ph_colours ph2) = set (ph_colours ph1) \<union> ucast ` set rest" by blast
  moreover have "set (pix # ps) = insert pix (set rest)" unfolding rest_def by (rule set_runs)
  ultimately show ?case using ph1(3,4) by (intro exI[of _ ph2] exI[of _ r] exI[of _ s]) auto
qed simp

text \<open>A palette with the colours of some pixels.\<close>

definition palette_for :: "palette_helper \<Rightarrow> 'a::len word list \<Rightarrow> bool" where
  "palette_for ph ps \<longleftrightarrow> ph_valid ph \<and> ph_size ph \<le> ZRLE_PALETTE_MAX_SIZE \<and> LENGTH('a) \<le> 32 \<and>
     (\<forall>pix\<in>set ps. ucast pix \<in> set (ph_colours ph))"

definition number_of :: "palette_helper \<Rightarrow> 'a::len word \<Rightarrow> nat" where
  "number_of ph pix = position (ucast pix) (ph_colours ph)"

definition entry :: "palette_helper \<Rightarrow> nat \<Rightarrow> 'a::len word" where
  "entry ph k = ucast (ph_palette ph ! k)"

lemma palette_for_number:
  assumes "palette_for ph ps" "(pix :: 'a::len word) \<in> set ps"
  shows "colour_number ph pix = Some (word_of_nat (number_of ph pix))" "number_of ph pix < ph_size ph"
    "(entry ph (number_of ph pix) :: 'a word) = pix" "ph_size ph \<le> 127"
proof -
  have v: "ph_valid ph" "ph_size ph \<le> ZRLE_PALETTE_MAX_SIZE" "ucast pix \<in> set (ph_colours ph)" "LENGTH('a) \<le> 32"
    using assms by (auto simp: palette_for_def)
  have len: "length (ph_colours ph) = ph_size ph" using palette.count_colours[OF v(1,2)] by simp
  note k = position_less[OF v(3)]
  show "colour_number ph pix = Some (word_of_nat (number_of ph pix))"
    using palette.lookup_valid[OF v(1,2), of "ucast pix"] v(3) by (simp add: colour_number_def number_of_def)
  show "number_of ph pix < ph_size ph" using k len by (simp add: number_of_def)
  then have "ph_palette ph ! number_of ph pix = ucast pix" using k len by (simp add: number_of_def ph_colours_def)
  moreover have "ucast (ucast pix :: uint32_t) = pix"
    using v(4) by (intro bit_word_eqI) (auto simp: bit_simps)
  ultimately show "(entry ph (number_of ph pix) :: 'a word) = pix" by (simp add: entry_def)
  show "ph_size ph \<le> 127" using v(2) by (simp add: ZRLE_PALETTE_MAX_SIZE_def)
qed

lemma palette_for_subset: "palette_for ph ps \<Longrightarrow> set qs \<subseteq> set ps \<Longrightarrow> palette_for ph qs"
  by (auto simp: palette_for_def)

text \<open>The palette as it was received.\<close>

definition received :: "cpixel \<Rightarrow> palette_helper \<Rightarrow> 'a::len word list \<Rightarrow> bool" where
  "received c ph pal \<longleftrightarrow> list_all2 (same_sent c) (map (entry ph) [0..<ph_size ph]) pal"

lemma received_at:
  fixes pal :: "'a::len word list"
  assumes "received c ph pal" "palette_for ph ps" "pix \<in> set ps"
  shows "palette_at pal (number_of ph pix) = Some (pal ! number_of ph pix)" "same_sent c pix (pal ! number_of ph pix)"
proof -
  note n = palette_for_number[OF assms(2,3)]
  have len: "length pal = ph_size ph" using assms(1) by (auto simp: received_def dest: list_all2_lengthD)
  then show "palette_at pal (number_of ph pix) = Some (pal ! number_of ph pix)" using n(2) by (simp add: palette_at_def)
  show "same_sent c pix (pal ! number_of ph pix)"
    using list_all2_nthD[OF assms(1)[unfolded received_def], of "number_of ph pix"] n(2,3) by simp
qed

section \<open>Packed numbers\<close>

lemma length_pack_row:
  "pack_row b ph ps n byte = Some ws \<Longrightarrow> b \<in> {1, 2, 4} \<Longrightarrow> b dvd n \<Longrightarrow> n < 8 \<Longrightarrow>
   length (all_written ws) = (n + length ps * b + 7) div 8"
proof (induction b ph ps n byte arbitrary: ws rule: pack_row.induct)
  case (1 b ph n byte)
  then show ?case by auto
next
  case (2 b ph pix ps n byte)
  obtain idx where idx: "colour_number ph pix = Some idx" using "2.prems"(1) by (auto split: option.splits)
  define byte' where "byte' = push_bit b byte OR idx"
  show ?case
  proof (cases "8 \<le> n + b")
    case True
    then have n: "n + b = 8" using "2.prems" by (auto elim!: dvdE)
    obtain ws' where ws': "pack_row b ph ps 0 byte' = Some ws'" "ws = Opaque [byte'] # ws'"
      using "2.prems"(1) True idx by (auto simp: byte'_def Let_def)
    have "length (all_written ws') = (length ps * b + 7) div 8"
      using "2.IH"(1)[OF idx byte'_def refl True] ws'(1) "2.prems" by simp
    moreover have "n + length (pix # ps) * b + 7 = 8 + (length ps * b + 7)" using n by simp
    ultimately show ?thesis using ws'(2) by simp
  next
    case False
    then have "pack_row b ph ps (n + b) byte' = Some ws" using "2.prems"(1) idx by (simp add: byte'_def)
    then show ?thesis using "2.IH"(2)[OF idx byte'_def refl False] "2.prems" False by (simp add: add.assoc)
  qed
qed

lemma drop_push_byte: "n \<le> 8 \<Longrightarrow> drop_bit (8 - n) (push_bit (8 - n) (byte :: uint8_t)) = take_bit n byte"
  by (rule bit_word_eqI) (auto simp: bit_simps)

lemma shifted_in:
  fixes byte idx :: uint8_t
  assumes "take_bit b idx = idx" "b \<le> 8"
  shows "take_bit b (push_bit b byte OR idx) = idx" "drop_bit b (push_bit b byte OR idx) = take_bit (8 - b) byte"
proof -
  have i: "bit idx n \<Longrightarrow> n < b" for n using assms(1) by (metis bit_take_bit_iff)
  show "take_bit b (push_bit b byte OR idx) = idx" by (rule bit_word_eqI) (auto simp: bit_simps dest: i)
  show "drop_bit b (push_bit b byte OR idx) = take_bit (8 - b) byte"
    by (rule bit_word_eqI) (use assms(2) in \<open>auto simp: bit_simps dest: i bit_imp_le_length\<close>)
qed

lemma unpack_packed_row:
  fixes ps :: "'a::len word list" and pal :: "'a word list"
  assumes "b \<in> {1, 2, 4}" "palette_for ph all" "received c ph pal" "ph_size ph \<le> 2 ^ b"
  shows "pack_row b ph ps n byte = Some ws \<Longrightarrow> set ps \<subseteq> set all \<Longrightarrow> b dvd n \<Longrightarrow> n < 8 \<Longrightarrow> holds mem p (all_written ws) \<Longrightarrow>
    unpack_row mem b pal (length ps) (8 - int b - int n) p = Some (map (\<lambda>pix. pal ! number_of ph pix) ps, p + length (all_written ws)) \<and>
    (all_written ws \<noteq> [] \<longrightarrow> drop_bit (8 - n) (hd (all_written ws)) = take_bit n byte)"
  using assms
proof (induction b ph ps n byte arbitrary: ws p rule: pack_row.induct)
  case (1 b ph n byte)
  then show ?case by (auto simp: drop_push_byte)
next
  case (2 b ph pix ps n byte)
  define k where "k = number_of ph pix"
  define idx where "idx = (word_of_nat k :: uint8_t)"
  define byte' where "byte' = push_bit b byte OR idx"
  have mem: "pix \<in> set all" using "2.prems" by simp
  have num: "colour_number ph pix = Some idx" using palette_for_number(1)[OF _ mem] "2.prems" by (simp add: idx_def k_def)
  have k: "k < 2 ^ b" using palette_for_number(2)[OF _ mem] "2.prems" by (force simp: k_def)
  have b8: "b \<le> 4" "0 < b" "(2::nat) ^ b \<le> 2 ^ 4" using "2.prems"(6) by auto
  have pal: "palette_at pal k = Some (pal ! k)" using received_at(1)[OF _ _ mem] "2.prems" by (simp add: k_def)
  have "k < 2 ^ 8" using k b8 by (simp add: order_less_le_trans)
  then have u: "unat idx = k" by (simp add: idx_def unat_of_nat take_bit_nat_eq_self_iff)
  have i: "take_bit b idx = idx" using k u b8 by (metis take_bit_nat_eq_self_iff unsigned_take_bit_eq word_unat_eq_iff)
  have bm: "b \<le> 8" using b8 by simp
  show ?case
  proof (cases "8 \<le> n + b")
    case True
    then have n: "n + b = 8" using "2.prems" by (auto elim!: dvdE)
    obtain ws' where ws': "pack_row b ph ps 0 byte' = Some ws'" "ws = Opaque [byte'] # ws'"
      using "2.prems"(1) True num by (auto simp: byte'_def Let_def)
    have m: "mem_at mem p = Some byte'" "holds mem (p + 1) (all_written ws')" using "2.prems"(5) ws'(2) by (simp_all add: holds_Cons)
    have ih: "unpack_row mem b pal (length ps) (8 - int b) (p + 1) =
        Some (map (\<lambda>pix. pal ! number_of ph pix) ps, p + 1 + length (all_written ws'))"
      using "2.IH"(1)[OF num byte'_def refl True ws'(1) _ _ _ m(2)] "2.prems" by simp
    have at: "unat (drop_bit 0 byte' AND mask b) = k" using shifted_in(1)[OF i bm, of byte] u by (simp add: byte'_def flip: take_bit_eq_mask)
    have sh: "8 - int b - int n = 0" using n by simp
    have "take_bit n byte = drop_bit (8 - n) byte'"
      using shifted_in(2)[OF i bm, of byte] n by (metis add_diff_cancel_left' add_diff_cancel_right' byte'_def)
    then show ?thesis using m at pal ih b8(2) ws'(2) by (simp add: sh k_def[symmetric])
  next
    case False
    have pr: "pack_row b ph ps (n + b) byte' = Some ws" using "2.prems"(1) False num by (simp add: byte'_def)
    have nb: "b dvd n + b" "n + b < 8" using "2.prems" False by simp_all
    have ih: "unpack_row mem b pal (length ps) (8 - int b - int (n + b)) p =
        Some (map (\<lambda>pix. pal ! number_of ph pix) ps, p + length (all_written ws))"
      "all_written ws \<noteq> [] \<longrightarrow> drop_bit (8 - (n + b)) (hd (all_written ws)) = take_bit (n + b) byte'"
      using "2.IH"(2)[OF num byte'_def refl False pr _ nb "2.prems"(5)] "2.prems" by simp_all
    have "8 - int b - int (n + b) = 8 - int b - int n - int b" by simp
    note ih' = ih(1)[unfolded this]
    have "length (all_written ws) = (n + b + length ps * b + 7) div 8"
      using length_pack_row[OF pr] "2.prems"(6) nb by blast
    then have ne: "all_written ws \<noteq> []" using b8(2) by force
    define b0 where "b0 = hd (all_written ws)"
    have b0: "drop_bit (8 - (n + b)) b0 = take_bit (n + b) byte'" using ih(2) ne by (simp add: b0_def)
    have m: "mem_at mem p = Some b0"
      using "2.prems"(5) ne holds_Cons[of mem p b0 "tl (all_written ws)"] by (simp add: b0_def)
    have sh: "nat (8 - int b - int n) = 8 - (n + b)" by simp
    have "drop_bit (8 - (n + b)) b0 AND mask b = take_bit b byte'" by (simp add: b0 flip: take_bit_eq_mask)
    then have at: "unat (drop_bit (8 - (n + b)) b0 AND mask b) = k" using shifted_in(1)[OF i bm, of byte] u by (simp add: byte'_def)
    have go: "\<not> 8 - int b - int n - int b < 0" using nb "2.prems"(6) by (auto elim!: dvdE)
    have "drop_bit (8 - n) b0 = drop_bit b (drop_bit (8 - (n + b)) b0)" using nb(2) by simp
    also have "\<dots> = take_bit n (drop_bit b byte')" by (simp add: b0 drop_bit_take_bit)
    also have "\<dots> = take_bit n byte" using shifted_in(2)[OF i bm, of byte] nb(2) by (simp add: byte'_def)
    finally have top: "drop_bit (8 - n) b0 = take_bit n byte" .
    have "unpack_row mem b pal (length (pix # ps)) (8 - int b - int n) p =
        Some (map (\<lambda>pix. pal ! number_of ph pix) (pix # ps), p + length (all_written ws))"
      using m at pal ih' go by (simp add: sh k_def[symmetric] del: of_nat_add)
    then show ?thesis using top by (simp add: b0_def)
  qed
qed


lemma pack_row_Some: "palette_for ph all \<Longrightarrow> set ps \<subseteq> set all \<Longrightarrow> \<exists>ws. pack_row b ph ps n byte = Some ws"
proof (induction b ph ps n byte rule: pack_row.induct)
  case (2 b ph pix ps n byte)
  have "colour_number ph pix = Some (word_of_nat (number_of ph pix))"
    using palette_for_number(1)[OF "2.prems"(1)] "2.prems"(2) by simp
  then show ?case using "2.IH"(1)[OF _ refl refl] "2.IH"(2)[OF _ refl refl] "2.prems" by (auto simp: Let_def)
qed simp

lemma pack_rows_spec:
  fixes ps :: "'a::len word list" and pal :: "'a word list"
  assumes "b \<in> {1, 2, 4}" "palette_for ph all"
  shows "length ps = w * h \<Longrightarrow> set ps \<subseteq> set all \<Longrightarrow> \<exists>ws. pack_rows b ph w h ps = Some ws \<and>
    length (all_written ws) = h * ((w * b + 7) div 8) \<and>
    (received c ph pal \<and> ph_size ph \<le> 2 ^ b \<and> holds mem p (all_written ws) \<longrightarrow>
       unpack_rows mem b pal w h p = Some (map (\<lambda>pix. pal ! number_of ph pix) ps, p + length (all_written ws)))"
proof (induction h arbitrary: ps p)
  case (Suc h)
  have row: "length (take w ps) = w" "set (take w ps) \<subseteq> set all" "set (drop w ps) \<subseteq> set all" "length (drop w ps) = w * h"
    using Suc.prems set_take_subset[of w ps] set_drop_subset[of w ps] by auto
  obtain ws1 where ws1: "pack_row b ph (take w ps) 0 0 = Some ws1" using pack_row_Some[OF assms(2) row(2)] by blast
  have len: "length (all_written ws1) = (w * b + 7) div 8"
    using length_pack_row[OF ws1] assms(1) row(1) by (simp add: add.commute)
  from Suc.IH[OF row(4,3), of "p + length (all_written ws1)"] obtain ws2 where
    ws2: "pack_rows b ph w h (drop w ps) = Some ws2" "length (all_written ws2) = h * ((w * b + 7) div 8)"
    "received c ph pal \<and> ph_size ph \<le> 2 ^ b \<and> holds mem (p + length (all_written ws1)) (all_written ws2) \<longrightarrow>
       unpack_rows mem b pal w h (p + length (all_written ws1)) =
         Some (map (\<lambda>pix. pal ! number_of ph pix) (drop w ps), p + length (all_written ws1) + length (all_written ws2))" by blast
  have "unpack_rows mem b pal w (Suc h) p = Some (map (\<lambda>pix. pal ! number_of ph pix) ps, p + length (all_written (ws1 @ ws2)))"
    if r: "received c ph pal" "ph_size ph \<le> 2 ^ b" "holds mem p (all_written (ws1 @ ws2))"
  proof -
    have h: "holds mem p (all_written ws1)" "holds mem (p + length (all_written ws1)) (all_written ws2)"
      using r(3) by (simp_all add: holds_append)
    have "unpack_row mem b pal w (8 - int b) p = Some (map (\<lambda>pix. pal ! number_of ph pix) (take w ps), p + length (all_written ws1))"
      using unpack_packed_row[OF assms(1,2) r(1,2) ws1 row(2) _ _ h(1)] row(1) by simp
    moreover have "map g (take w ps) @ map g (drop w ps) = map g ps" for g :: "'a word \<Rightarrow> 'a word"
      by (metis append_take_drop_id map_append)
    ultimately show ?thesis using ws2(3) r h by simp
  qed
  then show ?case using ws1 ws2(1,2) len by (intro exI[of _ "ws1 @ ws2"]) simp
qed simp

section \<open>Runs\<close>

text \<open>The first pixels of a rectangle are drawn.\<close>

definition drawn :: "nat \<Rightarrow> nat \<Rightarrow> nat \<Rightarrow> nat \<Rightarrow> nat \<Rightarrow> (nat \<Rightarrow> nat \<Rightarrow> 'p) \<Rightarrow> 'p list \<Rightarrow> 'p list \<Rightarrow> bool" where
  "drawn W H x y w f ps fb \<longleftrightarrow>
     shows_pixels W H fb (\<lambda>X Y. if x \<le> X \<and> X < x + w \<and> y \<le> Y \<and> (Y - y) * w + (X - x) < length ps
                             then ps ! ((Y - y) * w + (X - x)) else f X Y)"

lemma drawn_Nil: "drawn W H x y w f [] fb \<longleftrightarrow> shows_pixels W H fb f"
  by (simp add: drawn_def)

lemma drawn_all:
  assumes "drawn W H x y w f ps fb" "length ps = w * h"
  shows "shows_pixels W H fb (overlay x y w h (\<lambda>px py. ps ! (py * w + px)) f)"
proof -
  have "(x \<le> X \<and> X < x + w \<and> y \<le> Y \<and> (Y - y) * w + (X - x) < length ps) = in_rect x y w h X Y" for X Y
  proof (cases "x \<le> X \<and> X < x + w \<and> y \<le> Y")
    case True
    have "(Y - y) * w + (X - x) < w * h \<longleftrightarrow> Y - y < h"
    proof
      assume "(Y - y) * w + (X - x) < w * h"
      then have "(Y - y) * w < h * w" by (metis add_lessD1 mult.commute)
      then show "Y - y < h" by (metis mult_less_cancel2)
    next
      assume "Y - y < h"
      then show "(Y - y) * w + (X - x) < w * h" using index_less[of "X - x" w "Y - y" h] True by auto
    qed
    then show ?thesis using True assms(2) by (auto simp: in_rect_def)
  qed (auto simp: in_rect_def)
  then have "overlay x y w h (\<lambda>px py. ps ! (py * w + px)) f =
      (\<lambda>X Y. if x \<le> X \<and> X < x + w \<and> y \<le> Y \<and> (Y - y) * w + (X - x) < length ps then ps ! ((Y - y) * w + (X - x)) else f X Y)"
    by (intro ext) (simp add: overlay_def)
  then show ?thesis using assms(1) by (simp add: drawn_def)
qed

lemma drawn_one:
  assumes "drawn W H x y w f ps fb" "length ps = j * w + i" "i < w" "j < h" "x + w \<le> W" "y + h \<le> H"
  shows "drawn W H x y w f (ps @ [c]) (fb[(y + j) * W + x + i := c])"
proof -
  have at: "(y + j) * W + x + i = Y * W + X \<longleftrightarrow> X = x + i \<and> Y = y + j" if "X < W" for X Y
  proof
    assume e: "(y + j) * W + x + i = Y * W + X"
    have xi: "x + i < W" using assms(3,5) by simp
    have "((y + j) * W + (x + i)) div W = (Y * W + X) div W" using e by (simp add: add.assoc)
    then have "y + j = Y" using xi that by simp
    then show "X = x + i \<and> Y = y + j" using e by simp
  qed auto
  have idx: "(Y - y) * w + (X - x) = j * w + i \<longleftrightarrow> X = x + i \<and> Y = y + j" if "x \<le> X" "X < x + w" "y \<le> Y" for X Y
  proof
    assume e: "(Y - y) * w + (X - x) = j * w + i"
    have r: "X - x < w" using that by auto
    have "((Y - y) * w + (X - x)) div w = (j * w + i) div w" using e by simp
    then have "Y - y = j" using r assms(3) by (simp del: Nat.add_diff_assoc)
    then show "X = x + i \<and> Y = y + j" using e that by auto
  qed auto
  have "(y + j) * W + x + i < W * H" using index_less[of "x + i" W "y + j" H] assms(3-6) by (simp add: add.assoc mult.commute)
  moreover have "fb[(y + j) * W + x + i := c] ! (Y * W + X) =
      (if x \<le> X \<and> X < x + w \<and> y \<le> Y \<and> (Y - y) * w + (X - x) < length (ps @ [c]) then (ps @ [c]) ! ((Y - y) * w + (X - x)) else f X Y)"
    if "X < W" "Y < H" for X Y
  proof (cases "X = x + i \<and> Y = y + j")
    case True
    have "(y + j) * W + x + i < length fb" using calculation assms(1) by (simp add: drawn_def shows_pixels_def)
    then show ?thesis using True assms(3) by (simp add: add.assoc flip: assms(2))
  next
    case False
    then have "fb[(y + j) * W + x + i := c] ! (Y * W + X) = fb ! (Y * W + X)" using at[OF that(1)] by auto
    moreover have "\<not> (x \<le> X \<and> X < x + w \<and> y \<le> Y \<and> (Y - y) * w + (X - x) = length ps)" using idx False assms(2) by auto
    ultimately show ?thesis using assms(1) that by (auto simp: drawn_def shows_pixels_def nth_append less_Suc_eq)
  qed
  ultimately show ?thesis using assms(1) by (simp add: drawn_def shows_pixels_def)
qed

lemma put_run_draws:
  assumes "x + w \<le> W" "y + h \<le> H" "0 < w"
  shows "drawn W H x y w f ps fb \<Longrightarrow> length ps = j * w + i \<Longrightarrow> i < w \<Longrightarrow> length ps + n \<le> w * h \<Longrightarrow>
    \<exists>fb' i' j'. put_run W x y w h c n fb i j = (fb', i', j') \<and> drawn W H x y w f (ps @ replicate n c) fb' \<and>
      length ps + n = j' * w + i' \<and> i' < w"
proof (induction n arbitrary: fb i j ps)
  case 0
  then show ?case by simp
next
  case (Suc n)
  have "j * w + i < h * w" using Suc.prems by (simp add: mult.commute)
  then have j: "j < h" by (metis add_lessD1 mult_less_cancel2)
  define fb1 where "fb1 = fb[(y + j) * W + x + i := c]"
  have d: "drawn W H x y w f (ps @ [c]) fb1"
    unfolding fb1_def by (rule drawn_one[OF Suc.prems(1,2,3) j assms(1) le_trans[OF _ assms(2)]]) simp
  have rep: "(ps @ [c]) @ replicate n c = ps @ replicate (Suc n) c" by (simp add: replicate_append_same)
  have len: "length (ps @ [c]) + n \<le> w * h" "length (ps @ [c]) + n = length ps + Suc n" using Suc.prems by simp_all
  show ?case
  proof (cases "w \<le> i + 1")
    case True
    then have "length (ps @ [c]) = (j + 1) * w + 0" using Suc.prems by simp
    from Suc.IH[OF d this assms(3) len(1)] show ?thesis using True j by (simp add: rep len(2) flip: fb1_def)
  next
    case False
    then have "length (ps @ [c]) = j * w + (i + 1)" "i + 1 < w" using Suc.prems by simp_all
    from Suc.IH[OF d this len(1)] show ?thesis using False j by (simp add: rep len(2) flip: fb1_def)
  qed
qed

lemma run_length_holds:
  "holds mem p (all_written (run_length_writes n)) \<Longrightarrow> p + length (all_written (run_length_writes n)) \<le> e \<Longrightarrow>
   read_run_length mem e p len = Some (Inr (len + n, p + length (all_written (run_length_writes n))))"
proof (induction n arbitrary: p len rule: run_length_writes.induct)
  case (1 n)
  show ?case
  proof (cases "255 \<le> n")
    case True
    have ne: "0 < length (all_written (run_length_writes (n - 255)))" by (subst run_length_writes.simps) simp
    have w: "run_length_writes n = Opaque [255] # run_length_writes (n - 255)" using True by (subst run_length_writes.simps) simp
    have "read_run_length mem e (p + 1) (len + 255) =
        Some (Inr (len + 255 + (n - 255), p + 1 + length (all_written (run_length_writes (n - 255)))))"
      using "1.IH"[OF True, of "p + 1" "len + 255"] "1.prems" by (simp add: w holds_Cons)
    moreover have "length (all_written (run_length_writes n)) = 1 + length (all_written (run_length_writes (n - 255)))" by (simp add: w)
    then have "\<not> e \<le> p + 1" using "1.prems"(2) ne by linarith
    ultimately show ?thesis using "1.prems"(1) True by (subst read_run_length.simps) (simp add: w holds_Cons)
  next
    case False
    have w: "run_length_writes n = [Opaque [word_of_nat n]]" using False by (subst run_length_writes.simps) simp
    have u: "unat (word_of_nat n :: uint8_t) = n" using False by (simp add: unat_of_nat take_bit_nat_eq_self_iff)
    then have "(word_of_nat n :: uint8_t) \<noteq> 255" using False by auto
    then show ?thesis using "1.prems"(1) u by (subst read_run_length.simps) (simp add: w holds_Cons)
  qed
qed

lemma run_head: "pix # ps = replicate (1 + (length ps - length (dropWhile (\<lambda>q. q = pix) ps))) pix @ dropWhile (\<lambda>q. q = pix) ps"
  by (induction ps) (auto simp: Suc_diff_le length_dropWhile_le)


lemma rows_end:
  assumes "k = j * w + i" "(i::nat) < w"
  shows "k = w * h \<Longrightarrow> \<not> j < h" "k < w * h \<Longrightarrow> j < h"
proof -
  have j: "k div w = j" using assms by simp
  show "k = w * h \<Longrightarrow> \<not> j < h" using j assms by auto
  show "k < w * h \<Longrightarrow> j < h" using j by (metis less_mult_imp_div_less mult.commute)
qed

text \<open>The first run of the pixels.\<close>

lemma rle_writes_first:
  assumes "rle_writes c u ph (pix # ps) = Some ws"
  obtains rest n ws1 ws2 where "pix # ps = replicate (Suc n) pix @ rest" "length rest \<le> length ps" "ws = ws1 @ ws2" "rle_writes c u ph rest = Some ws2"
    "\<not> u \<Longrightarrow> ws1 = Opaque (cpixel_bytes c pix) # run_length_writes n"
    "u \<Longrightarrow> \<exists>idx. colour_number ph pix = Some idx \<and>
       ws1 = (if Suc n \<le> 2 then replicate (Suc n) (Opaque [idx]) else Opaque [idx OR 128] # run_length_writes n)"
    "rest = dropWhile (\<lambda>q. q = pix) ps" "n = length ps - length rest"
proof -
  define rest where "rest = dropWhile (\<lambda>q. q = pix) ps"
  define n where "n = length ps - length rest"
  have r: "pix # ps = replicate (Suc n) pix @ rest" using run_head[of pix ps] by (simp add: rest_def n_def)
  have l: "length rest \<le> length ps" by (simp add: rest_def length_dropWhile_le)
  show ?thesis
    using assms that[OF r l _ _ _ _ rest_def n_def] by (auto simp: Let_def split: option.splits if_splits simp flip: rest_def n_def)
qed

lemma plain_runs_draw:
  fixes ds :: "'a::len word list"
  assumes "decodes_with TYPE('a) c v" "x + w \<le> W" "y + h \<le> H" "0 < w"
  shows "rle_writes c False ph ds = Some ws \<Longrightarrow> holds mem p (all_written ws) \<Longrightarrow> p + length (all_written ws) \<le> e \<Longrightarrow>
    drawn W H x y w f ps fb \<Longrightarrow> length ps = j * w + i \<Longrightarrow> i < w \<Longrightarrow> length ps + length ds = w * h \<Longrightarrow>
    \<exists>fb' qs. plain_runs v W x y w h mem e p fb i j = Some (fb', Inr (p + length (all_written ws))) \<and>
      list_all2 (same_sent c) ds qs \<and> drawn W H x y w f (ps @ qs) fb'"
proof (induction "length ds" arbitrary: ds ws p ps fb i j rule: less_induct)
  case less
  show ?case
  proof (cases ds)
    case Nil
    then show ?thesis using less.prems rows_end(1)[OF less.prems(5,6)] by (subst plain_runs.simps) auto
  next
    case (Cons pix ds1)
    obtain rest n ws1 ws2 where r: "ds = replicate (Suc n) pix @ rest" "length rest \<le> length ds1" "ws = ws1 @ ws2"
      "rle_writes c False ph rest = Some ws2" "ws1 = Opaque (cpixel_bytes c pix) # run_length_writes n"
      using rle_writes_first[OF less.prems(1)[unfolded Cons]] Cons by metis
    let ?s = "cpixel_size c TYPE('a)" and ?l = "length (all_written (run_length_writes n))"
    have h: "holds mem p (cpixel_bytes c pix)" "holds mem (p + ?s) (all_written (run_length_writes n))"
      "holds mem (p + ?s + ?l) (all_written ws2)" "p + ?s + ?l + length (all_written ws2) \<le> e"
      using less.prems(2,3) length_cpixel_bytes[OF assms(1), of pix] by (simp_all add: r holds_append add.assoc)
    have l: "0 < ?l" by (subst run_length_writes.simps) simp
    have "slack c mem (p + ?s)" using holds_length[OF h(2)] l unfolding slack_def by linarith
    then obtain q where q: "UncompressCPixel v mem p = Some q" "same_sent c pix q" using UncompressCPixel_bytes[OF assms(1) h(1)] by blast
    have rl: "read_run_length mem e (p + ?s) 1 = Some (Inr (Suc n, p + ?s + ?l))" using run_length_holds[OF h(2), of e 1] h(4) by simp
    have "length ps + Suc n \<le> w * h" using less.prems(7) by (simp add: r(1))
    from put_run_draws[OF assms(2-4) less.prems(4-6) this, of q] obtain fb1 i1 j1 where
      d: "put_run W x y w h q (Suc n) fb i j = (fb1, i1, j1)" "drawn W H x y w f (ps @ replicate (Suc n) q) fb1"
      "length ps + Suc n = j1 * w + i1" "i1 < w" by blast
    have len: "length (ps @ replicate (Suc n) q) = j1 * w + i1" "length (ps @ replicate (Suc n) q) + length rest = w * h"
      using d(3) less.prems(7) by (simp_all add: r(1))
    have "length rest < length ds" using r(2) Cons by simp
    from less.hyps[OF this r(4) h(3,4) d(2) len(1) d(4) len(2)] obtain fb2 qs where
      k: "plain_runs v W x y w h mem e (p + ?s + ?l) fb1 i1 j1 = Some (fb2, Inr (p + ?s + ?l + length (all_written ws2)))"
      "list_all2 (same_sent c) rest qs" "drawn W H x y w f ((ps @ replicate (Suc n) q) @ qs) fb2" by blast
    have "length ps < w * h" using less.prems(7) Cons by simp
    then have "j < h" using rows_end(2)[OF less.prems(5,6)] by simp
    moreover have "\<not> e < p + ?s + 1" using h(4) l by linarith
    ultimately have "plain_runs v W x y w h mem e p fb i j = Some (fb2, Inr (p + length (all_written ws)))"
      using q(1) rl d(1) k(1) real_bytes_size[OF assms(1)] length_cpixel_bytes[OF assms(1), of pix]
      by (subst plain_runs.simps) (simp add: r(3,5) add.assoc)
    moreover have "list_all2 (same_sent c) (replicate (Suc n) pix) (replicate (Suc n) q)"
      using q(2) by (simp add: list_all2_conv_all_nth del: replicate_Suc)
    then have "list_all2 (same_sent c) ds (replicate (Suc n) q @ qs)" unfolding r(1) using k(2) by (rule list_all2_appendI)
    ultimately show ?thesis using k(3) by (intro exI[of _ fb2] exI[of _ "replicate (Suc n) q @ qs"]) simp
  qed
qed


lemma palette_step:
  assumes "x + w \<le> W" "y + h \<le> H" "0 < w" "drawn W H x y w f ps fb" "length ps = j * w + i" "i < w"
    and "mem_at mem p = Some b" "palette_at pal (unat (b AND 127)) = Some c" "p < e"
    and "read_palette_run mem e p b = Some (Inr (m, q))" "0 < m" "length ps + m \<le> w * h"
  shows "\<exists>fb1 i1 j1. palette_runs pal W x y w h mem e p fb i j = palette_runs pal W x y w h mem e q fb1 i1 j1 \<and>
    drawn W H x y w f (ps @ replicate m c) fb1 \<and> length (ps @ replicate m c) = j1 * w + i1 \<and> i1 < w"
proof -
  from put_run_draws[OF assms(1-6,12), of c] obtain fb1 i1 j1 where
    d: "put_run W x y w h c m fb i j = (fb1, i1, j1)" "drawn W H x y w f (ps @ replicate m c) fb1"
    "length ps + m = j1 * w + i1" "i1 < w" by blast
  have "j < h" using rows_end(2)[OF assms(5,6)] assms(11,12) by simp
  then have "palette_runs pal W x y w h mem e p fb i j = palette_runs pal W x y w h mem e q fb1 i1 j1"
    using assms(7-10) d(1) by (subst palette_runs.simps) simp
  then show ?thesis using d by auto
qed

lemma number_bits:
  assumes "k < 128"
  shows "unat (word_of_nat k AND 127 :: uint8_t) = k" "\<not> bit (word_of_nat k :: uint8_t) 7"
    "unat ((word_of_nat k OR 128) AND 127 :: uint8_t) = k" "bit (word_of_nat k OR 128 :: uint8_t) 7"
proof -
  have u: "unat (word_of_nat k :: uint8_t) = k" using assms by (simp add: unat_of_nat take_bit_nat_eq_self_iff)
  have t: "take_bit 7 (word_of_nat k :: uint8_t) = word_of_nat k"
    by (rule word_unat_eq_iff[THEN iffD2]) (use assms u in \<open>simp add: unsigned_take_bit_eq take_bit_nat_eq_self\<close>)
  show "\<not> bit (word_of_nat k :: uint8_t) 7" using arg_cong[OF t, of "\<lambda>w. bit w 7"] by (simp add: bit_simps)
  have m: "(127 :: uint8_t) = mask 7" by (simp add: mask_eq_exp_minus_1)
  show "unat (word_of_nat k AND 127 :: uint8_t) = k" using t u by (simp add: m flip: take_bit_eq_mask)
  have z: "(128 :: uint8_t) AND 127 = 0" by simp
  show "unat ((word_of_nat k OR 128) AND 127 :: uint8_t) = k"
    using t u z by (simp add: bit.conj_disj_distrib2 m flip: take_bit_eq_mask)
  show "bit (word_of_nat k OR 128 :: uint8_t) 7" by (simp add: bit_or_iff)
qed


lemma palette_runs_draw:
  fixes ds :: "'a::len word list" and pal :: "'a word list"
  assumes "palette_for ph all" "received c ph pal" "x + w \<le> W" "y + h \<le> H" "0 < w"
  shows "rle_writes c True ph ds = Some ws \<Longrightarrow> set ds \<subseteq> set all \<Longrightarrow> holds mem p (all_written ws) \<Longrightarrow> p + length (all_written ws) \<le> e \<Longrightarrow>
    drawn W H x y w f ps fb \<Longrightarrow> length ps = j * w + i \<Longrightarrow> i < w \<Longrightarrow> length ps + length ds = w * h \<Longrightarrow>
    \<exists>fb'. palette_runs pal W x y w h mem e p fb i j = Some (fb', Inr (p + length (all_written ws))) \<and>
      drawn W H x y w f (ps @ map (\<lambda>pix. pal ! number_of ph pix) ds) fb'"
proof (induction "length ds" arbitrary: ds ws p ps fb i j rule: less_induct)
  case less
  show ?case
  proof (cases ds)
    case Nil
    then show ?thesis using less.prems rows_end(1)[OF less.prems(6,7)] by (subst palette_runs.simps) auto
  next
    case (Cons pix ds1)
    define k where "k = number_of ph pix"
    define idx where "idx = (word_of_nat k :: uint8_t)"
    have mem: "pix \<in> set all" using less.prems(2) Cons by simp
    note num = palette_for_number[OF assms(1) mem, folded k_def idx_def]
    have k: "k < 128" using num(2,4) by simp
    note bits = number_bits[OF k, folded idx_def]
    have pal: "palette_at pal k = Some (pal ! k)" using received_at(1)[OF assms(2,1) mem] by (simp add: k_def)
    obtain rest n ws1 ws2 where r: "ds = replicate (Suc n) pix @ rest" "length rest \<le> length ds1" "ws = ws1 @ ws2"
      "rle_writes c True ph rest = Some ws2"
      "ws1 = (if Suc n \<le> 2 then replicate (Suc n) (Opaque [idx]) else Opaque [idx OR 128] # run_length_writes n)"
      using rle_writes_first[OF less.prems(1)[unfolded Cons]] Cons num(1) by (metis option.inject)
    define q where "q = p + length (all_written ws1)"
    have h: "holds mem p (all_written ws1)" "holds mem q (all_written ws2)" "q + length (all_written ws2) \<le> e"
      using less.prems(3,4) by (simp_all add: r(3) holds_append q_def add.assoc)
    have fits: "length ps + Suc n \<le> w * h" using less.prems(8) by (simp add: r(1))
    note step = palette_step[OF assms(3-5)]
    have one: "read_palette_run mem e a idx = Some (Inr (1, a + 1))" for a using bits(2) by (simp add: read_palette_run_def)
    have "\<exists>fb1 i1 j1. palette_runs pal W x y w h mem e p fb i j = palette_runs pal W x y w h mem e q fb1 i1 j1 \<and>
        drawn W H x y w f (ps @ replicate (Suc n) (pal ! k)) fb1 \<and> length (ps @ replicate (Suc n) (pal ! k)) = j1 * w + i1 \<and> i1 < w"
    proof (cases "Suc n \<le> 2")
      case True
      then consider "n = 0" | "n = 1" by linarith
      then show ?thesis
      proof cases
        case 1
        then have "mem_at mem p = Some idx" "q = p + 1" "p < e" using h r(5) by (simp_all add: holds_Cons q_def)
        then show ?thesis using step[where b = idx and pal = pal and c = "pal ! k", OF less.prems(5-7) _ _ _ one] bits(1) pal fits 1 by simp
      next
        case 2
        then have m: "mem_at mem p = Some idx" "mem_at mem (p + 1) = Some idx" "q = p + 1 + 1" "p < e" "p + 1 < e"
          using h r(5) by (simp_all add: holds_Cons q_def)
        obtain fb1 i1 j1 where s: "palette_runs pal W x y w h mem e p fb i j = palette_runs pal W x y w h mem e (p + 1) fb1 i1 j1"
          "drawn W H x y w f (ps @ [pal ! k]) fb1" "length (ps @ [pal ! k]) = j1 * w + i1" "i1 < w"
          using step[where b = idx and pal = pal and c = "pal ! k", OF less.prems(5-7) m(1) _ m(4) one] bits(1) pal fits 2 by auto
        have "length (ps @ [pal ! k]) + 1 \<le> w * h" using fits 2 by simp
        from step[where b = idx and pal = pal and c = "pal ! k", OF s(2-4) m(2) _ m(5) one _ this] show ?thesis using bits(1) pal s(1) m(3) 2 by simp
      qed
    next
      case False
      have m: "mem_at mem p = Some (idx OR 128)" "holds mem (p + 1) (all_written (run_length_writes n))"
        "q = p + 1 + length (all_written (run_length_writes n))" "p < e" "p + 1 + length (all_written (run_length_writes n)) \<le> e"
        using h r(5) False by (simp_all add: holds_Cons q_def)
      have "0 < length (all_written (run_length_writes n))" by (subst run_length_writes.simps) simp
      then have "\<not> e \<le> p + 1" using m(5) by linarith
      then have "read_palette_run mem e p (idx OR 128) = Some (Inr (Suc n, q))"
        using run_length_holds[OF m(2,5), of 1] bits(4) m(3) by (simp add: read_palette_run_def)
      from step[where pal = pal and c = "pal ! k", OF less.prems(5-7) m(1) _ m(4) this _ fits] show ?thesis using bits(3) pal by simp
    qed
    then obtain fb1 i1 j1 where d: "palette_runs pal W x y w h mem e p fb i j = palette_runs pal W x y w h mem e q fb1 i1 j1"
      "drawn W H x y w f (ps @ replicate (Suc n) (pal ! k)) fb1" "length (ps @ replicate (Suc n) (pal ! k)) = j1 * w + i1" "i1 < w" by blast
    have len: "length (ps @ replicate (Suc n) (pal ! k)) + length rest = w * h" using less.prems(8) by (simp add: r(1))
    have sub: "length rest < length ds" "set rest \<subseteq> set all" using r(1,2) Cons less.prems(2) by auto
    from less.hyps[OF sub(1) r(4) sub(2) h(2,3) d(2-4) len] show ?thesis
      by (simp add: d(1) r(1,3) q_def k_def add.assoc del: replicate_Suc)
  qed
qed

lemma rle_writes_Some: "(u \<longrightarrow> palette_for ph ds) \<Longrightarrow> \<exists>ws. rle_writes c u ph ds = Some ws"
proof (induction "length ds" arbitrary: ds rule: less_induct)
  case less
  show ?case
  proof (cases ds)
    case (Cons pix ps)
    define rest where "rest = dropWhile (\<lambda>q. q = pix) ps"
    have s: "length rest < length ds" "set rest \<subseteq> set ds"
      using Cons by (auto simp: rest_def less_Suc_eq_le length_dropWhile_le dest: set_dropWhileD)
    have "u \<Longrightarrow> \<exists>idx. colour_number ph pix = Some idx" using less.prems palette_for_number(1) Cons by fastforce
    moreover obtain ws where "rle_writes c u ph rest = Some ws" using less.hyps[OF s(1)] less.prems palette_for_subset s(2) by blast
    ultimately show ?thesis by (cases u) (auto simp: Cons Let_def simp flip: rest_def)
  qed simp
qed


section \<open>A tile\<close>

lemma zrle_method_bounds:
  assumes "zrle_method b n 0 runs singles k = (useRle, usePalette)"
  shows "usePalette \<Longrightarrow> k < 128" "usePalette \<Longrightarrow> \<not> useRle \<Longrightarrow> k < 17"
    "useRle \<Longrightarrow> \<not> usePalette \<Longrightarrow> (b + 1) * (runs + singles) < n * b"
    "useRle \<Longrightarrow> usePalette \<Longrightarrow> b * k + 2 * runs + singles < n * b"
    "\<not> useRle \<Longrightarrow> usePalette \<Longrightarrow> b * k + n * bitsPerPackedPixel ! (k - 1) div 8 < n * b"
  using assms by (auto simp: zrle_method_def Let_def split: if_splits)

text \<open>What is found out about the pixels of a tile before it is encoded.\<close>

lemma scanned:
  fixes data :: "'a::len word list"
  assumes "data \<noteq> []" "LENGTH('a) \<le> 32"
  obtains ph runs singles where "scan_tile data zrlePaletteHelperInit 0 0 = Some (ph, runs, singles)" "0 < ph_size ph"
    "ph_size ph \<le> ZRLE_PALETTE_MAX_SIZE \<longrightarrow> palette_for ph data \<and> set (ph_colours ph) = ucast ` set data"
proof -
  from scan_tile_palette[OF palette.valid_empty(1), of data 0 0] obtain ph r s where
    s: "scan_tile data zrlePaletteHelperInit 0 0 = Some (ph, r, s)" "ph_valid ph"
    "ph_size ph \<le> ZRLE_PALETTE_MAX_SIZE \<longrightarrow> set (ph_colours ph) = set (ph_colours zrlePaletteHelperInit) \<union> ucast ` set data" by blast
  have e: "ph_size ph \<le> ZRLE_PALETTE_MAX_SIZE \<Longrightarrow> set (ph_colours ph) = ucast ` set data" using s(3) palette.valid_empty(2) by simp
  have "0 < ph_size ph"
  proof (rule ccontr)
    assume "\<not> 0 < ph_size ph"
    then show False using e palette.count_colours[OF s(2)] assms(1) by auto
  qed
  then show ?thesis using that s e assms(2) by (simp add: palette_for_def)
qed

lemma one_colour:
  fixes data :: "'a::len word list"
  assumes "palette_for ph data" "ph_size ph = 1" "data \<noteq> []"
  shows "data = replicate (length data) (entry ph 0)"
proof -
  have "number_of ph pix = 0 \<and> entry ph (number_of ph pix) = pix" if "pix \<in> set data" for pix
    using palette_for_number[OF assms(1) that] assms(2) by simp
  then show ?thesis by (intro nth_equalityI) (auto, metis nth_mem)
qed

lemma header_palette:
  fixes dummy :: "'a::len word"
  assumes "decodes_with TYPE('a) c v" "holds mem p (concat (map (\<lambda>i. cpixel_bytes c (entry ph i :: 'a word)) [0..<ph_size ph]))"
    "slack c mem (p + ph_size ph * cpixel_size c TYPE('a))"
  shows "\<exists>pal. read_pixels v mem p (ph_size ph) = Some (pal :: 'a word list) \<and> received c ph pal"
proof -
  have "concat (map (\<lambda>i. cpixel_bytes c (entry ph i :: 'a word)) [0..<ph_size ph]) =
      concat (map (cpixel_bytes c) (map (entry ph) [0..<ph_size ph] :: 'a word list))" by (simp add: comp_def)
  then show ?thesis
    using read_pixels_bytes[OF assms(1), of mem p "map (entry ph) [0..<ph_size ph]"] assms(2,3) by (simp add: received_def)
qed

lemma numbers_sent:
  fixes data :: "'a::len word list"
  assumes "palette_for ph data" "received c ph pal"
  shows "list_all2 (same_sent c) data (map (\<lambda>pix. pal ! number_of ph pix) data)"
  using received_at(2)[OF assms(2,1)] by (simp add: list_all2_conv_all_nth)

lemma packed_bits: "2 \<le> k \<Longrightarrow> k < 17 \<Longrightarrow>
    bitsPerPackedPixel ! (k - 1) = (if 4 < k then 4 else if 2 < k then 2 else 1) \<and> k \<le> 2 ^ (bitsPerPackedPixel ! (k - 1))"
proof -
  assume "2 \<le> k" "k < 17"
  then have "k \<in> {2, 3, 4, 5, 6, 7, 8, 9, 10, 11, 12, 13, 14, 15, 16}" by (simp add: numeral_eq_Suc) presburger
  then show ?thesis by (auto simp: bitsPerPackedPixel_def)
qed

lemma length_header:
  "decodes_with TYPE('a::len) c v \<Longrightarrow> length (concat (map (\<lambda>i. cpixel_bytes c (entry ph i :: 'a word)) [0..<n])) = n * cpixel_size c TYPE('a)"
  by (induction n) (simp_all add: length_cpixel_bytes)


text \<open>Wherever the bytes are in memory, they are decoded to the pixels.\<close>

definition tile_decodes :: "cpixel \<Rightarrow> zrle_variant \<Rightarrow> 'a::len word list \<Rightarrow> nat \<Rightarrow> nat \<Rightarrow> uint8_t list \<Rightarrow> bool" where
  "tile_decodes c v data w h bs \<longleftrightarrow>
     (\<forall>mem p e W H x y fb f again. holds mem p bs \<and> p + length bs \<le> e \<and> slack c mem (p + length bs) \<and>
        x + w \<le> W \<and> y + h \<le> H \<and> shows_pixels W H fb f \<longrightarrow>
        (\<exists>pix fb'. list_all2 (same_sent c) data pix \<and>
           decode_tile v W fb mem p e x y w h False again = Some (fb', Inr (p + length bs)) \<and>
           shows_pixels W H fb' (overlay x y w h (\<lambda>px py. pix ! (py * w + px)) f)))"

lemma tile_decodesI:
  assumes "\<And>mem p e W H x y fb f again. holds mem p bs \<Longrightarrow> p + length bs \<le> e \<Longrightarrow> slack c mem (p + length bs) \<Longrightarrow>
      x + w \<le> W \<Longrightarrow> y + h \<le> H \<Longrightarrow> shows_pixels W H fb f \<Longrightarrow>
      \<exists>pix fb'. list_all2 (same_sent c) data pix \<and>
        decode_tile v W fb mem p e x y w h False again = Some (fb', Inr (p + length bs)) \<and>
        shows_pixels W H fb' (overlay x y w h (\<lambda>px py. pix ! (py * w + px)) f)"
  shows "tile_decodes c v data w h bs"
  using assms unfolding tile_decodes_def by blast

lemma raw_writes_bytes:
  fixes data :: "'a::len word list"
  shows "all_written (raw_writes c data) = concat (map (cpixel_bytes c) data)"
proof -
  have "(cpixel_bytes Whole :: 'a word \<Rightarrow> uint8_t list) = pixel_bytes" by (intro ext) (simp add: cpixel_bytes_def)
  then show ?thesis by (cases "c = Whole") (simp_all add: raw_writes_def comp_def)
qed

lemma raw_tile_decodes:
  fixes data :: "'a::len word list"
  assumes fits: "decodes_with TYPE('a) c v" "length data = w * h" "0 < w" "0 < h"
  shows "tile_decodes c v data w h (0 # all_written (raw_writes c data))"
proof (rule tile_decodesI)
  fix mem p e W H x y and fb :: "'a word list" and f again
  let ?bs = "0 # all_written (raw_writes c data)"
  let ?s = "cpixel_size c TYPE('a)"
  assume h: "holds mem p ?bs" "p + length ?bs \<le> e" "slack c mem (p + length ?bs)"
    and geo: "x + w \<le> W" "y + h \<le> H" "shows_pixels W H fb f"
  have len: "length (all_written (raw_writes c data)) = w * h * ?s" using length_cpixels[OF fits(1)] fits(2) by (simp add: raw_writes_bytes)
  have m: "mem_at mem p = Some 0" "holds mem (p + 1) (concat (map (cpixel_bytes c) data))"
    using h(1) by (simp_all add: holds_Cons raw_writes_bytes)
  obtain qs where q: "read_pixels v mem (p + 1) (w * h) = Some qs" "list_all2 (same_sent c) data qs"
    using read_pixels_bytes[OF fits(1) m(2)] h(3) fits(2) len by auto
  have "length qs = w * h" using q(2) fits(2) by (auto dest: list_all2_lengthD)
  from CopyRectangle_shows[OF geo(3,1,2) this] q show "\<exists>pix fb'. list_all2 (same_sent c) data pix \<and>
      decode_tile v W fb mem p e x y w h False again = Some (fb', Inr (p + length ?bs)) \<and>
      shows_pixels W H fb' (overlay x y w h (\<lambda>px py. pix ! (py * w + px)) f)"
    using m(1) h(2) len real_bytes_size[OF fits(1)] by (rule_tac exI[of _ qs], rule_tac exI[of _ "CopyRectangle W fb qs x y w h"]) (auto simp: decode_tile_def shorter_def algebra_simps)
qed

lemma solid_tile_decodes:
  fixes data :: "'a::len word list"
  assumes fits: "decodes_with TYPE('a) c v" "length data = w * h" "0 < w" "0 < h"
    and data: "data = replicate (w * h) pix"
  shows "tile_decodes c v data w h (1 # cpixel_bytes c pix)"
proof (rule tile_decodesI)
  fix mem p e W H x y and fb :: "'a word list" and f again
  let ?bs = "1 # cpixel_bytes c pix"
  let ?s = "cpixel_size c TYPE('a)"
  assume h: "holds mem p ?bs" "p + length ?bs \<le> e" "slack c mem (p + length ?bs)"
    and geo: "x + w \<le> W" "y + h \<le> H" "shows_pixels W H fb f"
  have m: "mem_at mem p = Some 1" "holds mem (p + 1) (cpixel_bytes c pix)" using h(1) by (simp_all add: holds_Cons)
  have len: "length (cpixel_bytes c pix) = ?s" using length_cpixel_bytes[OF fits(1)] .
  obtain q where q: "UncompressCPixel v mem (p + 1) = Some q" "same_sent c pix q"
    using UncompressCPixel_bytes[OF fits(1) m(2)] h(3) len by auto
  have "overlay x y w h (\<lambda>px py. replicate (w * h) q ! (py * w + px)) f = overlay x y w h (\<lambda>_ _. q) f"
  proof (intro ext)
    fix X Y
    show "overlay x y w h (\<lambda>px py. replicate (w * h) q ! (py * w + px)) f X Y = overlay x y w h (\<lambda>_ _. q) f X Y"
    proof (cases "in_rect x y w h X Y")
      case True
      then have "X - x < w" "Y - y < h" by (auto simp: in_rect_def)
      then show ?thesis using True index_less[of "X - x" w "Y - y" h] by (simp add: overlay_def)
    qed (simp add: overlay_def)
  qed
  moreover have "list_all2 (same_sent c) data (replicate (w * h) q)" using data q(2) by (simp add: list_all2_conv_all_nth)
  ultimately show "\<exists>pix fb'. list_all2 (same_sent c) data pix \<and>
      decode_tile v W fb mem p e x y w h False again = Some (fb', Inr (p + length ?bs)) \<and>
      shows_pixels W H fb' (overlay x y w h (\<lambda>px py. pix ! (py * w + px)) f)"
    using shows_fill[OF geo(3,1), of y h q] q(1) m(1) h(2) len real_bytes_size[OF fits(1)]
    by (rule_tac exI[of _ "replicate (w * h) q"], rule_tac exI[of _ "FillRectangle W fb x y w h q"]) (auto simp: decode_tile_def shorter_def)
qed


abbreviation palette_bytes :: "cpixel \<Rightarrow> palette_helper \<Rightarrow> 'a::len word itself \<Rightarrow> uint8_t list" where
  "palette_bytes c ph T \<equiv> concat (map (\<lambda>i. cpixel_bytes c (entry ph i :: 'a word)) [0..<ph_size ph])"

lemma byte_of_nat: "k < 256 \<Longrightarrow> unat (word_of_nat k :: uint8_t) = k"
  by (simp add: unat_of_nat take_bit_nat_eq_self_iff)

lemma decode_packed:
  assumes "mem_at mem p = Some ty" "unat ty = k" "2 \<le> k" "k < 17" "b = (if 4 < k then 4 else if 2 < k then 2 else 1)"
    and "1 + k * realbpp v div 8 + (w + 8 div b - 1) div (8 div b) * h \<le> e - p"
  shows "decode_tile v W fb mem p e x y w h False again =
    (case read_pixels v mem (p + 1) k of
       None \<Rightarrow> None
     | Some pal \<Rightarrow> map_option (\<lambda>(ps, r). (CopyRectangle W fb ps x y w h, Inr r))
         (unpack_rows mem b pal w h (p + 1 + k * real_bytes v)))"
proof -
  have b: "(if 4 < k then if 16 < k then 8 else 4 else if 2 < k then 2 else 1) = b" using assms(4,5) by simp
  have k: "k \<noteq> 0" "k \<noteq> 1" "k \<le> 127" "\<not> 16 < k" using assms(3,4) by simp_all
  have r: "\<not> shorter p e 1" "\<not> shorter p e (1 + k * realbpp v div 8 + (w + 8 div b - 1) div (8 div b) * h)" using assms(6) unfolding shorter_def by linarith+
  show ?thesis
    unfolding decode_tile_def Let_def assms(1) option.case assms(2) b using k r by (simp only: if_False if_True simp_thms)
qed

lemma decode_palette_rle:
  assumes "mem_at mem p = Some ty" "unat ty = 128 + k" "2 \<le> k" "2 + k * realbpp v div 8 \<le> e - p"
  shows "decode_tile v W fb mem p e x y w h False again =
    (case read_pixels v mem (p + 1) k of
       None \<Rightarrow> None
     | Some pal \<Rightarrow> palette_runs pal W x y w h mem e (p + 1 + k * real_bytes v) fb 0 0)"
proof -
  have k: "128 + k \<noteq> 0" "128 + k \<noteq> 1" "\<not> 128 + k \<le> 127" "128 + k \<noteq> 128" "128 + k \<noteq> 129" "128 + k - 128 = k" using assms(3) by simp_all
  have r: "\<not> shorter p e 1" "\<not> shorter p e (2 + k * realbpp v div 8)" using assms(4) unfolding shorter_def by linarith+
  show ?thesis
    unfolding decode_tile_def Let_def assms(1) option.case assms(2) using k r by (simp only: if_False if_True simp_thms)
qed

lemma packed_tile_decodes:
  fixes data :: "'a::len word list"
  assumes fits: "decodes_with TYPE('a) c v" "length data = w * h" "0 < w" "0 < h"
    and pal: "palette_for ph data" "2 \<le> ph_size ph" "ph_size ph < 17"
    and ws: "pack_rows (bitsPerPackedPixel ! (ph_size ph - 1)) ph w h data = Some ws"
  shows "tile_decodes c v data w h (word_of_nat (ph_size ph) # palette_bytes c ph TYPE('a word) @ all_written ws)"
proof (rule tile_decodesI)
  fix mem p e W H x y and fb :: "'a word list" and f again
  let ?bs = "word_of_nat (ph_size ph) # palette_bytes c ph TYPE('a word) @ all_written ws"
  let ?s = "cpixel_size c TYPE('a)"
  assume h: "holds mem p ?bs" "p + length ?bs \<le> e" "slack c mem (p + length ?bs)"
    and geo: "x + w \<le> W" "y + h \<le> H" "shows_pixels W H fb f"
  define k where "k = ph_size ph"
  define b where "b = bitsPerPackedPixel ! (k - 1)"
  have b: "b = (if 4 < k then 4 else if 2 < k then 2 else 1)" "k \<le> 2 ^ b" "b \<in> {1, 2, 4}"
    using packed_bits[of k] pal by (simp_all add: b_def k_def split: if_splits)
  have lp: "length (palette_bytes c ph TYPE('a word)) = k * ?s" using length_header[OF fits(1)] by (simp add: k_def)
  have m: "mem_at mem p = Some (word_of_nat k)" "holds mem (p + 1) (palette_bytes c ph TYPE('a word))"
    "holds mem (p + 1 + k * ?s) (all_written ws)"
    using h(1) lp by (simp_all add: holds_Cons holds_append k_def)
  have "slack c mem (p + 1 + k * ?s)" using slack_mono[OF h(3)] lp by simp
  then obtain pl where pl: "read_pixels v mem (p + 1) k = Some (pl :: 'a word list)" "received c ph pl"
    using header_palette[OF fits(1) m(2)] by (auto simp: k_def)
  from pack_rows_spec[OF b(3) pal(1) fits(2) order_refl, where c = c and pal = pl and p = "p + 1 + k * ?s" and mem = mem]
  have rows: "length (all_written ws) = h * ((w * b + 7) div 8)"
    "unpack_rows mem b pl w h (p + 1 + k * ?s) = Some (map (\<lambda>pix. pl ! number_of ph pix) data, p + 1 + k * ?s + length (all_written ws))"
    using ws pl(2) b(2) m(3) by (simp_all add: b_def k_def)
  have div: "(w + 8 div b - 1) div (8 div b) = (w * b + 7) div 8" using b(3) by auto
  have "length (map (\<lambda>pix. pl ! number_of ph pix) data) = w * h" using fits(2) by simp
  note drawn = CopyRectangle_shows[OF geo(3,1,2) this]
  have ty: "unat (word_of_nat k :: uint8_t) = k" using pal by (simp add: k_def byte_of_nat)
  have rb: "real_bytes v = ?s" "realbpp v = 8 * ?s" using real_bytes_size[OF fits(1)] by simp_all
  have room: "1 + k * realbpp v div 8 + (w + 8 div b - 1) div (8 div b) * h \<le> e - p"
    using h(2) lp rows(1) real_bytes_size[OF fits(1)] unfolding div by (simp add: k_def algebra_simps)
  have "decode_tile v W fb mem p e x y w h False again =
      Some (CopyRectangle W fb (map (\<lambda>pix. pl ! number_of ph pix) data) x y w h, Inr (p + length ?bs))"
    using pal(2,3) by (subst decode_packed[OF m(1) ty _ _ b(1) room]) (simp_all add: pl(1)[simplified] rows(2)[simplified] lp[folded k_def] rb flip: k_def)
  then show "\<exists>pix fb'. list_all2 (same_sent c) data pix \<and>
      decode_tile v W fb mem p e x y w h False again = Some (fb', Inr (p + length ?bs)) \<and>
      shows_pixels W H fb' (overlay x y w h (\<lambda>px py. pix ! (py * w + px)) f)"
    using numbers_sent[OF pal(1) pl(2)] drawn by blast
qed

lemma unat_128_or:
  assumes "k < 128"
  shows "unat (128 OR word_of_nat k :: uint8_t) = 128 + k"
proof -
  have "(128 :: uint8_t) AND word_of_nat k = 0"
  proof (rule bit_word_eqI)
    fix n assume "n < LENGTH(8)"
    have "(128 :: uint8_t) = 2 ^ 7" by simp
    then have "bit (128 :: uint8_t) n \<longleftrightarrow> n = 7" by (simp only: bit_exp_iff) auto
    then show "bit ((128 :: uint8_t) AND word_of_nat k) n = bit (0 :: uint8_t) n"
      using number_bits(2)[OF assms] by (auto simp: bit_and_iff)
  qed
  then have "(128 :: uint8_t) OR word_of_nat k = 128 + word_of_nat k" using word_plus_and_or[of "128 :: uint8_t" "word_of_nat k"] by (metis add_0)
  then show ?thesis using assms by (simp add: unat_word_ariths unat_of_nat take_bit_nat_eq_self_iff)
qed

lemma rle_writes_nonempty:
  assumes "rle_writes c u ph data = Some ws" "data \<noteq> []"
  shows "all_written ws \<noteq> []"
proof -
  obtain pix ps where d: "data = pix # ps" using assms(2) by (cases data) auto
  have n: "all_written (run_length_writes n) \<noteq> []" for n by (subst run_length_writes.simps) simp
  obtain m ws1 ws2 where r: "ws = ws1 @ ws2" "\<not> u \<Longrightarrow> ws1 = Opaque (cpixel_bytes c pix) # run_length_writes m"
    "u \<Longrightarrow> \<exists>idx. ws1 = (if Suc m \<le> 2 then replicate (Suc m) (Opaque [idx]) else Opaque [idx OR 128] # run_length_writes m)"
    using rle_writes_first[OF assms(1)[unfolded d]] by metis
  have "all_written ws1 \<noteq> []"
  proof (cases u)
    case True
    then obtain idx where "ws1 = (if Suc m \<le> 2 then replicate (Suc m) (Opaque [idx]) else Opaque [idx OR 128] # run_length_writes m)"
      using r(3) by blast
    then show ?thesis by (auto split: if_splits)
  qed (use r(2) n[of m] in simp)
  then show ?thesis by (simp add: r(1))
qed

lemma plain_rle_decodes:
  fixes data :: "'a::len word list"
  assumes fits: "decodes_with TYPE('a) c v" "length data = w * h" "0 < w" "0 < h"
    and ws: "rle_writes c False ph data = Some ws"
  shows "tile_decodes c v data w h (128 # all_written ws)"
proof (rule tile_decodesI)
  fix mem p e W H x y and fb :: "'a word list" and f again
  let ?bs = "128 # all_written ws"
  let ?s = "cpixel_size c TYPE('a)"
  assume h: "holds mem p ?bs" "p + length ?bs \<le> e" "slack c mem (p + length ?bs)"
    and geo: "x + w \<le> W" "y + h \<le> H" "shows_pixels W H fb f"
  have m: "mem_at mem p = Some 128" "holds mem (p + 1) (all_written ws)" "p + 1 + length (all_written ws) \<le> e"
    using h by (simp_all add: holds_Cons)
  from plain_runs_draw[OF fits(1) geo(1,2) fits(3) ws m(2,3), of f "[]" fb 0 0] obtain fb' qs where
    r: "plain_runs v W x y w h mem e (p + 1) fb 0 0 = Some (fb', Inr (p + 1 + length (all_written ws)))"
    "list_all2 (same_sent c) data qs" "drawn W H x y w f qs fb'"
    using geo(3) fits(2,3) by (auto simp: drawn_Nil)
  have "length qs = w * h" using r(2) fits(2) by (auto dest: list_all2_lengthD)
  from drawn_all[OF r(3) this] show "\<exists>pix fb'. list_all2 (same_sent c) data pix \<and>
      decode_tile v W fb mem p e x y w h False again = Some (fb', Inr (p + length ?bs)) \<and>
      shows_pixels W H fb' (overlay x y w h (\<lambda>px py. pix ! (py * w + px)) f)"
    using r(1,2) m(1) h(2) by (rule_tac exI[of _ qs], rule_tac exI[of _ fb']) (auto simp: decode_tile_def shorter_def)
qed

lemma palette_rle_decodes:
  fixes data :: "'a::len word list"
  assumes fits: "decodes_with TYPE('a) c v" "length data = w * h" "0 < w" "0 < h"
    and pal: "palette_for ph data" "2 \<le> ph_size ph" "ph_size ph < 128"
    and ws: "rle_writes c True ph data = Some ws"
  shows "tile_decodes c v data w h ((128 OR word_of_nat (ph_size ph)) # palette_bytes c ph TYPE('a word) @ all_written ws)"
proof (rule tile_decodesI)
  fix mem p e W H x y and fb :: "'a word list" and f again
  let ?bs = "(128 OR word_of_nat (ph_size ph)) # palette_bytes c ph TYPE('a word) @ all_written ws"
  let ?s = "cpixel_size c TYPE('a)"
  assume h: "holds mem p ?bs" "p + length ?bs \<le> e" "slack c mem (p + length ?bs)"
    and geo: "x + w \<le> W" "y + h \<le> H" "shows_pixels W H fb f"
  define k where "k = ph_size ph"
  have lp: "length (palette_bytes c ph TYPE('a word)) = k * ?s" using length_header[OF fits(1)] by (simp add: k_def)
  have m: "mem_at mem p = Some (128 OR word_of_nat k)" "holds mem (p + 1) (palette_bytes c ph TYPE('a word))"
    "holds mem (p + 1 + k * ?s) (all_written ws)" "p + 1 + k * ?s + length (all_written ws) \<le> e"
    using h(1,2) lp by (simp_all add: holds_Cons holds_append k_def)
  have "slack c mem (p + 1 + k * ?s)" using slack_mono[OF h(3)] lp by simp
  then obtain pl where pl: "read_pixels v mem (p + 1) k = Some (pl :: 'a word list)" "received c ph pl"
    using header_palette[OF fits(1) m(2)] by (auto simp: k_def)
  from palette_runs_draw[OF pal(1) pl(2) geo(1,2) fits(3) ws order_refl m(3,4), of f "[]" fb 0 0] obtain fb' where
    r: "palette_runs pl W x y w h mem e (p + 1 + k * ?s) fb 0 0 = Some (fb', Inr (p + 1 + k * ?s + length (all_written ws)))"
    "drawn W H x y w f (map (\<lambda>pix. pl ! number_of ph pix) data) fb'"
    using geo(3) fits(2,3) by (auto simp: drawn_Nil)
  have "length (map (\<lambda>pix. pl ! number_of ph pix) data) = w * h" using fits(2) by simp
  note drawn = drawn_all[OF r(2) this]
  have ty: "unat (128 OR word_of_nat k :: uint8_t) = 128 + k" using pal(3) by (simp add: k_def unat_128_or)
  have "data \<noteq> []" using fits(2-4) by auto
  then have "0 < length (all_written ws)" using rle_writes_nonempty[OF ws] by simp
  moreover have rb: "real_bytes v = ?s" "realbpp v = 8 * ?s" using real_bytes_size[OF fits(1)] by simp_all
  then have "k * realbpp v div 8 = k * ?s" by simp
  ultimately have room: "2 + k * realbpp v div 8 \<le> e - p" using m(4) by linarith
  have "decode_tile v W fb mem p e x y w h False again = Some (fb', Inr (p + length ?bs))"
    using pal(2) by (subst decode_palette_rle[OF m(1) ty _ room]) (simp_all add: pl(1)[simplified] r(1)[simplified] lp[folded k_def] rb flip: k_def)
  then show "\<exists>pix fb'. list_all2 (same_sent c) data pix \<and>
      decode_tile v W fb mem p e x y w h False again = Some (fb', Inr (p + length ?bs)) \<and>
      shows_pixels W H fb' (overlay x y w h (\<lambda>px py. pix ! (py * w + px)) f)"
    using numbers_sent[OF pal(1) pl(2)] drawn by blast
qed


lemma ZRLE_ENCODE_TILE_eq:
  fixes data :: "'a::len word list"
  assumes "scan_tile data zrlePaletteHelperInit 0 0 = Some (ph, runs, singles)" "ph_size ph \<noteq> 1"
    and "zrle_method (cpixel_size c TYPE('a)) (w * h) 0 runs singles (ph_size ph) = (useRle, usePalette)"
  shows "ZRLE_ENCODE_TILE analyze c data w h 0 =
    (let psize = (if usePalette then ph_size ph else 0)
     in map_option ((@) (Opaque [(if useRle then 128 else 0) OR word_of_nat psize] #
            map (\<lambda>i. Opaque (cpixel_bytes c (entry ph i :: 'a word))) [0..<psize]))
          (if useRle then rle_writes c usePalette ph data
           else if usePalette
           then (if 17 \<le> psize then None else pack_rows (bitsPerPackedPixel ! (psize - 1)) ph w h data)
           else Some (raw_writes c data)))"
  using assms by (simp add: ZRLE_ENCODE_TILE_def encode_tile_def entry_def)

text \<open>The bytes of a tile: they exist, decode to its pixels, and take at most twice the room of the pixels.\<close>

lemma ZRLE_tile:
  fixes data :: "'a::len word list"
  assumes fits: "decodes_with TYPE('a) c v" "length data = w * h" "0 < w" "0 < h" and len: "LENGTH('a) \<le> 32"
  shows "\<exists>ws. ZRLE_ENCODE_TILE analyze c data w h 0 = Some ws \<and> tile_decodes c v data w h (all_written ws)"
proof -
  have "data \<noteq> []" using fits(2-4) by auto
  then obtain ph runs singles where
    s: "scan_tile data zrlePaletteHelperInit 0 0 = Some (ph, runs, singles)" "0 < ph_size ph"
    "ph_size ph \<le> ZRLE_PALETTE_MAX_SIZE \<longrightarrow> palette_for ph data \<and> set (ph_colours ph) = ucast ` set data"
    using scanned[OF _ len] by metis
  show ?thesis
  proof (cases "ph_size ph = 1")
    case True
    then have "palette_for ph data" using s(3) by (simp add: ZRLE_PALETTE_MAX_SIZE_def)
    from one_colour[OF this True \<open>data \<noteq> []\<close>] solid_tile_decodes[OF fits, of "entry ph 0"] show ?thesis
      using s(1) True fits(2) by (simp add: ZRLE_ENCODE_TILE_def encode_tile_def entry_def)
  next
    case False
    obtain useRle usePalette where m: "zrle_method (cpixel_size c TYPE('a)) (w * h) 0 runs singles (ph_size ph) = (useRle, usePalette)" by fastforce
    note mb = zrle_method_bounds[OF m]
    have pal: "palette_for ph data" "2 \<le> ph_size ph" "ph_size ph < 128" if usePalette
      using s mb(1) that False by (auto simp: ZRLE_PALETTE_MAX_SIZE_def)
    note enc = ZRLE_ENCODE_TILE_eq[OF s(1) False m, of analyze]
    consider (raw) "\<not> useRle" "\<not> usePalette" | (plain) useRle "\<not> usePalette" | (packed) "\<not> useRle" usePalette | (runs) useRle usePalette by blast
    then show ?thesis
    proof cases
      case raw
      then show ?thesis using enc raw_tile_decodes[OF fits] by simp
    next
      case plain
      obtain ws where "rle_writes c False ph data = Some ws" using rle_writes_Some[of False ph data c] by auto
      then show ?thesis using enc plain_rle_decodes[OF fits] plain by simp
    next
      case packed
      have b: "bitsPerPackedPixel ! (ph_size ph - 1) \<in> {1, 2, 4}"
        using packed_bits[OF pal(2)[OF packed(2)] mb(2)[OF packed(2,1)]] by (auto split: if_splits)
      obtain ws where ws: "pack_rows (bitsPerPackedPixel ! (ph_size ph - 1)) ph w h data = Some ws"
        using pack_rows_spec[OF b pal(1)[OF packed(2)] fits(2)] by blast
      from packed_tile_decodes[OF fits pal(1,2)[OF packed(2)] mb(2)[OF packed(2,1)] ws] show ?thesis
        using enc ws packed mb(2)[OF packed(2,1)] by (simp add: comp_def Let_def)
    next
      case runs
      obtain ws where ws: "rle_writes c True ph data = Some ws" using rle_writes_Some[of True ph data c] pal(1)[OF runs(2)] by auto
      from palette_rle_decodes[OF fits pal[OF runs(2)] ws] show ?thesis using enc ws runs by (simp add: comp_def Let_def)
    qed
  qed
qed


section \<open>The length of a tile\<close>

lemma length_run_length: "length (all_written (run_length_writes n)) \<le> n + 1"
proof (induction n rule: run_length_writes.induct)
  case (1 n)
  then show ?case by (subst run_length_writes.simps) auto
qed

lemma length_rle_writes:
  fixes ds :: "'a::len word list"
  assumes "decodes_with TYPE('a) c v"
  shows "scan_tile ds ph r s = Some (ph', r', s') \<Longrightarrow> rle_writes c u ph0 ds = Some ws \<Longrightarrow> r \<le> r' \<and> s \<le> s' \<and>
    length (all_written ws) \<le> (if u then 2 * (r' - r) + (s' - s) else (cpixel_size c TYPE('a) + 1) * (r' - r + (s' - s))) + length ds"
proof (induction ds ph r s arbitrary: ws rule: scan_tile.induct)
  case (2 pix ps ph r s)
  let ?b = "cpixel_size c TYPE('a)"
  obtain rest n ws1 ws2 where ws: "ws = ws1 @ ws2" "rle_writes c u ph0 rest = Some ws2"
    "\<not> u \<Longrightarrow> ws1 = Opaque (cpixel_bytes c pix) # run_length_writes n"
    "u \<Longrightarrow> \<exists>idx. ws1 = (if Suc n \<le> 2 then replicate (Suc n) (Opaque [idx]) else Opaque [idx OR 128] # run_length_writes n)"
    and rest_def: "rest = dropWhile (\<lambda>q. q = pix) ps" and n_def: "n = length ps - length rest" and le: "length rest \<le> length ps"
    using rle_writes_first[OF "2.prems"(2)] by metis
  obtain ph1 where ph1: "zrlePaletteHelperInsert ph (ucast pix) = Some ph1" using "2.prems"(1) by (auto simp: Let_def split: option.splits)
  have l1: "length (all_written ws1) \<le> (if u then (if n = 0 then 1 else 2) else ?b + 1) + n"
  proof (cases u)
    case True
    then obtain idx where "ws1 = (if Suc n \<le> 2 then replicate (Suc n) (Opaque [idx]) else Opaque [idx OR 128] # run_length_writes n)"
      using ws(4) by blast
    then show ?thesis using length_run_length[of n] True by (cases "n = 0"; cases "n = 1") auto
  next
    case False
    then show ?thesis using ws(3) length_run_length[of n] length_cpixel_bytes[OF assms, of pix] by simp
  qed
  show ?case
  proof (cases "length rest = length ps")
    case True
    then have "scan_tile rest ph1 r (s + 1) = Some (ph', r', s')" using "2.prems"(1) ph1 by (simp add: Let_def flip: rest_def)
    note ih = "2.IH"(1)[OF rest_def ph1 True this ws(2)]
    then obtain d1 d2 where d: "r' = r + d1" "s' = s + 1 + d2" by (meson le_Suc_ex)
    have "n = 0" using True by (simp add: n_def)
    then show ?thesis using ih l1 True d by (cases u) (simp_all add: ws(1) algebra_simps)
  next
    case False
    then have "scan_tile rest ph1 (r + 1) s = Some (ph', r', s')" using "2.prems"(1) ph1 by (simp add: Let_def flip: rest_def)
    note ih = "2.IH"(2)[OF rest_def ph1 False this ws(2)]
    then obtain d1 d2 where d: "r' = r + 1 + d1" "s' = s + d2" by (meson le_Suc_ex)
    have "length (pix # ps) = Suc n + length rest" "n \<noteq> 0" using False le by (simp_all add: n_def)
    then show ?thesis using ih l1 d by (cases u) (simp_all add: ws(1) algebra_simps)
  qed
qed simp


lemma packed_rows_length:
  assumes "b \<in> {1, 2, 4 :: nat}" "0 < h"
  shows "h * ((w * b + 7) div 8) \<le> w * h * b div 8 + h"
proof -
  have "8 * ((w * b + 7) div 8) \<le> w * b + 7" by simp
  then have "8 * (h * ((w * b + 7) div 8)) \<le> h * (w * b + 7)" by (metis mult.left_commute mult_le_mono2)
  moreover have "w * h * b < 8 * (w * h * b div 8) + 8" by presburger
  moreover have "h * (w * b + 7) = w * h * b + 7 * h" by (simp add: algebra_simps)
  ultimately have "8 * (h * ((w * b + 7) div 8)) < 8 * (w * h * b div 8) + 8 + 7 * h" by linarith
  also have "\<dots> \<le> 8 * (w * h * b div 8 + h + 1)" using assms(2) by simp
  finally have "h * ((w * b + 7) div 8) < w * h * b div 8 + h + 1" by simp
  then show ?thesis by linarith
qed

lemma ZRLE_tile_length:
  fixes data :: "'a::len word list"
  assumes fits: "decodes_with TYPE('a) c v" "length data = w * h" "0 < w" "0 < h" and len: "LENGTH('a) \<le> 32"
    and ws: "ZRLE_ENCODE_TILE analyze c data w h 0 = Some ws"
  shows "length (all_written ws) + (if c = Whole then 0 else 1) \<le> 2 * (w * h * cpixel_size c TYPE('a))"
proof -
  let ?b = "cpixel_size c TYPE('a)"
  define N where "N = w * h"
  have N: "1 \<le> N" "h \<le> N" using fits(3,4) by (simp_all add: N_def Suc_le_eq)
  have b: "1 \<le> ?b" "c \<noteq> Whole \<longrightarrow> ?b = 3" using pixel_size_positive[OF fits(1)] by (auto simp: cpixel_size_def split: cpixel.splits)
  have Nb: "N \<le> N * ?b" using b(1) by simp
  have enough: "n + (if c = Whole then 0 else 1) \<le> 2 * (N * ?b)" if "n \<le> N * ?b + N" for n
  proof -
    have "n \<le> 2 * (N * ?b)" using that Nb by linarith
    moreover have "n + 1 \<le> 2 * (N * ?b)" if "c \<noteq> Whole" using that \<open>n \<le> N * ?b + N\<close> N(1) b(2) by simp
    ultimately show ?thesis by (metis Nat.add_0_right)
  qed
  have "data \<noteq> []" using fits(2-4) by auto
  then obtain ph runs singles where
    s: "scan_tile data zrlePaletteHelperInit 0 0 = Some (ph, runs, singles)" "0 < ph_size ph"
    "ph_size ph \<le> ZRLE_PALETTE_MAX_SIZE \<longrightarrow> palette_for ph data \<and> set (ph_colours ph) = ucast ` set data"
    using scanned[OF _ len] by metis
  have "length (all_written ws) \<le> N * ?b + N"
  proof (cases "ph_size ph = 1")
    case True
    then have "length (all_written ws) = 1 + ?b"
      using ws s(1) length_cpixel_bytes[OF fits(1)] by (auto simp: ZRLE_ENCODE_TILE_def encode_tile_def)
    moreover have "?b \<le> N * ?b" using N(1) by simp
    ultimately show ?thesis using N(1) by linarith
  next
    case False
    obtain useRle usePalette where m: "zrle_method ?b (w * h) 0 runs singles (ph_size ph) = (useRle, usePalette)" by fastforce
    note mb = zrle_method_bounds[OF m]
    obtain body where body: "ws = Opaque [(if useRle then 128 else 0) OR word_of_nat (if usePalette then ph_size ph else 0)] #
          map (\<lambda>i. Opaque (cpixel_bytes c (entry ph i :: 'a word))) [0..<if usePalette then ph_size ph else 0] @ body"
      "(if useRle then rle_writes c usePalette ph data
        else if usePalette
        then (if 17 \<le> ph_size ph then None else pack_rows (bitsPerPackedPixel ! (ph_size ph - 1)) ph w h data)
        else Some (raw_writes c data)) = Some body"
      using ws unfolding ZRLE_ENCODE_TILE_eq[OF s(1) False m, of analyze] Let_def by (auto split: if_splits)
    have head: "length (all_written ws) = 1 + (if usePalette then ph_size ph else 0) * ?b + length (all_written body)"
      using length_header[OF fits(1), of ph "if usePalette then ph_size ph else 0"] by (simp add: body(1) comp_def)
    have pal: "palette_for ph data" "2 \<le> ph_size ph" if usePalette
      using s mb(1) that False by (auto simp: ZRLE_PALETTE_MAX_SIZE_def)
    consider (raw) "\<not> useRle" "\<not> usePalette" | (rle) useRle | (packed) "\<not> useRle" usePalette by blast
    then show ?thesis
    proof cases
      case raw
      then have "length (all_written body) = N * ?b"
        using body(2) length_cpixels[OF fits(1), of data] fits(2) by (auto simp: raw_writes_bytes N_def)
      then show ?thesis using head raw N(1) by simp
    next
      case rle
      then have "rle_writes c usePalette ph data = Some body" using body(2) by simp
      from length_rle_writes[OF fits(1) s(1) this]
      have "length (all_written body) \<le> (if usePalette then 2 * runs + singles else (?b + 1) * (runs + singles)) + N"
        using fits(2) by (cases usePalette) (simp_all add: N_def)
      then show ?thesis using head mb(3)[OF rle] mb(4)[OF rle] by (cases usePalette) (simp_all add: N_def mult.commute)
    next
      case packed
      define bits where "bits = bitsPerPackedPixel ! (ph_size ph - 1)"
      have bits: "bits \<in> {1, 2, 4}"
        using packed_bits[OF pal(2)[OF packed(2)] mb(2)[OF packed(2,1)]] by (auto simp: bits_def split: if_splits)
      have "pack_rows bits ph w h data = Some body" using body(2) packed mb(2)[OF packed(2,1)] by (simp add: bits_def)
      then have "length (all_written body) = h * ((w * bits + 7) div 8)"
        using pack_rows_spec[OF bits pal(1)[OF packed(2)] fits(2) order_refl] by fastforce
      then have "length (all_written body) \<le> N * bits div 8 + h" using packed_rows_length[OF bits fits(4), of w] by (simp add: N_def)
      moreover have "?b * ph_size ph + N * bits div 8 < N * ?b" using mb(5)[OF packed] by (simp add: N_def bits_def)
      ultimately show ?thesis using head packed N(2) by (simp add: mult.commute)
    qed
  qed
  from enough[OF this] show ?thesis by (simp add: N_def)
qed

end
