(* ===== verification/DeflateCorrect.thy ===== *)
theory DeflateCorrect
  imports Deflate ZrleTile "HOL-Library.Sublist"
begin

text \<open>
  What is assumed of zlib, and what follows for the loops around it: the out stream of ZRLE loses nothing
  and ends, and the client gets back what the server compressed. Compressor and decompressor keep
  their state from rectangle to rectangle; \<open>in_step\<close> says that both are at the same point.
\<close>

section \<open>What zlib promises\<close>

text \<open>
  The history of a stream: what a compressor has been given (\<open>accepted\<close>) and has written (\<open>produced\<close>), what a
  decompressor has read (\<open>eaten\<close>), and what compressed bytes stand for (\<open>plain\<close>). \<open>filled\<close>: the output was
  filled, so the next call will not complain. \<open>todo\<close> bounds what is still to be written.
\<close>

record ('d, 'i) history =
  accepted :: "'d \<Rightarrow> uint8_t list"
  produced :: "'d \<Rightarrow> uint8_t list"
  filled :: "'d \<Rightarrow> bool"
  todo :: "'d \<Rightarrow> bool \<Rightarrow> uint8_t list \<Rightarrow> nat"
  eaten :: "'i \<Rightarrow> uint8_t list"
  plain :: "uint8_t list \<Rightarrow> uint8_t list"

text \<open>
  \<open>deflate\<close> stops when its input is used up or its output is full; with a flush, and room left, the output
  is complete. There is an end to what it writes, but with six bytes of room or fewer it may write one
  flush marker after the other, as \<open>zlib.h\<close> warns, so nothing is assumed of its end then.
\<close>

definition deflates :: "('d, 'i) zlib \<Rightarrow> ('d, 'i) history \<Rightarrow> bool" where
  "deflates z g \<longleftrightarrow> accepted g (deflateInit z) = [] \<and> produced g (deflateInit z) = [] \<and>
     (\<forall>d flush inp room ret n out d'. deflate z d flush inp room = (ret, n, out, d') \<and> 0 < room \<longrightarrow>
        n \<le> length inp \<and> length out \<le> room \<and> accepted g d' = accepted g d @ take n inp \<and> produced g d' = produced g d @ out \<and>
        (length out < room \<longrightarrow> n = length inp \<and> (flush \<longrightarrow> plain g (produced g d') = accepted g d')) \<and>
        (length out = room \<longrightarrow> filled g d') \<and> (inp \<noteq> [] \<or> filled g d \<longrightarrow> ret = Z_OK) \<and>
        ((flush \<longrightarrow> 6 < room) \<longrightarrow> todo g d' flush (drop n inp) + length out \<le> todo g d flush inp))"

text \<open>
  \<open>inflate\<close> reads all of its input, when it comes from a compressor and there is room for everything it
  stands for.
\<close>

definition inflates :: "('d, 'i) zlib \<Rightarrow> ('d, 'i) history \<Rightarrow> bool" where
  "inflates z g \<longleftrightarrow> eaten g (inflateInit z) = [] \<and> plain g [] = [] \<and> (\<forall>xs ys. prefix (plain g xs) (plain g (xs @ ys))) \<and>
     (\<forall>i inp room d rest. inp \<noteq> [] \<and> produced g d = eaten g i @ inp @ rest \<and>
        length (plain g (eaten g i @ inp)) \<le> length (plain g (eaten g i)) + room \<longrightarrow>
        (\<exists>i'. inflate z i inp room = (Z_OK, length inp, drop (length (plain g (eaten g i))) (plain g (eaten g i @ inp)), i') \<and>
           eaten g i' = eaten g i @ inp))"

text \<open>The two ends of a connection.\<close>

definition in_step :: "('d, 'i) history \<Rightarrow> 'd \<Rightarrow> 'i \<Rightarrow> bool" where
  "in_step g d i \<longleftrightarrow> produced g d = eaten g i \<and> plain g (eaten g i) = accepted g d"

lemma in_step_start: "deflates z g \<Longrightarrow> inflates z g \<Longrightarrow> in_step g (deflateInit z) (inflateInit z)"
  by (simp add: in_step_def deflates_def inflates_def)

section \<open>The out stream\<close>

definition os_ok :: "'d zrleOutStream \<Rightarrow> bool" where
  "os_ok os \<longleftrightarrow> 6 < zs_out_size os \<and> length (zs_out os) \<le> zs_out_size os"

text \<open>What an out stream has been given, as far as it was compressed and written.\<close>

definition os_step :: "('d, 'i) history \<Rightarrow> 'd zrleOutStream \<Rightarrow> 'd zrleOutStream \<Rightarrow> uint8_t list \<Rightarrow> bool" where
  "os_step g os os' taken \<longleftrightarrow> os_ok os' \<and> accepted g (zs_state os') = accepted g (zs_state os) @ taken \<and>
     (\<exists>new. produced g (zs_state os') = produced g (zs_state os) @ new \<and> zs_out os' = zs_out os @ new)"

lemma os_step_refl: "os_ok os \<Longrightarrow> os_step g os os []"
  by (simp add: os_step_def)

lemma os_step_trans: "os_step g a b xs \<Longrightarrow> os_step g b c ys \<Longrightarrow> os_step g a c (xs @ ys)"
  by (auto simp: os_step_def)

lemma os_step_in: "os_step g (a\<lparr>zs_in := xs\<rparr>) b bs \<longleftrightarrow> os_step g a b bs" "os_step g a (b\<lparr>zs_in := xs\<rparr>) bs \<longleftrightarrow> os_step g a b bs"
  by (simp_all add: os_step_def os_ok_def)

text \<open>The room one call of \<open>deflate\<close> gets. A buffer that is full is doubled, so there is plenty then.\<close>

definition out_room :: "'d zrleOutStream \<Rightarrow> nat" where
  "out_room os = zs_out_size (zrleBufferGrow os) - length (zs_out os)"

lemma out_room_positive: "os_ok os \<Longrightarrow> 0 < out_room os"
  by (auto simp: out_room_def zrleBufferGrow_def os_ok_def)

lemma out_room_full: "os_ok os \<Longrightarrow> length (zs_out os) = zs_out_size os \<Longrightarrow> 6 < out_room os"
  by (simp add: out_room_def zrleBufferGrow_def os_ok_def)

lemma deflate_step:
  assumes "deflates z g" "os_ok os" "inp \<noteq> [] \<or> filled g (zs_state os)"
  obtains n and out :: "uint8_t list" and os2 where
    "deflate_loop z flush inp os = (if length out = out_room os then deflate_loop z flush (drop n inp) os2 else Some (True, drop n inp, os2))"
    "os_step g os os2 (take n inp)" "zs_in os2 = zs_in os" "length out \<le> out_room os"
    "length out < out_room os \<longrightarrow> n = length inp \<and> (flush \<longrightarrow> plain g (produced g (zs_state os2)) = accepted g (zs_state os2))"
    "length out = out_room os \<longrightarrow> filled g (zs_state os2) \<and> length (zs_out os2) = zs_out_size os2"
    "(flush \<longrightarrow> 6 < out_room os) \<longrightarrow> todo g (zs_state os2) flush (drop n inp) + length out \<le> todo g (zs_state os) flush inp"
proof -
  define os1 where "os1 = zrleBufferGrow os"
  define room where "room = out_room os"
  have o1: "zs_state os1 = zs_state os" "zs_in os1 = zs_in os" "zs_out os1 = zs_out os" "os_ok os1"
    using assms(2) by (auto simp: os1_def zrleBufferGrow_def os_ok_def)
  have r: "zs_out_size os1 = length (zs_out os) + room" "0 < room"
    using assms(2) by (auto simp: os1_def room_def out_room_def zrleBufferGrow_def os_ok_def)
  obtain ret n out st where d: "deflate z (zs_state os) flush inp room = (ret, n, out, st)" by (metis prod_cases4)
  have laws: "n \<le> length inp" "length out \<le> room" "accepted g st = accepted g (zs_state os) @ take n inp"
    "produced g st = produced g (zs_state os) @ out"
    "length out < room \<longrightarrow> n = length inp \<and> (flush \<longrightarrow> plain g (produced g st) = accepted g st)"
    "length out = room \<longrightarrow> filled g st" "ret = Z_OK"
    "(flush \<longrightarrow> 6 < room) \<longrightarrow> todo g st flush (drop n inp) + length out \<le> todo g (zs_state os) flush inp"
    using assms(1,3) d r(2) unfolding deflates_def by blast+
  define os2 where "os2 = os1\<lparr>zs_out := zs_out os1 @ out, zs_state := st\<rparr>"
  have e: "zs_out_size os1 - length (zs_out os1) = room" using r(1) o1(3) by simp
  have "deflate_loop z flush inp os = (if length out = room then deflate_loop z flush (drop n inp) os2 else Some (True, drop n inp, os2))"
    by (subst deflate_loop.simps) (simp add: o1(1) e d laws(7) os2_def Let_def flip: os1_def)
  moreover have "os_ok os2" using o1(4) laws(2) r(1) o1(3) by (simp add: os_ok_def os2_def)
  then have "os_step g os os2 (take n inp)" using laws(3,4) o1(3) by (simp add: os_step_def os2_def)
  moreover have "length out = room \<Longrightarrow> length (zs_out os2) = zs_out_size os2" using r(1) o1(3) by (simp add: os2_def)
  ultimately show thesis
    by (intro that[of out n os2]) (use laws o1(2) in \<open>simp_all add: os2_def flip: room_def\<close>)
qed

lemma deflate_loop_roomy:
  assumes "deflates z g"
  shows "os_ok os \<Longrightarrow> inp \<noteq> [] \<or> filled g (zs_state os) \<Longrightarrow> flush \<longrightarrow> 6 < out_room os \<Longrightarrow>
    \<exists>os'. deflate_loop z flush inp os = Some (True, [], os') \<and> os_step g os os' inp \<and> zs_in os' = zs_in os \<and>
      (flush \<longrightarrow> plain g (produced g (zs_state os')) = accepted g (zs_state os'))"
proof (induction "todo g (zs_state os) flush inp" arbitrary: os inp rule: less_induct)
  case less
  obtain n and out :: "uint8_t list" and os2 where s:
    "deflate_loop z flush inp os = (if length out = out_room os then deflate_loop z flush (drop n inp) os2 else Some (True, drop n inp, os2))"
    "os_step g os os2 (take n inp)" "zs_in os2 = zs_in os" "length out \<le> out_room os"
    "length out < out_room os \<longrightarrow> n = length inp \<and> (flush \<longrightarrow> plain g (produced g (zs_state os2)) = accepted g (zs_state os2))"
    "length out = out_room os \<longrightarrow> filled g (zs_state os2) \<and> length (zs_out os2) = zs_out_size os2"
    "(flush \<longrightarrow> 6 < out_room os) \<longrightarrow> todo g (zs_state os2) flush (drop n inp) + length out \<le> todo g (zs_state os) flush inp"
    by (rule deflate_step[OF assms less.prems(1,2), of flush], rule that) assumption+
  show ?case
  proof (cases "length out = out_room os")
    case True
    have ok2: "os_ok os2" using s(2) by (simp add: os_step_def)
    have "todo g (zs_state os2) flush (drop n inp) < todo g (zs_state os) flush inp"
      using s(7) less.prems(3) True out_room_positive[OF less.prems(1)] by simp
    from less.hyps[OF this ok2] mp[OF s(6) True] out_room_full[OF ok2] obtain os' where
      os': "deflate_loop z flush (drop n inp) os2 = Some (True, [], os')" "os_step g os2 os' (drop n inp)"
      "zs_in os' = zs_in os2" "flush \<longrightarrow> plain g (produced g (zs_state os')) = accepted g (zs_state os')" by blast
    have "os_step g os os' inp" using os_step_trans[OF s(2) os'(2)] by simp
    then show ?thesis using os' True s(1,3) by simp
  next
    case False
    then have full: "n = length inp" "flush \<longrightarrow> plain g (produced g (zs_state os2)) = accepted g (zs_state os2)" using s(4,5) by simp_all
    then show ?thesis using s(1-3) False by simp
  qed
qed

text \<open>Only the first call may have little room.\<close>

lemma deflate_loop_all:
  assumes "deflates z g" "os_ok os" "inp \<noteq> [] \<or> filled g (zs_state os)"
  shows "\<exists>os'. deflate_loop z flush inp os = Some (True, [], os') \<and> os_step g os os' inp \<and> zs_in os' = zs_in os \<and>
      (flush \<longrightarrow> plain g (produced g (zs_state os')) = accepted g (zs_state os'))"
proof -
  obtain n and out :: "uint8_t list" and os2 where s:
    "deflate_loop z flush inp os = (if length out = out_room os then deflate_loop z flush (drop n inp) os2 else Some (True, drop n inp, os2))"
    "os_step g os os2 (take n inp)" "zs_in os2 = zs_in os" "length out \<le> out_room os"
    "length out < out_room os \<longrightarrow> n = length inp \<and> (flush \<longrightarrow> plain g (produced g (zs_state os2)) = accepted g (zs_state os2))"
    "length out = out_room os \<longrightarrow> filled g (zs_state os2) \<and> length (zs_out os2) = zs_out_size os2"
    by (rule deflate_step[OF assms, of flush], rule that) assumption+
  show ?thesis
  proof (cases "length out = out_room os")
    case True
    have ok2: "os_ok os2" using s(2) by (simp add: os_step_def)
    from deflate_loop_roomy[OF assms(1) ok2] mp[OF s(6) True] out_room_full[OF ok2] obtain os' where
      os': "deflate_loop z flush (drop n inp) os2 = Some (True, [], os')" "os_step g os2 os' (drop n inp)"
      "zs_in os' = zs_in os2" "flush \<longrightarrow> plain g (produced g (zs_state os')) = accepted g (zs_state os')" by blast
    have "os_step g os os' inp" using os_step_trans[OF s(2) os'(2)] by simp
    then show ?thesis using os' True s(1,3) by simp
  next
    case False
    then have full: "n = length inp" "flush \<longrightarrow> plain g (produced g (zs_state os2)) = accepted g (zs_state os2)" using s(4,5) by simp_all
    then show ?thesis using s(1-3) False by simp
  qed
qed

lemma overrun_all:
  assumes "deflates z g" "os_ok os" "length (zs_in os) \<le> ZRLE_IN_BUFFER_SIZE" "0 < n"
  shows "\<exists>os'. zrleOutStreamCheck z n os = Some (min n (ZRLE_IN_BUFFER_SIZE - length (zs_in os')), os') \<and>
    os_step g os os' (if ZRLE_IN_BUFFER_SIZE < length (zs_in os) + n then zs_in os else []) \<and>
    zs_in os' = (if ZRLE_IN_BUFFER_SIZE < length (zs_in os) + n then [] else zs_in os)"
proof (cases "ZRLE_IN_BUFFER_SIZE < length (zs_in os) + n")
  case False
  then have "n \<le> ZRLE_IN_BUFFER_SIZE - length (zs_in os)" by linarith
  then show ?thesis using False os_step_refl[OF assms(2)] by (simp add: zrleOutStreamCheck_def min_def)
next
  case True
  have stop: "overrun_loop z n (os1\<lparr>zs_in := []\<rparr>) = Some (True, os1\<lparr>zs_in := []\<rparr>)" for os1 :: "'a zrleOutStream"
    by (subst overrun_loop.simps) simp
  show ?thesis
  proof (cases "zs_in os = []")
    case empty: True
    then have "os = os\<lparr>zs_in := []\<rparr>" by simp
    then have "overrun_loop z n os = Some (True, os)" using stop[of os] by simp
    then show ?thesis using True empty os_step_refl[OF assms(2)]
      by (simp add: zrleOutStreamCheck_def zrleOutStreamOverrun_def min_def)
  next
    case False
    from deflate_loop_all[OF assms(1,2), of "zs_in os" False] False obtain os1 where
      os1: "deflate_loop z False (zs_in os) os = Some (True, [], os1)" "os_step g os os1 (zs_in os)" by blast
    then have "overrun_loop z n os = Some (True, os1\<lparr>zs_in := []\<rparr>)"
      using True False by (subst overrun_loop.simps) (simp add: stop)
    then show ?thesis using True os1(2) by (auto simp: zrleOutStreamCheck_def zrleOutStreamOverrun_def os_step_in min_def)
  qed
qed

text \<open>Writing adds to what was given to the stream; some of it may still be in the first buffer.\<close>

definition os_adds :: "('d, 'i) history \<Rightarrow> 'd zrleOutStream \<Rightarrow> 'd zrleOutStream \<Rightarrow> uint8_t list \<Rightarrow> bool" where
  "os_adds g os os' bs \<longleftrightarrow> length (zs_in os') \<le> ZRLE_IN_BUFFER_SIZE \<and> (bs \<noteq> [] \<longrightarrow> zs_in os' \<noteq> []) \<and>
     (\<exists>taken. os_step g os os' taken \<and> taken @ zs_in os' = zs_in os @ bs)"

lemma os_adds_trans: "os_adds g a b xs \<Longrightarrow> os_adds g b c ys \<Longrightarrow> ys \<noteq> [] \<Longrightarrow> os_adds g a c (xs @ ys)"
  unfolding os_adds_def by (metis append.assoc append_is_Nil_conv os_step_trans)

lemma write_opaque_adds:
  assumes "deflates z g" "os_ok os" "length (zs_in os) \<le> ZRLE_IN_BUFFER_SIZE" "bs \<noteq> []" "length bs \<le> ZRLE_IN_BUFFER_SIZE"
  shows "\<exists>os'. zrleOutStreamWriteOpaque z bs os = Some os' \<and> os_adds g os os' bs"
proof -
  from overrun_all[OF assms(1-3), of "length bs"] assms(4) obtain os1 where
    os1: "zrleOutStreamCheck z (length bs) os = Some (min (length bs) (ZRLE_IN_BUFFER_SIZE - length (zs_in os1)), os1)"
    "os_step g os os1 (if ZRLE_IN_BUFFER_SIZE < length (zs_in os) + length bs then zs_in os else [])"
    "zs_in os1 = (if ZRLE_IN_BUFFER_SIZE < length (zs_in os) + length bs then [] else zs_in os)" by blast
  have fit: "\<not> ZRLE_IN_BUFFER_SIZE < length (zs_in os1) + length bs" using os1(3) assms(5) by (auto split: if_splits)
  have "os_adds g os (os1\<lparr>zs_in := zs_in os1 @ bs\<rparr>) bs"
    unfolding os_adds_def os_step_in using os1(2,3) fit assms(4) by (auto split: if_splits)
  then show ?thesis using os1(1) fit by (simp add: zrleOutStreamWriteOpaque_def)
qed

lemma os_adds_refl: "os_ok os \<Longrightarrow> length (zs_in os) \<le> ZRLE_IN_BUFFER_SIZE \<Longrightarrow> os_adds g os os []"
  unfolding os_adds_def using os_step_refl by fastforce

lemma os_adds_ok: "os_adds g a b bs \<Longrightarrow> os_ok b \<and> length (zs_in b) \<le> ZRLE_IN_BUFFER_SIZE"
  by (auto simp: os_adds_def os_step_def)

lemma write_bytes_adds:
  assumes "deflates z g"
  shows "os_ok os \<Longrightarrow> length (zs_in os) \<le> ZRLE_IN_BUFFER_SIZE \<Longrightarrow>
    \<exists>os'. zrleOutStreamWriteBytes z data os = Some os' \<and> os_adds g os os' data"
proof (induction "length data" arbitrary: data os rule: less_induct)
  case less
  show ?case
  proof (cases "data = []")
    case True
    then show ?thesis using os_adds_refl[OF less.prems] by (subst zrleOutStreamWriteBytes.simps) simp
  next
    case False
    from overrun_all[OF assms less.prems, of "length data"] False obtain os1 where
      os1: "zrleOutStreamCheck z (length data) os = Some (min (length data) (ZRLE_IN_BUFFER_SIZE - length (zs_in os1)), os1)"
      "os_step g os os1 (if ZRLE_IN_BUFFER_SIZE < length (zs_in os) + length data then zs_in os else [])"
      "zs_in os1 = (if ZRLE_IN_BUFFER_SIZE < length (zs_in os) + length data then [] else zs_in os)" by blast
    define n where "n = min (length data) (ZRLE_IN_BUFFER_SIZE - length (zs_in os1))"
    have n: "0 < n" "length (zs_in os1) + n \<le> ZRLE_IN_BUFFER_SIZE" "n \<le> length data"
    proof -
      have "Suc 0 \<le> length data" using False by (cases data) auto
      moreover have "length (zs_in os1) + length data \<le> ZRLE_IN_BUFFER_SIZE \<or> length (zs_in os1) = 0"
        using os1(3) by (auto split: if_splits)
      moreover have "0 < ZRLE_IN_BUFFER_SIZE" by (simp add: ZRLE_IN_BUFFER_SIZE_def)
      ultimately show "0 < n" "length (zs_in os1) + n \<le> ZRLE_IN_BUFFER_SIZE" "n \<le> length data"
        unfolding n_def by linarith+
    qed
    define os2 where "os2 = os1\<lparr>zs_in := zs_in os1 @ take n data\<rparr>"
    have a: "os_adds g os os2 (take n data)"
      unfolding os_adds_def os2_def os_step_in using os1(2,3) n False by (auto split: if_splits)
    have go: "zrleOutStreamWriteBytes z data os = zrleOutStreamWriteBytes z (drop n data) os2"
      using False os1(1) by (subst zrleOutStreamWriteBytes.simps) (simp add: n_def os2_def)
    have "length (drop n data) < length data" using n by simp
    from less.hyps[OF this] os_adds_ok[OF a] obtain os3 where
      os3: "zrleOutStreamWriteBytes z (drop n data) os2 = Some os3" "os_adds g os2 os3 (drop n data)" by blast
    show ?thesis
    proof (cases "drop n data = []")
      case True
      then have "os3 = os2" "take n data = data" using os3(1) by (subst (asm) zrleOutStreamWriteBytes.simps, simp, simp)
      then show ?thesis using go os3(1) a by simp
    next
      case False
      from os_adds_trans[OF a os3(2) this] show ?thesis using go os3(1) by simp
    qed
  qed
qed

lemma write_all_adds:
  assumes "deflates z g"
  shows "os_ok os \<Longrightarrow> length (zs_in os) \<le> ZRLE_IN_BUFFER_SIZE \<Longrightarrow>
    (\<forall>w\<in>set ws. written w \<noteq> [] \<and> (\<forall>bs. w = Opaque bs \<longrightarrow> length bs \<le> ZRLE_IN_BUFFER_SIZE)) \<Longrightarrow>
    \<exists>os'. write_all z ws os = Some os' \<and> os_adds g os os' (all_written ws)"
proof (induction ws arbitrary: os)
  case Nil
  then show ?case using os_adds_refl by simp
next
  case (Cons w ws)
  obtain os1 where os1: "(case w of Opaque bs \<Rightarrow> zrleOutStreamWriteOpaque z bs os | Bytes bs \<Rightarrow> zrleOutStreamWriteBytes z bs os) = Some os1"
    "os_adds g os os1 (written w)"
  proof (cases w)
    case (Opaque bs)
    then have "bs \<noteq> []" "length bs \<le> ZRLE_IN_BUFFER_SIZE" using Cons.prems(3) by auto
    from write_opaque_adds[OF assms Cons.prems(1,2) this] that Opaque show ?thesis by auto
  next
    case (Bytes bs)
    from write_bytes_adds[OF assms Cons.prems(1,2), of bs] that Bytes show ?thesis by auto
  qed
  from Cons.IH[of os1] os_adds_ok[OF os1(2)] Cons.prems(3) obtain os2 where
    os2: "write_all z ws os1 = Some os2" "os_adds g os1 os2 (all_written ws)" by auto
  have go: "write_all z (w # ws) os = Some os2" using os1(1) os2(1) by (cases w) auto
  have "os_adds g os os2 (written w @ all_written ws)"
  proof (cases ws)
    case Nil
    then show ?thesis using os1(2) os2(1) by simp
  next
    case (Cons w' ws')
    then have "all_written ws \<noteq> []" using Cons.prems(3) by simp
    from os_adds_trans[OF os1(2) os2(2) this] show ?thesis .
  qed
  then show ?case using go by simp
qed

lemma flush_all:
  assumes "deflates z g" "os_ok os" "zs_in os \<noteq> []"
  shows "\<exists>os'. zrleOutStreamFlush z os = Some (True, os') \<and> os_step g os os' (zs_in os) \<and>
    plain g (produced g (zs_state os')) = accepted g (zs_state os')"
proof -
  from deflate_loop_all[OF assms(1,2), of "zs_in os" True] assms(3) obtain os1 where
    os1: "deflate_loop z True (zs_in os) os = Some (True, [], os1)" "os_step g os os1 (zs_in os)"
    "plain g (produced g (zs_state os1)) = accepted g (zs_state os1)" by blast
  have "flush_loop z (zs_in os) os = Some (True, os1)"
    using os1(1) assms(3) by (subst flush_loop.simps, simp, subst flush_loop.simps, simp)
  then show ?thesis using os1(2,3) by (simp add: zrleOutStreamFlush_def os_step_in)
qed

section \<open>The client's loop\<close>

lemma inflate_loop_all:
  assumes "inflates z g"
  shows "produced g d = eaten g s @ body @ more_bytes \<Longrightarrow> length (plain g (eaten g s @ body)) \<le> base + room \<Longrightarrow>
    out = drop base (plain g (eaten g s)) \<Longrightarrow> base \<le> length (plain g (eaten g s)) \<Longrightarrow>
    \<exists>s'. inflate_loop z (length body) Z_OK out s (body @ rest) room =
        Some (Z_OK, drop base (plain g (eaten g s @ body)), s', rest) \<and> eaten g s' = eaten g s @ body"
proof (induction "length body" arbitrary: body out s rule: less_induct)
  case less
  show ?case
  proof (cases "body = []")
    case True
    then show ?thesis using less.prems(3) by (subst inflate_loop.simps) simp
  next
    case False
    define k where "k = (if RFB_BUFFER_SIZE < length body then RFB_BUFFER_SIZE else length body)"
    have k: "0 < k" "k \<le> length body" using False by (auto simp: k_def RFB_BUFFER_SIZE_def)
    define chunk where "chunk = take k body"
    define body' where "body' = drop k body"
    have body: "body = chunk @ body'" "length chunk = k" "chunk \<noteq> []" using k by (auto simp: chunk_def body'_def)
    let ?E = "eaten g s"
    have mono: "prefix (plain g ?E) (plain g (?E @ chunk))" "prefix (plain g (?E @ chunk)) (plain g ((?E @ chunk) @ body'))"
      using assms by (simp_all only: inflates_def)
    have out: "length out = length (plain g ?E) - base" using less.prems(3) by simp
    have fits: "length (plain g (?E @ chunk)) \<le> length (plain g ?E) + (room - length out)"
    proof -
      have "length (plain g (?E @ chunk)) \<le> base + room"
        using prefix_length_le[OF mono(2)] less.prems(2) by (simp add: body(1))
      moreover have "length (plain g ?E) = base + length out" using out less.prems(4) by simp
      ultimately show ?thesis by linarith
    qed
    have "produced g d = ?E @ chunk @ body' @ more_bytes" using less.prems(1) by (simp add: body(1))
    then obtain s1 where s1: "inflate z s chunk (room - length out) = (Z_OK, length chunk, drop (length (plain g ?E)) (plain g (?E @ chunk)), s1)"
      "eaten g s1 = ?E @ chunk"
      using assms body(3) fits unfolding inflates_def by blast
    define new where "new = drop (length (plain g ?E)) (plain g (?E @ chunk))"
    have "plain g (?E @ chunk) = plain g ?E @ new" using mono(1) by (auto simp: new_def elim!: prefixE)
    then have new: "out @ new = drop base (plain g (eaten g s1))" "base \<le> length (plain g (eaten g s1))"
      using less.prems(3,4) by (simp_all add: s1(2))
    have "length body' < length body" using k by (simp add: body'_def)
    from less.hyps[OF this, of s1 "out @ new"] obtain s2 where
      s2: "inflate_loop z (length body') Z_OK (out @ new) s1 (body' @ rest) room = Some (Z_OK, drop base (plain g (eaten g s1 @ body')), s2, rest)"
      "eaten g s2 = eaten g s1 @ body'"
      using less.prems(1,2) new by (auto simp: s1(2) body(1))
    have rd: "ReadFromRFBServer k (body @ rest) = Some (chunk, body' @ rest)" using body(1,2) by simp
    have "inflate_loop z (length body) Z_OK out s (body @ rest) room = inflate_loop z (length body') Z_OK (out @ new) s1 (body' @ rest) room"
      using False rd s1(1) body(2)
      by (subst inflate_loop.simps) (simp add: Let_def Z_OK_def Z_NEED_DICT_def body'_def new_def flip: k_def)
    then show ?thesis using s2 by (simp add: s1(2) body(1))
  qed
qed

end
