(* ===== verification/MinilzoCorrect.thy ===== *)
theory MinilzoCorrect
  imports Minilzo
begin

text \<open>
  The decompressor of minilzo gives back what its compressor made. What the compressor wrote up to a point of the
  input is \<open>decoded\<close>: whatever follows, the decompressor comes to its end with that part of the input, and with
  the number of literals the compressor may still put into the last match but one byte.
\<close>

section \<open>Bytes at a place\<close>

definition holds_at :: "uint8_t list \<Rightarrow> nat \<Rightarrow> uint8_t list \<Rightarrow> bool" where
  "holds_at src ip bs \<longleftrightarrow> take (length bs) (drop ip src) = bs"

lemma holds_at_Nil [simp]: "holds_at src ip []"
  by (simp add: holds_at_def)

lemma holds_at_Cons [simp]: "holds_at src ip (b # bs) \<longleftrightarrow> ip < length src \<and> src ! ip = b \<and> holds_at src (ip + 1) bs"
proof (cases "ip < length src")
  case True
  then have "drop ip src = src ! ip # drop (ip + 1) src" by (simp add: Cons_nth_drop_Suc)
  then show ?thesis using True by (auto simp: holds_at_def)
qed (simp add: holds_at_def)

lemma holds_at_append: "holds_at src ip (xs @ ys) \<longleftrightarrow> holds_at src ip xs \<and> holds_at src (ip + length xs) ys"
  by (induction xs arbitrary: ip) (auto simp: add.assoc)

lemma holds_at_length: "holds_at src ip bs \<Longrightarrow> bs \<noteq> [] \<Longrightarrow> ip + length bs \<le> length src"
  by (induction bs arbitrary: ip) (auto, fastforce)

lemma holds_at_here: "holds_at (pre @ bs @ post) (length pre) bs"
  by (simp add: holds_at_def)

lemma byte_at_holds: "ip < length src \<Longrightarrow> byte_at src ip = Some (src ! ip)"
  by (simp add: byte_at_def)

lemma copy_input_holds:
  "holds_at src ip bs \<Longrightarrow> ip \<le> length src \<Longrightarrow> length out + length bs \<le> room \<Longrightarrow> copy_input src room ip (length bs) out = Some (out @ bs)"
  using holds_at_length[of src ip bs] by (cases "bs = []") (auto simp: copy_input_def holds_at_def)

lemma unat_LZO_BYTE: "unat (LZO_BYTE n) = n mod 256"
proof -
  have "n AND 0xFF = take_bit 8 n" by (simp add: take_bit_eq_mask mask_eq_exp_minus_1)
  then show ?thesis by (simp add: LZO_BYTE_def unsigned_of_nat take_bit_eq_mod)
qed

lemma LZO_BYTE_0 [simp]: "LZO_BYTE 0 = 0" by (simp add: LZO_BYTE_def)

section \<open>Lengths\<close>

lemma long_length_not_Nil: "long_length tt \<noteq> []"
  by (subst long_length.simps) simp

lemma length_long_length: "0 < tt \<Longrightarrow> 0 < length (long_length tt) \<and> 255 * length (long_length tt) \<le> tt + 254"
proof (induction tt rule: long_length.induct)
  case (1 tt)
  show ?case
  proof (cases "255 < tt")
    case True
    then have "255 * length (long_length (tt - 255)) \<le> tt - 255 + 254" using "1.IH" by simp
    then show ?thesis using True by (simp add: long_length.simps[of tt])
  next
    case False
    then show ?thesis using "1.prems" by (simp add: long_length.simps[of tt])
  qed
qed

lemma read_long_length:
  "0 < tt \<Longrightarrow> holds_at src ip (long_length tt) \<Longrightarrow> read_long src base t ip = Some (t + base + tt, ip + length (long_length tt))"
proof (induction tt arbitrary: t ip rule: long_length.induct)
  case (1 tt)
  show ?case
  proof (cases "255 < tt")
    case True
    then have l: "long_length tt = 0 # long_length (tt - 255)" by (subst long_length.simps) simp
    then have "read_long src base t ip = read_long src base (t + 255) (ip + 1)"
      using "1.prems"(2) by (simp add: read_long.simps[of src base t ip])
    also have "\<dots> = Some (t + 255 + base + (tt - 255), ip + 1 + length (long_length (tt - 255)))"
      using "1.prems"(2) True by (intro "1.IH"[OF True]) (simp_all add: l)
    finally show ?thesis using True by (simp add: l)
  next
    case False
    then have l: "long_length tt = [LZO_BYTE tt]" by (subst long_length.simps) simp
    have u: "unat (LZO_BYTE tt) = tt" using False by (simp add: unat_LZO_BYTE)
    then have "LZO_BYTE tt \<noteq> 0" using "1.prems"(1) by (metis unat_0 less_irrefl)
    then show ?thesis using "1.prems"(2) u by (simp add: l read_long.simps[of src base t ip])
  qed
qed

lemma length_or_long_short: "0 < t \<Longrightarrow> length_or_long src base t ip = Some (t, ip)"
  by (simp add: length_or_long_def)

lemma length_or_long_long:
  "0 < tt \<Longrightarrow> holds_at src ip (long_length tt) \<Longrightarrow> length_or_long src base 0 ip = Some (base + tt, ip + length (long_length tt))"
  by (simp add: length_or_long_def read_long_length)

section \<open>The bytes of a match\<close>

lemma or_into_append: "2 \<le> length bs \<Longrightarrow> or_into (op @ bs) k = op @ or_into bs k"
proof -
  assume "2 \<le> length bs"
  then have "length (op @ bs) - 2 = length op + (length bs - 2)" by simp
  then show ?thesis unfolding or_into_def by (simp only: list_update_length list_update_append nth_append) simp
qed

lemma or_into_0: "or_into op 0 = op"
  by (simp add: or_into_def)

lemma length_or_into [simp]: "length (or_into op k) = length op"
  by (simp add: or_into_def)

lemma or_into_2 [simp]: "or_into [a, b] k = [a OR LZO_BYTE k, b]"
  by (simp add: or_into_def)

lemma or_into_3 [simp]: "or_into [a, b, c] k = [a, b OR LZO_BYTE k, c]"
  by (simp add: or_into_def)

text \<open>The first byte of a match and the low byte of an offset, for all their values.\<close>

lemma shift_or: "b < 2 ^ n \<Longrightarrow> push_bit n a OR b = 2 ^ n * a + (b :: nat)"
proof -
  assume "b < 2 ^ n"
  then have "\<not> bit (push_bit n a) i \<or> \<not> bit b i" for i
    using bit_take_bit_iff[of n b i] by (auto simp: bit_push_bit_iff_nat take_bit_nat_eq_self)
  from disjunctive_add[OF this] show ?thesis by (simp add: push_bit_eq_mult mult.commute)
qed

lemma LZO_BYTE_or: "LZO_BYTE a OR LZO_BYTE b = LZO_BYTE (a OR b)"
  unfolding LZO_BYTE_def by (rule bit_word_eqI) (auto simp: bit_simps)

lemma m2_byte:
  assumes "3 \<le> l" "l \<le> 8" "n < 8" "k < 4"
  shows "unat (LZO_BYTE (push_bit 5 (l - 1) OR push_bit 2 n) OR LZO_BYTE k) = 32 * (l - 1) + 4 * n + k"
proof -
  have "push_bit 2 n OR k = 4 * n + k" using shift_or[of k 2 n] assms(4) by simp
  moreover have "push_bit 5 (l - 1) OR (4 * n + k) = 32 * (l - 1) + (4 * n + k)"
    using shift_or[of "4 * n + k" 5 "l - 1"] assms(3,4) by simp
  ultimately show ?thesis using assms by (simp add: LZO_BYTE_or or.assoc unat_LZO_BYTE)
qed

lemma offset_byte: "n < 64 \<Longrightarrow> k < 4 \<Longrightarrow> unat (LZO_BYTE (push_bit 2 n) OR LZO_BYTE k) = 4 * n + k"
  using shift_or[of k 2 n] by (simp add: LZO_BYTE_or unat_LZO_BYTE)

lemma m3_byte: "l < 32 \<Longrightarrow> unat (LZO_BYTE (M3_MARKER OR l)) = 32 + l"
  using shift_or[of l 5 1] by (simp add: M3_MARKER_def unat_LZO_BYTE)

lemma m4_byte:
  assumes "l < 8" "b = 0 \<or> b = 0x4000"
  shows "unat (LZO_BYTE (M4_MARKER OR drop_bit 11 b OR l)) = 16 + b div 0x800 + l"
proof -
  have "16 OR (8 OR l) = (16 OR 8) OR l" by (simp only: or.assoc)
  also have "\<dots> = 24 + l" using shift_or[of l 3 3] assms(1) by simp
  finally have "16 OR 8 OR l = 24 + l" .
  moreover have "16 OR l = 16 + l" using shift_or[of l 4 1] assms(1) by simp
  ultimately show ?thesis using assms by (auto simp: M4_MARKER_def unat_LZO_BYTE drop_bit_eq_div)
qed

text \<open>The offset of a long match loses its top bit, which is in the first byte then.\<close>

abbreviation marked_offset :: "nat \<Rightarrow> nat \<Rightarrow> uint8_t list" where
  "marked_offset off k \<equiv> or_into (offset_bytes off) k"

lemma read_marked_offset:
  assumes "holds_at src ip (marked_offset off k)" "k < 4"
  shows "read_offset src ip = Some (off mod 0x4000)" "ip + 1 < length src" "unat (src ! ip) AND 3 = k"
proof -
  have u: "unat (LZO_BYTE (push_bit 2 (off AND 63)) OR LZO_BYTE k) = 4 * (off mod 64) + k"
  proof -
    have "off AND 63 = off mod 64" using take_bit_eq_mask[of 6 off] by (simp add: take_bit_eq_mod mask_eq_exp_minus_1)
    then show ?thesis using offset_byte[of "off mod 64" k] assms(2) by simp
  qed
  have b: "ip + 1 < length src" "src ! ip = LZO_BYTE (push_bit 2 (off AND 63)) OR LZO_BYTE k" "src ! (ip + 1) = LZO_BYTE (drop_bit 6 off)"
    using assms(1) by (simp_all add: offset_bytes_def)
  have "off mod 0x4000 = off mod 64 + 64 * (off div 64 mod 256)" using mod_mult2_eq[of off 64 256] by simp
  then show "read_offset src ip = Some (off mod 0x4000)"
    using b assms(2) u by (simp add: read_offset_def byte_at_def unat_LZO_BYTE drop_bit_eq_div push_bit_eq_mult)
  show "ip + 1 < length src" by (rule b)
  have "(4 * (off mod 64) + k) AND 3 = k"
    using take_bit_eq_mask[of 2 "4 * (off mod 64) + k"] assms(2) by (simp add: take_bit_eq_mod mask_eq_exp_minus_1)
  then show "unat (src ! ip) AND 3 = k" using b(2) u by simp
qed

lemma match_done_marked:
  assumes "ip + 1 < length src" "unat (src ! ip) AND 3 = k"
  shows "match_done src room (ip + 2) out = (if k = 0 then Some (Top, ip + 2, out) else match_next src room k (ip + 2) out)"
  using assms by (simp add: match_done_def byte_at_def Let_def)

text \<open>Where the decompressor is after a match with \<open>k\<close> literals.\<close>

abbreviation after_match :: "uint8_t list \<Rightarrow> nat \<Rightarrow> nat \<Rightarrow> nat \<Rightarrow> uint8_t list \<Rightarrow> lzo_state option" where
  "after_match src room k ip out \<equiv> if k = 0 then Some (Top, ip, out) else match_next src room k ip out"

abbreviation matched :: "uint8_t list \<Rightarrow> nat \<Rightarrow> nat \<Rightarrow> nat \<Rightarrow> nat \<Rightarrow> nat \<Rightarrow> uint8_t list \<Rightarrow> (lzo_state + int \<times> uint8_t list) option" where
  "matched src room off len k ip out \<equiv>
     Option.bind (copy_match room off len out) (\<lambda>out. map_option Inl (after_match src room k ip out))"

text \<open>The three kinds of a match.\<close>

lemma at_match_m2:
  assumes "holds_at src ip [LZO_BYTE (drop_bit 3 (off - 1))]" "3 \<le> len" "len \<le> 8" "0 < off" "off \<le> 0x800" "k < 4" "0 < ip"
    and "t = unat (LZO_BYTE (push_bit 5 (len - 1) OR push_bit 2 ((off - 1) AND 7)) OR LZO_BYTE k)" "unat (src ! (ip - 1)) = t"
  shows "64 \<le> t \<and> at_match src room t ip out = matched src room off len k (ip + 1) out"
proof -
  have a7: "n AND 7 = n mod 8" for n :: nat using take_bit_eq_mask[of 3 n] by (simp add: take_bit_eq_mod mask_eq_exp_minus_1)
  have a3: "n AND 3 = n mod 4" for n :: nat using take_bit_eq_mask[of 2 n] by (simp add: take_bit_eq_mod mask_eq_exp_minus_1)
  have t: "t = 32 * (len - 1) + 4 * ((off - 1) mod 8) + k"
    using m2_byte[OF assms(2,3) _ assms(6), of "(off - 1) AND 7"] assms(8) by (simp add: a7)
  have d: "drop_bit 2 t AND 7 = (off - 1) mod 8" "drop_bit 5 t = len - 1" "t AND 3 = k" "64 \<le> t"
  proof -
    define q where "q = (off - 1) mod 8"
    define l where "l = len - 1"
    have q: "q < 8" "2 \<le> l" and t': "t = 32 * l + 4 * q + k" using t assms(2) by (simp_all add: q_def l_def)
    have t4: "t = k + (8 * l + q) * 4" and t32: "t = (4 * q + k) + l * 32" using t' by simp_all
    have "t div 4 = 8 * l + q" unfolding t4 using div_mult_self1[of 4 k "8 * l + q"] assms(6) by simp
    moreover have "t mod 4 = k" unfolding t4 mod_mult_self1 using assms(6) by simp
    moreover have "t div 32 = l" unfolding t32 using div_mult_self1[of 32 "4 * q + k" l] q(1) assms(6) by simp
    moreover have "64 \<le> t" using t' q(2) by linarith
    moreover have "(8 * l + q) mod 8 = q" using q(1) by simp
    ultimately    show "drop_bit 2 t AND 7 = (off - 1) mod 8" "drop_bit 5 t = len - 1" "t AND 3 = k" "64 \<le> t"
      unfolding a7 a3 drop_bit_eq_div unfolding q_def[symmetric] l_def[symmetric] using q(1) by simp_all
  qed
  have b: "byte_at src ip = Some (src ! ip)" "unat (src ! ip) = (off - 1) div 8"
    using assms(1,5) by (simp_all add: byte_at_def unat_LZO_BYTE drop_bit_eq_div)
  have off: "1 + (off - 1) mod 8 + push_bit 3 (unat (src ! ip)) = off"
    using assms(4) b(2) mod_mult_div_eq[of "off - 1" 8] by (simp add: push_bit_eq_mult)
  have len: "drop_bit 5 t - 1 + 2 = len" using d(2) assms(2) by simp
  have "match_done src room (ip + 1) out = after_match src room k (ip + 1) out" for out
    using match_done_marked[of "ip - 1" src k room out] assms(1,7,9) d(3) by simp
  then show ?thesis by (simp only: at_match_def b(1) d(1,4) off len if_True Option.bind.simps simp_thms)
qed

lemma at_match_offset:
  assumes "holds_at src ip (marked_offset off k)" "k < 4"
  shows "Option.bind (read_offset src ip) (\<lambda>off. Option.bind (copy_match room (f off) len out)
      (\<lambda>out. map_option Inl (match_done src room (ip + 2) out))) = matched src room (f (off mod 0x4000)) len k (ip + 2) out"
  using read_marked_offset[OF assms] match_done_marked[of ip src k room] by simp

lemma at_match_m3:
  assumes "holds_at src ip (rest @ marked_offset (off - 1) k)" "k < 4" "0 < off" "off \<le> 0x4000" "2 < len"
    and "if len \<le> 33 then t = 32 + (len - 2) \<and> rest = [] else t = 32 \<and> rest = long_length (len - 33)"
  shows "at_match src room t ip out = matched src room off len k (ip + length rest + 2) out"
proof -
  have a: "t AND 31 = t mod 32" using take_bit_eq_mask[of 5 t] by (simp add: take_bit_eq_mod mask_eq_exp_minus_1)
  have h: "holds_at src ip rest" "holds_at src (ip + length rest) (marked_offset (off - 1) k)"
    using assms(1) by (simp_all add: holds_at_append)
  have t: "32 \<le> t" "t < 64" using assms(5,6) by (auto split: if_splits)
  have l: "length_or_long src 31 (t AND 31) ip = Some (len - 2, ip + length rest)"
  proof (cases "len \<le> 33")
    case True
    then have "t = 32 + (len - 2)" "len - 2 < 32" using assms(6) by simp_all
    then have "t AND 31 = len - 2" unfolding a by simp
    then show ?thesis using True assms(5,6) length_or_long_short[of "len - 2" src 31 ip] by simp
  next
    case False
    then show ?thesis using assms(6) length_or_long_long[of "len - 33" src ip 31] h(1) by (simp add: a)
  qed
  have o: "1 + (off - 1) mod 0x4000 = off" "len - 2 + 2 = len" using assms(3-5) by simp_all
  have "at_match src room t ip out = Option.bind (read_offset src (ip + length rest)) (\<lambda>off. Option.bind (copy_match room (1 + off) (len - 2 + 2) out)
      (\<lambda>out. map_option Inl (match_done src room (ip + length rest + 2) out)))"
    using t by (simp add: at_match_def l)
  also have "\<dots> = matched src room (1 + (off - 1) mod 0x4000) (len - 2 + 2) k (ip + length rest + 2) out"
    by (rule at_match_offset[OF h(2) assms(2)])
  finally show ?thesis unfolding o .
qed

lemma and_power: "(n :: nat) AND 2 ^ k = (if bit n k then 2 ^ k else 0)"
  by (rule bit_eqI) (auto simp: bit_simps)

lemma at_match_m4:
  assumes "holds_at src ip (rest @ marked_offset n k)" "k < 4" "0 < n" "n < 0x8000" "2 < len"
    and "if len \<le> 9 then t = 16 + (n AND 0x4000) div 0x800 + (len - 2) \<and> rest = []
      else t = 16 + (n AND 0x4000) div 0x800 \<and> rest = long_length (len - 9)"
  shows "16 \<le> t \<and> t < 32 \<and> at_match src room t ip out = matched src room (n + 0x4000) len k (ip + length rest + 2) out"
proof -
  have h: "holds_at src ip rest" "holds_at src (ip + length rest) (marked_offset n k)"
    using assms(1) by (simp_all add: holds_at_append)
  define b where "b = n AND 0x4000"
  have b: "b = n div 0x4000 * 0x4000" "n div 0x4000 = 0 \<or> n div 0x4000 = 1"
  proof -
    show "n div 0x4000 = 0 \<or> n div 0x4000 = 1" using assms(4) by (simp add: less_2_cases_iff[symmetric] div_less_iff_less_mult)
    then show "b = n div 0x4000 * 0x4000" using and_power[of n 14] by (auto simp: b_def bit_iff_odd)
  qed
  have a7: "t AND 7 = t mod 8" using take_bit_eq_mask[of 3 t] by (simp add: take_bit_eq_mod mask_eq_exp_minus_1)
  have a8: "16 AND 8 = (0::nat)" "24 AND 8 = (8::nat)" by simp_all
  define l where "l = (if len \<le> 9 then len - 2 else 0)"
  have l: "l < 8" "t = 16 + b div 0x800 + l" using assms(5,6) by (auto simp: l_def b_def split: if_splits)
  have t: "16 \<le> t" "t < 32" "t mod 8 = l" "push_bit 11 (t AND 8) = b"
  proof -
    have bd: "b div 0x800 = 0 \<and> b = 0 \<or> b div 0x800 = 8 \<and> b = 0x4000" using b by auto
    show "16 \<le> t" "t < 32" using bd l by auto
    have "t = l + 2 * 8 \<or> t = l + 3 * 8" using bd l(2) by auto
    then show "t mod 8 = l" using l(1) by (metis mod_mult_self1 mod_less)
    have "t div 8 = 2 + b div 0x4000" using bd l by auto
    then have "t AND 8 = b div 0x800" using bd and_power[of t 3] by (auto simp: bit_iff_odd)
    then show "push_bit 11 (t AND 8) = b" using bd by (auto simp: push_bit_eq_mult)
  qed
  have t7: "t AND 7 = l" unfolding a7 by (rule t(3))
  have l7: "length_or_long src 7 (t AND 7) ip = Some (len - 2, ip + length rest)"
  proof (cases "len \<le> 9")
    case True
    then have "l = len - 2" "rest = []" using assms(6) by (simp_all add: l_def)
    then show ?thesis unfolding t7 using assms(5) length_or_long_short[of "len - 2" src 7 ip] by simp
  next
    case False
    then have "l = 0" "rest = long_length (len - 9)" using assms(6) by (simp_all add: l_def)
    then show ?thesis unfolding t7 using False length_or_long_long[of "len - 9" src ip 7] h(1) by simp
  qed
  have o: "b + n mod 0x4000 + 0x4000 = n + 0x4000" "len - 2 + 2 = len" "b + n mod 0x4000 \<noteq> 0"
    using b(1) assms(3,5) by simp_all
  have small: "\<not> 64 \<le> t" "\<not> 32 \<le> t" using t by simp_all
  have "at_match src room t ip out =
      Option.bind (copy_match room (b + n mod 0x4000 + 0x4000) (len - 2 + 2) out)
        (\<lambda>out. map_option Inl (match_done src room (ip + length rest + 2) out))"
    unfolding at_match_def if_not_P[OF small(1)] if_not_P[OF small(2)] if_P[OF t(1)] t(4) l7 Let_def
    by (simp only: Option.bind.simps prod.case read_marked_offset(1)[OF h(2) assms(2)] o(3) if_False)
  also have "\<dots> = matched src room (b + n mod 0x4000 + 0x4000) (len - 2 + 2) k (ip + length rest + 2) out"
    using match_done_marked[OF read_marked_offset(2,3)[OF h(2) assms(2)], of room] by simp
  finally have "at_match src room t ip out = matched src room (b + n mod 0x4000 + 0x4000) (len - 2 + 2) k (ip + length rest + 2) out" .
  then show ?thesis unfolding o using t by simp
qed

text \<open>Whatever match was encoded, with whatever number of literals to follow, is the one that is copied.\<close>

lemma match_code_length: "2 \<le> length (match_code off len)"
  by (simp add: match_code_def offset_bytes_def Let_def)

lemma or_into_Cons: "2 \<le> length bs \<Longrightarrow> or_into (b # bs) k = b # or_into bs k"
  using or_into_append[of bs "[b]" k] by simp

lemma offset_bytes_length [simp]: "length (offset_bytes off) = 2"
  by (simp add: offset_bytes_def)

lemma at_match_code:
  assumes "or_into (match_code off len) k = b # bs" "holds_at src ip bs" "src ! (ip - 1) = b" "0 < ip"
    and "k < 4" "3 \<le> len" "0 < off" "off \<le> M4_MAX_OFFSET"
  shows "16 \<le> unat b \<and> at_match src room (unat b) ip out = matched src room off len k (ip + length bs) out"
proof -
  note defs = match_code_def M2_MAX_LEN_def M2_MAX_OFFSET_def M3_MAX_OFFSET_def M3_MAX_LEN_def M4_MAX_LEN_def Let_def
  consider (m2) "len \<le> 8" "off \<le> 0x800" | (m3) "off \<le> 0x4000" "8 < len \<or> 0x800 < off" | (m4) "0x4000 < off" by linarith
  then show ?thesis
  proof cases
    case m2
    then have c: "b = LZO_BYTE (push_bit 5 (len - 1) OR push_bit 2 ((off - 1) AND 7)) OR LZO_BYTE k"
      "bs = [LZO_BYTE (drop_bit 3 (off - 1))]" using assms(1) by (simp_all add: defs)
    have "64 \<le> unat b \<and> at_match src room (unat b) ip out = matched src room off len k (ip + 1) out"
      by (rule at_match_m2[OF assms(2)[unfolded c(2)] assms(6) m2(1) assms(7) m2(2) assms(5,4)]) (simp_all only: c(1) assms(3))
    moreover have len: "length bs = 1" using c(2) by simp
    ultimately show ?thesis unfolding len by auto
  next
    case m3
    define rest where "rest = (if len \<le> 33 then [] else long_length (len - 33))"
    have "match_code off len = LZO_BYTE (M3_MARKER OR (if len \<le> 33 then len - 2 else 0)) # rest @ offset_bytes (off - 1)"
      using m3 by (auto simp: defs rest_def)
    then have c: "b = LZO_BYTE (M3_MARKER OR (if len \<le> 33 then len - 2 else 0))" "bs = rest @ marked_offset (off - 1) k"
      using assms(1) by (simp_all add: or_into_Cons or_into_append)
    have b: "if len \<le> 33 then unat b = 32 + (len - 2) \<and> rest = [] else unat b = 32 \<and> rest = long_length (len - 33)"
      using m3_byte[of "len - 2"] m3_byte[of 0] by (simp add: c(1) rest_def)
    then have "16 \<le> unat b" by (auto split: if_splits)
    moreover have len: "ip + length bs = ip + length rest + 2" by (simp add: c(2))
    ultimately show ?thesis
      unfolding len using at_match_m3[OF assms(2)[unfolded c(2)] assms(5,7) m3(1) _ b, of room out] assms(6) by auto
  next
    case m4
    define n where "n = off - 0x4000"
    have n: "0 < n" "n < 0x8000" "n + 0x4000 = off" using m4 assms(8) by (simp_all add: n_def M4_MAX_OFFSET_def)
    define rest where "rest = (if len \<le> 9 then [] else long_length (len - 9))"
    define l where "l = (if len \<le> 9 then len - 2 else 0)"
    have "match_code off len = LZO_BYTE (M4_MARKER OR drop_bit 11 (n AND 0x4000) OR l) # rest @ offset_bytes n"
      using m4 by (auto simp: defs rest_def l_def n_def)
    then have c: "b = LZO_BYTE (M4_MARKER OR drop_bit 11 (n AND 0x4000) OR l)" "bs = rest @ marked_offset n k"
      using assms(1) by (simp_all add: or_into_Cons or_into_append)
    have "n AND 0x4000 = 0 \<or> n AND 0x4000 = 0x4000" using and_power[of n 14] by simp
    moreover have "l < 8" unfolding l_def by (simp split: if_splits) linarith
    ultimately have "unat b = 16 + (n AND 0x4000) div 0x800 + l" unfolding c(1) by (rule m4_byte[rotated])
    then have "if len \<le> 9 then unat b = 16 + (n AND 0x4000) div 0x800 + (len - 2) \<and> rest = []
      else unat b = 16 + (n AND 0x4000) div 0x800 \<and> rest = long_length (len - 9)" by (simp add: rest_def l_def)
    from at_match_m4[OF assms(2)[unfolded c(2)] assms(5) n(1,2) _ this, of room out, unfolded n(3)]
    have "16 \<le> unat b \<and> at_match src room (unat b) ip out = matched src room off len k (ip + length rest + 2) out" using assms(6) by auto
    moreover have len: "ip + length bs = ip + length rest + 2" by (simp add: c(2))
    ultimately show ?thesis unfolding len by auto
  qed
qed

section \<open>Copying\<close>

text \<open>A match that overlaps its copy still copies what the compressor compared.\<close>

lemma copy_bytes_same:
  assumes "\<And>j. j < n \<Longrightarrow> inp ! (m + j) = inp ! (q + j)" "m < q" "q + n \<le> length inp" "length inp \<le> room"
  shows "copy_bytes room m n (take q inp) = Some (take (q + n) inp)"
  using assms
proof (induction n arbitrary: m q)
  case (Suc n)
  have "take q inp @ [take q inp ! m] = take (q + 1) inp"
    using Suc.prems(1)[of 0] Suc.prems(2,3) by (simp add: take_Suc_conv_app_nth)
  then have "copy_bytes room m (Suc n) (take q inp) = copy_bytes room (m + 1) n (take (q + 1) inp)"
    using Suc.prems(2-4) by simp
  also have "\<dots> = Some (take (q + 1 + n) inp)"
    using Suc.prems(1)[of "Suc _"] Suc.prems(2-4) by (intro Suc.IH) auto
  finally show ?case by simp
qed simp

lemma copy_match_same:
  assumes "\<And>j. j < n \<Longrightarrow> inp ! (m + j) = inp ! (q + j)" "m < q" "q + n \<le> length inp" "length inp \<le> room"
  shows "copy_match room (q - m) n (take q inp) = Some (take (q + n) inp)"
  using copy_bytes_same[OF assms] assms(2,3) by (simp add: copy_match_def)

section \<open>What was written so far\<close>

definition decode_after :: "uint8_t list \<Rightarrow> nat \<Rightarrow> nat \<Rightarrow> nat \<Rightarrow> uint8_t list \<Rightarrow> (int \<times> uint8_t list) option" where
  "decode_after src room k ip out = Option.bind (after_match src room k ip out) (decompress_loop src room)"

definition decoded :: "nat \<Rightarrow> uint8_t list \<Rightarrow> uint8_t list \<Rightarrow> bool" where
  "decoded room op out \<longleftrightarrow> 2 \<le> length op \<and>
     (\<forall>k<4. \<forall>rest. lzo1x_decompress (or_into op k @ rest) room = decode_after (or_into op k @ rest) room k (length op) out)"

text \<open>After a run of literals (or none) the decompressor is at the next match, provided one follows.\<close>

lemma Top_literals:
  assumes src: "src = op @ hdr @ lits @ b # rest" and len: "length lits = t" "4 \<le> t" "length out + t \<le> room" "16 \<le> unat b"
    and hdr: "hdr = (if t \<le> 18 then [LZO_BYTE (t - 3)] else 0 # long_length (t - 18))"
  shows "decompress_loop src room (Top, length op, out) =
    decompress_loop src room (Match (unat b), length (op @ hdr @ lits) + 1, out @ lits)"
proof -
  have h: "holds_at src (length op) (hdr @ lits @ [b])"
    using holds_at_here[of op "hdr @ lits @ [b]" rest] src by simp
  let ?p = "length op + length hdr"
  have l: "holds_at src ?p lits" "?p \<le> length src" using h src by (simp_all add: holds_at_append)
  have b: "byte_at src (?p + t) = Some b" using h len(1) by (simp add: holds_at_append byte_at_def add.assoc)
  have "at_top src room (length op) out = Some (First_Literal_Run, ?p + t, out @ lits)"
  proof (cases "t \<le> 18")
    case True
    then have u: "unat (LZO_BYTE (t - 3)) = t - 3" by (simp add: unat_LZO_BYTE)
    have "byte_at src (length op) = Some (LZO_BYTE (t - 3))" using h True hdr by (simp add: byte_at_def)
    moreover have "length_or_long src 15 (t - 3) (length op + 1) = Some (t - 3, length op + 1)"
      using len(2) by (intro length_or_long_short) simp
    ultimately show ?thesis
      using copy_input_holds[OF l len(3)[folded len(1)]] True hdr len(1,2) u by (simp add: at_top_def)
  next
    case False
    then have "byte_at src (length op) = Some 0" "holds_at src (length op + 1) (long_length (t - 18))"
      using h hdr by (simp_all add: byte_at_def holds_at_append)
    then show ?thesis
      using copy_input_holds[OF l len(3)[folded len(1)]] False hdr len(1) length_or_long_long[of "t - 18" src "length op + 1" 15]
      by (simp add: at_top_def add.assoc)
  qed
  moreover have "at_first_literal_run src room (?p + t) (out @ lits) = Some (Match (unat b), ?p + t + 1, out @ lits)"
    using b len(4) by (simp add: at_first_literal_run_def)
  ultimately show ?thesis
    using decompress_loop.simps[of src room "(Top, length op, out)"]
      decompress_loop.simps[of src room "(First_Literal_Run, ?p + t, out @ lits)"] len(1) by (simp add: add.assoc)
qed

lemma Top_match:
  assumes "src = op @ b # rest" "16 \<le> unat b"
  shows "decompress_loop src room (Top, length op, out) = decompress_loop src room (Match (unat b), length op + 1, out)"
  using assms decompress_loop.simps[of src room "(Top, length op, out)"] by (simp add: at_top_def byte_at_def)

lemma match_next_literals:
  assumes "src = op @ lits @ b # rest" "length lits = t" "length out + t \<le> room"
  shows "match_next src room t (length op) out = Some (Match (unat b), length (op @ lits) + 1, out @ lits)"
proof -
  have "holds_at src (length op) lits" "length op \<le> length src" using assms(1) by (simp_all add: holds_at_def)
  from copy_input_holds[OF this assms(3)[folded assms(2)]]
  show ?thesis using assms(1,2) by (simp add: match_next_def byte_at_def nth_append)
qed

lemma decompress_nonempty:
  "lzo1x_decompress (b # bs) room = (if 17 < unat b
     then (let t = unat b - 17
           in if t < 4 then Option.bind (match_next (b # bs) room t 1 []) (decompress_loop (b # bs) room)
              else Option.bind (copy_input (b # bs) room 1 t []) (\<lambda>out. decompress_loop (b # bs) room (First_Literal_Run, 1 + t, out)))
     else decompress_loop (b # bs) room (Top, 0, []))"
  by (simp add: lzo1x_decompress_def byte_at_def)

definition started :: "nat \<Rightarrow> uint8_t list \<Rightarrow> uint8_t list \<Rightarrow> nat \<Rightarrow> bool" where
  "started room inp op ii \<longleftrightarrow> op = [] \<and> ii = 0 \<or> decoded room op (take ii inp)"

lemma reach_match:
  assumes "started room inp op ii" "op = [] \<longrightarrow> 4 \<le> t \<or> t = 0 \<and> unat b \<le> 17"
    and put: "put_literals inp ii t op = Some op'" and len: "ii + t \<le> length inp" "length inp \<le> room"
    and src: "src = op' @ b # rest" and b: "16 \<le> unat b"
  shows "lzo1x_decompress src room = decompress_loop src room (Match (unat b), length op' + 1, take (ii + t) inp)"
proof -
  define lits where "lits = take t (drop ii inp)"
  have lits: "length lits = t" "take ii inp @ lits = take (ii + t) inp" using len by (simp_all add: lits_def take_add)
  have room: "length (take ii inp) + t \<le> room" using len by simp
  define hdr where "hdr = (if t \<le> 18 then [LZO_BYTE (t - 3)] else 0 # long_length (t - 18))"
  have long: "op' = op @ hdr @ lits" if "4 \<le> t"
    using put that len by (auto simp: put_literals_def literal_header_def copy_literals_def hdr_def lits_def split: if_splits)
  show ?thesis
  proof (cases "op = []")
    case True
    show ?thesis
    proof (cases "t = 0")
      case t0: True
      then have s: "src = b # rest" "op' = []" using put src True by (simp_all add: put_literals_def)
      then have "lzo1x_decompress src room = decompress_loop src room (Top, length ([] :: uint8_t list), [])"
        using assms(2) True t0 b by (simp add: decompress_nonempty)
      then show ?thesis using Top_match[of src "[]" b rest room "[]"] s b t0 True assms(1)
        by (auto simp: started_def decoded_def)
    next
      case False
      then have t: "4 \<le> t" using assms(2) True by simp
      have ii: "ii = 0" using assms(1) True by (auto simp: started_def decoded_def)
      obtain h hs where h: "hdr = h # hs" "unat h \<le> 17"
      proof (cases "t \<le> 18")
        case True
        show ?thesis by (rule that[of "LZO_BYTE (t - 3)" "[]"]) (use True in \<open>simp_all add: hdr_def unat_LZO_BYTE\<close>)
      qed (rule that[of 0 "long_length (t - 18)"]; simp add: hdr_def)
      have s: "src = [] @ hdr @ lits @ b # rest" using src long[OF t] True by simp
      have "lzo1x_decompress src room = decompress_loop src room (Top, length ([] :: uint8_t list), [])"
        unfolding s using h(2) by (simp add: h(1) decompress_nonempty)
      also have "\<dots> = decompress_loop src room (Match (unat b), length ([] @ hdr @ lits) + 1, [] @ lits)"
        by (rule Top_literals[OF s lits(1) t _ b hdr_def]) (use room ii in simp)
      finally show ?thesis using long[OF t] True lits(2) ii by simp
    qed
  next
    case False
    then have dec: "decoded room op (take ii inp)" using assms(1) by (simp add: started_def)
    then have two: "2 \<le> length op" and
      at: "\<And>k rest. k < 4 \<Longrightarrow> lzo1x_decompress (or_into op k @ rest) room =
        decode_after (or_into op k @ rest) room k (length op) (take ii inp)" by (simp_all add: decoded_def)
    consider "t = 0" | "0 < t" "t < 4" | "4 \<le> t" by linarith
    then show ?thesis
    proof cases
      case 1
      then have s: "src = op @ b # rest" "op' = op" using put src by (simp_all add: put_literals_def)
      then show ?thesis using at[of 0 "b # rest"] Top_match[OF s(1) b, of room "take ii inp"] 1
        by (simp add: or_into_0 decode_after_def)
    next
      case 2
      then have o: "op' = or_into op t @ lits"
        using put two len by (auto simp: put_literals_def literal_header_def copy_literals_def lits_def)
      then have s: "src = or_into op t @ lits @ b # rest" using src by simp
      show ?thesis
        using at[OF 2(2), of "lits @ b # rest"] match_next_literals[OF s lits(1) room] 2(1) o lits(2)
        by (simp add: s[symmetric] decode_after_def)
    next
      case 3
      then have s: "src = op @ hdr @ lits @ b # rest" using src long by simp
      have "lzo1x_decompress src room = decompress_loop src room (Top, length op, take ii inp)"
        using at[of 0 "hdr @ lits @ b # rest"] s by (simp add: or_into_0 decode_after_def)
      then show ?thesis using Top_literals[OF s lits(1) 3 room b hdr_def] long[OF 3] lits(2) by simp
    qed
  qed
qed

text \<open>One match more.\<close>

lemma decoded_match:
  assumes "started room inp op ii" "op = [] \<longrightarrow> 4 \<le> t" "put_literals inp ii t op = Some op'" "length inp \<le> room"
    and same: "\<And>j. j < len \<Longrightarrow> inp ! (m + j) = inp ! (ii + t + j)" and m: "m < ii + t" "ii + t - m \<le> M4_MAX_OFFSET"
    and len: "3 \<le> len" "ii + t + len \<le> length inp"
  shows "decoded room (op' @ match_code (ii + t - m) len) (take (ii + t + len) inp)"
proof -
  let ?mc = "match_code (ii + t - m) len"
  let ?op = "op' @ ?mc"
  have "lzo1x_decompress (or_into ?op k @ rest) room = decode_after (or_into ?op k @ rest) room k (length ?op) (take (ii + t + len) inp)"
    if k: "k < 4" for k rest
  proof -
    obtain b bs where bs: "or_into ?mc k = b # bs" using match_code_length[of "ii + t - m" len] length_or_into[of ?mc k]
      by (cases "or_into ?mc k") auto
    have lbs: "length ?mc = length bs + 1" using bs length_or_into[of ?mc k] by simp
    define src where "src = or_into ?op k @ rest"
    have src: "src = op' @ b # (bs @ rest)" using or_into_append[OF match_code_length] bs by (simp add: src_def)
    have h: "holds_at src (length op' + 1) bs" "src ! (length op' + 1 - 1) = b"
      using holds_at_here[of "op' @ [b]" bs rest] by (simp_all add: src)
    have copy: "copy_match room (ii + t - m) len (take (ii + t) inp) = Some (take (ii + t + len) inp)"
      by (rule copy_match_same[OF same m(1) len(2) assms(4)])
    have M: "16 \<le> unat b" "at_match src room (unat b) (length op' + 1) (take (ii + t) inp) =
        map_option Inl (after_match src room k (length ?op) (take (ii + t + len) inp))"
      using at_match_code[OF bs h _ k len(1) _ m(2), of room "take (ii + t) inp"] m(1) copy lbs
      by (simp_all add: add.assoc add.commute)
    have "lzo1x_decompress src room = decompress_loop src room (Match (unat b), length op' + 1, take (ii + t) inp)"
      using assms(2) len(2) by (intro reach_match[OF assms(1) _ assms(3) _ assms(4) src M(1)]) simp_all
    also have "\<dots> = decode_after src room k (length ?op) (take (ii + t + len) inp)"
      unfolding decompress_loop.simps[of src room "(Match (unat b), length op' + 1, take (ii + t) inp)"] lzo_step.simps M(2) decode_after_def
      by (cases "after_match src room k (length ?op) (take (ii + t + len) inp)") simp_all
    finally show ?thesis by (simp add: src_def)
  qed
  then show ?thesis using match_code_length[of "ii + t - m" len] by (simp add: decoded_def)
qed

section \<open>What the compressor finds\<close>

lemma same_byte_in: "a < length src \<Longrightarrow> b < length src \<Longrightarrow> same_byte src a b = Some (src ! a = src ! b)"
  by (simp add: same_byte_def byte_at_def)

lemma differ_from_spec:
  "m \<le> ip \<Longrightarrow> ip \<le> stop \<Longrightarrow> stop \<le> length src \<Longrightarrow>
   \<exists>p. differ_from src m ip stop = Some p \<and> ip \<le> p \<and> p \<le> stop \<and> (\<forall>j. ip + j < p \<longrightarrow> src ! (m + j) = src ! (ip + j))"
proof (induction src m ip stop rule: differ_from.induct)
  case (1 src m ip stop)
  show ?case
  proof (cases "ip < stop \<and> src ! m = src ! ip")
    case True
    then have s: "same_byte src m ip = Some True" using "1.prems" by (simp add: same_byte_in)
    have "\<exists>p. differ_from src (m + 1) (ip + 1) stop = Some p \<and> ip + 1 \<le> p \<and> p \<le> stop \<and>
        (\<forall>j. ip + 1 + j < p \<longrightarrow> src ! (m + 1 + j) = src ! (ip + 1 + j))"
      using "1.IH"[OF conjunct1[OF True] s] "1.prems" True by simp
    then obtain p where p: "differ_from src (m + 1) (ip + 1) stop = Some p" "ip + 1 \<le> p" "p \<le> stop"
      "\<And>j. ip + 1 + j < p \<Longrightarrow> src ! (m + 1 + j) = src ! (ip + 1 + j)" by blast
    have "differ_from src m ip stop = Some p" using True s p(1) by (simp add: differ_from.simps[of src m ip stop])
    moreover have "src ! (m + j) = src ! (ip + j)" if "ip + j < p" for j
      using p(4)[of "j - 1"] True that by (cases j) auto
    ultimately show ?thesis using p(2,3) by auto
  next
    case False
    then have "differ_from src m ip stop = Some ip"
      using "1.prems" same_byte_in[of m src ip] by (auto simp: differ_from.simps[of src m ip stop])
    then show ?thesis using "1.prems" by auto
  qed
qed

lemma match_end_spec:
  assumes "m < ip" "ip + 9 \<le> length src" and first: "\<And>j. j < 3 \<Longrightarrow> src ! (m + j) = src ! (ip + j)"
  shows "\<exists>p. match_end src m ip = Some p \<and> ip + 3 \<le> p \<and> p \<le> length src \<and>
    (\<forall>j < p - ip. src ! (m + j) = src ! (ip + j)) \<and> (src ! (m + 3) = src ! (ip + 3) \<longrightarrow> ip + 4 \<le> p)"
proof -
  from differ_from_spec[of "m + 3" "ip + 3" "ip + 9" src] assms(1,2)
  obtain p where p: "differ_from src (m + 3) (ip + 3) (ip + 9) = Some p" "ip + 3 \<le> p" "p \<le> ip + 9"
    "\<And>j. ip + 3 + j < p \<Longrightarrow> src ! (m + 3 + j) = src ! (ip + 3 + j)" by auto
  have six: "src ! (m + j) = src ! (ip + j)" if "ip + j < p" for j
    using p(4)[of "j - 3"] first[of j] that by (cases "j < 3") auto
  have four: "ip + 4 \<le> p" if "src ! (m + 3) = src ! (ip + 3)"
  proof -
    have "same_byte src (m + 3) (ip + 3) = Some True" using that assms(1,2) by (simp add: same_byte_in)
    then have "differ_from src (m + 3 + 1) (ip + 3 + 1) (ip + 9) = Some p"
      using p(1) by (simp add: differ_from.simps[of src "m + 3" "ip + 3" "ip + 9"])
    from differ_from_ge[OF this] show ?thesis by simp
  qed
  show ?thesis
  proof (cases "p < ip + 9")
    case True
    then show ?thesis using p(1-3) six four assms(2) by (auto simp: match_end_def)
  next
    case False
    then have p9: "p = ip + 9" using p(3) by simp
    from differ_from_spec[of "m + 9" p "length src" src] assms(1,2) p9
    obtain e where e: "differ_from src (m + 9) p (length src) = Some e" "p \<le> e" "e \<le> length src"
      "\<And>j. p + j < e \<Longrightarrow> src ! (m + 9 + j) = src ! (p + j)" by auto
    have "src ! (m + j) = src ! (ip + j)" if "ip + j < e" for j
      using e(4)[of "j - 9"] six[of j] that p9 by (cases "j < 9") auto
    moreover have "match_end src m ip = Some e" using p(1) p9 e(1) by (simp add: match_end_def M2_MAX_LEN_def add.commute[of 9 m])
    ultimately show ?thesis using e(2,3) p9 by (auto simp: add.commute less_diff_conv)
  qed
qed

lemma try_match_in:
  "m < ip \<Longrightarrow> ip + 2 < length src \<Longrightarrow> try_match src m ip = Some (\<forall>j<3. src ! (m + j) = src ! (ip + j))"
  by (auto simp: try_match_def same_byte_in numeral_3_eq_3 less_Suc_eq)

text \<open>A match that is found has three bytes, and four when it is far away.\<close>

definition good_match :: "uint8_t list \<Rightarrow> nat \<Rightarrow> nat \<Rightarrow> bool" where
  "good_match src ip m \<longleftrightarrow> m < ip \<and> ip - m \<le> M4_MAX_OFFSET \<and> (\<forall>j<3. src ! (m + j) = src ! (ip + j)) \<and>
     (M2_MAX_OFFSET < ip - m \<longrightarrow> src ! (m + 3) = src ! (ip + 3))"

lemma find_match_spec:
  assumes "ip + 3 < length src"
  shows "\<exists>d r. find_match src dict ip = Some (d, r) \<and> (\<forall>m. r = Some m \<longrightarrow> good_match src ip m)"
proof -
  obtain d where d: "DINDEX1 src ip = Some d" using assms by (simp add: DINDEX1_def byte_at_def Let_def)
  have u: "nat (dict e) < ip \<and> ip - nat (dict e) \<le> M4_MAX_OFFSET" if "usable (dict e) ip" for e
    using that by (auto simp: usable_def)
  have near: "near_or_longer src m ip = Some (ip - m \<le> M2_MAX_OFFSET \<or> src ! (m + 3) = src ! (ip + 3))" if "m < ip" for m
    using that assms by (simp add: near_or_longer_def same_byte_in)
  have f: "\<exists>r. found src e m ip = Some (e, r) \<and> (\<forall>m. r = Some m \<longrightarrow> good_match src ip m)"
    if "m < ip" "ip - m \<le> M4_MAX_OFFSET" "ip - m \<le> M2_MAX_OFFSET \<or> src ! (m + 3) = src ! (ip + 3)" for e m
    using that try_match_in[of m ip src] assms by (auto simp: found_def good_match_def)
  show ?thesis
    using u[of d] u[of "DINDEX2 d"] near[of "nat (dict d)"] near[of "nat (dict (DINDEX2 d))"]
      f[of "nat (dict d)" d] f[of "nat (dict (DINDEX2 d))" "DINDEX2 d"]
    by (cases "usable (dict d) ip"; cases "usable (dict (DINDEX2 d)) ip") (auto simp: find_match_def d Let_def)
qed

section \<open>The compressor as a whole\<close>

text \<open>What it writes is at most a sixteenth longer than what it encodes.\<close>

lemma literal_header_length:
  assumes "literal_header op t = Some op'"
  shows "length op' \<le> length op + (if t \<le> 3 then 0 else if t \<le> 18 then 1 else 1 + length (long_length (t - 18)))"
  using assms by (auto simp: literal_header_def split: if_splits)

lemma put_literals_length:
  assumes "put_literals inp ii t op = Some op'" "ii + t \<le> length inp"
  shows "length op' \<le> length op + t + (if t \<le> 3 then 0 else if t \<le> 18 then 1 else 1 + length (long_length (t - 18)))"
  using assms literal_header_length[of op t]
  by (fastforce simp: put_literals_def copy_literals_def bind_eq_Some_conv split: if_splits)

lemma match_code_le:
  assumes "3 \<le> len"
  shows "length (match_code off len) \<le> (if len \<le> 8 then (if off \<le> M2_MAX_OFFSET then 2 else 3) else 4 + (len div 255))"
proof -
  have "length (long_length (len - c)) \<le> 1 + len div 255" if "c < len" "9 \<le> c" for c
  proof -
    have "255 * length (long_length (len - c)) \<le> len - c + 254" using length_long_length[of "len - c"] that by simp
    then show ?thesis using that by linarith
  qed
  from this[of 9] this[of 33] show ?thesis using assms
    by (auto simp: match_code_def Let_def M2_MAX_LEN_def M3_MAX_LEN_def M4_MAX_LEN_def)
qed

lemma step_length:
  assumes "put_literals inp ii t op = Some op'" "ii + t \<le> length inp" "16 * length op \<le> 17 * ii"
    and "3 \<le> len" "M2_MAX_OFFSET < off \<longrightarrow> 4 \<le> len"
  shows "16 * length (op' @ match_code off len) \<le> 17 * (ii + t + len)"
proof -
  let ?L = "length (long_length (t - 18))" and ?m = "length (match_code off len)"
  have L: "18 < t \<Longrightarrow> 255 * ?L \<le> t + 236" using length_long_length[of "t - 18"] by simp
  have m: "16 * ?m + 19 \<le> 17 * len"
  proof (cases "len \<le> 8")
    case True
    then show ?thesis using match_code_le[OF assms(4), of off] assms(4,5) by (auto split: if_splits)
  next
    case False
    have "16 * (len div 255) \<le> len" by linarith
    moreover have "?m \<le> 4 + len div 255" using False match_code_le[OF assms(4), of off] by simp
    ultimately show ?thesis using False by linarith
  qed
  have "length op' \<le> length op + t + (if t \<le> 3 then 0 else if t \<le> 18 then 1 else 1 + ?L)"
    by (rule put_literals_length[OF assms(1,2)])
  moreover have "16 * (if t \<le> 3 then 0 else if t \<le> 18 then 1 else 1 + ?L) \<le> t + 19" using L by simp linarith
  ultimately have "16 * length op' \<le> 16 * length op + 17 * t + 19" by linarith
  then show ?thesis using m assms(3) by simp
qed

text \<open>The loop: it comes to an end inside its buffers, and what it wrote is decoded.\<close>

definition progress :: "nat \<Rightarrow> uint8_t list \<Rightarrow> uint8_t list \<Rightarrow> nat \<Rightarrow> bool" where
  "progress room inp op ii \<longleftrightarrow> started room inp op ii \<and> (op = [] \<longrightarrow> ii = 0) \<and> 16 * length op \<le> 17 * ii \<and> ii \<le> length inp"

lemma put_literals_Some:
  assumes "progress room inp op ii" "op = [] \<longrightarrow> 4 \<le> t \<or> t = 0" "ii + t \<le> length inp"
  shows "\<exists>op'. put_literals inp ii t op = Some op'"
  using assms by (auto simp: progress_def started_def decoded_def put_literals_def literal_header_def copy_literals_def)

lemma progress_match:
  assumes p: "progress room inp op ii" and t: "op = [] \<longrightarrow> 4 \<le> t" and room: "length inp \<le> room"
    and m: "good_match inp (ii + t) m" and ip: "ii + t + 9 \<le> length inp"
  shows "\<exists>op' p. put_literals inp ii t op = Some op' \<and> match_end inp m (ii + t) = Some p \<and>
    progress room inp (op' @ match_code (ii + t - m) (p - (ii + t))) p"
proof -
  let ?ip = "ii + t"
  obtain op' where op': "put_literals inp ii t op = Some op'" using put_literals_Some[OF p, of t] t ip by auto
  have g: "m < ?ip" "?ip - m \<le> M4_MAX_OFFSET" "\<And>j. j < 3 \<Longrightarrow> inp ! (m + j) = inp ! (?ip + j)"
    "M2_MAX_OFFSET < ?ip - m \<longrightarrow> inp ! (m + 3) = inp ! (?ip + 3)" using m by (simp_all add: good_match_def)
  obtain e where e: "match_end inp m ?ip = Some e" "?ip + 3 \<le> e" "e \<le> length inp"
    "\<And>j. j < e - ?ip \<Longrightarrow> inp ! (m + j) = inp ! (?ip + j)" "inp ! (m + 3) = inp ! (?ip + 3) \<Longrightarrow> ?ip + 4 \<le> e"
    using match_end_spec[OF g(1) ip g(3)] by blast
  have len: "3 \<le> e - ?ip" "?ip + (e - ?ip) = e" "M2_MAX_OFFSET < ?ip - m \<longrightarrow> 4 \<le> e - ?ip" using e(2,5) g(4) by auto
  have s: "started room inp op ii" "16 * length op \<le> 17 * ii" using p by (simp_all add: progress_def)
  have "decoded room (op' @ match_code (?ip - m) (e - ?ip)) (take (?ip + (e - ?ip)) inp)"
    by (rule decoded_match[OF s(1) t op' room e(4) g(1,2) len(1)]) ((use e(2,3) in linarith)+)
  moreover have "16 * length (op' @ match_code (?ip - m) (e - ?ip)) \<le> 17 * (?ip + (e - ?ip))"
    by (rule step_length[OF op' _ s(2) len(1,3)]) (use ip in simp)
  ultimately have "progress room inp (op' @ match_code (?ip - m) (e - ?ip)) e"
    using e(2,3) len(2) match_code_length[of "?ip - m" "e - ?ip"] by (auto simp: progress_def started_def)
  then show ?thesis using op' e(1) by blast
qed

lemma do_compress_progress:
  "progress room inp op ii \<Longrightarrow> ii \<le> ip \<Longrightarrow> op = [] \<longrightarrow> 4 \<le> ip \<Longrightarrow> ip + 9 \<le> length inp \<Longrightarrow> length inp \<le> room \<Longrightarrow>
   \<exists>op' ii'. do_compress inp dict ip ii op = Some (op', ii') \<and> progress room inp op' ii'"
proof (induction inp dict ip ii op rule: do_compress.induct)
  case (1 src dict ip ii op)
  have "ip + 3 < length src" using "1.prems"(4) by simp
  from find_match_spec[OF this, of dict] obtain d r where
    f: "find_match src dict ip = Some (d, r)" "\<And>m. r = Some m \<Longrightarrow> good_match src ip m" by blast
  show ?case
  proof (cases r)
    case None
    show ?thesis
    proof (cases "length src - M2_MAX_LEN - 5 \<le> ip + 1")
      case True
      then show ?thesis using f(1) None "1.prems"(1) by (simp add: do_compress.simps[of src dict ip])
    next
      case False
      then have "\<exists>op' ii'. do_compress src (dict(d := int ip)) (ip + 1) ii op = Some (op', ii') \<and> progress room src op' ii'"
        using "1.prems" by (intro "1.IH"(1)[OF refl f(1) refl None]) (auto simp: M2_MAX_LEN_def)
      then show ?thesis using f(1) None False by (simp add: do_compress.simps[of src dict ip])
    qed
  next
    case (Some m)
    have ii: "ii + (ip - ii) = ip" using "1.prems"(2) by simp
    have t: "op = [] \<longrightarrow> 4 \<le> ip - ii" using "1.prems"(1,3) by (auto simp: progress_def)
    obtain op' p where s: "put_literals src ii (ip - ii) op = Some op'" "match_end src m ip = Some p"
      "progress room src (op' @ match_code (ip - m) (p - ip)) p"
      using progress_match[OF "1.prems"(1) t "1.prems"(5), of m] f(2)[OF Some] "1.prems"(4) unfolding ii by blast
    show ?thesis
    proof (cases "length src - M2_MAX_LEN - 5 \<le> p")
      case True
      then show ?thesis using f(1) Some s by (simp add: do_compress.simps[of src dict ip] Let_def)
    next
      case False
      have "op' @ match_code (ip - m) (p - ip) \<noteq> []" using match_code_length[of "ip - m" "p - ip"] by auto
      then have "\<exists>op'' ii'. do_compress src (dict(d := int ip)) p p (op' @ match_code (ip - m) (p - ip)) = Some (op'', ii') \<and> progress room src op'' ii'"
        using False s(3) "1.prems"(5) by (intro "1.IH"(2)[OF refl f(1) refl Some s(1,2) refl]) (auto simp: M2_MAX_LEN_def)
      then show ?thesis using f(1) Some s False by (simp add: do_compress.simps[of src dict ip] Let_def)
    qed
  qed
qed

section \<open>The round trip\<close>

abbreviation eof_bytes :: "uint8_t list" where "eof_bytes \<equiv> [LZO_BYTE (M4_MARKER OR 1), 0, 0]"

lemma eof_byte: "unat (LZO_BYTE (M4_MARKER OR 1)) = 17"
  using m4_byte[of 1 0] by simp

lemma decompress_eof:
  assumes "src = op @ eof_bytes"
  shows "decompress_loop src room (Match (unat (LZO_BYTE (M4_MARKER OR 1))), length op + 1, out) = Some (LZO_E_OK, out)"
proof -
  have a: "17 AND 7 = (1::nat)" "push_bit 11 (17 AND 8) = (0::nat)" by simp_all
  have "read_offset src (length op + 1) = Some 0"
    using assms by (simp add: read_offset_def byte_at_def nth_append)
  then have "at_match src room 17 (length op + 1) out = Some (Inr (LZO_E_OK, out))"
    unfolding at_match_def a(1) using assms by (simp add: a(2) length_or_long_short eof_found_def Let_def)
  then show ?thesis unfolding eof_byte decompress_loop.simps[of src room "(Match 17, length op + 1, out)"] lzo_step.simps by simp
qed

lemma decompress_short:
  assumes "0 < length inp" "length inp \<le> 238" "length inp \<le> room"
  shows "lzo1x_decompress ([LZO_BYTE (17 + length inp)] @ inp @ eof_bytes) room = Some (LZO_E_OK, inp)"
proof -
  let ?b = "LZO_BYTE (17 + length inp)" and ?e = "LZO_BYTE (M4_MARKER OR 1)"
  define src where "src = [?b] @ inp @ eof_bytes"
  have u: "unat ?b = 17 + length inp" using assms(2) by (simp add: unat_LZO_BYTE)
  have nxt: "match_next src room (length inp) 1 [] = Some (Match (unat ?e), length ([?b] @ inp) + 1, inp)"
    using match_next_literals[of src "[?b]" inp ?e "[0, 0]" "length inp" "[]" room] assms(3) by (simp add: src_def)
  have e: "decompress_loop src room (Match (unat ?e), length ([?b] @ inp) + 1, inp) = Some (LZO_E_OK, inp)"
    by (rule decompress_eof) (simp add: src_def)
  have copy: "copy_input src room 1 (length inp) [] = Some inp"
    using assms(3) by (simp add: copy_input_def src_def)
  have first: "decompress_loop src room (First_Literal_Run, 1 + length inp, inp) =
      decompress_loop src room (Match (unat ?e), length ([?b] @ inp) + 1, inp)"
  proof -
    have "byte_at src (1 + length inp) = Some ?e" by (simp add: byte_at_def src_def nth_append)
    then have "at_first_literal_run src room (1 + length inp) inp = Some (Match (unat ?e), length ([?b] @ inp) + 1, inp)"
      using eof_byte by (simp add: at_first_literal_run_def)
    then show ?thesis
      unfolding decompress_loop.simps[of src room "(First_Literal_Run, 1 + length inp, inp)"] lzo_step.simps by simp
  qed
  have "lzo1x_decompress src room = Some (LZO_E_OK, inp)"
  proof (cases "length inp < 4")
    case True
    then show ?thesis using nxt e u assms(1) by (simp add: lzo1x_decompress_def byte_at_def src_def Let_def)
  next
    case False
    then show ?thesis using copy first e u assms(1) by (simp add: lzo1x_decompress_def byte_at_def src_def Let_def)
  qed
  then show ?thesis by (simp add: src_def)
qed

lemma finish:
  assumes "progress room inp op ii" "put_literals inp ii (length inp - ii) op = Some op'" "op = [] \<longrightarrow> 4 \<le> length inp \<or> inp = []"
    and "length inp \<le> room"
  shows "lzo1x_decompress (op' @ eof_bytes) room = Some (LZO_E_OK, inp)"
proof -
  have p: "started room inp op ii" "ii + (length inp - ii) = length inp" "op = [] \<longrightarrow> ii = 0"
    using assms(1) by (simp_all add: progress_def)
  have "lzo1x_decompress (op' @ eof_bytes) room =
      decompress_loop (op' @ eof_bytes) room (Match (unat (LZO_BYTE (M4_MARKER OR 1))), length op' + 1, take (ii + (length inp - ii)) inp)"
    by (rule reach_match[OF p(1) _ assms(2) _ assms(4) refl]) (use p assms(3) eof_byte in auto)
  also have "\<dots> = Some (LZO_E_OK, inp)" unfolding p(2) using decompress_eof[OF refl] by simp
  finally show ?thesis .
qed

lemma finish_length:
  assumes "put_literals inp ii t op = Some op'" "ii + t = length inp" "16 * length op \<le> 17 * ii"
  shows "length (op' @ eof_bytes) \<le> length inp + length inp div 16 + 64 + 3"
proof -
  let ?L = "length (long_length (t - 18))"
  have "length op' \<le> length op + t + (if t \<le> 3 then 0 else if t \<le> 18 then 1 else 1 + ?L)"
    using put_literals_length[OF assms(1)] assms(2) by simp
  moreover have "18 < t \<Longrightarrow> 255 * ?L \<le> t + 236" using length_long_length[of "t - 18"] by simp
  then have "16 * (if t \<le> 3 then 0 else if t \<le> 18 then 1 else 1 + ?L) \<le> t + 19" by simp linarith
  ultimately show ?thesis using assms(2,3) by simp
qed

lemma lzo1x_roundtrip:
  "\<exists>out. lzo1x_1_compress inp wrkmem = Some (LZO_E_OK, out) \<and> out \<noteq> [] \<and>
     length out \<le> length inp + length inp div 16 + 64 + 3 \<and>
     (\<forall>room\<ge>length inp. lzo1x_decompress out room = Some (LZO_E_OK, inp))"
proof -
  have start: "progress room inp [] 0" for room by (simp add: progress_def started_def)
  obtain op ii where c: "(if length inp \<le> 13 then op = [] \<and> ii = 0 else do_compress inp wrkmem 4 0 [] = Some (op, ii))"
    and p: "\<And>room. length inp \<le> room \<Longrightarrow> progress room inp op ii"
  proof (cases "length inp \<le> 13")
    case True
    then show ?thesis using start by (intro that[of "[]" 0]) simp_all
  next
    case False
    then have *: "\<exists>op' ii'. do_compress inp wrkmem 4 0 [] = Some (op', ii') \<and> progress room inp op' ii'" if "length inp \<le> room" for room
      using that by (intro do_compress_progress[OF start]) auto
    from *[OF le_refl] obtain op ii where d: "do_compress inp wrkmem 4 0 [] = Some (op, ii)" by blast
    show ?thesis by (rule that[of op ii]) (use d * False in auto)
  qed
  let ?t = "length inp - ii"
  have ii: "ii \<le> length inp" "op = [] \<longrightarrow> ii = 0" "16 * length op \<le> 17 * ii" using p[OF le_refl] by (simp_all add: progress_def)
  define k where "k = (\<lambda>op. Some (LZO_E_OK, op @ eof_bytes))"
  have comp: "lzo1x_1_compress inp wrkmem =
      Option.bind (if 0 < ?t then Option.bind (last_header op ?t) (copy_literals inp (length inp - ?t) ?t) else Some op) k"
    using c by (auto simp: lzo1x_1_compress_def k_def M2_MAX_LEN_def split: if_splits)
  have t: "length inp - ?t = ii" using ii(1) by simp
  show ?thesis
  proof (cases "op = [] \<and> 0 < ?t \<and> ?t \<le> 238")
    case True
    then have z: "ii = 0" using ii(2) by simp
    then have "lzo1x_1_compress inp wrkmem = Some (LZO_E_OK, [LZO_BYTE (17 + length inp)] @ inp @ eof_bytes)"
      using True by (simp add: comp last_header_def copy_literals_def k_def)
    then show ?thesis using decompress_short[of inp] True z by auto
  next
    case False
    then have put: "put_literals inp ii ?t op = (if 0 < ?t then Option.bind (last_header op ?t) (copy_literals inp ii ?t) else Some op)"
      by (auto simp: put_literals_def last_header_def)
    have four: "op = [] \<longrightarrow> 4 \<le> length inp \<or> inp = []" using False ii(2) by auto
    then have "op = [] \<longrightarrow> 4 \<le> ?t \<or> ?t = 0" using ii(2) by auto
    from put_literals_Some[OF p[OF le_refl] this] ii(1) obtain op' where op': "put_literals inp ii ?t op = Some op'" by auto
    have "lzo1x_1_compress inp wrkmem = Option.bind (put_literals inp ii ?t op) k" by (simp only: comp t put)
    then have "lzo1x_1_compress inp wrkmem = Some (LZO_E_OK, op' @ eof_bytes)" using op' by (simp add: k_def)
    moreover have "length (op' @ eof_bytes) \<le> length inp + length inp div 16 + 64 + 3"
      by (rule finish_length[OF op' _ ii(3)]) (use ii(1) in simp)
    ultimately show ?thesis using finish[OF p op' four] by auto
  qed
qed

end
