(* ===== verification/DeflateRoundtrip.thy ===== *)
theory DeflateRoundtrip
  imports DeflateCorrect MinilzoCorrect
begin

text \<open>
  Zlib and Ultra from end to end: what the server sends for a rectangle is decoded by the client to its
  pixels. For Zlib the two streams stay in step, so that the next rectangle is decoded as well.
\<close>

section \<open>Pixels in the raw buffer\<close>

lemma pixels_of_tile:
  fixes fb :: "nat \<Rightarrow> nat \<Rightarrow> 'a::len word"
  assumes "whole_bytes TYPE('a)"
  shows "pixels_of (w * h) (tile_bytes fb x y w h @ old) = tile fb x y w h"
proof (rule nth_equalityI)
  let ?k = "pixel_size TYPE('a)"
  let ?t = "tile fb x y w h"
  fix i assume "i < length (pixels_of (w * h) (tile_bytes fb x y w h @ old) :: 'a word list)"
  then have i: "i < length ?t" by (simp add: pixels_of_def)
  have "(i + 1) * ?k \<le> w * h * ?k" using i by (intro mult_right_mono) auto
  then have "i * ?k + ?k \<le> length (tile_bytes fb x y w h)" by (simp add: length_tile_bytes)
  then have "take ?k (drop (i * ?k) (tile_bytes fb x y w h @ old)) = take ?k (drop (i * ?k) (tile_bytes fb x y w h))" by simp
  then show "(pixels_of (w * h) (tile_bytes fb x y w h @ old) :: 'a word list) ! i = ?t ! i"
    using i chunks_of_pixels[OF i] assms by (simp add: pixels_of_def flip: tile_bytes_def del: take_append drop_append)
qed (simp add: pixels_of_def)

lemma overlay_tile: "overlay x y w h (\<lambda>px py. tile pic x y w h ! (py * w + px)) f = overlay x y w h (\<lambda>px py. pic (x + px) (y + py)) f"
proof (intro ext)
  fix X Y
  have "tile pic x y w h ! ((Y - y) * w + (X - x)) = pic (x + (X - x)) (y + (Y - y))" if "in_rect x y w h X Y"
    by (rule nth_tile) (use that in \<open>auto simp: in_rect_def\<close>)
  then show "overlay x y w h (\<lambda>px py. tile pic x y w h ! (py * w + px)) f X Y = overlay x y w h (\<lambda>px py. pic (x + px) (y + py)) f X Y"
    unfolding overlay_def by presburger
qed

section \<open>The message\<close>

definition compressed_message :: "uint32_t \<Rightarrow> nat \<Rightarrow> nat \<Rightarrow> nat \<Rightarrow> nat \<Rightarrow> uint8_t list \<Rightarrow> uint8_t list" where
  "compressed_message enc x y w h after = rect_header x y w h enc @ wire32 (word_of_nat (length after)) @ after"

lemma delivers_compressed: "delivers (send_compressed enc x y w h after) (compressed_message enc x y w h after)"
proof -
  let ?hdr = "rect_header x y w h enc @ wire32 (word_of_nat (length after))"
  have "send_compressed enc x y w h after =
      (\<lambda>cl. let (ok, cl) = make_room 16 cl in if \<not> ok then (False, cl) else copy_loop after (put_bytes ?hdr cl))"
    by (auto simp: fun_eq_iff send_compressed_def put_bytes_append sz_rfbFramebufferUpdateRectHeader_def sz_rfbZlibHeader_def split: prod.splits)
  moreover have "length ?hdr = 16" by (simp add: rect_header_def wire16_def wire32_def)
  ultimately show ?thesis using delivers_after[of ?hdr after] by (simp add: compressed_message_def)
qed

definition compressor :: "('d, 'i) zlib \<Rightarrow> 'd option \<Rightarrow> 'd" where
  "compressor z s = (case s of None \<Rightarrow> deflateInit z | Some s \<Rightarrow> s)"

definition decompressor :: "('d, 'i) zlib \<Rightarrow> 'i unpacker \<Rightarrow> 'i" where
  "decompressor z u = (case decompStream u of None \<Rightarrow> inflateInit z | Some s \<Rightarrow> s)"

lemma sint_of_nat: "n < 2 ^ 31 \<Longrightarrow> sint (word_of_nat n :: uint32_t) = int n"
proof -
  assume n: "n < 2 ^ 31"
  have "unat (word_of_nat n :: uint32_t) = n" using n by (simp add: unat_of_nat take_bit_nat_eq_self_iff)
  then have "uint (word_of_nat n :: uint32_t) = int n" by (metis uint_nat)
  moreover have "int n < 2 ^ 31" using n by (simp only: of_nat_less_numeral_power_cancel_iff)
  ultimately show ?thesis by (simp add: sint_uint signed_take_bit_int_eq_self_iff)
qed

lemma length_wire32: "length (wire32 v) = 4"
  by (simp add: wire32_def)

text \<open>The client reads what was compressed in one go, as it is at the front of its raw buffer afterwards.\<close>

lemma inflate_rect_all:
  assumes "inflates z g" "in_step g d (decompressor z u)" and d': "produced g d' = produced g d @ body"
    "accepted g d' = accepted g d @ data" "plain g (produced g d') = accepted g d'"
    and room: "length data \<le> length (raw_buffer u)" "length body < 2 ^ 31"
  shows "\<exists>u'. inflate_rect z u ((wire32 (word_of_nat (length body)) @ body) @ rest) = Some (data, u', rest) \<and>
    raw_buffer u' = data @ drop (length data) (raw_buffer u) \<and> in_step g d' (decompressor z u')"
proof -
  let ?s = "decompressor z u"
  have e: "produced g d' = eaten g ?s @ body" "plain g (eaten g ?s) = accepted g d" using assms(2) d'(1) by (simp_all add: in_step_def)
  then have p: "plain g (eaten g ?s @ body) = accepted g d @ data" using d'(2,3) by simp
  from inflate_loop_all[OF assms(1), of d' ?s body "[]" "length (accepted g d)" "length (raw_buffer u)" "[]" rest] obtain s' where
    s': "inflate_loop z (length body) Z_OK [] ?s (body @ rest) (length (raw_buffer u)) = Some (Z_OK, data, s', rest)"
    "eaten g s' = eaten g ?s @ body"
    using e p room(1) by auto
  have len: "nat (sint (word_of_nat (length body) :: uint32_t)) = length body" by (simp add: sint_of_nat[OF room(2)])
  let ?u = "u\<lparr>raw_buffer := data @ drop (length data) (raw_buffer u), decompStream := Some s'\<rparr>"
  have "inflate_rect z u ((wire32 (word_of_nat (length body)) @ body) @ rest) = Some (data, ?u, rest)"
    using s'(1) len by (simp add: inflate_rect_def sz_rfbZlibHeader_def length_wire32 flip: decompressor_def)
  moreover have "in_step g d' (decompressor z ?u)" using e d' p s'(2) by (simp add: in_step_def decompressor_def)
  ultimately show ?thesis by (intro exI[of _ ?u]) simp
qed

lemma need_raw_length: "\<forall>n. n \<le> length (fresh n) \<Longrightarrow> need \<le> n \<Longrightarrow> need \<le> length (raw_buffer (need_raw fresh need n u))"
  by (auto simp: need_raw_def min_def intro: order_trans)

lemma need_raw_stream: "decompressor z (need_raw fresh need n u) = decompressor z u"
  by (simp add: need_raw_def decompressor_def)

lemma small_send_open:
  assumes "updateBuf cl = []" "sock_open cl" "length after < 20000"
  shows "sock_open (snd (send_compressed enc x y w h after cl))"
proof -
  let ?hdr = "rect_header x y w h enc @ wire32 (word_of_nat (length after))"
  have hdr: "length ?hdr = 16" by (simp add: rect_header_def wire16_def wire32_def)
  have e: "send_compressed enc x y w h after cl = copy_loop after (put_bytes ?hdr cl)"
    using assms(1) by (simp add: send_compressed_def make_room_def put_bytes_append UPDATE_BUF_SIZE_def sz_rfbFramebufferUpdateRectHeader_def
        sz_rfbZlibHeader_def)
  have len: "length (updateBuf (put_bytes bs (put_bytes ?hdr cl))) = 16 + length bs" for bs using assms(1) hdr by (simp add: put_bytes_def)
  have "copy_loop after (put_bytes ?hdr cl) = (if after = [] then (True, put_bytes ?hdr cl) else (True, put_bytes after (put_bytes ?hdr cl)))"
  proof (cases "after = []")
    case True
    then show ?thesis by (simp add: copy_loop.simps)
  next
    case False
    have l: "length (updateBuf (put_bytes ?hdr cl)) = 16" using len[of "[]"] by (simp add: put_bytes_def)
    have u: "length after < UPDATE_BUF_SIZE - 16" "16 + length after < UPDATE_BUF_SIZE" using assms(3) by (simp_all add: UPDATE_BUF_SIZE_def)
    show ?thesis using False u by (subst copy_loop.simps) (simp add: Let_def l len copy_loop.simps[of "[]"])
  qed
  then show ?thesis using e assms(2) by simp
qed

section \<open>A zlib that only stores\<close>

definition stored_zlib :: "(uint8_t list, uint8_t list) zlib" where
  "stored_zlib = \<lparr>deflate = \<lambda>d flush inp room. (Z_OK, min (length inp) room, take room inp, d @ take room inp),
     inflate = \<lambda>i inp room. (Z_OK, min (length inp) room, take room inp, i @ take room inp),
     deflateInit = [], inflateInit = []\<rparr>"

definition stored_history :: "(uint8_t list, uint8_t list) history" where
  "stored_history = \<lparr>accepted = \<lambda>d. d, produced = \<lambda>d. d, filled = \<lambda>_. True, todo = \<lambda>_ _ inp. length inp,
     eaten = \<lambda>i. i, plain = \<lambda>bs. bs\<rparr>"

lemma stored_deflates: "deflates stored_zlib stored_history"
  by (auto simp: deflates_def stored_zlib_def stored_history_def min_def)

lemma stored_inflates: "inflates stored_zlib stored_history"
  by (auto simp: inflates_def stored_zlib_def stored_history_def)

section \<open>Zlib\<close>

lemma zlib_sends:
  fixes pic :: "nat \<Rightarrow> nat \<Rightarrow> 'a::len word"
  assumes "deflates z g" "VNC_ENCODE_ZLIB_MIN_COMP_SIZE \<le> w * h * bytes" "0 < pixel_size TYPE('a)"
    and d: "deflate z (compressor z s) True (tile_bytes pic x y w h) (ZLIB_MAX_COMP_SIZE (sw * sh * pixel_size TYPE('a))) = (ret, n, out, d')"
    and fits: "length out < ZLIB_MAX_COMP_SIZE (sw * sh * pixel_size TYPE('a))"
  shows "rfbSendOneRectEncodingZlib z pic sw sh bytes x y w h (s, cl) =
      (let (ok, cl) = send_compressed rfbEncodingZlib x y w h out cl in (ok, Some d', cl))"
    and "produced g d' = produced g (compressor z s) @ out" "accepted g d' = accepted g (compressor z s) @ tile_bytes pic x y w h"
    and "plain g (produced g d') = accepted g d'"
proof -
  have "0 < w * h" using assms(2) by (auto simp: VNC_ENCODE_ZLIB_MIN_COMP_SIZE_def intro!: Nat.gr0I)
  then have "0 < length (tile_bytes pic x y w h)" using assms(3) by (simp add: length_tile_bytes)
  then have "tile_bytes pic x y w h \<noteq> []" by auto
  then have laws: "n \<le> length (tile_bytes pic x y w h)" "accepted g d' = accepted g (compressor z s) @ take n (tile_bytes pic x y w h)"
    "produced g d' = produced g (compressor z s) @ out"
    "n = length (tile_bytes pic x y w h)" "plain g (produced g d') = accepted g d'" "ret = Z_OK"
    using assms(1) d fits unfolding deflates_def by (metis gr_zeroI not_less0)+
  then show "produced g d' = produced g (compressor z s) @ out" "accepted g d' = accepted g (compressor z s) @ tile_bytes pic x y w h"
    "plain g (produced g d') = accepted g d'" by simp_all
  show "rfbSendOneRectEncodingZlib z pic sw sh bytes x y w h (s, cl) =
      (let (ok, cl) = send_compressed rfbEncodingZlib x y w h out cl in (ok, Some d', cl))"
    using assms(2) d laws(6) by (simp add: rfbSendOneRectEncodingZlib_def compressor_def Let_def)
qed

text \<open>
  C16: Zlib round trip. When the server compresses a rectangle with the state its earlier rectangles left, and the
  compressed pixels fit in the room the code allows for them, what it sends after the header decodes in the
  client to exactly those pixels, in whatever state the raw buffer was, with the next bytes left unread; compressor
  and decompressor are in step again, so the next rectangle decodes as well.
\<close>

theorem HandleZlib_decodes:
  fixes pic :: "nat \<Rightarrow> nat \<Rightarrow> 'a::len word" and fb :: "'a word list"
  assumes laws: "deflates z g" "inflates z g" "whole_bytes TYPE('a)" "\<forall>n. n \<le> length (fresh n)"
    and step: "in_step g (compressor z s) (decompressor z u)" "VNC_ENCODE_ZLIB_MIN_COMP_SIZE \<le> w * h * bytes"
    and d: "deflate z (compressor z s) True (tile_bytes pic x y w h) (ZLIB_MAX_COMP_SIZE (sw * sh * pixel_size TYPE('a))) = (ret, n, out, d')"
    "length out < ZLIB_MAX_COMP_SIZE (sw * sh * pixel_size TYPE('a))" "length out < 2 ^ 31"
    and geo: "shows_pixels W H fb f" "x + w \<le> W" "y + h \<le> H"
    and sent: "rfbSendOneRectEncodingZlib z pic sw sh bytes x y w h (s, cl) = (ok, s', cl')" "buf_ok cl" "sock_open cl'"
  shows "ok \<and> buf_ok cl' \<and> (\<exists>body. stream cl' = stream cl @ rect_header x y w h rfbEncodingZlib @ body \<and>
    (\<forall>rest. \<exists>fb' u'. HandleZlib z fresh W fb u (body @ rest) x y w h = Some (fb', u', rest) \<and>
       shows_pixels W H fb' (overlay x y w h (\<lambda>px py. pic (x + px) (y + py)) f) \<and> in_step g (compressor z s') (decompressor z u')))"
proof -
  have "0 < pixel_size TYPE('a)" using laws(3) len_gt_0[where 'a = 'a] by (auto simp: pixel_size_def elim!: dvdE simp del: len_gt_0)
  note zs = zlib_sends[OF laws(1) step(2) this d(1,2)]
  have c: "s' = Some d'" "ok = fst (send_compressed rfbEncodingZlib x y w h out cl)" "cl' = snd (send_compressed rfbEncodingZlib x y w h out cl)"
    using sent(1) zs(1)[of cl] by (auto simp: Let_def split: prod.splits)
  have st: "ok" "buf_ok cl'" "stream cl' = stream cl @ compressed_message rfbEncodingZlib x y w h out"
    using delivers_stream[OF delivers_compressed sent(2)] sent(3) c by auto
  let ?need = "w * h * pixel_size TYPE('a)"
  let ?u = "need_raw fresh ?need ?need u"
  have "\<exists>fb' u'. HandleZlib z fresh W fb u ((wire32 (word_of_nat (length out)) @ out) @ rest) x y w h = Some (fb', u', rest) \<and>
       shows_pixels W H fb' (overlay x y w h (\<lambda>px py. pic (x + px) (y + py)) f) \<and> in_step g (compressor z s') (decompressor z u')" for rest
  proof -
    have room: "length (tile_bytes pic x y w h) \<le> length (raw_buffer ?u)" "decompressor z ?u = decompressor z u"
      using need_raw_length[OF laws(4), of ?need ?need u] by (simp_all add: length_tile_bytes need_raw_stream)
    from inflate_rect_all[OF laws(2) _ zs(2-4) room(1) d(3)] step(1) room(2) obtain u' where
      u': "inflate_rect z ?u ((wire32 (word_of_nat (length out)) @ out) @ rest) = Some (tile_bytes pic x y w h, u', rest)"
      "raw_buffer u' = tile_bytes pic x y w h @ drop (length (tile_bytes pic x y w h)) (raw_buffer ?u)" "in_step g d' (decompressor z u')"
      by auto
    have pix: "pixels_of (w * h) (raw_buffer u') = tile pic x y w h" using pixels_of_tile[OF laws(3)] u'(2) by simp
    show ?thesis
      using u'(1,3) CopyRectangle_shows[OF geo, of "tile pic x y w h"] c(1) pix
      by (simp add: HandleZlib_def Let_def compressor_def overlay_tile)
  qed
  then show ?thesis using st unfolding compressed_message_def by blast
qed

theorem HandleZlib_decodes_witness:
  "\<exists>s' cl' body. rfbSendOneRectEncodingZlib stored_zlib (\<lambda>X Y. if X = 0 then 7 else 9 :: uint32_t) 5 1 4 0 0 5 1
      (None, \<lparr>updateBuf = [], sent = [1], writes_left = 3, sock_open = True\<rparr>) = (True, s', cl') \<and>
    stream cl' = [1] @ rect_header 0 0 5 1 rfbEncodingZlib @ body \<and>
    (\<forall>rest. \<exists>fb' u'. HandleZlib stored_zlib (\<lambda>n. replicate n 0) 5 [0, 0, 0, 0, 0 :: uint32_t]
       \<lparr>raw_buffer = [], decompStream = None\<rparr> (body @ rest) 0 0 5 1 = Some (fb', u', rest) \<and> fb' ! 0 = 7 \<and> fb' ! 4 = 9)"
proof -
  let ?cl = "\<lparr>updateBuf = [], sent = [1], writes_left = 3, sock_open = True\<rparr>"
  let ?u = "\<lparr>raw_buffer = [], decompStream = None\<rparr>"
  let ?pic = "\<lambda>X Y. if X = 0 then 7 else 9 :: uint32_t"
  let ?out = "tile_bytes ?pic 0 0 5 1"
  note laws = stored_deflates stored_inflates
  have len: "length ?out = 20" by (simp add: length_tile_bytes pixel_size_def)
  have step: "in_step stored_history (compressor stored_zlib None) (decompressor stored_zlib ?u)"
    using in_step_start[OF laws] by (simp add: compressor_def decompressor_def)
  have min: "VNC_ENCODE_ZLIB_MIN_COMP_SIZE \<le> 5 * 1 * 4" by (simp add: VNC_ENCODE_ZLIB_MIN_COMP_SIZE_def)
  have room: "ZLIB_MAX_COMP_SIZE (5 * 1 * pixel_size TYPE(32)) = 33" by (simp add: ZLIB_MAX_COMP_SIZE_def pixel_size_def)
  have d: "deflate stored_zlib (compressor stored_zlib None) True ?out (ZLIB_MAX_COMP_SIZE (5 * 1 * pixel_size TYPE(32))) = (Z_OK, 20, ?out, ?out)"
    unfolding room using len by (simp add: stored_zlib_def compressor_def)
  have small: "length ?out < ZLIB_MAX_COMP_SIZE (5 * 1 * pixel_size TYPE(32))" "length ?out < 2 ^ 31" unfolding room using len by simp_all
  have s: "shows_pixels 5 1 [0, 0, 0, 0, 0] (\<lambda>_ _. 0 :: uint32_t)" by (auto simp: shows_pixels_def less_Suc_eq numeral_eq_Suc)
  obtain ok cl' where r: "send_compressed rfbEncodingZlib 0 0 5 1 ?out ?cl = (ok, cl')" by fastforce
  have sent: "rfbSendOneRectEncodingZlib stored_zlib ?pic 5 1 4 0 0 5 1 (None, ?cl) = (ok, Some ?out, cl')"
    using zlib_sends(1)[OF laws(1) min _ d small(1)] r by (simp add: pixel_size_def)
  have o: "sock_open cl'" using small_send_open[of ?cl ?out rfbEncodingZlib 0 0 5 1] r len by simp
  have "buf_ok ?cl" by (simp add: buf_ok_def)
  from HandleZlib_decodes[OF laws _ _ step min d small s _ _ sent this o, of "\<lambda>n. replicate n 0"] obtain body where
    b: "ok" "stream cl' = stream ?cl @ rect_header 0 0 5 1 rfbEncodingZlib @ body"
    "\<forall>rest. \<exists>fb' u'. HandleZlib stored_zlib (\<lambda>n. replicate n 0) 5 [0, 0, 0, 0, 0 :: uint32_t] ?u (body @ rest) 0 0 5 1 = Some (fb', u', rest) \<and>
       shows_pixels 5 1 fb' (overlay 0 0 5 1 (\<lambda>px py. ?pic (0 + px) (0 + py)) (\<lambda>_ _. 0)) \<and>
       in_step stored_history (compressor stored_zlib (Some ?out)) (decompressor stored_zlib u')" by auto
  have f: "fb' ! 0 = 7 \<and> fb' ! 4 = 9" if "shows_pixels 5 1 fb' (overlay 0 0 5 1 (\<lambda>px py. ?pic (0 + px) (0 + py)) (\<lambda>_ _. 0))" for fb'
    using that[unfolded shows_pixels_def, THEN conjunct2, rule_format, of 0 0] that[unfolded shows_pixels_def, THEN conjunct2, rule_format, of 4 0]
    by (simp add: overlay_def in_rect_def)
  show ?thesis using sent b f by (intro exI[of _ "Some ?out"] exI[of _ cl'] exI[of _ body]) (auto simp: stream_def, blast)
qed

section \<open>Ultra\<close>

lemma align4_le: "n \<le> align4 n"
  using mod_less_divisor[of 4 n] by (auto simp: align4_def)

text \<open>
  C18: minilzo. Whatever the bytes and whatever its work memory holds, \<open>lzo1x_1_compress\<close> never reads outside its input and
  writes at most a sixteenth and 67 bytes more than that, the size \<open>ultra.c\<close> gives the output buffer; and in
  any buffer the bytes fit in, \<open>lzo1x_decompress\<close>, which checks no bounds, stays inside its buffers, takes all of the
  compressed data and gives back the bytes.
\<close>

theorem lzo1x_decompress_compress:
  "\<exists>out. lzo1x_1_compress src wrkmem = Some (LZO_E_OK, out) \<and> length out \<le> length src + length src div 16 + 64 + 3 \<and>
     lzo1x_decompress out (length src + spare) = Some (LZO_E_OK, src)"
  using lzo1x_roundtrip[of src wrkmem] by auto

text \<open>
  C17: Ultra round trip. Whatever the work memory of the compressor holds, the server never writes outside its
  buffer, and what it sends for a rectangle decodes in the client to exactly those pixels, with the next bytes left unread.
\<close>

theorem HandleUltra_decodes:
  fixes pic :: "nat \<Rightarrow> nat \<Rightarrow> 'a::len word" and fb :: "'a word list"
  assumes laws: "whole_bytes TYPE('a)" "\<forall>n. n \<le> length (fresh n)"
    and size: "0 < w" "0 < h" "2 * (w * h * pixel_size TYPE('a)) + 67 < 2 ^ 31"
    and geo: "shows_pixels W H fb f" "x + w \<le> W" "y + h \<le> H" and cl: "buf_ok cl"
  shows "\<exists>ok cl'. rfbSendOneRectEncodingUltra wrkmem pic x y w h cl = Some (ok, cl') \<and> (sock_open cl' \<longrightarrow> ok \<and> buf_ok cl' \<and>
    (\<exists>body. stream cl' = stream cl @ rect_header x y w h rfbEncodingUltra @ body \<and>
      (\<forall>rest. \<exists>fb' u'. HandleUltra fresh W fb u (body @ rest) x y w h = Some (fb', u', rest) \<and>
         shows_pixels W H fb' (overlay x y w h (\<lambda>px py. pic (x + px) (y + py)) f))))"
proof -
  let ?bs = "tile_bytes pic x y w h"
  let ?need = "w * h * pixel_size TYPE('a)"
  have "0 < pixel_size TYPE('a)" using laws(1) len_gt_0[where 'a = 'a] by (auto simp: pixel_size_def elim!: dvdE simp del: len_gt_0)
  then have need: "0 < ?need" "?need \<noteq> 0" "length ?bs = ?need" using size(1,2) by (simp_all add: length_tile_bytes)
  obtain out where z: "lzo1x_1_compress ?bs wrkmem = Some (LZO_E_OK, out)" "out \<noteq> []"
    "length out \<le> ?need + ?need div 16 + 64 + 3" "\<And>room. ?need \<le> room \<Longrightarrow> lzo1x_decompress out room = Some (LZO_E_OK, ?bs)"
    using lzo1x_roundtrip[of ?bs wrkmem] unfolding need(3) by blast
  let ?r = "send_compressed rfbEncodingUltra x y w h out cl"
  have "rfbSendOneRectEncodingUltra wrkmem pic x y w h cl = Some ?r"
    using z(1,3) by (simp add: rfbSendOneRectEncodingUltra_def Let_def)
  moreover have "fst ?r \<and> buf_ok (snd ?r) \<and> stream (snd ?r) = stream cl @ compressed_message rfbEncodingUltra x y w h out" if "sock_open (snd ?r)"
    using delivers_stream[OF delivers_compressed cl that] .
  moreover have "\<exists>fb' u'. HandleUltra fresh W fb u ((wire32 (word_of_nat (length out)) @ out) @ rest) x y w h = Some (fb', u', rest) \<and>
         shows_pixels W H fb' (overlay x y w h (\<lambda>px py. pic (x + px) (y + py)) f)" for rest
  proof -
    let ?u = "need_raw fresh ?need (align4 ?need) u"
    have room: "?need \<le> length (raw_buffer ?u)" by (rule need_raw_length[OF laws(2) align4_le])
    have "length out < 2 ^ 31" using z(3) size(3) by linarith
    note len = sint_of_nat[OF this]
    define u' where "u' = ?u\<lparr>raw_buffer := ?bs @ drop (length ?bs) (raw_buffer ?u)\<rparr>"
    have pix: "pixels_of (w * h) (raw_buffer u') = tile pic x y w h" using pixels_of_tile[OF laws(1)] by (simp add: u'_def)
    have rd: "ReadFromRFBServer sz_rfbZlibHeader ((wire32 (word_of_nat (length out)) @ out) @ rest) = Some (wire32 (word_of_nat (length out)), out @ rest)"
      by (simp add: sz_rfbZlibHeader_def length_wire32)
    have "HandleUltra fresh W fb u ((wire32 (word_of_nat (length out)) @ out) @ rest) x y w h =
        Some (CopyRectangle W fb (tile pic x y w h) x y w h, u', rest)"
      unfolding HandleUltra_def rd using z(2) z(4)[OF room] need len pix
      by (simp add: Let_def u'_def)
    then show ?thesis using CopyRectangle_shows[OF geo, of "tile pic x y w h"] by (simp add: overlay_tile)
  qed
  ultimately show ?thesis unfolding compressed_message_def by (metis prod.collapse append.assoc)
qed

text \<open>A line of twenty pixels of two bytes.\<close>

theorem HandleUltra_decodes_witness:
  "\<exists>cl' body. rfbSendOneRectEncodingUltra (\<lambda>i. int i - 5) (\<lambda>X Y. if X < 9 then 7 else 9 :: uint16_t) 0 0 20 1
      \<lparr>updateBuf = [], sent = [1], writes_left = 3, sock_open = True\<rparr> = Some (True, cl') \<and>
    stream cl' = [1] @ rect_header 0 0 20 1 rfbEncodingUltra @ body \<and>
    (\<forall>rest. \<exists>fb' u'. HandleUltra (\<lambda>n. replicate n 0) 20 (replicate 20 0 :: uint16_t list)
       \<lparr>raw_buffer = [], decompStream = (None :: unit option)\<rparr> (body @ rest) 0 0 20 1 = Some (fb', u', rest) \<and> fb' ! 8 = 7 \<and> fb' ! 19 = 9)"
proof -
  let ?cl = "\<lparr>updateBuf = [], sent = [1], writes_left = 3, sock_open = True\<rparr>"
  let ?u = "\<lparr>raw_buffer = [], decompStream = (None :: unit option)\<rparr>"
  let ?pic = "\<lambda>X Y. if X < 9 then 7 else 9 :: uint16_t"
  let ?wrk = "\<lambda>i. int i - 5"
  have s: "shows_pixels 20 1 (replicate 20 0) (\<lambda>_ _. 0 :: uint16_t)" by (auto simp: shows_pixels_def)
  have "buf_ok ?cl" by (simp add: buf_ok_def)
  from HandleUltra_decodes[OF _ _ _ _ _ s _ _ this, of "\<lambda>n. replicate n 0" 20 1 0 0 ?wrk ?pic ?u] obtain ok cl' where
    r: "rfbSendOneRectEncodingUltra ?wrk ?pic 0 0 20 1 ?cl = Some (ok, cl')" "sock_open cl' \<longrightarrow> ok \<and> buf_ok cl' \<and>
    (\<exists>body. stream cl' = stream ?cl @ rect_header 0 0 20 1 rfbEncodingUltra @ body \<and>
      (\<forall>rest. \<exists>fb' u'. HandleUltra (\<lambda>n. replicate n 0) 20 (replicate 20 0) ?u (body @ rest) 0 0 20 1 = Some (fb', u', rest) \<and>
         shows_pixels 20 1 fb' (overlay 0 0 20 1 (\<lambda>px py. ?pic (0 + px) (0 + py)) (\<lambda>_ _. 0))))"
    by (auto simp: pixel_size_def)
  have len: "length (tile_bytes ?pic 0 0 20 1) = 40" by (simp add: length_tile_bytes pixel_size_def)
  obtain out where out: "lzo1x_1_compress (tile_bytes ?pic 0 0 20 1) ?wrk = Some (LZO_E_OK, out)" "length out \<le> 109"
    using lzo1x_roundtrip[of "tile_bytes ?pic 0 0 20 1" ?wrk] unfolding len by auto
  have "rfbSendOneRectEncodingUltra ?wrk ?pic 0 0 20 1 ?cl = Some (send_compressed rfbEncodingUltra 0 0 20 1 out ?cl)"
    using out by (simp add: rfbSendOneRectEncodingUltra_def pixel_size_def)
  then have "sock_open cl'" using small_send_open[of ?cl out rfbEncodingUltra 0 0 20 1] r(1) out(2) by simp
  then obtain body where b: "ok" "stream cl' = stream ?cl @ rect_header 0 0 20 1 rfbEncodingUltra @ body"
    "\<forall>rest. \<exists>fb' u'. HandleUltra (\<lambda>n. replicate n 0) 20 (replicate 20 0) ?u (body @ rest) 0 0 20 1 = Some (fb', u', rest) \<and>
         shows_pixels 20 1 fb' (overlay 0 0 20 1 (\<lambda>px py. ?pic (0 + px) (0 + py)) (\<lambda>_ _. 0))" using r(2) by blast
  have f: "fb' ! 8 = 7 \<and> fb' ! 19 = 9" if "shows_pixels 20 1 fb' (overlay 0 0 20 1 (\<lambda>px py. ?pic (0 + px) (0 + py)) (\<lambda>_ _. 0))" for fb'
    using that[unfolded shows_pixels_def, THEN conjunct2, rule_format, of 8 0] that[unfolded shows_pixels_def, THEN conjunct2, rule_format, of 19 0]
    by (simp add: overlay_def in_rect_def)
  show ?thesis using r(1) b f by (intro exI[of _ cl'] exI[of _ body]) (auto simp: stream_def, blast)
qed

end
