(* ===== verification/ZrleRect.thy ===== *)
theory ZrleRect
  imports DeflateRoundtrip
begin

text \<open>
  Rectangles in the ZRLE encoding: \<open>libvncserver/zrle.c\<close> with the loop over the tiles of
  \<open>zrleencodetemplate.c\<close>, and \<open>HandleZRLE\<close> of \<open>libvncclient/zrle.c\<close> with the choice of its variant in
  \<open>libvncclient/rfbproto.c\<close>.
\<close>

section \<open>The server\<close>

definition rfbZRLETileWidth :: nat where "rfbZRLETileWidth = 64"
definition rfbZRLETileHeight :: nat where "rfbZRLETileHeight = 64"

text \<open>Where the tiles of a line start and how long they are, from \<open>t\<close> to \<open>e\<close>.\<close>

function zrle_steps :: "nat \<Rightarrow> nat \<Rightarrow> nat \<Rightarrow> (nat \<times> nat) list" where
  "zrle_steps n t e = (if t < e \<and> 0 < n then (t, if e - t < n then e - t else n) # zrle_steps n (t + n) e else [])"
  by pat_completeness auto
termination
  by (relation "measure (\<lambda>(n, t, e). e - t)") auto

declare zrle_steps.simps [simp del]

definition zrle_tiles :: "nat \<Rightarrow> nat \<Rightarrow> nat \<Rightarrow> nat \<Rightarrow> (nat \<times> nat \<times> nat \<times> nat) list" where
  "zrle_tiles x y w h =
     concat (map (\<lambda>(ty, th). map (\<lambda>(tx, tw). (tx, ty, tw, th)) (zrle_steps rfbZRLETileWidth x (x + w)))
       (zrle_steps rfbZRLETileHeight y (y + h)))"

fun write_tiles ::
    "('d, 'i) zlib \<Rightarrow> ('a::len word list \<Rightarrow> nat \<Rightarrow> nat \<Rightarrow> nat \<Rightarrow> 'a word list) \<Rightarrow> cpixel \<Rightarrow> nat \<Rightarrow> (nat \<Rightarrow> nat \<Rightarrow> 'a word) \<Rightarrow>
     (nat \<times> nat \<times> nat \<times> nat) list \<Rightarrow> 'd zrleOutStream \<Rightarrow> 'd zrleOutStream option" where
  "write_tiles z analyze c level fb [] os = Some os"
| "write_tiles z analyze c level fb ((x, y, w, h) # ts) os =
     (case ZRLE_ENCODE_TILE analyze c (tile fb x y w h) w h level of
        None \<Rightarrow> None
      | Some ws \<Rightarrow> (case write_all z ws os of None \<Rightarrow> None | Some os \<Rightarrow> write_tiles z analyze c level fb ts os))"

text \<open>The result of the flush is not looked at.\<close>

definition ZRLE_ENCODE ::
    "('d, 'i) zlib \<Rightarrow> ('a::len word list \<Rightarrow> nat \<Rightarrow> nat \<Rightarrow> nat \<Rightarrow> 'a word list) \<Rightarrow> cpixel \<Rightarrow> nat \<Rightarrow> (nat \<Rightarrow> nat \<Rightarrow> 'a word) \<Rightarrow>
     nat \<Rightarrow> nat \<Rightarrow> nat \<Rightarrow> nat \<Rightarrow> 'd zrleOutStream \<Rightarrow> 'd zrleOutStream option" where
  "ZRLE_ENCODE z analyze c level fb x y w h os =
     (case write_tiles z analyze c level fb (zrle_tiles x y w h) os of
        None \<Rightarrow> None
      | Some os \<Rightarrow> map_option snd (zrleOutStreamFlush z os))"

text \<open>\<open>max << shift\<close> of type \<open>int\<close>, as it wraps around for shifts below 32.\<close>

definition shifted_max :: "uint16_t \<Rightarrow> uint8_t \<Rightarrow> int" where
  "shifted_max m s = sint (push_bit (unat s) (ucast m :: 32 word))"

definition server_cpixel :: "'a::len itself \<Rightarrow> rfbPixelFormat \<Rightarrow> cpixel" where
  "server_cpixel T fmt =
     (let fitsInLS3Bytes = shifted_max (redMax fmt) (redShift fmt) < 2 ^ 24 \<and> shifted_max (greenMax fmt) (greenShift fmt) < 2 ^ 24 \<and>
            shifted_max (blueMax fmt) (blueShift fmt) < 2 ^ 24;
          fitsInMS3Bytes = 7 < redShift fmt \<and> 7 < greenShift fmt \<and> 7 < blueShift fmt
      in if LENGTH('a) \<noteq> 32 then Whole
         else if (fitsInLS3Bytes \<and> \<not> bigEndian fmt) \<or> (fitsInMS3Bytes \<and> bigEndian fmt) then Low24
         else if (fitsInLS3Bytes \<and> bigEndian fmt) \<or> (fitsInMS3Bytes \<and> \<not> bigEndian fmt) then High24
         else Whole)"

text \<open>\<open>enc\<close> is \<open>cl->preferredEncoding\<close>, \<open>quality\<close> the tight quality level.\<close>

definition zywrleLevel :: "uint32_t \<Rightarrow> int \<Rightarrow> nat" where
  "zywrleLevel enc quality =
     (if enc = rfbEncodingZYWRLE
      then (if quality < 0 then 1 else if quality < 3 then 3 else if quality < 6 then 2 else 1)
      else 0)"

text \<open>\<open>zrleData\<close> is made at the first use. The pixel type stands for \<open>cl->format.bitsPerPixel\<close>.\<close>

definition rfbSendRectEncodingZRLE ::
    "('d, 'i) zlib \<Rightarrow> ('a::len word list \<Rightarrow> nat \<Rightarrow> nat \<Rightarrow> nat \<Rightarrow> 'a word list) \<Rightarrow> (nat \<Rightarrow> nat \<Rightarrow> 'a word) \<Rightarrow> rfbPixelFormat \<Rightarrow>
     uint32_t \<Rightarrow> int \<Rightarrow> nat \<Rightarrow> nat \<Rightarrow> nat \<Rightarrow> nat \<Rightarrow> 'd zrleOutStream option \<times> update_state \<Rightarrow>
     (bool \<times> 'd zrleOutStream option \<times> update_state) option" where
  "rfbSendRectEncodingZRLE z analyze fb fmt enc quality x y w h st =
     (let (zrleData, cl) = st;
          level = zywrleLevel enc quality;
          zos = (case zrleData of None \<Rightarrow> zrleOutStreamNew z | Some zos \<Rightarrow> zos);
          zos = zos\<lparr>zs_in := [], zs_out := []\<rparr>
      in case ZRLE_ENCODE z analyze (server_cpixel TYPE('a) fmt) level fb x y w h zos of
           None \<Rightarrow> None
         | Some zos \<Rightarrow>
            (let (ok, cl) = send_compressed enc x y w h (zs_out zos) cl in Some (ok, Some zos, cl)))"

section \<open>The client\<close>

text \<open>The level ZYWRLE is undone with; the flag in bit 7 is set while a transformed tile is read.\<close>

definition client_level :: "nat \<Rightarrow> nat" where
  "client_level quality = (if bit quality 7 then 0 else unat (word_of_int (3 - int (quality div 3)) :: uint8_t))"

text \<open>An error in a tile ends the loop, but not with \<open>FALSE\<close>.\<close>

fun draw_tiles ::
    "('a::len word list \<Rightarrow> nat \<Rightarrow> nat \<Rightarrow> nat \<Rightarrow> nat \<Rightarrow> nat \<Rightarrow> 'a word list) \<Rightarrow> nat \<Rightarrow> zrle_variant \<Rightarrow> nat \<Rightarrow> uint8_t list \<Rightarrow> nat \<Rightarrow>
     nat \<Rightarrow> (nat \<times> nat \<times> nat \<times> nat) list \<Rightarrow> 'a word list \<Rightarrow> 'a word list option" where
  "draw_tiles synthesize level v width mem e p [] fb = Some fb"
| "draw_tiles synthesize level v width mem e p ((x, y, w, h) # ts) fb =
     (case HandleZRLETile synthesize level v width fb mem p e x y w h of
        None \<Rightarrow> None
      | Some (fb, Inl err) \<Rightarrow> Some fb
      | Some (fb, Inr q) \<Rightarrow> draw_tiles synthesize level v width mem e q ts fb)"

definition HandleZRLE ::
    "('d, 'i) zlib \<Rightarrow> ('a::len word list \<Rightarrow> nat \<Rightarrow> nat \<Rightarrow> nat \<Rightarrow> nat \<Rightarrow> nat \<Rightarrow> 'a word list) \<Rightarrow> nat \<Rightarrow> (nat \<Rightarrow> uint8_t list) \<Rightarrow>
     zrle_variant \<Rightarrow> nat \<Rightarrow> 'a word list \<Rightarrow> 'i unpacker \<Rightarrow> uint8_t list \<Rightarrow> nat \<Rightarrow> nat \<Rightarrow> nat \<Rightarrow> nat \<Rightarrow>
     ('a word list \<times> 'i unpacker \<times> uint8_t list) option" where
  "HandleZRLE z synthesize quality fresh v width fb u inp rx ry rw rh =
     (let min_buffer_size = rw * rh * real_bytes v * 2; u = need_raw fresh min_buffer_size min_buffer_size u
      in case inflate_rect z u inp of
           None \<Rightarrow> None
         | Some (out, u, inp) \<Rightarrow>
             map_option (\<lambda>fb. (fb, u, inp))
               (draw_tiles synthesize (client_level quality) v width (raw_buffer u) (length out) 0
                  (map (\<lambda>(i, j, subWidth, subHeight). (rx + i, ry + j, subWidth, subHeight)) (zrle_tiles 0 0 rw rh)) fb))"

text \<open>\<open>si\<close> is the format the server proposed, \<open>fmt\<close> the one that was asked for.\<close>

definition client_variant :: "rfbPixelFormat \<Rightarrow> rfbPixelFormat \<Rightarrow> zrle_variant option" where
  "client_variant si fmt =
     (if bitsPerPixel fmt = 8 then Some \<lparr>realbpp = 8, uncomp = AsIs\<rparr>
      else if bitsPerPixel fmt = 16 then Some \<lparr>realbpp = (if 31 < greenMax si then 16 else 15), uncomp = AsIs\<rparr>
      else if bitsPerPixel fmt = 32
      then (let maxColor = push_bit (unat (redShift fmt)) (ucast (redMax fmt)) OR push_bit (unat (greenShift fmt)) (ucast (greenMax fmt)) OR
                  push_bit (unat (blueShift fmt)) (ucast (blueMax fmt) :: uint32_t)
            in if (bigEndian fmt \<and> maxColor AND 0xff = 0) \<or> (\<not> bigEndian fmt \<and> maxColor AND 0xff000000 = 0)
               then Some \<lparr>realbpp = 24, uncomp = AsIs\<rparr>
               else if \<not> bigEndian fmt \<and> maxColor AND 0xff = 0 then Some \<lparr>realbpp = 24, uncomp = Up\<rparr>
               else if bigEndian fmt \<and> maxColor AND 0xff000000 = 0 then Some \<lparr>realbpp = 24, uncomp = Down\<rparr>
               else Some \<lparr>realbpp = 32, uncomp = AsIs\<rparr>)
      else None)"

text \<open>The cases of ZRLE and ZYWRLE: the quality level, the frame buffer, and the rest of the client.\<close>

definition handle_ZRLE ::
    "('d, 'i) zlib \<Rightarrow> ('a::len word list \<Rightarrow> nat \<Rightarrow> nat \<Rightarrow> nat \<Rightarrow> nat \<Rightarrow> nat \<Rightarrow> 'a word list) \<Rightarrow> (nat \<Rightarrow> uint8_t list) \<Rightarrow>
     rfbPixelFormat \<Rightarrow> rfbPixelFormat \<Rightarrow> nat \<Rightarrow> uint32_t \<Rightarrow> nat \<Rightarrow> 'a word list \<Rightarrow> 'i unpacker \<Rightarrow> uint8_t list \<Rightarrow>
     nat \<Rightarrow> nat \<Rightarrow> nat \<Rightarrow> nat \<Rightarrow> (nat \<times> 'a word list \<times> 'i unpacker \<times> uint8_t list) option" where
  "handle_ZRLE z synthesize fresh si fmt quality enc width fb u inp rx ry rw rh =
     (let quality = (if enc = rfbEncodingZRLE then 9 else quality)
      in map_option (Pair quality)
           (case client_variant si fmt of
              None \<Rightarrow> Some (fb, u, inp)
            | Some v \<Rightarrow> HandleZRLE z synthesize quality fresh v width fb u inp rx ry rw rh))"

end
