(* ===== verification/ZrleFormats.thy ===== *)
theory ZrleFormats
  imports ZrleRect TranslateCorrect
begin

text \<open>
  Which bytes of a pixel the server leaves out, and which variant of the decoder the client takes: for the
  usual formats they agree, and no bit of a colour is lost.
\<close>

section \<open>The usual formats\<close>

text \<open>The three channels of a format.\<close>

definition channels :: "rfbPixelFormat \<Rightarrow> (uint16_t \<times> uint8_t) set" where
  "channels fmt = {(redMax fmt, redShift fmt), (greenMax fmt, greenShift fmt), (blueMax fmt, blueShift fmt)}"

text \<open>
  8 bits; 16 bits where the server has more than five bits of green; 32 bits in the byte order of the hosts,
  with channels that start with a set bit and stay clear of the sign.
\<close>

definition zrle_format :: "'a::len itself \<Rightarrow> rfbPixelFormat \<Rightarrow> rfbPixelFormat \<Rightarrow> bool" where
  "zrle_format T si fmt \<longleftrightarrow> unat (bitsPerPixel fmt) = LENGTH('a) \<and>
     (LENGTH('a) = 8 \<or> LENGTH('a) = 16 \<and> 31 < greenMax si \<or>
      LENGTH('a) = 32 \<and> \<not> bigEndian fmt \<and> (\<forall>(m, s)\<in>channels fmt. odd (unat m) \<and> unat m * 2 ^ unat s < 2 ^ 31))"

lemma shift_small:
  assumes "odd (unat (m :: uint16_t))" "unat m * 2 ^ unat (s :: uint8_t) < 2 ^ 31"
  shows "unat s < 31" "unat (push_bit (unat s) (ucast m) :: 32 word) = unat m * 2 ^ unat s" "shifted_max m s = int (unat m * 2 ^ unat s)"
proof -
  have "1 \<le> unat m" using assms(1) by (metis dvd_0_right not_less_eq_eq One_nat_def le0 le_antisym not_less0 less_one linorder_not_le)
  then have "2 ^ unat s \<le> unat m * 2 ^ unat s" by simp
  then have "2 ^ unat s < (2 :: nat) ^ 31" using assms(2) by linarith
  then show "unat s < 31" by (rule power_less_imp_less_exp[rotated]) simp
  have "take_bit 32 (unat m * 2 ^ unat s) = unat m * 2 ^ unat s" by (intro take_bit_nat_eq_self less_trans[OF assms(2)]) simp
  then show u: "unat (push_bit (unat s) (ucast m) :: 32 word) = unat m * 2 ^ unat s"
    by (simp add: unsigned_push_bit_eq unsigned_ucast_eq take_bit_push_bit flip: push_bit_eq_mult)
  then have "uint (push_bit (unat s) (ucast m) :: 32 word) = int (unat m * 2 ^ unat s)" by (metis uint_nat)
  moreover have "int (unat m * 2 ^ unat s) < 2 ^ 31" using assms(2) by (simp only: of_nat_less_numeral_power_cancel_iff)
  ultimately show "shifted_max m s = int (unat m * 2 ^ unat s)"
    by (simp add: shifted_max_def sint_uint signed_take_bit_int_eq_self_iff del: of_nat_mult of_nat_power)
qed

section \<open>Which bytes\<close>

lemma high_byte_clear: "w AND 0xff000000 = 0 \<longleftrightarrow> unat (w :: 32 word) < 2 ^ 24"
proof -
  have m: "(0xff000000 :: 32 word) = NOT (mask 24)" by (simp add: mask_eq_exp_minus_1)
  have "w AND NOT (mask 24) = 0 \<longleftrightarrow> take_bit 24 w = w"
  proof
    assume z: "w AND NOT (mask 24) = 0"
    have "\<not> bit w n" if "24 \<le> n" "n < 32" for n
    proof -
      have "\<not> bit (w AND NOT (mask 24)) n" by (simp only: z bit_0_eq bot_apply bot_bool_def simp_thms)
      then show ?thesis using that by (simp add: bit_and_iff bit_not_iff bit_mask_iff)
    qed
    then show "take_bit 24 w = w" by (intro bit_word_eqI) (simp add: bit_take_bit_iff, metis not_less)
  next
    assume t: "take_bit 24 w = w"
    have "bit w n \<Longrightarrow> n < 24" for n by (metis t bit_take_bit_iff)
    then show "w AND NOT (mask 24) = 0" by (intro bit_word_eqI) (auto simp: bit_and_iff bit_not_iff bit_mask_iff)
  qed
  also have "\<dots> \<longleftrightarrow> unat w < 2 ^ 24"
    by (metis take_bit_nat_eq_self_iff unsigned_take_bit_eq word_unat_eq_iff)
  finally show ?thesis unfolding m .
qed

lemma low_byte_clear:
  assumes "odd (unat (m :: uint16_t))" "unat (s :: uint8_t) < 31"
  shows "(push_bit (unat s) (ucast m) :: 32 word) AND 0xff = 0 \<longleftrightarrow> 7 < s"
proof -
  have ff: "(0xff :: 32 word) = mask 8" by (simp add: mask_eq_exp_minus_1)
  have s: "7 < s \<longleftrightarrow> 8 \<le> unat s" by (auto simp: word_less_nat_alt)
  show ?thesis
  proof
    assume z: "(push_bit (unat s) (ucast m) :: 32 word) AND 0xff = 0"
    have "bit (push_bit (unat s) (ucast m) :: 32 word) (unat s)"
      using assms(1)[folded bit_0] assms(2) by (simp add: bit_push_bit_iff bit_unsigned_iff)
    moreover have "\<not> bit (push_bit (unat s) (ucast m) AND mask 8 :: 32 word) (unat s)" using z by (simp add: ff)
    ultimately show "7 < s" by (auto simp: s bit_and_iff bit_mask_iff)
  next
    assume "7 < s"
    then show "(push_bit (unat s) (ucast m) :: 32 word) AND 0xff = 0"
      unfolding ff by (intro bit_word_eqI) (auto simp: s bit_and_iff bit_mask_iff bit_push_bit_iff)
  qed
qed

lemma variant_agrees:
  assumes "zrle_format TYPE('a::len) si fmt"
  shows "\<exists>v. client_variant si fmt = Some v \<and> decodes_with TYPE('a) (server_cpixel TYPE('a) fmt) v"
proof -
  have b: "unat (bitsPerPixel fmt) = LENGTH('a)" using assms by (simp add: zrle_format_def)
  have bits: "bitsPerPixel fmt = n \<longleftrightarrow> unat (bitsPerPixel fmt) = unat n" for n by (simp add: word_unat_eq_iff)
  consider "LENGTH('a) = 8" | "LENGTH('a) = 16" "31 < greenMax si"
    | "LENGTH('a) = 32" "\<not> bigEndian fmt" "\<forall>(m, s)\<in>channels fmt. odd (unat m) \<and> unat m * 2 ^ unat s < 2 ^ 31"
    using assms by (auto simp: zrle_format_def)
  then show ?thesis
  proof cases
    case 1
    then show ?thesis using b by (simp add: client_variant_def server_cpixel_def decodes_with_def bits)
  next
    case 2
    then show ?thesis using b by (simp add: client_variant_def server_cpixel_def decodes_with_def bits)
  next
    case 3
    have c: "odd (unat (redMax fmt))" "unat (redMax fmt) * 2 ^ unat (redShift fmt) < 2 ^ 31"
      "odd (unat (greenMax fmt))" "unat (greenMax fmt) * 2 ^ unat (greenShift fmt) < 2 ^ 31"
      "odd (unat (blueMax fmt))" "unat (blueMax fmt) * 2 ^ unat (blueShift fmt) < 2 ^ 31"
      using 3(3) by (simp_all add: channels_def)
    let ?r = "push_bit (unat (redShift fmt)) (ucast (redMax fmt)) :: 32 word"
    let ?g = "push_bit (unat (greenShift fmt)) (ucast (greenMax fmt)) :: 32 word"
    let ?b = "push_bit (unat (blueShift fmt)) (ucast (blueMax fmt)) :: 32 word"
    have r: "unat ?r = unat (redMax fmt) * 2 ^ unat (redShift fmt)" "shifted_max (redMax fmt) (redShift fmt) = int (unat ?r)" "unat (redShift fmt) < 31"
      and g: "unat ?g = unat (greenMax fmt) * 2 ^ unat (greenShift fmt)" "shifted_max (greenMax fmt) (greenShift fmt) = int (unat ?g)" "unat (greenShift fmt) < 31"
      and bl: "unat ?b = unat (blueMax fmt) * 2 ^ unat (blueShift fmt)" "shifted_max (blueMax fmt) (blueShift fmt) = int (unat ?b)" "unat (blueShift fmt) < 31"
      using shift_small[OF c(1,2)] shift_small[OF c(3,4)] shift_small[OF c(5,6)] by simp_all
    have split: "(?r OR ?g OR ?b) AND k = 0 \<longleftrightarrow> ?r AND k = 0 \<and> ?g AND k = 0 \<and> ?b AND k = 0" for k
      by (simp add: bit.conj_disj_distrib2 or_eq_0_iff)
    have hi: "(?r OR ?g OR ?b) AND 0xff000000 = 0 \<longleftrightarrow> shifted_max (redMax fmt) (redShift fmt) < 2 ^ 24 \<and>
        shifted_max (greenMax fmt) (greenShift fmt) < 2 ^ 24 \<and> shifted_max (blueMax fmt) (blueShift fmt) < 2 ^ 24"
      unfolding split unfolding high_byte_clear r(2) g(2) bl(2) by (simp only: of_nat_less_numeral_power_cancel_iff)
    have lo: "(?r OR ?g OR ?b) AND 0xff = 0 \<longleftrightarrow> 7 < redShift fmt \<and> 7 < greenShift fmt \<and> 7 < blueShift fmt"
      unfolding split unfolding low_byte_clear[OF c(1) r(3)] low_byte_clear[OF c(3) g(3)] low_byte_clear[OF c(5) bl(3)] by (rule refl)
    have v: "client_variant si fmt = Some (if (?r OR ?g OR ?b) AND 0xff000000 = 0 then \<lparr>realbpp = 24, uncomp = AsIs\<rparr>
        else if (?r OR ?g OR ?b) AND 0xff = 0 then \<lparr>realbpp = 24, uncomp = Up\<rparr> else \<lparr>realbpp = 32, uncomp = AsIs\<rparr>)"
      using b 3(1,2) by (simp add: client_variant_def bits Let_def)
    have s: "server_cpixel TYPE('a) fmt = (if (?r OR ?g OR ?b) AND 0xff000000 = 0 then Low24
        else if (?r OR ?g OR ?b) AND 0xff = 0 then High24 else Whole)"
      unfolding hi lo using 3(1,2) by (simp add: server_cpixel_def Let_def)
    show ?thesis unfolding v s using 3(1) by (simp add: decodes_with_def)
  qed
qed

section \<open>No colour is lost\<close>

definition same_colour :: "rfbPixelFormat \<Rightarrow> 'a::len word \<Rightarrow> 'a word \<Rightarrow> bool" where
  "same_colour fmt p q \<longleftrightarrow> red fmt (client_value fmt q) = red fmt (client_value fmt p) \<and>
     green fmt (client_value fmt q) = green fmt (client_value fmt p) \<and> blue fmt (client_value fmt q) = blue fmt (client_value fmt p)"

lemma component_low:
  assumes "unat m * 2 ^ unat s < (2 :: nat) ^ k" "take_bit k (v :: nat) = take_bit k v'"
  shows "component s m v = component s m v'"
proof (rule bit_eqI)
  fix n
  show "bit (component s m v) n = bit (component s m v') n"
  proof (cases "bit (unat m) n")
    case True
    then have "2 ^ n \<le> unat m" by (metis bit_nat_iff drop_bit_eq_div div_less even_zero linorder_not_le bit_iff_odd)
    then have "2 ^ (unat s + n) \<le> unat m * 2 ^ unat s" by (simp add: power_add mult.commute)
    then have "2 ^ (unat s + n) < (2 :: nat) ^ k" using assms(1) by linarith
    then have "unat s + n < k" by (rule power_less_imp_less_exp[rotated]) simp
    then have "bit v (unat s + n) = bit v' (unat s + n)" using assms(2) by (metis bit_take_bit_iff)
    then show ?thesis by (simp add: component_def bit_and_iff bit_drop_bit_eq)
  qed (simp add: component_def bit_and_iff)
qed

lemma component_high:
  assumes "7 < s" "drop_bit 8 (v :: nat) = drop_bit 8 v'"
  shows "component s m v = component s m v'"
proof -
  have "unat s = 8 + (unat s - 8)" using assms(1) by (simp add: word_less_nat_alt)
  then have "drop_bit (unat s) v = drop_bit (unat s - 8) (drop_bit 8 v)" "drop_bit (unat s) v' = drop_bit (unat s - 8) (drop_bit 8 v')"
    by (metis drop_bit_drop_bit add.commute)+
  then show ?thesis using assms(2) by (simp add: component_def)
qed

lemma sent_same_colour:
  fixes p :: "'a::len word"
  assumes "zrle_format TYPE('a) si fmt" "same_sent (server_cpixel TYPE('a) fmt) p q"
  shows "same_colour fmt p q"
proof (cases "server_cpixel TYPE('a) fmt")
  case Whole
  then show ?thesis using assms(2) by (simp add: same_sent_def same_colour_def)
next
  case Low24
  then have l: "LENGTH('a) = 32" by (auto simp: server_cpixel_def Let_def split: if_splits)
  then have f: "\<not> bigEndian fmt" "\<forall>(m, s)\<in>channels fmt. odd (unat m) \<and> unat m * 2 ^ unat s < 2 ^ 31" using assms(1) by (auto simp: zrle_format_def)
  have c: "odd (unat (redMax fmt))" "unat (redMax fmt) * 2 ^ unat (redShift fmt) < 2 ^ 31"
    "odd (unat (greenMax fmt))" "unat (greenMax fmt) * 2 ^ unat (greenShift fmt) < 2 ^ 31"
    "odd (unat (blueMax fmt))" "unat (blueMax fmt) * 2 ^ unat (blueShift fmt) < 2 ^ 31"
    using f(2) by (simp_all add: channels_def)
  have "shifted_max (redMax fmt) (redShift fmt) < 2 ^ 24" "shifted_max (greenMax fmt) (greenShift fmt) < 2 ^ 24" "shifted_max (blueMax fmt) (blueShift fmt) < 2 ^ 24"
    using Low24 f(1) l by (auto simp: server_cpixel_def Let_def split: if_splits)
  then have small: "unat (redMax fmt) * 2 ^ unat (redShift fmt) < 2 ^ 24" "unat (greenMax fmt) * 2 ^ unat (greenShift fmt) < 2 ^ 24"
    "unat (blueMax fmt) * 2 ^ unat (blueShift fmt) < 2 ^ 24"
    unfolding shift_small(3)[OF c(1,2)] shift_small(3)[OF c(3,4)] shift_small(3)[OF c(5,6)] by (simp_all only: of_nat_less_numeral_power_cancel_iff)
  have v: "client_value fmt p' = unat p'" for p' :: "'a word" using f(1) l by (simp add: client_value_def)
  have "take_bit 24 (unat q) = take_bit 24 (unat p)" using assms(2) Low24 by (simp add: same_sent_def flip: unsigned_take_bit_eq)
  from component_low[OF small(1) this] component_low[OF small(2) this] component_low[OF small(3) this] show ?thesis
    by (simp only: same_colour_def v red_def green_def blue_def simp_thms)
next
  case High24
  then have l: "LENGTH('a) = 32" by (auto simp: server_cpixel_def Let_def split: if_splits)
  then have f: "\<not> bigEndian fmt" using assms(1) by (auto simp: zrle_format_def)
  have s: "7 < redShift fmt" "7 < greenShift fmt" "7 < blueShift fmt"
    using High24 f l by (auto simp: server_cpixel_def Let_def split: if_splits)
  have v: "client_value fmt p' = unat p'" for p' :: "'a word" using f l by (simp add: client_value_def)
  have "unat (drop_bit 8 q) = unat (drop_bit 8 p)" using assms(2) High24 by (simp add: same_sent_def)
  then have "drop_bit 8 (unat q) = drop_bit 8 (unat p)" by (simp add: unsigned_drop_bit_eq take_bit_nat_eq_self[OF unsigned_less])
  from component_high[OF s(1) this] component_high[OF s(2) this] component_high[OF s(3) this] show ?thesis
    by (simp only: same_colour_def v red_def green_def blue_def simp_thms)
qed

end
