(* ===== verification/ZrleRectCorrect.thy ===== *)
theory ZrleRectCorrect
  imports ZrleFormats
begin

text \<open>
  ZRLE rectangles from end to end: the tiles cover the rectangle, what is written for them goes through the
  out stream and zlib to the client, fits in its raw buffer and is drawn; the variant the client chooses
  reads what the server sends.
\<close>

section \<open>The tiles of a rectangle\<close>

lemma zrle_steps_spec:
  assumes "0 < n"
  shows "\<forall>(a, k)\<in>set (zrle_steps n t e). t \<le> a \<and> 0 < k \<and> a + k \<le> e" (is ?small)
    and "(\<exists>(a, k)\<in>set (zrle_steps n t e). a \<le> X \<and> X < a + k) \<longleftrightarrow> t \<le> X \<and> X < e" (is ?cover)
    and "(\<Sum>(a, k)\<leftarrow>zrle_steps n t e. k) = e - t" (is ?sum)
proof -
  have "?small \<and> ?cover \<and> ?sum"
    using assms
  proof (induction n t e rule: zrle_steps.induct)
    case (1 n t e)
    show ?case
    proof (cases "t < e")
      case False
      then show ?thesis by (subst (1 2 3) zrle_steps.simps) auto
    next
      case True
      define k where "k = (if e - t < n then e - t else n)"
      have k: "0 < k" "t + k \<le> e" "k < n \<longrightarrow> t + k = e" "k \<le> n" using True "1.prems" by (auto simp: k_def)
      have go: "zrle_steps n t e = (t, k) # zrle_steps n (t + n) e" using True "1.prems" by (subst zrle_steps.simps) (simp add: k_def)
      have ih: "\<forall>(a, k)\<in>set (zrle_steps n (t + n) e). t + n \<le> a \<and> 0 < k \<and> a + k \<le> e"
        "(\<exists>(a, k)\<in>set (zrle_steps n (t + n) e). a \<le> X \<and> X < a + k) \<longleftrightarrow> t + n \<le> X \<and> X < e"
        "(\<Sum>(a, k)\<leftarrow>zrle_steps n (t + n) e. k) = e - (t + n)"
        using "1.IH" True "1.prems" by blast+
      have "(t \<le> X \<and> X < t + k) \<or> (t + n \<le> X \<and> X < e) \<longleftrightarrow> t \<le> X \<and> X < e"
        using k True by (cases "k < n") auto
      then have "(\<exists>(a, k)\<in>set (zrle_steps n t e). a \<le> X \<and> X < a + k) \<longleftrightarrow> t \<le> X \<and> X < e" using ih(2) unfolding go by simp
      moreover have "\<forall>(a, k)\<in>set (zrle_steps n t e). t \<le> a \<and> 0 < k \<and> a + k \<le> e" using ih(1) k(1,2) unfolding go by auto
      moreover have "(\<Sum>(a, k)\<leftarrow>zrle_steps n t e. k) = e - t" using ih(3) k True unfolding go by (cases "k < n") auto
      ultimately show ?thesis by blast
    qed
  qed
  then show ?small ?cover ?sum by blast+
qed

lemma zrle_steps_shift: "zrle_steps n (a + t) (a + e) = map (\<lambda>(i, k). (a + i, k)) (zrle_steps n t e)"
proof (induction n t e rule: zrle_steps.induct)
  case (1 n t e)
  show ?case
  proof (cases "t < e \<and> 0 < n")
    case True
    then show ?thesis using "1.IH"[OF True]
      by (subst (1 2) zrle_steps.simps) (simp add: add.assoc)
  next
    case False
    then show ?thesis by (subst (1 2) zrle_steps.simps) auto
  qed
qed

text \<open>The client counts from the corner of the rectangle, the server from that of the screen.\<close>

lemma zrle_tiles_shift:
  "map (\<lambda>(i, j, w, h). (rx + i, ry + j, w, h)) (zrle_tiles 0 0 rw rh) = zrle_tiles rx ry rw rh"
  using zrle_steps_shift[of rfbZRLETileWidth rx 0 rw] zrle_steps_shift[of rfbZRLETileHeight ry 0 rh]
  by (simp add: zrle_tiles_def map_concat comp_def split_beta)

lemma tile_size_positive: "0 < rfbZRLETileWidth" "0 < rfbZRLETileHeight"
  by (simp_all add: rfbZRLETileWidth_def rfbZRLETileHeight_def)

lemma zrle_tiles_inside:
  "(tx, ty, tw, th) \<in> set (zrle_tiles x y w h) \<Longrightarrow> 0 < tw \<and> 0 < th \<and> tx + tw \<le> x + w \<and> ty + th \<le> y + h"
  using zrle_steps_spec(1)[OF tile_size_positive(1), of x "x + w"] zrle_steps_spec(1)[OF tile_size_positive(2), of y "y + h"]
  by (fastforce simp: zrle_tiles_def)

lemma zrle_tiles_cover:
  "(\<exists>(tx, ty, tw, th)\<in>set (zrle_tiles x y w h). in_rect tx ty tw th X Y) \<longleftrightarrow> in_rect x y w h X Y"
proof -
  have "(\<exists>(tx, ty, tw, th)\<in>set (zrle_tiles x y w h). in_rect tx ty tw th X Y) \<longleftrightarrow>
      (\<exists>(ty, th)\<in>set (zrle_steps rfbZRLETileHeight y (y + h)). \<exists>(tx, tw)\<in>set (zrle_steps rfbZRLETileWidth x (x + w)). in_rect tx ty tw th X Y)"
    by (auto simp: zrle_tiles_def split_beta)
  also have "\<dots> \<longleftrightarrow> (\<exists>(ty, th)\<in>set (zrle_steps rfbZRLETileHeight y (y + h)). ty \<le> Y \<and> Y < ty + th) \<and>
      (\<exists>(tx, tw)\<in>set (zrle_steps rfbZRLETileWidth x (x + w)). tx \<le> X \<and> X < tx + tw)"
    unfolding in_rect_def by (auto simp: split_beta)
  also have "\<dots> \<longleftrightarrow> in_rect x y w h X Y"
    using zrle_steps_spec(2)[OF tile_size_positive(1), of x "x + w" X] zrle_steps_spec(2)[OF tile_size_positive(2), of y "y + h" Y]
    by (auto simp: in_rect_def)
  finally show ?thesis .
qed

lemma zrle_tiles_area: "(\<Sum>(tx, ty, tw, th)\<leftarrow>zrle_tiles x y w h. tw * th) = w * h"
proof -
  have "(\<Sum>(tx, ty, tw, th)\<leftarrow>concat (map (\<lambda>(ty, th). map (\<lambda>(tx, tw). (tx, ty, tw, th)) xs) ys). tw * th) =
      (\<Sum>(tx, tw)\<leftarrow>xs. tw) * (\<Sum>(ty, th)\<leftarrow>ys. th)" for xs ys :: "(nat \<times> nat) list"
    by (induction ys) (auto simp: comp_def split_beta sum_list_const_mult algebra_simps)
  then show ?thesis
    using zrle_steps_spec(3)[OF tile_size_positive(1), of x "x + w"] zrle_steps_spec(3)[OF tile_size_positive(2), of y "y + h"]
    by (simp add: zrle_tiles_def)
qed

lemma zrle_tiles_some: "0 < w \<Longrightarrow> 0 < h \<Longrightarrow> zrle_tiles x y w h \<noteq> []"
  using zrle_tiles_area[of x y w h] by auto

section \<open>What a tile writes\<close>

definition small_write :: "zwrite \<Rightarrow> bool" where
  "small_write w \<longleftrightarrow> written w \<noteq> [] \<and> (\<forall>bs. w = Opaque bs \<longrightarrow> length bs \<le> 4)"

lemma small_byte [simp]: "small_write (Opaque [b])"
  by (simp add: small_write_def)

lemma small_cpixel:
  fixes p :: "'a::len word"
  assumes "decodes_with TYPE('a) c v" "LENGTH('a) \<le> 32"
  shows "small_write (Opaque (cpixel_bytes c p))"
proof -
  have "cpixel_size c TYPE('a) \<le> 4" using assms(2) by (auto simp: cpixel_size_def pixel_size_def split: cpixel.splits)
  then show ?thesis using length_cpixel_bytes[OF assms(1), of p] pixel_size_positive[OF assms(1)] by (auto simp: small_write_def)
qed

lemma small_run_length: "\<forall>w\<in>set (run_length_writes n). small_write w"
proof (induction n rule: run_length_writes.induct)
  case (1 n)
  then show ?case by (subst run_length_writes.simps) auto
qed

lemma small_rle_writes:
  fixes ds :: "'a::len word list"
  assumes "decodes_with TYPE('a) c v" "LENGTH('a) \<le> 32"
  shows "rle_writes c u ph ds = Some ws \<Longrightarrow> \<forall>w\<in>set ws. small_write w"
proof (induction "length ds" arbitrary: ds ws rule: less_induct)
  case less
  show ?case
  proof (cases ds)
    case Nil
    then show ?thesis using less.prems by simp
  next
    case (Cons pix ps)
    obtain rest n ws1 ws2 where r: "pix # ps = replicate (Suc n) pix @ rest" "length rest \<le> length ps" "ws = ws1 @ ws2" "rle_writes c u ph rest = Some ws2"
      "\<not> u \<Longrightarrow> ws1 = Opaque (cpixel_bytes c pix) # run_length_writes n"
      "u \<Longrightarrow> \<exists>idx. colour_number ph pix = Some idx \<and>
         ws1 = (if Suc n \<le> 2 then replicate (Suc n) (Opaque [idx]) else Opaque [idx OR 128] # run_length_writes n)"
      "rest = dropWhile (\<lambda>q. q = pix) ps" "n = length ps - length rest"
      by (rule rle_writes_first[OF less.prems[unfolded Cons]], rule that) (assumption | simp)+
    have "\<forall>w\<in>set ws2. small_write w" using less.hyps[of rest] r(2,4) Cons by simp
    moreover have "\<forall>w\<in>set ws1. small_write w"
      using r(5,6) small_run_length small_cpixel[OF assms] by (cases u) (auto split: if_splits)
    ultimately show ?thesis using r(3) by auto
  qed
qed

lemma small_pack_row: "pack_row b ph ps nbits byte = Some ws \<Longrightarrow> \<forall>w\<in>set ws. small_write w"
proof (induction b ph ps nbits byte arbitrary: ws rule: pack_row.induct)
  case (2 b ph pix ps nbits byte)
  obtain index where i: "colour_number ph pix = Some index" using "2.prems" by (cases "colour_number ph pix") auto
  show ?case
  proof (cases "8 \<le> nbits + b")
    case True
    then obtain ws' where "pack_row b ph ps 0 (push_bit b byte OR index) = Some ws'" "ws = Opaque [push_bit b byte OR index] # ws'"
      using "2.prems" i by (auto simp: Let_def)
    then show ?thesis using "2.IH"(1)[OF i refl refl True] by simp
  next
    case False
    then have "pack_row b ph ps (nbits + b) (push_bit b byte OR index) = Some ws" using "2.prems" i by (simp add: Let_def)
    then show ?thesis using "2.IH"(2)[OF i refl refl False] by simp
  qed
qed (auto split: if_splits)

lemma small_pack_rows: "pack_rows b ph w h ps = Some ws \<Longrightarrow> \<forall>w\<in>set ws. small_write w"
proof (induction h arbitrary: ps ws)
  case (Suc h)
  then obtain row rest where "pack_row b ph (take w ps) 0 0 = Some row" "pack_rows b ph w h (drop w ps) = Some rest" "ws = row @ rest"
    by (auto split: option.splits)
  then show ?case using small_pack_row[of b ph "take w ps" 0 0 row] Suc.IH[of "drop w ps" rest] by auto
qed simp

lemma small_tile:
  fixes data :: "'a::len word list"
  assumes fits: "decodes_with TYPE('a) c v" "LENGTH('a) \<le> 32" "data \<noteq> []"
    and ws: "ZRLE_ENCODE_TILE analyze c data w h 0 = Some ws"
  shows "\<forall>w\<in>set ws. small_write w" "ws \<noteq> []"
proof -
  obtain ph runs singles where s: "scan_tile data zrlePaletteHelperInit 0 0 = Some (ph, runs, singles)"
    using scanned[OF fits(3,2)] by metis
  have raw: "\<forall>w\<in>set (raw_writes c data). small_write w"
  proof (cases "c = Whole")
    case True
    then have "concat (map pixel_bytes data) \<noteq> []"
      using fits(3) pixel_size_positive[OF fits(1)] by (cases data) (auto simp: cpixel_size_def simp flip: length_greater_0_conv)
    then show ?thesis using True by (simp add: raw_writes_def small_write_def)
  qed (auto simp: raw_writes_def small_cpixel[OF fits(1,2)])
  have "(\<forall>w\<in>set ws. small_write w) \<and> ws \<noteq> []"
  proof (cases "ph_size ph = 1")
    case True
    then show ?thesis using ws s small_cpixel[OF fits(1,2)] by (auto simp: ZRLE_ENCODE_TILE_def encode_tile_def)
  next
    case False
    obtain useRle usePalette where m: "zrle_method (cpixel_size c TYPE('a)) (w * h) 0 runs singles (ph_size ph) = (useRle, usePalette)" by fastforce
    show ?thesis
      using ws unfolding ZRLE_ENCODE_TILE_eq[OF s False m, of analyze] Let_def
      using raw small_cpixel[OF fits(1,2)] small_rle_writes[OF fits(1,2), of usePalette ph data]
        small_pack_rows[of "bitsPerPackedPixel ! (ph_size ph - 1)" ph w h data]
      by (auto split: if_splits)
  qed
  then show "\<forall>w\<in>set ws. small_write w" "ws \<noteq> []" by simp_all
qed

section \<open>Writing and drawing the tiles\<close>

definition tiles_decode ::
    "cpixel \<Rightarrow> zrle_variant \<Rightarrow> (nat \<Rightarrow> nat \<Rightarrow> 'a::len word) \<Rightarrow> (nat \<times> nat \<times> nat \<times> nat) list \<Rightarrow> uint8_t list list \<Rightarrow> bool" where
  "tiles_decode c v pic =
     list_all2 (\<lambda>(x, y, w, h) bs. tile_decodes c v (tile pic x y w h) w h bs \<and>
       length bs + (if c = Whole then 0 else 1) \<le> 2 * (w * h * cpixel_size c TYPE('a)))"

lemma write_tiles_all:
  fixes pic :: "nat \<Rightarrow> nat \<Rightarrow> 'a::len word"
  assumes "deflates z g" "decodes_with TYPE('a) c v" "LENGTH('a) \<le> 32"
  shows "os_ok os \<Longrightarrow> length (zs_in os) \<le> ZRLE_IN_BUFFER_SIZE \<Longrightarrow> \<forall>(x, y, w, h)\<in>set ts. 0 < w \<and> 0 < h \<Longrightarrow>
    \<exists>os' bss. write_tiles z analyze c 0 pic ts os = Some os' \<and> os_adds g os os' (concat bss) \<and> tiles_decode c v pic ts bss \<and>
      (ts \<noteq> [] \<longrightarrow> concat bss \<noteq> [])"
proof (induction ts arbitrary: os)
  case Nil
  then show ?case using os_adds_refl by (auto simp: tiles_decode_def intro!: exI[of _ "[]"])
next
  case (Cons t ts)
  obtain x y w h where t: "t = (x, y, w, h)" by (metis prod_cases4)
  have wh: "0 < w" "0 < h" using Cons.prems(3) by (simp_all add: t)
  let ?data = "tile pic x y w h"
  have len: "length ?data = w * h" by simp
  then have "?data \<noteq> []" using wh by (metis length_0_conv mult_is_0 not_gr_zero)
  from ZRLE_tile[OF assms(2) len wh assms(3), of analyze] obtain ws where
    ws: "ZRLE_ENCODE_TILE analyze c ?data w h 0 = Some ws" "tile_decodes c v ?data w h (all_written ws)" by blast
  note small = small_tile[OF assms(2,3) \<open>?data \<noteq> []\<close> ws(1)]
  have "written w \<noteq> [] \<and> (\<forall>bs. w = Opaque bs \<longrightarrow> length bs \<le> ZRLE_IN_BUFFER_SIZE)" if "w \<in> set ws" for w
    using small(1) that by (fastforce simp: small_write_def ZRLE_IN_BUFFER_SIZE_def)
  then obtain os1 where os1: "write_all z ws os = Some os1" "os_adds g os os1 (all_written ws)"
    using write_all_adds[OF assms(1) Cons.prems(1,2), of ws] by blast
  have bs: "all_written ws \<noteq> []" using small by (cases ws) (auto simp: small_write_def)
  from Cons.IH[of os1] os_adds_ok[OF os1(2)] Cons.prems(3) obtain os2 bss where
    os2: "write_tiles z analyze c 0 pic ts os1 = Some os2" "os_adds g os1 os2 (concat bss)" "tiles_decode c v pic ts bss"
    "ts \<noteq> [] \<longrightarrow> concat bss \<noteq> []" by auto
  have "os_adds g os os2 (all_written ws @ concat bss)"
  proof (cases "ts = []")
    case True
    then have "bss = []" "os2 = os1" using os2(1,3) by (simp_all add: tiles_decode_def)
    then show ?thesis using os1(2) by simp
  next
    case False
    then show ?thesis using os_adds_trans[OF os1(2) os2(2)] os2(4) by blast
  qed
  moreover have "tiles_decode c v pic (t # ts) (all_written ws # bss)"
    using os2(3) ws(2) ZRLE_tile_length[OF assms(2) len wh assms(3) ws(1)] by (simp add: tiles_decode_def t)
  ultimately show ?case using ws(1) os1(1) os2(1) bs
    by (intro exI[of _ os2] exI[of _ "all_written ws # bss"]) (simp add: t)
qed

lemma draw_tiles_all:
  fixes pic :: "nat \<Rightarrow> nat \<Rightarrow> 'a::len word"
  shows "tiles_decode c v pic ts bss \<Longrightarrow> holds mem p (concat bss) \<Longrightarrow> p + length (concat bss) \<le> e \<Longrightarrow>
    slack c mem (p + length (concat bss)) \<Longrightarrow> \<forall>(x, y, w, h)\<in>set ts. x + w \<le> W \<and> y + h \<le> H \<Longrightarrow> shows_pixels W H fb f \<Longrightarrow>
    \<exists>fb' f'. draw_tiles synthesize 0 v W mem e p ts fb = Some fb' \<and> shows_pixels W H fb' f' \<and>
      (\<forall>X Y. if \<exists>(x, y, w, h)\<in>set ts. in_rect x y w h X Y then same_sent c (pic X Y) (f' X Y) else f' X Y = f X Y)"
proof (induction ts arbitrary: bss p fb f)
  case Nil
  then show ?case by (auto simp: tiles_decode_def)
next
  case (Cons t ts)
  obtain x y w h where t: "t = (x, y, w, h)" by (metis prod_cases4)
  obtain bs bss' where b: "bss = bs # bss'" "tile_decodes c v (tile pic x y w h) w h bs" "tiles_decode c v pic ts bss'"
    using Cons.prems(1) by (auto simp: tiles_decode_def t list_all2_Cons1)
  have m: "holds mem p bs" "holds mem (p + length bs) (concat bss')" using Cons.prems(2) by (simp_all add: b(1) holds_append)
  have geo: "x + w \<le> W" "y + h \<le> H" using Cons.prems(5) by (simp_all add: t)
  have "p + length bs \<le> e" using Cons.prems(3) by (simp add: b(1))
  moreover have "slack c mem (p + length bs)" using slack_mono[OF Cons.prems(4)] by (simp add: b(1))
  moreover obtain again where plain_tile: "HandleZRLETile synthesize 0 v W fb mem p e x y w h = decode_tile v W fb mem p e x y w h False again"
    by (simp add: HandleZRLETile_def)
  ultimately obtain pix fb1 where d: "list_all2 (same_sent c) (tile pic x y w h) pix"
    "HandleZRLETile synthesize 0 v W fb mem p e x y w h = Some (fb1, Inr (p + length bs))"
    "shows_pixels W H fb1 (overlay x y w h (\<lambda>px py. pix ! (py * w + px)) f)"
    using b(2) m(1) geo Cons.prems(6) unfolding tile_decodes_def by metis
  define f1 where "f1 = overlay x y w h (\<lambda>px py. pix ! (py * w + px)) f"
  have f1: "if in_rect x y w h X Y then same_sent c (pic X Y) (f1 X Y) else f1 X Y = f X Y" for X Y
  proof (cases "in_rect x y w h X Y")
    case True
    then have r: "X - x < w" "Y - y < h" "x + (X - x) = X" "y + (Y - y) = Y" by (auto simp: in_rect_def)
    have "(Y - y) * w + (X - x) < h * w" using index_less[OF r(1,2)] by (simp add: mult.commute)
    then have "same_sent c (tile pic x y w h ! ((Y - y) * w + (X - x))) (pix ! ((Y - y) * w + (X - x)))"
      by (intro list_all2_nthD[OF d(1)]) (simp add: mult.commute)
    then have "same_sent c (pic X Y) (pix ! ((Y - y) * w + (X - x)))" unfolding nth_tile[OF r(1,2)] r(3,4) .
    then show ?thesis using True by (simp only: f1_def overlay_def if_True)
  qed (simp add: f1_def overlay_def)
  have "p + length bs + length (concat bss') \<le> e" "slack c mem (p + length bs + length (concat bss'))"
    using Cons.prems(3,4) by (simp_all add: b(1) add.assoc)
  from Cons.IH[OF b(3) m(2) this _ d(3)] Cons.prems(5) obtain fb2 f2 where
    r: "draw_tiles synthesize 0 v W mem e (p + length bs) ts fb1 = Some fb2" "shows_pixels W H fb2 f2"
    "\<And>X Y. if \<exists>(x, y, w, h)\<in>set ts. in_rect x y w h X Y then same_sent c (pic X Y) (f2 X Y) else f2 X Y = f1 X Y"
    unfolding f1_def[symmetric] by auto
  have "if \<exists>(x, y, w, h)\<in>set (t # ts). in_rect x y w h X Y then same_sent c (pic X Y) (f2 X Y) else f2 X Y = f X Y" for X Y
    using r(3)[of X Y] f1[of X Y] by (auto simp: t split: if_splits)
  moreover have "draw_tiles synthesize 0 v W mem e p (t # ts) fb = Some fb2"
    using r(1) by (simp add: t d(2))
  ultimately show ?case using r(2) by blast
qed

section \<open>The rectangle\<close>

text \<open>The out stream of a client, and whether it and the client's decompressor are at the same point.\<close>

definition out_stream :: "('d, 'i) zlib \<Rightarrow> 'd zrleOutStream option \<Rightarrow> 'd zrleOutStream" where
  "out_stream z zrleData = (case zrleData of None \<Rightarrow> zrleOutStreamNew z | Some zos \<Rightarrow> zos)"

lemma zrle_sends:
  fixes pic :: "nat \<Rightarrow> nat \<Rightarrow> 'a::len word"
  assumes "deflates z g" "decodes_with TYPE('a) (server_cpixel TYPE('a) fmt) v" "LENGTH('a) \<le> 32"
    and "6 < zs_out_size (out_stream z zd)" "0 < w" "0 < h"
  shows "\<exists>zos bss. tiles_decode (server_cpixel TYPE('a) fmt) v pic (zrle_tiles x y w h) bss \<and> 6 < zs_out_size zos \<and>
    produced g (zs_state zos) = produced g (zs_state (out_stream z zd)) @ zs_out zos \<and>
    accepted g (zs_state zos) = accepted g (zs_state (out_stream z zd)) @ concat bss \<and>
    plain g (produced g (zs_state zos)) = accepted g (zs_state zos) \<and>
    (\<forall>cl. rfbSendRectEncodingZRLE z analyze pic fmt rfbEncodingZRLE quality x y w h (zd, cl) =
       (let (ok, cl) = send_compressed rfbEncodingZRLE x y w h (zs_out zos) cl in Some (ok, Some zos, cl)))"
proof -
  let ?c = "server_cpixel TYPE('a) fmt"
  define os where "os = (out_stream z zd)\<lparr>zs_in := [], zs_out := []\<rparr>"
  have os: "os_ok os" "length (zs_in os) \<le> ZRLE_IN_BUFFER_SIZE" "zs_in os = []" "zs_out os = []" "zs_state os = zs_state (out_stream z zd)"
    using assms(4) by (simp_all add: os_def os_ok_def)
  have ts: "\<forall>(tx, ty, tw, th)\<in>set (zrle_tiles x y w h). 0 < tw \<and> 0 < th" using zrle_tiles_inside by fastforce
  from write_tiles_all[OF assms(1-3) os(1,2) ts, of analyze pic] zrle_tiles_some[OF assms(5,6)] obtain os1 bss where
    w: "write_tiles z analyze ?c 0 pic (zrle_tiles x y w h) os = Some os1" "os_adds g os os1 (concat bss)"
    "tiles_decode ?c v pic (zrle_tiles x y w h) bss" "concat bss \<noteq> []" by blast
  obtain taken where t: "os_step g os os1 taken" "taken @ zs_in os1 = concat bss" "zs_in os1 \<noteq> []"
    using w(2,4) os(3) by (auto simp: os_adds_def)
  have "os_ok os1" using t(1) by (simp add: os_step_def)
  from flush_all[OF assms(1) this t(3)] obtain os2 where
    f: "zrleOutStreamFlush z os1 = Some (True, os2)" "os_step g os1 os2 (zs_in os1)" "plain g (produced g (zs_state os2)) = accepted g (zs_state os2)" by blast
  have all: "os_step g os os2 (concat bss)" using os_step_trans[OF t(1) f(2)] t(2) by simp
  have level: "zywrleLevel rfbEncodingZRLE quality = 0" by (simp add: zywrleLevel_def rfbEncodingZRLE_def rfbEncodingZYWRLE_def)
  have "rfbSendRectEncodingZRLE z analyze pic fmt rfbEncodingZRLE quality x y w h (zd, cl) =
       (let (ok, cl) = send_compressed rfbEncodingZRLE x y w h (zs_out os2) cl in Some (ok, Some os2, cl))" for cl
    using w(1) f(1) by (simp add: rfbSendRectEncodingZRLE_def ZRLE_ENCODE_def level Let_def flip: os_def out_stream_def)
  then show ?thesis
    using all os w(3) f(3) by (intro exI[of _ os2] exI[of _ bss]) (auto simp: os_step_def os_ok_def)
qed

text \<open>All of it fits in the client's buffer, with a byte to spare where pixels are sent in part.\<close>

lemma tiles_fit:
  fixes pic :: "nat \<Rightarrow> nat \<Rightarrow> 'a::len word"
  shows "tiles_decode c v pic ts bss \<Longrightarrow> length (concat bss) + (if c = Whole then 0 else length ts) \<le>
    2 * ((\<Sum>(tx, ty, tw, th)\<leftarrow>ts. tw * th) * cpixel_size c TYPE('a))"
proof (induction ts arbitrary: bss)
  case Nil
  then show ?case by (simp add: tiles_decode_def)
next
  case (Cons t ts)
  obtain tx ty tw th where t: "t = (tx, ty, tw, th)" by (metis prod_cases4)
  obtain bs bss' where b: "bss = bs # bss'" "length bs + (if c = Whole then 0 else 1) \<le> 2 * (tw * th * cpixel_size c TYPE('a))"
    "tiles_decode c v pic ts bss'"
    using Cons.prems by (auto simp: tiles_decode_def t list_all2_Cons1)
  then show ?case using Cons.IH[OF b(3)] by (cases "c = Whole") (simp_all add: t algebra_simps)
qed

lemma zrle_draws:
  fixes pic :: "nat \<Rightarrow> nat \<Rightarrow> 'a::len word" and fb :: "'a word list"
  assumes "inflates z g" "decodes_with TYPE('a) c v" and fresh: "\<forall>n. n \<le> length (fresh n)"
    and step: "in_step g d (decompressor z u)" "produced g d' = produced g d @ body" "accepted g d' = accepted g d @ concat bss"
    "plain g (produced g d') = accepted g d'" "length body < 2 ^ 31"
    and tiles: "tiles_decode c v pic (zrle_tiles x y w h) bss" "0 < w" "0 < h"
    and geo: "shows_pixels W H fb f" "x + w \<le> W" "y + h \<le> H"
  shows "\<exists>fb' u' f'. HandleZRLE z synthesize 9 fresh v W fb u ((wire32 (word_of_nat (length body)) @ body) @ rest) x y w h = Some (fb', u', rest) \<and>
    in_step g d' (decompressor z u') \<and> shows_pixels W H fb' f' \<and>
    (\<forall>X Y. if in_rect x y w h X Y then same_sent c (pic X Y) (f' X Y) else f' X Y = f X Y)"
proof -
  define need where "need = w * h * real_bytes v * 2"
  define u1 where "u1 = need_raw fresh need need u"
  have room: "need \<le> length (raw_buffer u1)" "decompressor z u1 = decompressor z u"
    using need_raw_length[OF fresh, of need need u] by (simp_all add: u1_def need_raw_stream)
  have some: "0 < length (zrle_tiles x y w h)" using zrle_tiles_some[OF tiles(2,3)] by simp
  have bound: "length (concat bss) + (if c = Whole then 0 else length (zrle_tiles x y w h)) \<le> need"
    using tiles_fit[OF tiles(1)] real_bytes_size[OF assms(2)] by (simp add: zrle_tiles_area need_def)
  have fits: "length (concat bss) \<le> length (raw_buffer u1)" "c \<noteq> Whole \<Longrightarrow> length (concat bss) < length (raw_buffer u1)"
  proof -
    show "length (concat bss) \<le> length (raw_buffer u1)" using bound room(1) by linarith
    assume "c \<noteq> Whole"
    then show "length (concat bss) < length (raw_buffer u1)" using bound[unfolded if_not_P[OF \<open>c \<noteq> Whole\<close>]] room(1) some by linarith
  qed
  from inflate_rect_all[OF assms(1) _ step(2-4) fits(1) step(5)] step(1) room(2) obtain u2 where
    u2: "inflate_rect z u1 ((wire32 (word_of_nat (length body)) @ body) @ rest) = Some (concat bss, u2, rest)"
    "raw_buffer u2 = concat bss @ drop (length (concat bss)) (raw_buffer u1)" "in_step g d' (decompressor z u2)" by auto
  have "holds (raw_buffer u2) 0 (concat bss)" by (simp add: holds_def u2(2))
  moreover have "slack c (raw_buffer u2) (0 + length (concat bss))" using fits(2) by (auto simp: slack_def u2(2))
  moreover have "\<forall>(tx, ty, tw, th)\<in>set (zrle_tiles x y w h). tx + tw \<le> W \<and> ty + th \<le> H" using zrle_tiles_inside[of _ _ _ _ x y w h] geo(2,3) by fastforce
  moreover have "0 + length (concat bss) \<le> length (concat bss)" by simp
  ultimately have "\<exists>fb' f'. draw_tiles synthesize 0 v W (raw_buffer u2) (length (concat bss)) 0 (zrle_tiles x y w h) fb = Some fb' \<and>
      shows_pixels W H fb' f' \<and>
      (\<forall>X Y. if \<exists>(tx, ty, tw, th)\<in>set (zrle_tiles x y w h). in_rect tx ty tw th X Y then same_sent c (pic X Y) (f' X Y) else f' X Y = f X Y)"
    using geo(1) by (intro draw_tiles_all[OF tiles(1)])
  then obtain fb' f' where d: "draw_tiles synthesize 0 v W (raw_buffer u2) (length (concat bss)) 0 (zrle_tiles x y w h) fb = Some fb'"
    "shows_pixels W H fb' f'" "\<forall>X Y. if in_rect x y w h X Y then same_sent c (pic X Y) (f' X Y) else f' X Y = f X Y"
    unfolding zrle_tiles_cover by blast
  have level: "client_level 9 = 0"
  proof -
    have "\<not> bit (9 :: nat) 7" by code_simp
    then show ?thesis by (simp add: client_level_def)
  qed
  have "HandleZRLE z synthesize 9 fresh v W fb u ((wire32 (word_of_nat (length body)) @ body) @ rest) x y w h = Some (fb', u2, rest)"
    using u2(1) d(1) by (simp add: HandleZRLE_def Let_def zrle_tiles_shift level flip: need_def u1_def)
  then show ?thesis using u2(3) d(2,3) by blast
qed

end
