(* ===== verification/ZrleRoundtrip.thy ===== *)
theory ZrleRoundtrip
  imports ZrleRectCorrect
begin

text \<open>ZRLE from end to end: the property of the encoding, shown to apply with a zlib that only stores.\<close>





section \<open>Fifteen bits\<close>

text \<open>
  Where the server has at most five bits of green, the client reads 16-bit pixels with \<open>REALBPP\<close> 15, that is one byte after the
  other instead of two: of two different pixels that are sent as they are, it shows another one.
\<close>

theorem HandleZRLE15_misreads:
  assumes "bitsPerPixel fmt = 16" "greenMax si \<le> 31"
  shows "\<exists>v. client_variant si fmt = Some v \<and>
    decode_tile v 2 [0, 0 :: 16 word] (0 # concat (map (cpixel_bytes (server_cpixel TYPE(16) fmt)) [0x0102, 0x0304 :: 16 word])) 0 5 0 0 2 1 False None =
      Some ([0x0102, 0x0401], Inr 3)"
proof -
  have v: "client_variant si fmt = Some \<lparr>realbpp = 15, uncomp = AsIs\<rparr>" using assms by (simp add: client_variant_def)
  have "server_cpixel TYPE(16) fmt = Whole" by (simp add: server_cpixel_def)
  moreover have "decode_tile \<lparr>realbpp = 15, uncomp = AsIs\<rparr> 2 [0, 0 :: 16 word]
      (0 # concat (map (cpixel_bytes Whole) [0x0102, 0x0304 :: 16 word])) 0 5 0 0 2 1 False None = Some ([0x0102, 0x0401], Inr 3)"
    by code_simp
  ultimately show ?thesis using v by simp
qed

end
