(* ===== verification/ClientMessages.thy ===== *)
theory ClientMessages
  imports Session DeflateRoundtrip
begin

text \<open>
  The other messages of a server: \<open>rfbSendTextChatMessage\<close> of \<open>rfbserver.c\<close> and \<open>rfbSendNewScaleSize\<close> of \<open>scale.c\<close>, and the rest
  of \<open>HandleRFBServerMessage\<close> in \<open>libvncclient/rfbproto.c\<close>, whose update of the frame buffer is in \<open>ClientUpdate\<close>. What the
  server says arrives in the client as the call of the right function.
\<close>

section \<open>The server\<close>

text \<open>The header has the whole length, even where the text is cut.\<close>

definition text_chat_length :: "uint32_t \<Rightarrow> int" where
  "text_chat_length len =
     (if len = rfbTextChatOpen \<or> len = rfbTextChatClose \<or> len = rfbTextChatFinished then 0
      else if int rfbTextMaxSize < sint len then int rfbTextMaxSize else sint len)"

definition rfbSendTextChatMessage :: "uint32_t \<Rightarrow> uint8_t list \<Rightarrow> update_state \<Rightarrow> bool \<times> update_state" where
  "rfbSendTextChatMessage len buffer cl =
     (let bytesToSend = text_chat_length len;
          (ok, cl) = (if int UPDATE_BUF_SIZE < int (length (updateBuf cl) + sz_rfbTextChatMsg) + bytesToSend
                      then rfbSendUpdateBuf cl else (True, cl))
      in if \<not> ok then (False, cl)
         else (let cl = put_bytes ([rfbTextChat, 0, 0, 0] @ wire32 len) cl;
                   cl = (if 0 < bytesToSend then put_bytes (take (nat bytesToSend) buffer) cl else cl)
               in rfbSendUpdateBuf cl))"

definition sz_rfbResizeFrameBufferMsg :: nat where "sz_rfbResizeFrameBufferMsg = 6"
definition sz_rfbPalmVNCReSizeFrameBufferMsg :: nat where "sz_rfbPalmVNCReSizeFrameBufferMsg = 12"

text \<open>The size of the client's screen, which is the scaled one where there is one.\<close>

definition client_size :: "'p normal_screen \<Rightarrow> normal_client \<Rightarrow> int \<times> int" where
  "client_size s c = (case nm_scaled c of None \<Rightarrow> (ss_width (ns_screen s), ss_height (ns_screen s)) | Some wh \<Rightarrow> wh)"

definition new_size_message :: "'p normal_screen \<Rightarrow> normal_client \<Rightarrow> uint8_t list" where
  "new_size_message s c =
     (let (w, h) = client_size s c; w16 = (\<lambda>v. wire16 (word_of_int v))
      in if PalmVNC c
         then [rfbPalmVNCReSizeFrameBuffer, 0] @ w16 (ss_width (ns_screen s)) @ w16 (ss_height (ns_screen s)) @ w16 w @ w16 h @ [0, 0]
         else [rfbResizeFrameBuffer, 0] @ w16 w @ w16 h)"

definition rfbSendNewScaleSize :: "'p normal_screen \<Rightarrow> normal_client \<Rightarrow> bool \<times> normal_client" where
  "rfbSendNewScaleSize s c =
     (let n = nm_send c; u = regions n
      in if useNewFBSize u \<and> newFBSizePending u then (False, c)
         else (let c = c\<lparr>nm_send := n\<lparr>regions := u\<lparr>newFBSizePending := False\<rparr>\<rparr>\<rparr>;
                   (ok, cn) = rfbWriteExact (conn (nm_trans c)) (new_size_message s c);
                   c = set_conn cn c
               in if \<not> ok then (False, close_normal c) else (True, c)))"

section \<open>The client\<close>

text \<open>Calls of the functions the application has given to the client, in their order.\<close>

datatype client_call =
    CallBell
  | CallGotXCutText "uint8_t list"
  | CallHandleTextChat int "uint8_t list option"

text \<open>Which functions are there, and the extensions with a function for messages, which may read and write.\<close>

record 'c client_hooks =
  has_GotXCutText :: bool
  has_HandleTextChat :: bool
  client_extensions :: "(uint8_t \<Rightarrow> 'c rfb_client \<Rightarrow> uint8_t list \<Rightarrow> bool \<times> 'c rfb_client \<times> uint8_t list) list"

fun client_extension ::
    "(uint8_t \<Rightarrow> 'c rfb_client \<Rightarrow> uint8_t list \<Rightarrow> bool \<times> 'c rfb_client \<times> uint8_t list) list \<Rightarrow> uint8_t \<Rightarrow> 'c rfb_client \<Rightarrow>
     uint8_t list \<Rightarrow> ('c rfb_client \<times> uint8_t list) option" where
  "client_extension [] ty c bs = None"
| "client_extension (e # es) ty c bs =
     (case e ty c bs of (handled, c, bs) \<Rightarrow> if handled then Some (c, bs) else client_extension es ty c bs)"

text \<open>
  The string behind a header with its length. One byte more is allocated than the length says; for the
  largest length the sum wraps around and the bytes are written over the end of the buffer (\<open>None\<close>).
\<close>

definition read_text :: "uint32_t \<Rightarrow> uint8_t list \<Rightarrow> (uint8_t list \<times> uint8_t list) option" where
  "read_text len bs = (if len = -1 then None else ReadFromRFBServer (unat len) bs)"

definition HandleServerCutText ::
    "'c client_hooks \<Rightarrow> 'c rfb_client \<Rightarrow> uint8_t list \<Rightarrow> ('c rfb_client \<times> client_call list \<times> uint8_t list) option" where
  "HandleServerCutText k c bs =
     do { (msg, bs) \<leftarrow> ReadFromRFBServer 7 bs;
          (buffer, bs) \<leftarrow> read_text (unwire32 (drop 3 msg)) bs;
          Some (c, if has_GotXCutText k then [CallGotXCutText buffer] else [], bs) }"

definition chat_call :: "'c client_hooks \<Rightarrow> uint32_t \<Rightarrow> uint8_t list option \<Rightarrow> client_call list" where
  "chat_call k len buffer = (if has_HandleTextChat k then [CallHandleTextChat (sint len) buffer] else [])"

definition HandleServerTextChat ::
    "'c client_hooks \<Rightarrow> 'c rfb_client \<Rightarrow> uint8_t list \<Rightarrow> ('c rfb_client \<times> client_call list \<times> uint8_t list) option" where
  "HandleServerTextChat k c bs =
     do { (msg, bs) \<leftarrow> ReadFromRFBServer (sz_rfbTextChatMsg - 1) bs;
          (let len = unwire32 (drop 3 msg)
           in if len = rfbTextChatOpen \<or> len = rfbTextChatClose \<or> len = rfbTextChatFinished then Some (c, chat_call k len None, bs)
              else do { (buffer, bs) \<leftarrow> read_text len bs; Some (c, chat_call k len (Some buffer), bs) }) }"

text \<open>A new size of the frame buffer; the result of the request is not looked at.\<close>

definition resize_client :: "uint16_t \<Rightarrow> uint16_t \<Rightarrow> 'c rfb_client \<Rightarrow> 'c rfb_client" where
  "resize_client w h c =
     (let c = MallocFrameBuffer (c\<lparr>c_width := unat w, c_height := unat h\<rparr>)
      in snd (SendFramebufferUpdateRequest 0 0 (c_width c) (c_height c) False c))"

text \<open>
  One message: the client, the calls and the bytes left, or \<open>None\<close> for \<open>FALSE\<close>. Colours of the colour map are
  not read at all. After a type that nobody knows the function gives up.
\<close>

definition HandleRFBServerMessage ::
    "'c::len word decoders \<Rightarrow> 'c word client_hooks \<Rightarrow> 'c word rfb_client \<Rightarrow> uint8_t list \<Rightarrow>
     ('c word rfb_client \<times> client_call list \<times> uint8_t list) option" where
  "HandleRFBServerMessage d k c bs =
     do { (ty, bs) \<leftarrow> ReadFromRFBServer 1 bs;
          (let ty = ty ! 0
           in if ty = rfbSetColourMapEntries then Some (c, [], bs)
              else if ty = rfbFramebufferUpdate then do { (c, bs) \<leftarrow> HandleFramebufferUpdate d c bs; Some (c, [], bs) }
              else if ty = rfbBell then Some (c, [CallBell], bs)
              else if ty = rfbServerCutText then HandleServerCutText k c bs
              else if ty = rfbTextChat then HandleServerTextChat k c bs
              else if ty = rfbResizeFrameBuffer
              then do { (msg, bs) \<leftarrow> ReadFromRFBServer (sz_rfbResizeFrameBufferMsg - 1) bs;
                        Some (resize_client (unwire16 (drop 1 msg)) (unwire16 (drop 3 msg)) c, [], bs) }
              else if ty = rfbPalmVNCReSizeFrameBuffer
              then do { (msg, bs) \<leftarrow> ReadFromRFBServer (sz_rfbPalmVNCReSizeFrameBufferMsg - 1) bs;
                        Some (resize_client (unwire16 (drop 5 msg)) (unwire16 (drop 7 msg)) c, [], bs) }
              else do { (c, bs) \<leftarrow> client_extension (client_extensions k) ty c bs; Some (c, [], bs) }) }"

fun handle_messages ::
    "'c::len word decoders \<Rightarrow> 'c word client_hooks \<Rightarrow> nat \<Rightarrow> 'c word rfb_client \<Rightarrow> uint8_t list \<Rightarrow>
     ('c word rfb_client \<times> client_call list \<times> uint8_t list) option" where
  "handle_messages d k 0 c bs = Some (c, [], bs)"
| "handle_messages d k (Suc n) c bs =
     do { (c, calls, bs) \<leftarrow> HandleRFBServerMessage d k c bs;
          (c, more_calls, bs) \<leftarrow> handle_messages d k n c bs;
          Some (c, calls @ more_calls, bs) }"

section \<open>What is said arrives\<close>

text \<open>The bytes of a message, read from the front of any stream, are one message of the client.\<close>

definition understood :: "'c::len word decoders \<Rightarrow> 'c word client_hooks \<Rightarrow> uint8_t list \<Rightarrow> ('c word rfb_client \<Rightarrow> 'c word rfb_client) \<Rightarrow>
    client_call list \<Rightarrow> bool" where
  "understood d k msg f said \<longleftrightarrow> (\<forall>c rest. HandleRFBServerMessage d k c (msg @ rest) = Some (f c, said, rest))"

text \<open>Messages that are understood are understood one after the other.\<close>

lemma understood_one_by_one:
  "list_all (\<lambda>(msg, f, said). understood d k msg f said) ms \<Longrightarrow>
   handle_messages d k (length ms) c (concat (map fst ms) @ rest) =
     Some (fold (\<lambda>(_, f, _). f) ms c, concat (map (\<lambda>(_, _, said). said) ms), rest)"
proof (induction ms arbitrary: c)
  case (Cons m ms)
  obtain msg f said where m: "m = (msg, f, said)" by (cases m) auto
  have "HandleRFBServerMessage d k c (msg @ concat (map fst ms) @ rest) = Some (f c, said, concat (map fst ms) @ rest)"
    using Cons.prems by (simp add: m understood_def)
  then show ?case using Cons.IH[of "f c"] Cons.prems by (simp add: m)
qed simp

lemma read_1 [simp]: "ReadFromRFBServer (Suc 0) (b # bs) = Some ([b], bs)"
  by (simp add: ReadFromRFBServer_def)

text \<open>A message with a fixed part of \<open>n\<close> bytes behind its type.\<close>

lemma read_fixed: "length hdr = n \<Longrightarrow> ReadFromRFBServer n (hdr @ rest) = Some (hdr, rest)"
  by simp

lemma bell_understood: "understood d k [rfbBell] (\<lambda>c. c) [CallBell]"
  by (simp add: understood_def HandleRFBServerMessage_def)

lemma text_length:
  assumes "n < 2 ^ 32 - 1"
  shows "unat (word_of_nat n :: uint32_t) = n" "(word_of_nat n :: uint32_t) \<noteq> -1"
proof -
  show u: "unat (word_of_nat n :: uint32_t) = n" using assms by (simp add: unat_of_nat take_bit_nat_eq_self_iff)
  have "(-1 :: uint32_t) = 0xFFFFFFFF" by simp
  then have "unat (-1 :: uint32_t) = 2 ^ 32 - 1" by (simp only: unat_numeral) simp
  then show "(word_of_nat n :: uint32_t) \<noteq> -1" using u assms by auto
qed

lemma cut_text_understood:
  assumes "has_GotXCutText k" "length str < 2 ^ 32 - 1"
  shows "understood d k ([rfbServerCutText, a, b, e] @ wire32 (word_of_nat (length str)) @ str) (\<lambda>c. c) [CallGotXCutText str]"
proof -
  note u = text_length[OF assms(2)]
  have "ReadFromRFBServer 7 (a # b # e # wire32 (word_of_nat (length str)) @ str @ rest) =
      Some (a # b # e # wire32 (word_of_nat (length str)), str @ rest)" for rest
    using read_append[of "[a, b, e] @ wire32 (word_of_nat (length str))" 7 "str @ rest"] by simp
  then show ?thesis
    using assms(1) u by (simp add: understood_def HandleRFBServerMessage_def HandleServerCutText_def read_text_def)
qed

lemma read_chat_header: "ReadFromRFBServer (sz_rfbTextChatMsg - Suc 0) (0 # 0 # 0 # wire32 len @ rest) = Some (0 # 0 # 0 # wire32 len, rest)"
  using read_append[of "[0, 0, 0] @ wire32 len" "sz_rfbTextChatMsg - 1" rest] by (simp add: sz_rfbTextChatMsg_def)

lemma chat_control_understood:
  assumes "has_HandleTextChat k" "len \<in> {rfbTextChatOpen, rfbTextChatClose, rfbTextChatFinished}"
  shows "understood d k ([rfbTextChat, 0, 0, 0] @ wire32 len) (\<lambda>c. c) [CallHandleTextChat (sint len) None]"
  using assms by (auto simp: understood_def HandleRFBServerMessage_def HandleServerTextChat_def chat_call_def read_chat_header)

lemma chat_text_understood:
  assumes "has_HandleTextChat k" "length buffer \<le> rfbTextMaxSize"
  shows "understood d k ([rfbTextChat, 0, 0, 0] @ wire32 (word_of_nat (length buffer)) @ buffer) (\<lambda>c. c)
    [CallHandleTextChat (int (length buffer)) (Some buffer)]"
proof -
  let ?len = "word_of_nat (length buffer) :: uint32_t"
  have "length buffer < 2 ^ 32 - 1" using assms(2) by (simp add: rfbTextMaxSize_def)
  note u = text_length[OF this]
  have n: "\<not> (?len = rfbTextChatOpen \<or> ?len = rfbTextChatClose \<or> ?len = rfbTextChatFinished)"
  proof
    assume "?len = rfbTextChatOpen \<or> ?len = rfbTextChatClose \<or> ?len = rfbTextChatFinished"
    then have "4096 < unat ?len" by (auto simp: rfbTextChatOpen_def rfbTextChatClose_def rfbTextChatFinished_def)
    then show False using u(1) assms(2) by (simp add: rfbTextMaxSize_def)
  qed
  have "sint ?len = int (length buffer)"
    using assms(2) by (intro sint_of_nat) (simp add: rfbTextMaxSize_def)
  then show ?thesis
    using assms(1) n u by (simp add: understood_def HandleRFBServerMessage_def HandleServerTextChat_def chat_call_def read_chat_header read_text_def)
qed

lemma new_size_understood:
  assumes "client_size s nc = (w, h)" "0 \<le> w" "w < 2 ^ 16" "0 \<le> h" "h < 2 ^ 16"
  shows "understood d k (new_size_message s nc) (resize_client (word_of_int w) (word_of_int h)) []"
proof (cases "PalmVNC nc")
  case True
  let ?sw = "wire16 (word_of_int (ss_width (ns_screen s)))" and ?sh = "wire16 (word_of_int (ss_height (ns_screen s)))"
  have "ReadFromRFBServer (sz_rfbPalmVNCReSizeFrameBufferMsg - 1) ((0 # ?sw @ ?sh @ wire16 (word_of_int w) @ wire16 (word_of_int h) @ [0, 0]) @ rest) =
      Some (0 # ?sw @ ?sh @ wire16 (word_of_int w) @ wire16 (word_of_int h) @ [0, 0], rest)" for rest
    by (rule read_fixed) (simp add: sz_rfbPalmVNCReSizeFrameBufferMsg_def)
  moreover have "drop 5 (0 # ?sw @ ?sh @ wire16 (word_of_int w) @ wire16 (word_of_int h) @ [0, 0]) = wire16 (word_of_int w) @ wire16 (word_of_int h) @ [0, 0]"
    "drop 7 (0 # ?sw @ ?sh @ wire16 (word_of_int w) @ wire16 (word_of_int h) @ [0, 0]) = wire16 (word_of_int h) @ [0, 0]"
    by (simp_all add: wire16_def)
  ultimately show ?thesis
    using True assms(1) by (simp add: understood_def HandleRFBServerMessage_def new_size_message_def)
next
  case False
  have "ReadFromRFBServer (sz_rfbResizeFrameBufferMsg - 1) ((0 # wire16 (word_of_int w) @ wire16 (word_of_int h)) @ rest) =
      Some (0 # wire16 (word_of_int w) @ wire16 (word_of_int h), rest)" for rest
    by (rule read_fixed) (simp add: sz_rfbResizeFrameBufferMsg_def)
  moreover have "drop 3 (0 # wire16 (word_of_int w) @ wire16 (word_of_int h)) = wire16 (word_of_int h)"
    by (simp add: wire16_def)
  ultimately show ?thesis
    using False assms(1) by (simp add: understood_def HandleRFBServerMessage_def new_size_message_def)
qed

lemma delivers_text_chat:
  assumes "length buffer \<le> rfbTextMaxSize" "text_chat_length len = int (length buffer)"
  shows "delivers (rfbSendTextChatMessage len buffer) ([rfbTextChat, 0, 0, 0] @ wire32 len @ buffer)"
proof (rule deliversI)
  fix cl
  let ?msg = "[rfbTextChat, 0, 0, 0] @ wire32 len @ buffer"
  obtain ok cl1 where m: "make_room (length ?msg) cl = (ok, cl1)" by fastforce
  have cond: "int UPDATE_BUF_SIZE < int (length (updateBuf cl) + sz_rfbTextChatMsg) + int (length buffer) \<longleftrightarrow>
      UPDATE_BUF_SIZE < length (updateBuf cl) + length ?msg" by (simp add: sz_rfbTextChatMsg_def) linarith
  have e: "rfbSendTextChatMessage len buffer cl = (if \<not> ok then (False, cl1) else rfbSendUpdateBuf (put_bytes ?msg cl1))"
    using m unfolding rfbSendTextChatMessage_def assms(2) Let_def cond make_room_def
    by (auto simp: put_bytes_append put_bytes_def split: prod.splits)
  have c1: "sock_open cl1 \<Longrightarrow> sock_open cl" "\<not> ok \<Longrightarrow> \<not> sock_open cl1" using make_room_closed[of "length ?msg" cl] m by simp_all
  show "sock_open (snd (rfbSendTextChatMessage len buffer cl)) \<Longrightarrow> sock_open cl"
    using c1 send_buf_closed(1)[of "put_bytes ?msg cl1"] unfolding e by (auto split: if_splits)
  assume ok: "buf_ok cl"
  show "\<not> fst (rfbSendTextChatMessage len buffer cl) \<Longrightarrow> \<not> sock_open (snd (rfbSendTextChatMessage len buffer cl))"
    using c1 send_buf_closed(2)[of "put_bytes ?msg cl1"] unfolding e by (auto split: if_splits)
  have "length ?msg \<le> UPDATE_BUF_SIZE" using assms(1) by (simp add: UPDATE_BUF_SIZE_def rfbTextMaxSize_def)
  then have room: "ok \<Longrightarrow> stream cl1 = stream cl \<and> length (updateBuf cl1) + length ?msg \<le> UPDATE_BUF_SIZE"
    using make_room_stream[OF m ok] by simp
  then have b: "ok \<Longrightarrow> buf_ok (put_bytes ?msg cl1) \<and> stream (put_bytes ?msg cl1) = stream cl @ ?msg"
    by (simp add: buf_ok_def put_bytes_stream) (simp add: put_bytes_def)
  assume "fst (rfbSendTextChatMessage len buffer cl)"
  then have r: "ok" "fst (rfbSendUpdateBuf (put_bytes ?msg cl1))" unfolding e by (auto split: if_splits)
  then show "buf_ok (snd (rfbSendTextChatMessage len buffer cl)) \<and> stream (snd (rfbSendTextChatMessage len buffer cl)) = stream cl @ ?msg"
    using b send_buf_stream[OF prod.collapse[symmetric], of "put_bytes ?msg cl1"] unfolding e by simp
qed

lemma send_to_open:
  assumes "is_open nc" "write_ok (conn (nm_trans nc))"
  shows "outbuf (conn (nm_trans (send_to parts nc))) = outbuf (conn (nm_trans nc)) @ concat parts" (is ?P)
    and "is_open (send_to parts nc)"
proof -
  define f where "f = (\<lambda>bs (ok, c). if \<not> ok then (False, c)
       else (let (ok, cn) = rfbWriteExact (conn (nm_trans c)) bs; c = set_conn cn c
             in if \<not> ok then (False, close_normal c) else (True, c)))"
  have "\<exists>c'. fold f parts (True, c) = (True, c') \<and> outbuf (conn (nm_trans c')) = outbuf (conn (nm_trans c)) @ concat parts \<and> is_open c'"
    if "is_open c" "write_ok (conn (nm_trans c))" for c
    using that
  proof (induction parts arbitrary: c)
    case (Cons bs parts)
    let ?c = "set_conn ((conn (nm_trans c))\<lparr>outbuf := outbuf (conn (nm_trans c)) @ bs\<rparr>) c"
    have "f bs (True, c) = (True, ?c)" using Cons.prems by (simp add: f_def rfbWriteExact_def is_open_def)
    moreover have "is_open ?c" "write_ok (conn (nm_trans ?c))" using Cons.prems by (simp_all add: is_open_def set_conn_def)
    ultimately show ?case using Cons.IH[of ?c] by (simp add: set_conn_def)
  qed simp
  from this[OF assms] show ?P "is_open (send_to parts nc)" by (auto simp: send_to_def simp flip: f_def)
qed

text \<open>
  C9: What the server says is heard. The bell and the cut text reach every client whose connection holds, as the one
  call of its application with the same bytes, and with the next message unread; so do the chat, in both its forms up to
  the size limit, and a new size, after which the client has a frame buffer of that size and asks for all of it.
\<close>

theorem server_messages_understood:
  assumes "has_GotXCutText k" "has_HandleTextChat k"
    and "i < length ncs" "is_open (ncs ! i)" "write_ok (conn (nm_trans (ncs ! i)))" "length str < 2 ^ 32 - 1"
    and "length chat_text \<le> rfbTextMaxSize" "chat_code \<in> {rfbTextChatOpen, rfbTextChatClose, rfbTextChatFinished}"
    and "client_size s (ncs ! i) = (w, h)" "0 \<le> w" "w < 2 ^ 16" "0 \<le> h" "h < 2 ^ 16"
    and "\<not> (useNewFBSize (regions (nm_send (ncs ! i))) \<and> newFBSizePending (regions (nm_send (ncs ! i))))"
  shows "(\<exists>msg. outbuf (conn (nm_trans (rfbSendBell ncs ! i))) = outbuf (conn (nm_trans (ncs ! i))) @ msg \<and>
      understood d k msg (\<lambda>c. c) [CallBell]) \<and>
    (\<exists>msg. outbuf (conn (nm_trans (rfbSendServerCutText junk str ncs ! i))) = outbuf (conn (nm_trans (ncs ! i))) @ msg \<and>
      understood d k msg (\<lambda>c. c) [CallGotXCutText str]) \<and>
    (\<exists>msg. delivers (rfbSendTextChatMessage chat_code []) msg \<and> understood d k msg (\<lambda>c. c) [CallHandleTextChat (sint chat_code) None]) \<and>
    (\<exists>msg. delivers (rfbSendTextChatMessage (word_of_nat (length chat_text)) chat_text) msg \<and>
      understood d k msg (\<lambda>c. c) [CallHandleTextChat (int (length chat_text)) (Some chat_text)]) \<and>
    (\<exists>msg nc'. rfbSendNewScaleSize s (ncs ! i) = (True, nc') \<and> outbuf (conn (nm_trans nc')) = outbuf (conn (nm_trans (ncs ! i))) @ msg \<and>
      understood d k msg (resize_client (word_of_int w) (word_of_int h)) [])"
proof (intro conjI)
  let ?nc = "ncs ! i"
  have all: "all_open f ncs ! i = f ?nc" for f using assms(3,4) by (simp add: all_open_def)
  show "\<exists>msg. outbuf (conn (nm_trans (rfbSendBell ncs ! i))) = outbuf (conn (nm_trans ?nc)) @ msg \<and> understood d k msg (\<lambda>c. c) [CallBell]"
    using send_to_open(1)[OF assms(4,5), of "[[rfbBell]]"] bell_understood
    by (intro exI[of _ "[rfbBell]"]) (simp add: rfbSendBell_def all)
  show "\<exists>msg. outbuf (conn (nm_trans (rfbSendServerCutText junk str ncs ! i))) = outbuf (conn (nm_trans ?nc)) @ msg \<and>
      understood d k msg (\<lambda>c. c) [CallGotXCutText str]"
    using send_to_open(1)[OF assms(4,5), of "[[rfbServerCutText, junk 1, junk 2, junk 3] @ wire32 (word_of_nat (length str)), str]"]
      cut_text_understood[OF assms(1,6), of d "junk 1" "junk 2" "junk 3"]
    by (intro exI[of _ "[rfbServerCutText, junk 1, junk 2, junk 3] @ wire32 (word_of_nat (length str)) @ str"])
      (simp add: rfbSendServerCutText_def all)
  have "text_chat_length chat_code = int (length ([] :: uint8_t list))" using assms(8) by (auto simp: text_chat_length_def)
  from delivers_text_chat[OF _ this]
  show "\<exists>msg. delivers (rfbSendTextChatMessage chat_code []) msg \<and> understood d k msg (\<lambda>c. c) [CallHandleTextChat (sint chat_code) None]"
    using chat_control_understood[OF assms(2,8)] by (intro exI[of _ "[rfbTextChat, 0, 0, 0] @ wire32 chat_code"]) simp
  have "length chat_text < 2 ^ 31" using assms(7) by (simp add: rfbTextMaxSize_def)
  from sint_of_nat[OF this] have n: "sint (word_of_nat (length chat_text) :: uint32_t) = int (length chat_text)" .
  have "sint rfbTextChatOpen < 0" "sint rfbTextChatClose < 0" "sint rfbTextChatFinished < 0"
    by (simp_all add: rfbTextChatOpen_def rfbTextChatClose_def rfbTextChatFinished_def)
  then have "text_chat_length (word_of_nat (length chat_text)) = int (length chat_text)"
    using n assms(7) by (auto simp: text_chat_length_def)
  from delivers_text_chat[OF assms(7) this]
  show "\<exists>msg. delivers (rfbSendTextChatMessage (word_of_nat (length chat_text)) chat_text) msg \<and>
      understood d k msg (\<lambda>c. c) [CallHandleTextChat (int (length chat_text)) (Some chat_text)]"
    using chat_text_understood[OF assms(2,7)] by blast
  let ?c = "?nc\<lparr>nm_send := (nm_send ?nc)\<lparr>regions := (regions (nm_send ?nc))\<lparr>newFBSizePending := False\<rparr>\<rparr>\<rparr>"
  have msg: "new_size_message s ?c = new_size_message s ?nc" by (simp add: new_size_message_def client_size_def)
  have "rfbSendNewScaleSize s ?nc =
      (True, set_conn ((conn (nm_trans ?nc))\<lparr>outbuf := outbuf (conn (nm_trans ?nc)) @ new_size_message s ?nc\<rparr>) ?c)"
    using assms(4,5,14) msg by (simp add: rfbSendNewScaleSize_def rfbWriteExact_def is_open_def Let_def)
  then show "\<exists>msg nc'. rfbSendNewScaleSize s ?nc = (True, nc') \<and> outbuf (conn (nm_trans nc')) = outbuf (conn (nm_trans ?nc)) @ msg \<and>
      understood d k msg (resize_client (word_of_int w) (word_of_int h)) []"
    using new_size_understood[OF assms(9-13)] by (simp add: set_conn_def)
qed

theorem server_messages_understood_witness:
  "\<exists>msg. outbuf (conn (nm_trans (rfbSendServerCutText (\<lambda>_. 0) [104, 105] [demo_normal_client []] ! 0))) = msg \<and>
     HandleRFBServerMessage demo_decoders \<lparr>has_GotXCutText = True, has_HandleTextChat = True, client_extensions = []\<rparr> demo_speaker
       (msg @ [2]) = Some (demo_speaker, [CallGotXCutText [104, 105]], [2])"
proof -
  let ?k = "\<lparr>has_GotXCutText = True, has_HandleTextChat = True, client_extensions = []\<rparr> :: 8 word client_hooks"
  let ?nc = "demo_normal_client []"
  have o: "is_open ([?nc] ! 0)" "write_ok (conn (nm_trans ([?nc] ! 0)))" "outbuf (conn (nm_trans ?nc)) = []"
    by (simp_all add: is_open_def demo_normal_client_def demo_conn_def)
  have n: "\<not> (useNewFBSize (regions (nm_send ([?nc] ! 0))) \<and> newFBSizePending (regions (nm_send ([?nc] ! 0))))"
    by (simp add: demo_normal_client_def demo_line_regions_def demo_update_client_def)
  have size: "client_size demo_normal_screen ([?nc] ! 0) = (3, 1)"
    by (simp add: client_size_def demo_normal_screen_def demo_normal_client_def demo_line_screen_def)
  from server_messages_understood[of ?k 0 "[?nc]" "[104, 105]" "[]" rfbTextChatOpen demo_normal_screen 3 1 demo_decoders "\<lambda>_. 0"] o n size
  obtain msg where "outbuf (conn (nm_trans (rfbSendServerCutText (\<lambda>_. 0) [104, 105] [?nc] ! 0))) = msg"
    "understood demo_decoders ?k msg (\<lambda>c. c) [CallGotXCutText [104, 105]]" by auto
  then show ?thesis unfolding understood_def by blast
qed

end
