(* ===== verification/Spec2Isabelle.thy ===== *)
theory Spec2Isabelle
  imports RegionRoutines FbScreen FbInput FbMessages SessionEncodings Handshake SocketsCorrect ZrleRoundtrip ClientMessages
begin

text \<open>
  A remote control for Android: \<open>jni/vnc/fbvncserver.c\<close>, with \<open>update_screen.c\<close> and \<open>suinput.c\<close>, polls the
  frame buffer device, serves it through LibVNCServer 0.9.7 and writes the keys and touches of the
  viewers to \<open>/dev/uinput\<close>. The library keeps, for every client, the regions of the screen that
  have changed; when a client asks for an update it sends copied rectangles and encoded pixels.

  \<^bold>\<open>What the screen shows reaches the client.\<close>
  \<open>Region\<close>, \<open>RegionSets\<close> and \<open>RegionRoutines\<close> are \<open>rfbregion.c\<close>: spans in rows as lists in order, the set of
  pixels they stand for, and the proof that union, intersection and difference, offset, bounding
  box, popping and iterating do to the set what they should. The operations on rows are proved once
  for a locale of span operations and interpreted on both levels.
  \<open>Updates\<close> and \<open>UpdatesCorrect\<close> are the part of \<open>main.c\<close> that marks regions as modified or to be copied.
  The abstract promise is \<open>up_to_date\<close>: outside the modified region, the picture of the client after
  the pending copy is the screen. Every operation keeps it.
  \<open>Cursor\<close>, \<open>CursorCorrect\<close> (\<open>cursor.c\<close>) draw the cursor and take it away again. \<open>Pseudo\<close> and \<open>PseudoCorrect\<close> have
  the pseudo-rectangles of an update, among them the shape of the cursor with the decoder of
  \<open>libvncclient/cursor.c\<close>.
  \<open>Subrects\<close>, \<open>RRE\<close>, \<open>RRERoundtrip\<close> are the update buffer, raw rectangles and the encoders and decoders
  of RRE and CoRRE (\<open>rre.c\<close>, \<open>corre.c\<close> of both libraries).
  \<open>SendUpdate\<close>, \<open>SendUpdateCorrect\<close>, \<open>SendStream\<close> are \<open>rfbSendFramebufferUpdate\<close> of \<open>rfbserver.c\<close>: which
  regions are sent and left, the order of the copies, and what the encoders deliver whenever the
  buffer is flushed. \<open>ClientUpdate\<close>, \<open>ClientUpdateCorrect\<close> handle the message in \<open>libvncclient/rfbproto.c\<close>.
  \<open>UpdateRoundtrip\<close> puts both ends together: an update keeps the promise.
  \<open>Translate\<close>, \<open>TranslateCorrect\<close> are \<open>translate.c\<close> and its templates: the tables by which pixels are
  turned into the format of the client.

  \<open>Hextile\<close>, \<open>HextileRoundtrip\<close>, \<open>HextileStream\<close> are the Hextile encoder and decoder (\<open>hextile.c\<close> of both
  libraries), whose encoder carries colours from tile to tile and may flush the buffer before any tile.
  \<open>ZrlePalette\<close>, \<open>Zrle\<close>, \<open>ZrleTile\<close> are the tiles of ZRLE with the hash table of their colours
  (\<open>zrlepalettehelper.c\<close>, \<open>zrleencodetemplate.c\<close>, \<open>libvncclient/zrle.c\<close>); \<open>Deflate\<close>, \<open>DeflateCorrect\<close>, \<open>DeflateRoundtrip\<close> the
  loops around zlib of \<open>zrleoutstream.c\<close> and \<open>zlib.c\<close>, and \<open>ultra.c\<close>; \<open>Minilzo\<close>, \<open>MinilzoCorrect\<close> the compressor and
  decompressor of \<open>minilzo.c\<close>, with the invariant that what was written so far is decoded to what was read; \<open>ZrleRect\<close>, \<open>ZrleFormats\<close>, \<open>ZrleRectCorrect\<close>,
  \<open>ZrleRoundtrip\<close> the rectangles, the choice of the variant at both ends, and the round trip. zlib is not in the
  repository: what is assumed of it is \<open>deflates\<close> and \<open>inflates\<close>, as \<open>zlib.h\<close> documents it (a sync flush ends when more than
  six bytes of room are left); a compressor that only stores shows that they can hold.

  \<^bold>\<open>What a client may say.\<close>
  \<open>NormalMessages\<close> is \<open>rfbProcessClientNormalMessage\<close>, every message of a session with its effect on the
  client, the screen and the functions of the application; \<open>NormalMessagesCorrect\<close> has which calls a
  message can make, that a stream of messages ends, and what a request does to the regions.
  \<open>ClientProto\<close> is the sending side of \<open>libvncclient/rfbproto.c\<close>. \<open>Session\<close> and \<open>SessionEncodings\<close> put the
  two together: input arrives as it was made, encodings are agreed on, and a request, the update it
  gets and its decoding make the client show the screen. \<open>Handshake\<close> does the same for the connection
  set-up. \<open>ClientMessages\<close> are the other messages of the server, as the client understands them. \<open>Sockets\<close> and \<open>SocketsCorrect\<close> are the loops of both \<open>sockets.c\<close> that read and write an exact number of
  bytes, with the proof that they take their bytes from the stream the other theories assume.

  \<^bold>\<open>Who gets in.\<close>
  \<open>D3DES\<close>, \<open>DESInverse\<close> are the cipher of \<open>d3des.c\<close> with its inverse; \<open>VncAuth\<close> is \<open>vncauth.c\<close> and the password
  checks of \<open>main.c\<close>; \<open>SecHandlers\<close> and \<open>Auth\<close> are \<open>auth.c\<close> and the handshake of \<open>rfbserver.c\<close>, a step for every
  message of a client; \<open>AuthSafety\<close> has the invariants of all reachable states.

  \<^bold>\<open>The Android side.\<close>
  \<open>FbVnc\<close>, \<open>FbServer\<close> and \<open>Suinput\<close> are the programs around the library; \<open>FbScreen\<close> is about polling the screen
  in the four orientations, \<open>FbInput\<close> about keys and touches, \<open>FbMessages\<close> about options and the
  messages to the front end.

  \<^bold>\<open>Conventions.\<close>
  Pixels are words whose length is the number of bits per pixel; pictures are functions of
  coordinates. The host is little-endian, as the devices are. What fails in C is a value: \<open>None\<close> for
  undefined behaviour or a loop that does not end, \<open>False\<close> for \<open>FALSE\<close>. Any write to a socket may be
  the first to fail (\<open>writes_left\<close>). Loops are total functions with their measure, so there is no fuel.

  \<^bold>\<open>Not modelled.\<close>
  Threads and locks, statistics, the log, the HTTP server, file transfer, scaling for a client, text drawing;
  the encoder Tight, which rests on zlib and libjpeg, and the lossy transforms of ZYWRLE. \<open>rfbSendFramebufferUpdate\<close> takes the
  encoders that compress as arguments; scaling and the transfer of files are arguments in \<open>NormalMessages\<close>. \<open>jni/jpeg\<close> is a vendored library; the Java part is not C.
\<close>

end
